(* ===== verification/Governance.thy ===== *)
theory Governance
  imports Prelude
begin

text \<open>
  Governance policies (\<open>packages/shared/src/governance-policy.ts\<close> and
  \<open>effective-classification.ts\<close>): the rule language, the evaluator that resolves one
  state for an agent, a connector and a tool, the operations that edit a policy, and the
  tool catalogue. Timestamps the code takes from the clock are arguments named \<open>now\<close>;
  \<open>localeCompare\<close> is the argument \<open>lc\<close>.
\<close>

section \<open>Data\<close>

datatype tool_policy_state = Allow | Deny | Require_Approval | Require_Input | Inherit

datatype tool_risk_class = Read | Write | Destructive

datatype classification = Risk tool_risk_class | Unknown_Risk

datatype classification_source = Inferred | Manual | Registry

record tool_policy_rule =
  mcp_id :: string
  tool_name :: string
  rule_state :: tool_policy_state
  rule_reason :: "string option"
  rule_updated_at :: "string option"
  rule_updated_by :: "string option"

record risk_defaults =
  rd_read :: tool_policy_state
  rd_write :: tool_policy_state
  rd_destructive :: tool_policy_state
  rd_unknown :: tool_policy_state

definition emptyRiskDefaults :: risk_defaults where
  "emptyRiskDefaults =
     \<lparr>rd_read = Inherit, rd_write = Inherit, rd_destructive = Inherit, rd_unknown = Inherit\<rparr>"

record platform_rules =
  always_deny :: "tool_policy_rule list"
  always_allow :: "tool_policy_rule list"
  default_require_approval :: "tool_policy_rule list"

text \<open>\<open>version\<close> is the literal 1. The \<open>agents\<close> record is a map from agent ids.\<close>

record governance_policy =
  version :: nat
  platform :: platform_rules
  agents :: "string \<rightharpoonup> tool_policy_rule list"
  risk_defaults :: risk_defaults
  policy_updated_at :: "string option"

definition emptyGovernancePolicy :: governance_policy where
  "emptyGovernancePolicy =
     \<lparr>version = 1,
      platform = \<lparr>always_deny = [], always_allow = [], default_require_approval = []\<rparr>,
      agents = Map.empty,
      risk_defaults = emptyRiskDefaults,
      policy_updated_at = None\<rparr>"

section \<open>Evaluation\<close>

definition matchRule :: "tool_policy_rule \<Rightarrow> string \<Rightarrow> string \<Rightarrow> bool" where
  "matchRule rule mcpId toolName =
     (let mcpMatch = (mcp_id rule = ''*'' \<or> mcp_id rule = mcpId);
          toolMatch = (tool_name rule = ''*'' \<or> tool_name rule = toolName \<or>
                       (ends_with (tool_name rule) ''*'' \<and>
                        starts_with toolName (butlast (tool_name rule))))
      in mcpMatch \<and> toolMatch)"

definition specificity :: "tool_policy_rule \<Rightarrow> int" where
  "specificity rule =
     (let mcpScore = (if mcp_id rule = ''*'' then 0 else 2);
          toolScore = (if tool_name rule = ''*'' then 0
                       else if ends_with (tool_name rule) ''*'' then 1 else 3)
      in mcpScore + toolScore)"

text \<open>The loop of \<open>bestMatch\<close>, with the best rule so far and its score.\<close>

fun bestMatch_loop ::
  "(tool_policy_rule \<times> int) option \<Rightarrow> tool_policy_rule list \<Rightarrow> string \<Rightarrow> string
   \<Rightarrow> (tool_policy_rule \<times> int) option" where
  "bestMatch_loop best [] mcpId toolName = best"
| "bestMatch_loop best (rule # rules) mcpId toolName =
     (if \<not> matchRule rule mcpId toolName then bestMatch_loop best rules mcpId toolName
      else let score = specificity rule in
        case best of
          None \<Rightarrow> bestMatch_loop (Some (rule, score)) rules mcpId toolName
        | Some (r, s) \<Rightarrow>
            if score > s then bestMatch_loop (Some (rule, score)) rules mcpId toolName
            else bestMatch_loop best rules mcpId toolName)"

definition bestMatch ::
  "tool_policy_rule list \<Rightarrow> string \<Rightarrow> string \<Rightarrow> tool_policy_rule option" where
  "bestMatch rules mcpId toolName = map_option fst (bestMatch_loop None rules mcpId toolName)"

datatype policy_source = Platform_Deny | Agent_Rule | Platform_Allow
  | Platform_Require_Approval | Risk_Default | Default

record policy_evaluation =
  eval_state :: tool_policy_state
  eval_source :: policy_source
  eval_rule :: "tool_policy_rule option"
  eval_reason :: "string option"
  eval_classification :: "classification option"

record policy_query =
  q_agentId :: string
  q_mcpId :: string
  q_toolName :: string
  q_classification :: "classification option"

fun state_name :: "tool_policy_state \<Rightarrow> string" where
  "state_name Allow = ''allow''"
| "state_name Deny = ''deny''"
| "state_name Require_Approval = ''require_approval''"
| "state_name Require_Input = ''require_input''"
| "state_name Inherit = ''inherit''"

fun bucket_name :: "classification \<Rightarrow> string" where
  "bucket_name (Risk Read) = ''read''"
| "bucket_name (Risk Write) = ''write''"
| "bucket_name (Risk Destructive) = ''destructive''"
| "bucket_name Unknown_Risk = ''unknown''"

fun risk_bucket :: "risk_defaults \<Rightarrow> classification \<Rightarrow> tool_policy_state" where
  "risk_bucket rd (Risk Read) = rd_read rd"
| "risk_bucket rd (Risk Write) = rd_write rd"
| "risk_bucket rd (Risk Destructive) = rd_destructive rd"
| "risk_bucket rd Unknown_Risk = rd_unknown rd"

definition platform_pick ::
  "tool_policy_rule option \<Rightarrow> tool_policy_rule option \<Rightarrow> classification option
   \<Rightarrow> policy_evaluation option" where
  "platform_pick platformAllow platformApproval cls =
     (let allowScore = (case platformAllow of None \<Rightarrow> -1 | Some r \<Rightarrow> specificity r);
          approvalScore = (case platformApproval of None \<Rightarrow> -1 | Some r \<Rightarrow> specificity r)
      in case (platformAllow, platformApproval) of
           (None, None) \<Rightarrow> None
         | (_, Some r) \<Rightarrow>
             if approvalScore \<ge> allowScore
             then Some \<lparr>eval_state = Require_Approval, eval_source = Platform_Require_Approval,
                    eval_rule = Some r,
                    eval_reason = Some (coalesce (rule_reason r) ''Platform default requires approval''),
                    eval_classification = cls\<rparr>
             else map_option (\<lambda>a. \<lparr>eval_state = Allow, eval_source = Platform_Allow,
                    eval_rule = Some a,
                    eval_reason = Some (coalesce (rule_reason a) ''Allowed by org-wide allowlist''),
                    eval_classification = cls\<rparr>) platformAllow
         | (Some a, None) \<Rightarrow>
             Some \<lparr>eval_state = Allow, eval_source = Platform_Allow,
                    eval_rule = Some a,
                    eval_reason = Some (coalesce (rule_reason a) ''Allowed by org-wide allowlist''),
                    eval_classification = cls\<rparr>)"

definition evaluatePolicy :: "governance_policy \<Rightarrow> policy_query \<Rightarrow> policy_evaluation" where
  "evaluatePolicy policy query =
     (let agentId = q_agentId query; mcpId = q_mcpId query; toolName = q_toolName query;
          cls = q_classification query
      in
      case bestMatch (always_deny (platform policy)) mcpId toolName of
        Some platformDeny \<Rightarrow>
          \<lparr>eval_state = Deny, eval_source = Platform_Deny, eval_rule = Some platformDeny,
           eval_reason = Some (coalesce (rule_reason platformDeny) ''Denied by platform kill-switch''),
           eval_classification = cls\<rparr>
      | None \<Rightarrow>
      (let agentRules = coalesce (agents policy agentId) [];
           agentRule = bestMatch agentRules mcpId toolName;
           fromPlatform =
             (let platformAllow = bestMatch (always_allow (platform policy)) mcpId toolName;
                  platformApproval =
                    bestMatch (default_require_approval (platform policy)) mcpId toolName
              in case platform_pick platformAllow platformApproval cls of
                   Some e \<Rightarrow> e
                 | None \<Rightarrow>
                   (case cls of
                      None \<Rightarrow> \<lparr>eval_state = Inherit, eval_source = Default, eval_rule = None,
                               eval_reason = None, eval_classification = cls\<rparr>
                    | Some bucket \<Rightarrow>
                        (let riskState = risk_bucket (risk_defaults policy) bucket
                         in if riskState \<noteq> Inherit
                            then \<lparr>eval_state = riskState, eval_source = Risk_Default,
                                  eval_rule = None,
                                  eval_reason = Some (''Org default for '' @ bucket_name bucket @
                                     '' tools is '' @ state_name riskState),
                                  eval_classification = cls\<rparr>
                            else \<lparr>eval_state = Inherit, eval_source = Default, eval_rule = None,
                                  eval_reason = None, eval_classification = cls\<rparr>)))
       in case agentRule of
            Some r \<Rightarrow>
              if rule_state r \<noteq> Inherit
              then \<lparr>eval_state = rule_state r, eval_source = Agent_Rule, eval_rule = Some r,
                    eval_reason = rule_reason r, eval_classification = cls\<rparr>
              else fromPlatform
          | None \<Rightarrow> fromPlatform))"

section \<open>Editing a policy\<close>

definition same_target :: "string \<Rightarrow> string \<Rightarrow> tool_policy_rule \<Rightarrow> bool" where
  "same_target mcpId toolName r = (mcp_id r = mcpId \<and> tool_name r = toolName)"

definition setAgentRule ::
  "governance_policy \<Rightarrow> string \<Rightarrow> tool_policy_rule \<Rightarrow> string \<Rightarrow> governance_policy" where
  "setAgentRule policy agentId rule now =
     (let existing = coalesce (agents policy agentId) [];
          filtered = filter (\<lambda>r. \<not> same_target (mcp_id rule) (tool_name rule) r) existing
      in policy\<lparr>agents := (agents policy)(agentId \<mapsto> filtered @ [rule]),
                policy_updated_at := Some (coalesce (rule_updated_at rule) now)\<rparr>)"

definition omitKey :: "(string \<rightharpoonup> 'a) \<Rightarrow> string \<Rightarrow> (string \<rightharpoonup> 'a)" where
  "omitKey obj key = obj(key := None)"

definition removeAgentRule ::
  "governance_policy \<Rightarrow> string \<Rightarrow> string \<Rightarrow> string \<Rightarrow> string \<Rightarrow> governance_policy" where
  "removeAgentRule policy agentId mcpId toolName now =
     (case agents policy agentId of
        None \<Rightarrow> policy
      | Some existing \<Rightarrow>
          (let filtered = filter (\<lambda>r. \<not> same_target mcpId toolName r) existing;
               agents' = (if length filtered = 0 then omitKey (agents policy) agentId
                          else (agents policy)(agentId \<mapsto> filtered))
           in policy\<lparr>agents := agents', policy_updated_at := Some now\<rparr>))"

definition clearAgent :: "governance_policy \<Rightarrow> string \<Rightarrow> string \<Rightarrow> governance_policy" where
  "clearAgent policy agentId now =
     (case agents policy agentId of
        None \<Rightarrow> policy
      | Some _ \<Rightarrow> policy\<lparr>agents := omitKey (agents policy) agentId, policy_updated_at := Some now\<rparr>)"

datatype platform_bucket = Bucket_Deny | Bucket_Allow | Bucket_Approval

fun bucket_rules :: "platform_rules \<Rightarrow> platform_bucket \<Rightarrow> tool_policy_rule list" where
  "bucket_rules p Bucket_Deny = always_deny p"
| "bucket_rules p Bucket_Allow = always_allow p"
| "bucket_rules p Bucket_Approval = default_require_approval p"

fun put_bucket :: "platform_rules \<Rightarrow> platform_bucket \<Rightarrow> tool_policy_rule list \<Rightarrow> platform_rules" where
  "put_bucket p Bucket_Deny rs = p\<lparr>always_deny := rs\<rparr>"
| "put_bucket p Bucket_Allow rs = p\<lparr>always_allow := rs\<rparr>"
| "put_bucket p Bucket_Approval rs = p\<lparr>default_require_approval := rs\<rparr>"

definition setPlatformRule ::
  "governance_policy \<Rightarrow> platform_bucket \<Rightarrow> tool_policy_rule \<Rightarrow> string \<Rightarrow> governance_policy" where
  "setPlatformRule policy bucket rule now =
     (let existing = bucket_rules (platform policy) bucket;
          filtered = filter (\<lambda>r. \<not> same_target (mcp_id rule) (tool_name rule) r) existing
      in policy\<lparr>platform := put_bucket (platform policy) bucket (filtered @ [rule]),
                policy_updated_at := Some (coalesce (rule_updated_at rule) now)\<rparr>)"

definition removePlatformRule ::
  "governance_policy \<Rightarrow> platform_bucket \<Rightarrow> string \<Rightarrow> string \<Rightarrow> string \<Rightarrow> governance_policy" where
  "removePlatformRule policy bucket mcpId toolName now =
     (let existing = bucket_rules (platform policy) bucket;
          filtered = filter (\<lambda>r. \<not> same_target mcpId toolName r) existing
      in if length filtered = length existing then policy
         else policy\<lparr>platform := put_bucket (platform policy) bucket filtered,
                     policy_updated_at := Some now\<rparr>)"

record risk_defaults_patch =
  rdp_read :: "tool_policy_state option"
  rdp_write :: "tool_policy_state option"
  rdp_destructive :: "tool_policy_state option"
  rdp_unknown :: "tool_policy_state option"

definition setRiskDefaults ::
  "governance_policy \<Rightarrow> risk_defaults_patch \<Rightarrow> string \<Rightarrow> governance_policy" where
  "setRiskDefaults policy patch now =
     (let cur = risk_defaults policy;
          merged = \<lparr>rd_read = coalesce (rdp_read patch) (rd_read cur),
                    rd_write = coalesce (rdp_write patch) (rd_write cur),
                    rd_destructive = coalesce (rdp_destructive patch) (rd_destructive cur),
                    rd_unknown = coalesce (rdp_unknown patch) (rd_unknown cur)\<rparr>
      in policy\<lparr>risk_defaults := merged, policy_updated_at := Some now\<rparr>)"

section \<open>Classification and the tool catalogue\<close>

datatype effective_source = Src classification_source | Src_Unknown

definition resolveClassification ::
  "(tool_risk_class \<times> classification_source) option \<Rightarrow> tool_risk_class option
   \<Rightarrow> classification \<times> effective_source" where
  "resolveClassification stored inferred =
     (case stored of
        Some (risk, source) \<Rightarrow> (Risk risk, Src source)
      | None \<Rightarrow>
          (case inferred of
             Some r \<Rightarrow> (Risk r, Src Inferred)
           | None \<Rightarrow> (Unknown_Risk, Src_Unknown)))"

record catalog_tool =
  ct_name :: string
  ct_description :: "string option"

record catalog_mcp =
  cm_id :: string
  cm_name :: string
  cm_tools :: "catalog_tool list"
  cm_destructiveTools :: "string list option"

record catalog_entry =
  ce_mcp_id :: string
  ce_mcp_name :: string
  ce_tool_name :: string
  ce_description :: "string option"
  ce_destructive :: bool
  ce_agents :: "string list"

fun agentsByMcp :: "(string \<rightharpoonup> string list) \<Rightarrow> (string \<times> string) list \<Rightarrow> (string \<rightharpoonup> string list)" where
  "agentsByMcp m [] = m"
| "agentsByMcp m ((aid, amcp) # as) = agentsByMcp (m(amcp \<mapsto> coalesce (m amcp) [] @ [aid])) as"

definition catalog_of_mcp :: "(string \<rightharpoonup> string list) \<Rightarrow> catalog_mcp \<Rightarrow> catalog_entry list" where
  "catalog_of_mcp byMcp m =
     (let destructive = set (coalesce (cm_destructiveTools m) []);
          users = coalesce (byMcp (cm_id m)) []
      in map (\<lambda>t. \<lparr>ce_mcp_id = cm_id m, ce_mcp_name = cm_name m, ce_tool_name = ct_name t,
                   ce_description = ct_description t,
                   ce_destructive = (ct_name t \<in> destructive), ce_agents = users\<rparr>) (cm_tools m))"

definition catalog_cmp :: "(string \<Rightarrow> string \<Rightarrow> int) \<Rightarrow> catalog_entry \<Rightarrow> catalog_entry \<Rightarrow> int" where
  "catalog_cmp lc a b =
     (if ce_mcp_id a = ce_mcp_id b then lc (ce_tool_name a) (ce_tool_name b)
      else lc (ce_mcp_id a) (ce_mcp_id b))"

definition buildToolCatalog ::
  "(string \<Rightarrow> string \<Rightarrow> int) \<Rightarrow> (string \<times> string) list \<Rightarrow> catalog_mcp list \<Rightarrow> catalog_entry list" where
  "buildToolCatalog lc agts mcps =
     sort_cmp (catalog_cmp lc) (concat (map (catalog_of_mcp (agentsByMcp Map.empty agts)) mcps))"


section \<open>Best match\<close>

text \<open>
  The contract of a resolver that picks one rule of a list: it picks a matching rule of the
  highest score, the first one among equals, and nothing only if nothing matches.
\<close>

locale ranked_choice =
  fixes pick :: "'r list \<Rightarrow> 'r option"
    and fits :: "'r \<Rightarrow> bool"
    and score :: "'r \<Rightarrow> int"
  assumes pick_None: "pick rs = None \<longleftrightarrow> (\<forall>r \<in> set rs. \<not> fits r)"
    and pick_Some: "pick rs = Some r \<Longrightarrow>
      \<exists>pre post. rs = pre @ r # post \<and> fits r \<and>
        (\<forall>x \<in> set pre. fits x \<longrightarrow> score x < score r) \<and>
        (\<forall>x \<in> set post. fits x \<longrightarrow> score x \<le> score r)"
begin

lemma pick_mem: "pick rs = Some r \<Longrightarrow> r \<in> set rs"
  by (drule pick_Some) auto

lemma pick_fits: "pick rs = Some r \<Longrightarrow> fits r"
  by (drule pick_Some) blast

lemma pick_max: "pick rs = Some r \<Longrightarrow> x \<in> set rs \<Longrightarrow> fits x \<Longrightarrow> score x \<le> score r"
  by (drule pick_Some) force

lemma pick_exists: "x \<in> set rs \<Longrightarrow> fits x \<Longrightarrow> \<exists>r. pick rs = Some r"
  using pick_None by (cases "pick rs") blast+

lemma pick_unique_max:
  assumes "r \<in> set rs" and "fits r"
    and "\<And>x. x \<in> set rs \<Longrightarrow> fits x \<Longrightarrow> x \<noteq> r \<Longrightarrow> score x < score r"
  shows "pick rs = Some r"
proof -
  from assms(1,2) obtain q where q: "pick rs = Some q" using pick_exists by blast
  then have "q \<in> set rs" and "fits q" and "score r \<le> score q"
    using pick_mem pick_fits pick_max assms(1,2) by blast+
  with assms(3) [of q] have "q = r" by fastforce
  with q show ?thesis by simp
qed

end

lemma bestMatch_loop_from:
  assumes "s = specificity b"
  shows "\<exists>r. bestMatch_loop (Some (b, s)) rules m t = Some (r, specificity r) \<and>
    ((r = b \<and> (\<forall>x \<in> set rules. matchRule x m t \<longrightarrow> specificity x \<le> specificity b)) \<or>
     (\<exists>pre post. rules = pre @ r # post \<and> matchRule r m t \<and> specificity b < specificity r \<and>
        (\<forall>x \<in> set pre. matchRule x m t \<longrightarrow> specificity x < specificity r) \<and>
        (\<forall>x \<in> set post. matchRule x m t \<longrightarrow> specificity x \<le> specificity r)))"
  using assms
proof (induction rules arbitrary: b s)
  case Nil
  then show ?case by simp
next
  case (Cons y ys)
  let ?b' = "if matchRule y m t \<and> specificity y > specificity b then y else b"
  have step: "bestMatch_loop (Some (b, s)) (y # ys) m t
      = bestMatch_loop (Some (?b', specificity ?b')) ys m t"
    using Cons.prems by (simp add: Let_def)
  from Cons.IH [of "specificity ?b'" ?b'] obtain r where
    r: "bestMatch_loop (Some (?b', specificity ?b')) ys m t = Some (r, specificity r)" and
    alt: "(r = ?b' \<and> (\<forall>x \<in> set ys. matchRule x m t \<longrightarrow> specificity x \<le> specificity ?b')) \<or>
     (\<exists>pre post. ys = pre @ r # post \<and> matchRule r m t \<and> specificity ?b' < specificity r \<and>
        (\<forall>x \<in> set pre. matchRule x m t \<longrightarrow> specificity x < specificity r) \<and>
        (\<forall>x \<in> set post. matchRule x m t \<longrightarrow> specificity x \<le> specificity r))"
    by blast
  from alt have "(r = b \<and> (\<forall>x \<in> set (y # ys). matchRule x m t \<longrightarrow> specificity x \<le> specificity b)) \<or>
     (\<exists>pre post. y # ys = pre @ r # post \<and> matchRule r m t \<and> specificity b < specificity r \<and>
        (\<forall>x \<in> set pre. matchRule x m t \<longrightarrow> specificity x < specificity r) \<and>
        (\<forall>x \<in> set post. matchRule x m t \<longrightarrow> specificity x \<le> specificity r))"
  proof (elim disjE exE conjE, goal_cases)
    case 1
    then show ?case
    proof (cases "matchRule y m t \<and> specificity y > specificity b")
      case True
      with 1 show ?thesis
        by (intro disjI2 exI [of _ "[]"] exI [of _ ys]) simp
    next
      case False
      with 1 show ?thesis by auto
    qed
  next
    case (2 pre post)
    then show ?case
      by (intro disjI2 exI [of _ "y # pre"] exI [of _ post]) (auto split: if_splits)
  qed
  with r step show ?case by metis
qed

lemma bestMatch_loop_None:
  "bestMatch_loop None rules m t = None \<longleftrightarrow> (\<forall>r \<in> set rules. \<not> matchRule r m t)"
proof (induction rules)
  case (Cons y ys)
  then show ?case
    using bestMatch_loop_from [OF refl, of y ys m t] by (auto simp: Let_def)
qed simp

lemma bestMatch_loop_start:
  "bestMatch_loop None rules m t = Some (r, s) \<Longrightarrow>
    \<exists>pre post. rules = pre @ r # post \<and> matchRule r m t \<and>
      (\<forall>x \<in> set pre. matchRule x m t \<longrightarrow> specificity x < specificity r) \<and>
      (\<forall>x \<in> set post. matchRule x m t \<longrightarrow> specificity x \<le> specificity r)"
proof (induction rules)
  case (Cons y ys)
  show ?case
  proof (cases "matchRule y m t")
    case False
    with Cons obtain pre post where "ys = pre @ r # post" and "matchRule r m t"
      and "\<forall>x \<in> set pre. matchRule x m t \<longrightarrow> specificity x < specificity r"
      and "\<forall>x \<in> set post. matchRule x m t \<longrightarrow> specificity x \<le> specificity r"
      by auto
    with False show ?thesis by (intro exI [of _ "y # pre"] exI [of _ post]) simp
  next
    case True
    with Cons.prems have "bestMatch_loop (Some (y, specificity y)) ys m t = Some (r, s)"
      by (simp add: Let_def)
    with bestMatch_loop_from [OF refl, of y ys m t] consider
      "r = y" "\<forall>x \<in> set ys. matchRule x m t \<longrightarrow> specificity x \<le> specificity y"
      | pre post where "ys = pre @ r # post" "matchRule r m t" "specificity y < specificity r"
        "\<forall>x \<in> set pre. matchRule x m t \<longrightarrow> specificity x < specificity r"
        "\<forall>x \<in> set post. matchRule x m t \<longrightarrow> specificity x \<le> specificity r"
      by auto
    then show ?thesis
    proof cases
      case 1
      with True show ?thesis by (intro exI [of _ "[]"] exI [of _ ys]) simp
    next
      case (2 pre post)
      then show ?thesis by (intro exI [of _ "y # pre"] exI [of _ post]) simp
    qed
  qed
qed simp

interpretation bm: ranked_choice "\<lambda>rules. bestMatch rules m t" "\<lambda>r. matchRule r m t" specificity
  for m t
proof unfold_locales
  show "bestMatch rs m t = None \<longleftrightarrow> (\<forall>r \<in> set rs. \<not> matchRule r m t)" for rs
    by (simp add: bestMatch_def bestMatch_loop_None)
next
  fix rs r
  assume "bestMatch rs m t = Some r"
  then obtain s where "bestMatch_loop None rs m t = Some (r, s)"
    by (auto simp: bestMatch_def)
  then show "\<exists>pre post. rs = pre @ r # post \<and> matchRule r m t \<and>
      (\<forall>x \<in> set pre. matchRule x m t \<longrightarrow> specificity x < specificity r) \<and>
      (\<forall>x \<in> set post. matchRule x m t \<longrightarrow> specificity x \<le> specificity r)"
    by (rule bestMatch_loop_start)
qed

lemma specificity_bounds: "0 \<le> specificity r" "specificity r \<le> 5"
  by (simp_all add: specificity_def Let_def)

text \<open>A rule is exact when it names one connector and one tool.\<close>

definition exact_rule :: "tool_policy_rule \<Rightarrow> bool" where
  "exact_rule r = (mcp_id r \<noteq> ''*'' \<and> \<not> ends_with (tool_name r) ''*'')"

lemma ends_with_star [simp]: "ends_with ''*'' ''*''"
  by (simp add: ends_with_def)

lemma specificity_exact: "specificity r = 5 \<longleftrightarrow> exact_rule r"
  by (auto simp: specificity_def exact_rule_def Let_def)

lemma specificity_less: "\<not> exact_rule r \<Longrightarrow> specificity r < 5"
  using specificity_exact [of r] specificity_bounds(2) [of r] by linarith

lemma matchRule_exact:
  "exact_rule r \<Longrightarrow> matchRule r m t \<longleftrightarrow> same_target m t r"
  by (auto simp: exact_rule_def matchRule_def same_target_def Let_def)

lemma bestMatch_exact_put:
  assumes "exact_rule rule"
  shows "bestMatch (filter (\<lambda>r. \<not> same_target (mcp_id rule) (tool_name rule) r) rs @ [rule])
           (mcp_id rule) (tool_name rule) = Some rule"
proof (rule bm.pick_unique_max)
  show "matchRule rule (mcp_id rule) (tool_name rule)"
    using assms by (simp add: matchRule_exact same_target_def)
next
  fix x
  assume x: "x \<in> set (filter (\<lambda>r. \<not> same_target (mcp_id rule) (tool_name rule) r) rs @ [rule])"
    and m: "matchRule x (mcp_id rule) (tool_name rule)" and ne: "x \<noteq> rule"
  then have "\<not> same_target (mcp_id rule) (tool_name rule) x" by auto
  with m have "\<not> exact_rule x" using matchRule_exact by blast
  then have "specificity x < 5" by (rule specificity_less)
  with assms show "specificity x < specificity rule" by (simp add: specificity_exact [THEN iffD2])
qed simp


section \<open>Evaluation as layers\<close>

text \<open>
  The precedence the documentation promises, as a list of layers: the first layer that
  decides wins, and the default is to inherit.
\<close>

definition deny_layer :: "governance_policy \<Rightarrow> policy_query \<Rightarrow> policy_evaluation option" where
  "deny_layer p q =
     map_option (\<lambda>r. \<lparr>eval_state = Deny, eval_source = Platform_Deny, eval_rule = Some r,
         eval_reason = Some (coalesce (rule_reason r) ''Denied by platform kill-switch''),
         eval_classification = q_classification q\<rparr>)
       (bestMatch (always_deny (platform p)) (q_mcpId q) (q_toolName q))"

definition agent_layer :: "governance_policy \<Rightarrow> policy_query \<Rightarrow> policy_evaluation option" where
  "agent_layer p q =
     (case bestMatch (coalesce (agents p (q_agentId q)) []) (q_mcpId q) (q_toolName q) of
        None \<Rightarrow> None
      | Some r \<Rightarrow> if rule_state r = Inherit then None
          else Some \<lparr>eval_state = rule_state r, eval_source = Agent_Rule, eval_rule = Some r,
                     eval_reason = rule_reason r, eval_classification = q_classification q\<rparr>)"

definition platform_layer :: "governance_policy \<Rightarrow> policy_query \<Rightarrow> policy_evaluation option" where
  "platform_layer p q =
     platform_pick (bestMatch (always_allow (platform p)) (q_mcpId q) (q_toolName q))
       (bestMatch (default_require_approval (platform p)) (q_mcpId q) (q_toolName q))
       (q_classification q)"

definition risk_layer :: "governance_policy \<Rightarrow> policy_query \<Rightarrow> policy_evaluation option" where
  "risk_layer p q =
     (case q_classification q of
        None \<Rightarrow> None
      | Some b \<Rightarrow> if risk_bucket (risk_defaults p) b = Inherit then None
          else Some \<lparr>eval_state = risk_bucket (risk_defaults p) b, eval_source = Risk_Default,
                     eval_rule = None,
                     eval_reason = Some (''Org default for '' @ bucket_name b @ '' tools is '' @
                        state_name (risk_bucket (risk_defaults p) b)),
                     eval_classification = q_classification q\<rparr>)"

definition policy_layers ::
  "governance_policy \<Rightarrow> policy_query \<Rightarrow> policy_evaluation option list" where
  "policy_layers p q = [deny_layer p q, agent_layer p q, platform_layer p q, risk_layer p q]"

definition inherit_evaluation :: "policy_query \<Rightarrow> policy_evaluation" where
  "inherit_evaluation q = \<lparr>eval_state = Inherit, eval_source = Default, eval_rule = None,
     eval_reason = None, eval_classification = q_classification q\<rparr>"

lemmas layer_defs = deny_layer_def agent_layer_def platform_layer_def risk_layer_def
  inherit_evaluation_def

lemma evaluatePolicy_layers:
  "evaluatePolicy p q = coalesce (first_some (policy_layers p q)) (inherit_evaluation q)"
  unfolding evaluatePolicy_def policy_layers_def layer_defs
  by (auto simp: Let_def split: option.splits)

lemma evaluate_denied:
  assumes "r \<in> set (always_deny (platform p))" and "matchRule r (q_mcpId q) (q_toolName q)"
  shows "eval_state (evaluatePolicy p q) = Deny \<and> eval_source (evaluatePolicy p q) = Platform_Deny"
proof -
  from assms obtain d where "bestMatch (always_deny (platform p)) (q_mcpId q) (q_toolName q) = Some d"
    using bm.pick_exists by blast
  then show ?thesis by (simp add: evaluatePolicy_def Let_def)
qed

lemma not_denied_layer:
  "(\<And>r. r \<in> set (always_deny (platform p)) \<Longrightarrow> \<not> matchRule r (q_mcpId q) (q_toolName q))
   \<Longrightarrow> deny_layer p q = None"
  by (simp add: deny_layer_def bm.pick_None)

lemma platform_pick_allow:
  assumes "platform_pick a b cls = Some e" and "eval_state e = Allow"
  shows "\<exists>r. a = Some r \<and> (\<forall>r'. b = Some r' \<longrightarrow> specificity r' < specificity r)"
  using assms specificity_bounds(1)
  by (auto simp: platform_pick_def Let_def not_le split: option.splits if_splits)

lemma platform_pick_state:
  "platform_pick a b cls = Some e \<Longrightarrow>
     (eval_state e = Allow \<and> eval_source e = Platform_Allow) \<or>
     (eval_state e = Require_Approval \<and> eval_source e = Platform_Require_Approval)"
  by (auto simp: platform_pick_def Let_def split: option.splits if_splits)

lemma layer_sources:
  "deny_layer p q = Some e \<Longrightarrow> eval_source e = Platform_Deny \<and> eval_state e = Deny"
  "agent_layer p q = Some e \<Longrightarrow> eval_source e = Agent_Rule \<and> eval_state e \<noteq> Inherit"
  "risk_layer p q = Some e \<Longrightarrow> eval_source e = Risk_Default \<and> eval_state e \<noteq> Inherit"
  by (auto simp: layer_defs split: option.splits if_splits)

section \<open>Edits and the well-formedness of a policy\<close>

text \<open>No list of rules names the same connector and tool twice.\<close>

definition distinct_targets :: "tool_policy_rule list \<Rightarrow> bool" where
  "distinct_targets rs = distinct (map (\<lambda>r. (mcp_id r, tool_name r)) rs)"

definition policy_wf :: "governance_policy \<Rightarrow> bool" where
  "policy_wf p \<longleftrightarrow>
     (\<forall>b. distinct_targets (bucket_rules (platform p) b)) \<and>
     (\<forall>a rs. agents p a = Some rs \<longrightarrow> rs \<noteq> [] \<and> distinct_targets rs)"

lemma distinct_targets_filter [intro]: "distinct_targets rs \<Longrightarrow> distinct_targets (filter P rs)"
  by (simp add: distinct_targets_def distinct_map_filter)

lemma distinct_targets_put:
  "distinct_targets rs \<Longrightarrow>
     distinct_targets (filter (\<lambda>r. \<not> same_target (mcp_id x) (tool_name x) r) rs @ [x])"
  by (auto simp: distinct_targets_def distinct_map_filter same_target_def)

lemma bucket_put [simp]:
  "bucket_rules (put_bucket pl b rs) b' = (if b' = b then rs else bucket_rules pl b')"
  by (cases b; cases b') simp_all

lemma always_deny_put:
  "always_deny (put_bucket pl b rs) = (if b = Bucket_Deny then rs else always_deny pl)"
  by (cases b) simp_all

lemma policy_wf_empty: "policy_wf emptyGovernancePolicy"
proof -
  have "distinct_targets (bucket_rules (platform emptyGovernancePolicy) b)" for b
    by (cases b) (simp_all add: emptyGovernancePolicy_def distinct_targets_def)
  then show ?thesis by (simp add: policy_wf_def emptyGovernancePolicy_def)
qed

datatype policy_edit =
    Set_Agent_Rule string tool_policy_rule string
  | Remove_Agent_Rule string string string string
  | Clear_Agent string string
  | Set_Platform_Rule platform_bucket tool_policy_rule string
  | Remove_Platform_Rule platform_bucket string string string
  | Set_Risk_Defaults risk_defaults_patch string

fun apply_edit :: "policy_edit \<Rightarrow> governance_policy \<Rightarrow> governance_policy" where
  "apply_edit (Set_Agent_Rule a r now) p = setAgentRule p a r now"
| "apply_edit (Remove_Agent_Rule a m t now) p = removeAgentRule p a m t now"
| "apply_edit (Clear_Agent a now) p = clearAgent p a now"
| "apply_edit (Set_Platform_Rule b r now) p = setPlatformRule p b r now"
| "apply_edit (Remove_Platform_Rule b m t now) p = removePlatformRule p b m t now"
| "apply_edit (Set_Risk_Defaults d now) p = setRiskDefaults p d now"

lemmas edit_defs = setAgentRule_def removeAgentRule_def clearAgent_def setPlatformRule_def
  removePlatformRule_def setRiskDefaults_def omitKey_def

lemma policy_wf_setAgentRule [step_intros]: "policy_wf p \<Longrightarrow> policy_wf (setAgentRule p a r now)"
proof -
  assume wf: "policy_wf p"
  then have "distinct_targets (coalesce (agents p a) [])"
    by (cases "agents p a") (auto simp: policy_wf_def distinct_targets_def)
  with wf show "policy_wf (setAgentRule p a r now)"
    by (auto simp: policy_wf_def setAgentRule_def Let_def intro: distinct_targets_put)
qed

lemma policy_wf_removeAgentRule [step_intros]:
  "policy_wf p \<Longrightarrow> policy_wf (removeAgentRule p a m t now)"
  by (auto simp: policy_wf_def removeAgentRule_def omitKey_def Let_def split: option.splits)

lemma policy_wf_clearAgent [step_intros]: "policy_wf p \<Longrightarrow> policy_wf (clearAgent p a now)"
  by (auto simp: policy_wf_def clearAgent_def omitKey_def split: option.splits)

lemma policy_wf_setPlatformRule [step_intros]:
  "policy_wf p \<Longrightarrow> policy_wf (setPlatformRule p b r now)"
  by (auto simp: policy_wf_def setPlatformRule_def Let_def intro: distinct_targets_put)

lemma policy_wf_removePlatformRule [step_intros]:
  "policy_wf p \<Longrightarrow> policy_wf (removePlatformRule p b m t now)"
  by (auto simp: policy_wf_def removePlatformRule_def Let_def)

lemma policy_wf_setRiskDefaults [step_intros]: "policy_wf p \<Longrightarrow> policy_wf (setRiskDefaults p d now)"
  by (simp add: policy_wf_def setRiskDefaults_def Let_def)

lemma apply_edit_wf: "policy_wf p \<Longrightarrow> policy_wf (apply_edit e p)"
  by (cases e) (auto intro: step_intros)

interpretation policy_edits: invariant_machine apply_edit policy_wf
  by unfold_locales (rule apply_edit_wf)

lemma setAgentRule_frame [frame_simps]:
  "platform (setAgentRule p a r now) = platform p"
  "risk_defaults (setAgentRule p a r now) = risk_defaults p"
  "agents (setAgentRule p a r now) a' =
     (if a' = a then Some (filter (\<lambda>x. \<not> same_target (mcp_id r) (tool_name r) x)
        (coalesce (agents p a) []) @ [r]) else agents p a')"
  by (simp_all add: setAgentRule_def Let_def)

lemma evaluate_setAgentRule:
  assumes "exact_rule r" and "rule_state r \<noteq> Inherit"
    and "deny_layer p q = None"
    and "q_agentId q = a" and "q_mcpId q = mcp_id r" and "q_toolName q = tool_name r"
  shows "eval_state (evaluatePolicy (setAgentRule p a r now) q) = rule_state r
    \<and> eval_rule (evaluatePolicy (setAgentRule p a r now) q) = Some r"
proof -
  have "deny_layer (setAgentRule p a r now) q = None"
    using assms(3) by (simp add: deny_layer_def frame_simps)
  with assms show ?thesis
    by (simp add: evaluatePolicy_layers policy_layers_def agent_layer_def frame_simps
        bestMatch_exact_put)
qed

lemma filter_no_target:
  "(\<And>x. x \<in> set rs \<Longrightarrow> \<not> same_target m t x) \<Longrightarrow> filter (\<lambda>x. \<not> same_target m t x) rs = rs"
  by (simp add: filter_id_conv)

lemma removeAgentRule_setAgentRule:
  assumes "\<And>x. x \<in> set (coalesce (agents p a) []) \<Longrightarrow> \<not> same_target (mcp_id r) (tool_name r) x"
    and "agents p a \<noteq> Some []"
  shows "agents (removeAgentRule (setAgentRule p a r now) a (mcp_id r) (tool_name r) now') = agents p"
  using assms
  by (cases "agents p a")
    (auto simp: removeAgentRule_def setAgentRule_def omitKey_def Let_def same_target_def
      filter_no_target fun_eq_iff filter_id_conv)

section \<open>The catalogue\<close>

lemma agentsByMcp_lookup:
  "coalesce (agentsByMcp m0 as m) [] = coalesce (m0 m) [] @ map fst (filter (\<lambda>a. snd a = m) as)"
proof (induction as arbitrary: m0)
  case (Cons x xs)
  obtain aid amcp where x: "x = (aid, amcp)" by (cases x)
  show ?case
    by (simp add: x Cons.IH del: fun_upd_apply) simp
qed simp

lemma set_buildToolCatalog:
  "set (buildToolCatalog lc as ms) =
     (\<Union>m \<in> set ms. \<Union>t \<in> set (cm_tools m).
        {\<lparr>ce_mcp_id = cm_id m, ce_mcp_name = cm_name m, ce_tool_name = ct_name t,
          ce_description = ct_description t,
          ce_destructive = (ct_name t \<in> set (coalesce (cm_destructiveTools m) [])),
          ce_agents = map fst (filter (\<lambda>a. snd a = cm_id m) as)\<rparr>})"
  by (auto simp: buildToolCatalog_def catalog_of_mcp_def Let_def agentsByMcp_lookup)

section \<open>Properties\<close>


text \<open>
  An exact agent rule that \<open>setAgentRule\<close> stores decides the calls it names, with its
  own state, unless a kill-switch rule matches.
\<close>

theorem setAgentRule_effective:
  assumes "exact_rule r" and "rule_state r \<noteq> Inherit"
    and "\<And>d. d \<in> set (always_deny (platform p)) \<Longrightarrow> \<not> matchRule d (mcp_id r) (tool_name r)"
  shows "eval_state (evaluatePolicy (setAgentRule p a r now)
      \<lparr>q_agentId = a, q_mcpId = mcp_id r, q_toolName = tool_name r, q_classification = c\<rparr>) = rule_state r"
  using evaluate_setAgentRule [OF assms(1,2) not_denied_layer] assms(3) by simp

definition sample_rule :: "string \<Rightarrow> string \<Rightarrow> tool_policy_state \<Rightarrow> tool_policy_rule" where
  "sample_rule m t s = \<lparr>mcp_id = m, tool_name = t, rule_state = s, rule_reason = None,
     rule_updated_at = None, rule_updated_by = None\<rparr>"

theorem setAgentRule_effective_witness:
  "eval_state (evaluatePolicy
     (setAgentRule (setPlatformRule emptyGovernancePolicy Bucket_Approval (sample_rule ''*'' ''*'' Require_Approval) ''t0'')
        ''qa'' (sample_rule ''fs'' ''read'' Allow) ''t1'')
     \<lparr>q_agentId = ''qa'', q_mcpId = ''fs'', q_toolName = ''read'', q_classification = None\<rparr>) = Allow"
proof -
  let ?r = "sample_rule ''fs'' ''read'' Allow"
  have "exact_rule ?r" by (simp add: exact_rule_def sample_rule_def ends_with_def)
  from setAgentRule_effective [OF this, of "setPlatformRule emptyGovernancePolicy Bucket_Approval
      (sample_rule ''*'' ''*'' Require_Approval) ''t0''" "''qa''" "''t1''" None]
  show ?thesis
    by (simp add: sample_rule_def setPlatformRule_def emptyGovernancePolicy_def Let_def)
qed

text \<open>
  A call the org-wide allowlist lets through is matched by no kill-switch rule, and by
  no approval rule that is as specific as the allowing rule: a broad allowlist never
  overrides a narrower approval gate.
\<close>

theorem platform_allow_yields_to_gates:
  assumes "eval_state (evaluatePolicy p q) = Allow"
    and "eval_source (evaluatePolicy p q) = Platform_Allow"
  shows "(\<forall>d \<in> set (always_deny (platform p)). \<not> matchRule d (q_mcpId q) (q_toolName q)) \<and>
    (\<exists>r \<in> set (always_allow (platform p)). matchRule r (q_mcpId q) (q_toolName q) \<and>
       (\<forall>g \<in> set (default_require_approval (platform p)).
          matchRule g (q_mcpId q) (q_toolName q) \<longrightarrow> specificity g < specificity r))"
proof -
  have nd: "\<forall>d \<in> set (always_deny (platform p)). \<not> matchRule d (q_mcpId q) (q_toolName q)"
    using evaluate_denied [of _ p q] assms(1) by fastforce
  then have "deny_layer p q = None" using not_denied_layer by blast
  then have "\<exists>e. platform_layer p q = Some e \<and> eval_state e = Allow"
    using assms by (cases "agent_layer p q"; cases "platform_layer p q"; cases "risk_layer p q")
      (auto simp: evaluatePolicy_layers policy_layers_def inherit_evaluation_def
        dest: layer_sources)
  then obtain r where r: "bestMatch (always_allow (platform p)) (q_mcpId q) (q_toolName q) = Some r"
    and lt: "\<forall>g. bestMatch (default_require_approval (platform p)) (q_mcpId q) (q_toolName q) = Some g
      \<longrightarrow> specificity g < specificity r"
    unfolding platform_layer_def using platform_pick_allow by blast
  have "specificity g < specificity r"
    if g: "g \<in> set (default_require_approval (platform p))" "matchRule g (q_mcpId q) (q_toolName q)" for g
  proof -
    obtain b where "bestMatch (default_require_approval (platform p)) (q_mcpId q) (q_toolName q) = Some b"
      using bm.pick_exists [OF g] by blast
    with lt bm.pick_max [OF this g] show ?thesis by fastforce
  qed
  with nd r show ?thesis by (blast dest: bm.pick_mem bm.pick_fits)
qed

theorem platform_allow_yields_to_gates_witness:
  "\<exists>p q. eval_source (evaluatePolicy p q) = Platform_Allow \<and>
     (\<exists>r \<in> set (always_allow (platform p)). matchRule r (q_mcpId q) (q_toolName q))"
proof -
  let ?p = "setPlatformRule emptyGovernancePolicy Bucket_Allow (sample_rule ''web'' ''browser_*'' Allow) ''t''"
  let ?q = "\<lparr>q_agentId = ''a'', q_mcpId = ''web'', q_toolName = ''browser_click'', q_classification = None\<rparr>"
  have "eval_state (evaluatePolicy ?p ?q) = Allow" and s: "eval_source (evaluatePolicy ?p ?q) = Platform_Allow"
    by code_simp+
  from platform_allow_yields_to_gates [OF this] s show ?thesis by blast
qed

text \<open>
  Whatever sequence of edits an administrator makes from the empty policy, no list of
  rules names the same connector and tool twice and no agent keeps an empty list.
\<close>

theorem policy_edits_well_formed: "policy_wf (fold apply_edit es emptyGovernancePolicy)"
  by (rule policy_edits.run_inv) (rule policy_wf_empty)

text \<open>
  Removing an agent rule that was just added restores the agents' rules.
\<close>

theorem setAgentRule_removeAgentRule:
  assumes "policy_wf p"
    and "\<forall>x \<in> set (coalesce (agents p a) []). \<not> same_target (mcp_id r) (tool_name r) x"
  shows "agents (removeAgentRule (setAgentRule p a r now) a (mcp_id r) (tool_name r) now') = agents p"
  by (rule removeAgentRule_setAgentRule) (use assms in \<open>auto simp: policy_wf_def\<close>)

theorem setAgentRule_removeAgentRule_witness:
  "agents (removeAgentRule (setAgentRule emptyGovernancePolicy ''qa'' (sample_rule ''fs'' ''read'' Deny) ''t'')
     ''qa'' ''fs'' ''read'' ''u'') = Map.empty"
  using setAgentRule_removeAgentRule [OF policy_wf_empty, of "''qa''" "sample_rule ''fs'' ''read'' Deny" "''t''" "''u''"]
  by (simp add: emptyGovernancePolicy_def sample_rule_def)

end
