(* ===== verification/JsValues.thy ===== *)
theory JsValues
  imports Prelude
begin

text \<open>
  JSON values with \<open>JSON.stringify\<close>, and the regular expressions the modelled code
  tests strings with. Numbers are integers. A regular expression is a first-class value
  with an executable matcher; only the operators the code uses are present.
\<close>

section \<open>JSON\<close>

datatype json =
    JNull
  | JBool bool
  | JNum int
  | JStr string
  | JArr "json list"
  | JObj "(string \<times> json) list"

definition hex_digit :: "nat \<Rightarrow> char" where
  "hex_digit n = (if n < 10 then char_of (48 + n) else char_of (87 + n))"

definition escape_char :: "char \<Rightarrow> string" where
  "escape_char c =
     (if c = CHR 0x22 then [CHR 0x5C, CHR 0x22]
      else if c = CHR 0x5C then [CHR 0x5C, CHR 0x5C]
      else if c = CHR 0x08 then [CHR 0x5C, CHR ''b'']
      else if c = CHR 0x0C then [CHR 0x5C, CHR ''f'']
      else if c = CHR 0x0A then [CHR 0x5C, CHR ''n'']
      else if c = CHR 0x0D then [CHR 0x5C, CHR ''r'']
      else if c = CHR 0x09 then [CHR 0x5C, CHR ''t'']
      else if (of_char c :: nat) < 32
           then [CHR 0x5C, CHR ''u'', CHR ''0'', CHR ''0'',
                 hex_digit (of_char c div 16), hex_digit (of_char c mod 16)]
      else [c])"

definition quote :: "string \<Rightarrow> string" where
  "quote s = CHR 0x22 # concat (map escape_char s) @ [CHR 0x22]"

fun stringify :: "json \<Rightarrow> string" where
  "stringify JNull = ''null''"
| "stringify (JBool b) = (if b then ''true'' else ''false'')"
| "stringify (JNum n) = int_to_str n"
| "stringify (JStr s) = quote s"
| "stringify (JArr xs) = ''['' @ join_with '','' (map stringify xs) @ '']''"
| "stringify (JObj kvs) =
     ''{'' @ join_with '','' (map (\<lambda>kv. quote (fst kv) @ '':'' @ stringify (snd kv)) kvs) @ ''}''"

text \<open>Property access \<open>obj[key]\<close>; the keys of a JavaScript object are unique.\<close>

definition obj_get :: "(string \<times> json) list \<Rightarrow> string \<Rightarrow> json option" where
  "obj_get kvs k = map_of kvs k"

text \<open>\<open>obj[key]\<close> read as a string: \<open>undefined\<close> unless the value is one.\<close>

definition as_string :: "json option \<Rightarrow> string option" where
  "as_string v = (case v of Some (JStr s) \<Rightarrow> Some s | _ \<Rightarrow> None)"

lemma as_string_simps [simp]:
  "as_string None = None" "as_string (Some (JStr s)) = Some s"
  "as_string (Some JNull) = None" "as_string (Some (JBool b)) = None"
  "as_string (Some (JNum n)) = None" "as_string (Some (JArr l)) = None"
  "as_string (Some (JObj kvs)) = None"
  by (simp_all add: as_string_def)

lemma as_string_Some: "as_string v = Some s \<longleftrightarrow> v = Some (JStr s)"
  by (auto simp: as_string_def split: option.splits json.splits)

section \<open>Regular expressions\<close>

datatype rx =
    Cls "char \<Rightarrow> bool"
  | Many "char \<Rightarrow> bool"
  | Some_Of "char \<Rightarrow> bool"
  | Word_Bound
  | Begin
  | End
  | Seq rx rx
  | Alt rx rx
  | Eps

definition is_digit :: "char \<Rightarrow> bool" where
  "is_digit c = (of_char c \<ge> (48::nat) \<and> of_char c \<le> (57::nat))"

definition is_upper :: "char \<Rightarrow> bool" where
  "is_upper c = (of_char c \<ge> (65::nat) \<and> of_char c \<le> (90::nat))"

definition is_lower :: "char \<Rightarrow> bool" where
  "is_lower c = (of_char c \<ge> (97::nat) \<and> of_char c \<le> (122::nat))"

definition is_word :: "char \<Rightarrow> bool" where
  "is_word c = (is_digit c \<or> is_upper c \<or> is_lower c \<or> c = CHR ''_'')"

definition word_at :: "string \<Rightarrow> nat \<Rightarrow> bool" where
  "word_at s i = (i < length s \<and> is_word (s ! i))"

text \<open>The positions at which a match that starts at \<open>i\<close> can end.\<close>

fun rx_ends :: "rx \<Rightarrow> string \<Rightarrow> nat \<Rightarrow> nat list" where
  "rx_ends (Cls p) s i = (if i < length s \<and> p (s ! i) then [Suc i] else [])"
| "rx_ends (Many p) s i = [i ..< Suc (i + length (takeWhile p (drop i s)))]"
| "rx_ends (Some_Of p) s i = [Suc i ..< Suc (i + length (takeWhile p (drop i s)))]"
| "rx_ends Word_Bound s i =
     (if (0 < i \<and> word_at s (i - 1)) \<noteq> word_at s i then [i] else [])"
| "rx_ends Begin s i = (if i = 0 then [i] else [])"
| "rx_ends End s i = (if i = length s then [i] else [])"
| "rx_ends (Seq a b) s i = concat (map (rx_ends b s) (rx_ends a s i))"
| "rx_ends (Alt a b) s i = rx_ends a s i @ rx_ends b s i"
| "rx_ends Eps s i = [i]"

definition rx_test :: "rx \<Rightarrow> string \<Rightarrow> bool" where
  "rx_test r s = (\<exists>i \<in> set [0 ..< Suc (length s)]. rx_ends r s i \<noteq> [])"

definition lit :: "string \<Rightarrow> rx" where
  "lit s = foldr (\<lambda>c r. Seq (Cls (\<lambda>x. x = c)) r) s Eps"

text \<open>A literal under the \<open>i\<close> flag.\<close>

definition lit_ci :: "string \<Rightarrow> rx" where
  "lit_ci s = foldr (\<lambda>c r. Seq (Cls (\<lambda>x. lower_char x = lower_char c)) r) s Eps"

fun seqs :: "rx list \<Rightarrow> rx" where
  "seqs [] = Eps"
| "seqs [r] = r"
| "seqs (r # rs) = Seq r (seqs rs)"

fun alts :: "rx list \<Rightarrow> rx" where
  "alts [] = Cls (\<lambda>_. False)"
| "alts [r] = r"
| "alts (r # rs) = Alt r (alts rs)"

lemma lit_ends: "i \<le> length s \<Longrightarrow> rx_ends (lit p) s i =
    (if starts_with (drop i s) p then [i + length p] else [])"
proof (induction p arbitrary: i)
  case Nil
  then show ?case by (simp add: lit_def)
next
  case (Cons c p)
  show ?case
  proof (cases "i < length s")
    case True
    with Cons.IH [of "Suc i"] show ?thesis
      by (simp add: lit_def Cons_nth_drop_Suc [symmetric])
  next
    case False
    with Cons.prems show ?thesis by (simp add: lit_def starts_with_def)
  qed
qed

lemma rx_test_lit: "rx_test (lit p) s \<longleftrightarrow> includes_str s p"
proof -
  have "(rx_ends (lit p) s i \<noteq> []) = starts_with (drop i s) p"
    if "i \<in> set [0 ..< Suc (length s)]" for i
    using that lit_ends [of i s p] by (simp add: less_Suc_eq_le del: upt_Suc)
  then show ?thesis unfolding rx_test_def includes_str_def by (rule bex_cong [OF refl])
qed


lemma lit_ci_ends: "i \<le> length s \<Longrightarrow> rx_ends (lit_ci p) s i =
    (if starts_with (to_lower (drop i s)) (to_lower p) then [i + length p] else [])"
proof (induction p arbitrary: i)
  case Nil
  then show ?case by (simp add: lit_ci_def to_lower_def)
next
  case (Cons c p)
  show ?case
  proof (cases "i < length s")
    case True
    with Cons.IH [of "Suc i"] show ?thesis
      by (simp add: lit_ci_def to_lower_def Cons_nth_drop_Suc [symmetric])
  next
    case False
    with Cons.prems show ?thesis by (simp add: lit_ci_def to_lower_def starts_with_def)
  qed
qed

lemma rx_seq_ends: "j \<in> set (rx_ends (Seq a b) s i) \<longleftrightarrow>
    (\<exists>k. k \<in> set (rx_ends a s i) \<and> j \<in> set (rx_ends b s k))"
  by auto

lemma rx_some_of_one:
  "p c \<Longrightarrow> Suc (length u) \<in> set (rx_ends (Some_Of p) (u @ c # v) (length u))"
  by (auto simp: less_eq_Suc_le [symmetric] simp del: upt_Suc)

lemma rx_lit_ci_at:
  "length u + length p \<in> set (rx_ends (lit_ci p) (u @ p @ v) (length u))"
  by (simp add: lit_ci_ends to_lower_def)

lemma rx_test_at: "j \<in> set (rx_ends r s i) \<Longrightarrow> i \<le> length s \<Longrightarrow> rx_test r s"
  unfolding rx_test_def by (rule bexI [of _ i]) auto

end
