(* ===== verification/SqlTable.thy ===== *)
theory SqlTable
  imports Prelude
begin

text \<open>
  The fragment of SQLite that the stores use: a table is the list of its rows in insertion
  order, a statement is a function on it, and \<open>LIKE\<close> follows SQLite's rules (case folded,
  no escape character unless the statement declares one).
\<close>

section \<open>Statements\<close>

definition tbl_find :: "('r \<Rightarrow> 'k) \<Rightarrow> 'k \<Rightarrow> 'r list \<Rightarrow> 'r option" where
  "tbl_find key k t = find (\<lambda>r. key r = k) t"

text \<open>\<open>INSERT\<close>: \<open>None\<close> is a violated primary key, an exception in the code.\<close>

definition tbl_insert :: "('r \<Rightarrow> 'k) \<Rightarrow> 'r \<Rightarrow> 'r list \<Rightarrow> 'r list option" where
  "tbl_insert key r t = (if key r \<in> key ` set t then None else Some (t @ [r]))"

text \<open>\<open>INSERT ... ON CONFLICT DO UPDATE\<close>.\<close>

definition tbl_upsert ::
  "('r \<Rightarrow> 'k) \<Rightarrow> ('r \<Rightarrow> 'r \<Rightarrow> 'r) \<Rightarrow> 'r \<Rightarrow> 'r list \<Rightarrow> 'r list" where
  "tbl_upsert key merge r t =
     (if key r \<in> key ` set t
      then map (\<lambda>x. if key x = key r then merge x r else x) t
      else t @ [r])"

definition tbl_update :: "('r \<Rightarrow> bool) \<Rightarrow> ('r \<Rightarrow> 'r) \<Rightarrow> 'r list \<Rightarrow> 'r list" where
  "tbl_update P f t = map (\<lambda>r. if P r then f r else r) t"

definition tbl_delete :: "('r \<Rightarrow> bool) \<Rightarrow> 'r list \<Rightarrow> 'r list" where
  "tbl_delete P t = filter (\<lambda>r. \<not> P r) t"

definition tbl_wf :: "('r \<Rightarrow> 'k) \<Rightarrow> 'r list \<Rightarrow> bool" where
  "tbl_wf key t = distinct (map key t)"

definition by_int :: "('r \<Rightarrow> int) \<Rightarrow> 'r \<Rightarrow> 'r \<Rightarrow> int" where
  "by_int f a b = f a - f b"

definition by_int_desc :: "('r \<Rightarrow> int) \<Rightarrow> 'r \<Rightarrow> 'r \<Rightarrow> int" where
  "by_int_desc f a b = f b - f a"

lemma preorder_by_int [simp]: "preorder_cmp (by_int f)" "preorder_cmp (by_int_desc f)"
  by (auto simp: preorder_cmp_def by_int_def by_int_desc_def)

lemma tbl_wf_Nil [simp]: "tbl_wf key []"
  by (simp add: tbl_wf_def)

lemma tbl_find_None: "tbl_find key k t = None \<longleftrightarrow> k \<notin> key ` set t"
  by (auto simp: tbl_find_def find_None_iff)

lemma tbl_find_Some: "tbl_find key k t = Some r \<Longrightarrow> r \<in> set t \<and> key r = k"
  by (auto simp: tbl_find_def find_Some_iff)

lemma tbl_find_Nil [simp]: "tbl_find key k [] = None"
  by (simp add: tbl_find_def)

lemma tbl_find_Cons [simp]:
  "tbl_find key k (r # t) = (if key r = k then Some r else tbl_find key k t)"
  by (simp add: tbl_find_def)

lemma tbl_find_append:
  "tbl_find key k (t @ u) = (case tbl_find key k t of None \<Rightarrow> tbl_find key k u | Some r \<Rightarrow> Some r)"
  by (induction t) auto

lemma tbl_find_map_key:
  "(\<And>r. r \<in> set t \<Longrightarrow> key (f r) = key r) \<Longrightarrow>
     tbl_find key k (map f t) = map_option f (tbl_find key k t)"
  by (induction t) auto

lemma tbl_find_filter:
  "(\<And>r. r \<in> set t \<Longrightarrow> key r = k \<Longrightarrow> P r) \<Longrightarrow> tbl_find key k (filter P t) = tbl_find key k t"
  by (induction t) auto

lemma tbl_insert_Some: "tbl_insert key r t = Some t' \<longleftrightarrow> key r \<notin> key ` set t \<and> t' = t @ [r]"
  by (auto simp: tbl_insert_def)

lemma tbl_wf_insert [step_intros]: "tbl_wf key t \<Longrightarrow> tbl_insert key r t = Some t' \<Longrightarrow> tbl_wf key t'"
  by (auto simp: tbl_insert_Some tbl_wf_def)

lemma tbl_wf_map:
  "(\<And>r. r \<in> set t \<Longrightarrow> key (f r) = key r) \<Longrightarrow> tbl_wf key t \<Longrightarrow> tbl_wf key (map f t)"
  by (simp add: tbl_wf_def comp_def cong: map_cong)

lemma tbl_wf_update [step_intros]:
  "tbl_wf key t \<Longrightarrow> (\<And>r. r \<in> set t \<Longrightarrow> key (f r) = key r) \<Longrightarrow> tbl_wf key (tbl_update P f t)"
  unfolding tbl_update_def by (rule tbl_wf_map) auto

lemma tbl_wf_delete [step_intros]: "tbl_wf key t \<Longrightarrow> tbl_wf key (tbl_delete P t)"
  by (simp add: tbl_wf_def tbl_delete_def distinct_map_filter)

lemma tbl_wf_upsert [step_intros]:
  "tbl_wf key t \<Longrightarrow> (\<And>x. key x = key r \<Longrightarrow> key (merge x r) = key r) \<Longrightarrow>
     tbl_wf key (tbl_upsert key merge r t)"
  unfolding tbl_upsert_def
  by (auto intro!: tbl_wf_map) (auto simp: tbl_wf_def)

lemma tbl_find_upsert:
  assumes "\<And>x. key x = key r \<Longrightarrow> key (merge x r) = key r"
  shows "tbl_find key k (tbl_upsert key merge r t) =
    (if k = key r then Some (case tbl_find key k t of None \<Rightarrow> r | Some x \<Rightarrow> merge x r)
     else tbl_find key k t)"
proof (cases "key r \<in> key ` set t")
  case True
  have "tbl_find key k (map (\<lambda>x. if key x = key r then merge x r else x) t)
      = map_option (\<lambda>x. if key x = key r then merge x r else x) (tbl_find key k t)"
    by (rule tbl_find_map_key) (auto simp: assms)
  moreover have "k = key r \<Longrightarrow> \<exists>x. tbl_find key k t = Some x \<and> key x = key r"
    using True tbl_find_None [of key k t] tbl_find_Some [of key k t] by force
  ultimately show ?thesis
    using True tbl_find_Some [of key k t]
    by (cases "tbl_find key k t") (auto simp: tbl_upsert_def)
next
  case False
  then have "tbl_find key (key r) t = None" by (simp add: tbl_find_None)
  with False show ?thesis
    by (auto simp: tbl_upsert_def tbl_find_append split: option.splits)
qed

lemma tbl_find_update:
  assumes "\<And>x. P x \<Longrightarrow> key (f x) = key x"
  shows "tbl_find key k (tbl_update P f t) =
    map_option (\<lambda>x. if P x then f x else x) (tbl_find key k t)"
  unfolding tbl_update_def by (rule tbl_find_map_key) (simp add: assms)

lemma tbl_find_wf_mem: "tbl_wf key t \<Longrightarrow> r \<in> set t \<Longrightarrow> tbl_find key (key r) t = Some r"
  by (induction t) (auto simp: tbl_wf_def)

section \<open>Key-value tables\<close>

definition kv_get :: "('k \<times> 'v) list \<Rightarrow> 'k \<Rightarrow> 'v option" where
  "kv_get t k = map_option snd (tbl_find fst k t)"

definition kv_put :: "'k \<Rightarrow> 'v \<Rightarrow> ('k \<times> 'v) list \<Rightarrow> ('k \<times> 'v) list" where
  "kv_put k v t = tbl_upsert fst (\<lambda>_ r. r) (k, v) t"

definition kv_del :: "'k \<Rightarrow> ('k \<times> 'v) list \<Rightarrow> ('k \<times> 'v) list" where
  "kv_del k t = tbl_delete (\<lambda>r. fst r = k) t"

lemma distinct_kv_put: "distinct (map fst t) \<Longrightarrow> distinct (map fst (kv_put k v t))"
  using tbl_wf_upsert [of fst t "(k, v)" "\<lambda>_ r. r"] by (simp add: kv_put_def tbl_wf_def)

lemma set_kv_put: "set (kv_put k v t) \<subseteq> insert (k, v) (set t)"
  by (auto simp: kv_put_def tbl_upsert_def split: if_splits)

interpretation kv: keyed_store kv_get kv_put kv_del
proof unfold_locales
  show "kv_get (kv_put k v s) k' = (if k' = k then Some v else kv_get s k')"
    for k v s k'
    by (auto simp: kv_get_def kv_put_def tbl_find_upsert split: option.splits)
next
  show "kv_get (kv_del k s) k' = (if k' = k then None else kv_get s k')" for k s k'
  proof (cases "k' = k")
    case True
    then show ?thesis by (auto simp: kv_get_def kv_del_def tbl_delete_def tbl_find_None)
  next
    case False
    then show ?thesis by (simp add: kv_get_def kv_del_def tbl_delete_def tbl_find_filter)
  qed
qed

interpretation js_map: keyed_store "\<lambda>m. m" "\<lambda>k v m. m(k \<mapsto> v)" "\<lambda>k m. m(k := None)"
  by unfold_locales auto

section \<open>LIKE\<close>

fun like :: "string \<Rightarrow> string \<Rightarrow> bool" where
  "like [] s = (s = [])"
| "like (p # ps) s =
     (if p = CHR ''%'' then like ps s \<or> (case s of [] \<Rightarrow> False | c # cs \<Rightarrow> like (p # ps) cs)
      else case s of [] \<Rightarrow> False
        | c # cs \<Rightarrow> (p = CHR ''_'' \<or> lower_char p = lower_char c) \<and> like ps cs)"

definition plain_char :: "char \<Rightarrow> bool" where
  "plain_char c = (c \<noteq> CHR ''%'' \<and> c \<noteq> CHR ''_'')"

lemma like_any [simp]: "like ''%'' s"
  by (induction s) simp_all

lemma like_plain_prefix:
  "list_all plain_char p \<Longrightarrow>
     like (p @ ''%'') s \<longleftrightarrow> starts_with (to_lower s) (to_lower p)"
proof (induction p arbitrary: s)
  case (Cons c p)
  then show ?case by (cases s) (auto simp: plain_char_def to_lower_def)
next
  case Nil
  have "like ([] @ ''%'') s" using like_any [of s] by (simp del: like.simps)
  then show ?case by (simp add: to_lower_def del: like.simps)
qed

lemma like_plain_mismatch:
  "list_all plain_char u \<Longrightarrow> plain_char c \<Longrightarrow> lower_char c \<noteq> lower_char d \<Longrightarrow>
     \<not> like (u @ c # p) (u @ d # s)"
  by (induction u) (auto simp: plain_char_def)

text \<open>The unfolding of \<open>like\<close> on an open string does not end; the lemmas above carry it.\<close>

declare like.simps [simp del]

end
