(* ===== verification/ContextStore.thy ===== *)
theory ContextStore
  imports SqlTable JsValues
begin

text \<open>
  The local stores of \<open>packages/context-store/src\<close>: shared context entries with
  subscriptions (\<open>context.ts\<close>), agent and task state (\<open>state.ts\<close>), the task approval
  tracker (\<open>approvals.ts\<close>), pending events (\<open>pending-events.ts\<close>) and the audit log
  (\<open>audit.ts\<close>). Each store is the rows of its table. The clock \<open>nowMs()\<close> and the random
  row ids are arguments. Values stored as JSON text are kept as JSON values.
\<close>

section \<open>Context entries\<close>

record subscription =
  sub_id :: nat
  sub_prefix :: string
  sub_pattern :: string
  sub_lastSeen :: int

record context_store =
  ctx_rows :: "(string \<times> json \<times> int) list"
  ctx_subs :: "subscription list"
  ctx_next :: nat

type_synonym context_entry = "string \<times> json \<times> int"

abbreviation entry_key :: "context_entry \<Rightarrow> string" where "entry_key e \<equiv> fst e"
abbreviation entry_value :: "context_entry \<Rightarrow> json" where "entry_value e \<equiv> fst (snd e)"
abbreviation entry_updatedAt :: "context_entry \<Rightarrow> int" where "entry_updatedAt e \<equiv> snd (snd e)"

text \<open>\<open>put\<close> writes the row, then hands the entry to the in-process subscribers.\<close>

definition ctx_put ::
  "string \<Rightarrow> json \<Rightarrow> int \<Rightarrow> context_store \<Rightarrow> context_store \<times> (nat \<times> context_entry) list" where
  "ctx_put key value ts st =
     (st\<lparr>ctx_rows := kv_put key (value, ts) (ctx_rows st)\<rparr>,
      map (\<lambda>s. (sub_id s, (key, value, ts)))
        (filter (\<lambda>s. starts_with key (sub_prefix s)) (ctx_subs st)))"

definition ctx_get :: "string \<Rightarrow> context_store \<Rightarrow> json option" where
  "ctx_get key st = map_option fst (kv_get (ctx_rows st) key)"

definition ctx_list :: "string \<Rightarrow> context_store \<Rightarrow> context_entry list" where
  "ctx_list prefix st =
     sort_cmp (\<lambda>a b. str_cmp (entry_key a) (entry_key b))
       (filter (\<lambda>e. like (prefix @ ''%'') (entry_key e)) (ctx_rows st))"

definition ctx_delete :: "string \<Rightarrow> context_store \<Rightarrow> context_store" where
  "ctx_delete key st = st\<lparr>ctx_rows := kv_del key (ctx_rows st)\<rparr>"

definition backslash :: char where
  "backslash = CHR 0x5C"

definition escape_with :: "char \<Rightarrow> string \<Rightarrow> string" where
  "escape_with c s = concat (map (\<lambda>x. if x = c then [backslash, c] else [x]) s)"

definition escapePrefix :: "string \<Rightarrow> string" where
  "escapePrefix prefix =
     escape_with (CHR ''_'') (escape_with (CHR ''%'') (escape_with backslash prefix))"

definition ctx_subscribe :: "string \<Rightarrow> int \<Rightarrow> context_store \<Rightarrow> context_store \<times> nat" where
  "ctx_subscribe prefix now st =
     (st\<lparr>ctx_subs := ctx_subs st @
           [\<lparr>sub_id = ctx_next st, sub_prefix = prefix,
             sub_pattern = escapePrefix prefix @ ''%'', sub_lastSeen = now\<rparr>],
         ctx_next := Suc (ctx_next st)\<rparr>,
      ctx_next st)"

definition ctx_unsubscribe :: "nat \<Rightarrow> context_store \<Rightarrow> context_store" where
  "ctx_unsubscribe i st = st\<lparr>ctx_subs := filter (\<lambda>s. sub_id s \<noteq> i) (ctx_subs st)\<rparr>"

definition ctx_flush :: "context_store \<Rightarrow> context_store" where
  "ctx_flush st = st\<lparr>ctx_subs := []\<rparr>"

text \<open>One tick of the poller of a subscription: the rows newer than \<open>lastSeen\<close>, oldest first.\<close>

definition since_rows :: "string \<Rightarrow> int \<Rightarrow> context_entry list \<Rightarrow> context_entry list" where
  "since_rows pattern lastSeen rows =
     sort_cmp (by_int entry_updatedAt)
       (filter (\<lambda>e. like pattern (entry_key e) \<and> entry_updatedAt e > lastSeen) rows)"

fun tick_loop :: "int \<Rightarrow> context_entry list \<Rightarrow> int \<times> context_entry list" where
  "tick_loop lastSeen [] = (lastSeen, [])"
| "tick_loop lastSeen (row # rows) =
     (let r = tick_loop (max lastSeen (entry_updatedAt row)) rows in (fst r, row # snd r))"

definition tick_sub :: "context_entry list \<Rightarrow> subscription \<Rightarrow> subscription \<times> context_entry list" where
  "tick_sub rows s =
     (let r = tick_loop (sub_lastSeen s) (since_rows (sub_pattern s) (sub_lastSeen s) rows)
      in (s\<lparr>sub_lastSeen := fst r\<rparr>, snd r))"

definition ctx_tick :: "nat \<Rightarrow> context_store \<Rightarrow> context_store \<times> context_entry list" where
  "ctx_tick i st =
     (case tbl_find sub_id i (ctx_subs st) of
        None \<Rightarrow> (st, [])
      | Some s \<Rightarrow>
          (let r = tick_sub (ctx_rows st) s
           in (st\<lparr>ctx_subs := tbl_update (\<lambda>x. sub_id x = i) (\<lambda>_. fst r) (ctx_subs st)\<rparr>, snd r)))"

section \<open>Agent state\<close>

datatype agent_status = Idle | Active | Waiting | Blocked | Killed | Exited

record agent_state_record =
  as_agent_id :: string
  as_status :: agent_status
  as_last_action :: "string option"
  as_last_heartbeat :: "int option"
  as_tokens_used :: int
  as_calls_made :: int
  as_updated_at :: int

record agent_state_patch =
  ap_status :: "agent_status option"
  ap_last_action :: "string option"
  ap_last_heartbeat :: "int option"
  ap_tokens_used :: "int option"
  ap_calls_made :: "int option"

type_synonym agent_table = "agent_state_record list"

definition agent_upsert ::
  "string \<Rightarrow> agent_state_patch \<Rightarrow> int \<Rightarrow> agent_table \<Rightarrow> agent_table" where
  "agent_upsert agent_id patch ts t =
     (case tbl_find as_agent_id agent_id t of
        Some _ \<Rightarrow>
          tbl_update (\<lambda>r. as_agent_id r = agent_id)
            (\<lambda>r. r\<lparr>as_status := coalesce (ap_status patch) (as_status r),
                   as_last_action := or_default (ap_last_action patch) (as_last_action r),
                   as_last_heartbeat := or_default (ap_last_heartbeat patch) (as_last_heartbeat r),
                   as_updated_at := ts\<rparr>) t
      | None \<Rightarrow>
          t @ [\<lparr>as_agent_id = agent_id, as_status = coalesce (ap_status patch) Idle,
                as_last_action = ap_last_action patch,
                as_last_heartbeat = ap_last_heartbeat patch,
                as_tokens_used = 0, as_calls_made = 0, as_updated_at = ts\<rparr>])"

definition agent_heartbeat :: "string \<Rightarrow> int \<Rightarrow> agent_table \<Rightarrow> agent_table" where
  "agent_heartbeat agent_id ts t =
     tbl_upsert as_agent_id
       (\<lambda>old new. old\<lparr>as_last_heartbeat := as_last_heartbeat new, as_updated_at := as_updated_at new\<rparr>)
       \<lparr>as_agent_id = agent_id, as_status = Active, as_last_action = None,
        as_last_heartbeat = Some ts, as_tokens_used = 0, as_calls_made = 0, as_updated_at = ts\<rparr> t"

definition agent_incrementTokens :: "string \<Rightarrow> int \<Rightarrow> int \<Rightarrow> agent_table \<Rightarrow> agent_table" where
  "agent_incrementTokens agent_id n ts t =
     tbl_upsert as_agent_id
       (\<lambda>old new. old\<lparr>as_tokens_used := as_tokens_used old + as_tokens_used new,
                      as_updated_at := as_updated_at new\<rparr>)
       \<lparr>as_agent_id = agent_id, as_status = Active, as_last_action = None,
        as_last_heartbeat = None, as_tokens_used = n, as_calls_made = 0, as_updated_at = ts\<rparr> t"

definition agent_incrementCalls :: "string \<Rightarrow> int \<Rightarrow> agent_table \<Rightarrow> agent_table" where
  "agent_incrementCalls agent_id ts t =
     tbl_upsert as_agent_id
       (\<lambda>old new. old\<lparr>as_calls_made := as_calls_made old + 1, as_updated_at := as_updated_at new\<rparr>)
       \<lparr>as_agent_id = agent_id, as_status = Active, as_last_action = None,
        as_last_heartbeat = None, as_tokens_used = 0, as_calls_made = 1, as_updated_at = ts\<rparr> t"

definition agent_get :: "string \<Rightarrow> agent_table \<Rightarrow> agent_state_record option" where
  "agent_get agent_id t = tbl_find as_agent_id agent_id t"

definition agent_list :: "agent_table \<Rightarrow> agent_state_record list" where
  "agent_list t = sort_cmp (\<lambda>a b. str_cmp (as_agent_id a) (as_agent_id b)) t"

section \<open>Task state\<close>

datatype task_status = Running | Paused | Complete | Failed

record task_state_record =
  ts_task_id :: string
  ts_status :: task_status
  ts_started_at :: int
  ts_ended_at :: "int option"
  ts_metadata :: "json option"

definition task_start ::
  "string \<Rightarrow> json option \<Rightarrow> int \<Rightarrow> task_state_record list \<Rightarrow> task_state_record list option" where
  "task_start task_id metadata now t =
     tbl_insert ts_task_id
       \<lparr>ts_task_id = task_id, ts_status = Running, ts_started_at = now, ts_ended_at = None,
        ts_metadata = metadata\<rparr> t"

definition task_setStatus ::
  "string \<Rightarrow> task_status \<Rightarrow> task_state_record list \<Rightarrow> task_state_record list" where
  "task_setStatus task_id status t =
     tbl_update (\<lambda>r. ts_task_id r = task_id) (\<lambda>r. r\<lparr>ts_status := status\<rparr>) t"

definition task_end ::
  "string \<Rightarrow> task_status \<Rightarrow> int \<Rightarrow> task_state_record list \<Rightarrow> task_state_record list" where
  "task_end task_id status now t =
     tbl_update (\<lambda>r. ts_task_id r = task_id)
       (\<lambda>r. r\<lparr>ts_status := status, ts_ended_at := Some now\<rparr>) t"

definition task_get :: "string \<Rightarrow> task_state_record list \<Rightarrow> task_state_record option" where
  "task_get task_id t = tbl_find ts_task_id task_id t"

section \<open>Task approvals\<close>

datatype approval_status = Draft | Pending_Approval | Approved | Rejected

record approval_record =
  apr_id :: string
  apr_task_id :: string
  apr_artifact_key :: string
  apr_domain :: string
  apr_status :: approval_status
  apr_proposed_by :: "string option"
  apr_approved_by :: "string option"
  apr_decided_at :: "int option"
  apr_reason :: "string option"
  apr_created_at :: int

definition approval_propose ::
  "string \<Rightarrow> string \<Rightarrow> string \<Rightarrow> string \<Rightarrow> string \<Rightarrow> int
   \<Rightarrow> approval_record list \<Rightarrow> approval_record list option" where
  "approval_propose ident task_id artifact_key domain proposed_by now t =
     tbl_insert apr_id
       \<lparr>apr_id = ident, apr_task_id = task_id, apr_artifact_key = artifact_key,
        apr_domain = domain, apr_status = Pending_Approval, apr_proposed_by = Some proposed_by,
        apr_approved_by = None, apr_decided_at = None, apr_reason = None, apr_created_at = now\<rparr> t"

definition approval_decide ::
  "string \<Rightarrow> approval_status \<Rightarrow> string \<Rightarrow> string option \<Rightarrow> int
   \<Rightarrow> approval_record list \<Rightarrow> approval_record list" where
  "approval_decide ident status approved_by reason now t =
     tbl_update (\<lambda>r. apr_id r = ident)
       (\<lambda>r. r\<lparr>apr_status := status, apr_approved_by := Some approved_by,
              apr_reason := reason, apr_decided_at := Some now\<rparr>) t"

definition approval_get :: "string \<Rightarrow> approval_record list \<Rightarrow> approval_record option" where
  "approval_get ident t = tbl_find apr_id ident t"

definition approval_listByTask ::
  "string \<Rightarrow> approval_status option \<Rightarrow> approval_record list \<Rightarrow> approval_record list" where
  "approval_listByTask task_id status t =
     sort_cmp (by_int apr_created_at)
       (filter (\<lambda>r. apr_task_id r = task_id \<and>
                    (case status of None \<Rightarrow> True | Some s \<Rightarrow> apr_status r = s)) t)"

text \<open>\<open>decided_at\<close> is nullable; SQLite sorts \<open>NULL\<close> before every integer.\<close>

definition null_first :: "('r \<Rightarrow> int option) \<Rightarrow> 'r \<Rightarrow> 'r \<Rightarrow> int" where
  "null_first f a b =
     (case (f a, f b) of
        (None, None) \<Rightarrow> 0 | (None, Some _) \<Rightarrow> -1 | (Some _, None) \<Rightarrow> 1 | (Some x, Some y) \<Rightarrow> x - y)"

definition approval_listApprovedByDomain ::
  "string \<Rightarrow> string \<Rightarrow> approval_record list \<Rightarrow> approval_record list" where
  "approval_listApprovedByDomain task_id domain t =
     sort_cmp (null_first apr_decided_at)
       (filter (\<lambda>r. apr_task_id r = task_id \<and> apr_domain r = domain \<and> apr_status r = Approved) t)"

section \<open>Pending events\<close>

record ujima_event =
  ev_event_id :: string
  ev_type :: string
  ev_publisher :: string
  ev_timestamp :: string
  ev_payload :: json
  ev_task_id :: "string option"
  ev_session_id :: "string option"

record pending_event =
  pe_id :: string
  pe_channel :: string
  pe_event :: ujima_event
  pe_createdAt :: int
  pe_expiresAt :: int

definition DEFAULT_TTL_MS :: int where
  "DEFAULT_TTL_MS = 24 * 60 * 60 * 1000"

definition pending_add ::
  "string \<Rightarrow> string \<Rightarrow> ujima_event \<Rightarrow> int option \<Rightarrow> int
   \<Rightarrow> pending_event list \<Rightarrow> pending_event list option" where
  "pending_add ident channel event ttlMs now t =
     tbl_insert pe_id
       \<lparr>pe_id = ident, pe_channel = channel, pe_event = event, pe_createdAt = now,
        pe_expiresAt = now + coalesce ttlMs DEFAULT_TTL_MS\<rparr> t"

definition pending_listSince :: "string \<Rightarrow> int \<Rightarrow> int \<Rightarrow> pending_event list \<Rightarrow> pending_event list" where
  "pending_listSince channel sinceMs now t =
     sort_cmp (by_int pe_createdAt)
       (filter (\<lambda>r. pe_channel r = channel \<and> pe_createdAt r \<ge> sinceMs \<and> pe_expiresAt r > now) t)"

definition pending_listByChannel :: "string \<Rightarrow> int \<Rightarrow> pending_event list \<Rightarrow> pending_event list" where
  "pending_listByChannel channel now t =
     sort_cmp (by_int pe_createdAt)
       (filter (\<lambda>r. pe_channel r = channel \<and> pe_expiresAt r > now) t)"

definition pending_purgeExpired :: "int \<Rightarrow> pending_event list \<Rightarrow> pending_event list \<times> nat" where
  "pending_purgeExpired now t =
     (let t' = tbl_delete (\<lambda>r. pe_expiresAt r \<le> now) t in (t', length t - length t'))"

section \<open>Audit log\<close>

datatype audit_event_type = Tool_Call | Permission_Check | Event_Published | Escalation
  | Spawn | Exit | Kill

record audit_write_input =
  aw_event_id :: string
  aw_event_type :: audit_event_type
  aw_agent_id :: string
  aw_task_id :: string
  aw_session_id :: string
  aw_tool_name :: "string option"
  aw_tool_input :: "json option"
  aw_tool_output :: "json option"
  aw_allowed :: bool
  aw_block_reason :: "string option"
  aw_tokens_used :: "int option"
  aw_duration_ms :: "int option"

record audit_row = audit_write_input +
  aw_id :: string
  aw_created_at :: int

definition audit_write ::
  "string \<Rightarrow> int \<Rightarrow> audit_write_input \<Rightarrow> audit_row list \<Rightarrow> audit_row list option" where
  "audit_write ident now input t =
     tbl_insert aw_id
       (audit_write_input.extend input \<lparr>aw_id = ident, aw_created_at = now\<rparr>) t"

record audit_query =
  aq_agentId :: "string option"
  aq_taskId :: "string option"
  aq_sessionId :: "string option"
  aq_eventType :: "audit_event_type option"
  aq_since :: "int option"
  aq_until :: "int option"
  aq_limit :: "int option"

text \<open>A text condition is left out when the query's field is undefined or empty.\<close>

definition text_cond :: "string option \<Rightarrow> string \<Rightarrow> bool" where
  "text_cond q v = (case q of None \<Rightarrow> True | Some s \<Rightarrow> s = [] \<or> v = s)"

definition buildWhere :: "audit_query \<Rightarrow> audit_row \<Rightarrow> bool" where
  "buildWhere q r =
     (text_cond (aq_agentId q) (aw_agent_id r) \<and>
      text_cond (aq_taskId q) (aw_task_id r) \<and>
      text_cond (aq_sessionId q) (aw_session_id r) \<and>
      (case aq_eventType q of None \<Rightarrow> True | Some e \<Rightarrow> aw_event_type r = e) \<and>
      (case aq_since q of None \<Rightarrow> True | Some x \<Rightarrow> aw_created_at r \<ge> x) \<and>
      (case aq_until q of None \<Rightarrow> True | Some x \<Rightarrow> aw_created_at r \<le> x))"

text \<open>\<open>LIMIT n\<close> with a negative \<open>n\<close> is no limit.\<close>

definition sql_limit :: "int \<Rightarrow> 'a list \<Rightarrow> 'a list" where
  "sql_limit n xs = (if n < 0 then xs else take (nat n) xs)"

definition audit_query_rows :: "audit_query \<Rightarrow> audit_row list \<Rightarrow> audit_row list" where
  "audit_query_rows q t =
     sql_limit (coalesce (aq_limit q) 1000)
       (sort_cmp (by_int_desc aw_created_at) (filter (buildWhere q) t))"

definition audit_count :: "audit_query \<Rightarrow> audit_row list \<Rightarrow> nat" where
  "audit_count q t = length (filter (buildWhere q) t)"


section \<open>Context entries: laws\<close>

lemma ctx_get_put [simp]:
  "ctx_get k' (fst (ctx_put k v ts st)) = (if k' = k then Some v else ctx_get k' st)"
  by (simp add: ctx_get_def ctx_put_def kv.lookup_put)

lemma ctx_get_delete [simp]:
  "ctx_get k' (ctx_delete k st) = (if k' = k then None else ctx_get k' st)"
  by (simp add: ctx_get_def ctx_delete_def kv.lookup_del)

text \<open>Operations as events, and the invariant that keys and subscription ids are unique.\<close>

datatype ctx_op = Put string json int | Del string | Sub string int | Unsub nat | Tick nat | Flush

fun apply_ctx_op :: "ctx_op \<Rightarrow> context_store \<Rightarrow> context_store" where
  "apply_ctx_op (Put k v ts) st = fst (ctx_put k v ts st)"
| "apply_ctx_op (Del k) st = ctx_delete k st"
| "apply_ctx_op (Sub p now) st = fst (ctx_subscribe p now st)"
| "apply_ctx_op (Unsub i) st = ctx_unsubscribe i st"
| "apply_ctx_op (Tick i) st = fst (ctx_tick i st)"
| "apply_ctx_op Flush st = ctx_flush st"

definition ctx_wf :: "context_store \<Rightarrow> bool" where
  "ctx_wf st \<longleftrightarrow> tbl_wf fst (ctx_rows st) \<and> tbl_wf sub_id (ctx_subs st) \<and>
     (\<forall>s \<in> set (ctx_subs st). sub_id s < ctx_next st)"

lemma sub_id_tick [simp]: "sub_id (fst (tick_sub rows s)) = sub_id s"
  by (simp add: tick_sub_def Let_def)

lemma tbl_wf_kv_put [step_intros]: "tbl_wf fst t \<Longrightarrow> tbl_wf fst (kv_put k v t)"
  unfolding kv_put_def by (rule tbl_wf_upsert) auto

lemma tbl_wf_kv_del [step_intros]: "tbl_wf fst t \<Longrightarrow> tbl_wf fst (kv_del k t)"
  unfolding kv_del_def by (rule tbl_wf_delete)

lemma ctx_wf_tick: "ctx_wf st \<Longrightarrow> ctx_wf (fst (ctx_tick i st))"
proof (cases "tbl_find sub_id i (ctx_subs st)")
  case (Some s)
  then have "sub_id s = i" by (blast dest: tbl_find_Some)
  assume wf: "ctx_wf st"
  have "tbl_wf sub_id (ctx_subs (fst (ctx_tick i st)))"
  proof -
    have "tbl_wf sub_id (map (\<lambda>x. if sub_id x = i then fst (tick_sub (ctx_rows st) s) else x) (ctx_subs st))"
      using wf \<open>sub_id s = i\<close> by (intro tbl_wf_map) (auto simp: ctx_wf_def)
    with Some show ?thesis by (simp add: ctx_tick_def Let_def tbl_update_def)
  qed
  with wf Some \<open>sub_id s = i\<close> show ?thesis
    by (auto simp: ctx_wf_def ctx_tick_def Let_def tbl_update_def dest: tbl_find_Some)
qed (simp add: ctx_tick_def)

lemma apply_ctx_op_wf: "ctx_wf st \<Longrightarrow> ctx_wf (apply_ctx_op e st)"
proof (cases e)
  case (Sub p now)
  assume "ctx_wf st"
  with Sub show ?thesis by (force simp: ctx_wf_def ctx_subscribe_def tbl_wf_def)
next
  case (Unsub i)
  assume "ctx_wf st"
  with Unsub show ?thesis
    by (auto simp: ctx_wf_def ctx_unsubscribe_def tbl_wf_def distinct_map_filter)
next
  case (Tick i)
  assume "ctx_wf st"
  with Tick show ?thesis by (simp add: ctx_wf_tick)
qed (auto simp: ctx_wf_def ctx_put_def ctx_delete_def ctx_flush_def intro: step_intros)

interpretation ctx: invariant_machine apply_ctx_op ctx_wf
  by unfold_locales (rule apply_ctx_op_wf)

lemma tick_loop_rows [simp]: "snd (tick_loop ls rows) = rows"
  by (induction rows arbitrary: ls) (simp_all add: Let_def)

lemma tick_loop_max:
  "ls \<le> fst (tick_loop ls rows) \<and> (\<forall>e \<in> set rows. entry_updatedAt e \<le> fst (tick_loop ls rows))"
proof (induction rows arbitrary: ls)
  case (Cons r rows)
  from Cons [of "max ls (entry_updatedAt r)"] show ?case by (auto simp: Let_def)
qed simp

lemma set_since_rows:
  "set (since_rows pat ls rows) = {e \<in> set rows. like pat (entry_key e) \<and> ls < entry_updatedAt e}"
  by (auto simp: since_rows_def)

lemma since_rows_after_tick:
  "since_rows pat (fst (tick_loop ls (since_rows pat ls rows))) rows = []"
proof -
  have "\<not> (like pat (entry_key e) \<and> fst (tick_loop ls (since_rows pat ls rows)) < entry_updatedAt e)"
    if e: "e \<in> set rows" for e
  proof
    assume h: "like pat (entry_key e) \<and> fst (tick_loop ls (since_rows pat ls rows)) < entry_updatedAt e"
    moreover have "ls \<le> fst (tick_loop ls (since_rows pat ls rows))" by (simp add: tick_loop_max)
    ultimately have "e \<in> set (since_rows pat ls rows)" using e by (simp add: set_since_rows)
    with h tick_loop_max [of ls "since_rows pat ls rows"] show False by fastforce
  qed
  then show ?thesis by (simp add: since_rows_def filter_False)
qed

text \<open>A second tick over unchanged rows delivers nothing.\<close>

lemma tick_sub_twice: "snd (tick_sub rows (fst (tick_sub rows s))) = []"
  by (simp add: tick_sub_def Let_def since_rows_after_tick)

lemma escape_with_append [simp]: "escape_with c (u @ v) = escape_with c u @ escape_with c v"
  by (simp add: escape_with_def)

lemma escape_with_Cons:
  "escape_with d (c # w) = (if c = d then [backslash, d] else [c]) @ escape_with d w"
  by (simp add: escape_with_def)

lemma escape_with_id: "c \<notin> set u \<Longrightarrow> escape_with c u = u"
  by (induction u) (auto simp: escape_with_def)

definition clean_prefix :: "string \<Rightarrow> bool" where
  "clean_prefix u = (list_all plain_char u \<and> backslash \<notin> set u)"

lemma clean_prefix_chars:
  "clean_prefix u \<Longrightarrow> CHR ''%'' \<notin> set u \<and> CHR ''_'' \<notin> set u \<and> backslash \<notin> set u"
  by (auto simp: clean_prefix_def plain_char_def list_all_iff)

lemma escapePrefix_clean: "clean_prefix u \<Longrightarrow> escapePrefix u = u"
  by (simp add: escapePrefix_def escape_with_id clean_prefix_chars)

lemma escapePrefix_special:
  assumes "clean_prefix u" and "c = CHR ''%'' \<or> c = CHR ''_''"
  shows "\<exists>rest. escapePrefix (u @ c # v) = u @ backslash # c # rest"
proof -
  from clean_prefix_chars [OF assms(1)]
  have ids: "escape_with (CHR ''_'') u = u" "escape_with (CHR ''%'') u = u"
    "escape_with (CHR 0x5C) u = u"
    by (simp_all add: escape_with_id backslash_def)
  from assms(2) show ?thesis
    by (elim disjE) (simp_all add: escapePrefix_def escape_with_Cons ids backslash_def)
qed

lemma poller_misses_special:
  assumes "clean_prefix u" and "c = CHR ''%'' \<or> c = CHR ''_''"
    and "starts_with key (u @ c # v)"
  shows "\<not> like (escapePrefix (u @ c # v) @ ''%'') key"
proof -
  obtain rest where "escapePrefix (u @ c # v) = u @ backslash # c # rest"
    using escapePrefix_special [OF assms(1,2)] by blast
  moreover obtain t where "key = u @ c # (v @ t)"
    using assms(3) by (auto simp: starts_with_iff)
  moreover have "plain_char backslash" and "lower_char backslash \<noteq> lower_char c"
    using assms(2) by (auto simp: plain_char_def backslash_def lower_char_def)
  ultimately show ?thesis
    using assms(1) like_plain_mismatch [of u backslash c "c # rest @ ''%''" "v @ t"]
    by (simp add: clean_prefix_def)
qed

section \<open>Agent state: laws\<close>

datatype agent_op =
    Upsert string agent_state_patch int
  | Heartbeat string int
  | Inc_Tokens string int int
  | Inc_Calls string int

fun apply_agent_op :: "agent_op \<Rightarrow> agent_table \<Rightarrow> agent_table" where
  "apply_agent_op (Upsert a p ts) t = agent_upsert a p ts t"
| "apply_agent_op (Heartbeat a ts) t = agent_heartbeat a ts t"
| "apply_agent_op (Inc_Tokens a n ts) t = agent_incrementTokens a n ts t"
| "apply_agent_op (Inc_Calls a ts) t = agent_incrementCalls a ts t"

definition agent_tokens :: "string \<Rightarrow> agent_table \<Rightarrow> int" where
  "agent_tokens a t = (case agent_get a t of None \<Rightarrow> 0 | Some r \<Rightarrow> as_tokens_used r)"

definition agent_calls :: "string \<Rightarrow> agent_table \<Rightarrow> int" where
  "agent_calls a t = (case agent_get a t of None \<Rightarrow> 0 | Some r \<Rightarrow> as_calls_made r)"

fun tokens_of :: "string \<Rightarrow> agent_op \<Rightarrow> int" where
  "tokens_of a (Inc_Tokens b n ts) = (if b = a then n else 0)"
| "tokens_of a _ = 0"

fun calls_of :: "string \<Rightarrow> agent_op \<Rightarrow> int" where
  "calls_of a (Inc_Calls b ts) = (if b = a then 1 else 0)"
| "calls_of a _ = 0"

lemma agent_get_upsert:
  "agent_get a (agent_upsert b p ts t) =
     (if a = b then Some (case agent_get b t of
          Some r \<Rightarrow> r\<lparr>as_status := coalesce (ap_status p) (as_status r),
             as_last_action := or_default (ap_last_action p) (as_last_action r),
             as_last_heartbeat := or_default (ap_last_heartbeat p) (as_last_heartbeat r),
             as_updated_at := ts\<rparr>
        | None \<Rightarrow> \<lparr>as_agent_id = b, as_status = coalesce (ap_status p) Idle,
             as_last_action = ap_last_action p, as_last_heartbeat = ap_last_heartbeat p,
             as_tokens_used = 0, as_calls_made = 0, as_updated_at = ts\<rparr>)
      else agent_get a t)"
  by (cases "tbl_find as_agent_id b t"; cases "tbl_find as_agent_id a t")
    (auto simp: agent_get_def agent_upsert_def tbl_find_update tbl_find_append
      dest: tbl_find_Some)

lemmas agent_defs = agent_tokens_def agent_calls_def agent_heartbeat_def
  agent_incrementTokens_def agent_incrementCalls_def

lemma agent_tokens_step:
  "agent_tokens a (apply_agent_op e t) = agent_tokens a t + tokens_of a e"
proof (cases e)
  case (Upsert b p ts)
  then show ?thesis
    by (auto simp: agent_tokens_def agent_get_upsert split: option.splits)
qed (auto simp: agent_defs agent_get_def tbl_find_upsert split: option.splits)

lemma agent_calls_step:
  "agent_calls a (apply_agent_op e t) = agent_calls a t + calls_of a e"
proof (cases e)
  case (Upsert b p ts)
  then show ?thesis
    by (auto simp: agent_calls_def agent_get_upsert split: option.splits)
qed (auto simp: agent_defs agent_get_def tbl_find_upsert split: option.splits)

lemma tbl_wf_agent_op: "tbl_wf as_agent_id t \<Longrightarrow> tbl_wf as_agent_id (apply_agent_op e t)"
proof (cases e)
  case (Upsert b p ts)
  assume wf: "tbl_wf as_agent_id t"
  show ?thesis
  proof (cases "tbl_find as_agent_id b t")
    case None
    with wf Upsert show ?thesis
      by (simp add: agent_upsert_def tbl_wf_def) (simp add: tbl_find_None)
  next
    case (Some r)
    with wf Upsert show ?thesis by (auto simp: agent_upsert_def intro: tbl_wf_update)
  qed
qed (auto simp: agent_defs intro!: tbl_wf_upsert)

interpretation agent_ops: invariant_machine apply_agent_op "tbl_wf as_agent_id"
  by unfold_locales (rule tbl_wf_agent_op)

lemma agent_tokens_run:
  "agent_tokens a (fold apply_agent_op es t) = agent_tokens a t + sum_list (map (tokens_of a) es)"
  by (induction es arbitrary: t) (simp_all add: agent_tokens_step)

lemma agent_calls_run:
  "agent_calls a (fold apply_agent_op es t) = agent_calls a t + sum_list (map (calls_of a) es)"
  by (induction es arbitrary: t) (simp_all add: agent_calls_step)

section \<open>Approvals, pending events, audit: laws\<close>

datatype approval_op =
    Propose string string string string string int
  | Decide string bool string "string option" int

text \<open>A proposal whose id is taken throws and leaves the table as it was.\<close>

fun apply_approval_op :: "approval_op \<Rightarrow> approval_record list \<Rightarrow> approval_record list" where
  "apply_approval_op (Propose i t a d p now) rows = coalesce (approval_propose i t a d p now rows) rows"
| "apply_approval_op (Decide i ok by r now) rows =
     approval_decide i (if ok then Approved else Rejected) by r now rows"

definition approvals_wf :: "approval_record list \<Rightarrow> bool" where
  "approvals_wf rows \<longleftrightarrow> tbl_wf apr_id rows \<and>
     (\<forall>r \<in> set rows. apr_status r \<noteq> Draft \<and>
        (apr_status r = Pending_Approval \<longleftrightarrow> apr_decided_at r = None) \<and>
        (apr_decided_at r = None \<longleftrightarrow> apr_approved_by r = None))"

lemma apply_approval_op_wf: "approvals_wf rows \<Longrightarrow> approvals_wf (apply_approval_op e rows)"
proof (cases e)
  case (Propose i t a d p now)
  assume "approvals_wf rows"
  with Propose show ?thesis
    by (auto simp: approvals_wf_def approval_propose_def tbl_insert_def tbl_wf_def)
next
  case (Decide i ok who r now)
  assume "approvals_wf rows"
  with Decide show ?thesis
    by (auto simp: approvals_wf_def approval_decide_def intro!: tbl_wf_update)
      (auto simp: tbl_update_def split: if_splits)
qed

interpretation approvals: invariant_machine apply_approval_op approvals_wf
  by unfold_locales (rule apply_approval_op_wf)

lemma set_listApprovedByDomain:
  "set (approval_listApprovedByDomain tid d rows) =
     {r \<in> set rows. apr_task_id r = tid \<and> apr_domain r = d \<and> apr_status r = Approved}"
  by (auto simp: approval_listApprovedByDomain_def)

lemma purge_keeps_live:
  "now \<le> now' \<Longrightarrow> pending_listByChannel c now' (fst (pending_purgeExpired now t))
     = pending_listByChannel c now' t"
  unfolding pending_listByChannel_def pending_purgeExpired_def tbl_delete_def Let_def
  by (auto simp: conj_commute intro!: arg_cong [of _ _ "sort_cmp _"] filter_cong)

lemma purge_keeps_since:
  "now \<le> now' \<Longrightarrow> pending_listSince c since now' (fst (pending_purgeExpired now t))
     = pending_listSince c since now' t"
  unfolding pending_listSince_def pending_purgeExpired_def tbl_delete_def Let_def
  by (auto intro!: arg_cong [of _ _ "sort_cmp _"] filter_cong)

lemma set_pending_listSince:
  "set (pending_listSince c since now t) =
     {r \<in> set t. pe_channel r = c \<and> since \<le> pe_createdAt r \<and> now < pe_expiresAt r}"
  by (auto simp: pending_listSince_def)

lemma audit_write_Some:
  "audit_write i now input t = Some t' \<longleftrightarrow>
     i \<notin> aw_id ` set t \<and>
     t' = t @ [audit_write_input.extend input \<lparr>aw_id = i, aw_created_at = now\<rparr>]"
  by (auto simp: audit_write_def tbl_insert_def audit_write_input.defs)

lemma audit_query_bound: "0 \<le> coalesce (aq_limit q) 1000 \<Longrightarrow>
    int (length (audit_query_rows q t)) \<le> coalesce (aq_limit q) 1000"
  by (simp add: audit_query_rows_def sql_limit_def)

lemma audit_query_sound: "r \<in> set (audit_query_rows q t) \<Longrightarrow> r \<in> set t \<and> buildWhere q r"
  by (auto simp: audit_query_rows_def sql_limit_def split: if_splits dest: in_set_takeD)

section \<open>Properties\<close>

text \<open>
  Token and call accounting: after any sequence of agent operations, the counters of an
  agent are the ones it started with plus the amounts and calls recorded for it; heartbeats,
  status updates and the operations of other agents change neither.
\<close>

theorem agent_accounting:
  "agent_tokens a (fold apply_agent_op es t) = agent_tokens a t + sum_list (map (tokens_of a) es) \<and>
   agent_calls a (fold apply_agent_op es t) = agent_calls a t + sum_list (map (calls_of a) es)"
  by (simp add: agent_tokens_run agent_calls_run)

text \<open>
  A tick of a subscription's poller delivers exactly the rows that match its pattern and
  are newer than what it has seen, oldest first, and a second tick with no write between
  delivers nothing.
\<close>

theorem poller_delivers_new_rows_once:
  assumes "tbl_find sub_id i (ctx_subs st) = Some s" and "ctx_tick i st = (st', delivered)"
  shows "set delivered = {e \<in> set (ctx_rows st). like (sub_pattern s) (entry_key e) \<and>
      sub_lastSeen s < entry_updatedAt e} \<and>
    sorted_wrt (\<lambda>a b. entry_updatedAt a \<le> entry_updatedAt b) delivered \<and>
    ctx_rows st' = ctx_rows st \<and> snd (ctx_tick i st') = []"
proof -
  let ?f = "\<lambda>x. sub_id x = i"
  have d: "delivered = snd (tick_sub (ctx_rows st) s)"
    and st': "st' = st\<lparr>ctx_subs := tbl_update ?f (\<lambda>_. fst (tick_sub (ctx_rows st) s)) (ctx_subs st)\<rparr>"
    using assms by (auto simp: ctx_tick_def Let_def)
  have i: "sub_id s = i" using tbl_find_Some [OF assms(1)] by simp
  then have "tbl_find sub_id i (ctx_subs st') = Some (fst (tick_sub (ctx_rows st) s))"
    using assms(1) by (simp add: st' tbl_find_update [of ?f sub_id])
  then have "snd (ctx_tick i st') = []"
    by (simp add: ctx_tick_def Let_def tick_sub_twice st')
  moreover have "sorted_wrt (\<lambda>a b. entry_updatedAt a \<le> entry_updatedAt b) delivered"
    using sorted_sort_cmp [OF preorder_by_int(1) [of entry_updatedAt]]
    by (simp add: d tick_sub_def Let_def since_rows_def by_int_def)
  ultimately show ?thesis by (simp add: d tick_sub_def Let_def set_since_rows st')
qed

theorem poller_delivers_new_rows_once_witness:
  "\<exists>st' es. ctx_tick 0 (\<lparr>ctx_rows = [(''task/1'', JNull, 5)], ctx_subs =
       [\<lparr>sub_id = 0, sub_prefix = ''task/'', sub_pattern = ''task/%'', sub_lastSeen = 1\<rparr>],
       ctx_next = 1\<rparr>) = (st', es) \<and> snd (ctx_tick 0 st') = []"
proof -
  let ?s = "\<lparr>sub_id = 0, sub_prefix = ''task/'', sub_pattern = ''task/%'', sub_lastSeen = 1\<rparr>"
  let ?st = "\<lparr>ctx_rows = [(''task/1'', JNull, 5)], ctx_subs = [?s], ctx_next = 1\<rparr>"
  have "tbl_find sub_id 0 (ctx_subs ?st) = Some ?s" by simp
  from poller_delivers_new_rows_once [OF this, of "fst (ctx_tick 0 ?st)" "snd (ctx_tick 0 ?st)"]
  show ?thesis by (intro exI [of _ "fst (ctx_tick 0 ?st)"] exI [of _ "snd (ctx_tick 0 ?st)"]) simp
qed

text \<open>
  A subscription to a prefix that contains \<open>%\<close> or \<open>_\<close> is never served by its poller:
  the pattern escapes the character with a backslash that the \<open>LIKE\<close> of the statement does
  not treat as an escape, so no key with the prefix is among the delivered rows.
\<close>

theorem poller_blind_to_special_prefixes:
  assumes "clean_prefix u" and "c = CHR ''%'' \<or> c = CHR ''_''"
    and "tbl_find sub_id i (ctx_subs (fst (ctx_subscribe (u @ c # v) now st))) = Some s"
    and "sub_id s = ctx_next st" and "\<forall>x \<in> set (ctx_subs st). sub_id x < ctx_next st"
    and "e \<in> set (snd (ctx_tick i ((fst (ctx_subscribe (u @ c # v) now st))\<lparr>ctx_rows := rows\<rparr>)))"
  shows "\<not> starts_with (entry_key e) (u @ c # v)"
proof
  let ?new = "\<lparr>sub_id = ctx_next st, sub_prefix = u @ c # v,
    sub_pattern = escapePrefix (u @ c # v) @ ''%'', sub_lastSeen = now\<rparr>"
  assume sw: "starts_with (entry_key e) (u @ c # v)"
  have "s \<in> set (ctx_subs st @ [?new])"
    using tbl_find_Some [OF assms(3)] by (simp add: ctx_subscribe_def)
  with assms(4,5) have s: "s = ?new" by auto
  from assms(6) have "like (sub_pattern s) (entry_key e)"
    using assms(3) by (auto simp: ctx_tick_def tick_sub_def Let_def set_since_rows)
  with s poller_misses_special [OF assms(1,2) sw] show False by simp
qed

theorem poller_blind_to_special_prefixes_witness:
  "(''goal'' @ backslash # ''x1/'', JNull, 9) \<in> set (snd (ctx_tick 0 ((fst (ctx_subscribe ''goal_1/'' 3
       \<lparr>ctx_rows = [], ctx_subs = [], ctx_next = 0\<rparr>))\<lparr>ctx_rows :=
         [(''goal_1/'', JNull, 9), (''goal'' @ backslash # ''x1/'', JNull, 9)]\<rparr>))) \<and>
   \<not> starts_with (entry_key (''goal'' @ backslash # ''x1/'', JNull, 9)) ''goal_1/''"
proof
  let ?st = "\<lparr>ctx_rows = [], ctx_subs = [], ctx_next = 0\<rparr>"
  let ?rows = "[(''goal_1/'', JNull, 9), (''goal'' @ backslash # ''x1/'', JNull, 9)]"
  let ?e = "(''goal'' @ backslash # ''x1/'', JNull, 9)"
  let ?s = "hd (ctx_subs (fst (ctx_subscribe ''goal_1/'' 3 ?st)))"
  have p: "clean_prefix ''goal''" by code_simp
  show e: "?e \<in> set (snd (ctx_tick 0 ((fst (ctx_subscribe ''goal_1/'' 3 ?st))\<lparr>ctx_rows := ?rows\<rparr>)))"
    by code_simp
  then have "?e \<in> set (snd (ctx_tick 0
      ((fst (ctx_subscribe (''goal'' @ CHR ''_'' # ''1/'') 3 ?st))\<lparr>ctx_rows := ?rows\<rparr>)))" by simp
  from poller_blind_to_special_prefixes [OF p _ _ _ _ this, of ?s]
  show "\<not> starts_with (entry_key ?e) ''goal_1/''" by (simp add: ctx_subscribe_def)
qed

text \<open>
  Listing under a prefix free of wildcards returns exactly the rows whose key starts with
  it up to the case of letters, in key order.
\<close>

theorem ctx_list_exact:
  assumes "list_all plain_char prefix"
  shows "set (ctx_list prefix st) =
      {e \<in> set (ctx_rows st). starts_with (to_lower (entry_key e)) (to_lower prefix)} \<and>
    sorted_wrt (\<lambda>a b. str_cmp (entry_key a) (entry_key b) \<le> 0) (ctx_list prefix st)"
  using sorted_sort_cmp [OF preorder_str_cmp [of entry_key]] like_plain_prefix [OF assms]
  by (simp add: ctx_list_def)

theorem ctx_list_exact_witness:
  "(''A/1'', JNull, 5) \<in> set (ctx_list ''a/'' \<lparr>ctx_rows = [(''A/1'', JNull, 5)], ctx_subs = [], ctx_next = 0\<rparr>)"
proof -
  have p: "list_all plain_char ''a/''" by code_simp
  have "starts_with (to_lower ''A/1'') (to_lower ''a/'')" by code_simp
  with ctx_list_exact [OF p, of "\<lparr>ctx_rows = [(''A/1'', JNull, 5)], ctx_subs = [], ctx_next = 0\<rparr>"]
  show ?thesis by simp
qed

text \<open>
  The approval tracker from its empty table: after any sequence of proposals and
  decisions, every listed approval of a task and domain has been decided by somebody at some
  time, and ids stay unique.
\<close>

theorem approvals_decided:
  "tbl_wf apr_id (fold apply_approval_op es []) \<and>
   set (approval_listApprovedByDomain tid d (fold apply_approval_op es []))
     \<subseteq> {r. apr_task_id r = tid \<and> apr_domain r = d \<and> apr_decided_at r \<noteq> None \<and> apr_approved_by r \<noteq> None}"
proof -
  have "approvals_wf (fold apply_approval_op es [])"
    by (rule approvals.run_inv) (simp add: approvals_wf_def)
  then show ?thesis by (auto simp: approvals_wf_def set_listApprovedByDomain)
qed

text \<open>
  Purging expired events at any moment changes no answer given at that moment or later:
  what a channel lists or replays is the same with and without the purge.
\<close>

theorem purge_unobservable:
  assumes "now \<le> later"
  shows "pending_listByChannel c later (fst (pending_purgeExpired now t)) = pending_listByChannel c later t \<and>
    pending_listSince c since later (fst (pending_purgeExpired now t)) = pending_listSince c since later t"
  using purge_keeps_live [OF assms] purge_keeps_since [OF assms] by blast

definition sample_event :: ujima_event where
  "sample_event = \<lparr>ev_event_id = ''e1'', ev_type = ''task.done'', ev_publisher = ''dev'',
     ev_timestamp = ''2025-01-01'', ev_payload = JNull, ev_task_id = None, ev_session_id = None\<rparr>"

theorem purge_unobservable_witness:
  "pending_listByChannel ''c'' 7 (fst (pending_purgeExpired 5
      (the (pending_add ''p1'' ''c'' sample_event (Some 3) 1 []))))
    = pending_listByChannel ''c'' 7 (the (pending_add ''p1'' ''c'' sample_event (Some 3) 1 []))"
  using purge_unobservable [of 5 7] by simp

end
