(* ===== verification/EventBus.thy ===== *)
theory EventBus
  imports ContextStore
begin

text \<open>
  The local event bus (\<open>packages/event-bus/src/index.ts\<close>): publishing writes the audit log,
  then the replay store, then emits to the listeners of the channel. A failing step leaves
  the effects of the earlier ones, so every operation returns the state beside its result.
  A handler is known by whether it throws on an event.
\<close>

section \<open>State and operations\<close>

datatype bus_error = Unique_Violation | Unhandled_Error_Event

record listener =
  ls_id :: nat
  ls_channel :: string

record event_bus =
  bus_audit :: "audit_row list option"
  bus_pending :: "pending_event list option"
  bus_replayTtlMs :: "int option"
  bus_listeners :: "listener list"
  bus_next :: nat

text \<open>The random row ids and the clock of one \<open>publish\<close>.\<close>

record publish_env =
  pub_audit_id :: string
  pub_pending_id :: string
  pub_now :: int

definition publish_audit_input :: "string \<Rightarrow> ujima_event \<Rightarrow> audit_write_input" where
  "publish_audit_input channel event =
     \<lparr>aw_event_id = ev_event_id event, aw_event_type = Event_Published,
      aw_agent_id = ev_publisher event,
      aw_task_id = coalesce (ev_task_id event) ''unknown'',
      aw_session_id = coalesce (ev_session_id event) ''unknown'',
      aw_tool_name = None,
      aw_tool_input = Some (JObj [(''channel'', JStr channel), (''type'', JStr (ev_type event))]),
      aw_tool_output = None, aw_allowed = True, aw_block_reason = None,
      aw_tokens_used = None, aw_duration_ms = None\<rparr>"

text \<open>
  \<open>emitter.emit\<close>: every listener of the channel gets the event; the channel named
  \<open>error\<close> without a listener makes Node's emitter throw.
\<close>

definition bus_emit :: "string \<Rightarrow> event_bus \<Rightarrow> bus_error + nat list" where
  "bus_emit channel b =
     (let ids = map ls_id (filter (\<lambda>l. ls_channel l = channel) (bus_listeners b))
      in if channel = ''error'' \<and> ids = [] then Inl Unhandled_Error_Event else Inr ids)"

definition publish ::
  "publish_env \<Rightarrow> string \<Rightarrow> ujima_event \<Rightarrow> event_bus \<Rightarrow> event_bus \<times> (bus_error + nat list)" where
  "publish env channel event b0 =
     (case (case bus_audit b0 of
              None \<Rightarrow> Some b0
            | Some t \<Rightarrow> map_option (\<lambda>t'. b0\<lparr>bus_audit := Some t'\<rparr>)
                (audit_write (pub_audit_id env) (pub_now env) (publish_audit_input channel event) t)) of
        None \<Rightarrow> (b0, Inl Unique_Violation)
      | Some b1 \<Rightarrow>
          (case (case bus_pending b1 of
                   None \<Rightarrow> Some b1
                 | Some p \<Rightarrow> map_option (\<lambda>p'. b1\<lparr>bus_pending := Some p'\<rparr>)
                     (pending_add (pub_pending_id env) channel event (bus_replayTtlMs b1)
                        (pub_now env) p)) of
             None \<Rightarrow> (b1, Inl Unique_Violation)
           | Some b2 \<Rightarrow> (b2, bus_emit channel b2)))"

definition bus_replay :: "string \<Rightarrow> int \<Rightarrow> int \<Rightarrow> event_bus \<Rightarrow> ujima_event list" where
  "bus_replay channel sinceMs now b =
     (case bus_pending b of
        None \<Rightarrow> []
      | Some p \<Rightarrow> map pe_event (pending_listSince channel sinceMs now p))"

text \<open>The loop that replays records to a new handler ends with the first one that throws.\<close>

fun replay_loop :: "(ujima_event \<Rightarrow> bool) \<Rightarrow> ujima_event list \<Rightarrow> ujima_event list \<times> bool" where
  "replay_loop throws [] = ([], True)"
| "replay_loop throws (e # es) =
     (if throws e then ([e], False)
      else (let r = replay_loop throws es in (e # fst r, snd r)))"

text \<open>
  \<open>subscribe\<close>: the new state, the listener's id, the replayed events and whether the
  replay ran to its end.
\<close>

definition bus_subscribe ::
  "string \<Rightarrow> (ujima_event \<Rightarrow> bool) \<Rightarrow> int option \<Rightarrow> int \<Rightarrow> event_bus
   \<Rightarrow> event_bus \<times> nat \<times> ujima_event list \<times> bool" where
  "bus_subscribe channel throws replaySinceMs now b =
     (let b' = b\<lparr>bus_listeners := bus_listeners b @
                    [\<lparr>ls_id = bus_next b, ls_channel = channel\<rparr>],
                 bus_next := Suc (bus_next b)\<rparr>
      in case (replaySinceMs, bus_pending b) of
           (Some since, Some p) \<Rightarrow>
             (b', bus_next b, replay_loop throws (map pe_event (pending_listSince channel since now p)))
         | _ \<Rightarrow> (b', bus_next b, [], True))"

definition bus_unsubscribe :: "nat \<Rightarrow> event_bus \<Rightarrow> event_bus" where
  "bus_unsubscribe i b = b\<lparr>bus_listeners := filter (\<lambda>l. ls_id l \<noteq> i) (bus_listeners b)\<rparr>"

definition bus_close :: "event_bus \<Rightarrow> event_bus" where
  "bus_close b = b\<lparr>bus_listeners := []\<rparr>"

section \<open>Laws\<close>

datatype bus_op =
    Publish publish_env string ujima_event
  | Subscribe string
  | Unsubscribe nat
  | Close

fun apply_bus_op :: "bus_op \<Rightarrow> event_bus \<Rightarrow> event_bus" where
  "apply_bus_op (Publish env c e) b = fst (publish env c e b)"
| "apply_bus_op (Subscribe c) b = fst (bus_subscribe c (\<lambda>_. False) None 0 b)"
| "apply_bus_op (Unsubscribe i) b = bus_unsubscribe i b"
| "apply_bus_op Close b = bus_close b"

definition bus_wf :: "event_bus \<Rightarrow> bool" where
  "bus_wf b \<longleftrightarrow>
     distinct (map ls_id (bus_listeners b)) \<and>
     (\<forall>l \<in> set (bus_listeners b). ls_id l < bus_next b) \<and>
     (case bus_audit b of None \<Rightarrow> True | Some t \<Rightarrow> tbl_wf aw_id t) \<and>
     (case bus_pending b of None \<Rightarrow> True | Some p \<Rightarrow> tbl_wf pe_id p)"

definition audit_size :: "event_bus \<Rightarrow> nat" where
  "audit_size b = (case bus_audit b of None \<Rightarrow> 0 | Some t \<Rightarrow> length t)"

lemma publish_frame [frame_simps]:
  "bus_listeners (fst (publish env c e b)) = bus_listeners b"
  "bus_next (fst (publish env c e b)) = bus_next b"
  by (auto simp: publish_def split: option.splits)

lemma publish_tables:
  "bus_audit (fst (publish env c e b)) = bus_audit b \<or>
   (\<exists>t t'. bus_audit b = Some t \<and> bus_audit (fst (publish env c e b)) = Some t' \<and>
      audit_write (pub_audit_id env) (pub_now env) (publish_audit_input c e) t = Some t')"
  "bus_pending (fst (publish env c e b)) = bus_pending b \<or>
   (\<exists>p p'. bus_pending b = Some p \<and> bus_pending (fst (publish env c e b)) = Some p' \<and>
      pending_add (pub_pending_id env) c e (bus_replayTtlMs b) (pub_now env) p = Some p')"
  by (auto simp: publish_def split: option.splits)

lemma publish_wf: "bus_wf b \<Longrightarrow> bus_wf (fst (publish env c e b))"
  using publish_tables [of env c e b]
  by (auto simp: bus_wf_def frame_simps audit_write_def pending_add_def
      dest: tbl_wf_insert split: option.splits)

lemma apply_bus_op_wf: "bus_wf b \<Longrightarrow> bus_wf (apply_bus_op e b)"
proof (cases e)
  case (Subscribe c)
  assume "bus_wf b"
  with Subscribe show ?thesis
    by (force simp: bus_wf_def bus_subscribe_def Let_def split: option.splits)
next
  case (Unsubscribe i)
  assume "bus_wf b"
  with Unsubscribe show ?thesis
    by (auto simp: bus_wf_def bus_unsubscribe_def distinct_map_filter)
next
  case Close
  assume "bus_wf b"
  with Close show ?thesis by (simp add: bus_wf_def bus_close_def)
qed (simp add: publish_wf)

lemma audit_size_mono: "audit_size b \<le> audit_size (apply_bus_op e b)"
proof (cases e)
  case (Publish env c ev)
  then show ?thesis
    using publish_tables(1) [of env c ev b]
    by (auto simp: audit_size_def audit_write_Some split: option.splits)
qed (auto simp: audit_size_def bus_subscribe_def bus_unsubscribe_def bus_close_def Let_def
    split: option.splits)

interpretation bus: monotone_machine apply_bus_op bus_wf audit_size
  by unfold_locales (rule apply_bus_op_wf, assumption, rule audit_size_mono)

definition audit_rows :: "event_bus \<Rightarrow> audit_row list" where
  "audit_rows b = coalesce (bus_audit b) []"

lemma audit_rows_grow: "\<exists>us. audit_rows (apply_bus_op e b) = audit_rows b @ us"
proof (cases e)
  case (Publish env c ev)
  then show ?thesis
    using publish_tables(1) [of env c ev b] by (auto simp: audit_rows_def audit_write_Some)
qed (auto simp: audit_rows_def bus_subscribe_def bus_unsubscribe_def bus_close_def Let_def
    split: option.splits)

lemma audit_rows_run: "\<exists>us. audit_rows (fold apply_bus_op es b) = audit_rows b @ us"
proof (induction es arbitrary: b)
  case (Cons e es)
  then show ?case using audit_rows_grow [of e b] by (metis append.assoc fold_simps(2))
qed simp

lemma publish_ok_pending:
  assumes "publish env c e b = (b', Inr ids)" and "bus_pending b = Some p"
  shows "\<exists>p'. bus_pending b' = Some p' \<and>
    pending_add (pub_pending_id env) c e (bus_replayTtlMs b) (pub_now env) p = Some p'"
  using assms by (auto simp: publish_def split: option.splits)

lemma publish_ok_ids:
  "publish env c e b = (b', Inr ids) \<Longrightarrow>
     ids = map ls_id (filter (\<lambda>l. ls_channel l = c) (bus_listeners b))"
  by (auto simp: publish_def bus_emit_def Let_def split: option.splits if_splits)

lemma publish_ok_audit:
  assumes "publish env c e b = (b', Inr ids)" and "bus_audit b = Some t"
  shows "bus_audit b' = Some (t @ [audit_write_input.extend (publish_audit_input c e)
    \<lparr>aw_id = pub_audit_id env, aw_created_at = pub_now env\<rparr>])"
  using assms by (auto simp: publish_def audit_write_Some split: option.splits)

lemma replay_loop_all: "(\<And>e. e \<in> set es \<Longrightarrow> \<not> throws e) \<Longrightarrow> replay_loop throws es = (es, True)"
  by (induction es) (simp_all add: Let_def)

lemma replay_loop_stops:
  "(\<And>e. e \<in> set us \<Longrightarrow> \<not> throws e) \<Longrightarrow> throws x \<Longrightarrow>
     replay_loop throws (us @ x # vs) = (us @ [x], False)"
  by (induction us) (simp_all add: Let_def)

section \<open>Properties\<close>

text \<open>
  A successful \<open>publish\<close> reaches everybody: the listeners of the channel, in order of
  subscription, one audit row, and every replay of the channel from before it until its time
  to live has passed.
\<close>

theorem publish_reaches:
  assumes "publish env c e b = (b', Inr ids)"
    and "bus_audit b = Some t" and "bus_pending b = Some p"
    and "since \<le> pub_now env" and "later < pub_now env + coalesce (bus_replayTtlMs b) DEFAULT_TTL_MS"
  shows "ids = map ls_id (filter (\<lambda>l. ls_channel l = c) (bus_listeners b)) \<and>
    bus_audit b' = Some (t @ [audit_write_input.extend (publish_audit_input c e)
      \<lparr>aw_id = pub_audit_id env, aw_created_at = pub_now env\<rparr>]) \<and>
    e \<in> set (bus_replay c since later b')"
proof -
  obtain p' where p': "bus_pending b' = Some p'"
    and add: "pending_add (pub_pending_id env) c e (bus_replayTtlMs b) (pub_now env) p = Some p'"
    using publish_ok_pending [OF assms(1,3)] by blast
  have "e \<in> pe_event ` set (pending_listSince c since later p')"
    using add assms(4,5)
    by (force simp: pending_add_def tbl_insert_Some set_pending_listSince image_iff)
  then have "e \<in> set (bus_replay c since later b')" by (simp add: bus_replay_def p')
  with publish_ok_ids [OF assms(1)] publish_ok_audit [OF assms(1,2)] show ?thesis by blast
qed

definition sample_bus :: event_bus where
  "sample_bus = \<lparr>bus_audit = Some [], bus_pending = Some [], bus_replayTtlMs = Some 10,
     bus_listeners = [\<lparr>ls_id = 0, ls_channel = ''team''\<rparr>], bus_next = 1\<rparr>"

definition sample_publish_env :: publish_env where
  "sample_publish_env = \<lparr>pub_audit_id = ''a1'', pub_pending_id = ''p1'', pub_now = 3\<rparr>"

theorem publish_reaches_witness:
  "sample_event \<in> set (bus_replay ''team'' 3 12 (fst (publish sample_publish_env ''team'' sample_event sample_bus)))"
proof -
  let ?r = "publish sample_publish_env ''team'' sample_event sample_bus"
  have "snd ?r = Inr [0]"
    by (simp add: publish_def sample_publish_env_def sample_bus_def audit_write_def pending_add_def
        tbl_insert_def bus_emit_def)
  then have r: "?r = (fst ?r, Inr [0])" by (metis prod.collapse)
  show ?thesis
    using publish_reaches [OF r, of "[]" "[]" 3 12]
    by (simp add: sample_bus_def sample_publish_env_def)
qed

text \<open>
  A replay ends at the first event its handler throws on: the handler gets the events up
  to that one, and the ones after it are not replayed at all, although the listener stays.
\<close>

theorem replay_cut_short:
  assumes "bus_pending b = Some p" and "bus_replay c since now b = us @ x # vs"
    and "\<forall>e \<in> set us. \<not> throws e" and "throws x"
    and "bus_subscribe c throws (Some since) now b = (b', i, replayed, complete)"
  shows "replayed = us @ [x] \<and> \<not> complete \<and> i \<in> ls_id ` set (bus_listeners b')"
proof -
  have "replay_loop throws (us @ x # vs) = (us @ [x], False)"
    using assms(3,4) by (intro replay_loop_stops) auto
  with assms(1,2,5) show ?thesis by (auto simp: bus_subscribe_def bus_replay_def Let_def)
qed

theorem replay_cut_short_witness:
  "fst (snd (snd (bus_subscribe ''team'' (\<lambda>_. True) (Some 0) 4
     (fst (publish sample_publish_env ''team'' sample_event sample_bus))))) = [sample_event]"
proof -
  let ?b = "fst (publish sample_publish_env ''team'' sample_event sample_bus)"
  let ?s = "bus_subscribe ''team'' (\<lambda>_. True) (Some 0) 4 ?b"
  have b: "bus_pending ?b = Some [\<lparr>pe_id = ''p1'', pe_channel = ''team'', pe_event = sample_event,
      pe_createdAt = 3, pe_expiresAt = 13\<rparr>]"
    by (simp add: publish_def sample_publish_env_def sample_bus_def audit_write_def pending_add_def
        tbl_insert_def)
  then have r: "bus_replay ''team'' 0 4 ?b = [] @ sample_event # []"
    by (simp add: bus_replay_def pending_listSince_def)
  have "?s = (fst ?s, fst (snd ?s), fst (snd (snd ?s)), snd (snd (snd ?s)))" by simp
  from replay_cut_short [OF b r _ _ this] show ?thesis by simp
qed

text \<open>
  Over any sequence of publications, subscriptions, removals and closings the audit log
  is append-only, no row of it changes or disappears, and listener ids and row ids stay
  unique.
\<close>

theorem bus_run_append_only:
  assumes "bus_wf b"
  shows "bus_wf (fold apply_bus_op es b) \<and>
    (\<exists>us. audit_rows (fold apply_bus_op es b) = audit_rows b @ us)"
  using bus.run_inv [OF assms] audit_rows_run by blast

theorem bus_run_append_only_witness:
  "bus_wf (fold apply_bus_op [Subscribe ''team'', Publish sample_publish_env ''team'' sample_event,
     Unsubscribe 0, Close] sample_bus)"
proof -
  have "bus_wf sample_bus" by (simp add: bus_wf_def sample_bus_def)
  then show ?thesis by (rule conjunct1 [OF bus_run_append_only])
qed

end
