(* ===== verification/Permissions.thy ===== *)
theory Permissions
  imports Governance ContextStore
begin

text \<open>
  The permission middleware (\<open>packages/permissions/src/index.ts\<close>): session overrides, the
  governance policy, platform defaults, destructive patterns, connector and agent tool lists
  and the token cap, in the order the code asks them; every decision is audited.
\<close>

section \<open>Data\<close>

datatype deny_code = Blocked_Tool | Not_Allowed_Tool | Destructive_Pattern | Token_Cap_Exceeded
  | Session_Override | Policy_Deny | Requires_Approval | Requires_Input

datatype gate = Gate_Approval | Gate_Input

datatype decision =
    Allowed
  | Denied (reason: string) (code: deny_code) (dgate: "gate option") (drule: "tool_policy_rule option")

record agent_def =
  agent_id :: string
  allowed_tools :: "string list"
  blocked_tools :: "string list"
  max_session_tokens :: int

text \<open>\<open>args\<close> is \<open>undefined\<close> or a JSON value.\<close>

record permission_input =
  pi_agent :: agent_def
  pi_mcp :: string
  pi_toolName :: string
  pi_args :: "json option"
  pi_taskId :: string
  pi_sessionId :: string

datatype destructive_pattern = Pat_String string | Pat_Regex rx

record platform_defaults =
  pd_blocked_tools :: "string list"
  pd_destructive_patterns :: "destructive_pattern list"

record mcp_policy =
  mp_allowed_tools :: "string list option"
  mp_blocked_tools :: "string list option"

record session_override =
  so_blocked_tools :: "string list option"
  so_allowed_tools :: "string list option"
  so_paused :: bool

datatype policy_source_dep =
    Policy_Value "governance_policy option"
  | Policy_Fn "string option \<Rightarrow> governance_policy option"

record middleware =
  mw_audit :: "audit_row list option"
  mw_agentState :: "agent_table option"
  mw_platformDefaults :: platform_defaults
  mw_mcpPolicies :: "string \<rightharpoonup> mcp_policy"
  mw_sessionOverrides :: "string \<rightharpoonup> session_override"
  mw_governance :: policy_source_dep
  mw_classificationLookup :: "(string \<Rightarrow> string \<Rightarrow> classification option) option"

section \<open>The default destructive patterns\<close>

definition DEFAULT_PLATFORM_DEFAULTS :: platform_defaults where
  "DEFAULT_PLATFORM_DEFAULTS =
     \<lparr>pd_blocked_tools = [],
      pd_destructive_patterns =
        [Pat_Regex (seqs [Word_Bound, lit_ci ''rm'', Some_Of is_ws, lit_ci ''-rf'',
                          Some_Of is_ws, lit_ci ''/'']),
         Pat_Regex (seqs [Word_Bound, lit_ci ''DROP'', Some_Of is_ws,
                          alts [lit_ci ''DATABASE'', lit_ci ''TABLE'', lit_ci ''SCHEMA''], Word_Bound]),
         Pat_Regex (seqs [Word_Bound, lit_ci ''TRUNCATE'', Some_Of is_ws, lit_ci ''TABLE'', Word_Bound]),
         Pat_Regex (seqs [lit_ci ''git'', Some_Of is_ws, lit_ci ''push'', Some_Of is_ws,
                          lit_ci ''--force'']),
         Pat_Regex (seqs [lit '':()'', Many is_ws, lit ''{'', Many is_ws, lit '':|:&'',
                          Many is_ws, lit ''}''])]\<rparr>"

section \<open>The checks\<close>

definition resolveGovernancePolicy :: "middleware \<Rightarrow> string option \<Rightarrow> governance_policy option" where
  "resolveGovernancePolicy mw taskId =
     (case mw_governance mw of Policy_Fn f \<Rightarrow> f taskId | Policy_Value p \<Rightarrow> p)"

definition serialize_args :: "json option \<Rightarrow> string" where
  "serialize_args args =
     (case args of
        Some (JStr s) \<Rightarrow> s
      | None \<Rightarrow> stringify (JStr [])
      | Some JNull \<Rightarrow> stringify (JStr [])
      | Some v \<Rightarrow> stringify v)"

fun pattern_hits :: "destructive_pattern \<Rightarrow> string \<Rightarrow> bool" where
  "pattern_hits (Pat_String p) s = includes_str s p"
| "pattern_hits (Pat_Regex r) s = rx_test r s"

definition matchesDestructivePattern :: "platform_defaults \<Rightarrow> json option \<Rightarrow> bool" where
  "matchesDestructivePattern pd args =
     list_ex (\<lambda>p. pattern_hits p (serialize_args args)) (pd_destructive_patterns pd)"

definition checkTokenCap :: "middleware \<Rightarrow> string \<Rightarrow> int \<Rightarrow> bool" where
  "checkTokenCap mw agentId cap =
     (case mw_agentState mw of
        None \<Rightarrow> True
      | Some t \<Rightarrow> (case agent_get agentId t of None \<Rightarrow> True | Some st \<Rightarrow> as_tokens_used st < cap))"

fun source_name :: "policy_source \<Rightarrow> string" where
  "source_name Platform_Deny = ''platform_deny''"
| "source_name Agent_Rule = ''agent_rule''"
| "source_name Platform_Allow = ''platform_allow''"
| "source_name Platform_Require_Approval = ''platform_require_approval''"
| "source_name Risk_Default = ''risk_default''"
| "source_name Default = ''default''"

text \<open>Double quotes as the template strings print them.\<close>

text \<open>The governance step: a decision, or whether the policy explicitly allows the call.\<close>

definition check_governance ::
  "middleware \<Rightarrow> permission_input \<Rightarrow> decision + bool" where
  "check_governance mw input =
     (case resolveGovernancePolicy mw (Some (pi_taskId input)) of
        None \<Rightarrow> Inr False
      | Some policy \<Rightarrow>
          (let toolName = pi_toolName input;
               cls = (case mw_classificationLookup mw of
                        None \<Rightarrow> None | Some f \<Rightarrow> f (pi_mcp input) toolName);
               evaluation = evaluatePolicy policy
                 \<lparr>q_agentId = agent_id (pi_agent input), q_mcpId = pi_mcp input,
                  q_toolName = toolName, q_classification = cls\<rparr>
           in case eval_state evaluation of
                Deny \<Rightarrow> Inl (Denied
                  (coalesce (eval_reason evaluation)
                    (''Tool '' @ dq toolName @ '' denied by governance policy ('' @
                     source_name (eval_source evaluation) @ '')''))
                  (if eval_source evaluation = Platform_Deny then Blocked_Tool else Policy_Deny)
                  None (eval_rule evaluation))
              | Require_Approval \<Rightarrow> Inl (Denied
                  (coalesce (eval_reason evaluation)
                    (''Tool '' @ dq toolName @ '' requires human approval before running''))
                  Requires_Approval (Some Gate_Approval) (eval_rule evaluation))
              | Require_Input \<Rightarrow> Inl (Denied
                  (coalesce (eval_reason evaluation)
                    (''Tool '' @ dq toolName @
                     '' requires the user to confirm/edit arguments before running''))
                  Requires_Input (Some Gate_Input) (eval_rule evaluation))
              | Allow \<Rightarrow> Inr True
              | Inherit \<Rightarrow> Inr False))"

text \<open>The connector and agent tool lists, skipped when the policy explicitly allows.\<close>

definition check_tool_lists :: "middleware \<Rightarrow> permission_input \<Rightarrow> decision option" where
  "check_tool_lists mw input =
     (let toolName = pi_toolName input; agent = pi_agent input; mcpPolicy = mw_mcpPolicies mw (pi_mcp input)
      in if (\<exists>p. mcpPolicy = Some p \<and> toolName \<in> set (coalesce (mp_blocked_tools p) []))
         then Some (Denied (''Tool '' @ dq toolName @ '' is blocked by MCP policy for '' @
                dq (pi_mcp input)) Blocked_Tool None None)
         else if (\<exists>p l. mcpPolicy = Some p \<and> mp_allowed_tools p = Some l \<and> length l > 0 \<and> toolName \<notin> set l)
         then Some (Denied (''Tool '' @ dq toolName @ '' is not in MCP allowed_tools for '' @
                dq (pi_mcp input)) Not_Allowed_Tool None None)
         else if toolName \<in> set (blocked_tools agent)
         then Some (Denied (''Tool '' @ dq toolName @ '' is blocked for agent '' @
                dq (agent_id agent)) Blocked_Tool None None)
         else if length (allowed_tools agent) > 0 \<and> toolName \<notin> set (allowed_tools agent)
         then Some (Denied (''Tool '' @ dq toolName @ '' is not in agent allowed_tools for '' @
                dq (agent_id agent)) Not_Allowed_Tool None None)
         else None)"

definition decide :: "middleware \<Rightarrow> permission_input \<Rightarrow> decision" where
  "decide mw input =
     (let agent = pi_agent input; toolName = pi_toolName input;
          override = mw_sessionOverrides mw (agent_id agent)
      in
      if (\<exists>o'. override = Some o' \<and> so_paused o')
      then Denied (''Agent '' @ dq (agent_id agent) @ '' is paused by session override'')
             Session_Override None None
      else if (\<exists>o'. override = Some o' \<and> toolName \<in> set (coalesce (so_blocked_tools o') []))
      then Denied (''Tool '' @ dq toolName @ '' blocked by session override'')
             Session_Override None None
      else
      (case check_governance mw input of
         Inl d \<Rightarrow> d
       | Inr policyAllowOverride \<Rightarrow>
           if \<not> policyAllowOverride \<and> toolName \<in> set (pd_blocked_tools (mw_platformDefaults mw))
           then Denied (''Tool '' @ dq toolName @ '' is blocked by platform defaults'')
                  Blocked_Tool None None
           else if matchesDestructivePattern (mw_platformDefaults mw) (pi_args input)
           then Denied ''Input matches a destructive pattern and requires explicit approval''
                  Destructive_Pattern (Some Gate_Approval) None
           else
           (case (if policyAllowOverride then None else check_tool_lists mw input) of
              Some d \<Rightarrow> d
            | None \<Rightarrow>
                if \<not> checkTokenCap mw (agent_id agent) (max_session_tokens agent)
                then Denied (''Agent '' @ dq (agent_id agent) @ '' hit token cap of '' @
                       int_to_str (max_session_tokens agent)) Token_Cap_Exceeded None None
                else Allowed)))"

fun code_name :: "deny_code \<Rightarrow> string" where
  "code_name Blocked_Tool = ''blocked_tool''"
| "code_name Not_Allowed_Tool = ''not_allowed_tool''"
| "code_name Destructive_Pattern = ''destructive_pattern''"
| "code_name Token_Cap_Exceeded = ''token_cap_exceeded''"
| "code_name Session_Override = ''session_override''"
| "code_name Policy_Deny = ''policy_deny''"
| "code_name Requires_Approval = ''requires_approval''"
| "code_name Requires_Input = ''requires_input''"

text \<open>The event id, the row id and the clock of one audit write.\<close>

record audit_env =
  ae_event_id :: string
  ae_row_id :: string
  ae_now :: int

definition perm_audit_input :: "audit_env \<Rightarrow> permission_input \<Rightarrow> decision \<Rightarrow> audit_write_input" where
  "perm_audit_input env input d =
     \<lparr>aw_event_id = ae_event_id env, aw_event_type = Permission_Check,
      aw_agent_id = agent_id (pi_agent input), aw_task_id = pi_taskId input,
      aw_session_id = pi_sessionId input, aw_tool_name = Some (pi_toolName input),
      aw_tool_input = pi_args input, aw_tool_output = None,
      aw_allowed = (d = Allowed),
      aw_block_reason = (case d of Allowed \<Rightarrow> None
         | Denied r c g ru \<Rightarrow> Some (code_name c @ '': '' @ r)),
      aw_tokens_used = None, aw_duration_ms = None\<rparr>"

definition writeAudit ::
  "audit_env \<Rightarrow> permission_input \<Rightarrow> decision \<Rightarrow> middleware \<Rightarrow> middleware option" where
  "writeAudit env input d mw =
     (case mw_audit mw of
        None \<Rightarrow> Some mw
      | Some t \<Rightarrow> map_option (\<lambda>t'. mw\<lparr>mw_audit := Some t'\<rparr>)
          (audit_write (ae_row_id env) (ae_now env) (perm_audit_input env input d) t))"

text \<open>\<open>check\<close>: \<open>None\<close> when the audit write throws, so no decision is returned.\<close>

definition check ::
  "audit_env \<Rightarrow> permission_input \<Rightarrow> middleware \<Rightarrow> (middleware \<times> decision) option" where
  "check env input mw =
     (let d = decide mw input in map_option (\<lambda>mw'. (mw', d)) (writeAudit env input d mw))"

section \<open>The other operations\<close>

definition recordCompletedCall :: "string \<Rightarrow> int \<Rightarrow> middleware \<Rightarrow> middleware" where
  "recordCompletedCall agentId ts mw =
     mw\<lparr>mw_agentState := map_option (agent_incrementCalls agentId ts) (mw_agentState mw)\<rparr>"

definition recordUsage :: "string \<Rightarrow> int \<Rightarrow> int \<Rightarrow> middleware \<Rightarrow> middleware" where
  "recordUsage agentId tokens ts mw =
     mw\<lparr>mw_agentState := map_option (agent_incrementTokens agentId tokens ts) (mw_agentState mw)\<rparr>"

definition setSessionOverride :: "string \<Rightarrow> session_override \<Rightarrow> middleware \<Rightarrow> middleware" where
  "setSessionOverride agentId override mw =
     mw\<lparr>mw_sessionOverrides := (mw_sessionOverrides mw)(agentId \<mapsto> override)\<rparr>"

definition clearSessionOverride :: "string \<Rightarrow> middleware \<Rightarrow> middleware" where
  "clearSessionOverride agentId mw =
     mw\<lparr>mw_sessionOverrides := (mw_sessionOverrides mw)(agentId := None)\<rparr>"

definition setGovernancePolicy :: "governance_policy option \<Rightarrow> middleware \<Rightarrow> middleware" where
  "setGovernancePolicy policy mw = mw\<lparr>mw_governance := Policy_Value policy\<rparr>"

definition getGovernancePolicy :: "middleware \<Rightarrow> governance_policy option" where
  "getGovernancePolicy mw = resolveGovernancePolicy mw None"

definition checkPermission :: "agent_def \<Rightarrow> string \<Rightarrow> decision" where
  "checkPermission agent toolName =
     (if toolName \<in> set (blocked_tools agent)
      then Denied (''Tool '' @ dq toolName @ '' is blocked for agent '' @ dq (agent_id agent))
             Blocked_Tool None None
      else if length (allowed_tools agent) > 0 \<and> toolName \<notin> set (allowed_tools agent)
      then Denied (''Tool '' @ dq toolName @ '' is not in allowed_tools for agent '' @
             dq (agent_id agent)) Not_Allowed_Tool None None
      else Allowed)"


section \<open>Laws\<close>

interpretation overrides: keyed_store mw_sessionOverrides setSessionOverride clearSessionOverride
  by unfold_locales (simp_all add: setSessionOverride_def clearSessionOverride_def)

text \<open>What blocks a call, named one by one.\<close>

definition overridden :: "middleware \<Rightarrow> permission_input \<Rightarrow> bool" where
  "overridden mw input =
     (case mw_sessionOverrides mw (agent_id (pi_agent input)) of
        None \<Rightarrow> False
      | Some o' \<Rightarrow> so_paused o' \<or> pi_toolName input \<in> set (coalesce (so_blocked_tools o') []))"

definition lists_pass :: "middleware \<Rightarrow> permission_input \<Rightarrow> bool" where
  "lists_pass mw input =
     (pi_toolName input \<notin> set (pd_blocked_tools (mw_platformDefaults mw)) \<and>
      (case mw_mcpPolicies mw (pi_mcp input) of
         None \<Rightarrow> True
       | Some p \<Rightarrow> pi_toolName input \<notin> set (coalesce (mp_blocked_tools p) []) \<and>
           (coalesce (mp_allowed_tools p) [] = [] \<or>
            pi_toolName input \<in> set (coalesce (mp_allowed_tools p) []))) \<and>
      pi_toolName input \<notin> set (blocked_tools (pi_agent input)) \<and>
      (allowed_tools (pi_agent input) = [] \<or> pi_toolName input \<in> set (allowed_tools (pi_agent input))))"

definition policy_verdict :: "middleware \<Rightarrow> permission_input \<Rightarrow> tool_policy_state" where
  "policy_verdict mw input =
     (case resolveGovernancePolicy mw (Some (pi_taskId input)) of
        None \<Rightarrow> Inherit
      | Some policy \<Rightarrow> eval_state (evaluatePolicy policy
          \<lparr>q_agentId = agent_id (pi_agent input), q_mcpId = pi_mcp input,
           q_toolName = pi_toolName input,
           q_classification = (case mw_classificationLookup mw of
              None \<Rightarrow> None | Some f \<Rightarrow> f (pi_mcp input) (pi_toolName input))\<rparr>))"

lemma check_tool_lists_None:
  "check_tool_lists mw input = None \<and> pi_toolName input \<notin> set (pd_blocked_tools (mw_platformDefaults mw))
     \<longleftrightarrow> lists_pass mw input"
proof (cases "mw_mcpPolicies mw (pi_mcp input)")
  case None
  then show ?thesis by (auto simp: check_tool_lists_def lists_pass_def Let_def)
next
  case (Some p)
  then show ?thesis
    by (cases "mp_allowed_tools p") (auto simp: check_tool_lists_def lists_pass_def Let_def)
qed

lemma check_tool_lists_denies: "check_tool_lists mw input = Some d \<Longrightarrow> d \<noteq> Allowed"
  by (auto simp: check_tool_lists_def Let_def split: if_splits)

lemma check_governance_cases:
  "check_governance mw input = Inr (policy_verdict mw input = Allow)
     \<and> policy_verdict mw input \<in> {Allow, Inherit} \<or>
   (\<exists>r c g ru. check_governance mw input = Inl (Denied r c g ru))
     \<and> policy_verdict mw input \<in> {Deny, Require_Approval, Require_Input}"
  by (auto simp: check_governance_def policy_verdict_def Let_def
      split: option.splits tool_policy_state.splits)

lemma decide_allowed_iff:
  "decide mw input = Allowed \<longleftrightarrow>
     \<not> overridden mw input \<and>
     (policy_verdict mw input = Allow \<or> policy_verdict mw input = Inherit \<and> lists_pass mw input) \<and>
     \<not> matchesDestructivePattern (mw_platformDefaults mw) (pi_args input) \<and>
     checkTokenCap mw (agent_id (pi_agent input)) (max_session_tokens (pi_agent input))"
proof -
  have ov: "overridden mw input \<longleftrightarrow>
      (\<exists>o'. mw_sessionOverrides mw (agent_id (pi_agent input)) = Some o' \<and> so_paused o') \<or>
      (\<exists>o'. mw_sessionOverrides mw (agent_id (pi_agent input)) = Some o' \<and>
         pi_toolName input \<in> set (coalesce (so_blocked_tools o') []))"
    by (auto simp: overridden_def split: option.splits)
  from check_governance_cases [of mw input] show ?thesis
  proof (elim disjE conjE exE)
    assume g: "check_governance mw input = Inr (policy_verdict mw input = Allow)"
      and v: "policy_verdict mw input \<in> {Allow, Inherit}"
    show ?thesis
      using v check_tool_lists_denies [of mw input]
      by (auto simp: decide_def Let_def g ov check_tool_lists_None [symmetric]
          split: option.splits if_splits)
  next
    fix r c gt ru
    assume g: "check_governance mw input = Inl (Denied r c gt ru)"
      and v: "policy_verdict mw input \<in> {Deny, Require_Approval, Require_Input}"
    then show ?thesis by (auto simp: decide_def Let_def g)
  qed
qed

lemma policy_verdict_denied:
  assumes "resolveGovernancePolicy mw (Some (pi_taskId input)) = Some p"
    and "r \<in> set (always_deny (platform p))" and "matchRule r (pi_mcp input) (pi_toolName input)"
  shows "policy_verdict mw input = Deny"
  using assms evaluate_denied [of r p] by (simp add: policy_verdict_def)

lemma check_audits:
  assumes "check env input mw = Some (mw', d)" and "mw_audit mw = Some t"
  shows "mw_audit mw' = Some (t @ [audit_write_input.extend (perm_audit_input env input d)
      \<lparr>aw_id = ae_row_id env, aw_created_at = ae_now env\<rparr>])"
  using assms by (auto simp: check_def writeAudit_def Let_def audit_write_Some)

lemma check_frame [frame_simps]:
  assumes "check env input mw = Some (mw', d)"
  shows "mw_agentState mw' = mw_agentState mw" "mw_sessionOverrides mw' = mw_sessionOverrides mw"
    "mw_governance mw' = mw_governance mw" "mw_platformDefaults mw' = mw_platformDefaults mw"
    "mw_mcpPolicies mw' = mw_mcpPolicies mw"
  using assms by (auto simp: check_def writeAudit_def Let_def split: option.splits)

lemma agent_tokens_recordUsage:
  "mw_agentState mw = Some t \<Longrightarrow>
     mw_agentState (recordUsage a n ts mw) = Some (apply_agent_op (Inc_Tokens a n ts) t)"
  by (simp add: recordUsage_def)

lemma recordUsage_run:
  "mw_agentState mw = Some t \<Longrightarrow>
     mw_agentState (fold (\<lambda>(n, ts). recordUsage a n ts) us mw) =
       Some (fold apply_agent_op (map (\<lambda>(n, ts). Inc_Tokens a n ts) us) t)"
  by (induction us arbitrary: mw t) (auto simp: agent_tokens_recordUsage)

lemma checkTokenCap_tokens:
  "mw_agentState mw = Some t \<Longrightarrow> 0 < cap \<Longrightarrow>
     checkTokenCap mw a cap \<longleftrightarrow> agent_tokens a t < cap"
  by (auto simp: checkTokenCap_def agent_tokens_def split: option.splits)

text \<open>A match of the first default pattern inside a longer command.\<close>

lemma rm_rf_found:
  assumes "u = [] \<or> \<not> is_word (last u)"
  shows "rx_test (seqs [Word_Bound, lit_ci ''rm'', Some_Of is_ws, lit_ci ''-rf'',
           Some_Of is_ws, lit_ci ''/'']) (u @ ''rm -rf /'' @ v)"
proof (rule rx_test_at)
  let ?s = "u @ ''rm -rf /'' @ v" and ?n = "length u"
  have "(0 < ?n \<and> word_at ?s (?n - 1)) = False"
    using assms by (cases u rule: rev_cases) (auto simp: word_at_def nth_append)
  moreover have "word_at ?s ?n" by (simp add: word_at_def is_word_def is_lower_def)
  ultimately have 1: "?n \<in> set (rx_ends Word_Bound ?s ?n)" by simp
  have 2: "?n + 2 \<in> set (rx_ends (lit_ci ''rm'') ?s ?n)"
    using rx_lit_ci_at [of u "''rm''" "'' -rf /'' @ v"] by simp
  have 3: "?n + 3 \<in> set (rx_ends (Some_Of is_ws) ?s (?n + 2))"
    using rx_some_of_one [of is_ws "CHR '' ''" "u @ ''rm''" "''-rf /'' @ v"]
    by (simp add: is_ws_def numeral_eq_Suc)
  have 4: "?n + 6 \<in> set (rx_ends (lit_ci ''-rf'') ?s (?n + 3))"
    using rx_lit_ci_at [of "u @ ''rm ''" "''-rf''" "'' /'' @ v"] by (simp add: numeral_eq_Suc)
  have 5: "?n + 7 \<in> set (rx_ends (Some_Of is_ws) ?s (?n + 6))"
    using rx_some_of_one [of is_ws "CHR '' ''" "u @ ''rm -rf''" "''/'' @ v"]
    by (simp add: is_ws_def numeral_eq_Suc)
  have 6: "?n + 8 \<in> set (rx_ends (lit_ci ''/'') ?s (?n + 7))"
    using rx_lit_ci_at [of "u @ ''rm -rf ''" "''/''" v] by (simp add: numeral_eq_Suc)
  from 1 2 3 4 5 6 show "?n + 8 \<in> set (rx_ends (seqs [Word_Bound, lit_ci ''rm'', Some_Of is_ws,
      lit_ci ''-rf'', Some_Of is_ws, lit_ci ''/'']) ?s ?n)"
    unfolding seqs.simps rx_seq_ends by blast
qed simp

section \<open>Properties\<close>


definition sample_agent :: agent_def where
  "sample_agent = \<lparr>agent_id = ''dev'', allowed_tools = [], blocked_tools = [], max_session_tokens = 100\<rparr>"

definition sample_input :: "json option \<Rightarrow> permission_input" where
  "sample_input args = \<lparr>pi_agent = sample_agent, pi_mcp = ''sh'', pi_toolName = ''run'',
     pi_args = args, pi_taskId = ''t1'', pi_sessionId = ''s1''\<rparr>"

definition sample_middleware :: middleware where
  "sample_middleware = \<lparr>mw_audit = Some [], mw_agentState = Some [],
     mw_platformDefaults = DEFAULT_PLATFORM_DEFAULTS, mw_mcpPolicies = Map.empty,
     mw_sessionOverrides = Map.empty, mw_governance = Policy_Value None,
     mw_classificationLookup = None\<rparr>"

definition sample_env :: audit_env where
  "sample_env = \<lparr>ae_event_id = ''perm_1_x'', ae_row_id = ''aud_1'', ae_now = 1\<rparr>"

lemma sample_check: "check sample_env (sample_input a) sample_middleware =
    Some (the (writeAudit sample_env (sample_input a) (decide sample_middleware (sample_input a)) sample_middleware),
      decide sample_middleware (sample_input a))"
  by (simp add: check_def writeAudit_def audit_write_def tbl_insert_def sample_middleware_def Let_def)


text \<open>
  The kill switch is absolute: when a rule of \<open>always_deny\<close> matches the call, no session
  override, agent rule, allowlist or tool list makes \<open>check\<close> allow it.
\<close>

theorem kill_switch_denies:
  assumes "check env input mw = Some (mw', d)"
    and "resolveGovernancePolicy mw (Some (pi_taskId input)) = Some p"
    and "r \<in> set (always_deny (platform p))" and "matchRule r (pi_mcp input) (pi_toolName input)"
  shows "d \<noteq> Allowed"
proof -
  from assms(2-4) have "policy_verdict mw input = Deny" by (rule policy_verdict_denied)
  with assms(1) decide_allowed_iff [of mw input] show ?thesis by (auto simp: check_def Let_def)
qed

theorem kill_switch_denies_witness:
  "\<exists>mw' d. check sample_env (sample_input None)
     (sample_middleware\<lparr>mw_governance := Policy_Value (Some (setPlatformRule emptyGovernancePolicy
        Bucket_Deny (sample_rule ''*'' ''run'' Deny) ''t''))\<rparr>) = Some (mw', d) \<and> d \<noteq> Allowed"
proof -
  let ?p = "setPlatformRule emptyGovernancePolicy Bucket_Deny (sample_rule ''*'' ''run'' Deny) ''t''"
  let ?mw = "sample_middleware\<lparr>mw_governance := Policy_Value (Some ?p)\<rparr>"
  let ?d = "decide ?mw (sample_input None)"
  have c: "check sample_env (sample_input None) ?mw =
      Some (the (writeAudit sample_env (sample_input None) ?d ?mw), ?d)"
    by (simp add: check_def writeAudit_def audit_write_def tbl_insert_def sample_middleware_def Let_def)
  have "?d \<noteq> Allowed"
    by (rule kill_switch_denies [OF c, of ?p "sample_rule ''*'' ''run'' Deny"])
      (simp_all add: resolveGovernancePolicy_def setPlatformRule_def emptyGovernancePolicy_def
        sample_rule_def sample_input_def matchRule_def Let_def)
  with c show ?thesis by blast
qed

text \<open>
  Every answered \<open>check\<close> appends exactly one row to the audit log, for the agent, task,
  session and tool of the call, whose \<open>allowed\<close> flag is the decision.
\<close>

theorem check_audits_decision:
  assumes "check env input mw = Some (mw', d)" and "mw_audit mw = Some t"
  shows "\<exists>row. mw_audit mw' = Some (t @ [row]) \<and> aw_event_type row = Permission_Check \<and>
    aw_agent_id row = agent_id (pi_agent input) \<and> aw_task_id row = pi_taskId input \<and>
    aw_session_id row = pi_sessionId input \<and> aw_tool_name row = Some (pi_toolName input) \<and>
    (aw_allowed row \<longleftrightarrow> d = Allowed) \<and> (aw_block_reason row = None \<longleftrightarrow> d = Allowed)"
  using check_audits [OF assms]
  by (auto simp: perm_audit_input_def audit_write_input.defs split: decision.splits)

theorem check_audits_decision_witness:
  "\<exists>row mw' d. check sample_env (sample_input None) sample_middleware = Some (mw', d) \<and>
     mw_audit mw' = Some ([] @ [row]) \<and> aw_agent_id row = ''dev''"
proof -
  let ?mw = "the (writeAudit sample_env (sample_input None)
      (decide sample_middleware (sample_input None)) sample_middleware)"
  have e: "mw_audit sample_middleware = Some []" by (simp add: sample_middleware_def)
  have a: "agent_id (pi_agent (sample_input None)) = ''dev''"
    by (simp add: sample_input_def sample_agent_def)
  obtain row where r: "mw_audit ?mw = Some ([] @ [row])"
    and d: "aw_agent_id row = agent_id (pi_agent (sample_input None))"
    using check_audits_decision [OF sample_check [of None] e] by blast
  from d a have "aw_agent_id row = ''dev''" by (rule trans)
  with r sample_check [of None] show ?thesis by blast
qed

text \<open>
  Token accounting reaches the gate: once the tokens recorded for an agent add up to its
  cap, every further \<open>check\<close> of a call by that agent is refused.
\<close>

theorem token_cap_enforced:
  assumes "mw_agentState mw = Some t"
    and "0 < max_session_tokens (pi_agent input)"
    and "max_session_tokens (pi_agent input) \<le>
      agent_tokens (agent_id (pi_agent input)) t + sum_list (map fst us)"
    and "check env input (fold (\<lambda>(n, ts). recordUsage (agent_id (pi_agent input)) n ts) us mw) = Some (mw', d)"
  shows "d \<noteq> Allowed"
proof -
  let ?a = "agent_id (pi_agent input)" and ?cap = "max_session_tokens (pi_agent input)"
  let ?mw = "fold (\<lambda>(n, ts). recordUsage ?a n ts) us mw"
  let ?t = "fold apply_agent_op (map (\<lambda>(n, ts). Inc_Tokens ?a n ts) us) t"
  have "map (tokens_of ?a) (map (\<lambda>(n, ts). Inc_Tokens ?a n ts) us) = map fst us" by auto
  then have "agent_tokens ?a ?t = agent_tokens ?a t + sum_list (map fst us)"
    by (simp only: agent_tokens_run)
  with assms(3) have "\<not> agent_tokens ?a ?t < ?cap" by simp
  with checkTokenCap_tokens [OF recordUsage_run [OF assms(1)] assms(2)]
  have "\<not> checkTokenCap ?mw ?a ?cap" by blast
  with assms(4) decide_allowed_iff [of ?mw input] show ?thesis by (auto simp: check_def Let_def)
qed

theorem token_cap_enforced_witness:
  "\<exists>mw' d. check sample_env (sample_input None)
     (fold (\<lambda>(n, ts). recordUsage (agent_id sample_agent) n ts) [(60, 1), (40, 2)] sample_middleware) = Some (mw', d)
     \<and> d \<noteq> Allowed"
proof -
  let ?a = "agent_id (pi_agent (sample_input None))"
  let ?mw = "fold (\<lambda>(n, ts). recordUsage ?a n ts) [(60, 1), (40, 2)] sample_middleware"
  let ?d = "decide ?mw (sample_input None)"
  have a: "?a = agent_id sample_agent" by (simp add: sample_input_def)
  have c: "check sample_env (sample_input None) ?mw =
      Some (the (writeAudit sample_env (sample_input None) ?d ?mw), ?d)"
    by (simp add: check_def writeAudit_def audit_write_def tbl_insert_def recordUsage_def
        sample_middleware_def Let_def)
  have s: "mw_agentState sample_middleware = Some []" by (simp add: sample_middleware_def)
  have "?d \<noteq> Allowed"
    by (rule token_cap_enforced [OF s _ _ c])
      (simp_all add: sample_input_def sample_agent_def agent_tokens_def agent_get_def)
  with c show ?thesis unfolding a by blast
qed

text \<open>
  With the default patterns a command string that runs \<open>rm -rf /\<close> at the start of a word
  is refused whatever precedes or follows it, even when the policy allows the tool.
\<close>

theorem rm_rf_root_refused:
  assumes "u = [] \<or> \<not> is_word (last u)"
    and "mw_platformDefaults mw = DEFAULT_PLATFORM_DEFAULTS"
    and "pi_args input = Some (JStr (u @ ''rm -rf /'' @ v))"
    and "check env input mw = Some (mw', d)"
  shows "d \<noteq> Allowed"
proof -
  have "matchesDestructivePattern DEFAULT_PLATFORM_DEFAULTS (pi_args input)"
    using rm_rf_found [OF assms(1), of v] assms(3)
    by (simp add: matchesDestructivePattern_def DEFAULT_PLATFORM_DEFAULTS_def serialize_args_def
        del: seqs.simps)
  with assms(2,4) decide_allowed_iff [of mw input] show ?thesis by (auto simp: check_def Let_def)
qed

theorem rm_rf_root_refused_witness:
  "decide sample_middleware (sample_input (Some (JStr ''cd /tmp; rm -rf /home''))) \<noteq> Allowed"
  by (rule rm_rf_root_refused [of "''cd /tmp; ''" sample_middleware _ "''home''", OF _ _ _ sample_check])
    (simp_all add: is_word_def is_digit_def is_upper_def is_lower_def sample_middleware_def sample_input_def)

text \<open>
  The patterns look at the JSON text of structured arguments, where a newline is the two
  characters backslash and \<open>n\<close>: a destructive command on a later line of a script is then
  preceded by a word character and goes through.
\<close>

lemma rm_rf_after_newline_passes:
  "\<not> matchesDestructivePattern DEFAULT_PLATFORM_DEFAULTS
     (Some (JObj [(''command'', JStr (''ls'' @ [CHR 0x0A] @ ''rm -rf /''))]))"
  by code_simp

end
