(* ===== verification/Paths.thy ===== *)
theory Paths
  imports Prelude
begin

text \<open>
  Workspace boundaries: the \<open>node:path\<close> operations on POSIX paths, the string-based
  boundary checks of \<open>packages/shared/src/workspace-paths.ts\<close> and
  \<open>workspace-access.ts\<close>, and the path resolver of \<open>path-resolver.ts\<close>. The file system is
  an argument: what exists and where \<open>realpath\<close> leads.
\<close>

section \<open>The path module\<close>

definition slash :: char where "slash = CHR 0x2F"

definition isAbsolute :: "string \<Rightarrow> bool" where
  "isAbsolute p = (p \<noteq> [] \<and> hd p = slash)"

text \<open>Segments with \<open>.\<close> and empty ones dropped and \<open>..\<close> applied, as \<open>resolve\<close> does.\<close>

fun norm_segs :: "string list \<Rightarrow> string list \<Rightarrow> string list" where
  "norm_segs stack [] = rev stack"
| "norm_segs stack (s # ss) =
     (if s = [] \<or> s = ''.'' then norm_segs stack ss
      else if s = ''..'' then norm_segs (tl stack) ss
      else norm_segs (s # stack) ss)"

definition segs :: "string \<Rightarrow> string list" where
  "segs p = norm_segs [] (split_char slash p)"

definition render :: "string list \<Rightarrow> string" where
  "render ss = slash # join_with [slash] ss"

text \<open>\<open>path.resolve(base, p)\<close> with an absolute \<open>base\<close>.\<close>

definition path_resolve :: "string \<Rightarrow> string \<Rightarrow> string" where
  "path_resolve base p = render (segs (if isAbsolute p then p else base @ [slash] @ p))"

fun strip_common :: "string list \<Rightarrow> string list \<Rightarrow> string list \<times> string list" where
  "strip_common (x # xs) (y # ys) = (if x = y then strip_common xs ys else (x # xs, y # ys))"
| "strip_common xs ys = (xs, ys)"

text \<open>\<open>path.relative\<close> of two absolute paths.\<close>

definition path_relative :: "string \<Rightarrow> string \<Rightarrow> string" where
  "path_relative from to' =
     (case strip_common (segs from) (segs to') of
        (up, down) \<Rightarrow> join_with [slash] (replicate (length up) ''..'' @ down))"

definition path_dirname :: "string \<Rightarrow> string" where
  "path_dirname p = render (butlast (segs p))"

section \<open>workspace-paths.ts\<close>

text \<open>
  \<open>cwd\<close> is the directory of the process. \<open>realpathSync\<close> is only called on paths
  \<open>existsSync\<close> accepted.
\<close>

record file_system =
  fs_exists :: "string \<Rightarrow> bool"
  fs_real :: "string \<Rightarrow> string"

definition normalizeWorkspaceRoot :: "string \<Rightarrow> string \<Rightarrow> string" where
  "normalizeWorkspaceRoot root baseDirectory = path_resolve baseDirectory root"

definition isPathInsideRoot :: "string \<Rightarrow> string \<Rightarrow> string \<Rightarrow> bool" where
  "isPathInsideRoot cwd root candidatePath =
     (let normalizedRoot = path_resolve cwd root;
          normalizedCandidate = path_resolve cwd candidatePath;
          rel = path_relative normalizedRoot normalizedCandidate
      in rel = [] \<or> (\<not> starts_with rel ''..'' \<and> \<not> isAbsolute rel))"

definition canonicalWorkspacePath :: "file_system \<Rightarrow> string \<Rightarrow> string \<Rightarrow> string \<Rightarrow> string" where
  "canonicalWorkspacePath fs cwd workspaceRoot candidatePath =
     (let resolved = (if isAbsolute candidatePath then path_resolve cwd candidatePath
                      else path_resolve (path_resolve cwd workspaceRoot) candidatePath)
      in if fs_exists fs resolved then fs_real fs resolved else resolved)"

definition isPathWithinScope ::
  "file_system \<Rightarrow> string \<Rightarrow> string \<Rightarrow> string \<Rightarrow> string \<Rightarrow> bool" where
  "isPathWithinScope fs cwd workspaceRoot scopePath resourcePath =
     (let normalizedScope = canonicalWorkspacePath fs cwd workspaceRoot scopePath;
          normalizedResource = canonicalWorkspacePath fs cwd workspaceRoot resourcePath
      in isPathInsideRoot cwd normalizedScope normalizedResource)"

definition escape_message :: "string \<Rightarrow> string \<Rightarrow> string" where
  "escape_message p root = ''Path '' @ dq p @ '' escapes workspace root '' @ dq root"

definition resolveWorkspacePath :: "string \<Rightarrow> string \<Rightarrow> string \<Rightarrow> string + string" where
  "resolveWorkspacePath cwd root relativePath =
     (let normalizedRoot = path_resolve cwd root;
          resolvedPath = path_resolve normalizedRoot relativePath
      in if \<not> isPathInsideRoot cwd normalizedRoot resolvedPath
         then Inl (escape_message relativePath normalizedRoot)
         else Inr resolvedPath)"

text \<open>
  The loop over the ancestors of a path that does not exist, nearest first, on the
  segments of the ancestor: it stops at the file system's root without looking at it.
\<close>

function ancestor_check ::
  "file_system \<Rightarrow> string \<Rightarrow> string \<Rightarrow> string \<Rightarrow> string \<Rightarrow> string list \<Rightarrow> string + string" where
  "ancestor_check fs cwd realRoot candidatePath resolvedCandidate anc =
     (if anc = [] then Inr resolvedCandidate
      else if fs_exists fs (render anc)
      then (if \<not> isPathInsideRoot cwd realRoot (fs_real fs (render anc))
            then Inl (escape_message candidatePath realRoot)
            else Inr resolvedCandidate)
      else ancestor_check fs cwd realRoot candidatePath resolvedCandidate (butlast anc))"
  by pat_completeness auto
termination
  by (relation "measure (\<lambda>(fs, cwd, r, c, p, anc). length anc)") auto

declare ancestor_check.simps [simp del]

definition assertWorkspaceBoundary ::
  "file_system \<Rightarrow> string \<Rightarrow> string \<Rightarrow> string \<Rightarrow> string + string" where
  "assertWorkspaceBoundary fs cwd root candidatePath =
     (let normalizedRoot = path_resolve cwd root;
          resolvedCandidate = (if isAbsolute candidatePath then path_resolve cwd candidatePath
                               else path_resolve normalizedRoot candidatePath)
      in
      if \<not> fs_exists fs normalizedRoot
      then (if \<not> isPathInsideRoot cwd normalizedRoot resolvedCandidate
            then Inl (escape_message candidatePath normalizedRoot)
            else Inr resolvedCandidate)
      else
      (let realRoot = fs_real fs normalizedRoot
       in if fs_exists fs resolvedCandidate
          then (let realCandidate = fs_real fs resolvedCandidate
                in if \<not> isPathInsideRoot cwd realRoot realCandidate
                   then Inl (escape_message candidatePath realRoot)
                   else Inr realCandidate)
          else ancestor_check fs cwd realRoot candidatePath resolvedCandidate
                 (butlast (segs resolvedCandidate))))"

section \<open>workspace-access.ts\<close>

datatype access_operation = Op_Read | Op_Write | Op_Execute

fun operation_name :: "access_operation \<Rightarrow> string" where
  "operation_name Op_Read = ''read''"
| "operation_name Op_Write = ''write''"
| "operation_name Op_Execute = ''execute''"

record access_decision =
  acc_allowed :: bool
  acc_canonicalPath :: "string option"
  acc_reason :: "string option"

definition resolveWorkspaceAccess ::
  "file_system \<Rightarrow> string \<Rightarrow> string \<Rightarrow> string list \<Rightarrow> string \<Rightarrow> access_operation \<Rightarrow> access_decision" where
  "resolveWorkspaceAccess fs cwd workspaceRoot roleScopes resourcePath op =
     (case assertWorkspaceBoundary fs cwd workspaceRoot resourcePath of
        Inl err \<Rightarrow> \<lparr>acc_allowed = False, acc_canonicalPath = None, acc_reason = Some err\<rparr>
      | Inr canonicalPath \<Rightarrow>
          if roleScopes = []
          then \<lparr>acc_allowed = False, acc_canonicalPath = Some canonicalPath,
                acc_reason = Some (''Role has no workspace scope for '' @ operation_name op @
                   '' access to '' @ dq resourcePath)\<rparr>
          else if \<not> list_ex (\<lambda>scope. isPathWithinScope fs cwd workspaceRoot scope canonicalPath) roleScopes
          then \<lparr>acc_allowed = False, acc_canonicalPath = Some canonicalPath,
                acc_reason = Some (''Path '' @ dq resourcePath @
                   '' is outside the role workspace scopes'')\<rparr>
          else \<lparr>acc_allowed = True, acc_canonicalPath = Some canonicalPath, acc_reason = None\<rparr>)"

section \<open>path-resolver.ts\<close>

datatype fs_failure = Enoent | Other_Failure

datatype escape_reason = Esc_Workspace | Esc_Scope

datatype resolver_error =
    Root_Not_Absolute string
  | Scope_Outside string string
  | Path_Escape string string string "string list" escape_reason
  | Fs_Error fs_failure

text \<open>\<open>realpath\<close> of \<open>fs/promises\<close>.\<close>

type_synonym realpath = "string \<Rightarrow> fs_failure + string"

definition withinRoot :: "string \<Rightarrow> string \<Rightarrow> bool" where
  "withinRoot root p =
     (if p = root then True
      else let pre = (if ends_with root [slash] then root else root @ [slash])
           in starts_with p pre)"

definition remapCandidateToRealRoot :: "string \<Rightarrow> string \<Rightarrow> string \<Rightarrow> string" where
  "remapCandidateToRealRoot candidate declaredRoot realRoot =
     (if withinRoot realRoot candidate then candidate
      else if \<not> withinRoot declaredRoot candidate then candidate
      else path_resolve realRoot (path_relative declaredRoot candidate))"

text \<open>The text before the last separator, or the separator.\<close>

definition dirnameStrict :: "string \<Rightarrow> string" where
  "dirnameStrict p =
     (let front = butlast (rev (dropWhile (\<lambda>c. c \<noteq> slash) (rev p)))
      in if front = [] then [slash] else front)"

lemma length_dirnameStrict:
  "dirnameStrict p \<noteq> [slash] \<Longrightarrow> length (dirnameStrict p) < length p"
proof -
  let ?r = "dropWhile (\<lambda>c. c \<noteq> slash) (rev p)"
  assume "dirnameStrict p \<noteq> [slash]"
  then have d: "dirnameStrict p = butlast (rev ?r)" and ne: "butlast (rev ?r) \<noteq> []"
    by (auto simp only: dirnameStrict_def Let_def split: if_splits)
  from ne have "?r \<noteq> []" by (metis butlast.simps(1) rev.simps(1))
  moreover have "length ?r \<le> length p"
    using length_dropWhile_le [of _ "rev p"] by simp
  ultimately have "length ?r - 1 < length p" by (cases ?r) simp_all
  then show ?thesis by (simp add: d)
qed

lemma dirnameStrict_ne [simp]: "dirnameStrict p \<noteq> []"
  by (simp add: dirnameStrict_def Let_def)

function realpathOrParent :: "realpath \<Rightarrow> string \<Rightarrow> fs_failure + string" where
  "realpathOrParent rp p =
     (case rp p of
        Inr r \<Rightarrow> Inr r
      | Inl Other_Failure \<Rightarrow> Inl Other_Failure
      | Inl Enoent \<Rightarrow>
          (let parent = dirnameStrict p
           in if parent = p then Inr p else realpathOrParent rp parent))"
  by pat_completeness auto
termination
proof (relation "measure (\<lambda>(rp, p). if p = [slash] then 0 else Suc (length p))", goal_cases)
  case (2 rp p e)
  then show ?case
    using length_dirnameStrict [of p] by (auto split: if_splits)
qed simp

declare realpathOrParent.simps [simp del]

text \<open>The target path and the path that decides the boundary.\<close>

definition resolveCandidatePath :: "realpath \<Rightarrow> string \<Rightarrow> fs_failure + (string \<times> string)" where
  "resolveCandidatePath rp p =
     (case rp p of
        Inr real \<Rightarrow> Inr (real, real)
      | Inl Other_Failure \<Rightarrow> Inl Other_Failure
      | Inl Enoent \<Rightarrow>
          (case realpathOrParent rp p of
             Inl e \<Rightarrow> Inl e
           | Inr b \<Rightarrow> Inr (p, b)))"

record path_resolver =
  pr_declaredRoot :: string
  pr_root :: string
  pr_scopes :: "(string \<times> string) list"
  pr_enforce :: bool

definition candidate_of :: "string \<Rightarrow> string \<Rightarrow> string \<Rightarrow> string" where
  "candidate_of declaredRoot realRoot p =
     remapCandidateToRealRoot (if isAbsolute p then p else path_resolve realRoot p) declaredRoot realRoot"

fun resolve_scopes ::
  "realpath \<Rightarrow> string \<Rightarrow> string \<Rightarrow> string list \<Rightarrow> resolver_error + (string \<times> string) list" where
  "resolve_scopes rp declaredRoot realRoot [] = Inr []"
| "resolve_scopes rp declaredRoot realRoot (sp # sps) =
     (case resolveCandidatePath rp (candidate_of declaredRoot realRoot sp) of
        Inl e \<Rightarrow> Inl (Fs_Error e)
      | Inr (target, boundary) \<Rightarrow>
          if \<not> withinRoot realRoot target \<or> \<not> withinRoot realRoot boundary
          then Inl (Scope_Outside sp realRoot)
          else (case resolve_scopes rp declaredRoot realRoot sps of
                  Inl e \<Rightarrow> Inl e
                | Inr rest \<Rightarrow> Inr ((target, boundary) # rest)))"

definition createPathResolver ::
  "realpath \<Rightarrow> string \<Rightarrow> string list \<Rightarrow> bool option \<Rightarrow> resolver_error + path_resolver" where
  "createPathResolver rp root scopePaths enforceRoleScopes =
     (if \<not> isAbsolute root then Inl (Root_Not_Absolute root)
      else
      (let declaredRoot = path_resolve [slash] root
       in case rp root of
            Inl e \<Rightarrow> Inl (Fs_Error e)
          | Inr realRoot \<Rightarrow>
              (case resolve_scopes rp declaredRoot realRoot scopePaths of
                 Inl e \<Rightarrow> Inl e
               | Inr scopes \<Rightarrow> Inr \<lparr>pr_declaredRoot = declaredRoot, pr_root = realRoot,
                     pr_scopes = scopes, pr_enforce = coalesce enforceRoleScopes True\<rparr>)))"

definition createWorkspaceBoundaryPathResolver :: "realpath \<Rightarrow> string \<Rightarrow> resolver_error + path_resolver" where
  "createWorkspaceBoundaryPathResolver rp root = createPathResolver rp root [] (Some False)"

definition createRoleScopedPathResolver ::
  "realpath \<Rightarrow> string \<Rightarrow> string list \<Rightarrow> resolver_error + path_resolver" where
  "createRoleScopedPathResolver rp root scopePaths = createPathResolver rp root scopePaths (Some True)"

definition resolver_resolve :: "realpath \<Rightarrow> path_resolver \<Rightarrow> string \<Rightarrow> resolver_error + string" where
  "resolver_resolve rp r requested =
     (case resolveCandidatePath rp (candidate_of (pr_declaredRoot r) (pr_root r) requested) of
        Inl e \<Rightarrow> Inl (Fs_Error e)
      | Inr (target, boundary) \<Rightarrow>
          if \<not> withinRoot (pr_root r) target \<or> \<not> withinRoot (pr_root r) boundary
          then Inl (Path_Escape requested boundary (pr_root r) (map fst (pr_scopes r)) Esc_Workspace)
          else if pr_enforce r \<and>
            \<not> list_ex (\<lambda>(sp, sb). withinRoot sp target \<and> withinRoot sb boundary) (pr_scopes r)
          then Inl (Path_Escape requested boundary (pr_root r) (map fst (pr_scopes r)) Esc_Scope)
          else Inr target)"

definition formatPathEscapeError ::
  "string \<Rightarrow> string \<Rightarrow> string \<Rightarrow> string list \<Rightarrow> escape_reason \<Rightarrow> string" where
  "formatPathEscapeError requested resolved root scopePaths reason =
     (if reason = Esc_Scope \<and> length scopePaths > 0
      then ''path not allowed: '' @ dq requested @ '' resolved to '' @ dq resolved @
           '' which is outside allowed scope(s): '' @ join_with '', '' scopePaths @
           '' (workspace root: '' @ dq root @ '')''
      else ''path escape: '' @ dq requested @ '' resolved to '' @ dq resolved @
           '' which is outside workspace root '' @ dq root)"


section \<open>Normal paths\<close>

definition good_seg :: "string \<Rightarrow> bool" where
  "good_seg s = (s \<noteq> [] \<and> s \<noteq> ''.'' \<and> s \<noteq> ''..'' \<and> slash \<notin> set s)"

definition normal_path :: "string \<Rightarrow> bool" where
  "normal_path p = (p = render (segs p))"

lemma norm_segs_good:
  "list_all good_seg stack \<Longrightarrow> (\<And>s. s \<in> set ss \<Longrightarrow> slash \<notin> set s) \<Longrightarrow>
     list_all good_seg (norm_segs stack ss)"
proof (induction stack ss rule: norm_segs.induct)
  case (2 stack s ss)
  have "list_all good_seg (tl stack)" using 2(4) by (cases stack) simp_all
  moreover have "s \<noteq> [] \<Longrightarrow> s \<noteq> ''.'' \<Longrightarrow> s \<noteq> ''..'' \<Longrightarrow> good_seg s"
    using 2(5) by (simp add: good_seg_def)
  ultimately show ?case using 2 by simp
qed simp

lemma segs_good [simp]: "list_all good_seg (segs p)"
  unfolding segs_def by (rule norm_segs_good) (auto dest: split_char_no_sep)

lemma norm_segs_id: "list_all good_seg ss \<Longrightarrow> norm_segs stack ss = rev stack @ ss"
  by (induction ss arbitrary: stack) (auto simp: good_seg_def)

lemma split_char_append_sep:
  "split_char c (u @ c # v) = split_char c u @ split_char c v"
proof (induction u)
  case (Cons x u)
  then show ?case by (cases "split_char c u") auto
qed simp

lemma split_join_good:
  "list_all good_seg ss \<Longrightarrow> ss \<noteq> [] \<Longrightarrow> split_char slash (join_with [slash] ss) = ss"
  by (rule split_char_join) (auto simp: list_all_iff good_seg_def)

lemma split_render: "list_all good_seg ss \<Longrightarrow> ss \<noteq> [] \<Longrightarrow> split_char slash (render ss) = [] # ss"
  by (simp add: render_def split_join_good)

lemma segs_render [simp]: "list_all good_seg ss \<Longrightarrow> segs (render ss) = ss"
proof (cases "ss = []")
  case True
  then show ?thesis by (simp add: segs_def render_def)
next
  case False
  assume "list_all good_seg ss"
  with False show ?thesis by (simp add: segs_def split_render norm_segs_id)
qed

lemma isAbsolute_render [simp]: "isAbsolute (render ss)"
  by (simp add: isAbsolute_def render_def)

lemma normal_render [simp]: "list_all good_seg ss \<Longrightarrow> normal_path (render ss)"
  by (simp add: normal_path_def)

lemma normal_isAbsolute: "normal_path p \<Longrightarrow> isAbsolute p"
  by (metis isAbsolute_render normal_path_def)

lemma normal_path_resolve [simp]: "normal_path (path_resolve b p)"
  by (simp add: path_resolve_def)

lemma path_resolve_normal: "normal_path p \<Longrightarrow> path_resolve b p = p"
  by (metis normal_isAbsolute normal_path_def path_resolve_def)

text \<open>One path lies below another.\<close>

definition below :: "string \<Rightarrow> string \<Rightarrow> bool" where
  "below root p = (\<exists>rest. segs p = segs root @ rest)"

lemma below_refl [simp]: "below p p"
  by (simp add: below_def)

lemma below_trans: "below a b \<Longrightarrow> below b c \<Longrightarrow> below a c"
  by (auto simp: below_def)

lemma strip_common_spec:
  "strip_common xs ys = (up, down) \<Longrightarrow>
     \<exists>common. xs = common @ up \<and> ys = common @ down \<and>
       (up = [] \<or> down = [] \<or> hd up \<noteq> hd down)"
proof (induction xs ys rule: strip_common.induct)
  case (1 x xs y ys)
  show ?case
  proof (cases "x = y")
    case True
    with 1 obtain common where "xs = common @ up" "ys = common @ down"
      "up = [] \<or> down = [] \<or> hd up \<noteq> hd down" by auto
    with True show ?thesis by (intro exI [of _ "x # common"]) simp
  next
    case False
    with 1 show ?thesis by auto
  qed
qed auto

lemma strip_common_prefix: "strip_common xs (xs @ ys) = ([], ys)"
  by (induction xs) (cases ys; simp)+

lemma starts_with_join:
  "x \<noteq> [] \<Longrightarrow> starts_with (join_with sep (x # xs)) ''..'' \<Longrightarrow> slash \<notin> set x \<Longrightarrow> sep = [slash] \<Longrightarrow>
     starts_with x ''..''"
  by (cases xs; cases x; cases "tl x") (auto simp: slash_def)

lemma isPathInsideRoot_iff:
  "isPathInsideRoot cwd root p \<longleftrightarrow>
     (\<exists>rest. segs (path_resolve cwd p) = segs (path_resolve cwd root) @ rest \<and>
        (rest = [] \<or> \<not> starts_with (hd rest) ''..''))"
proof -
  let ?rs = "segs (path_resolve cwd root)" and ?cs = "segs (path_resolve cwd p)"
  obtain up down where sc: "strip_common ?rs ?cs = (up, down)" by fastforce
  then obtain common where c: "?rs = common @ up" "?cs = common @ down"
    "up = [] \<or> down = [] \<or> hd up \<noteq> hd down" using strip_common_spec by blast
  have good: "list_all good_seg down" using segs_good [of "path_resolve cwd p"] c(2) by simp
  define rel where "rel = join_with [slash] (replicate (length up) ''..'' @ down)"
  have inside: "isPathInsideRoot cwd root p \<longleftrightarrow> rel = [] \<or> (\<not> starts_with rel ''..'' \<and> \<not> isAbsolute rel)"
    by (simp add: isPathInsideRoot_def path_relative_def sc rel_def Let_def)
  show ?thesis
  proof (cases up)
    case (Cons u us)
    have "starts_with rel ''..''" "rel \<noteq> []"
      by (cases "replicate (length us) ''..'' @ down"; simp add: rel_def Cons)+
    moreover have "\<not> (\<exists>rest. ?cs = ?rs @ rest)"
      using sc strip_common_prefix [of ?rs] Cons by auto
    ultimately show ?thesis using inside by auto
  next
    case Nil
    show ?thesis
    proof (cases down)
      case Nil
      with \<open>up = []\<close> c show ?thesis by (simp add: inside rel_def)
    next
      case (Cons d ds)
      with good have d: "good_seg d" by simp
      then obtain x xs where dx: "d = x # xs" and "x \<noteq> slash" by (cases d) (auto simp: good_seg_def)
      have "\<exists>t. rel = d @ t" by (cases ds) (simp_all add: rel_def Cons \<open>up = []\<close>)
      then obtain t where t: "rel = d @ t" ..
      have "starts_with rel ''..'' \<longleftrightarrow> starts_with d ''..''"
      proof
        assume "starts_with rel ''..''"
        with d show "starts_with d ''..''"
          using starts_with_join [of d "[slash]" ds] by (simp add: rel_def Cons \<open>up = []\<close> good_seg_def)
      qed (auto simp: t starts_with_iff)
      moreover have "rel \<noteq> []" "\<not> isAbsolute rel" using \<open>x \<noteq> slash\<close> by (simp_all add: t dx isAbsolute_def)
      ultimately show ?thesis using c \<open>up = []\<close> Cons by (auto simp: inside)
    qed
  qed
qed

lemma isPathInsideRoot_below:
  "isPathInsideRoot cwd root p \<Longrightarrow> normal_path root \<Longrightarrow> normal_path p \<Longrightarrow> below root p"
  by (auto simp: isPathInsideRoot_iff path_resolve_normal below_def)

lemma isPathInsideRoot_trans:
  "isPathInsideRoot cwd a b \<Longrightarrow> isPathInsideRoot cwd b c \<Longrightarrow> isPathInsideRoot cwd a c"
  unfolding isPathInsideRoot_iff by (metis append.assoc append_Nil hd_append2)

section \<open>The boundary check\<close>

lemma ancestor_check_Inr:
  "ancestor_check fs cwd root c p anc = Inr q \<Longrightarrow> q = p \<and>
     ((\<exists>k. 0 < k \<and> k \<le> length anc \<and> fs_exists fs (render (take k anc)) \<and>
         isPathInsideRoot cwd root (fs_real fs (render (take k anc))) \<and>
         (\<forall>j. k < j \<longrightarrow> j \<le> length anc \<longrightarrow> \<not> fs_exists fs (render (take j anc)))) \<or>
      (\<forall>j. 0 < j \<longrightarrow> j \<le> length anc \<longrightarrow> \<not> fs_exists fs (render (take j anc))))"
proof (induction fs cwd root c p anc rule: ancestor_check.induct)
  case (1 fs cwd root c p anc)
  show ?case
  proof (cases "anc = [] \<or> fs_exists fs (render anc)")
    case True
    with 1(2) show ?thesis
      by (subst (asm) ancestor_check.simps) (auto split: if_splits intro!: exI [of _ "length anc"])
  next
    case False
    then have eq: "ancestor_check fs cwd root c p anc = ancestor_check fs cwd root c p (butlast anc)"
      by (subst ancestor_check.simps) simp
    have tk: "j \<le> length anc - 1 \<Longrightarrow> take j (butlast anc) = take j anc" for j
      by (cases anc rule: rev_cases) auto
    have last: "j \<le> length anc \<longleftrightarrow> j \<le> length anc - 1 \<or> j = length anc" for j
      using False by (cases anc) auto
    from 1 False eq have IH: "q = p \<and>
      ((\<exists>k. 0 < k \<and> k \<le> length anc - 1 \<and> fs_exists fs (render (take k (butlast anc))) \<and>
         isPathInsideRoot cwd root (fs_real fs (render (take k (butlast anc)))) \<and>
         (\<forall>j. k < j \<longrightarrow> j \<le> length anc - 1 \<longrightarrow> \<not> fs_exists fs (render (take j (butlast anc))))) \<or>
      (\<forall>j. 0 < j \<longrightarrow> j \<le> length anc - 1 \<longrightarrow> \<not> fs_exists fs (render (take j (butlast anc)))))"
      by auto
    with False tk last show ?thesis by (simp cong: conj_cong imp_cong) metis
  qed
qed

lemma ancestor_check_none:
  "(\<And>j. 0 < j \<Longrightarrow> j \<le> length anc \<Longrightarrow> \<not> fs_exists fs (render (take j anc))) \<Longrightarrow>
     ancestor_check fs cwd root c p anc = Inr p"
proof (induction anc rule: rev_induct)
  case Nil
  then show ?case by (simp add: ancestor_check.simps)
next
  case (snoc x xs)
  have ex: "\<not> fs_exists fs (render (take j xs))" if "0 < j" "j \<le> length xs" for j
    using snoc.prems [of j] that by simp
  moreover have "\<not> fs_exists fs (render (xs @ [x]))"
    using snoc.prems [of "Suc (length xs)"] by simp
  ultimately show ?case using snoc.IH [OF ex] by (subst ancestor_check.simps) simp
qed

section \<open>The resolver\<close>

lemma withinRoot_render:
  assumes "list_all good_seg rs" and "list_all good_seg cs"
  shows "withinRoot (render rs) (render cs) \<longleftrightarrow> (\<exists>rest. cs = rs @ rest)"
proof (cases "rs = []")
  case True
  then show ?thesis
    by (auto simp: withinRoot_def render_def ends_with_def)
next
  case False
  have last: "\<not> ends_with (render rs) [slash]"
  proof
    assume "ends_with (render rs) [slash]"
    then obtain t where t: "render rs = t @ slash # []" by (auto simp: ends_with_iff)
    then have "split_char slash (render rs) = split_char slash t @ [[]]"
      by (simp only: split_char_append_sep split_char.simps)
    then have "last ([] # rs) = []" using assms(1) False by (simp add: split_render)
    moreover have "good_seg (last rs)" using assms(1) False by (simp add: list_all_iff)
    ultimately show False using False by (simp add: good_seg_def)
  qed
  show ?thesis
  proof
    assume w: "withinRoot (render rs) (render cs)"
    show "\<exists>rest. cs = rs @ rest"
    proof (cases "render cs = render rs")
      case True
      then have "segs (render cs) = segs (render rs)" by simp
      with assms show ?thesis by simp
    next
      case False
      with w last obtain t where t: "render cs = render rs @ slash # t"
        by (auto simp: withinRoot_def Let_def starts_with_iff)
      then have sp: "split_char slash (render cs) = ([] # rs) @ split_char slash t"
        by (simp only: split_char_append_sep split_render [OF assms(1) \<open>rs \<noteq> []\<close>])
      have "cs \<noteq> []"
      proof
        assume "cs = []"
        then have "split_char slash (render cs) = [[], []]" by (simp add: render_def)
        with sp \<open>rs \<noteq> []\<close> have "rs = [[]]" by (cases rs; cases "split_char slash t") auto
        with assms(1) show False by (simp add: good_seg_def)
      qed
      with sp assms(2) show ?thesis by (simp add: split_render)
    qed
  next
    assume "\<exists>rest. cs = rs @ rest"
    then obtain rest where rest: "cs = rs @ rest" ..
    have join: "r \<noteq> [] \<Longrightarrow> join_with [slash] (xs @ x # r) =
        join_with [slash] (xs @ [x]) @ slash # join_with [slash] r" for xs x r
      by (induction xs rule: induct_list012) (cases r; simp)+
    show "withinRoot (render rs) (render cs)"
    proof (cases "rest = []")
      case True
      with rest show ?thesis by (simp add: withinRoot_def)
    next
      case ne: False
      from False obtain xs x where "rs = xs @ [x]" by (cases rs rule: rev_cases) auto
      with join [OF ne, of xs x] rest last show ?thesis
        by (auto simp: withinRoot_def Let_def render_def starts_with_iff)
    qed
  qed
qed

lemma withinRoot_below: "normal_path r \<Longrightarrow> normal_path p \<Longrightarrow> withinRoot r p \<longleftrightarrow> below r p"
  using withinRoot_render [of "segs r" "segs p"] by (simp add: normal_path_def [symmetric] below_def)
    (metis normal_path_def)

text \<open>\<open>realpath\<close> returns absolute paths without \<open>.\<close>, \<open>..\<close> or empty segments.\<close>

definition realpath_normal :: "realpath \<Rightarrow> bool" where
  "realpath_normal rp = (\<forall>p r. rp p = Inr r \<longrightarrow> normal_path r)"

lemma remap_normal: "normal_path c \<Longrightarrow> normal_path (remapCandidateToRealRoot c d r)"
  by (simp add: remapCandidateToRealRoot_def)

lemma candidate_normal:
  "\<not> isAbsolute p \<or> normal_path p \<Longrightarrow> normal_path (candidate_of d r p)"
  by (auto simp: candidate_of_def intro!: remap_normal)

lemma resolveCandidatePath_target:
  "resolveCandidatePath rp c = Inr (t, b) \<Longrightarrow> t = c \<or> rp c = Inr t"
  by (auto simp: resolveCandidatePath_def split: sum.splits fs_failure.splits)

lemma resolver_root:
  "createPathResolver rp root sps enf = Inr r \<Longrightarrow> rp root = Inr (pr_root r)"
  by (auto simp: createPathResolver_def Let_def split: if_splits sum.splits)

lemma resolver_resolve_Inr:
  assumes "resolver_resolve rp r q = Inr p"
  shows "\<exists>b. resolveCandidatePath rp (candidate_of (pr_declaredRoot r) (pr_root r) q) = Inr (p, b) \<and>
    withinRoot (pr_root r) p \<and> withinRoot (pr_root r) b \<and>
    (pr_enforce r \<longrightarrow> (\<exists>sp sb. (sp, sb) \<in> set (pr_scopes r) \<and> withinRoot sp p \<and> withinRoot sb b))"
  using assms
  by (auto simp: resolver_resolve_def list_ex_iff split: sum.splits if_splits; blast)

lemma resolveCandidatePath_cases:
  "resolveCandidatePath rp c = Inr (t, b) \<Longrightarrow>
     rp c = Inr t \<and> b = t \<or> rp c = Inl Enoent \<and> t = c \<and> realpathOrParent rp c = Inr b"
  by (auto simp: resolveCandidatePath_def split: sum.splits fs_failure.splits)

text \<open>The boundary of a missing path: the real location of its nearest ancestor that exists.\<close>

definition nearest_ancestor :: "realpath \<Rightarrow> string \<Rightarrow> string \<Rightarrow> bool" where
  "nearest_ancestor rp p b = (\<exists>k. (\<forall>j<k. rp ((dirnameStrict ^^ j) p) = Inl Enoent) \<and>
     (rp ((dirnameStrict ^^ k) p) = Inr b \<or>
      rp ((dirnameStrict ^^ k) p) = Inl Enoent \<and> b = (dirnameStrict ^^ k) p \<and> dirnameStrict b = b))"

lemma nearest_ancestor_here: "rp p = Inr b \<Longrightarrow> nearest_ancestor rp p b"
  unfolding nearest_ancestor_def by (rule exI [of _ 0]) simp

lemma nearest_ancestor_parent:
  assumes "rp p = Inl Enoent" and "nearest_ancestor rp (dirnameStrict p) b"
  shows "nearest_ancestor rp p b"
proof -
  from assms(2) obtain k where k: "\<forall>j<k. rp ((dirnameStrict ^^ Suc j) p) = Inl Enoent"
    "rp ((dirnameStrict ^^ Suc k) p) = Inr b \<or>
      rp ((dirnameStrict ^^ Suc k) p) = Inl Enoent \<and> b = (dirnameStrict ^^ Suc k) p \<and> dirnameStrict b = b"
    by (auto simp: nearest_ancestor_def funpow_swap1)
  have "rp ((dirnameStrict ^^ j) p) = Inl Enoent" if "j < Suc k" for j
    using assms(1) k(1) that by (cases j) auto
  with k(2) show ?thesis unfolding nearest_ancestor_def by blast
qed

lemma realpathOrParent_nearest: "realpathOrParent rp p = Inr b \<Longrightarrow> nearest_ancestor rp p b"
proof (induction rp p rule: realpathOrParent.induct)
  case (1 rp p)
  show ?case
  proof (cases "rp p")
    case (Inr r)
    with 1(2) have "b = r" by (subst (asm) realpathOrParent.simps) simp
    with Inr show ?thesis by (simp add: nearest_ancestor_here)
  next
    case (Inl e)
    with 1(2) have e: "e = Enoent"
      by (subst (asm) realpathOrParent.simps) (cases e; simp)
    show ?thesis
    proof (cases "dirnameStrict p = p")
      case True
      with 1(2) Inl e have "b = p" by (subst (asm) realpathOrParent.simps) simp
      with Inl e True show ?thesis
        unfolding nearest_ancestor_def by (intro exI [of _ 0]) simp
    next
      case False
      with 1(2) Inl e have "realpathOrParent rp (dirnameStrict p) = Inr b"
        by (subst (asm) realpathOrParent.simps) (simp add: Let_def)
      with 1(1) [OF Inl] Inl e False show ?thesis by (simp add: nearest_ancestor_parent)
    qed
  qed
qed

lemma target_normal:
  "resolveCandidatePath rp c = Inr (t, b) \<Longrightarrow> realpath_normal rp \<Longrightarrow> normal_path c \<Longrightarrow> normal_path t"
  using resolveCandidatePath_target [of rp c t b] by (auto simp: realpath_normal_def)

lemma resolve_scopes_normal:
  "resolve_scopes rp d r sps = Inr ss \<Longrightarrow> realpath_normal rp \<Longrightarrow>
     (\<forall>sp \<in> set sps. isAbsolute sp \<longrightarrow> normal_path sp) \<Longrightarrow>
     \<forall>(t, b) \<in> set ss. normal_path t \<and> withinRoot r t \<and> withinRoot r b"
proof (induction sps arbitrary: ss)
  case (Cons sp sps)
  have "normal_path (candidate_of d r sp)" using Cons.prems(3) by (auto intro: candidate_normal)
  with Cons show ?case
    by (auto split: sum.splits if_splits prod.splits dest: target_normal)
qed simp

lemma resolver_scopes_normal:
  assumes "createPathResolver rp root sps enf = Inr r" and "realpath_normal rp"
    and "\<forall>sp \<in> set sps. isAbsolute sp \<longrightarrow> normal_path sp"
  shows "\<forall>(t, b) \<in> set (pr_scopes r). normal_path t \<and> withinRoot (pr_root r) t \<and> withinRoot (pr_root r) b"
  using assms resolve_scopes_normal [of rp _ _ sps]
  by (auto simp: createPathResolver_def Let_def split: if_splits sum.splits; blast)

text \<open>The nearest existing ancestor of a missing path, other than the root directory.\<close>

definition nearest_existing :: "file_system \<Rightarrow> string list \<Rightarrow> nat \<Rightarrow> bool" where
  "nearest_existing fs ss k \<longleftrightarrow> 0 < k \<and> k < length ss \<and> fs_exists fs (render (take k ss)) \<and>
     (\<forall>j. k < j \<longrightarrow> j < length ss \<longrightarrow> \<not> fs_exists fs (render (take j ss)))"

definition no_ancestor :: "file_system \<Rightarrow> string list \<Rightarrow> bool" where
  "no_ancestor fs ss \<longleftrightarrow> (\<forall>j. 0 < j \<longrightarrow> j < length ss \<longrightarrow> \<not> fs_exists fs (render (take j ss)))"

lemma take_butlast_less: "j < length ss \<Longrightarrow> take j (butlast ss) = take j ss"
  by (cases ss rule: rev_cases) auto

lemma ancestor_check_nearest:
  assumes "ancestor_check fs cwd r c p (butlast ss) = Inr q"
  shows "q = p \<and> ((\<exists>k. nearest_existing fs ss k \<and>
      isPathInsideRoot cwd r (fs_real fs (render (take k ss)))) \<or> no_ancestor fs ss)"
proof -
  have len: "j \<le> length (butlast ss) \<longleftrightarrow> j < length ss" if "0 < j" for j using that by auto
  show ?thesis
    using ancestor_check_Inr [OF assms]
  proof (elim conjE disjE exE)
    fix k
    assume k: "0 < k" "k \<le> length (butlast ss)" "fs_exists fs (render (take k (butlast ss)))"
      "isPathInsideRoot cwd r (fs_real fs (render (take k (butlast ss))))"
      and none: "\<forall>j. k < j \<longrightarrow> j \<le> length (butlast ss) \<longrightarrow> \<not> fs_exists fs (render (take j (butlast ss)))"
      and "q = p"
    from k len have kl: "k < length ss" by blast
    have "\<not> fs_exists fs (render (take j ss))" if "k < j" "j < length ss" for j
      using none [rule_format, OF that(1)] that by (simp add: take_butlast_less)
    with k kl have "nearest_existing fs ss k \<and> isPathInsideRoot cwd r (fs_real fs (render (take k ss)))"
      by (simp add: nearest_existing_def take_butlast_less)
    with \<open>q = p\<close> show ?thesis by blast
  next
    assume none: "\<forall>j. 0 < j \<longrightarrow> j \<le> length (butlast ss) \<longrightarrow> \<not> fs_exists fs (render (take j (butlast ss)))"
      and "q = p"
    have "\<not> fs_exists fs (render (take j ss))" if "0 < j" "j < length ss" for j
      using none [rule_format, OF that(1)] that by (simp add: take_butlast_less)
    with \<open>q = p\<close> show ?thesis by (auto simp: no_ancestor_def)
  qed
qed

lemma no_ancestor_check:
  assumes "no_ancestor fs ss"
  shows "ancestor_check fs cwd r c p (butlast ss) = Inr p"
proof (rule ancestor_check_none)
  fix j assume "0 < j" "j \<le> length (butlast ss)"
  with assms show "\<not> fs_exists fs (render (take j (butlast ss)))"
    by (cases ss rule: rev_cases) (auto simp: no_ancestor_def)
qed

definition candidate_path :: "string \<Rightarrow> string \<Rightarrow> string \<Rightarrow> string" where
  "candidate_path cwd root p =
     (if isAbsolute p then path_resolve cwd p else path_resolve (path_resolve cwd root) p)"

lemma assertWorkspaceBoundary_exists:
  "fs_exists fs (path_resolve cwd root) \<Longrightarrow>
   assertWorkspaceBoundary fs cwd root p =
     (let real = fs_real fs (path_resolve cwd root); c = candidate_path cwd root p
      in if fs_exists fs c
         then if isPathInsideRoot cwd real (fs_real fs c) then Inr (fs_real fs c)
              else Inl (escape_message p real)
         else ancestor_check fs cwd real p c (butlast (segs c)))"
  by (simp add: assertWorkspaceBoundary_def candidate_path_def Let_def)

section \<open>Properties\<close>

text \<open>
  The string test of \<open>isPathInsideRoot\<close>: it accepts exactly the paths whose normal form
  extends the root's by segments of which the first does not begin with two dots. So it
  never accepts a path outside the root, and it rejects children such as \<open>..cache\<close>.
\<close>

theorem isPathInsideRoot_exact:
  "isPathInsideRoot cwd root p \<longleftrightarrow>
     (\<exists>rest. segs (path_resolve cwd p) = segs (path_resolve cwd root) @ rest \<and>
        \<not> (rest \<noteq> [] \<and> starts_with (hd rest) ''..''))"
  by (auto simp: isPathInsideRoot_iff)


definition sample_fs :: file_system where
  "sample_fs = \<lparr>fs_exists = (\<lambda>p. p = ''/'' \<or> p = ''/w'' \<or> p = ''/w/a''), fs_real = (\<lambda>p. ''/w'')\<rparr>"

lemma normal_w: "normal_path ''/w''"
  unfolding normal_path_def by code_simp


text \<open>
  The gap in the boundary check: with an existing workspace, a missing path none of whose
  ancestors below the file system's root exists is accepted and returned as it is, inside
  the workspace or not.
\<close>

theorem boundary_gap:
  assumes "fs_exists fs (path_resolve cwd root)"
    and "\<not> fs_exists fs (candidate_path cwd root p)"
    and "no_ancestor fs (segs (candidate_path cwd root p))"
  shows "assertWorkspaceBoundary fs cwd root p = Inr (candidate_path cwd root p)"
  using assms by (simp add: assertWorkspaceBoundary_exists Let_def no_ancestor_check)

theorem boundary_gap_witness:
  "assertWorkspaceBoundary sample_fs ''/'' ''/w'' ''/mnt/x'' = Inr ''/mnt/x'' \<and>
   \<not> isPathInsideRoot ''/'' ''/w'' ''/mnt/x''"
proof -
  have c: "candidate_path ''/'' ''/w'' ''/mnt/x'' = ''/mnt/x''" by code_simp
  have "segs ''/mnt/x'' = [''mnt'', ''x'']" by code_simp
  then have n: "no_ancestor sample_fs (segs ''/mnt/x'')"
    by (auto simp: no_ancestor_def sample_fs_def render_def slash_def less_Suc_eq numeral_eq_Suc)
  have "fs_exists sample_fs (path_resolve ''/'' ''/w'')" "\<not> fs_exists sample_fs ''/mnt/x''" by code_simp+
  with n boundary_gap [of sample_fs "''/''" "''/w''" "''/mnt/x''"]
  have "assertWorkspaceBoundary sample_fs ''/'' ''/w'' ''/mnt/x'' = Inr ''/mnt/x''" by (simp add: c)
  moreover have "\<not> isPathInsideRoot ''/'' ''/w'' ''/mnt/x''" by code_simp
  ultimately show ?thesis ..
qed


definition sample_realpath :: realpath where
  "sample_realpath p = (if p = ''/w'' \<or> p = ''/w/src'' then Inr p else Inl Enoent)"


text \<open>
  An absolute request that is not in normal form passes the resolver's prefix tests on its
  text although its normal form is outside the root.
\<close>

lemma resolver_accepts_dotdot:
  "createPathResolver sample_realpath ''/w'' [] (Some False) =
     Inr \<lparr>pr_declaredRoot = ''/w'', pr_root = ''/w'', pr_scopes = [], pr_enforce = False\<rparr> \<and>
   resolver_resolve sample_realpath
     \<lparr>pr_declaredRoot = ''/w'', pr_root = ''/w'', pr_scopes = [], pr_enforce = False\<rparr>
     ''/w/x/../../etc/f'' = Inr ''/w/x/../../etc/f'' \<and>
   path_resolve ''/'' ''/w/x/../../etc/f'' = ''/etc/f''"
  by code_simp

end
