(* ===== verification/ToolRegistry.thy ===== *)
theory ToolRegistry
  imports Prelude
begin

text \<open>
  The tool registry (\<open>packages/shared/src/tool-registry.ts\<close>): the table of every tool, the
  lists derived from it, and the normalisation of tool ids that persisted role
  configurations mention.
\<close>

section \<open>The registry\<close>

datatype tool_status = Tool_Active | Tool_Deprecated | Tool_Removed

record tool_entry =
  te_id :: string
  te_status :: tool_status
  te_alias :: "string option"
  te_alwaysAvailable :: bool
  te_supervisorAllowed :: bool
  te_explorerDelegate :: bool
  te_workerBlocked :: bool

definition tool ::
  "string \<Rightarrow> tool_status \<Rightarrow> string option \<Rightarrow> bool \<Rightarrow> bool \<Rightarrow> bool \<Rightarrow> bool \<Rightarrow> tool_entry" where
  "tool i st al av su ex wb = \<lparr>te_id = i, te_status = st, te_alias = al,
     te_alwaysAvailable = av, te_supervisorAllowed = su, te_explorerDelegate = ex,
     te_workerBlocked = wb\<rparr>"

text \<open>
  Columns: id, status, alias, always available, supervisor allowed, explorer delegate,
  worker blocked. Every key of the table is the id of its entry.
\<close>

definition TOOL_REGISTRY :: "tool_entry list" where
  "TOOL_REGISTRY =
     [tool ''procedure'' Tool_Active None True True True False,
      tool ''self.procedure.add'' Tool_Deprecated (Some ''procedure'') False False False False,
      tool ''self.procedure.remove'' Tool_Deprecated (Some ''procedure'') False False False False,
      tool ''self.procedure.list'' Tool_Deprecated (Some ''procedure'') False False False False,
      tool ''self.procedure.view'' Tool_Deprecated (Some ''procedure'') False False False False,
      tool ''procedure.list'' Tool_Deprecated (Some ''procedure'') False False False False,
      tool ''procedure.view'' Tool_Deprecated (Some ''procedure'') False False False False,
      tool ''channel.close'' Tool_Active None True True False True,
      tool ''channel.pass'' Tool_Removed None False False False False,
      tool ''channel.ack'' Tool_Removed None False False False False,
      tool ''channel.reply'' Tool_Active None True True False True,
      tool ''channel.post'' Tool_Removed None False False False False,
      tool ''channel.dm'' Tool_Removed None False False False False,
      tool ''channel.recall'' Tool_Active None True False True False,
      tool ''channel.read'' Tool_Active None True True True False,
      tool ''channel.list'' Tool_Active None True True True False,
      tool ''channel.handoff'' Tool_Removed None False False False False,
      tool ''channel.set_member_mode'' Tool_Active None True False False False,
      tool ''view'' Tool_Active None True True True False,
      tool ''ls'' Tool_Active None True True True False,
      tool ''glob'' Tool_Active None True True True False,
      tool ''grep'' Tool_Active None True False True False,
      tool ''write'' Tool_Active None True False False False,
      tool ''edit'' Tool_Active None True False False False,
      tool ''multiedit'' Tool_Active None True False False False,
      tool ''shell'' Tool_Active None True False False False,
      tool ''download'' Tool_Active None True False False False,
      tool ''fetch'' Tool_Active None True True True False,
      tool ''web_search'' Tool_Active None True True True False,
      tool ''goal.mode'' Tool_Active None True True False False,
      tool ''goal.start'' Tool_Active None True True False False,
      tool ''goal.task.update'' Tool_Active None True True False False,
      tool ''question.ask'' Tool_Active None True True False False,
      tool ''memory.write'' Tool_Active None True True False False,
      tool ''memory.recall'' Tool_Active None True True True False,
      tool ''memory.forget'' Tool_Active None True False False False,
      tool ''memory.save'' Tool_Deprecated (Some ''memory.write'') False False False False,
      tool ''schedule'' Tool_Active None True False False False,
      tool ''agent.delegate'' Tool_Active None True False False True,
      tool ''agent.manage'' Tool_Active None True False False False,
      tool ''skill.read'' Tool_Active None True False False False,
      tool ''workflow.run'' Tool_Active None True False False False,
      tool ''workflow.list'' Tool_Active None True False False False,
      tool ''workflow.view'' Tool_Active None True False False False,
      tool ''workflow.advance'' Tool_Active None True False False False,
      tool ''workflow.transition'' Tool_Active None True False False False,
      tool ''mcp'' Tool_Active None True False False False,
      tool ''message'' Tool_Removed None False False False False,
      tool ''self.note'' Tool_Removed None False False False False,
      tool ''filesystem'' Tool_Removed None False False False False,
      tool ''job_output'' Tool_Removed None False False False False,
      tool ''job_kill'' Tool_Removed None False False False False]"

section \<open>Derived lists\<close>

definition DEPRECATED_TOOL_ALIASES :: "(string \<times> string) list" where
  "DEPRECATED_TOOL_ALIASES =
     concat (map (\<lambda>e. case te_alias e of
                        Some a \<Rightarrow> if te_status e = Tool_Deprecated \<and> a \<noteq> [] then [(te_id e, a)] else []
                      | None \<Rightarrow> []) TOOL_REGISTRY)"

definition REMOVED_TOOL_IDS :: "string list" where
  "REMOVED_TOOL_IDS = map te_id (filter (\<lambda>e. te_status e = Tool_Removed) TOOL_REGISTRY)"

definition ALWAYS_AVAILABLE_AGENT_TOOLS :: "string list" where
  "ALWAYS_AVAILABLE_AGENT_TOOLS = map te_id (filter te_alwaysAvailable TOOL_REGISTRY)"

definition SUPERVISOR_TOOL_ALLOWLIST :: "string list" where
  "SUPERVISOR_TOOL_ALLOWLIST = map te_id (filter te_supervisorAllowed TOOL_REGISTRY)"

definition EXPLORER_DELEGATE_TOOL_IDS :: "string list" where
  "EXPLORER_DELEGATE_TOOL_IDS = map te_id (filter te_explorerDelegate TOOL_REGISTRY)"

definition WORKER_BLOCKED_TOOL_IDS :: "string list" where
  "WORKER_BLOCKED_TOOL_IDS = map te_id (filter te_workerBlocked TOOL_REGISTRY)"

definition normalize_tool_id :: "string \<Rightarrow> string option" where
  "normalize_tool_id toolId =
     (if toolId \<in> set REMOVED_TOOL_IDS then None
      else Some (coalesce (map_of DEPRECATED_TOOL_ALIASES toolId) toolId))"

definition filterDeprecatedToolIds :: "string list \<Rightarrow> string list" where
  "filterDeprecatedToolIds toolIds = uniq (List.map_filter normalize_tool_id toolIds)"

definition listEffectiveAgentToolIds :: "string list \<Rightarrow> string list" where
  "listEffectiveAgentToolIds roleTools =
     filterDeprecatedToolIds (ALWAYS_AVAILABLE_AGENT_TOOLS @ roleTools)"

definition listCustomRoleToolIds :: "string list \<Rightarrow> string list" where
  "listCustomRoleToolIds roleTools =
     filter (\<lambda>t. t \<notin> set ALWAYS_AVAILABLE_AGENT_TOOLS) (filterDeprecatedToolIds roleTools)"

section \<open>Laws\<close>

lemma registry_distinct: "distinct (map te_id TOOL_REGISTRY)"
  by code_simp

lemma aliases_active:
  "list_all (\<lambda>(i, a). a \<notin> set REMOVED_TOOL_IDS \<and> map_of DEPRECATED_TOOL_ALIASES a = None)
     DEPRECATED_TOOL_ALIASES"
  by code_simp

lemma always_available_stable:
  "list_all (\<lambda>t. t \<notin> set REMOVED_TOOL_IDS \<and> map_of DEPRECATED_TOOL_ALIASES t = None)
     ALWAYS_AVAILABLE_AGENT_TOOLS"
  by code_simp

text \<open>An id that normalisation leaves as it is.\<close>

definition current_tool_id :: "string \<Rightarrow> bool" where
  "current_tool_id t = (t \<notin> set REMOVED_TOOL_IDS \<and> map_of DEPRECATED_TOOL_ALIASES t = None)"

lemma normalize_current: "current_tool_id t \<Longrightarrow> normalize_tool_id t = Some t"
  by (simp add: current_tool_id_def normalize_tool_id_def)

lemma normalize_is_current: "normalize_tool_id t = Some u \<Longrightarrow> current_tool_id u"
proof (cases "map_of DEPRECATED_TOOL_ALIASES t")
  case None
  assume "normalize_tool_id t = Some u"
  with None show ?thesis by (auto simp: normalize_tool_id_def current_tool_id_def split: if_splits)
next
  case (Some a)
  assume "normalize_tool_id t = Some u"
  with Some have "u = a" by (simp add: normalize_tool_id_def split: if_splits)
  moreover have "(t, a) \<in> set DEPRECATED_TOOL_ALIASES" using Some by (rule map_of_SomeD)
  ultimately show ?thesis using aliases_active by (auto simp: list_all_iff current_tool_id_def)
qed

lemma set_filterDeprecated:
  "set (filterDeprecatedToolIds ts) = {u. \<exists>t \<in> set ts. normalize_tool_id t = Some u}"
  by (auto simp: filterDeprecatedToolIds_def List.map_filter_def image_iff) force+

lemma filterDeprecated_current:
  "list_all current_tool_id ts \<Longrightarrow> filterDeprecatedToolIds ts = uniq ts"
proof -
  assume "list_all current_tool_id ts"
  then have "List.map_filter normalize_tool_id ts = ts"
    by (induction ts) (simp_all add: normalize_current)
  then show ?thesis by (simp add: filterDeprecatedToolIds_def)
qed

lemma filterDeprecated_all_current: "list_all current_tool_id (filterDeprecatedToolIds ts)"
  by (auto simp: list_all_iff set_filterDeprecated normalize_is_current)

lemma set_listEffective:
  "set (listEffectiveAgentToolIds ts) =
     set ALWAYS_AVAILABLE_AGENT_TOOLS \<union> {u. \<exists>t \<in> set ts. normalize_tool_id t = Some u}"
proof -
  have "normalize_tool_id t = Some t" if "t \<in> set ALWAYS_AVAILABLE_AGENT_TOOLS" for t
    using always_available_stable that
    by (auto simp: list_all_iff intro: normalize_current [unfolded current_tool_id_def])
  then show ?thesis by (force simp: listEffectiveAgentToolIds_def set_filterDeprecated)
qed

section \<open>Properties\<close>

text \<open>
  Stored tool lists migrate once and for all: the filter leaves no removed or renamed id
  and no duplicate, and filtering again changes nothing.
\<close>

theorem tool_migration_stable:
  "list_all current_tool_id (filterDeprecatedToolIds ts) \<and>
   distinct (filterDeprecatedToolIds ts) \<and>
   filterDeprecatedToolIds (filterDeprecatedToolIds ts) = filterDeprecatedToolIds ts"
proof -
  have "distinct (filterDeprecatedToolIds ts)" by (simp add: filterDeprecatedToolIds_def)
  with filterDeprecated_all_current [of ts] show ?thesis
    by (simp add: filterDeprecated_current uniq_id)
qed

text \<open>
  The tools an agent ends up with are the ones every agent has and the current names of
  its role's tools, each once; the custom list of a role is what remains of them beside the
  ones every agent has.
\<close>

theorem effective_tools:
  "set (listEffectiveAgentToolIds ts) =
     set ALWAYS_AVAILABLE_AGENT_TOOLS \<union> {u. \<exists>t \<in> set ts. normalize_tool_id t = Some u} \<and>
   distinct (listEffectiveAgentToolIds ts) \<and>
   set (listEffectiveAgentToolIds ts) =
     set ALWAYS_AVAILABLE_AGENT_TOOLS \<union> set (listCustomRoleToolIds ts)"
  unfolding set_listEffective
  by (auto simp: listEffectiveAgentToolIds_def listCustomRoleToolIds_def set_filterDeprecated)
    (auto simp: filterDeprecatedToolIds_def)

end
