(* ===== verification/Conversations.thy ===== *)
theory Conversations
  imports Prelude
begin

text \<open>
  Thread ids and rosters (\<open>packages/shared/src/conversations.ts\<close> and
  \<open>agent-only-thread.ts\<close>): the id of a direct message thread, its parser, the peer of a
  member, and when a thread has only agents.
\<close>

section \<open>Thread ids\<close>

definition orgWorkspaceId :: "string \<Rightarrow> string" where
  "orgWorkspaceId organizationId = ''ws_'' @ organizationId"

definition organizationIdFromWorkspaceId :: "string \<Rightarrow> string option" where
  "organizationIdFromWorkspaceId workspaceId =
     (if \<not> starts_with workspaceId ''ws_'' \<or> length workspaceId \<le> 3 then None
      else Some (drop 3 workspaceId))"

definition colon :: char where "colon = CHR 0x3A"

definition getDirectMessageThreadId :: "string \<Rightarrow> string \<Rightarrow> string" where
  "getDirectMessageThreadId senderId recipientId =
     (case sort_cmp str_cmp [senderId, recipientId] of
        [firstId, secondId] \<Rightarrow> ''dm:'' @ firstId @ [colon] @ secondId
      | _ \<Rightarrow> [])"

definition isDirectMessageThread :: "string option \<Rightarrow> bool" where
  "isDirectMessageThread threadId =
     (case threadId of None \<Rightarrow> False | Some t \<Rightarrow> starts_with t ''dm:'')"

definition isPrivateTaskThread :: "string option \<Rightarrow> bool" where
  "isPrivateTaskThread threadId =
     (case threadId of None \<Rightarrow> False | Some t \<Rightarrow> starts_with t ''task:'' \<and> ends_with t '':p'')"

definition isOneToOneThread :: "string option \<Rightarrow> bool" where
  "isOneToOneThread threadId = (isDirectMessageThread threadId \<or> isPrivateTaskThread threadId)"

text \<open>\<open>split(':', 3)\<close> keeps the first three parts.\<close>

definition parseDmThreadId :: "string \<Rightarrow> (string \<times> string) option" where
  "parseDmThreadId threadId =
     (if \<not> isDirectMessageThread (Some threadId) then None
      else case take 3 (split_char colon threadId) of
             [_, firstId, secondId] \<Rightarrow>
               if firstId = [] \<or> secondId = [] then None else Some (firstId, secondId)
           | _ \<Rightarrow> None)"

definition resolveDmPeerMemberId :: "string \<Rightarrow> string \<Rightarrow> string option" where
  "resolveDmPeerMemberId threadId currentMemberId =
     (case parseDmThreadId threadId of
        None \<Rightarrow> None
      | Some (a, b) \<Rightarrow>
          if a = currentMemberId then Some b
          else if b = currentMemberId then Some a else None)"

definition resolveChannelMemberIds :: "string list \<Rightarrow> string set \<Rightarrow> string list" where
  "resolveChannelMemberIds memberIds activeMemberIds =
     sort_cmp str_cmp (filter (\<lambda>m. m \<in> activeMemberIds) (uniq memberIds))"

text \<open>The match of \<open>/^dm:([^:]+)$/i\<close>: its only group.\<close>

definition single_participant :: "string \<Rightarrow> string option" where
  "single_participant s =
     (if to_lower (take 3 s) = ''dm:'' \<and> drop 3 s \<noteq> [] \<and> colon \<notin> set (drop 3 s)
      then Some (drop 3 s) else None)"

definition normalizeDmChannelRef :: "string \<Rightarrow> string \<Rightarrow> string" where
  "normalizeDmChannelRef channelRef currentMemberId =
     (let trimmed = trim channelRef
      in case parseDmThreadId trimmed of
           Some _ \<Rightarrow> trimmed
         | None \<Rightarrow>
             (case single_participant trimmed of
                Some p \<Rightarrow> getDirectMessageThreadId currentMemberId p
              | None \<Rightarrow> trimmed))"

section \<open>Agent-only threads\<close>

datatype member_kind = Human | Agent

record roster_member =
  rm_id :: string
  rm_kind :: member_kind

record roster_channel =
  rc_id :: string
  rc_memberIds :: "string list"

definition find_member :: "roster_member list \<Rightarrow> string \<Rightarrow> roster_member option" where
  "find_member members i = find (\<lambda>m. rm_id m = i) members"

definition isAgentOnlyThread ::
  "string \<Rightarrow> roster_member list \<Rightarrow> roster_channel list option \<Rightarrow> bool" where
  "isAgentOnlyThread threadId members channels =
     (case parseDmThreadId threadId of
        Some (a, b) \<Rightarrow>
          length (filter (\<lambda>m. case m of None \<Rightarrow> False | Some x \<Rightarrow> rm_kind x = Agent)
            (map (find_member members) [a, b])) = 2
      | None \<Rightarrow>
          (case find (\<lambda>c. rc_id c = threadId) (coalesce channels []) of
             None \<Rightarrow> False
           | Some channel \<Rightarrow>
               if length (rc_memberIds channel) = 0 then False
               else (let roster = List.map_filter (find_member members) (rc_memberIds channel)
                     in length roster = length (rc_memberIds channel) \<and>
                        list_all (\<lambda>m. rm_kind m = Agent) roster)))"

section \<open>Laws\<close>

lemma organizationId_roundtrip: "i \<noteq> [] \<Longrightarrow> organizationIdFromWorkspaceId (orgWorkspaceId i) = Some i"
  by (cases i) (simp_all add: organizationIdFromWorkspaceId_def orgWorkspaceId_def)

lemma split_char_none: "c \<notin> set y \<Longrightarrow> split_char c y = [y]"
  by (induction y) auto

lemma split_char_sep: "c \<notin> set u \<Longrightarrow> split_char c (u @ c # t) = u # split_char c t"
  by (induction u) auto

lemma parse_dm_pair:
  assumes "colon \<notin> set a" "colon \<notin> set b" "a \<noteq> []" "b \<noteq> []"
  shows "parseDmThreadId (''dm:'' @ a @ [colon] @ b) = Some (a, b)"
proof -
  have "split_char colon (''dm'' @ colon # (a @ colon # b)) = ''dm'' # a # [b]"
    using assms by (simp add: split_char_sep split_char_none colon_def del: append.simps)
  then have "split_char colon (''dm:'' @ a @ [colon] @ b) = [''dm'', a, b]" by (simp add: colon_def)
  with assms show ?thesis
    by (simp add: parseDmThreadId_def isDirectMessageThread_def numeral_eq_Suc)
qed

lemma dm_thread_sorted:
  "getDirectMessageThreadId a b =
     (if str_cmp a b \<le> 0 then ''dm:'' @ a @ [colon] @ b else ''dm:'' @ b @ [colon] @ a)"
  by (simp add: getDirectMessageThreadId_def)

lemma dm_thread_commute: "getDirectMessageThreadId a b = getDirectMessageThreadId b a"
  using str_cmp_swap [of a b] by (auto simp: dm_thread_sorted)

lemma dm_roundtrip:
  assumes "colon \<notin> set a" "colon \<notin> set b" "a \<noteq> []" "b \<noteq> []"
  shows "parseDmThreadId (getDirectMessageThreadId a b) = Some (a, b) \<or>
    parseDmThreadId (getDirectMessageThreadId a b) = Some (b, a)"
  using assms parse_dm_pair [of a b] parse_dm_pair [of b a] by (simp add: dm_thread_sorted)

lemma dm_peer:
  assumes "colon \<notin> set a" "colon \<notin> set b" "a \<noteq> []" "b \<noteq> []"
  shows "resolveDmPeerMemberId (getDirectMessageThreadId a b) a = Some b"
  using dm_roundtrip [OF assms] by (auto simp: resolveDmPeerMemberId_def)

lemma resolveChannelMemberIds_spec:
  "set (resolveChannelMemberIds ms active) = set ms \<inter> active"
  by (auto simp: resolveChannelMemberIds_def)

lemma dm_peer_other:
  assumes "colon \<notin> set a" "colon \<notin> set b" "a \<noteq> []" "b \<noteq> []"
  shows "resolveDmPeerMemberId (getDirectMessageThreadId a b) b = Some a"
  using dm_peer [of b a] assms by (simp add: dm_thread_commute [of a b])

lemma dm_stranger:
  assumes "colon \<notin> set a" "colon \<notin> set b" "a \<noteq> []" "b \<noteq> []" and "c \<noteq> a" "c \<noteq> b"
  shows "resolveDmPeerMemberId (getDirectMessageThreadId a b) c = None"
  using dm_roundtrip [OF assms(1-4)] assms(5,6) by (auto simp: resolveDmPeerMemberId_def)

lemma length_two_filter: "length (filter P [x, y]) = 2 \<longleftrightarrow> P x \<and> P y"
  by auto

section \<open>Properties\<close>

text \<open>
  Direct message threads address their two members: for ids without a colon the thread id
  does not depend on who opens it, each member's peer is the other, and nobody else has one.
\<close>

theorem dm_addressing:
  assumes "colon \<notin> set a" "colon \<notin> set b" "a \<noteq> []" "b \<noteq> []"
  shows "getDirectMessageThreadId a b = getDirectMessageThreadId b a \<and>
    resolveDmPeerMemberId (getDirectMessageThreadId a b) a = Some b \<and>
    resolveDmPeerMemberId (getDirectMessageThreadId a b) b = Some a \<and>
    (\<forall>c. c \<noteq> a \<longrightarrow> c \<noteq> b \<longrightarrow> resolveDmPeerMemberId (getDirectMessageThreadId a b) c = None)"
  using dm_peer [OF assms] dm_peer_other [OF assms] dm_stranger [OF assms] dm_thread_commute [of a b]
  by blast

theorem dm_addressing_witness:
  "resolveDmPeerMemberId (getDirectMessageThreadId ''mem_1'' ''mem_2'') ''mem_2'' = Some ''mem_1''"
proof -
  have "colon \<notin> set ''mem_1''" "colon \<notin> set ''mem_2''" by (simp_all add: colon_def)
  from dm_addressing [OF this] show ?thesis by blast
qed

text \<open>
  A member id with a colon is cut at it by the parser, so its peer resolves to another id.
\<close>

lemma dm_colon_truncated:
  "resolveDmPeerMemberId (getDirectMessageThreadId ''bob'' ''svc:1'') ''bob'' = Some ''svc''"
  by code_simp

text \<open>
  A thread counts as agent-only only if every participant is a known agent: both members
  of a direct message, or all members, at least one, of a channel; one human or unknown
  member is enough to deny it.
\<close>

theorem agent_only_thread_members:
  assumes "isAgentOnlyThread threadId members channels"
  shows "\<exists>ids. ids \<noteq> [] \<and>
    (case parseDmThreadId threadId of
       Some (a, b) \<Rightarrow> ids = [a, b]
     | None \<Rightarrow> (\<exists>ch \<in> set (coalesce channels []). rc_id ch = threadId \<and> rc_memberIds ch = ids)) \<and>
    (\<forall>i \<in> set ids. \<exists>m \<in> set members. rm_id m = i \<and> rm_kind m = Agent)"
proof -
  have agent: "\<exists>m \<in> set members. rm_id m = i \<and> rm_kind m = Agent"
    if "find_member members i = Some m" "rm_kind m = Agent" for i m
    using that by (auto simp: find_member_def find_Some_iff)
  show ?thesis
  proof (cases "parseDmThreadId threadId")
    case (Some p)
    obtain a b where p: "p = (a, b)" by fastforce
    with assms Some agent show ?thesis
      by (auto simp: isAgentOnlyThread_def split: option.splits if_splits intro!: exI [of _ "[a, b]"])
  next
    case None
    with assms obtain ch where ch: "find (\<lambda>c. rc_id c = threadId) (coalesce channels []) = Some ch"
      and ne: "rc_memberIds ch \<noteq> []"
      and len: "length (List.map_filter (find_member members) (rc_memberIds ch)) = length (rc_memberIds ch)"
      and all: "list_all (\<lambda>m. rm_kind m = Agent) (List.map_filter (find_member members) (rc_memberIds ch))"
      by (auto simp: isAgentOnlyThread_def Let_def split: option.splits if_splits)
    have "\<exists>m. find_member members i = Some m \<and> rm_kind m = Agent" if i: "i \<in> set (rc_memberIds ch)" for i
    proof -
      obtain m where m: "find_member members i = Some m" using map_filter_total [OF len i] by blast
      with i have "m \<in> set (List.map_filter (find_member members) (rc_memberIds ch))"
        by (force simp: List.map_filter_def)
      with all m show ?thesis by (auto simp: list_all_iff)
    qed
    moreover from ch have "ch \<in> set (coalesce channels [])" "rc_id ch = threadId"
      by (auto simp: find_Some_iff)
    ultimately show ?thesis using None ne agent by (intro exI [of _ "rc_memberIds ch"]) auto
  qed
qed

theorem agent_only_thread_members_witness:
  "\<exists>m \<in> set [\<lparr>rm_id = ''a1'', rm_kind = Agent\<rparr>]. rm_id m = ''a1'' \<and> rm_kind m = Agent"
proof -
  have 1: "isAgentOnlyThread ''ops'' [\<lparr>rm_id = ''a1'', rm_kind = Agent\<rparr>]
      (Some [\<lparr>rc_id = ''ops'', rc_memberIds = [''a1'']\<rparr>])" by code_simp
  have "parseDmThreadId ''ops'' = None" by code_simp
  with agent_only_thread_members [OF 1] show ?thesis by auto
qed

end
