(* ===== verification/ToolPolicy.thy ===== *)
theory ToolPolicy
  imports Paths JsValues ToolRegistry Conversations
begin

text \<open>
  The run-time tool gate of the orchestrator: shell approval modes
  (\<open>packages/shared/src/shell-approval.ts\<close>), secrets in the workspace
  (\<open>workspace-file-filters.ts\<close>), path-scoped tools, the reply contract of a wake
  (\<open>packages/orchestrator/src/utils/wake-reply-policy.ts\<close>) and \<open>checkToolPolicy\<close>
  (\<open>services/policy.ts\<close>). The texts of the reasons are constructors that carry their
  parameters, and the scaffold prose of a wake is named by its kind.
\<close>

section \<open>Shell approval modes\<close>

datatype shell_mode = Always_Review | Auto_Review | Allow_All

datatype member_shell_mode = Mode_Inherit | Mode shell_mode

definition shellApprovalModeFromLegacyRequireShell :: "bool option \<Rightarrow> shell_mode" where
  "shellApprovalModeFromLegacyRequireShell requireApprovalForShell =
     (if requireApprovalForShell = Some False then Allow_All else Always_Review)"

definition normalizeOrgShellApprovalMode :: "shell_mode option \<Rightarrow> bool option \<Rightarrow> shell_mode" where
  "normalizeOrgShellApprovalMode shellApprovalMode requireApprovalForShell =
     (case shellApprovalMode of
        Some m \<Rightarrow> m
      | None \<Rightarrow> shellApprovalModeFromLegacyRequireShell requireApprovalForShell)"

definition resolveEffectiveShellApprovalMode ::
  "shell_mode \<Rightarrow> member_shell_mode option \<Rightarrow> bool \<Rightarrow> shell_mode" where
  "resolveEffectiveShellApprovalMode orgMode memberMode goalModeActive =
     (if goalModeActive then Auto_Review
      else case memberMode of
             Some (Mode m) \<Rightarrow> m
           | _ \<Rightarrow> orgMode)"

section \<open>Sensitive paths\<close>

definition SENSITIVE_NAMES :: "string list" where
  "SENSITIVE_NAMES =
     [''.git-credentials'', ''.netrc'', ''.npmrc'', ''credentials.json'', ''service-account.json'',
      ''service-account-key.json'', ''secrets.yaml'', ''secrets.yml'', ''firebase-adminsdk.json'',
      ''gha-creds.json'', ''token.json'', ''id_rsa'', ''id_dsa'', ''id_ecdsa'', ''id_ed25519'',
      ''authorized_keys'', ''known_hosts'']"

definition SENSITIVE_DIRS :: "string list" where
  "SENSITIVE_DIRS =
     [''.aws'', ''.git'', ''.ssh'', ''.gcloud'', ''.azure'', ''.docker'', ''.kube'', ''.codex'',
      ''secrets'']"

definition WORKSPACE_TREE_SKIP_DIRECTORY_NAMES :: "string list" where
  "WORKSPACE_TREE_SKIP_DIRECTORY_NAMES =
     [''.git'', ''.next'', ''.turbo'', ''build'', ''coverage'', ''dist'', ''node_modules'']"

definition shouldSkipWorkspaceTreeDirectory :: "string \<Rightarrow> bool" where
  "shouldSkipWorkspaceTreeDirectory name = (name \<in> set WORKSPACE_TREE_SKIP_DIRECTORY_NAMES)"

definition SENSITIVE_SUFFIXES :: "string list" where
  "SENSITIVE_SUFFIXES =
     [''.cer'', ''.crt'', ''.der'', ''.env'', ''.key'', ''.p12'', ''.pem'', ''.pfx'', ''.tfvars'',
      ''.tfvars.json'', ''.kubeconfig'', ''.pgpass'', ''.htpasswd'', ''.keystore'', ''.jks'',
      ''.gpg'', ''.asc'']"

text \<open>The class \<open>[._-]\<close>, and its alternative with the end of the name.\<close>

definition sep_cls :: rx where
  "sep_cls = Cls (\<lambda>c. c = CHR ''.'' \<or> c = CHR ''_'' \<or> c = CHR ''-'')"

definition SENSITIVE_PATTERNS :: "rx list" where
  "SENSITIVE_PATTERNS =
     [seqs [Begin, lit_ci ''id_'', alts [lit_ci ''rsa'', lit_ci ''dsa'', lit_ci ''ecdsa'',
        lit_ci ''ed25519''], Alt sep_cls End],
      seqs [Begin, Alt (lit ''.'') Eps, lit_ci ''npmrc'', Alt sep_cls End],
      seqs [Begin, Alt (lit ''.'') Eps, lit_ci ''netrc'', Alt sep_cls End],
      seqs [Alt Begin sep_cls, lit_ci ''private'', sep_cls, lit_ci ''key'', Alt (lit ''.'') End]]"

definition path_parts :: "string \<Rightarrow> string list" where
  "path_parts p =
     filter (\<lambda>s. s \<noteq> [])
       (split_char slash (map (\<lambda>c. if c = CHR 0x5C then slash else c) p))"

definition isSensitiveWorkspacePath :: "string \<Rightarrow> bool" where
  "isSensitiveWorkspacePath filePath =
     (let parts = path_parts filePath;
          name = (if parts = [] then [] else last parts)
      in if name = [] then False
         else if starts_with name ''.env'' then True
         else if name \<in> set SENSITIVE_NAMES then True
         else if to_lower name \<in> set SENSITIVE_NAMES then True
         else if list_ex (\<lambda>s. ends_with (to_lower name) s) SENSITIVE_SUFFIXES then True
         else if list_ex (\<lambda>part. part \<in> set SENSITIVE_DIRS) parts then True
         else list_ex (\<lambda>r. rx_test r name) SENSITIVE_PATTERNS)"

section \<open>Path-scoped tools\<close>

datatype tool_action = Act_Read | Act_Write | Act_Execute | Act_Mcp | Act_Message | Act_Create
  | Act_Update

definition PATH_SCOPED_TOOL_IDS :: "string list" where
  "PATH_SCOPED_TOOL_IDS =
     [''filesystem'', ''view'', ''write'', ''edit'', ''multiedit'', ''ls'', ''glob'', ''download'']"

definition isPathScopedToolId :: "string \<Rightarrow> bool" where
  "isPathScopedToolId toolId = (toolId \<in> set PATH_SCOPED_TOOL_IDS)"

definition usesPathResolution :: "string \<Rightarrow> bool" where
  "usesPathResolution toolId = (toolId \<in> set (PATH_SCOPED_TOOL_IDS @ [''shell'']))"

definition isInScopeFileTool :: "string \<Rightarrow> tool_action \<Rightarrow> bool" where
  "isInScopeFileTool toolId action =
     (isPathScopedToolId toolId \<or> (action = Act_Read \<and> toolId = ''grep''))"

section \<open>The reply contract of a wake\<close>

datatype wake_reason = Wk_Mention | Wk_Dm | Wk_Channel_Read | Wk_Handoff | Wk_Parent_Thread
  | Wk_Delegate_Complete | Wk_Heartbeat

datatype conversation_kind = Kind_Dm | Kind_Channel

datatype scaffold_kind = Scaffold_Dm | Scaffold_Agent_Dm | Scaffold_Channel | Scaffold_Dm_Demoted

record wake_reply_policy =
  wr_conversationKind :: conversation_kind
  wr_suppressPassTool :: bool
  wr_mandatoryReply :: bool
  wr_scaffoldBlock :: scaffold_kind

definition isAgentOnlyDmThread :: "string \<Rightarrow> (string \<Rightarrow> bool) \<Rightarrow> bool" where
  "isAgentOnlyDmThread threadId isAgentMember =
     (case parseDmThreadId threadId of
        None \<Rightarrow> False
      | Some (a, b) \<Rightarrow> isAgentMember a \<and> isAgentMember b)"

definition resolveWakeReplyPolicy ::
  "string \<Rightarrow> wake_reason option \<Rightarrow> bool option \<Rightarrow> wake_reply_policy" where
  "resolveWakeReplyPolicy threadId wakeReason dmPeerIsAgent =
     (let conversationKind = (if isOneToOneThread (Some threadId) then Kind_Dm else Kind_Channel);
          mandatoryReply = (wakeReason = Some Wk_Mention);
          isAgentDm = (conversationKind = Kind_Dm \<and> dmPeerIsAgent = Some True);
          suppressPassTool = (mandatoryReply \<or>
            (conversationKind = Kind_Dm \<and> \<not> isAgentDm \<and> wakeReason \<noteq> Some Wk_Channel_Read));
          scaffold0 = (if conversationKind = Kind_Dm then Scaffold_Dm else Scaffold_Channel);
          scaffold1 = (if isAgentDm \<and> wakeReason \<noteq> Some Wk_Channel_Read
                       then Scaffold_Agent_Dm else scaffold0);
          scaffoldBlock = (if conversationKind = Kind_Dm \<and> wakeReason = Some Wk_Channel_Read
                           then Scaffold_Dm_Demoted else scaffold1)
      in \<lparr>wr_conversationKind = conversationKind, wr_suppressPassTool = suppressPassTool,
          wr_mandatoryReply = mandatoryReply, wr_scaffoldBlock = scaffoldBlock\<rparr>)"

datatype pass_denial = Deny_Mandatory_Reply | Deny_Human_Dm

definition buildPassDenialReason :: "wake_reply_policy \<Rightarrow> pass_denial" where
  "buildPassDenialReason policy =
     (if wr_mandatoryReply policy then Deny_Mandatory_Reply else Deny_Human_Dm)"

definition filterToolsForWakeReplyPolicy :: "string list \<Rightarrow> wake_reply_policy \<Rightarrow> string list" where
  "filterToolsForWakeReplyPolicy toolIds policy =
     filter (\<lambda>toolId. if wr_conversationKind policy = Kind_Channel \<and> toolId = ''channel.dm''
                      then False else True) toolIds"

section \<open>checkToolPolicy\<close>

datatype spirit_role = Worker | Supervisor

datatype policy_reason =
    Unknown_Role string
  | Self_Note_Removed
  | Memory_Save_Renamed
  | Pass_Denied pass_denial
  | Supervisor_Only string spirit_role
  | Role_Cannot_Use string string
  | Access_Refused "string option"
  | Sensitive_Read string

record policy_result =
  pol_allowed :: bool
  pol_requiresApproval :: bool
  pol_shellAutoReview :: "bool option"
  pol_reason :: "policy_reason option"

definition allow :: "bool \<Rightarrow> policy_result" where
  "allow requiresApproval = \<lparr>pol_allowed = True, pol_requiresApproval = requiresApproval,
     pol_shellAutoReview = None, pol_reason = None\<rparr>"

definition refuse :: "policy_reason \<Rightarrow> policy_result" where
  "refuse why = \<lparr>pol_allowed = False, pol_requiresApproval = False,
     pol_shellAutoReview = None, pol_reason = Some why\<rparr>"

definition policyResult ::
  "bool \<Rightarrow> bool \<Rightarrow> policy_reason option \<Rightarrow> bool option \<Rightarrow> policy_result" where
  "policyResult allowed requiresApproval why shellAutoReview =
     \<lparr>pol_allowed = allowed, pol_requiresApproval = requiresApproval,
      pol_shellAutoReview = Some (coalesce shellAutoReview False), pol_reason = why\<rparr>"

text \<open>The pair \<open>requiresApproval\<close>, \<open>shellAutoReview\<close>.\<close>

definition resolveShellExecutePolicy :: "shell_mode option \<Rightarrow> (bool \<times> bool) option" where
  "resolveShellExecutePolicy m =
     (case m of
        None \<Rightarrow> None
      | Some Allow_All \<Rightarrow> Some (False, False)
      | Some Auto_Review \<Rightarrow> Some (True, True)
      | Some Always_Review \<Rightarrow> Some (True, False))"

record role_config =
  role_id :: string
  role_name :: string
  role_tools :: "string list"
  role_workspaceScopes :: "string list"

record team =
  tm_workspaceRoot :: string
  tm_roles :: "role_config list"

definition getRole :: "team \<Rightarrow> string \<Rightarrow> role_config option" where
  "getRole tm name = find (\<lambda>r. role_name r = name \<or> role_id r = name) (tm_roles tm)"

record tool_policy_options =
  tpo_spiritRole :: "spirit_role option"
  tpo_wakeReason :: "wake_reason option"
  tpo_threadId :: "string option"
  tpo_dmPeerIsAgent :: "bool option"
  tpo_effectiveShellApprovalMode :: "shell_mode option"

definition isGoalArtifactPath :: "file_system \<Rightarrow> string \<Rightarrow> string \<Rightarrow> string \<Rightarrow> bool" where
  "isGoalArtifactPath fs cwd workspaceRoot resourcePath =
     (let candidate = canonicalWorkspacePath fs cwd workspaceRoot resourcePath;
          goalRoot = canonicalWorkspacePath fs cwd workspaceRoot ''.ujima-goals''
      in candidate = goalRoot \<or> starts_with candidate (goalRoot @ [slash]))"

fun access_op :: "tool_action \<Rightarrow> access_operation" where
  "access_op Act_Read = Op_Read"
| "access_op Act_Execute = Op_Execute"
| "access_op _ = Op_Write"

definition is_write_tool :: "string \<Rightarrow> bool" where
  "is_write_tool t = (t = ''write'' \<or> t = ''edit'' \<or> t = ''multiedit'')"

text \<open>The part after the resource path has been cleared, or there is none.\<close>

definition shell_or_default :: "string \<Rightarrow> tool_action \<Rightarrow> shell_mode option \<Rightarrow> bool \<Rightarrow> policy_result" where
  "shell_or_default toolId action mode inScopeFileAccess =
     (case (if toolId = ''shell'' \<and> action = Act_Execute then resolveShellExecutePolicy mode else None) of
        Some (requiresApproval, autoReview) \<Rightarrow>
          \<lparr>pol_allowed = True, pol_requiresApproval = requiresApproval,
           pol_shellAutoReview = Some autoReview, pol_reason = None\<rparr>
      | None \<Rightarrow>
          allow (\<not> inScopeFileAccess \<and> action \<noteq> Act_Read \<and> \<not> is_write_tool toolId))"

definition check_resource ::
  "file_system \<Rightarrow> string \<Rightarrow> team \<Rightarrow> role_config \<Rightarrow> string \<Rightarrow> tool_action \<Rightarrow> string
   \<Rightarrow> shell_mode option \<Rightarrow> policy_result" where
  "check_resource fs cwd tm role toolId action resourcePath mode =
     (if (action = Act_Write \<or> is_write_tool toolId) \<and>
         isGoalArtifactPath fs cwd (tm_workspaceRoot tm) resourcePath
      then allow False
      else
      (let access = resolveWorkspaceAccess fs cwd (tm_workspaceRoot tm) (role_workspaceScopes role)
                      resourcePath (access_op action)
       in if \<not> acc_allowed access then refuse (Access_Refused (acc_reason access))
          else
          (let pathForSensitivityCheck =
                 path_relative (path_resolve cwd (tm_workspaceRoot tm))
                   (path_resolve cwd (coalesce (acc_canonicalPath access) resourcePath))
           in if action = Act_Read \<and> isSensitiveWorkspacePath pathForSensitivityCheck
              then \<lparr>pol_allowed = True, pol_requiresApproval = True, pol_shellAutoReview = None,
                    pol_reason = Some (Sensitive_Read resourcePath)\<rparr>
              else shell_or_default toolId action mode (isInScopeFileTool toolId action))))"

definition checkToolPolicy ::
  "file_system \<Rightarrow> string \<Rightarrow> team \<Rightarrow> string \<Rightarrow> string \<Rightarrow> tool_action \<Rightarrow> string option
   \<Rightarrow> tool_policy_options \<Rightarrow> policy_result" where
  "checkToolPolicy fs cwd tm roleName toolId action resourcePath opts =
     (case getRole tm roleName of
        None \<Rightarrow> refuse (Unknown_Role roleName)
      | Some role \<Rightarrow>
          if toolId = ''self.note'' then refuse Self_Note_Removed
          else if toolId = ''memory.save'' then refuse Memory_Save_Renamed
          else
          (let wakeReplyPolicy = resolveWakeReplyPolicy (coalesce (tpo_threadId opts) [])
                 (tpo_wakeReason opts) (tpo_dmPeerIsAgent opts)
           in
           if wr_suppressPassTool wakeReplyPolicy \<and> toolId = ''channel.pass''
           then refuse (Pass_Denied (buildPassDenialReason wakeReplyPolicy))
           else if toolId = ''channel.pass'' then allow False
           else if toolId \<in> {''channel.reply'', ''channel.post'', ''channel.dm'', ''channel.read'',
                             ''channel.list'', ''message''}
           then allow False
           else if starts_with toolId ''supervisor.''
           then (if tpo_spiritRole opts = Some Supervisor then allow False
                 else refuse (Supervisor_Only toolId (coalesce (tpo_spiritRole opts) Worker)))
           else if toolId = ''mcp'' then allow True
           else if toolId = ''schedule'' then allow False
           else if toolId = ''agent.delegate'' then allow False
           else if starts_with toolId ''memory.'' \<or> toolId = ''procedure'' \<or>
                   starts_with toolId ''self.procedure.'' \<or> starts_with toolId ''goal.'' \<or>
                   starts_with toolId ''question.''
           then allow False
           else if toolId \<notin> set ALWAYS_AVAILABLE_AGENT_TOOLS \<and> toolId \<notin> set (role_tools role)
           then refuse (Role_Cannot_Use roleName toolId)
           else if starts_with toolId ''channel.'' then allow False
           else
           (case resourcePath of
              Some (c # cs) \<Rightarrow>
                check_resource fs cwd tm role toolId action (c # cs) (tpo_effectiveShellApprovalMode opts)
            | _ \<Rightarrow> shell_or_default toolId action (tpo_effectiveShellApprovalMode opts) False)))"

section \<open>Laws\<close>

lemma resolveWorkspaceAccess_allowed:
  assumes "acc_allowed (resolveWorkspaceAccess fs cwd root scopes p op)"
  shows "\<exists>c scope. assertWorkspaceBoundary fs cwd root p = Inr c \<and>
    acc_canonicalPath (resolveWorkspaceAccess fs cwd root scopes p op) = Some c \<and>
    scope \<in> set scopes \<and> isPathWithinScope fs cwd root scope c"
  using assms
  by (auto simp: resolveWorkspaceAccess_def list_ex_iff split: sum.splits if_splits)

text \<open>The tools that the gate clears before it looks at roles or paths.\<close>

definition early_tool :: "string \<Rightarrow> bool" where
  "early_tool t \<longleftrightarrow>
     t \<in> {''self.note'', ''memory.save'', ''channel.pass'', ''channel.reply'', ''channel.post'',
          ''channel.dm'', ''channel.read'', ''channel.list'', ''message'', ''mcp'', ''schedule'',
          ''agent.delegate'', ''procedure''} \<or>
     starts_with t ''supervisor.'' \<or> starts_with t ''memory.'' \<or> starts_with t ''self.procedure.'' \<or>
     starts_with t ''goal.'' \<or> starts_with t ''question.'' \<or> starts_with t ''channel.''"

lemma checkToolPolicy_late:
  assumes "getRole tm roleName = Some role" and "\<not> early_tool toolId"
    and "toolId \<in> set ALWAYS_AVAILABLE_AGENT_TOOLS \<or> toolId \<in> set (role_tools role)"
    and "p \<noteq> []"
  shows "checkToolPolicy fs cwd tm roleName toolId action (Some p) opts =
    check_resource fs cwd tm role toolId action p (tpo_effectiveShellApprovalMode opts)"
  using assms by (cases p) (auto simp: checkToolPolicy_def early_tool_def Let_def)

lemma shell_or_default_allowed [simp]: "pol_allowed (shell_or_default t a m b)"
  by (auto simp: shell_or_default_def allow_def split: option.splits)

lemma check_resource_allowed:
  assumes "pol_allowed (check_resource fs cwd tm role toolId action p mode)"
  shows "(action = Act_Write \<or> is_write_tool toolId) \<and> isGoalArtifactPath fs cwd (tm_workspaceRoot tm) p \<or>
    (\<exists>c scope. assertWorkspaceBoundary fs cwd (tm_workspaceRoot tm) p = Inr c \<and>
       scope \<in> set (role_workspaceScopes role) \<and>
       isPathWithinScope fs cwd (tm_workspaceRoot tm) scope c)"
proof (cases "(action = Act_Write \<or> is_write_tool toolId) \<and>
    isGoalArtifactPath fs cwd (tm_workspaceRoot tm) p")
  case False
  have "acc_allowed (resolveWorkspaceAccess fs cwd (tm_workspaceRoot tm) (role_workspaceScopes role)
      p (access_op action))"
  proof (rule ccontr)
    assume "\<not> ?thesis"
    with assms False show False by (auto simp: check_resource_def refuse_def)
  qed
  then show ?thesis using resolveWorkspaceAccess_allowed by blast
qed simp

lemma early_tool_literals [simp]:
  "\<not> early_tool ''shell''" "\<not> early_tool ''view''" "early_tool ''channel.pass''"
  by (simp_all add: early_tool_def)

lemma checkToolPolicy_listed:
  assumes "pol_allowed (checkToolPolicy fs cwd tm roleName toolId action rp opts)"
    and "\<not> early_tool toolId"
  shows "\<exists>role. getRole tm roleName = Some role \<and>
    (toolId \<in> set ALWAYS_AVAILABLE_AGENT_TOOLS \<or> toolId \<in> set (role_tools role))"
proof (cases "getRole tm roleName")
  case None
  with assms(1) show ?thesis by (simp add: checkToolPolicy_def refuse_def)
next
  case (Some role)
  show ?thesis
  proof (rule ccontr)
    assume "\<not> ?thesis"
    with Some assms show False
      by (simp add: checkToolPolicy_def early_tool_def refuse_def Let_def)
  qed
qed

lemma checkToolPolicy_no_path:
  assumes "getRole tm roleName = Some role" and "\<not> early_tool toolId"
    and "toolId \<in> set ALWAYS_AVAILABLE_AGENT_TOOLS \<or> toolId \<in> set (role_tools role)"
    and "rp = None \<or> rp = Some []"
  shows "checkToolPolicy fs cwd tm roleName toolId action rp opts =
    shell_or_default toolId action (tpo_effectiveShellApprovalMode opts) False"
  using assms by (auto simp: checkToolPolicy_def early_tool_def Let_def)

text \<open>The gate of a call that is listed for its role: the path check, or the default.\<close>

lemma checkToolPolicy_gate:
  assumes "pol_allowed (checkToolPolicy fs cwd tm roleName toolId action rp opts)"
    and "\<not> early_tool toolId"
  obtains (path) role p where "getRole tm roleName = Some role" "rp = Some p" "p \<noteq> []"
      "checkToolPolicy fs cwd tm roleName toolId action rp opts =
        check_resource fs cwd tm role toolId action p (tpo_effectiveShellApprovalMode opts)"
  | (no_path) "rp = None \<or> rp = Some []"
      "checkToolPolicy fs cwd tm roleName toolId action rp opts =
        shell_or_default toolId action (tpo_effectiveShellApprovalMode opts) False"
proof -
  obtain role where r: "getRole tm roleName = Some role"
    and l: "toolId \<in> set ALWAYS_AVAILABLE_AGENT_TOOLS \<or> toolId \<in> set (role_tools role)"
    using checkToolPolicy_listed [OF assms] by blast
  show thesis
  proof (cases "rp = None \<or> rp = Some []")
    case True
    then show thesis using no_path checkToolPolicy_no_path [OF r assms(2) l True] by blast
  next
    case False
    then obtain p where p: "rp = Some p" "p \<noteq> []" by (cases rp) auto
    with path [OF r] checkToolPolicy_late [OF r assms(2) l p(2)] show thesis by blast
  qed
qed

lemma check_resource_sensitive:
  assumes "pol_allowed (check_resource fs cwd tm role toolId Act_Read p mode)"
    and "\<not> is_write_tool toolId" and "assertWorkspaceBoundary fs cwd (tm_workspaceRoot tm) p = Inr c"
    and "isSensitiveWorkspacePath
      (path_relative (path_resolve cwd (tm_workspaceRoot tm)) (path_resolve cwd c))"
  shows "pol_requiresApproval (check_resource fs cwd tm role toolId Act_Read p mode)"
proof -
  let ?access = "resolveWorkspaceAccess fs cwd (tm_workspaceRoot tm) (role_workspaceScopes role) p Op_Read"
  have "acc_allowed ?access"
    using assms(1,2) by (auto simp: check_resource_def refuse_def Let_def split: if_splits)
  moreover from this have "acc_canonicalPath ?access = Some c"
    using resolveWorkspaceAccess_allowed assms(3) by fastforce
  ultimately show ?thesis using assms(2,4) by (simp add: check_resource_def Let_def)
qed

lemma shell_approval:
  "pol_requiresApproval (shell_or_default ''shell'' Act_Execute mode b) \<longleftrightarrow>
     (case mode of None \<Rightarrow> \<not> b | Some m \<Rightarrow> m \<noteq> Allow_All)"
  by (auto simp: shell_or_default_def resolveShellExecutePolicy_def allow_def is_write_tool_def
      split: option.splits shell_mode.splits)

lemma shell_check_resource:
  assumes "pol_allowed (check_resource fs cwd tm role ''shell'' Act_Execute p mode)"
  shows "check_resource fs cwd tm role ''shell'' Act_Execute p mode =
    shell_or_default ''shell'' Act_Execute mode False"
proof -
  have "\<not> isInScopeFileTool ''shell'' Act_Execute" by code_simp
  with assms show ?thesis
    by (auto simp: check_resource_def is_write_tool_def refuse_def Let_def split: if_splits)
qed

section \<open>Properties\<close>


definition sample_team :: team where
  "sample_team = \<lparr>tm_workspaceRoot = ''/w'',
     tm_roles = [\<lparr>role_id = ''r1'', role_name = ''dev'', role_tools = [''shell'', ''view''],
       role_workspaceScopes = [''.'']\<rparr>]\<rparr>"

definition sample_opts :: "shell_mode option \<Rightarrow> tool_policy_options" where
  "sample_opts mode = \<lparr>tpo_spiritRole = None, tpo_wakeReason = None, tpo_threadId = Some ''general'',
     tpo_dmPeerIsAgent = None, tpo_effectiveShellApprovalMode = mode\<rparr>"

definition flat_fs :: file_system where
  "flat_fs = \<lparr>fs_exists = (\<lambda>p. p \<in> {''/w'', ''/w/a'', ''/w/.env''}), fs_real = (\<lambda>p. p)\<rparr>"


text \<open>
  The shortcut for the goal directory compares text: a missing file below a symbolic link
  in that directory is cleared although the boundary check refuses it.
\<close>

definition linked_fs :: file_system where
  "linked_fs = \<lparr>fs_exists = (\<lambda>p. p \<in> {''/w'', ''/w/.ujima-goals'', ''/w/.ujima-goals/out'', ''/etc''}),
     fs_real = (\<lambda>p. if p = ''/w/.ujima-goals/out'' then ''/etc'' else p)\<rparr>"

lemma goal_shortcut_skips_links:
  "pol_allowed (checkToolPolicy linked_fs ''/'' sample_team ''dev'' ''write'' Act_Write
     (Some ''.ujima-goals/out/f'') (sample_opts None)) \<and>
   assertWorkspaceBoundary linked_fs ''/'' ''/w'' ''.ujima-goals/out/f'' =
     Inl (escape_message ''.ujima-goals/out/f'' ''/w'')"
  unfolding ancestor_check.simps by code_simp

text \<open>
  Reads of sensitive files need an approval: whenever the gate lets a listed tool read a
  path whose location in the workspace is sensitive, it asks for one.
\<close>

theorem sensitive_reads_need_approval:
  assumes "pol_allowed (checkToolPolicy fs cwd tm roleName toolId Act_Read (Some p) opts)"
    and "\<not> early_tool toolId" and "\<not> is_write_tool toolId" and "p \<noteq> []"
    and "assertWorkspaceBoundary fs cwd (tm_workspaceRoot tm) p = Inr c"
    and "isSensitiveWorkspacePath
      (path_relative (path_resolve cwd (tm_workspaceRoot tm)) (path_resolve cwd c))"
  shows "pol_requiresApproval (checkToolPolicy fs cwd tm roleName toolId Act_Read (Some p) opts)"
proof (rule checkToolPolicy_gate [OF assms(1,2)])
  fix role q
  assume g: "Some p = Some q" "checkToolPolicy fs cwd tm roleName toolId Act_Read (Some p) opts =
      check_resource fs cwd tm role toolId Act_Read q (tpo_effectiveShellApprovalMode opts)"
  with assms(1) have "pol_allowed (check_resource fs cwd tm role toolId Act_Read p
      (tpo_effectiveShellApprovalMode opts))" by simp
  from check_resource_sensitive [OF this assms(3,5,6)] g show ?thesis by simp
qed (use assms(4) in simp)

theorem sensitive_reads_need_approval_witness:
  "pol_requiresApproval (checkToolPolicy flat_fs ''/'' sample_team ''dev'' ''view'' Act_Read (Some ''.env'')
     (sample_opts None))"
proof (rule sensitive_reads_need_approval)
  show "pol_allowed (checkToolPolicy flat_fs ''/'' sample_team ''dev'' ''view'' Act_Read (Some ''.env'')
     (sample_opts None))" by code_simp
  show "assertWorkspaceBoundary flat_fs ''/'' (tm_workspaceRoot sample_team) ''.env'' = Inr ''/w/.env''"
    by code_simp
  show "isSensitiveWorkspacePath (path_relative (path_resolve ''/'' (tm_workspaceRoot sample_team))
      (path_resolve ''/'' ''/w/.env''))" by code_simp
qed (simp_all add: is_write_tool_def)

text \<open>
  Shell execution follows the approval mode on every path through the gate: allowed runs
  need an approval unless the effective mode is \<open>allow_all\<close>, also when no mode is given.
\<close>

theorem shell_follows_mode:
  assumes "pol_allowed (checkToolPolicy fs cwd tm roleName ''shell'' Act_Execute rp opts)"
  shows "pol_requiresApproval (checkToolPolicy fs cwd tm roleName ''shell'' Act_Execute rp opts) \<longleftrightarrow>
    tpo_effectiveShellApprovalMode opts \<noteq> Some Allow_All"
proof (rule checkToolPolicy_gate [OF assms early_tool_literals(1)])
  fix role q
  assume g: "checkToolPolicy fs cwd tm roleName ''shell'' Act_Execute rp opts =
      check_resource fs cwd tm role ''shell'' Act_Execute q (tpo_effectiveShellApprovalMode opts)"
  with assms show ?thesis
    using shell_check_resource [of fs cwd tm role q "tpo_effectiveShellApprovalMode opts"]
    by (simp add: shell_approval split: option.splits)
qed (simp add: shell_approval split: option.splits)

theorem shell_follows_mode_witness:
  "pol_requiresApproval (checkToolPolicy flat_fs ''/'' sample_team ''dev'' ''shell'' Act_Execute None
     (sample_opts (Some Auto_Review)))"
proof -
  have "pol_allowed (checkToolPolicy flat_fs ''/'' sample_team ''dev'' ''shell'' Act_Execute None
     (sample_opts (Some Auto_Review)))" by code_simp
  from shell_follows_mode [OF this] show ?thesis by (simp add: sample_opts_def)
qed

text \<open>
  Supervisor tools are for supervisors: for a known role, a tool id in the
  \<open>supervisor.\<close> namespace is allowed exactly when the caller acts as supervisor.
\<close>

theorem supervisor_tools_gated:
  assumes "getRole tm roleName = Some role" and "starts_with toolId ''supervisor.''"
  shows "pol_allowed (checkToolPolicy fs cwd tm roleName toolId action rp opts) \<longleftrightarrow>
    tpo_spiritRole opts = Some Supervisor"
  using assms
  by (auto simp: checkToolPolicy_def allow_def refuse_def Let_def starts_with_iff)

theorem supervisor_tools_gated_witness:
  "\<not> pol_allowed (checkToolPolicy flat_fs ''/'' sample_team ''dev'' ''supervisor.kill'' Act_Execute None
     (sample_opts None))"
proof -
  have "getRole sample_team ''dev'' = Some (hd (tm_roles sample_team))" by code_simp
  from supervisor_tools_gated [OF this, of "''supervisor.kill''"] show ?thesis
    by (simp add: sample_opts_def)
qed

text \<open>
  The reply contract at the gate: \<open>channel.pass\<close> is refused exactly when the wake is a
  mention, or when it is in a one-to-one thread with a human for another reason than a read.
  The registry has removed that tool, and the contract does not cover the one agents close
  a turn with: \<open>channel.close\<close> is allowed for every known role in every thread.
\<close>

theorem pass_contract:
  assumes "getRole tm roleName = Some role"
  shows "(pol_allowed (checkToolPolicy fs cwd tm roleName ''channel.pass'' action rp opts) \<longleftrightarrow>
      tpo_wakeReason opts \<noteq> Some Wk_Mention \<and>
      (isOneToOneThread (Some (coalesce (tpo_threadId opts) [])) \<longrightarrow>
         tpo_dmPeerIsAgent opts = Some True \<or> tpo_wakeReason opts = Some Wk_Channel_Read)) \<and>
    normalize_tool_id ''channel.pass'' = None \<and>
    checkToolPolicy fs cwd tm roleName ''channel.close'' action rp opts = allow False"
proof -
  have "normalize_tool_id ''channel.pass'' = None" by code_simp
  moreover have "''channel.close'' \<in> set ALWAYS_AVAILABLE_AGENT_TOOLS" by code_simp
  ultimately show ?thesis
    using assms
    by (auto simp: checkToolPolicy_def resolveWakeReplyPolicy_def allow_def refuse_def Let_def)
qed

theorem pass_contract_witness:
  "pol_allowed (checkToolPolicy flat_fs ''/'' sample_team ''dev'' ''channel.pass'' Act_Message None
     (sample_opts None))"
proof -
  have r: "getRole sample_team ''dev'' = Some (hd (tm_roles sample_team))" by code_simp
  have "\<not> isOneToOneThread (Some ''general'')" by code_simp
  with pass_contract [OF r] show ?thesis by (simp add: sample_opts_def)
qed

end
