(* ===== verification/Digraph.thy ===== *)
theory Digraph
  imports Prelude
begin

text \<open>
  The two graph algorithms of \<open>packages/shared/src/workflows.ts\<close>: the depth-first search
  of \<open>hasCycle\<close> with its three colours, and the worklist of \<open>computeAncestors\<close>. A graph is
  the list of its node ids, the keys of the code's \<open>Map\<close> in insertion order, and the
  function that gives the successors of a node; \<open>get(id) ?? []\<close> is that function outside
  the keys. The search takes fuel; the number of nodes is enough.
\<close>

section \<open>Cycle detection\<close>

datatype colour = White | Gray | Black

type_synonym colouring = "string \<Rightarrow> colour"

fun visit :: "nat \<Rightarrow> (string \<Rightarrow> string list) \<Rightarrow> string \<Rightarrow> colouring \<Rightarrow> bool \<times> colouring"
  and visit_all :: "nat \<Rightarrow> (string \<Rightarrow> string list) \<Rightarrow> string list \<Rightarrow> colouring \<Rightarrow> bool \<times> colouring"
where
  "visit 0 adj i c = (False, c)"
| "visit (Suc n) adj i c =
     (case visit_all n adj (adj i) (c(i := Gray)) of
        (True, c') \<Rightarrow> (True, c')
      | (False, c') \<Rightarrow> (False, c'(i := Black)))"
| "visit_all n adj [] c = (False, c)"
| "visit_all n adj (x # xs) c =
     (case c x of
        Gray \<Rightarrow> (True, c)
      | Black \<Rightarrow> visit_all n adj xs c
      | White \<Rightarrow>
          (case visit n adj x c of
             (True, c') \<Rightarrow> (True, c')
           | (False, c') \<Rightarrow> visit_all n adj xs c'))"

fun search :: "nat \<Rightarrow> (string \<Rightarrow> string list) \<Rightarrow> string list \<Rightarrow> colouring \<Rightarrow> bool" where
  "search n adj [] c = False"
| "search n adj (x # xs) c =
     (if c x = White
      then (case visit n adj x c of
              (True, c') \<Rightarrow> True
            | (False, c') \<Rightarrow> search n adj xs c')
      else search n adj xs c)"

definition hasCycle :: "string list \<Rightarrow> (string \<Rightarrow> string list) \<Rightarrow> bool" where
  "hasCycle keys adj = search (length keys) adj keys (\<lambda>_. White)"

section \<open>Ancestors\<close>

definition reverse_adj :: "string list \<Rightarrow> (string \<Rightarrow> string list) \<Rightarrow> string \<Rightarrow> string list" where
  "reverse_adj keys adj i =
     (if i \<in> set keys
      then concat (map (\<lambda>from. map (\<lambda>_. from) (filter (\<lambda>to'. to' = i) (adj from))) keys)
      else [])"

text \<open>The stack has its top, the end of the array, first.\<close>

function ancestors_loop ::
  "string list \<Rightarrow> (string \<Rightarrow> string list) \<Rightarrow> string list \<Rightarrow> string set \<Rightarrow> string set" where
  "ancestors_loop keys adj [] anc = anc"
| "ancestors_loop keys adj (cur # stack) anc =
     (if cur \<in> anc then ancestors_loop keys adj stack anc
      else ancestors_loop keys adj (rev (reverse_adj keys adj cur) @ stack) (insert cur anc))"
  by pat_completeness auto
termination
proof (relation "measures [\<lambda>(keys, adj, stack, anc). card (set keys - anc),
    \<lambda>(keys, adj, stack, anc). length stack]", goal_cases)
  case (3 keys adj cur stack anc)
  show ?case
  proof (cases "cur \<in> set keys")
    case True
    with 3 have "card (set keys - insert cur anc) < card (set keys - anc)"
      by (intro psubset_card_mono) auto
    then show ?thesis by simp
  next
    case False
    then have "set keys - insert cur anc = set keys - anc" by blast
    with False show ?thesis by (simp add: reverse_adj_def)
  qed
qed auto

definition computeAncestors :: "string list \<Rightarrow> (string \<Rightarrow> string list) \<Rightarrow> string \<Rightarrow> string set" where
  "computeAncestors keys adj i = ancestors_loop keys adj (rev (reverse_adj keys adj i)) {}"

section \<open>The edge relation\<close>

definition edges_of :: "(string \<Rightarrow> string list) \<Rightarrow> (string \<times> string) set" where
  "edges_of adj = {(x, y). y \<in> set (adj x)}"

text \<open>All edges run between listed nodes.\<close>

definition graph_wf :: "string list \<Rightarrow> (string \<Rightarrow> string list) \<Rightarrow> bool" where
  "graph_wf keys adj \<longleftrightarrow> (\<forall>x y. y \<in> set (adj x) \<longrightarrow> x \<in> set keys \<and> y \<in> set keys)"

lemma edges_ofD: "graph_wf keys adj \<Longrightarrow> (x, y) \<in> edges_of adj \<Longrightarrow> x \<in> set keys \<and> y \<in> set keys"
  by (auto simp: edges_of_def graph_wf_def)

section \<open>The search is correct\<close>

text \<open>The black nodes are closed under successors and lie on no cycle.\<close>

definition black_ok :: "(string \<Rightarrow> string list) \<Rightarrow> colouring \<Rightarrow> bool" where
  "black_ok adj c \<longleftrightarrow>
     (\<forall>x. c x = Black \<longrightarrow> (\<forall>y \<in> set (adj x). c y = Black) \<and> (x, x) \<notin> (edges_of adj)\<^sup>+)"

definition whites :: "string list \<Rightarrow> colouring \<Rightarrow> nat" where
  "whites keys c = card {x \<in> set keys. c x = White}"

text \<open>What a search step does to the colours: the gray nodes stay, white ones turn black.\<close>

definition advanced :: "colouring \<Rightarrow> colouring \<Rightarrow> bool" where
  "advanced c c' \<longleftrightarrow> (\<forall>x. (c' x = Gray \<longleftrightarrow> c x = Gray) \<and> (c x = Black \<longrightarrow> c' x = Black))"

lemma advanced_refl [simp]: "advanced c c"
  by (simp add: advanced_def)

lemma advanced_trans: "advanced c d \<Longrightarrow> advanced d e \<Longrightarrow> advanced c e"
  by (simp add: advanced_def)

lemma advanced_whites: "advanced c c' \<Longrightarrow> whites keys c' \<le> whites keys c"
  unfolding whites_def by (rule card_mono) (auto simp: advanced_def, metis colour.exhaust)

lemma whites_gray: "x \<in> set keys \<Longrightarrow> c x = White \<Longrightarrow> whites keys (c(x := Gray)) < whites keys c"
  unfolding whites_def by (rule psubset_card_mono) (auto split: if_splits)

lemma black_reach: "black_ok adj c \<Longrightarrow> c x = Black \<Longrightarrow> (x, y) \<in> (edges_of adj)\<^sup>* \<Longrightarrow> c y = Black"
  by (erule rtrancl_induct) (auto simp: black_ok_def edges_of_def)

text \<open>A node whose successors are all black may turn black.\<close>

lemma black_ok_insert:
  assumes ok: "black_ok adj c" and x: "c x \<noteq> Black" and succ: "\<forall>y \<in> set (adj x). c y = Black"
  shows "black_ok adj (c(x := Black))"
proof -
  have "(x, x) \<notin> (edges_of adj)\<^sup>+"
  proof
    assume "(x, x) \<in> (edges_of adj)\<^sup>+"
    then obtain y where "(x, y) \<in> edges_of adj" "(y, x) \<in> (edges_of adj)\<^sup>*" by (metis tranclD)
    with succ black_reach [OF ok, of y x] x show False by (auto simp: edges_of_def)
  qed
  with ok succ show ?thesis by (auto simp: black_ok_def)
qed

lemma black_ok_gray: "black_ok adj c \<Longrightarrow> c x = White \<Longrightarrow> black_ok adj (c(x := Gray))"
  by (auto simp: black_ok_def)

lemma visit_False:
  "visit n adj x c = (False, c') \<Longrightarrow> graph_wf keys adj \<Longrightarrow> black_ok adj c \<Longrightarrow> c x = White \<Longrightarrow>
     x \<in> set keys \<Longrightarrow> whites keys c \<le> n \<Longrightarrow>
     advanced c c' \<and> black_ok adj c' \<and> c' x = Black"
  "visit_all n adj ys c = (False, c') \<Longrightarrow> graph_wf keys adj \<Longrightarrow> black_ok adj c \<Longrightarrow>
     set ys \<subseteq> set keys \<Longrightarrow> whites keys c \<le> n \<Longrightarrow>
     advanced c c' \<and> black_ok adj c' \<and> (\<forall>y \<in> set ys. c' y = Black)"
proof (induction n adj x c and n adj ys c arbitrary: c' and c' rule: visit_visit_all.induct)
  case (1 adj i c)
  then have "i \<in> {x \<in> set keys. c x = White}" by simp
  with 1(6) show ?case by (auto simp: whites_def)
next
  case (2 n adj i c)
  obtain d where d: "visit_all n adj (adj i) (c(i := Gray)) = (False, d)" "c' = d(i := Black)"
    using 2(2) by (auto split: prod.splits bool.splits)
  have "whites keys (c(i := Gray)) \<le> n" using whites_gray [of i keys c, OF 2(6,5)] 2(7) by simp
  moreover have "set (adj i) \<subseteq> set keys" using 2(3) by (auto simp: graph_wf_def)
  ultimately have IH: "advanced (c(i := Gray)) d \<and> black_ok adj d \<and> (\<forall>y \<in> set (adj i). d y = Black)"
    using 2(1) [OF d(1) 2(3) black_ok_gray [OF 2(4,5)]] by blast
  then have "d i = Gray" by (auto simp: advanced_def split: if_splits)
  then have "d i \<noteq> Black" by simp
  with IH have "black_ok adj (d(i := Black))" by (intro black_ok_insert) auto
  moreover have "advanced c (d(i := Black))"
    using IH 2(5) by (auto simp: advanced_def split: if_splits)
  ultimately show ?case unfolding d(2) by (simp only: fun_upd_same)
next
  case (3 n adj c)
  then show ?case by simp
next
  case (4 n adj x xs c)
  show ?case
  proof (cases "c x")
    case White
    then obtain d where d: "visit n adj x c = (False, d)" "visit_all n adj xs d = (False, c')"
      using 4(4) by (auto split: prod.splits bool.splits)
    have 1: "advanced c d \<and> black_ok adj d \<and> d x = Black"
      using 4(1) [OF White d(1)] White 4(5-8) by simp
    then have "whites keys d \<le> n" using advanced_whites [of c d keys] 4(8) by simp
    then have "advanced d c' \<and> black_ok adj c' \<and> (\<forall>y \<in> set xs. c' y = Black)"
      using 4(2) [OF White d(1)[symmetric] refl d(2)] 4(5,7) 1 by simp
    with 1 show ?thesis using advanced_trans [of c d c'] by (auto simp: advanced_def)
  next
    case Gray
    with 4(4) show ?thesis by simp
  next
    case Black
    with 4 have "advanced c c' \<and> black_ok adj c' \<and> (\<forall>y \<in> set xs. c' y = Black)" by simp
    with Black show ?thesis by (auto simp: advanced_def)
  qed
qed

lemma visit_grays:
  "visit n adj x c = (False, c') \<Longrightarrow> c x = White \<Longrightarrow> (c' y = Gray \<longleftrightarrow> c y = Gray)"
  "visit_all n adj ys c = (False, c') \<Longrightarrow> (c' y = Gray \<longleftrightarrow> c y = Gray)"
proof (induction n adj x c and n adj ys c arbitrary: c' and c' rule: visit_visit_all.induct)
  case (2 n adj i c)
  obtain d where d: "visit_all n adj (adj i) (c(i := Gray)) = (False, d)" "c' = d(i := Black)"
    using 2(2) by (auto split: prod.splits bool.splits)
  from 2(1) [OF d(1)] 2(3) show ?case by (simp add: d(2))
next
  case (4 n adj x xs c)
  then show ?case by (auto split: prod.splits bool.splits colour.splits)
qed auto

text \<open>A gray successor closes a cycle, because every gray node reaches the current one.\<close>

lemma visit_True:
  "visit n adj x c = (True, c') \<Longrightarrow> (\<And>g. c g = Gray \<Longrightarrow> (g, x) \<in> (edges_of adj)\<^sup>*) \<Longrightarrow>
     \<exists>z. (z, z) \<in> (edges_of adj)\<^sup>+"
  "visit_all n adj ys c = (True, c') \<Longrightarrow> set ys \<subseteq> set (adj x) \<Longrightarrow>
     (\<And>g. c g = Gray \<Longrightarrow> (g, x) \<in> (edges_of adj)\<^sup>*) \<Longrightarrow> \<exists>z. (z, z) \<in> (edges_of adj)\<^sup>+"
proof (induction n adj x c and n adj ys c arbitrary: c' and c' x rule: visit_visit_all.induct)
  case (2 n adj i c)
  have "visit_all n adj (adj i) (c(i := Gray)) = (True, c')"
    using 2(2) by (auto split: prod.splits bool.splits)
  then show ?case by (rule 2(1)) (use 2(3) in \<open>auto split: if_splits\<close>)
next
  case (4 n adj y ys c)
  have e: "(x, y) \<in> edges_of adj" using 4(5) by (simp add: edges_of_def)
  show ?case
  proof (cases "c y")
    case White
    have to_y: "(g, y) \<in> (edges_of adj)\<^sup>*" if "c g = Gray" for g
      using 4(6) [OF that] e by (rule rtrancl_into_rtrancl)
    show ?thesis
    proof (cases "visit n adj y c")
      case (Pair b d)
      show ?thesis
      proof (cases b)
        case True
        with Pair have v: "visit n adj y c = (True, d)" by simp
        show ?thesis by (rule 4(1) [OF White v]) (rule to_y)
      next
        case False
        with Pair have v: "visit n adj y c = (False, d)" by simp
        with White 4(4) have "visit_all n adj ys d = (True, c')" by simp
        then show ?thesis
        proof (rule 4(2) [OF White v [symmetric] refl])
          show "set ys \<subseteq> set (adj x)" using 4(5) by simp
          show "(g, x) \<in> (edges_of adj)\<^sup>*" if "d g = Gray" for g
            using that visit_grays(1) [OF v White, of g] 4(6) by simp
        qed
      qed
    qed
  next
    case Gray
    then have "(y, y) \<in> (edges_of adj)\<^sup>+" using 4(6) e by (metis rtrancl_into_trancl1)
    then show ?thesis ..
  next
    case Black
    with 4(4) have "visit_all n adj ys c = (True, c')" by simp
    then show ?thesis by (rule 4(3) [OF Black]) (use 4(5,6) in auto)
  qed
qed auto

lemma search_False:
  "\<not> search n adj xs c \<Longrightarrow> graph_wf keys adj \<Longrightarrow> black_ok adj c \<Longrightarrow> (\<forall>x. c x \<noteq> Gray) \<Longrightarrow>
     set xs \<subseteq> set keys \<Longrightarrow> whites keys c \<le> n \<Longrightarrow>
     \<exists>c'. black_ok adj c' \<and> (\<forall>x \<in> set xs. c' x = Black) \<and> advanced c c'"
proof (induction xs arbitrary: c)
  case Nil
  then show ?case by (intro exI [of _ c]) simp
next
  case (Cons x xs)
  show ?case
  proof (cases "c x = White")
    case True
    then obtain d where d: "visit n adj x c = (False, d)" "\<not> search n adj xs d"
      using Cons.prems(1) by (auto split: prod.splits bool.splits)
    have 1: "advanced c d \<and> black_ok adj d \<and> d x = Black"
      using visit_False(1) [OF d(1) Cons.prems(2,3) True] Cons.prems(5,6) by simp
    moreover from this have "\<forall>x. d x \<noteq> Gray" "whites keys d \<le> n"
      using Cons.prems(4,6) advanced_whites [of c d keys] by (auto simp: advanced_def)
    ultimately obtain c' where "black_ok adj c' \<and> (\<forall>x \<in> set xs. c' x = Black) \<and> advanced d c'"
      using Cons.IH [OF d(2)] Cons.prems(2,5) by auto
    with 1 show ?thesis by (auto simp: advanced_def)
  next
    case False
    with Cons.prems(4) have b: "c x = Black" by (metis colour.exhaust)
    with Cons.prems(1) have "\<not> search n adj xs c" by simp
    from Cons.IH [OF this Cons.prems(2-4)] Cons.prems(5,6)
    obtain c' where "black_ok adj c' \<and> (\<forall>x \<in> set xs. c' x = Black) \<and> advanced c c'"
      by auto
    with b show ?thesis by (auto simp: advanced_def)
  qed
qed

lemma search_True:
  "search n adj xs c \<Longrightarrow> (\<forall>x. c x \<noteq> Gray) \<Longrightarrow> \<exists>z. (z, z) \<in> (edges_of adj)\<^sup>+"
proof (induction xs arbitrary: c)
  case (Cons x xs)
  show ?case
  proof (cases "c x = White")
    case True
    show ?thesis
    proof (cases "visit n adj x c")
      case (Pair b d)
      show ?thesis
      proof (cases b)
        case True
        with Pair have "visit n adj x c = (True, d)" by simp
        then show ?thesis by (rule visit_True(1)) (use Cons.prems(2) in simp)
      next
        case False
        with Pair \<open>c x = White\<close> Cons.prems(1) have "search n adj xs d" by simp
        moreover have "\<forall>y. d y \<noteq> Gray"
          using visit_grays(1) [of n adj x c d] Pair False \<open>c x = White\<close> Cons.prems(2) by simp
        ultimately show ?thesis by (rule Cons.IH)
      qed
    qed
  next
    case False
    with Cons show ?thesis by simp
  qed
qed simp

lemma hasCycle_iff:
  assumes "graph_wf keys adj"
  shows "hasCycle keys adj \<longleftrightarrow> \<not> acyclic (edges_of adj)"
proof
  assume "hasCycle keys adj"
  then show "\<not> acyclic (edges_of adj)"
    using search_True [of _ adj keys "\<lambda>_. White"] by (auto simp: hasCycle_def acyclic_def)
next
  assume cyc: "\<not> acyclic (edges_of adj)"
  show "hasCycle keys adj"
  proof (rule ccontr)
    assume "\<not> hasCycle keys adj"
    moreover have "whites keys (\<lambda>_. White) \<le> length keys"
      by (simp add: whites_def card_length)
    ultimately obtain c where c: "black_ok adj c" "\<forall>x \<in> set keys. c x = Black"
      using search_False [of "length keys" adj keys "\<lambda>_. White" keys] assms
      by (auto simp: hasCycle_def black_ok_def)
    from cyc obtain x where x: "(x, x) \<in> (edges_of adj)\<^sup>+" by (auto simp: acyclic_def)
    then have "x \<in> set keys" using edges_ofD [OF assms] by (metis tranclD)
    with c x show False by (auto simp: black_ok_def)
  qed
qed

section \<open>The worklist is correct\<close>

lemma set_reverse_adj:
  "graph_wf keys adj \<Longrightarrow> set (reverse_adj keys adj i) = {x. (x, i) \<in> edges_of adj}"
  by (auto simp: reverse_adj_def edges_of_def graph_wf_def)

lemma ancestors_loop_sound:
  "graph_wf keys adj \<Longrightarrow> set stack \<union> anc \<subseteq> {x. (x, i) \<in> (edges_of adj)\<^sup>+} \<Longrightarrow>
     ancestors_loop keys adj stack anc \<subseteq> {x. (x, i) \<in> (edges_of adj)\<^sup>+}"
proof (induction keys adj stack anc rule: ancestors_loop.induct)
  case (2 keys adj cur stack anc)
  have "set (reverse_adj keys adj cur) \<subseteq> {x. (x, i) \<in> (edges_of adj)\<^sup>+}"
    using 2(4) by (auto simp: set_reverse_adj [OF 2(3)] intro: trancl_into_trancl2)
  with 2 show ?case by auto
qed simp

lemma ancestors_loop_complete:
  "graph_wf keys adj \<Longrightarrow> (\<forall>a \<in> anc. \<forall>x. (x, a) \<in> edges_of adj \<longrightarrow> x \<in> anc \<union> set stack) \<Longrightarrow>
     anc \<union> set stack \<subseteq> ancestors_loop keys adj stack anc \<and>
     (\<forall>a \<in> ancestors_loop keys adj stack anc. \<forall>x. (x, a) \<in> edges_of adj \<longrightarrow>
        x \<in> ancestors_loop keys adj stack anc)"
proof (induction keys adj stack anc rule: ancestors_loop.induct)
  case (2 keys adj cur stack anc)
  show ?case
  proof (cases "cur \<in> anc")
    case True
    with 2(1) [OF True 2(3)] 2(4) show ?thesis by auto
  next
    case False
    have "\<forall>a \<in> insert cur anc. \<forall>x. (x, a) \<in> edges_of adj \<longrightarrow>
        x \<in> insert cur anc \<union> set (rev (reverse_adj keys adj cur) @ stack)"
      using 2(4) by (auto simp: set_reverse_adj [OF 2(3)])
    from 2(2) [OF False 2(3) this] False show ?thesis by auto
  qed
qed simp

lemma computeAncestors_iff:
  assumes "graph_wf keys adj"
  shows "x \<in> computeAncestors keys adj i \<longleftrightarrow> (x, i) \<in> (edges_of adj)\<^sup>+"
proof
  assume "x \<in> computeAncestors keys adj i"
  then show "(x, i) \<in> (edges_of adj)\<^sup>+"
    using ancestors_loop_sound [OF assms, of "rev (reverse_adj keys adj i)" "{}" i]
    by (auto simp: computeAncestors_def set_reverse_adj [OF assms])
next
  note comp = ancestors_loop_complete [OF assms, of "{}" "rev (reverse_adj keys adj i)"]
  assume "(x, i) \<in> (edges_of adj)\<^sup>+"
  then show "x \<in> computeAncestors keys adj i"
    by (induction rule: converse_trancl_induct)
      (use comp in \<open>auto simp: computeAncestors_def set_reverse_adj [OF assms]\<close>)
qed

end
