(* ===== verification/Workflows.thy ===== *)
theory Workflows
  imports Digraph JsValues SqlTable
begin

text \<open>
  Workflow graphs (\<open>packages/shared/src/workflows.ts\<close>): nodes, edges and their
  normalisation, template tokens, the structural validator, and the latest attempt of each
  node of a run. Layout positions are left out. The messages of the validator are
  constructors that carry their parameters.
\<close>

section \<open>The graph\<close>

datatype node_kind = K_Trigger | K_Agent | K_Approval | K_Goal_Handoff | K_Skill | K_Tool | K_Output

definition MAIN_FLOW_KINDS :: "node_kind list" where
  "MAIN_FLOW_KINDS = [K_Trigger, K_Agent, K_Approval, K_Goal_Handoff, K_Output]"

datatype port = Main | Ai_Skill | Ai_Tool

datatype trigger_source = Src_Manual | Src_Mention | Src_Tool

datatype tasks_from = From_Json | From_Template

datatype output_format = Fmt_Markdown | Fmt_Text | Fmt_Table | Fmt_Json | Fmt_Csv

record agent_config =
  ac_agentId :: string
  ac_prompt :: string
  ac_outputPath :: "string option"
  ac_requiresApproval :: bool

record handoff_config =
  hc_titleTemplate :: string
  hc_tasksFrom :: tasks_from
  hc_tasksTemplate :: "string option"

record output_config =
  oc_format :: output_format
  oc_instructions :: "string option"
  oc_outputPath :: "string option"

datatype node_config =
    C_Trigger trigger_source
  | C_Agent agent_config
  | C_Approval (apc_prompt: "string option") (apc_approver: "string option")
  | C_Goal_Handoff handoff_config
  | C_Skill (sc_skillName: string) (sc_arguments: "json option")
  | C_Tool (tc_toolId: string)
  | C_Output output_config

record workflow_node =
  wn_id :: string
  wn_label :: "string option"
  wn_config :: node_config

fun config_kind :: "node_config \<Rightarrow> node_kind" where
  "config_kind (C_Trigger _) = K_Trigger"
| "config_kind (C_Agent _) = K_Agent"
| "config_kind (C_Approval _ _) = K_Approval"
| "config_kind (C_Goal_Handoff _) = K_Goal_Handoff"
| "config_kind (C_Skill _ _) = K_Skill"
| "config_kind (C_Tool _) = K_Tool"
| "config_kind (C_Output _) = K_Output"

abbreviation wn_kind :: "workflow_node \<Rightarrow> node_kind" where
  "wn_kind n \<equiv> config_kind (wn_config n)"

record workflow_edge =
  we_id :: string
  we_source :: string
  we_sourcePort :: port
  we_target :: string
  we_targetPort :: port

record workflow_graph =
  wg_nodes :: "workflow_node list"
  wg_edges :: "workflow_edge list"

definition workflowPortForNodeKind :: "node_kind option \<Rightarrow> port" where
  "workflowPortForNodeKind kind =
     (if kind = Some K_Skill then Ai_Skill else if kind = Some K_Tool then Ai_Tool else Main)"

text \<open>An edge before normalisation: a port is \<open>None\<close> when absent or not a known port.\<close>

record raw_edge =
  re_id :: string
  re_source :: string
  re_sourcePort :: "port option"
  re_target :: string
  re_targetPort :: "port option"

text \<open>\<open>new Map(nodes.map(...))\<close>: the last node with an id wins.\<close>

definition nodes_by_id :: "workflow_node list \<Rightarrow> string \<Rightarrow> workflow_node option" where
  "nodes_by_id nodes = fold (\<lambda>n m. m(wn_id n \<mapsto> n)) nodes Map.empty"

definition normalize_edge :: "workflow_node list \<Rightarrow> raw_edge \<Rightarrow> workflow_edge" where
  "normalize_edge nodes e =
     (let p = coalesce (or_default (re_targetPort e) (re_sourcePort e))
                (workflowPortForNodeKind (map_option wn_kind (nodes_by_id nodes (re_source e))))
      in \<lparr>we_id = re_id e, we_source = re_source e, we_sourcePort = p,
          we_target = re_target e, we_targetPort = p\<rparr>)"

definition normalizeWorkflowGraph :: "workflow_node list \<Rightarrow> raw_edge list \<Rightarrow> workflow_graph" where
  "normalizeWorkflowGraph nodes edges =
     \<lparr>wg_nodes = nodes, wg_edges = map (normalize_edge nodes) edges\<rparr>"

text \<open>A stored graph, read again as raw edges.\<close>

definition raw_of :: "workflow_edge \<Rightarrow> raw_edge" where
  "raw_of e = \<lparr>re_id = we_id e, re_source = we_source e, re_sourcePort = Some (we_sourcePort e),
     re_target = we_target e, re_targetPort = Some (we_targetPort e)\<rparr>"

section \<open>Template tokens\<close>

datatype token_field = F_Output | F_Summary | F_Json

datatype workflow_token =
    T_Input
  | T_Workflow_Run_Id
  | T_Self_Output
  | T_Node string token_field

definition token_field_of :: "string \<Rightarrow> token_field option" where
  "token_field_of s =
     (if s = ''output'' then Some F_Output
      else if s = ''summary'' then Some F_Summary
      else if s = ''json'' then Some F_Json else None)"

text \<open>The class \<open>[A-Za-z0-9_-]\<close>.\<close>

definition is_id_char :: "char \<Rightarrow> bool" where
  "is_id_char c = (is_word c \<or> c = CHR ''-'')"

definition parseWorkflowToken :: "string \<Rightarrow> workflow_token option" where
  "parseWorkflowToken expr =
     (let trimmed = trim expr in
      if trimmed = ''input'' then Some T_Input
      else if trimmed = ''workflow_run_id'' then Some T_Workflow_Run_Id
      else if trimmed = ''node.output'' then Some T_Self_Output
      else case split_char (CHR ''.'') trimmed of
             [a, nodeId, field] \<Rightarrow>
               if a = ''nodes'' \<and> nodeId \<noteq> [] \<and> list_all is_id_char nodeId
               then map_option (T_Node nodeId) (token_field_of field)
               else None
           | _ \<Rightarrow> None)"

definition open_brace :: char where "open_brace = CHR 0x7B"
definition close_brace :: char where "close_brace = CHR 0x7D"

text \<open>
  The matches of \<open>/\{\{\s*([^}]+?)\s*\}\}/g\<close>: what is matched and its group. The group cannot
  contain a closing brace, so a match that begins at a place ends at the first one after it.
  The white space around the group, which the parser trims, is left with it.
\<close>

function token_matches :: "string \<Rightarrow> (string \<times> string) list" where
  "token_matches s =
     (if s = [] then []
      else
      let body = takeWhile (\<lambda>c. c \<noteq> close_brace) (drop 2 s);
          rest = dropWhile (\<lambda>c. c \<noteq> close_brace) (drop 2 s)
      in if take 2 s = [open_brace, open_brace] \<and> body \<noteq> [] \<and> take 2 rest = [close_brace, close_brace]
         then ([open_brace, open_brace] @ body @ [close_brace, close_brace], body)
                # token_matches (drop 2 rest)
         else token_matches (tl s))"
  by pat_completeness auto
termination
proof (relation "measure length", goal_cases)
  case (2 s body rest)
  then have "length rest \<le> length (drop 2 s)"
    by (metis length_dropWhile_le)
  with 2(1) show ?case by (cases s) auto
qed auto

declare token_matches.simps [simp del]

definition extractWorkflowTokens :: "string \<Rightarrow> (string \<times> workflow_token option) list" where
  "extractWorkflowTokens text = map (\<lambda>(raw, expr). (raw, parseWorkflowToken expr)) (token_matches text)"

section \<open>Validation\<close>

datatype validation_issue =
    Duplicate_Node_Id string
  | Missing_Trigger
  | Multiple_Triggers nat
  | Edge_Unknown_Source string string
  | Edge_Unknown_Target string string
  | Subnode_Target_Not_Agent string port string node_kind
  | Subnode_Source_Mismatch string port string node_kind
  | Subnode_On_Main_Flow string string node_kind
  | Main_Flow_Cycle
  | Incomplete_Node string
  | Unknown_Agent string string
  | Unknown_Skill string string
  | Unknown_Tool string string
  | Output_Path_Escape string
  | Bad_Token string string
  | Token_Unknown_Node string string string
  | Token_Not_Upstream string string string

record validation_context =
  vc_agentIds :: "string set option"
  vc_skillNames :: "string set option"
  vc_toolIds :: "string set option"

definition is_letter :: "char \<Rightarrow> bool" where
  "is_letter c = (is_upper c \<or> is_lower c)"

definition isUnsafeWorkspacePath :: "string \<Rightarrow> bool" where
  "isUnsafeWorkspacePath p =
     (if p = [] then False
      else if starts_with p ''/'' \<or>
        (case p of a # b # c # _ \<Rightarrow> is_letter a \<and> b = CHR 0x3A \<and> (c = CHR 0x5C \<or> c = CHR 0x2F) | _ \<Rightarrow> False)
      then True
      else list_ex (\<lambda>s. s = ''..'')
             (split_char (CHR 0x2F) (map (\<lambda>c. if c = CHR 0x5C then CHR 0x2F else c) p)))"

fun duplicate_issues :: "string set \<Rightarrow> workflow_node list \<Rightarrow> validation_issue list" where
  "duplicate_issues seen [] = []"
| "duplicate_issues seen (n # ns) =
     (if wn_id n \<in> seen then [Duplicate_Node_Id (wn_id n)] else []) @
     duplicate_issues (insert (wn_id n) seen) ns"

definition trigger_issues :: "workflow_node list \<Rightarrow> validation_issue list" where
  "trigger_issues nodes =
     (let triggers = length (filter (\<lambda>n. wn_kind n = K_Trigger) nodes)
      in if triggers = 0 then [Missing_Trigger]
         else if triggers > 1 then [Multiple_Triggers triggers] else [])"

definition edge_issues ::
  "(string \<Rightarrow> workflow_node option) \<Rightarrow> workflow_edge \<Rightarrow> validation_issue list" where
  "edge_issues byId edge =
     (case (byId (we_source edge), byId (we_target edge)) of
        (Some src, Some dst) \<Rightarrow>
          (let p = we_targetPort edge in
           if p = Ai_Skill \<or> p = Ai_Tool
           then (let wantSource = (if p = Ai_Skill then K_Skill else K_Tool)
                 in (if wn_kind dst \<noteq> K_Agent
                     then [Subnode_Target_Not_Agent (we_id edge) p (we_target edge) (wn_kind dst)] else []) @
                    (if wn_kind src \<noteq> wantSource
                     then [Subnode_Source_Mismatch (we_id edge) p (we_source edge) (wn_kind src)] else []))
           else (if wn_kind src \<notin> set MAIN_FLOW_KINDS
                 then [Subnode_On_Main_Flow (we_id edge) (we_source edge) (wn_kind src)] else []) @
                (if wn_kind dst \<notin> set MAIN_FLOW_KINDS
                 then [Subnode_On_Main_Flow (we_id edge) (we_target edge) (wn_kind dst)] else []))
      | (src, dst) \<Rightarrow>
          (if src = None then [Edge_Unknown_Source (we_id edge) (we_source edge)] else []) @
          (if dst = None then [Edge_Unknown_Target (we_id edge) (we_target edge)] else []))"

definition main_keys :: "workflow_graph \<Rightarrow> string list" where
  "main_keys g = uniq (map wn_id (wg_nodes g))"

definition main_adj :: "workflow_graph \<Rightarrow> string \<Rightarrow> string list" where
  "main_adj g i =
     map we_target
       (filter (\<lambda>e. we_targetPort e = Main \<and> nodes_by_id (wg_nodes g) (we_source e) \<noteq> None \<and>
                    nodes_by_id (wg_nodes g) (we_target e) \<noteq> None \<and> we_source e = i) (wg_edges g))"

definition token_issues ::
  "(string \<Rightarrow> workflow_node option) \<Rightarrow> string \<Rightarrow> string set \<Rightarrow> string \<times> workflow_token option
   \<Rightarrow> validation_issue list" where
  "token_issues byId nodeId anc rt =
     (case snd rt of
        None \<Rightarrow> [Bad_Token nodeId (fst rt)]
      | Some (T_Node ref field) \<Rightarrow>
          if byId ref = None then [Token_Unknown_Node nodeId ref (fst rt)]
          else if ref \<notin> anc then [Token_Not_Upstream nodeId ref (fst rt)] else []
      | Some _ \<Rightarrow> [])"

definition checkTokens ::
  "(string \<Rightarrow> workflow_node option) \<Rightarrow> string \<Rightarrow> string set \<Rightarrow> string \<Rightarrow> validation_issue list" where
  "checkTokens byId nodeId anc text = concat (map (token_issues byId nodeId anc) (extractWorkflowTokens text))"

text \<open>An optional path or template: the empty string counts as absent.\<close>

definition truthy :: "string option \<Rightarrow> string list" where
  "truthy s = (case s of None \<Rightarrow> [] | Some x \<Rightarrow> if x = [] then [] else [x])"

definition ref_issues ::
  "string \<Rightarrow> string \<Rightarrow> string set option \<Rightarrow> validation_issue \<Rightarrow> validation_issue list" where
  "ref_issues nodeId ref known unknown_issue =
     (if trim ref = [] then [Incomplete_Node nodeId]
      else case known of Some k \<Rightarrow> if ref \<in> k then [] else [unknown_issue] | None \<Rightarrow> [])"

definition path_issues ::
  "(string \<Rightarrow> workflow_node option) \<Rightarrow> string \<Rightarrow> string set \<Rightarrow> string option \<Rightarrow> validation_issue list \<Rightarrow> validation_issue list" where
  "path_issues byId nodeId anc path between =
     concat (map (\<lambda>p. if isUnsafeWorkspacePath p then [Output_Path_Escape nodeId] else []) (truthy path)) @
     between @ concat (map (checkTokens byId nodeId anc) (truthy path))"

definition node_issues ::
  "(string \<Rightarrow> workflow_node option) \<Rightarrow> (string \<Rightarrow> string set) \<Rightarrow> validation_context \<Rightarrow> workflow_node
   \<Rightarrow> validation_issue list" where
  "node_issues byId ancestors ctx node =
     (let i = wn_id node; anc = ancestors i in
      case wn_config node of
        C_Agent cfg \<Rightarrow>
          ref_issues i (ac_agentId cfg) (vc_agentIds ctx) (Unknown_Agent i (ac_agentId cfg)) @
          path_issues byId i anc (ac_outputPath cfg) (checkTokens byId i anc (ac_prompt cfg))
      | C_Skill name _ \<Rightarrow> ref_issues i name (vc_skillNames ctx) (Unknown_Skill i name)
      | C_Tool tool \<Rightarrow> ref_issues i tool (vc_toolIds ctx) (Unknown_Tool i tool)
      | C_Goal_Handoff cfg \<Rightarrow>
          checkTokens byId i anc (hc_titleTemplate cfg) @
          concat (map (checkTokens byId i anc) (truthy (hc_tasksTemplate cfg)))
      | C_Output cfg \<Rightarrow> path_issues byId i anc (oc_outputPath cfg) []
      | _ \<Rightarrow> [])"

definition validateWorkflowGraph :: "validation_context \<Rightarrow> workflow_graph \<Rightarrow> validation_issue list" where
  "validateWorkflowGraph ctx g =
     (let byId = nodes_by_id (wg_nodes g) in
      duplicate_issues {} (wg_nodes g) @
      trigger_issues (wg_nodes g) @
      concat (map (edge_issues byId) (wg_edges g)) @
      (if hasCycle (main_keys g) (main_adj g) then [Main_Flow_Cycle] else []) @
      concat (map (node_issues byId (computeAncestors (main_keys g) (main_adj g)) ctx) (wg_nodes g)))"

definition graph_ok :: "validation_context \<Rightarrow> workflow_graph \<Rightarrow> bool" where
  "graph_ok ctx g = (validateWorkflowGraph ctx g = [])"

section \<open>Runs of nodes\<close>

datatype run_status = Run_Running | Run_Awaiting_Approval | Run_Paused | Run_Completed | Run_Failed

datatype node_status = Nr_Pending | Nr_Running | Nr_Awaiting_Approval | Nr_Completed | Nr_Failed | Nr_Skipped

record node_run =
  nr_id :: string
  nr_workflowRunId :: string
  nr_nodeId :: string
  nr_attempt :: int
  nr_kind :: node_kind
  nr_agentId :: "string option"
  nr_childRunId :: "string option"
  nr_outputPath :: "string option"
  nr_outputSha256 :: "string option"
  nr_outputSizeBytes :: "int option"
  nr_outputJson :: "json option"
  nr_summary :: "string option"
  nr_approvalRequestId :: "string option"
  nr_status :: node_status
  nr_failureReason :: "string option"
  nr_startedAt :: int
  nr_completedAt :: "int option"

text \<open>The latest attempt per node, in the order of the keys of the code's \<open>Map\<close>.\<close>

definition later_run :: "node_run \<Rightarrow> (string \<times> node_run) list \<Rightarrow> (string \<times> node_run) list" where
  "later_run nr latest =
     (case kv_get latest (nr_nodeId nr) of
        None \<Rightarrow> kv_put (nr_nodeId nr) nr latest
      | Some previous \<Rightarrow>
          if nr_attempt nr \<ge> nr_attempt previous then kv_put (nr_nodeId nr) nr latest else latest)"

definition latestNodeRuns :: "node_run list \<Rightarrow> (string \<times> node_run) list" where
  "latestNodeRuns nodeRuns = fold later_run nodeRuns []"

section \<open>Laws of graphs\<close>

lemma nodes_by_id_snoc: "nodes_by_id (ns @ [n]) = (nodes_by_id ns)(wn_id n \<mapsto> n)"
  by (simp add: nodes_by_id_def)

lemma nodes_by_id_Nil [simp]: "nodes_by_id [] i = None"
  by (simp add: nodes_by_id_def)

lemma nodes_by_id_Some: "nodes_by_id ns i = Some n \<Longrightarrow> n \<in> set ns \<and> wn_id n = i"
  by (induction ns rule: rev_induct) (auto simp: nodes_by_id_snoc split: if_splits)

lemma nodes_by_id_None: "nodes_by_id ns i = None \<longleftrightarrow> i \<notin> wn_id ` set ns"
  by (induction ns rule: rev_induct) (auto simp: nodes_by_id_snoc)

lemma nodes_by_id_distinct:
  "distinct (map wn_id ns) \<Longrightarrow> n \<in> set ns \<Longrightarrow> nodes_by_id ns (wn_id n) = Some n"
proof (induction ns rule: rev_induct)
  case (snoc x xs)
  show ?case
  proof (cases "n = x")
    case False
    with snoc.prems have n: "n \<in> set xs" by simp
    then have "wn_id n \<in> wn_id ` set xs" by (rule imageI)
    with snoc.prems have "wn_id n \<noteq> wn_id x" by auto
    with n snoc show ?thesis by (simp add: nodes_by_id_snoc)
  qed (simp add: nodes_by_id_snoc)
qed simp

lemma set_main_keys [simp]: "set (main_keys g) = wn_id ` set (wg_nodes g)"
  by (simp add: main_keys_def)

text \<open>An edge of the main flow between existing nodes.\<close>

definition main_edges :: "workflow_graph \<Rightarrow> (string \<times> string) set" where
  "main_edges g = edges_of (main_adj g)"

lemma main_edges_iff:
  "(x, y) \<in> main_edges g \<longleftrightarrow>
     (\<exists>e \<in> set (wg_edges g). we_targetPort e = Main \<and> we_source e = x \<and> we_target e = y) \<and>
     x \<in> wn_id ` set (wg_nodes g) \<and> y \<in> wn_id ` set (wg_nodes g)"
  by (auto simp: main_edges_def edges_of_def main_adj_def nodes_by_id_None image_iff simp del: not_None_eq)

lemma main_graph_wf: "graph_wf (main_keys g) (main_adj g)"
  using main_edges_iff [of _ _ g] by (auto simp: graph_wf_def main_edges_def edges_of_def)

lemma raw_of_port [simp]:
  "re_source (raw_of e) = we_source e" "re_targetPort (raw_of e) = Some (we_targetPort e)"
  by (simp_all add: raw_of_def)

lemma normalize_raw_of:
  "we_sourcePort e = we_targetPort e \<Longrightarrow> normalize_edge nodes (raw_of e) = e"
  by (cases e) (simp add: normalize_edge_def raw_of_def Let_def)

lemma normalize_again:
  "normalizeWorkflowGraph nodes (map raw_of (wg_edges (normalizeWorkflowGraph nodes es)))
     = normalizeWorkflowGraph nodes es"
  by (auto simp: normalizeWorkflowGraph_def intro!: normalize_raw_of) (auto simp: normalize_edge_def Let_def)

section \<open>Laws of the validator\<close>

lemma duplicate_issues_Nil:
  "duplicate_issues seen ns = [] \<longleftrightarrow> distinct (map wn_id ns) \<and> seen \<inter> wn_id ` set ns = {}"
  by (induction ns arbitrary: seen) auto

lemma trigger_issues_Nil:
  "trigger_issues ns = [] \<longleftrightarrow> length (filter (\<lambda>n. wn_kind n = K_Trigger) ns) = 1"
proof -
  have "length xs = 1 \<longleftrightarrow> length xs \<noteq> 0 \<and> \<not> 1 < length xs" for xs :: "workflow_node list" by linarith
  then show ?thesis by (auto simp: trigger_issues_def Let_def simp del: length_0_conv)
qed

text \<open>An edge between existing nodes whose kinds fit its port.\<close>

definition edge_fits :: "workflow_graph \<Rightarrow> workflow_edge \<Rightarrow> bool" where
  "edge_fits g e \<longleftrightarrow>
     (\<exists>src dst. nodes_by_id (wg_nodes g) (we_source e) = Some src \<and>
        nodes_by_id (wg_nodes g) (we_target e) = Some dst \<and>
        (case we_targetPort e of
           Main \<Rightarrow> wn_kind src \<in> set MAIN_FLOW_KINDS \<and> wn_kind dst \<in> set MAIN_FLOW_KINDS
         | Ai_Skill \<Rightarrow> wn_kind src = K_Skill \<and> wn_kind dst = K_Agent
         | Ai_Tool \<Rightarrow> wn_kind src = K_Tool \<and> wn_kind dst = K_Agent))"

lemma edge_issues_Nil: "edge_issues (nodes_by_id (wg_nodes g)) e = [] \<longleftrightarrow> edge_fits g e"
  by (cases "we_targetPort e"; cases "nodes_by_id (wg_nodes g) (we_source e)";
      cases "nodes_by_id (wg_nodes g) (we_target e)")
    (auto simp: edge_issues_def edge_fits_def Let_def)

lemma cycle_issue:
  "hasCycle (main_keys g) (main_adj g) \<longleftrightarrow> \<not> acyclic (main_edges g)"
  unfolding main_edges_def by (rule hasCycle_iff [OF main_graph_wf])

lemma ancestors_are_upstream:
  "x \<in> computeAncestors (main_keys g) (main_adj g) i \<longleftrightarrow> (x, i) \<in> (main_edges g)\<^sup>+"
  unfolding main_edges_def by (rule computeAncestors_iff [OF main_graph_wf])

text \<open>Every token of a text is known, and one that names a node names an ancestor.\<close>

definition tokens_upstream :: "workflow_graph \<Rightarrow> string \<Rightarrow> string \<Rightarrow> bool" where
  "tokens_upstream g i text \<longleftrightarrow>
     (\<forall>(raw, t) \<in> set (extractWorkflowTokens text). t \<noteq> None \<and>
        (\<forall>ref f. t = Some (T_Node ref f) \<longrightarrow> (ref, i) \<in> (main_edges g)\<^sup>+))"

lemma checkTokens_Nil:
  "checkTokens (nodes_by_id (wg_nodes g)) i (computeAncestors (main_keys g) (main_adj g) i) text = []
     \<longleftrightarrow> tokens_upstream g i text"
proof -
  have known: "ref \<in> wn_id ` set (wg_nodes g)" if "(ref, i) \<in> (main_edges g)\<^sup>+" for ref
    using that main_edges_iff by (metis tranclD)
  have "token_issues (nodes_by_id (wg_nodes g)) i (computeAncestors (main_keys g) (main_adj g) i) rt = []
      \<longleftrightarrow> snd rt \<noteq> None \<and> (\<forall>ref f. snd rt = Some (T_Node ref f) \<longrightarrow> (ref, i) \<in> (main_edges g)\<^sup>+)" for rt
    using known
    by (auto simp: token_issues_def ancestors_are_upstream nodes_by_id_None
        split: option.splits workflow_token.splits)
  then show ?thesis by (auto simp: checkTokens_def tokens_upstream_def)
qed

text \<open>The templates of a node.\<close>

fun node_texts :: "node_config \<Rightarrow> string list" where
  "node_texts (C_Agent cfg) = ac_prompt cfg # truthy (ac_outputPath cfg)"
| "node_texts (C_Goal_Handoff cfg) = hc_titleTemplate cfg # truthy (hc_tasksTemplate cfg)"
| "node_texts (C_Output cfg) = truthy (oc_outputPath cfg)"
| "node_texts _ = []"

fun output_paths :: "node_config \<Rightarrow> string list" where
  "output_paths (C_Agent cfg) = truthy (ac_outputPath cfg)"
| "output_paths (C_Output cfg) = truthy (oc_outputPath cfg)"
| "output_paths _ = []"

lemma node_issues_Nil:
  assumes "node_issues (nodes_by_id (wg_nodes g)) (computeAncestors (main_keys g) (main_adj g)) ctx n = []"
  shows "(\<forall>t \<in> set (node_texts (wn_config n)). tokens_upstream g (wn_id n) t) \<and>
    (\<forall>p \<in> set (output_paths (wn_config n)). \<not> isUnsafeWorkspacePath p)"
  using assms
  by (cases "wn_config n")
    (auto simp: node_issues_def path_issues_def Let_def checkTokens_Nil split: if_splits)

lemma graph_ok_parts:
  assumes "graph_ok ctx g"
  shows "distinct (map wn_id (wg_nodes g))"
    and "length (filter (\<lambda>n. wn_kind n = K_Trigger) (wg_nodes g)) = 1"
    and "\<forall>e \<in> set (wg_edges g). edge_fits g e"
    and "acyclic (main_edges g)"
    and "\<forall>n \<in> set (wg_nodes g). (\<forall>t \<in> set (node_texts (wn_config n)). tokens_upstream g (wn_id n) t) \<and>
      (\<forall>p \<in> set (output_paths (wn_config n)). \<not> isUnsafeWorkspacePath p)"
proof -
  from assms have no: "validateWorkflowGraph ctx g = []" by (simp add: graph_ok_def)
  then show "distinct (map wn_id (wg_nodes g))"
    by (simp add: validateWorkflowGraph_def Let_def duplicate_issues_Nil)
  from no show "length (filter (\<lambda>n. wn_kind n = K_Trigger) (wg_nodes g)) = 1"
    by (simp add: validateWorkflowGraph_def Let_def trigger_issues_Nil)
  from no show "\<forall>e \<in> set (wg_edges g). edge_fits g e"
    by (simp add: validateWorkflowGraph_def Let_def edge_issues_Nil)
  from no show "acyclic (main_edges g)"
    by (simp add: validateWorkflowGraph_def Let_def cycle_issue split: if_splits)
  from no show "\<forall>n \<in> set (wg_nodes g). (\<forall>t \<in> set (node_texts (wn_config n)). tokens_upstream g (wn_id n) t) \<and>
      (\<forall>p \<in> set (output_paths (wn_config n)). \<not> isUnsafeWorkspacePath p)"
    by (auto simp: validateWorkflowGraph_def Let_def dest!: node_issues_Nil)
qed

section \<open>Laws of latest runs\<close>

lemma latestNodeRuns_snoc: "latestNodeRuns (rows @ [nr]) = later_run nr (latestNodeRuns rows)"
  by (simp add: latestNodeRuns_def)

definition latest_run :: "node_run list \<Rightarrow> string \<Rightarrow> node_run option" where
  "latest_run rows i = kv_get (latestNodeRuns rows) i"

lemma latest_run_Nil [simp]: "latest_run [] i = None"
  by (simp add: latest_run_def latestNodeRuns_def kv_get_def)

lemma latest_run_snoc:
  "latest_run (rows @ [nr]) i =
     (if nr_nodeId nr = i \<and>
         (case latest_run rows i of None \<Rightarrow> True | Some p \<Rightarrow> nr_attempt nr \<ge> nr_attempt p)
      then Some nr else latest_run rows i)"
  by (auto simp: latest_run_def latestNodeRuns_snoc later_run_def kv.lookup_put split: option.splits)

lemma latest_run_Some:
  "latest_run rows i = Some nr \<Longrightarrow>
     nr \<in> set rows \<and> nr_nodeId nr = i \<and>
     (\<forall>r \<in> set rows. nr_nodeId r = i \<longrightarrow> nr_attempt r \<le> nr_attempt nr)"
proof (induction rows arbitrary: nr rule: rev_induct)
  case (snoc x rows)
  show ?case
  proof (cases "latest_run rows i")
    case None
    have "nr_nodeId r \<noteq> i" if "r \<in> set rows" for r
      using None that
    proof (induction rows rule: rev_induct)
      case (snoc y ys)
      then show ?case by (auto simp: latest_run_snoc split: if_splits option.splits)
    qed simp
    with None snoc.prems show ?thesis by (auto simp: latest_run_snoc split: if_splits)
  next
    case (Some p)
    with snoc show ?thesis by (fastforce simp: latest_run_snoc split: if_splits)
  qed
qed simp

lemma latest_run_None: "latest_run rows i = None \<longleftrightarrow> i \<notin> nr_nodeId ` set rows"
proof (induction rows rule: rev_induct)
  case (snoc x rows)
  then show ?case by (auto simp: latest_run_snoc split: option.splits)
qed simp

text \<open>With at most one row per attempt, the latest run does not depend on the row order.\<close>

definition attempts_unique :: "node_run list \<Rightarrow> bool" where
  "attempts_unique rows \<longleftrightarrow>
     (\<forall>a \<in> set rows. \<forall>b \<in> set rows. nr_nodeId a = nr_nodeId b \<longrightarrow> nr_attempt a = nr_attempt b \<longrightarrow> a = b)"

lemma latest_run_eqI:
  assumes "attempts_unique rows" and "nr \<in> set rows" and "nr_nodeId nr = i"
    and "\<forall>r \<in> set rows. nr_nodeId r = i \<longrightarrow> nr_attempt r \<le> nr_attempt nr"
  shows "latest_run rows i = Some nr"
proof (cases "latest_run rows i")
  case None
  with assms(2,3) show ?thesis by (auto simp: latest_run_None)
next
  case (Some p)
  note p = latest_run_Some [OF Some]
  with assms have "nr_attempt p = nr_attempt nr" by force
  with p assms(1-3) have "p = nr" by (auto simp: attempts_unique_def)
  with Some show ?thesis by simp
qed

end
