(* ===== verification/WorkflowNodes.thy ===== *)
theory WorkflowNodes
  imports Workflows
begin

text \<open>
  The pure helpers of the workflow engine
  (\<open>packages/orchestrator/src/services/workflow-node-executors.ts\<close>): sub-nodes attached to
  an agent, the envelopes of completed nodes, substitution of template tokens, and the goal
  a hand-off node starts. \<open>JSON.parse\<close> is the argument \<open>parse\<close>. The prose of the wake
  context is not modelled.
\<close>

record node_output =
  no_summary :: string
  no_output_file :: "string option"
  no_json :: "json option"

type_synonym node_outputs = "(string \<times> node_output) list"

definition resolveAttachedSubnodes ::
  "workflow_graph \<Rightarrow> string \<Rightarrow> (string \<times> json option) list \<times> string list" where
  "resolveAttachedSubnodes g agentNodeId =
     (let byId = nodes_by_id (wg_nodes g);
          attached = filter (\<lambda>e. we_target e = agentNodeId) (wg_edges g)
      in (List.map_filter (\<lambda>e. if we_targetPort e \<noteq> Ai_Skill then None
            else case byId (we_source e) of
                   None \<Rightarrow> None
                 | Some src \<Rightarrow> (case wn_config src of C_Skill name args \<Rightarrow> Some (name, args) | _ \<Rightarrow> None))
            attached,
          List.map_filter (\<lambda>e. if we_targetPort e \<noteq> Ai_Tool then None
            else case byId (we_source e) of
                   None \<Rightarrow> None
                 | Some src \<Rightarrow> (case wn_config src of C_Tool i \<Rightarrow> Some i | _ \<Rightarrow> None))
            attached))"

definition buildNodeOutputs :: "node_run list \<Rightarrow> node_outputs" where
  "buildNodeOutputs nodeRuns =
     List.map_filter (\<lambda>(nodeId, nr).
       if nr_status nr \<noteq> Nr_Completed then None
       else Some (nodeId, \<lparr>no_summary = coalesce (nr_summary nr) [],
              no_output_file = nr_outputPath nr, no_json = nr_outputJson nr\<rparr>))
       (latestNodeRuns nodeRuns)"

record token_context =
  tk_input :: string
  tk_workflowRunId :: string
  tk_selfOutput :: "string option"
  tk_outputs :: node_outputs

text \<open>\<open>s.split(pattern).join(value)\<close> for a pattern that is not empty.\<close>

function replace_all :: "string \<Rightarrow> string \<Rightarrow> string \<Rightarrow> string" where
  "replace_all p v [] = []"
| "replace_all p v (c # cs) =
     (if p \<noteq> [] \<and> starts_with (c # cs) p then v @ replace_all p v (drop (length p) (c # cs))
      else c # replace_all p v cs)"
  by pat_completeness auto
termination by (relation "measure (\<lambda>(p, v, s). length s)") auto

definition token_value :: "token_context \<Rightarrow> workflow_token \<Rightarrow> string" where
  "token_value ctx t =
     (case t of
        T_Input \<Rightarrow> tk_input ctx
      | T_Workflow_Run_Id \<Rightarrow> tk_workflowRunId ctx
      | T_Self_Output \<Rightarrow> coalesce (tk_selfOutput ctx) []
      | T_Node nodeId field \<Rightarrow>
          (let out = kv_get (tk_outputs ctx) nodeId
           in case field of
                F_Output \<Rightarrow> (case out of None \<Rightarrow> [] | Some x \<Rightarrow> coalesce (no_output_file x) [])
              | F_Summary \<Rightarrow> (case out of None \<Rightarrow> [] | Some x \<Rightarrow> no_summary x)
              | F_Json \<Rightarrow> stringify (case out of None \<Rightarrow> JNull | Some x \<Rightarrow> coalesce (no_json x) JNull)))"

definition resolveTokens :: "string \<Rightarrow> token_context \<Rightarrow> string" where
  "resolveTokens text ctx =
     fold (\<lambda>(raw, token) result.
         case token of None \<Rightarrow> result | Some t \<Rightarrow> replace_all raw (token_value ctx t) result)
       (extractWorkflowTokens text) text"

definition defaultAgentOutputPath :: "string \<Rightarrow> string \<Rightarrow> string" where
  "defaultAgentOutputPath workflowRunId nodeId =
     ''workflows/'' @ workflowRunId @ ''/'' @ nodeId @ ''.md''"

definition findDownstreamOutputSpec :: "workflow_graph \<Rightarrow> string \<Rightarrow> (output_config \<times> string) option" where
  "findDownstreamOutputSpec g agentNodeId =
     first_some (map (\<lambda>e.
       if we_source e \<noteq> agentNodeId \<or> we_targetPort e \<noteq> Main then None
       else case nodes_by_id (wg_nodes g) (we_target e) of
              None \<Rightarrow> None
            | Some dst \<Rightarrow> (case wn_config dst of C_Output cfg \<Rightarrow> Some (cfg, wn_id dst) | _ \<Rightarrow> None))
       (wg_edges g))"

definition json_tasks :: "json option \<Rightarrow> json list option" where
  "json_tasks j =
     (case j of
        Some (JObj kvs) \<Rightarrow> (case obj_get kvs ''tasks'' of Some (JArr ts) \<Rightarrow> Some ts | _ \<Rightarrow> None)
      | _ \<Rightarrow> None)"

definition resolveGoalHandoff ::
  "(string \<Rightarrow> json option) \<Rightarrow> handoff_config \<Rightarrow> token_context \<Rightarrow> string \<times> json list" where
  "resolveGoalHandoff parse cfg ctx =
     (resolveTokens (hc_titleTemplate cfg) ctx,
      if hc_tasksFrom cfg = From_Template \<and> truthy (hc_tasksTemplate cfg) \<noteq> []
      then (case parse (resolveTokens (coalesce (hc_tasksTemplate cfg) []) ctx) of
              Some (JArr ts) \<Rightarrow> ts | _ \<Rightarrow> [])
      else fold (\<lambda>(_, out) tasks. coalesce (json_tasks (no_json out)) tasks) (tk_outputs ctx) [])"

end
