(* ===== verification/WorkflowEngine.thy ===== *)
theory WorkflowEngine
  imports WorkflowNodes
begin

text \<open>
  The workflow engine (\<open>packages/orchestrator/src/services/workflow-engine.ts\<close>) over its
  store (\<open>packages/runtime-core/src/repositories/workflow-store.ts\<close>). One handler runs
  from its call to its end without another in between. An action yields the new state and
  how it ended: \<open>Go\<close>, an exception \<open>Threw\<close>, or \<open>No_Fuel\<close> where the recursion of the step
  function was cut, which the laws exclude. The snapshot of the graph is the graph itself.
  Snapshots published to realtime consumers and hashes are left out; the other effects are
  recorded in a log. The effects that only inform do not throw; a long dash in one of their
  texts is written as a hyphen.
\<close>

section \<open>State\<close>

record workflow_run =
  wr_id :: string
  wr_organizationId :: string
  wr_definitionId :: "string option"
  wr_name :: string
  wr_graph :: workflow_graph
  wr_input :: "string option"
  wr_status :: run_status
  wr_initiatedBy :: string
  wr_channelId :: string
  wr_threadId :: string
  wr_originThreadId :: "string option"
  wr_lastTransitionToken :: "string option"
  wr_createdAt :: int
  wr_updatedAt :: int

record workflow_definition =
  wd_id :: string
  wd_organizationId :: string
  wd_channelId :: "string option"
  wd_name :: string
  wd_nodes :: "workflow_node list"
  wd_edges :: "raw_edge list"

record spawn_input =
  si_workflowRunId :: string
  si_nodeRunId :: string
  si_nodeId :: string
  si_agentId :: string
  si_childRunId :: string
  si_prompt :: string
  si_toolIds :: "string list"
  si_skills :: "(string \<times> json option) list"
  si_outputPath :: string
  si_outputSpec :: "output_config option"

datatype effect =
    Ef_Thread string "string list"
  | Ef_Run_Card string
  | Ef_Run_Update string run_status
  | Ef_Spawn spawn_input
  | Ef_Approval string "string option" "string option"
  | Ef_Approver string string "string option" "string option"
  | Ef_Goal string string "json list"
  | Ef_Notify string string "string option"

record engine_state =
  es_defs :: "workflow_definition list"
  es_runs :: "workflow_run list"
  es_nodes :: "node_run list"
  es_next :: nat
  es_log :: "effect list"
  es_lastReminder :: "string \<Rightarrow> int option"
  es_reminderCount :: "string \<Rightarrow> nat option"

text \<open>
  The outside: the draws of \<open>randomUUID\<close>, the clock, and what the effects answer, an error
  message or a result; calls are told apart by the draws before them.
\<close>

record engine_env =
  en_uuid :: "nat \<Rightarrow> string"
  en_now :: int
  en_spawn :: "spawn_input \<Rightarrow> string option"
  en_approval :: "nat \<Rightarrow> string + string"
  en_goal :: "nat \<Rightarrow> string + string"
  en_thread :: "nat \<Rightarrow> string + string"
  en_stat :: "string \<Rightarrow> (string \<times> int) option"
  en_runStatus :: "string \<Rightarrow> string option"
  en_parse :: "string \<Rightarrow> json option"

datatype flow = Go | Threw | No_Fuel

type_synonym action = "engine_state \<Rightarrow> engine_state \<times> flow"

definition go :: action where
  "go st = (st, Go)"

definition and_then :: "engine_state \<times> flow \<Rightarrow> action \<Rightarrow> engine_state \<times> flow" where
  "and_then r f = (case r of (st, Go) \<Rightarrow> f st | (st, x) \<Rightarrow> (st, x))"

fun each :: "('a \<Rightarrow> action) \<Rightarrow> 'a list \<Rightarrow> action" where
  "each f [] st = (st, Go)"
| "each f (x # xs) st = and_then (f x st) (each f xs)"

section \<open>The store\<close>

definition get_run :: "string \<Rightarrow> string \<Rightarrow> engine_state \<Rightarrow> workflow_run option" where
  "get_run org rid st = find (\<lambda>r. wr_organizationId r = org \<and> wr_id r = rid) (es_runs st)"

text \<open>An existing run keeps everything but its status, token and time of change.\<close>

definition save_run :: "workflow_run \<Rightarrow> engine_state \<Rightarrow> engine_state" where
  "save_run run st = st\<lparr>es_runs := tbl_upsert wr_id
     (\<lambda>old new. old\<lparr>wr_status := wr_status new, wr_lastTransitionToken := wr_lastTransitionToken new,
                    wr_updatedAt := wr_updatedAt new\<rparr>) run (es_runs st)\<rparr>"

definition list_runs_by_status :: "string \<Rightarrow> run_status list \<Rightarrow> engine_state \<Rightarrow> workflow_run list" where
  "list_runs_by_status org statuses st =
     sort_cmp (by_int_desc wr_updatedAt)
       (filter (\<lambda>r. wr_organizationId r = org \<and> wr_status r \<in> set statuses) (es_runs st))"

definition merge_node_run :: "node_run \<Rightarrow> node_run \<Rightarrow> node_run" where
  "merge_node_run old new = new\<lparr>nr_id := nr_id old, nr_workflowRunId := nr_workflowRunId old,
     nr_nodeId := nr_nodeId old, nr_attempt := nr_attempt old, nr_kind := nr_kind old\<rparr>"

text \<open>
  Rows are unique by id and by run, node and attempt; only a conflict of ids is an update,
  the other one makes the statement throw (\<open>None\<close>).
\<close>

definition save_node :: "node_run \<Rightarrow> engine_state \<Rightarrow> engine_state option" where
  "save_node nr st =
     (if nr_id nr \<in> nr_id ` set (es_nodes st)
      then Some (st\<lparr>es_nodes := tbl_upsert nr_id merge_node_run nr (es_nodes st)\<rparr>)
      else if \<exists>r \<in> set (es_nodes st). nr_workflowRunId r = nr_workflowRunId nr \<and>
                nr_nodeId r = nr_nodeId nr \<and> nr_attempt r = nr_attempt nr
      then None
      else Some (st\<lparr>es_nodes := es_nodes st @ [nr]\<rparr>))"

definition save_node_action :: "node_run \<Rightarrow> action" where
  "save_node_action nr st = (case save_node nr st of None \<Rightarrow> (st, Threw) | Some st' \<Rightarrow> (st', Go))"

definition get_node :: "string \<Rightarrow> string \<Rightarrow> engine_state \<Rightarrow> node_run option" where
  "get_node rid i st = find (\<lambda>r. nr_workflowRunId r = rid \<and> nr_id r = i) (es_nodes st)"

definition node_order :: "node_run \<Rightarrow> node_run \<Rightarrow> int" where
  "node_order a b = (if nr_startedAt a \<noteq> nr_startedAt b then nr_startedAt a - nr_startedAt b
                     else str_cmp (nr_id a) (nr_id b))"

definition list_nodes :: "string \<Rightarrow> engine_state \<Rightarrow> node_run list" where
  "list_nodes rid st = sort_cmp node_order (filter (\<lambda>r. nr_workflowRunId r = rid) (es_nodes st))"

definition node_by_child :: "string \<Rightarrow> engine_state \<Rightarrow> node_run option" where
  "node_by_child child st =
     (case sort_cmp (by_int_desc nr_attempt) (filter (\<lambda>r. nr_childRunId r = Some child) (es_nodes st)) of
        [] \<Rightarrow> None | r # _ \<Rightarrow> Some r)"

definition channel_cmp :: "workflow_definition \<Rightarrow> workflow_definition \<Rightarrow> int" where
  "channel_cmp a b =
     (if (wd_channelId a = None) \<noteq> (wd_channelId b = None)
      then (if wd_channelId a = None then 1 else -1)
      else str_cmp (wd_name a) (wd_name b))"

definition list_definitions_for_channel ::
  "string \<Rightarrow> string \<Rightarrow> engine_state \<Rightarrow> workflow_definition list" where
  "list_definitions_for_channel org channel st =
     sort_cmp channel_cmp
       (filter (\<lambda>d. wd_organizationId d = org \<and> (wd_channelId d = Some channel \<or> wd_channelId d = None))
         (es_defs st))"

definition get_definition :: "string \<Rightarrow> string \<Rightarrow> engine_state \<Rightarrow> workflow_definition option" where
  "get_definition org i st = find (\<lambda>d. wd_organizationId d = org \<and> wd_id d = i) (es_defs st)"

section \<open>Shared steps\<close>

definition draw :: "engine_state \<Rightarrow> engine_state" where
  "draw st = st\<lparr>es_next := Suc (es_next st)\<rparr>"

definition log_effect :: "effect \<Rightarrow> engine_state \<Rightarrow> engine_state" where
  "log_effect e st = st\<lparr>es_log := es_log st @ [e]\<rparr>"

definition setRunStatus ::
  "engine_env \<Rightarrow> string \<Rightarrow> string \<Rightarrow> run_status \<Rightarrow> string option \<Rightarrow> engine_state \<Rightarrow> engine_state" where
  "setRunStatus env org rid status token st =
     (case get_run org rid st of
        None \<Rightarrow> st
      | Some run \<Rightarrow> save_run (run\<lparr>wr_status := status,
            wr_lastTransitionToken := or_default token (wr_lastTransitionToken run),
            wr_updatedAt := en_now env\<rparr>) st)"

definition notify :: "string \<Rightarrow> string \<Rightarrow> string \<Rightarrow> string option \<Rightarrow> engine_state \<Rightarrow> engine_state" where
  "notify org rid reason nodeId st =
     (case get_run org rid st of None \<Rightarrow> st | Some _ \<Rightarrow> log_effect (Ef_Notify rid reason nodeId) st)"

definition postFailedCard :: "string \<Rightarrow> string \<Rightarrow> engine_state \<Rightarrow> engine_state" where
  "postFailedCard org rid st =
     (case get_run org rid st of None \<Rightarrow> st | Some _ \<Rightarrow> log_effect (Ef_Run_Update rid Run_Failed) st)"

definition active_status :: "node_status \<Rightarrow> bool" where
  "active_status s = (s \<in> {Nr_Pending, Nr_Running, Nr_Awaiting_Approval})"

definition done_status :: "node_status \<Rightarrow> bool" where
  "done_status s = (s \<in> {Nr_Completed, Nr_Skipped})"

definition createWorkflowNodeRun ::
  "string \<Rightarrow> string \<Rightarrow> string \<Rightarrow> int \<Rightarrow> node_kind \<Rightarrow> node_status \<Rightarrow> int \<Rightarrow> node_run" where
  "createWorkflowNodeRun i rid nodeId attempt kind status startedAt =
     \<lparr>nr_id = i, nr_workflowRunId = rid, nr_nodeId = nodeId, nr_attempt = attempt, nr_kind = kind,
      nr_agentId = None, nr_childRunId = None, nr_outputPath = None, nr_outputSha256 = None,
      nr_outputSizeBytes = None, nr_outputJson = None, nr_summary = None, nr_approvalRequestId = None,
      nr_status = status, nr_failureReason = None, nr_startedAt = startedAt, nr_completedAt = None\<rparr>"

definition mainPredecessors :: "workflow_graph \<Rightarrow> string \<Rightarrow> string list" where
  "mainPredecessors g nodeId =
     map we_source (filter (\<lambda>e. we_targetPort e = Main \<and> we_target e = nodeId) (wg_edges g))"

text \<open>The first predecessor with a summary that is not empty, and the first with a file.\<close>

definition nearestUpstreamSummary :: "workflow_graph \<Rightarrow> string \<Rightarrow> node_outputs \<Rightarrow> string option" where
  "nearestUpstreamSummary g nodeId outputs =
     first_some (map (\<lambda>p. case kv_get outputs p of
         None \<Rightarrow> None | Some out \<Rightarrow> if no_summary out = [] then None else Some (no_summary out))
       (mainPredecessors g nodeId))"

definition nearestUpstreamOutput :: "workflow_graph \<Rightarrow> string \<Rightarrow> node_outputs \<Rightarrow> node_output option" where
  "nearestUpstreamOutput g nodeId outputs =
     first_some (map (\<lambda>p. case kv_get outputs p of
         None \<Rightarrow> None | Some out \<Rightarrow> if truthy (no_output_file out) = [] then None else Some out)
       (mainPredecessors g nodeId))"

section \<open>Dispatch\<close>

definition dispatchAgent ::
  "engine_env \<Rightarrow> workflow_run \<Rightarrow> workflow_node \<Rightarrow> agent_config \<Rightarrow> node_outputs \<Rightarrow> int \<Rightarrow> action" where
  "dispatchAgent env run node cfg outputs attempt st0 =
     (let g = wr_graph run; rid = wr_id run; org = wr_organizationId run;
          nodeRunId = en_uuid env (es_next st0); childRunId = en_uuid env (Suc (es_next st0));
          st1 = draw (draw st0);
          base = (createWorkflowNodeRun nodeRunId rid (wn_id node) attempt K_Agent Nr_Pending (en_now env))
                   \<lparr>nr_agentId := Some (ac_agentId cfg)\<rparr>;
          tokenCtx = \<lparr>tk_input = coalesce (wr_input run) [], tk_workflowRunId = rid,
                      tk_selfOutput = None, tk_outputs = outputs\<rparr>;
          outputSpec = map_option fst (findDownstreamOutputSpec g (wn_id node));
          outputPath = resolveTokens
            (coalesce (or_default (case outputSpec of None \<Rightarrow> None | Some c \<Rightarrow> oc_outputPath c)
                         (ac_outputPath cfg)) (defaultAgentOutputPath rid (wn_id node))) tokenCtx;
          prompt = resolveTokens (ac_prompt cfg) (tokenCtx\<lparr>tk_selfOutput := Some outputPath\<rparr>);
          subnodes = resolveAttachedSubnodes g (wn_id node);
          input = \<lparr>si_workflowRunId = rid, si_nodeRunId = nodeRunId, si_nodeId = wn_id node,
                   si_agentId = ac_agentId cfg, si_childRunId = childRunId, si_prompt = prompt,
                   si_toolIds = snd subnodes, si_skills = fst subnodes, si_outputPath = outputPath,
                   si_outputSpec = outputSpec\<rparr>
      in and_then
           (save_node_action (base\<lparr>nr_status := Nr_Running, nr_childRunId := Some childRunId,
              nr_outputPath := Some outputPath\<rparr>) st1)
           (\<lambda>st2. case en_spawn env input of
              None \<Rightarrow> (log_effect (Ef_Spawn input) st2, Go)
            | Some err \<Rightarrow>
                (let current = coalesce (get_node rid nodeRunId st2) base;
                     after = (if done_status (nr_status current) \<or> nr_status current = Nr_Failed
                              then (st2, Go)
                              else and_then
                                (save_node_action (current\<lparr>nr_status := Nr_Failed,
                                   nr_failureReason := Some (''spawn_failed: '' @ err),
                                   nr_completedAt := Some (en_now env)\<rparr>) st2)
                                (\<lambda>st3. (setRunStatus env org rid Run_Paused None st3, Go)))
                 in and_then after (\<lambda>st3.
                      (postFailedCard org rid
                         (notify org rid (''Step '' @ dq (wn_id node) @ '' failed to start'')
                            (Some (wn_id node)) st3), Go)))))"

definition dispatchApproval ::
  "engine_env \<Rightarrow> workflow_run \<Rightarrow> workflow_node \<Rightarrow> string option \<Rightarrow> string option \<Rightarrow> node_outputs \<Rightarrow> int
   \<Rightarrow> action" where
  "dispatchApproval env run node prompt approver outputs attempt st0 =
     (let g = wr_graph run; rid = wr_id run; org = wr_organizationId run;
          nodeRunId = en_uuid env (es_next st0); st1 = draw st0;
          base = createWorkflowNodeRun nodeRunId rid (wn_id node) attempt K_Approval
                   Nr_Awaiting_Approval (en_now env);
          priorSummary = nearestUpstreamSummary g (wn_id node) outputs
      in and_then (save_node_action base st1)
           (\<lambda>st2. case en_approval env (es_next st2) of
              Inl err \<Rightarrow> (st2, Threw)
            | Inr approvalRequestId \<Rightarrow>
                and_then
                  (save_node_action (base\<lparr>nr_approvalRequestId := Some approvalRequestId\<rparr>)
                     (log_effect (Ef_Approval nodeRunId prompt priorSummary) st2))
                  (\<lambda>st3.
                    let st4 = setRunStatus env org rid Run_Awaiting_Approval None st3
                    in (case truthy approver of
                          [] \<Rightarrow> st4
                        | a # _ \<Rightarrow> log_effect (Ef_Approver a (wn_id node) priorSummary
                            (case nearestUpstreamOutput g (wn_id node) outputs of
                               None \<Rightarrow> None | Some out \<Rightarrow> no_output_file out)) st4,
                        Go))))"

definition dispatchGoalHandoff ::
  "engine_env \<Rightarrow> workflow_run \<Rightarrow> workflow_node \<Rightarrow> handoff_config \<Rightarrow> node_outputs \<Rightarrow> int \<Rightarrow> action" where
  "dispatchGoalHandoff env run node cfg outputs attempt st0 =
     (let rid = wr_id run; org = wr_organizationId run;
          nodeRunId = en_uuid env (es_next st0); st1 = draw st0;
          base = createWorkflowNodeRun nodeRunId rid (wn_id node) attempt K_Goal_Handoff
                   Nr_Pending (en_now env);
          handoff = resolveGoalHandoff (en_parse env) cfg
            \<lparr>tk_input = coalesce (wr_input run) [], tk_workflowRunId = rid, tk_selfOutput = None,
             tk_outputs = outputs\<rparr>
      in and_then (save_node_action base st1)
           (\<lambda>st2. case en_goal env (es_next st2) of
              Inr goalId \<Rightarrow>
                save_node_action (base\<lparr>nr_status := Nr_Completed,
                    nr_summary := Some (''Handed off to goal '' @ goalId),
                    nr_outputJson := Some (JObj [(''goalId'', JStr goalId), (''title'', JStr (fst handoff)),
                                                 (''tasks'', JArr (snd handoff))]),
                    nr_completedAt := Some (en_now env)\<rparr>)
                  (log_effect (Ef_Goal rid (fst handoff) (snd handoff)) st2)
            | Inl err \<Rightarrow>
                and_then
                  (save_node_action (base\<lparr>nr_status := Nr_Failed,
                      nr_failureReason := Some (''goal_handoff_failed: '' @ err),
                      nr_completedAt := Some (en_now env)\<rparr>) st2)
                  (\<lambda>st3. (notify org rid (''Goal handoff '' @ dq (wn_id node) @ '' failed'')
                            (Some (wn_id node)) (setRunStatus env org rid Run_Paused None st3), Go))))"

fun format_name :: "output_format \<Rightarrow> string" where
  "format_name Fmt_Markdown = ''markdown''"
| "format_name Fmt_Text = ''text''"
| "format_name Fmt_Table = ''table''"
| "format_name Fmt_Json = ''json''"
| "format_name Fmt_Csv = ''csv''"

text \<open>An output node completes at once and steps the run again (\<open>restep\<close>).\<close>

definition dispatchOutput ::
  "engine_env \<Rightarrow> action \<Rightarrow> workflow_run \<Rightarrow> workflow_node \<Rightarrow> output_config \<Rightarrow> node_outputs \<Rightarrow> int \<Rightarrow> action" where
  "dispatchOutput env restep run node cfg outputs attempt st0 =
     (let upstream = nearestUpstreamOutput (wr_graph run) (wn_id node) outputs;
          base = createWorkflowNodeRun (en_uuid env (es_next st0)) (wr_id run) (wn_id node) attempt
                   K_Output Nr_Completed (en_now env)
      in and_then
           (save_node_action (base\<lparr>nr_outputPath := (case upstream of None \<Rightarrow> None | Some o' \<Rightarrow> no_output_file o'),
              nr_outputJson := (case upstream of None \<Rightarrow> None | Some o' \<Rightarrow> no_json o'),
              nr_summary := Some (''Output '' @ [CHR 0xB7] @ '' '' @ format_name (oc_format cfg)), nr_completedAt := Some (en_now env)\<rparr>) (draw st0))
           restep)"

definition dispatchNode ::
  "engine_env \<Rightarrow> action \<Rightarrow> workflow_run \<Rightarrow> node_outputs \<Rightarrow> int \<Rightarrow> workflow_node \<Rightarrow> action" where
  "dispatchNode env restep run outputs attempt node =
     (case wn_config node of
        C_Agent cfg \<Rightarrow> dispatchAgent env run node cfg outputs attempt
      | C_Approval prompt approver \<Rightarrow> dispatchApproval env run node prompt approver outputs attempt
      | C_Goal_Handoff cfg \<Rightarrow> dispatchGoalHandoff env run node cfg outputs attempt
      | C_Output cfg \<Rightarrow> dispatchOutput env restep run node cfg outputs attempt
      | _ \<Rightarrow> go)"

section \<open>Stepping\<close>

definition is_done :: "(string \<times> node_run) list \<Rightarrow> string \<Rightarrow> bool" where
  "is_done latest i = (case kv_get latest i of None \<Rightarrow> False | Some nr \<Rightarrow> done_status (nr_status nr))"

definition ready_nodes :: "workflow_graph \<Rightarrow> (string \<times> node_run) list \<Rightarrow> workflow_node list" where
  "ready_nodes g latest =
     filter (\<lambda>n. wn_kind n \<in> set MAIN_FLOW_KINDS \<and> wn_kind n \<noteq> K_Trigger \<and>
         kv_get latest (wn_id n) = None \<and> mainPredecessors g (wn_id n) \<noteq> [] \<and>
         list_all (is_done latest) (mainPredecessors g (wn_id n))) (wg_nodes g)"

definition maybeComplete :: "engine_env \<Rightarrow> string \<Rightarrow> string \<Rightarrow> action" where
  "maybeComplete env org rid st =
     (case get_run org rid st of
        None \<Rightarrow> (st, Go)
      | Some run \<Rightarrow>
          if wr_status run \<noteq> Run_Running then (st, Go)
          else
          (let latest = latestNodeRuns (list_nodes rid st);
               mainNodes = filter (\<lambda>n. wn_kind n \<in> set MAIN_FLOW_KINDS) (wg_nodes (wr_graph run));
               anyActive = list_ex (\<lambda>(_, nr). active_status (nr_status nr)) latest;
               allTerminal = list_all (\<lambda>n. is_done latest (wn_id n)) mainNodes
           in if allTerminal \<and> \<not> anyActive
              then (log_effect (Ef_Run_Update rid Run_Completed)
                      (setRunStatus env org rid Run_Completed None st), Go)
              else (st, Go)))"

definition run_is_running :: "string \<Rightarrow> string \<Rightarrow> engine_state \<Rightarrow> bool" where
  "run_is_running org rid st =
     (case get_run org rid st of None \<Rightarrow> False | Some run \<Rightarrow> wr_status run = Run_Running)"

fun step_loop :: "(workflow_node \<Rightarrow> action) \<Rightarrow> engine_env \<Rightarrow> string \<Rightarrow> string \<Rightarrow> workflow_node list \<Rightarrow> action" where
  "step_loop dispatch env org rid [] st = maybeComplete env org rid st"
| "step_loop dispatch env org rid (n # ns) st =
     and_then (dispatch n st)
       (\<lambda>st'. if run_is_running org rid st' then step_loop dispatch env org rid ns st' else (st', Go))"

fun stepRun :: "nat \<Rightarrow> engine_env \<Rightarrow> string \<Rightarrow> string \<Rightarrow> action" where
  "stepRun 0 env org rid st = (st, No_Fuel)"
| "stepRun (Suc fuel) env org rid st =
     (case get_run org rid st of
        None \<Rightarrow> (st, Go)
      | Some run \<Rightarrow>
          if wr_status run \<noteq> Run_Running then (st, Go)
          else
          (let nodeRuns = list_nodes rid st;
               latest = latestNodeRuns nodeRuns;
               outputs = buildNodeOutputs nodeRuns
           in step_loop (dispatchNode env (stepRun fuel env org rid) run outputs 1) env org rid
                (ready_nodes (wr_graph run) latest) st))"

text \<open>Every nested step begins with one more node dispatched.\<close>

definition step_fuel :: "string \<Rightarrow> string \<Rightarrow> engine_state \<Rightarrow> nat" where
  "step_fuel org rid st =
     (case get_run org rid st of None \<Rightarrow> 1 | Some run \<Rightarrow> Suc (Suc (length (wg_nodes (wr_graph run)))))"

definition step :: "engine_env \<Rightarrow> string \<Rightarrow> string \<Rightarrow> action" where
  "step env org rid st = stepRun (step_fuel org rid st) env org rid st"

section \<open>Completion of a node\<close>

record node_complete_input =
  nc_organizationId :: string
  nc_workflowRunId :: string
  nc_nodeRunId :: string
  nc_summary :: "string option"
  nc_json :: "json option"
  nc_outputPath :: "string option"
  nc_failed :: bool
  nc_failureReason :: "string option"

text \<open>A node run fails and pauses its run; the initiator is told.\<close>

definition fail_node :: "engine_env \<Rightarrow> string \<Rightarrow> node_run \<Rightarrow> string \<Rightarrow> string \<Rightarrow> action" where
  "fail_node env org nodeRun failureReason reason st =
     and_then
       (save_node_action (nodeRun\<lparr>nr_status := Nr_Failed, nr_failureReason := Some failureReason,
          nr_completedAt := Some (en_now env)\<rparr>) st)
       (\<lambda>st1. (postFailedCard org (nr_workflowRunId nodeRun)
           (notify org (nr_workflowRunId nodeRun) reason (Some (nr_nodeId nodeRun))
             (setRunStatus env org (nr_workflowRunId nodeRun) Run_Paused None st1)), Go))"

definition onNodeComplete :: "engine_env \<Rightarrow> node_complete_input \<Rightarrow> action" where
  "onNodeComplete env input st =
     (let org = nc_organizationId input; rid = nc_workflowRunId input in
      case get_node rid (nc_nodeRunId input) st of
        None \<Rightarrow> (st, Go)
      | Some nodeRun \<Rightarrow>
          if done_status (nr_status nodeRun) \<or> nr_status nodeRun = Nr_Failed then (st, Go)
          else if nc_failed input
          then fail_node env org nodeRun (coalesce (nc_failureReason input) ''agent_run_failed'')
                 (''Step '' @ dq (nr_nodeId nodeRun) @ '' failed'') st
          else
          (let outputPath = or_default (nc_outputPath input) (nr_outputPath nodeRun);
               stat = (case truthy outputPath of [] \<Rightarrow> None | p # _ \<Rightarrow> en_stat env p);
               producedOutput = (stat \<noteq> None \<or> nc_json input \<noteq> None \<or> nr_outputJson nodeRun \<noteq> None)
           in if nr_kind nodeRun = K_Agent \<and> \<not> producedOutput
              then fail_node env org nodeRun ''output_not_written''
                     (''Step '' @ dq (nr_nodeId nodeRun) @ '' produced no output'') st
              else and_then
                (save_node_action (nodeRun\<lparr>nr_status := Nr_Completed,
                    nr_summary := Some (coalesce (or_default (nc_summary input) (nr_summary nodeRun)) ''(no summary)''),
                    nr_outputJson := or_default (nc_json input) (nr_outputJson nodeRun),
                    nr_outputPath := outputPath, nr_outputSha256 := map_option fst stat,
                    nr_outputSizeBytes := map_option snd stat, nr_completedAt := Some (en_now env)\<rparr>) st)
                (\<lambda>st1. if run_is_running org rid st1 then step env org rid st1 else (st1, Go))))"

text \<open>\<open>workflow.advance\<close>: the envelope of a node run that has not ended.\<close>

definition advance ::
  "string \<Rightarrow> string \<Rightarrow> string \<Rightarrow> json option \<Rightarrow> string option \<Rightarrow> engine_state
   \<Rightarrow> (engine_state \<times> flow) \<times> bool" where
  "advance org runId summary json outputPath st =
     (case node_by_child runId st of
        None \<Rightarrow> ((st, Go), False)
      | Some nodeRun \<Rightarrow>
          (case get_run org (nr_workflowRunId nodeRun) st of
             None \<Rightarrow> ((st, Go), False)
           | Some _ \<Rightarrow>
               if done_status (nr_status nodeRun) \<or> nr_status nodeRun = Nr_Failed then ((st, Go), True)
               else (save_node_action (nodeRun\<lparr>nr_summary := Some summary,
                        nr_outputJson := or_default json (nr_outputJson nodeRun),
                        nr_outputPath := or_default outputPath (nr_outputPath nodeRun)\<rparr>) st, True)))"

definition terminal_agent_status :: "string \<Rightarrow> bool" where
  "terminal_agent_status s = (s \<in> {''completed'', ''failed'', ''cancelled''})"

definition completion_of :: "string \<Rightarrow> node_run \<Rightarrow> string \<Rightarrow> node_complete_input" where
  "completion_of org nodeRun status =
     \<lparr>nc_organizationId = org, nc_workflowRunId = nr_workflowRunId nodeRun,
      nc_nodeRunId = nr_id nodeRun, nc_summary = None, nc_json = None, nc_outputPath = None,
      nc_failed = (status \<noteq> ''completed''),
      nc_failureReason = (if status \<noteq> ''completed'' then Some (''agent_run_'' @ status) else None)\<rparr>"

definition handleAgentRunCompleted :: "engine_env \<Rightarrow> string \<Rightarrow> string \<Rightarrow> string \<Rightarrow> action" where
  "handleAgentRunCompleted env org runId status st =
     (if \<not> terminal_agent_status status then (st, Go)
      else case node_by_child runId st of
             None \<Rightarrow> (st, Go)
           | Some nodeRun \<Rightarrow> onNodeComplete env (completion_of org nodeRun status) st)"

section \<open>Transitions\<close>

datatype transition_action = Retry | Skip | Abort | Approve | Reject

record transition_input =
  ti_organizationId :: string
  ti_workflowRunId :: string
  ti_action :: transition_action
  ti_idempotencyKey :: string
  ti_rejectionReason :: "string option"

datatype transition_result = Not_Ok | Ok_Done | Ok_Idempotent

definition attempt_cmp :: "node_run \<Rightarrow> node_run \<Rightarrow> int" where
  "attempt_cmp = by_int nr_attempt"

definition latestFailed :: "(string \<times> node_run) list \<Rightarrow> node_run option" where
  "latestFailed latest =
     (case rev (sort_cmp attempt_cmp (filter (\<lambda>nr. nr_status nr = Nr_Failed) (map snd latest))) of
        [] \<Rightarrow> None | nr # _ \<Rightarrow> Some nr)"

definition resolve_awaiting ::
  "(node_run \<Rightarrow> node_run) \<Rightarrow> (string \<times> node_run) list \<Rightarrow> action" where
  "resolve_awaiting f latest =
     each (\<lambda>nr. save_node_action (f nr))
       (filter (\<lambda>nr. nr_status nr = Nr_Awaiting_Approval) (map snd latest))"

text \<open>The token of the last transition is the key of this one.\<close>

definition already_applied :: "workflow_run \<Rightarrow> string \<Rightarrow> bool" where
  "already_applied run key =
     (truthy (wr_lastTransitionToken run) \<noteq> [] \<and> wr_lastTransitionToken run = Some key)"

definition transition :: "engine_env \<Rightarrow> transition_input \<Rightarrow> engine_state \<Rightarrow> (engine_state \<times> flow) \<times> transition_result" where
  "transition env input st =
     (let org = ti_organizationId input; rid = ti_workflowRunId input; key = Some (ti_idempotencyKey input) in
      case get_run org rid st of
        None \<Rightarrow> ((st, Go), Not_Ok)
      | Some run \<Rightarrow>
          if already_applied run (ti_idempotencyKey input)
          then ((st, Go), Ok_Idempotent)
          else
          (let latest = latestNodeRuns (list_nodes rid st) in
           case ti_action input of
             Approve \<Rightarrow>
               (and_then
                 (resolve_awaiting (\<lambda>nr. nr\<lparr>nr_status := Nr_Completed,
                      nr_summary := Some (coalesce (nr_summary nr) ''approved''),
                      nr_completedAt := Some (en_now env)\<rparr>) latest st)
                 (\<lambda>st1. step env org rid (setRunStatus env org rid Run_Running key st1)), Ok_Done)
           | Reject \<Rightarrow>
               (and_then
                 (resolve_awaiting (\<lambda>nr. nr\<lparr>nr_status := Nr_Failed,
                      nr_failureReason := Some (''rejected: '' @ coalesce (ti_rejectionReason input) []),
                      nr_completedAt := Some (en_now env)\<rparr>) latest st)
                 (\<lambda>st1. (postFailedCard org rid
                    (notify org rid (''Approval rejected: '' @ coalesce (ti_rejectionReason input) []) None
                      (setRunStatus env org rid Run_Paused key st1)), Go)), Ok_Done)
           | Abort \<Rightarrow> ((postFailedCard org rid (setRunStatus env org rid Run_Failed key st), Go), Ok_Done)
           | Retry \<Rightarrow>
               (case latestFailed latest of
                  None \<Rightarrow> ((st, Go), Not_Ok)
                | Some failed \<Rightarrow>
                    (let st1 = setRunStatus env org rid Run_Running key st in
                     (case get_run org rid st1 of
                        None \<Rightarrow> (st1, Go)
                      | Some runningRun \<Rightarrow>
                          and_then
                            (case find (\<lambda>n. wn_id n = nr_nodeId failed) (wg_nodes (wr_graph runningRun)) of
                               Some node \<Rightarrow>
                                 if wn_kind node \<in> set MAIN_FLOW_KINDS
                                 then dispatchNode env (step env org rid) runningRun
                                        (buildNodeOutputs (list_nodes rid st1)) (nr_attempt failed + 1) node st1
                                 else (st1, Go)
                             | None \<Rightarrow> (st1, Go))
                            (step env org rid), Ok_Done)))
           | Skip \<Rightarrow>
               (case latestFailed latest of
                  None \<Rightarrow> ((st, Go), Not_Ok)
                | Some failed \<Rightarrow>
                    (and_then
                      (save_node_action (failed\<lparr>nr_status := Nr_Skipped,
                         nr_summary := Some (coalesce (nr_summary failed) ''(skipped)''),
                         nr_completedAt := Some (en_now env)\<rparr>) st)
                      (\<lambda>st1. step env org rid (setRunStatus env org rid Run_Running key st1)), Ok_Done))))"

section \<open>Starting a run\<close>

record start_input =
  sr_organizationId :: string
  sr_definitionId :: "string option"
  sr_definitionName :: "string option"
  sr_inlineGraph :: "(workflow_node list \<times> raw_edge list) option"
  sr_name :: "string option"
  sr_input :: string
  sr_initiatedBy :: string
  sr_channelId :: string
  sr_threadId :: string

datatype start_error =
    Definition_Not_Found string
  | Invalid_Graph "validation_issue list"
  | Thread_Failed string

definition loadGraph ::
  "start_input \<Rightarrow> engine_state \<Rightarrow> start_error + (workflow_graph \<times> string \<times> string option)" where
  "loadGraph input st =
     (case sr_inlineGraph input of
        Some (nodes, edges) \<Rightarrow>
          Inr (normalizeWorkflowGraph nodes edges, coalesce (sr_name input) ''workflow'', None)
      | None \<Rightarrow>
          (case (case truthy (sr_definitionId input) of
                   i # _ \<Rightarrow> get_definition (sr_organizationId input) i st
                 | [] \<Rightarrow>
                     (case truthy (sr_definitionName input) of
                        name # _ \<Rightarrow> find (\<lambda>d. wd_name d = name)
                          (list_definitions_for_channel (sr_organizationId input) (sr_channelId input) st)
                      | [] \<Rightarrow> None)) of
             None \<Rightarrow> Inl (Definition_Not_Found
               (coalesce (or_default (sr_definitionId input) (sr_definitionName input)) ''?''))
           | Some def \<Rightarrow>
               Inr (normalizeWorkflowGraph (wd_nodes def) (wd_edges def),
                    coalesce (sr_name input) (wd_name def), Some (wd_id def))))"

definition run_agents :: "workflow_graph \<Rightarrow> string list" where
  "run_agents g =
     uniq (concat (map (\<lambda>n. case wn_config n of
         C_Agent cfg \<Rightarrow> truthy (Some (ac_agentId cfg))
       | C_Approval _ approver \<Rightarrow> truthy approver
       | _ \<Rightarrow> []) (wg_nodes g)))"

definition seed_trigger :: "engine_env \<Rightarrow> string \<Rightarrow> string \<Rightarrow> workflow_node \<Rightarrow> action" where
  "seed_trigger env rid input n st =
     save_node_action
       ((createWorkflowNodeRun (en_uuid env (es_next st)) rid (wn_id n) 1 K_Trigger Nr_Completed (en_now env))
          \<lparr>nr_outputJson := Some (JStr input), nr_summary := Some input, nr_completedAt := Some (en_now env)\<rparr>)
       (draw st)"

definition startRun ::
  "engine_env \<Rightarrow> start_input \<Rightarrow> engine_state \<Rightarrow> (engine_state \<times> flow) \<times> (start_error + string)" where
  "startRun env input st =
     (case loadGraph input st of
        Inl e \<Rightarrow> ((st, Threw), Inl e)
      | Inr (g, name, definitionId) \<Rightarrow>
          (let issues = validateWorkflowGraph
                 \<lparr>vc_agentIds = None, vc_skillNames = None, vc_toolIds = None\<rparr> g in
           if issues \<noteq> [] then ((st, Threw), Inl (Invalid_Graph issues))
           else
           (let org = sr_organizationId input; runId = en_uuid env (es_next st); st1 = draw st in
            case en_thread env (es_next st1) of
              Inl err \<Rightarrow> ((st1, Threw), Inl (Thread_Failed err))
            | Inr runThreadId \<Rightarrow>
                (let run = \<lparr>wr_id = runId, wr_organizationId = org, wr_definitionId = definitionId,
                       wr_name = name, wr_graph = g, wr_input = Some (sr_input input),
                       wr_status = Run_Running, wr_initiatedBy = sr_initiatedBy input,
                       wr_channelId = sr_channelId input, wr_threadId = runThreadId,
                       wr_originThreadId = Some (sr_threadId input), wr_lastTransitionToken = None,
                       wr_createdAt = en_now env, wr_updatedAt = en_now env\<rparr>;
                     st2 = save_run run (log_effect (Ef_Thread runId (run_agents g)) st1)
                 in (and_then
                      (each (seed_trigger env runId (sr_input input))
                        (filter (\<lambda>n. wn_kind n = K_Trigger) (wg_nodes g)) st2)
                      (\<lambda>st3. step env org runId (log_effect (Ef_Run_Card runId) st3)),
                    Inr runId)))))"

section \<open>The sweeper\<close>

definition reminderIntervalMs :: int where
  "reminderIntervalMs = 30 * 60 * 1000"

definition maxReminders :: nat where
  "maxReminders = 3"

definition shouldRemind :: "engine_env \<Rightarrow> string \<Rightarrow> engine_state \<Rightarrow> bool" where
  "shouldRemind env runId st =
     (if coalesce (es_reminderCount st runId) 0 \<ge> maxReminders then False
      else en_now env - coalesce (es_lastReminder st runId) 0 \<ge> reminderIntervalMs)"

text \<open>Whether one of the node runs was completed again.\<close>

fun recover_nodes :: "engine_env \<Rightarrow> string \<Rightarrow> node_run list \<Rightarrow> bool \<Rightarrow> engine_state \<Rightarrow> (engine_state \<times> flow) \<times> bool" where
  "recover_nodes env org [] recovered st = ((st, Go), recovered)"
| "recover_nodes env org (nr # nrs) recovered st =
     (case (if nr_status nr \<noteq> Nr_Running then [] else truthy (nr_childRunId nr)) of
        [] \<Rightarrow> recover_nodes env org nrs recovered st
      | child # _ \<Rightarrow>
          (case truthy (en_runStatus env child) of
             [] \<Rightarrow> recover_nodes env org nrs recovered st
           | childStatus # _ \<Rightarrow>
               if terminal_agent_status childStatus
               then (case onNodeComplete env (completion_of org nr childStatus) st of
                       (st', Go) \<Rightarrow> recover_nodes env org nrs True st'
                     | (st', x) \<Rightarrow> ((st', x), True))
               else recover_nodes env org nrs recovered st))"

definition recoverRun :: "engine_env \<Rightarrow> workflow_run \<Rightarrow> action" where
  "recoverRun env run st =
     (case recover_nodes env (wr_organizationId run) (list_nodes (wr_id run) st) False st of
        (r, recovered) \<Rightarrow>
          if recovered then r else and_then r (step env (wr_organizationId run) (wr_id run)))"

definition remind :: "engine_env \<Rightarrow> workflow_run \<Rightarrow> engine_state \<Rightarrow> engine_state" where
  "remind env run st =
     (if \<not> shouldRemind env (wr_id run) st then st
      else log_effect (Ef_Notify (wr_id run)
             (if wr_status run = Run_Awaiting_Approval then ''still awaiting approval''
              else ''still paused - retry, skip, or abort'') None)
           (st\<lparr>es_lastReminder := (es_lastReminder st)(wr_id run \<mapsto> en_now env),
               es_reminderCount := (es_reminderCount st)
                 (wr_id run \<mapsto> coalesce (es_reminderCount st (wr_id run)) 0 + 1)\<rparr>))"

definition sweep_run :: "engine_env \<Rightarrow> workflow_run \<Rightarrow> action" where
  "sweep_run env run st =
     (if wr_status run = Run_Running then recoverRun env run st else (remind env run st, Go))"

definition sweep :: "engine_env \<Rightarrow> string \<Rightarrow> action" where
  "sweep env org st =
     (let runs = list_runs_by_status org [Run_Running, Run_Awaiting_Approval, Run_Paused] st;
          activeIds = map wr_id runs
      in and_then (each (sweep_run env) runs st)
           (\<lambda>st1. (st1\<lparr>
               es_reminderCount := (\<lambda>i. if es_lastReminder st1 i \<noteq> None \<and> i \<notin> set activeIds
                                        then None else es_reminderCount st1 i),
               es_lastReminder := (\<lambda>i. if i \<in> set activeIds then es_lastReminder st1 i else None)\<rparr>, Go)))"

end
