(* ===== verification/WorkflowLaws.thy ===== *)
theory WorkflowLaws
  imports WorkflowEngine
begin

text \<open>
  Laws of the workflow engine: what every action keeps (rows are never lost, a completed or
  skipped node run never changes), the invariant of the store (unique ids and attempts, no
  node before its predecessors are done, a completed run has all its main nodes done), the
  fuel of the step function, and progress.
\<close>

section \<open>Rows are kept\<close>

definition same_row :: "node_run \<Rightarrow> node_run \<Rightarrow> bool" where
  "same_row r r' \<longleftrightarrow> nr_id r' = nr_id r \<and> nr_workflowRunId r' = nr_workflowRunId r \<and>
     nr_nodeId r' = nr_nodeId r \<and> nr_attempt r' = nr_attempt r \<and> nr_kind r' = nr_kind r \<and>
     (done_status (nr_status r) \<longrightarrow> r' = r)"

definition same_run :: "bool \<Rightarrow> workflow_run \<Rightarrow> workflow_run \<Rightarrow> bool" where
  "same_run tok r r' \<longleftrightarrow> wr_id r' = wr_id r \<and> wr_organizationId r' = wr_organizationId r \<and>
     wr_graph r' = wr_graph r \<and> (tok \<longrightarrow> wr_lastTransitionToken r' = wr_lastTransitionToken r)"

text \<open>With \<open>tok\<close>, the transition tokens of the runs are kept as well.\<close>

definition grows :: "bool \<Rightarrow> engine_state \<Rightarrow> engine_state \<Rightarrow> bool" where
  "grows tok st st' \<longleftrightarrow> es_next st \<le> es_next st' \<and>
     (\<forall>r \<in> set (es_nodes st). \<exists>r' \<in> set (es_nodes st'). same_row r r') \<and>
     (\<forall>r \<in> set (es_runs st). \<exists>r' \<in> set (es_runs st'). same_run tok r r')"

lemma same_row_refl [simp]: "same_row r r"
  by (simp add: same_row_def)

lemma same_row_trans: "same_row a b \<Longrightarrow> same_row b c \<Longrightarrow> same_row a c"
  by (auto simp: same_row_def)

lemma same_run_refl [simp]: "same_run tok r r"
  by (simp add: same_run_def)

lemma same_run_trans: "same_run tok a b \<Longrightarrow> same_run tok b c \<Longrightarrow> same_run tok a c"
  by (auto simp: same_run_def)

lemma grows_refl [simp]: "grows tok st st"
  unfolding grows_def by (meson order_refl same_row_refl same_run_refl)

lemma grows_trans [trans]: "grows tok a b \<Longrightarrow> grows tok b c \<Longrightarrow> grows tok a c"
  unfolding grows_def by (meson order_trans same_row_trans same_run_trans)

lemma grows_weaken: "grows True a b \<Longrightarrow> grows tok a b"
  unfolding grows_def same_run_def by (metis (mono_tags, lifting))

lemma same_member: "r \<in> A \<Longrightarrow> \<exists>r' \<in> A. same_row r r'" "run \<in> B \<Longrightarrow> \<exists>run' \<in> B. same_run tok run run'"
  using same_row_refl same_run_refl by blast+

lemma grows_same_tables:
  "es_nodes st' = es_nodes st \<Longrightarrow> es_runs st' = es_runs st \<Longrightarrow> es_next st \<le> es_next st' \<Longrightarrow> grows tok st st'"
  by (simp add: grows_def same_member)

lemma grows_log [simp]: "grows tok st (log_effect e st)"
  by (rule grows_same_tables) (simp_all add: log_effect_def)

lemma grows_draw [simp]: "grows tok st (draw st)"
  by (rule grows_same_tables) (simp_all add: draw_def)

section \<open>The invariant\<close>

text \<open>Some attempt of a node of a run has completed or was skipped.\<close>

definition node_done :: "engine_state \<Rightarrow> string \<Rightarrow> string \<Rightarrow> bool" where
  "node_done st rid i \<longleftrightarrow>
     (\<exists>r \<in> set (es_nodes st). nr_workflowRunId r = rid \<and> nr_nodeId r = i \<and> done_status (nr_status r))"

definition main_node_ids :: "workflow_graph \<Rightarrow> string list" where
  "main_node_ids g = map wn_id (filter (\<lambda>n. wn_kind n \<in> set MAIN_FLOW_KINDS) (wg_nodes g))"

definition trigger_ids :: "workflow_graph \<Rightarrow> string list" where
  "trigger_ids g = map wn_id (filter (\<lambda>n. wn_kind n = K_Trigger) (wg_nodes g))"

text \<open>A node may be dispatched: it has predecessors on the main flow and they are done.\<close>

definition deps_done :: "engine_state \<Rightarrow> workflow_graph \<Rightarrow> string \<Rightarrow> string \<Rightarrow> bool" where
  "deps_done st g rid i \<longleftrightarrow> mainPredecessors g i \<noteq> [] \<and>
     (\<forall>p \<in> set (mainPredecessors g i). node_done st rid p)"

definition row_ok :: "engine_state \<Rightarrow> workflow_run \<Rightarrow> node_run \<Rightarrow> bool" where
  "row_ok st run r \<longleftrightarrow>
     (if nr_kind r = K_Trigger
      then nr_status r = Nr_Completed \<and> nr_nodeId r \<in> set (trigger_ids (wr_graph run))
      else deps_done st (wr_graph run) (wr_id run) (nr_nodeId r))"

definition engine_inv :: "engine_env \<Rightarrow> engine_state \<Rightarrow> bool" where
  "engine_inv env st \<longleftrightarrow>
     distinct (map nr_id (es_nodes st)) \<and> distinct (map wr_id (es_runs st)) \<and>
     (\<forall>r \<in> set (es_nodes st). \<exists>k < es_next st. nr_id r = en_uuid env k) \<and>
     (\<forall>r \<in> set (es_runs st). \<exists>k < es_next st. wr_id r = en_uuid env k) \<and>
     (\<forall>a \<in> set (es_nodes st). \<forall>b \<in> set (es_nodes st). nr_workflowRunId a = nr_workflowRunId b \<longrightarrow>
        nr_nodeId a = nr_nodeId b \<longrightarrow> nr_attempt a = nr_attempt b \<longrightarrow> a = b) \<and>
     (\<forall>r \<in> set (es_nodes st). \<exists>run \<in> set (es_runs st). wr_id run = nr_workflowRunId r) \<and>
     (\<forall>run \<in> set (es_runs st). \<forall>r \<in> set (es_nodes st). nr_workflowRunId r = wr_id run \<longrightarrow> row_ok st run r) \<and>
     (\<forall>run \<in> set (es_runs st). wr_status run = Run_Completed \<longrightarrow>
        (\<forall>i \<in> set (main_node_ids (wr_graph run)). node_done st (wr_id run) i))"

lemma engine_invD:
  assumes "engine_inv env st"
  shows "distinct (map nr_id (es_nodes st))" and "distinct (map wr_id (es_runs st))"
    and "\<forall>r \<in> set (es_nodes st). \<exists>k < es_next st. nr_id r = en_uuid env k"
    and "\<forall>r \<in> set (es_runs st). \<exists>k < es_next st. wr_id r = en_uuid env k"
    and "a \<in> set (es_nodes st) \<Longrightarrow> b \<in> set (es_nodes st) \<Longrightarrow> nr_workflowRunId a = nr_workflowRunId b \<Longrightarrow>
      nr_nodeId a = nr_nodeId b \<Longrightarrow> nr_attempt a = nr_attempt b \<Longrightarrow> a = b"
    and "r \<in> set (es_nodes st) \<Longrightarrow> \<exists>run \<in> set (es_runs st). wr_id run = nr_workflowRunId r"
    and "run \<in> set (es_runs st) \<Longrightarrow> r \<in> set (es_nodes st) \<Longrightarrow> nr_workflowRunId r = wr_id run \<Longrightarrow>
      row_ok st run r"
    and "run \<in> set (es_runs st) \<Longrightarrow> wr_status run = Run_Completed \<Longrightarrow>
      \<forall>i \<in> set (main_node_ids (wr_graph run)). node_done st (wr_id run) i"
  using assms unfolding engine_inv_def by blast+

lemma node_done_grows: "grows tok st st' \<Longrightarrow> node_done st rid i \<Longrightarrow> node_done st' rid i"
  unfolding node_done_def grows_def same_row_def by (metis (no_types, lifting))

lemma deps_done_grows: "grows tok st st' \<Longrightarrow> deps_done st g rid i \<Longrightarrow> deps_done st' g rid i"
  by (auto simp: deps_done_def intro: node_done_grows)

lemma node_done_cong: "es_nodes st' = es_nodes st \<Longrightarrow> node_done st' rid i = node_done st rid i"
  by (simp add: node_done_def)

lemma engine_inv_log [simp]: "engine_inv env (log_effect e st) = engine_inv env st"
  by (simp add: engine_inv_def row_ok_def deps_done_def log_effect_def node_done_def)

lemma engine_inv_draw [step_intros]: "engine_inv env st \<Longrightarrow> engine_inv env (draw st)"
  unfolding engine_inv_def row_ok_def deps_done_def draw_def node_done_def
  by (simp add: less_Suc_eq) blast

section \<open>Saving a node run\<close>

lemma tbl_upsert_existing:
  "key r \<in> key ` set t \<Longrightarrow> tbl_upsert key merge r t = map (\<lambda>x. if key x = key r then merge x r else x) t"
  by (simp add: tbl_upsert_def)

text \<open>An update of a row that has not ended.\<close>

lemma merge_node_run_same:
  "nr_id (merge_node_run old new) = nr_id old" "nr_workflowRunId (merge_node_run old new) = nr_workflowRunId old"
  "nr_nodeId (merge_node_run old new) = nr_nodeId old" "nr_attempt (merge_node_run old new) = nr_attempt old"
  "nr_kind (merge_node_run old new) = nr_kind old" "nr_status (merge_node_run old new) = nr_status new"
  by (simp_all add: merge_node_run_def)

lemma save_node_update:
  assumes inv: "engine_inv env st" and old: "old \<in> set (es_nodes st)" "nr_id old = nr_id nr"
    and nd: "\<not> done_status (nr_status old)"
  shows "\<exists>st'. save_node nr st = Some st' \<and> engine_inv env st' \<and> grows True st st' \<and>
    es_runs st' = es_runs st \<and> es_next st' = es_next st \<and>
    merge_node_run old nr \<in> set (es_nodes st') \<and>
    (\<forall>x \<in> set (es_nodes st). nr_id x \<noteq> nr_id nr \<longrightarrow> x \<in> set (es_nodes st'))"
proof -
  define f where "f x = (if nr_id x = nr_id nr then merge_node_run x nr else x)" for x
  have mem: "nr_id nr \<in> nr_id ` set (es_nodes st)" using old by (metis imageI)
  define st' where "st' = st\<lparr>es_nodes := map f (es_nodes st)\<rparr>"
  have s: "save_node nr st = Some st'"
    using mem by (simp add: save_node_def tbl_upsert_existing st'_def f_def)
  have nodes: "set (es_nodes st') = f ` set (es_nodes st)" "es_runs st' = es_runs st"
    "es_next st' = es_next st" by (simp_all add: st'_def)
  have dist: "distinct (map nr_id (es_nodes st))" using inv by (simp add: engine_inv_def)
  have only: "x = old" if "x \<in> set (es_nodes st)" "nr_id x = nr_id nr" for x
    using dist that old by (auto simp: distinct_map inj_on_def)
  have f: "nr_id (f x) = nr_id x" "nr_workflowRunId (f x) = nr_workflowRunId x"
    "nr_nodeId (f x) = nr_nodeId x" "nr_attempt (f x) = nr_attempt x" "nr_kind (f x) = nr_kind x" for x
    by (simp_all add: f_def merge_node_run_same)
  have row: "same_row x (f x)" if "x \<in> set (es_nodes st)" for x
    using only [OF that] nd by (auto simp: same_row_def merge_node_run_same f_def)
  have g: "grows True st st'"
    unfolding grows_def nodes using row same_member(2) by blast
  have "nr_kind old \<noteq> K_Trigger"
  proof
    assume "nr_kind old = K_Trigger"
    with inv old have "nr_status old = Nr_Completed" by (fastforce simp: engine_inv_def row_ok_def)
    with nd show False by (simp add: done_status_def)
  qed
  then have trig: "nr_kind x = K_Trigger \<Longrightarrow> x \<in> set (es_nodes st) \<Longrightarrow> f x = x" for x
    using only [of x] by (auto simp: f_def)
  have ok: "row_ok st' run (f x)" if "row_ok st run x" "x \<in> set (es_nodes st)" for run x
    using that trig [of x] f(3,5) [of x] deps_done_grows [OF g, of "wr_graph run" "wr_id run"]
    by (simp add: row_ok_def split: if_splits)
  have "distinct (map nr_id (es_nodes st'))"
    using dist f(1) by (simp add: st'_def comp_def)
  then have "engine_inv env st'"
    using inv ok f node_done_grows [OF g] unfolding engine_inv_def nodes by auto
  moreover have "merge_node_run old nr \<in> set (es_nodes st')"
    using old by (auto simp: nodes f_def intro: rev_image_eqI)
  moreover have "\<forall>x \<in> set (es_nodes st). nr_id x \<noteq> nr_id nr \<longrightarrow> x \<in> set (es_nodes st')"
    by (auto simp: nodes f_def intro: rev_image_eqI)
  ultimately show ?thesis using s g nodes by blast
qed

text \<open>A new row.\<close>

lemma save_node_new:
  assumes inv: "engine_inv env st" and fresh: "nr_id nr \<notin> nr_id ` set (es_nodes st)"
    and k: "k < es_next st" "nr_id nr = en_uuid env k"
    and run: "run \<in> set (es_runs st)" "wr_id run = nr_workflowRunId nr" "row_ok st run nr"
    and save: "save_node nr st = Some st'"
  shows "engine_inv env st' \<and> grows True st st' \<and> es_runs st' = es_runs st \<and> es_next st' = es_next st \<and>
    es_nodes st' = es_nodes st @ [nr]"
proof -
  have un: "\<not> (\<exists>r \<in> set (es_nodes st). nr_workflowRunId r = nr_workflowRunId nr \<and>
      nr_nodeId r = nr_nodeId nr \<and> nr_attempt r = nr_attempt nr)"
    and st': "st' = st\<lparr>es_nodes := es_nodes st @ [nr]\<rparr>"
    using save fresh by (auto simp: save_node_def split: if_splits)
  have tabs: "set (es_nodes st') = insert nr (set (es_nodes st))" "es_runs st' = es_runs st"
    "es_next st' = es_next st" by (simp_all add: st')
  have g: "grows True st st'"
    unfolding grows_def tabs using same_member by (metis insertCI order_refl)
  have d: "distinct (map wr_id (es_runs st))" using inv by (simp add: engine_inv_def)
  have same: "run' = run" if "run' \<in> set (es_runs st)" "wr_id run' = wr_id run" for run'
    using d run(1) that by (auto simp: distinct_map inj_on_def)
  have grow_ok: "row_ok st r x \<Longrightarrow> row_ok st' r x" for r x
    using deps_done_grows [OF g] by (simp add: row_ok_def split: if_splits)
  have "row_ok st' run' nr" if "run' \<in> set (es_runs st)" "nr_workflowRunId nr = wr_id run'" for run'
    using same [OF that(1)] that(2) run(2,3) grow_ok by metis
  then have rows: "\<forall>run' \<in> set (es_runs st'). \<forall>x \<in> set (es_nodes st').
      nr_workflowRunId x = wr_id run' \<longrightarrow> row_ok st' run' x"
    using inv grow_ok unfolding engine_inv_def tabs by auto
  have uniq: "\<forall>a \<in> set (es_nodes st'). \<forall>b \<in> set (es_nodes st'). nr_workflowRunId a = nr_workflowRunId b \<longrightarrow>
      nr_nodeId a = nr_nodeId b \<longrightarrow> nr_attempt a = nr_attempt b \<longrightarrow> a = b"
    using inv un unfolding engine_inv_def tabs by (metis insert_iff)
  have "engine_inv env st'"
    using inv rows uniq fresh k run node_done_grows [OF g]
    unfolding engine_inv_def by (auto simp: tabs st')
  with g tabs st' show ?thesis by simp
qed

end
