(* ===== verification/WorkflowSteps.thy ===== *)
theory WorkflowSteps
  imports WorkflowLaws
begin

text \<open>
  Every action of the workflow engine keeps the invariant of its store and loses no row:
  the status of a run, the dispatch of each kind of node, the step function by induction on
  its fuel, completions, transitions, the start of a run and the sweep.
\<close>

section \<open>Outcomes\<close>

definition good :: "engine_env \<Rightarrow> bool \<Rightarrow> engine_state \<Rightarrow> engine_state \<times> flow \<Rightarrow> bool" where
  "good env tok st r \<longleftrightarrow> engine_inv env (fst r) \<and> grows tok st (fst r)"

lemma good_stop [simp]: "engine_inv env st \<Longrightarrow> good env tok st (st, x)"
  by (simp add: good_def)

lemma good_pair [simp]: "good env tok st (st', x) \<longleftrightarrow> engine_inv env st' \<and> grows tok st st'"
  by (simp add: good_def)

lemma good_weaken: "good env True st r \<Longrightarrow> good env tok st r"
  by (auto simp: good_def intro: grows_weaken)

lemma good_trans: "grows tok st st' \<Longrightarrow> good env tok st' r \<Longrightarrow> good env tok st r"
  by (auto simp: good_def intro: grows_trans)

lemma good_and_then:
  assumes "good env tok st r"
    and "\<And>st'. r = (st', Go) \<Longrightarrow> engine_inv env st' \<Longrightarrow> grows tok st st' \<Longrightarrow> good env tok st' (f st')"
  shows "good env tok st (and_then r f)"
proof (cases r)
  case (Pair st' x)
  with assms show ?thesis
    by (cases x) (auto simp: and_then_def good_def intro: grows_trans)
qed

lemma good_save_node_update:
  assumes "engine_inv env st" "old \<in> set (es_nodes st)" "nr_id old = nr_id nr"
    "\<not> done_status (nr_status old)"
  shows "good env True st (save_node_action nr st)"
  using save_node_update [OF assms] by (auto simp: save_node_action_def)

section \<open>Known runs\<close>

text \<open>The run a handler holds is one of the store, as far as its lasting fields go.\<close>

definition known :: "engine_state \<Rightarrow> workflow_run \<Rightarrow> bool" where
  "known st run \<longleftrightarrow> (\<exists>r \<in> set (es_runs st). wr_id r = wr_id run \<and> wr_graph r = wr_graph run \<and>
     wr_organizationId r = wr_organizationId run)"

lemma known_member [simp]: "run \<in> set (es_runs st) \<Longrightarrow> known st run"
  by (auto simp: known_def)

lemma known_grows: "grows tok st st' \<Longrightarrow> known st run \<Longrightarrow> known st' run"
  unfolding known_def grows_def same_run_def by metis

lemma get_run_Some: "get_run org rid st = Some run \<Longrightarrow>
    run \<in> set (es_runs st) \<and> wr_organizationId run = org \<and> wr_id run = rid"
  by (auto simp: get_run_def find_Some_iff in_set_conv_nth)

lemma get_node_Some: "get_node rid i st = Some r \<Longrightarrow>
    r \<in> set (es_nodes st) \<and> nr_workflowRunId r = rid \<and> nr_id r = i"
  by (auto simp: get_node_def find_Some_iff in_set_conv_nth)

section \<open>The status of a run\<close>

lemma setRunStatus_tables [simp]:
  "es_nodes (setRunStatus env org rid s token st) = es_nodes st"
  "es_next (setRunStatus env org rid s token st) = es_next st"
  by (simp_all add: setRunStatus_def save_run_def split: option.splits)

lemma save_run_existing:
  assumes inv: "engine_inv env st" and run: "run \<in> set (es_runs st)"
    and new: "wr_id new = wr_id run"
    and tok: "tok \<Longrightarrow> wr_lastTransitionToken new = wr_lastTransitionToken run"
    and comp: "wr_status new = Run_Completed \<Longrightarrow>
      \<forall>i \<in> set (main_node_ids (wr_graph run)). node_done st (wr_id run) i"
  shows "engine_inv env (save_run new st) \<and> grows tok st (save_run new st)"
proof -
  define f where "f x = (if wr_id x = wr_id new then x\<lparr>wr_status := wr_status new,
    wr_lastTransitionToken := wr_lastTransitionToken new, wr_updatedAt := wr_updatedAt new\<rparr> else x)" for x :: workflow_run
  have mem: "wr_id new \<in> wr_id ` set (es_runs st)" using run new by (metis imageI)
  define st' where "st' = st\<lparr>es_runs := map f (es_runs st)\<rparr>"
  have s: "save_run new st = st'"
    using mem by (simp add: save_run_def tbl_upsert_existing st'_def f_def)
  have tabs: "es_nodes st' = es_nodes st" "set (es_runs st') = f ` set (es_runs st)"
    "es_next st' = es_next st" by (simp_all add: st'_def)
  have f: "wr_id (f x) = wr_id x" "wr_organizationId (f x) = wr_organizationId x"
    "wr_graph (f x) = wr_graph x" for x by (simp_all add: f_def)
  have dist: "distinct (map wr_id (es_runs st))" using inv by (simp add: engine_inv_def)
  have only: "x = run" if "x \<in> set (es_runs st)" "wr_id x = wr_id new" for x
    using dist that run new by (auto simp: distinct_map inj_on_def)
  have "same_run tok x (f x)" if "x \<in> set (es_runs st)" for x
    using only [OF that] tok f by (auto simp: same_run_def f_def)
  then have g: "grows tok st st'"
    unfolding grows_def tabs using same_member(1) by blast
  have nd: "node_done st' = node_done st" using tabs(1) by (simp add: node_done_def fun_eq_iff)
  have dd: "deps_done st' = deps_done st" by (simp add: deps_done_def fun_eq_iff nd)
  have ok: "row_ok st' (f x) r = row_ok st x r" for x r by (simp add: row_ok_def f dd)
  have ended: "\<forall>i \<in> set (main_node_ids (wr_graph x)). node_done st (wr_id x) i"
    if "x \<in> set (es_runs st)" "wr_status (f x) = Run_Completed" for x
  proof (cases "wr_id x = wr_id new")
    case True
    with that only comp show ?thesis by (auto simp: f_def)
  next
    case False
    with that inv show ?thesis by (auto simp: f_def engine_inv_def)
  qed
  have "distinct (map wr_id (es_runs st'))"
    using dist f(1) by (simp add: st'_def comp_def)
  then have "engine_inv env st'"
    using inv ended ok f nd unfolding engine_inv_def tabs by auto
  with s g show ?thesis by simp
qed

lemma setRunStatus_good:
  assumes "engine_inv env st" and "tok \<Longrightarrow> token = None"
    and "\<And>run. s = Run_Completed \<Longrightarrow> get_run org rid st = Some run \<Longrightarrow>
      \<forall>i \<in> set (main_node_ids (wr_graph run)). node_done st rid i"
  shows "engine_inv env (setRunStatus env org rid s token st) \<and>
    grows tok st (setRunStatus env org rid s token st)"
proof (cases "get_run org rid st")
  case None
  with assms(1) show ?thesis by (simp add: setRunStatus_def)
next
  case (Some run)
  note r = get_run_Some [OF Some]
  show ?thesis
    unfolding setRunStatus_def Some option.case
    by (rule save_run_existing [OF assms(1), of run]) (use r assms(2,3) Some in auto)
qed

lemma grows_log_target [simp]: "grows tok st' (log_effect e st) = grows tok st' st"
  by (simp add: grows_def log_effect_def)

lemma quiet_effects [simp]:
  "engine_inv env (notify org rid m i st) = engine_inv env st"
  "grows tok st' (notify org rid m i st) = grows tok st' st"
  "engine_inv env (postFailedCard org rid st) = engine_inv env st"
  "grows tok st' (postFailedCard org rid st) = grows tok st' st"
  by (simp_all add: notify_def postFailedCard_def split: option.split)

section \<open>Dispatch\<close>

lemma bounded_weaken:
  "\<forall>r \<in> A. \<exists>k < (n :: nat). P r k \<Longrightarrow> n \<le> m \<Longrightarrow> \<forall>r \<in> A. \<exists>k < m. P r k"
  by (meson less_le_trans)

lemma engine_inv_same_tables:
  assumes "es_nodes st' = es_nodes st" "es_runs st' = es_runs st" "es_next st \<le> es_next st'"
    and inv: "engine_inv env st"
  shows "engine_inv env st'"
proof -
  have "node_done st' = node_done st" using assms(1) by (simp add: node_done_def fun_eq_iff)
  then have "row_ok st' = row_ok st" by (simp add: row_ok_def deps_done_def fun_eq_iff)
  moreover note \<open>node_done st' = node_done st\<close>
  moreover have "\<forall>r \<in> set (es_nodes st). \<exists>k < es_next st'. nr_id r = en_uuid env k"
    "\<forall>r \<in> set (es_runs st). \<exists>k < es_next st'. wr_id r = en_uuid env k"
    using engine_invD(3,4) [OF inv] assms(3) by (auto elim!: bounded_weaken)
  ultimately show ?thesis using inv unfolding engine_inv_def assms(1,2) by simp
qed

lemma drawn_fresh:
  assumes "engine_inv env st" "inj (en_uuid env)"
  shows "en_uuid env (es_next st) \<notin> nr_id ` set (es_nodes st)"
    and "en_uuid env (es_next st) \<notin> wr_id ` set (es_runs st)"
  using engine_invD(3,4) [OF assms(1)] assms(2) by (metis (no_types) imageE injD less_irrefl)+

lemma row_ok_tables:
  assumes "es_nodes st' = es_nodes st"
  shows "row_ok st' run r = row_ok st run r"
  by (simp add: row_ok_def deps_done_def node_done_def assms)

text \<open>The first row of a dispatch, under an id drawn just before.\<close>

lemma good_save_new:
  assumes inv: "engine_inv env st" and inj: "inj (en_uuid env)"
    and tabs: "es_nodes st1 = es_nodes st" "es_runs st1 = es_runs st" "es_next st < es_next st1"
    and nr: "nr_id nr = en_uuid env (es_next st)"
    and run: "known st run" "nr_workflowRunId nr = wr_id run"
    and ok: "\<And>r. wr_graph r = wr_graph run \<Longrightarrow> wr_id r = wr_id run \<Longrightarrow> row_ok st r nr"
  shows "good env True st (save_node_action nr st1)"
proof -
  have inv1: "engine_inv env st1"
    by (rule engine_inv_same_tables [OF _ _ _ inv]) (use tabs in auto)
  have g1: "grows True st st1" by (rule grows_same_tables) (use tabs in auto)
  have fresh: "nr_id nr \<notin> nr_id ` set (es_nodes st1)"
    using drawn_fresh(1) [OF inv inj] nr tabs(1) by simp
  from run obtain r where r: "r \<in> set (es_runs st1)" "wr_id r = nr_workflowRunId nr"
    "wr_graph r = wr_graph run" using tabs(2) by (auto simp: known_def)
  have rok: "row_ok st1 r nr"
    using ok [OF r(3)] r(2) run(2) row_ok_tables [OF tabs(1)] by simp
  note new = save_node_new [OF inv1 fresh tabs(3) nr r(1,2) rok]
  show ?thesis
    using new inv1 g1 by (auto simp: save_node_action_def split: option.split intro: grows_trans)
qed

lemma saved_new:
  assumes "engine_inv env st" "inj (en_uuid env)" "nr_id nr = en_uuid env (es_next st)"
    and "es_nodes st1 = es_nodes st" and "save_node_action nr st1 = (st2, Go)"
  shows "nr \<in> set (es_nodes st2)"
  using assms drawn_fresh(1) [OF assms(1,2)]
  by (auto simp: save_node_action_def save_node_def split: if_splits option.splits)

lemma get_saved: "nr \<in> set (es_nodes st) \<Longrightarrow> get_node (nr_workflowRunId nr) (nr_id nr) st \<noteq> None"
  by (auto simp: get_node_def find_None_iff)

text \<open>What a dispatch of a node relies on.\<close>

definition dispatchable :: "engine_state \<Rightarrow> workflow_run \<Rightarrow> workflow_node \<Rightarrow> bool" where
  "dispatchable st run n \<longleftrightarrow> known st run \<and> deps_done st (wr_graph run) (wr_id run) (wn_id n)"

lemma dispatchable_grows: "grows tok st st' \<Longrightarrow> dispatchable st run n \<Longrightarrow> dispatchable st' run n"
  by (auto simp: dispatchable_def intro: known_grows deps_done_grows)

lemma dispatchable_row_ok:
  "dispatchable st run n \<Longrightarrow> nr_kind nr \<noteq> K_Trigger \<Longrightarrow> nr_nodeId nr = wn_id n \<Longrightarrow>
   wr_graph r = wr_graph run \<Longrightarrow> wr_id r = wr_id run \<Longrightarrow> row_ok st r nr"
  by (simp add: dispatchable_def row_ok_def)

lemma createWorkflowNodeRun_sel [simp]:
  "nr_id (createWorkflowNodeRun i rid n a k s t) = i"
  "nr_workflowRunId (createWorkflowNodeRun i rid n a k s t) = rid"
  "nr_nodeId (createWorkflowNodeRun i rid n a k s t) = n"
  "nr_attempt (createWorkflowNodeRun i rid n a k s t) = a"
  "nr_kind (createWorkflowNodeRun i rid n a k s t) = k"
  "nr_status (createWorkflowNodeRun i rid n a k s t) = s"
  by (simp_all add: createWorkflowNodeRun_def)

lemma draw_tables [simp]:
  "es_nodes (draw st) = es_nodes st" "es_runs (draw st) = es_runs st" "es_next (draw st) = Suc (es_next st)"
  by (simp_all add: draw_def)

lemma log_effect_tables [simp]:
  "es_nodes (log_effect e st) = es_nodes st" "es_runs (log_effect e st) = es_runs st"
  "es_next (log_effect e st) = es_next st"
  by (simp_all add: log_effect_def)

lemma active_not_done [simp]:
  "\<not> done_status Nr_Pending" "\<not> done_status Nr_Running" "\<not> done_status Nr_Awaiting_Approval"
  "\<not> done_status Nr_Failed" "done_status Nr_Completed" "done_status Nr_Skipped"
  by (simp_all add: done_status_def)

lemma good_set_status:
  "engine_inv env st \<Longrightarrow> s \<noteq> Run_Completed \<Longrightarrow> engine_inv env (setRunStatus env org rid s token st)"
  "engine_inv env st \<Longrightarrow> s \<noteq> Run_Completed \<Longrightarrow> grows True st (setRunStatus env org rid s None st)"
  "engine_inv env st \<Longrightarrow> s \<noteq> Run_Completed \<Longrightarrow> grows False st (setRunStatus env org rid s token st)"
  using setRunStatus_good [of env st False token s org rid] setRunStatus_good [of env st True None s org rid]
  by auto

lemma dispatchAgent_good:
  assumes inv: "engine_inv env st" and inj: "inj (en_uuid env)" and d: "dispatchable st run n"
  shows "good env True st (dispatchAgent env run n cfg outputs attempt st)"
  unfolding dispatchAgent_def Let_def
proof (rule good_and_then, goal_cases)
  case 1
  show ?case
    by (rule good_save_new [OF inv inj, where run = run])
      (use d in \<open>auto simp: dispatchable_def row_ok_def\<close>)
next
  case (2 st2)
  have "good env True st2 (and_then (if done_status (nr_status cur) \<or> nr_status cur = Nr_Failed then (st2, Go)
      else and_then (save_node_action (cur\<lparr>nr_status := Nr_Failed, nr_failureReason := fr,
          nr_completedAt := ca\<rparr>) st2) (\<lambda>st3. (setRunStatus env o1 r1 Run_Paused None st3, Go)))
      (\<lambda>st3. (postFailedCard o1 r1 (notify o2 r2 m i st3), Go)))"
    if "cur \<in> set (es_nodes st2)" for cur fr ca o1 r1 o2 r2 m i
  proof (rule good_and_then, goal_cases)
    case 1
    show ?case
      using 2(2) that by (auto intro!: good_and_then good_save_node_update good_set_status)
  qed (simp add: good_def)
  moreover have "get_node rid i st2 \<noteq> None \<Longrightarrow> coalesce (get_node rid i st2) b \<in> set (es_nodes st2)" for rid i b
    by (auto dest: get_node_Some)
  moreover have "get_node (wr_id run) (en_uuid env (es_next st)) st2 \<noteq> None"
    using get_saved [OF saved_new [OF inv inj _ _ 2(1)]] by simp
  ultimately show ?case using 2(2) by (auto split: option.split)
qed

lemma good_first_row:
  assumes "engine_inv env st" "inj (en_uuid env)" "dispatchable st run n"
    and "nr_id nr = en_uuid env (es_next st)" "nr_workflowRunId nr = wr_id run" "nr_nodeId nr = wn_id n"
    and "nr_kind nr \<noteq> K_Trigger"
  shows "good env True st (save_node_action nr (draw st))"
  by (rule good_save_new [OF assms(1,2), where run = run])
    (use assms in \<open>auto simp: dispatchable_def row_ok_def\<close>)

lemma dispatchApproval_good:
  assumes inv: "engine_inv env st" and inj: "inj (en_uuid env)" and d: "dispatchable st run n"
  shows "good env True st (dispatchApproval env run n prompt approver outputs attempt st)"
  unfolding dispatchApproval_def Let_def
proof (rule good_and_then, goal_cases)
  case 1
  show ?case by (rule good_first_row [OF inv inj d]) simp_all
next
  case (2 st2)
  note row = saved_new [OF inv inj _ _ 2(1)]
  have row': "es_nodes st3 = es_nodes st2 \<Longrightarrow> createWorkflowNodeRun (en_uuid env (es_next st)) (wr_id run)
      (wn_id n) attempt K_Approval Nr_Awaiting_Approval (en_now env) \<in> set (es_nodes st3)" for st3
    using row by simp
  show ?case
  proof (cases "en_approval env (es_next st2)")
    case (Inr a)
    have up: "good env True st2 (save_node_action nr (log_effect e st2))"
      if "nr_id nr = en_uuid env (es_next st)" for nr e
      by (rule good_trans [OF grows_log], rule good_save_node_update [OF _ row'])
        (use 2(2) that in auto)
    show ?thesis
      unfolding Inr sum.case
      by (rule good_and_then [OF up]) (auto intro: good_set_status split: list.split)
  qed (use 2(2) in simp)
qed

lemma dispatchGoalHandoff_good:
  assumes inv: "engine_inv env st" and inj: "inj (en_uuid env)" and d: "dispatchable st run n"
  shows "good env True st (dispatchGoalHandoff env run n cfg outputs attempt st)"
  unfolding dispatchGoalHandoff_def Let_def
proof (rule good_and_then, goal_cases)
  case 1
  show ?case by (rule good_first_row [OF inv inj d]) simp_all
next
  case (2 st2)
  note row = saved_new [OF inv inj _ _ 2(1)]
  have row': "es_nodes st3 = es_nodes st2 \<Longrightarrow> createWorkflowNodeRun (en_uuid env (es_next st)) (wr_id run)
      (wn_id n) attempt K_Goal_Handoff Nr_Pending (en_now env) \<in> set (es_nodes st3)" for st3
    using row by simp
  have up: "good env True st3 (save_node_action nr st3)"
    if "nr_id nr = en_uuid env (es_next st)" "engine_inv env st3" "es_nodes st3 = es_nodes st2" for nr st3
    by (rule good_save_node_update [OF that(2) row']) (use that in auto)
  show ?case
  proof (cases "en_goal env (es_next st2)")
    case (Inl e)
    show ?thesis
      unfolding Inl sum.case
      by (rule good_and_then [OF up]) (auto simp: 2(2) intro: good_set_status)
  next
    case (Inr a)
    show ?thesis
      unfolding Inr sum.case
      by (rule good_trans [OF grows_log], rule up) (simp_all add: 2(2))
  qed
qed

lemma dispatchOutput_good:
  assumes inv: "engine_inv env st" and inj: "inj (en_uuid env)" and d: "dispatchable st run n"
    and restep: "\<And>st. engine_inv env st \<Longrightarrow> good env True st (restep st)"
  shows "good env True st (dispatchOutput env restep run n cfg outputs attempt st)"
  unfolding dispatchOutput_def Let_def
  by (rule good_and_then [OF good_first_row [OF inv inj d]]) (simp_all add: restep)

lemma dispatchNode_good:
  assumes "engine_inv env st" and "inj (en_uuid env)" and "dispatchable st run n"
    and "\<And>st. engine_inv env st \<Longrightarrow> good env True st (restep st)"
  shows "good env True st (dispatchNode env restep run outputs attempt n st)"
  using assms
  by (auto simp: dispatchNode_def go_def split: node_config.split
      intro: dispatchAgent_good dispatchApproval_good dispatchGoalHandoff_good dispatchOutput_good)

section \<open>Stepping\<close>

lemma set_list_nodes [simp]: "set (list_nodes rid st) = {r \<in> set (es_nodes st). nr_workflowRunId r = rid}"
  by (auto simp: list_nodes_def)

lemma kv_get_latest: "kv_get (latestNodeRuns rows) i = latest_run rows i"
  by (simp add: latest_run_def)

lemma is_done_node_done: "is_done (latestNodeRuns (list_nodes rid st)) i \<Longrightarrow> node_done st rid i"
  by (auto simp: is_done_def kv_get_latest node_done_def dest!: latest_run_Some split: option.splits)

lemma maybeComplete_good:
  assumes "engine_inv env st"
  shows "good env True st (maybeComplete env org rid st)"
proof (cases "get_run org rid st")
  case None
  with assms show ?thesis by (simp add: maybeComplete_def)
next
  case (Some run)
  have "\<forall>i \<in> set (main_node_ids (wr_graph run)). node_done st rid i"
    if "list_all (\<lambda>n. is_done (latestNodeRuns (list_nodes rid st)) (wn_id n))
      (filter (\<lambda>n. wn_kind n \<in> set MAIN_FLOW_KINDS) (wg_nodes (wr_graph run)))"
    using that by (auto simp: main_node_ids_def list_all_iff intro: is_done_node_done)
  then show ?thesis
    using assms setRunStatus_good [OF assms, of True None Run_Completed org rid] Some
    by (simp add: maybeComplete_def Let_def)
qed

lemma ready_nodes_deps:
  "n \<in> set (ready_nodes g (latestNodeRuns (list_nodes rid st))) \<Longrightarrow>
     deps_done st g rid (wn_id n) \<and> n \<in> set (wg_nodes g)"
  by (auto simp: ready_nodes_def deps_done_def list_all_iff intro: is_done_node_done)

lemma step_loop_good:
  assumes "engine_inv env st" and "\<forall>n \<in> set ns. dispatchable st run n"
    and "\<And>st n. engine_inv env st \<Longrightarrow> dispatchable st run n \<Longrightarrow> good env True st (dispatch n st)"
  shows "good env True st (step_loop dispatch env org rid ns st)"
  using assms(1,2)
proof (induction ns arbitrary: st)
  case Nil
  then show ?case by (simp add: maybeComplete_good)
next
  case (Cons n ns)
  show ?case
    unfolding step_loop.simps
  proof (rule good_and_then)
    show "good env True st (dispatch n st)" using Cons.prems assms(3) by simp
  next
    fix st' assume st': "engine_inv env st'" "grows True st st'"
    with Cons.prems have "\<forall>n \<in> set ns. dispatchable st' run n"
      by (auto intro: dispatchable_grows)
    with Cons.IH [OF st'(1)] st'(1)
    show "good env True st' (if run_is_running org rid st' then step_loop dispatch env org rid ns st' else (st', Go))"
      by simp
  qed
qed

lemma stepRun_good:
  "engine_inv env st \<Longrightarrow> inj (en_uuid env) \<Longrightarrow> good env True st (stepRun fuel env org rid st)"
proof (induction fuel arbitrary: st)
  case (Suc fuel)
  show ?case
  proof (cases "get_run org rid st")
    case None
    with Suc.prems show ?thesis by simp
  next
    case (Some run)
    note run = get_run_Some [OF Some]
    have "good env True st (step_loop (dispatchNode env (stepRun fuel env org rid) run outs 1) env org rid
        (ready_nodes (wr_graph run) (latestNodeRuns (list_nodes rid st))) st)" for outs
    proof (rule step_loop_good [OF Suc.prems(1)])
      show "\<forall>n \<in> set (ready_nodes (wr_graph run) (latestNodeRuns (list_nodes rid st))). dispatchable st run n"
        using run ready_nodes_deps by (auto simp: dispatchable_def)
    qed (auto intro: dispatchNode_good Suc)
    with Some Suc.prems show ?thesis by (simp add: Let_def)
  qed
qed simp

lemma step_good:
  "engine_inv env st \<Longrightarrow> inj (en_uuid env) \<Longrightarrow> good env True st (step env org rid st)"
  by (simp add: step_def stepRun_good)

section \<open>Completion\<close>

lemma fail_node_good:
  assumes "engine_inv env st" "nr \<in> set (es_nodes st)" "\<not> done_status (nr_status nr)"
  shows "good env True st (fail_node env org nr why reason st)"
  unfolding fail_node_def
  by (rule good_and_then [OF good_save_node_update [OF assms(1,2)]]) (auto simp: assms(3) intro: good_set_status)

lemma onNodeComplete_good:
  assumes inv: "engine_inv env st" and inj: "inj (en_uuid env)"
  shows "good env True st (onNodeComplete env input st)"
proof (cases "get_node (nc_workflowRunId input) (nc_nodeRunId input) st")
  case None
  with inv show ?thesis by (simp add: onNodeComplete_def)
next
  case (Some nr)
  note mem = get_node_Some [OF Some]
  have "good env True st (and_then (save_node_action (nr\<lparr>nr_status := s, nr_summary := a, nr_outputJson := b,
      nr_outputPath := c, nr_outputSha256 := d, nr_outputSizeBytes := e, nr_completedAt := f\<rparr>) st)
      (\<lambda>st1. if P st1 then step env org rid st1 else (st1, Go)))"
    if "\<not> done_status (nr_status nr)" for s a b c d e f P org rid
    by (rule good_and_then [OF good_save_node_update [OF inv]]) (use mem that inj in \<open>auto intro: step_good\<close>)
  with mem inv Some show ?thesis
    by (auto simp: onNodeComplete_def Let_def intro: fail_node_good)
qed

lemma advance_good:
  assumes inv: "engine_inv env st"
  shows "good env True st (fst (advance org runId summary json path st))"
proof -
  have "good env True st (save_node_action (nr\<lparr>nr_summary := a, nr_outputJson := b, nr_outputPath := c\<rparr>) st)"
    if "nr \<in> set (es_nodes st)" "\<not> done_status (nr_status nr)" for nr a b c
    by (rule good_save_node_update [OF inv that(1)]) (simp_all add: that)
  moreover have "node_by_child runId st = Some nr \<Longrightarrow> nr \<in> set (es_nodes st)" for nr
    by (auto simp: node_by_child_def split: list.splits dest!: arg_cong [where f = set])
  ultimately show ?thesis
    using inv by (auto simp: advance_def split: option.split)
qed

lemma handleAgentRunCompleted_good:
  "engine_inv env st \<Longrightarrow> inj (en_uuid env) \<Longrightarrow> good env True st (handleAgentRunCompleted env org runId status st)"
  by (auto simp: handleAgentRunCompleted_def onNodeComplete_good split: option.split)

section \<open>Transitions\<close>

lemma latest_keys:
  "distinct (map fst (latestNodeRuns rows)) \<and>
   (\<forall>(i, r) \<in> set (latestNodeRuns rows). r \<in> set rows \<and> nr_nodeId r = i)"
proof (induction rows rule: rev_induct)
  case (snoc x rows)
  have "later_run x l = l \<or> later_run x l = kv_put (nr_nodeId x) x l" for l
    by (simp add: later_run_def split: option.split)
  then consider "latestNodeRuns (rows @ [x]) = latestNodeRuns rows"
    | "latestNodeRuns (rows @ [x]) = kv_put (nr_nodeId x) x (latestNodeRuns rows)"
    unfolding latestNodeRuns_snoc by blast
  then show ?case
    by cases (use snoc set_kv_put [of "nr_nodeId x" x "latestNodeRuns rows"] in
      \<open>auto intro: distinct_kv_put dest: subsetD\<close>)
qed (simp add: latestNodeRuns_def)

lemma latest_rows:
  "distinct (map nr_nodeId (map snd (latestNodeRuns rows)))" "set (map snd (latestNodeRuns rows)) \<subseteq> set rows"
proof -
  have "map nr_nodeId (map snd (latestNodeRuns rows)) = map fst (latestNodeRuns rows)"
    using latest_keys [of rows] by auto
  then show "distinct (map nr_nodeId (map snd (latestNodeRuns rows)))" using latest_keys [of rows] by metis
  show "set (map snd (latestNodeRuns rows)) \<subseteq> set rows" using latest_keys [of rows] by auto
qed

text \<open>A series of updates of rows that have not ended.\<close>

lemma each_update_good:
  assumes "engine_inv env st" and "set rs \<subseteq> set (es_nodes st)" and "distinct (map nr_id rs)"
    and "\<forall>r \<in> set rs. \<not> done_status (nr_status r)" and "\<And>r. nr_id (f r) = nr_id r"
  shows "good env True st (each (\<lambda>r. save_node_action (f r)) rs st)"
  using assms(1-4)
proof (induction rs arbitrary: st)
  case (Cons r rs)
  from Cons.prems have r: "r \<in> set (es_nodes st)" "nr_id r = nr_id (f r)" "\<not> done_status (nr_status r)"
    by (simp_all add: assms(5))
  show ?case
    unfolding each.simps
  proof (rule good_and_then [OF good_save_node_update [OF Cons.prems(1) r]])
    fix st' assume st': "save_node_action (f r) st = (st', Go)" "engine_inv env st'"
    have "\<forall>x \<in> set (es_nodes st). nr_id x \<noteq> nr_id (f r) \<longrightarrow> x \<in> set (es_nodes st')"
      using save_node_update [OF Cons.prems(1) r] st'(1) by (auto simp: save_node_action_def)
    moreover have "nr_id x \<noteq> nr_id (f r)" if "x \<in> set rs" for x
      using that Cons.prems(3) assms(5) [of r] by (metis distinct.simps(2) imageI list.set_map list.simps(9))
    ultimately have "set rs \<subseteq> set (es_nodes st')" using Cons.prems(2) by auto
    with Cons.IH [OF st'(2)] Cons.prems(3,4)
    show "good env True st' (each (\<lambda>r. save_node_action (f r)) rs st')" by simp
  qed
qed simp

lemma resolve_awaiting_good:
  assumes inv: "engine_inv env st" and f: "\<And>r. nr_id (f r) = nr_id r"
  shows "good env True st (resolve_awaiting f (latestNodeRuns (list_nodes rid st)) st)"
proof -
  define rs where "rs = filter (\<lambda>nr. nr_status nr = Nr_Awaiting_Approval)
    (map snd (latestNodeRuns (list_nodes rid st)))"
  have sub: "set rs \<subseteq> set (es_nodes st)"
    using latest_rows(2) [of "list_nodes rid st"] by (auto simp: rs_def)
  have "distinct (map nr_nodeId rs)"
    unfolding rs_def using latest_rows(1) [of "list_nodes rid st"] by (intro distinct_map_filter)
  moreover have "inj_on nr_id (set (es_nodes st))"
    using engine_invD(1) [OF inv] by (simp add: distinct_map)
  ultimately have "distinct (map nr_id rs)"
    using sub by (auto simp: distinct_map intro: inj_on_subset)
  then show ?thesis
    unfolding resolve_awaiting_def rs_def [symmetric]
    by (intro each_update_good [OF inv sub]) (auto simp: f rs_def)
qed

lemma latestFailed_Some:
  assumes "latestFailed (latestNodeRuns (list_nodes rid st)) = Some r"
  shows "r \<in> set (es_nodes st) \<and> nr_workflowRunId r = rid \<and> nr_status r = Nr_Failed"
proof -
  define failed where "failed = filter (\<lambda>nr. nr_status nr = Nr_Failed)
    (map snd (latestNodeRuns (list_nodes rid st)))"
  from assms have "r \<in> set (rev (sort_cmp attempt_cmp failed))"
    unfolding latestFailed_def failed_def [symmetric]
    by (cases "rev (sort_cmp attempt_cmp failed)") auto
  then show ?thesis using latest_rows(2) [of "list_nodes rid st"] by (auto simp: failed_def)
qed

text \<open>The node of a row that has failed may be dispatched again.\<close>

lemma failed_dispatchable:
  assumes inv: "engine_inv env st" and r: "r \<in> set (es_nodes st)" "nr_status r = Nr_Failed"
    and run: "run \<in> set (es_runs st)" "wr_id run = nr_workflowRunId r" and n: "wn_id n = nr_nodeId r"
  shows "dispatchable st run n"
  using engine_invD(7) [OF inv run(1) r(1) run(2) [symmetric]] r(2) run n
  by (auto simp: row_ok_def dispatchable_def split: if_splits)

lemma retry_good:
  assumes inv: "engine_inv env st" and inj: "inj (en_uuid env)"
    and failed: "failed \<in> set (es_nodes st)" "nr_status failed = Nr_Failed" "nr_workflowRunId failed = rid"
    and run: "get_run org rid st = Some run"
  shows "good env True st (and_then
      (case find (\<lambda>n. wn_id n = nr_nodeId failed) (wg_nodes (wr_graph run)) of
         Some node \<Rightarrow> if wn_kind node \<in> set MAIN_FLOW_KINDS
            then dispatchNode env (step env org rid) run outs attempt node st else (st, Go)
       | None \<Rightarrow> (st, Go)) (step env org rid))"
proof (rule good_and_then, goal_cases)
  case 1
  have "dispatchable st run node" if "find (\<lambda>n. wn_id n = nr_nodeId failed) (wg_nodes (wr_graph run)) = Some node"
    for node
    using that failed_dispatchable [OF inv failed(1,2)] get_run_Some [OF run] failed(3)
    by (auto simp: find_Some_iff)
  then show ?case
    using inv by (auto intro!: dispatchNode_good [OF inv inj] step_good [OF _ inj] split: option.split)
qed (simp add: step_good inj)

lemma transition_good:
  assumes inv: "engine_inv env st" and inj: "inj (en_uuid env)"
  shows "good env False st (fst (transition env input st))"
proof (cases "get_run (ti_organizationId input) (ti_workflowRunId input) st")
  case None
  with inv show ?thesis by (simp add: transition_def Let_def)
next
  case (Some run)
  define org rid key where "org = ti_organizationId input" and "rid = ti_workflowRunId input"
    and "key = Some (ti_idempotencyKey input)"
  define latest where "latest = latestNodeRuns (list_nodes rid st)"
  have set_step: "engine_inv env st1 \<Longrightarrow>
      good env False st1 (step env org rid (setRunStatus env org rid Run_Running key st1))" for st1
    using good_trans [OF good_set_status(3) good_weaken [OF step_good [OF good_set_status(1) inj]]] by blast
  have resolved: "good env False st (and_then (resolve_awaiting f latest st) h)"
    if "\<And>r. nr_id (f r) = nr_id r" "\<And>st1. engine_inv env st1 \<Longrightarrow> good env False st1 (h st1)" for f h
    unfolding latest_def
    by (rule good_and_then [OF good_weaken [OF resolve_awaiting_good [OF inv that(1)]] that(2)])
  show ?thesis
  proof (cases "already_applied run (ti_idempotencyKey input)")
    case True
    with inv Some show ?thesis by (simp add: transition_def Let_def)
  next
    case False
    note start = Some False transition_def Let_def
    show ?thesis
    proof (cases "ti_action input")
      case Retry
      show ?thesis
      proof (cases "latestFailed latest")
        case None
        with inv show ?thesis by (simp add: start Retry latest_def rid_def)
      next
        case failed: (Some failed)
        define st1 where "st1 = setRunStatus env org rid Run_Running key st"
        note row = latestFailed_Some [OF failed [unfolded latest_def]]
        have inv1: "engine_inv env st1" and g1: "grows False st st1"
          using good_set_status(1,3) [OF inv] by (simp_all add: st1_def)
        have "good env False st1 (case get_run org rid st1 of None \<Rightarrow> (st1, Go) | Some runningRun \<Rightarrow>
          and_then
            (case find (\<lambda>n. wn_id n = nr_nodeId failed) (wg_nodes (wr_graph runningRun)) of
               Some node \<Rightarrow> if wn_kind node \<in> set MAIN_FLOW_KINDS
                  then dispatchNode env (step env org rid) runningRun (buildNodeOutputs (list_nodes rid st1))
                    (nr_attempt failed + 1) node st1 else (st1, Go)
             | None \<Rightarrow> (st1, Go)) (step env org rid))"
          using good_weaken [OF retry_good [OF inv1 inj, of failed rid org]] inv1 row
          by (cases "get_run org rid st1") (simp_all add: st1_def)
        from good_trans [OF g1 this] show ?thesis
          using failed unfolding latest_def st1_def rid_def org_def key_def by (simp add: start Retry)
      qed
    next
      case Skip
      show ?thesis
      proof (cases "latestFailed latest")
        case None
        with inv show ?thesis by (simp add: start Skip latest_def rid_def)
      next
        case failed: (Some failed)
        note row = latestFailed_Some [OF failed [unfolded latest_def]]
        have "good env False st (and_then (save_node_action (failed\<lparr>nr_status := Nr_Skipped,
            nr_summary := Some (coalesce (nr_summary failed) ''(skipped)''),
            nr_completedAt := Some (en_now env)\<rparr>) st)
            (\<lambda>st1. step env org rid (setRunStatus env org rid Run_Running key st1)))"
          by (rule good_and_then [OF good_weaken [OF good_save_node_update [OF inv, of failed]] set_step])
            (use row in auto)
        then show ?thesis using failed by (simp add: start Skip latest_def rid_def org_def key_def)
      qed
    next
      case Abort
      then show ?thesis using good_set_status [OF inv] by (simp add: start)
    next
      case Approve
      then show ?thesis
        using resolved [OF _ set_step] by (simp add: start latest_def rid_def org_def key_def)
    next
      case Reject
      then show ?thesis
        by (auto simp: start latest_def [unfolded rid_def, symmetric] intro!: resolved good_set_status)
    qed
  qed
qed

section \<open>Starting a run\<close>

lemma save_run_new:
  assumes inv: "engine_inv env st" and inj: "inj (en_uuid env)"
    and id: "wr_id run = en_uuid env (es_next st)" and st: "wr_status run \<noteq> Run_Completed"
  shows "engine_inv env (save_run run (log_effect e (draw st)))"
    and "grows True st (save_run run (log_effect e (draw st)))"
    and "run \<in> set (es_runs (save_run run (log_effect e (draw st))))"
proof -
  have fresh: "wr_id run \<notin> wr_id ` set (es_runs st)"
    using drawn_fresh(2) [OF inv inj] id by simp
  define st' where "st' = save_run run (log_effect e (draw st))"
  have tabs: "es_runs st' = es_runs st @ [run]" "es_nodes st' = es_nodes st" "es_next st' = Suc (es_next st)"
    using fresh by (simp_all add: st'_def save_run_def tbl_upsert_def)
  have "grows True st st'"
    unfolding grows_def tabs using same_member by (metis UnCI le_SucI order_refl set_append)
  moreover have "run \<in> set (es_runs st')" by (simp add: tabs)
  moreover have "engine_inv env st'"
  proof -
    have nd: "node_done st' = node_done st" by (simp add: node_done_def fun_eq_iff tabs)
    have "\<forall>r \<in> set (es_nodes st). \<exists>k < Suc (es_next st). nr_id r = en_uuid env k"
      "\<forall>r \<in> set (es_runs st). \<exists>k < Suc (es_next st). wr_id r = en_uuid env k"
      using engine_invD(3,4) [OF inv] less_SucI by (metis (no_types, lifting))+
    moreover have "nr_workflowRunId r \<noteq> wr_id run" if "r \<in> set (es_nodes st)" for r
      using engine_invD(6) [OF inv that] fresh by (metis imageI)
    ultimately show ?thesis
      using engine_invD [OF inv] fresh st id
      unfolding engine_inv_def row_ok_tables [OF tabs(2)] nd tabs by (auto simp: less_Suc_eq)
  qed
  ultimately show "engine_inv env (save_run run (log_effect e (draw st)))"
    "grows True st (save_run run (log_effect e (draw st)))"
    "run \<in> set (es_runs (save_run run (log_effect e (draw st))))"
    by (simp_all add: st'_def)
qed

lemma seed_trigger_good:
  assumes inv: "engine_inv env st" and inj: "inj (en_uuid env)" and run: "known st run"
    and n: "wn_id n \<in> set (trigger_ids (wr_graph run))"
  shows "good env True st (seed_trigger env (wr_id run) input n st)"
  unfolding seed_trigger_def
  by (rule good_save_new [OF inv inj _ _ _ _ run]) (use n in \<open>simp_all add: row_ok_def\<close>)

lemma each_good:
  assumes "engine_inv env st" and "P st"
    and "\<And>x st. x \<in> set xs \<Longrightarrow> engine_inv env st \<Longrightarrow> P st \<Longrightarrow> good env tok st (f x st)"
    and "\<And>st st'. P st \<Longrightarrow> grows tok st st' \<Longrightarrow> P st'"
  shows "good env tok st (each f xs st)"
  using assms(1-3)
proof (induction xs arbitrary: st)
  case (Cons x xs)
  show ?case
    unfolding each.simps
    by (rule good_and_then [OF Cons.prems(3)]) (use Cons assms(4) in auto)
qed simp

lemma startRun_good:
  assumes inv: "engine_inv env st" and inj: "inj (en_uuid env)"
  shows "good env True st (fst (startRun env input st))"
proof (cases "loadGraph input st")
  case (Inl e)
  with inv show ?thesis by (simp add: startRun_def)
next
  case (Inr l)
  obtain g name d where l: "l = (g, name, d)" by (cases l)
  have started: "good env True st (and_then
      (each (seed_trigger env (wr_id run) inp)
        (filter (\<lambda>n. wn_kind n = K_Trigger) (wg_nodes g)) (save_run run (log_effect e (draw st))))
      (\<lambda>st3. step env org (wr_id run) (log_effect e' st3)))"
    if run: "wr_id run = en_uuid env (es_next st)" "wr_status run \<noteq> Run_Completed" "wr_graph run = g"
    for run inp e e' org
  proof -
    note new = save_run_new [OF inv inj run(1,2), of e]
    have "good env True (save_run run (log_effect e (draw st)))
        (each (seed_trigger env (wr_id run) inp) (filter (\<lambda>n. wn_kind n = K_Trigger) (wg_nodes g))
          (save_run run (log_effect e (draw st))))"
      by (rule each_good [where P = "\<lambda>st. known st run"])
        (use new run(3) in \<open>auto simp: trigger_ids_def intro!: seed_trigger_good inj intro: known_grows\<close>)
    then have "good env True st (each (seed_trigger env (wr_id run) inp)
        (filter (\<lambda>n. wn_kind n = K_Trigger) (wg_nodes g)) (save_run run (log_effect e (draw st))))"
      by (rule good_trans [OF new(2)])
    then show ?thesis
      by (rule good_and_then, intro good_trans [OF grows_log step_good]) (simp_all add: inj)
  qed
  define run where "run thread = \<lparr>wr_id = en_uuid env (es_next st), wr_organizationId = sr_organizationId input,
      wr_definitionId = d, wr_name = name, wr_graph = g, wr_input = Some (sr_input input),
      wr_status = Run_Running, wr_initiatedBy = sr_initiatedBy input,
      wr_channelId = sr_channelId input, wr_threadId = thread,
      wr_originThreadId = Some (sr_threadId input), wr_lastTransitionToken = None,
      wr_createdAt = en_now env, wr_updatedAt = en_now env\<rparr>" for thread
  have run: "wr_id (run t) = en_uuid env (es_next st)" "wr_status (run t) \<noteq> Run_Completed" "wr_graph (run t) = g"
    for t by (simp_all add: run_def)
  note parts = startRun_def Inr l Let_def engine_inv_draw [OF inv] inv
  show ?thesis
  proof (cases "en_thread env (Suc (es_next st))")
    case (Inl e)
    then show ?thesis by (simp add: parts)
  next
    case thread: (Inr thread)
    from started [OF run, of thread "sr_input input" "Ef_Thread (wr_id (run thread)) (run_agents g)"
      "sr_organizationId input" "Ef_Run_Card (wr_id (run thread))"] show ?thesis
      unfolding run by (simp add: parts thread run_def)
  qed
qed

section \<open>The sweeper\<close>

lemma recover_nodes_good:
  "engine_inv env st \<Longrightarrow> inj (en_uuid env) \<Longrightarrow> good env True st (fst (recover_nodes env org nrs b st))"
proof (induction nrs arbitrary: b st)
  case (Cons nr nrs)
  have "good env True st (fst (case onNodeComplete env inp st of (st', Go) \<Rightarrow> recover_nodes env org nrs True st'
      | (st', x) \<Rightarrow> ((st', x), True)))" for inp
    using onNodeComplete_good [OF Cons.prems, of inp] Cons.IH [OF _ Cons.prems(2)]
    by (auto simp: good_def split: prod.split flow.split intro: grows_trans)
  with Cons show ?case by (auto split: list.split)
qed simp

lemma recoverRun_good:
  assumes "engine_inv env st" "inj (en_uuid env)"
  shows "good env True st (recoverRun env run st)"
  using recover_nodes_good [OF assms, of "wr_organizationId run" "list_nodes (wr_id run) st" False]
  by (auto simp: recoverRun_def step_good assms(2) split: prod.split intro!: good_and_then)

lemma remind_good: "engine_inv env st \<Longrightarrow> engine_inv env (remind env run st) \<and> grows True st (remind env run st)"
  by (auto simp: remind_def intro!: engine_inv_same_tables [of _ st] grows_same_tables)

lemma sweep_good:
  assumes "engine_inv env st" "inj (en_uuid env)"
  shows "good env True st (sweep env org st)"
proof -
  have "good env True st (each (sweep_run env) rs st)" for rs
    by (rule each_good [where P = "\<lambda>_. True"])
      (auto simp: assms sweep_run_def remind_good recoverRun_good)
  then show ?thesis
    unfolding sweep_def Let_def
  proof (rule good_and_then)
    fix st1 assume st1: "engine_inv env st1"
    show "good env True st1 (st1\<lparr>es_reminderCount := f, es_lastReminder := h\<rparr>, Go)" for f h
      using engine_inv_same_tables [OF _ _ _ st1] by (simp add: grows_same_tables)
  qed
qed

end
