(* ===== verification/WorkflowSafety.thy ===== *)
theory WorkflowSafety
  imports WorkflowSteps
begin

text \<open>
  The workflow engine as a transition system: one step per handler, under any clock and any
  answers of the outside. From its laws follow the properties of every history of the
  engine; the step function never exhausts its fuel; a run with nothing under way either
  has a node to dispatch or completes.
\<close>

section \<open>Histories\<close>

inductive engine_event :: "(nat \<Rightarrow> string) \<Rightarrow> engine_state \<Rightarrow> engine_state \<Rightarrow> bool" for u where
  started: "en_uuid env = u \<Longrightarrow> engine_event u st (fst (fst (startRun env input st)))"
| stepped: "en_uuid env = u \<Longrightarrow> engine_event u st (fst (step env org rid st))"
| node_completed: "en_uuid env = u \<Longrightarrow> engine_event u st (fst (onNodeComplete env completion st))"
| advanced: "engine_event u st (fst (fst (advance org runId summary json path st)))"
| agent_finished: "en_uuid env = u \<Longrightarrow> engine_event u st (fst (handleAgentRunCompleted env org runId status st))"
| transitioned: "en_uuid env = u \<Longrightarrow> engine_event u st (fst (fst (transition env t st)))"
| swept: "en_uuid env = u \<Longrightarrow> engine_event u st (fst (sweep env org st))"

inductive_cases engine_eventE: "engine_event u st st'"

definition no_env :: "(nat \<Rightarrow> string) \<Rightarrow> engine_env" where
  "no_env u = \<lparr>en_uuid = u, en_now = 0, en_spawn = (\<lambda>_. None), en_approval = (\<lambda>_. Inl []),
     en_goal = (\<lambda>_. Inl []), en_thread = (\<lambda>_. Inl []), en_stat = (\<lambda>_. None),
     en_runStatus = (\<lambda>_. None), en_parse = (\<lambda>_. None)\<rparr>"

text \<open>The draws of identifiers are distinct, and the store is as the laws say.\<close>

definition sound :: "(nat \<Rightarrow> string) \<Rightarrow> engine_state \<Rightarrow> bool" where
  "sound u st \<longleftrightarrow> inj u \<and> engine_inv (no_env u) st"

lemma sound_iff: "en_uuid env = u \<Longrightarrow> sound u st \<longleftrightarrow> inj (en_uuid env) \<and> engine_inv env st"
  by (auto simp: sound_def engine_inv_def no_env_def)

lemma sound_event:
  assumes "sound u st" "engine_event u st st'"
  shows "sound u st' \<and> grows False st st'"
proof -
  have in_env: "sound u (fst r) \<and> grows False st (fst r)" if "en_uuid env = u" "good env tok st r" for env tok r
    using that assms(1) by (cases tok) (auto simp: sound_iff good_def dest: grows_weaken)
  have pre: "engine_inv env st" "inj (en_uuid env)" if "en_uuid env = u" for env
    using that assms(1) by (simp_all add: sound_iff)
  from assms(2) show ?thesis
  proof (rule engine_eventE, goal_cases)
    case (4 org runId summary json path)
    then show ?case using in_env [of "no_env u", OF _ advance_good] pre [of "no_env u"] by (simp add: no_env_def)
  qed (metis in_env pre startRun_good step_good onNodeComplete_good handleAgentRunCompleted_good
      transition_good sweep_good)+
qed

interpretation engine: step_system "engine_event u" "sound u" "grows False" for u
  by unfold_locales (auto dest: sound_event intro: grows_trans)

text \<open>A store without runs.\<close>

definition fresh_engine :: "engine_state \<Rightarrow> bool" where
  "fresh_engine st \<longleftrightarrow> es_runs st = [] \<and> es_nodes st = []"

lemma fresh_sound: "inj u \<Longrightarrow> fresh_engine st \<Longrightarrow> sound u st"
  by (simp add: sound_def fresh_engine_def engine_inv_def)

lemma history_inv: "inj u \<Longrightarrow> fresh_engine st0 \<Longrightarrow> (engine_event u)\<^sup>*\<^sup>* st0 st \<Longrightarrow> engine_inv (no_env u) st"
  using engine.reach_inv [of u st0 st] fresh_sound by (simp add: sound_def)

section \<open>Fuel\<close>

definition undispatched :: "workflow_graph \<Rightarrow> string \<Rightarrow> engine_state \<Rightarrow> string set" where
  "undispatched g rid st = {i \<in> wn_id ` set (wg_nodes g).
     \<not> (\<exists>r \<in> set (es_nodes st). nr_workflowRunId r = rid \<and> nr_nodeId r = i \<and> nr_attempt r = 1)}"

lemma undispatched_finite [simp]: "finite (undispatched g rid st)"
  by (simp add: undispatched_def)

lemma undispatched_le: "card (undispatched g rid st) \<le> length (wg_nodes g)"
proof -
  have "card (undispatched g rid st) \<le> card (wn_id ` set (wg_nodes g))"
    by (rule card_mono) (auto simp: undispatched_def)
  also have "\<dots> \<le> length (wg_nodes g)"
    using card_image_le [of "set (wg_nodes g)" wn_id] card_length [of "wg_nodes g"] by simp
  finally show ?thesis .
qed

lemma undispatched_grows: "grows tok st st' \<Longrightarrow> undispatched g rid st' \<subseteq> undispatched g rid st"
  unfolding undispatched_def grows_def same_row_def by (smt (verit) Collect_mono)

text \<open>The recursion was not cut.\<close>

definition fuelled :: "engine_state \<times> flow \<Rightarrow> bool" where
  "fuelled r \<longleftrightarrow> snd r \<noteq> No_Fuel"

lemma fuelled_pair [simp]: "fuelled (st, x) \<longleftrightarrow> x \<noteq> No_Fuel"
  by (simp add: fuelled_def)

lemma fuel_and_then:
  "fuelled r \<Longrightarrow> (\<And>st. r = (st, Go) \<Longrightarrow> fuelled (f st)) \<Longrightarrow> fuelled (and_then r f)"
  by (cases r; cases "snd r") (auto simp: and_then_def)

lemma fuel_save_node [simp]: "fuelled (save_node_action nr st)"
  by (simp add: save_node_action_def split: option.split)

lemma fuel_maybeComplete [simp]: "fuelled (maybeComplete env org rid st)"
  by (simp add: maybeComplete_def Let_def split: option.split)

lemma fuel_dispatchAgent [simp]: "fuelled (dispatchAgent env run n cfg outputs attempt st)"
  unfolding dispatchAgent_def Let_def
  by (auto intro!: fuel_and_then split: option.split)

lemma fuel_dispatchApproval [simp]: "fuelled (dispatchApproval env run n p a outputs attempt st)"
  unfolding dispatchApproval_def Let_def
  by (auto intro!: fuel_and_then split: sum.split)

lemma fuel_dispatchGoalHandoff [simp]: "fuelled (dispatchGoalHandoff env run n cfg outputs attempt st)"
  unfolding dispatchGoalHandoff_def Let_def
  by (auto intro!: fuel_and_then split: sum.split)

text \<open>The nested step of an output node starts with that node dispatched.\<close>

lemma fuel_dispatchNode:
  assumes inv: "engine_inv env st" and inj: "inj (en_uuid env)" and d: "dispatchable st run n"
    and n: "n \<in> set (wg_nodes (wr_graph run))"
    and restep: "\<And>st'. engine_inv env st' \<Longrightarrow> grows True st st' \<Longrightarrow>
      undispatched (wr_graph run) (wr_id run) st' \<subset> undispatched (wr_graph run) (wr_id run) st \<Longrightarrow>
      fuelled (restep st')"
  shows "fuelled (dispatchNode env restep run outputs 1 n st)"
proof -
  have "fuelled (dispatchOutput env restep run n cfg outputs 1 st)" for cfg
    unfolding dispatchOutput_def Let_def
  proof (rule fuel_and_then, goal_cases)
    case (2 st2)
    define nr where "nr = (createWorkflowNodeRun (en_uuid env (es_next st)) (wr_id run) (wn_id n) 1
      K_Output Nr_Completed (en_now env))
        \<lparr>nr_outputPath := (case nearestUpstreamOutput (wr_graph run) (wn_id n) outputs of
           None \<Rightarrow> None | Some x \<Rightarrow> no_output_file x),
         nr_outputJson := (case nearestUpstreamOutput (wr_graph run) (wn_id n) outputs of
           None \<Rightarrow> None | Some x \<Rightarrow> no_json x),
         nr_summary := Some (''Output '' @ [CHR 0xB7] @ '' '' @ format_name (oc_format cfg)),
         nr_completedAt := Some (en_now env)\<rparr>"
    have sel: "nr_id nr = en_uuid env (es_next st)" "nr_workflowRunId nr = wr_id run"
      "nr_nodeId nr = wn_id n" "nr_attempt nr = 1" "nr_kind nr = K_Output" by (simp_all add: nr_def)
    have saved: "save_node_action nr (draw st) = (st2, Go)" using 2 by (simp add: nr_def)
    have good: "good env True st (st2, Go)"
      using good_first_row [OF inv inj d sel(1,2,3)] saved sel by simp
    have mem: "nr \<in> set (es_nodes st2)" by (rule saved_new [OF inv inj sel(1) _ saved]) simp
    have "\<not> (\<exists>r \<in> set (es_nodes st). nr_workflowRunId r = wr_id run \<and> nr_nodeId r = wn_id n \<and> nr_attempt r = 1)"
      using saved sel drawn_fresh(1) [OF inv inj]
      by (auto simp: save_node_action_def save_node_def split: if_splits option.splits)
    then have "wn_id n \<in> undispatched (wr_graph run) (wr_id run) st" using n by (simp add: undispatched_def)
    moreover have "wn_id n \<notin> undispatched (wr_graph run) (wr_id run) st2"
      using mem sel by (auto simp: undispatched_def)
    ultimately have "undispatched (wr_graph run) (wr_id run) st2 \<subset> undispatched (wr_graph run) (wr_id run) st"
      using undispatched_grows [of True st st2 "wr_graph run" "wr_id run"] good by (auto simp: good_def)
    then show ?case using restep good by simp
  qed simp
  then show ?thesis by (simp add: dispatchNode_def go_def split: node_config.split)
qed

lemma fuel_step_loop:
  assumes "engine_inv env st" and "\<forall>n \<in> set ns. dispatchable st run n \<and> n \<in> set (wg_nodes (wr_graph run))"
    and "\<And>st n. engine_inv env st \<Longrightarrow> dispatchable st run n \<Longrightarrow> n \<in> set (wg_nodes (wr_graph run)) \<Longrightarrow>
      grows True st0 st \<Longrightarrow> good env True st (dispatch n st) \<and> fuelled (dispatch n st)"
    and "grows True st0 st"
  shows "fuelled (step_loop dispatch env org rid ns st)"
  using assms(1,2,4)
proof (induction ns arbitrary: st)
  case (Cons n ns)
  from Cons.prems assms(3) have d: "good env True st (dispatch n st)" "fuelled (dispatch n st)" by auto
  show ?case
    unfolding step_loop.simps
  proof (rule fuel_and_then [OF d(2)])
    fix st' assume "dispatch n st = (st', Go)"
    with d(1) have st': "engine_inv env st'" "grows True st st'" by simp_all
    with Cons.prems have "\<forall>m \<in> set ns. dispatchable st' run m \<and> m \<in> set (wg_nodes (wr_graph run))"
      by (auto intro: dispatchable_grows)
    with Cons.IH [OF st'(1)] grows_trans [OF Cons.prems(3) st'(2)]
    show "fuelled (if run_is_running org rid st' then step_loop dispatch env org rid ns st' else (st', Go))"
      by simp
  qed
qed simp

lemma get_run_grows:
  assumes "engine_inv env st'" "grows tok st st'" "run \<in> set (es_runs st)" "get_run org (wr_id run) st' = Some run'"
  shows "wr_graph run' = wr_graph run"
proof -
  note r = get_run_Some [OF assms(4)]
  obtain r' where "r' \<in> set (es_runs st')" "same_run tok run r'"
    using assms(2,3) by (auto simp: grows_def)
  then show ?thesis
    using r engine_invD(2) [OF assms(1)] by (auto simp: same_run_def distinct_map inj_on_def)
qed

lemma fuel_stepRun:
  "engine_inv env st \<Longrightarrow> inj (en_uuid env) \<Longrightarrow>
   (\<And>run. get_run org rid st = Some run \<Longrightarrow> card (undispatched (wr_graph run) rid st) < fuel) \<Longrightarrow> fuel > 0 \<Longrightarrow>
   fuelled (stepRun fuel env org rid st)"
proof (induction fuel arbitrary: st)
  case (Suc fuel)
  show ?case
  proof (cases "get_run org rid st")
    case None
    then show ?thesis by simp
  next
    case (Some run)
    note run = get_run_Some [OF Some]
    have "fuelled (step_loop (dispatchNode env (stepRun fuel env org rid) run outs 1) env org rid
        (ready_nodes (wr_graph run) (latestNodeRuns (list_nodes rid st))) st)" for outs
    proof (rule fuel_step_loop [OF Suc.prems(1), where ?st0.0 = st and run = run])
      show "\<forall>n \<in> set (ready_nodes (wr_graph run) (latestNodeRuns (list_nodes rid st))).
          dispatchable st run n \<and> n \<in> set (wg_nodes (wr_graph run))"
        using run ready_nodes_deps by (auto simp: dispatchable_def)
    next
      fix st1 n
      assume st1: "engine_inv env st1" "dispatchable st1 run n" "n \<in> set (wg_nodes (wr_graph run))" "grows True st st1"
      have "fuelled (stepRun fuel env org rid st2)"
        if st2: "engine_inv env st2" "grows True st1 st2"
          "undispatched (wr_graph run) (wr_id run) st2 \<subset> undispatched (wr_graph run) (wr_id run) st1" for st2
      proof (rule Suc.IH [OF st2(1) Suc.prems(2)])
        have sub: "undispatched (wr_graph run) rid st2 \<subset> undispatched (wr_graph run) rid st"
          using st2(3) undispatched_grows [OF st1(4)] run by blast
        have less: "card (undispatched (wr_graph run) rid st2) < fuel"
          using psubset_card_mono [OF undispatched_finite sub] Suc.prems(3) [OF Some] by simp
        then show "0 < fuel" by simp
        fix run' assume "get_run org rid st2 = Some run'"
        then have "wr_graph run' = wr_graph run"
          using get_run_grows [OF st2(1) grows_trans [OF st1(4) st2(2)], of run org run'] run by simp
        with less show "card (undispatched (wr_graph run') rid st2) < fuel" by simp
      qed
      then show "good env True st1 (dispatchNode env (stepRun fuel env org rid) run outs 1 n st1) \<and>
          fuelled (dispatchNode env (stepRun fuel env org rid) run outs 1 n st1)"
        by (intro conjI dispatchNode_good [OF st1(1) Suc.prems(2) st1(2)] stepRun_good [OF _ Suc.prems(2)]
            fuel_dispatchNode [OF st1(1) Suc.prems(2) st1(2,3)])
    qed (simp)
    with Some show ?thesis by (simp add: Let_def)
  qed
qed simp

lemma fuel_step:
  assumes "engine_inv env st" "inj (en_uuid env)"
  shows "fuelled (step env org rid st)"
  unfolding step_def
  by (rule fuel_stepRun [OF assms])
    (auto simp: step_fuel_def less_Suc_eq_le intro: le_SucI undispatched_le split: option.split)

section \<open>Progress\<close>

text \<open>Every node of the main flow but a trigger has a predecessor.\<close>

definition main_connected :: "workflow_graph \<Rightarrow> bool" where
  "main_connected g = list_all (\<lambda>n. wn_kind n \<in> set MAIN_FLOW_KINDS \<longrightarrow> wn_kind n \<noteq> K_Trigger \<longrightarrow>
     mainPredecessors g (wn_id n) \<noteq> []) (wg_nodes g)"

text \<open>Nothing is under way or has failed, and the triggers are seeded.\<close>

definition settled :: "workflow_graph \<Rightarrow> (string \<times> node_run) list \<Rightarrow> bool" where
  "settled g latest \<longleftrightarrow> list_all (\<lambda>(_, nr). done_status (nr_status nr)) latest \<and>
     list_all (is_done latest) (trigger_ids g)"

lemma kv_get_mem: "kv_get m i = Some v \<Longrightarrow> (i, v) \<in> set m"
  by (auto simp: kv_get_def dest: tbl_find_Some)

lemma main_edges_wf: "graph_ok ctx g \<Longrightarrow> wf (main_edges g)"
proof (rule finite_acyclic_wf)
  have "main_edges g \<subseteq> wn_id ` set (wg_nodes g) \<times> wn_id ` set (wg_nodes g)"
    by (auto simp: main_edges_iff)
  then show "finite (main_edges g)" by (rule finite_subset) simp
qed (rule graph_ok_parts(4))

lemma main_predecessor:
  assumes "graph_ok ctx g" "p \<in> set (mainPredecessors g i)"
  shows "(p, i) \<in> main_edges g \<and> (\<exists>n \<in> set (wg_nodes g). wn_id n = p \<and> wn_kind n \<in> set MAIN_FLOW_KINDS)"
proof -
  from assms(2) obtain e where e: "e \<in> set (wg_edges g)" "we_targetPort e = Main" "we_target e = i" "we_source e = p"
    by (auto simp: mainPredecessors_def)
  with graph_ok_parts(3) [OF assms(1)] have "edge_fits g e" by blast
  with e show ?thesis
    by (auto simp: edge_fits_def main_edges_iff dest!: nodes_by_id_Some intro: rev_image_eqI)
qed

lemma settled_all_done:
  assumes ok: "graph_ok ctx g" and conn: "main_connected g" and settled: "settled g latest"
    and quiet: "ready_nodes g latest = []"
  shows "n \<in> set (wg_nodes g) \<Longrightarrow> wn_kind n \<in> set MAIN_FLOW_KINDS \<Longrightarrow> is_done latest (wn_id n)"
proof (induction "wn_id n" arbitrary: n rule: wf_induct_rule [OF main_edges_wf [OF ok]])
  case 1
  show ?case
  proof (cases "wn_kind n = K_Trigger")
    case True
    with 1 settled show ?thesis by (auto simp: settled_def trigger_ids_def list_all_iff)
  next
    case False
    have "is_done latest p" if "p \<in> set (mainPredecessors g (wn_id n))" for p
      using main_predecessor [OF ok that] 1(1) by blast
    moreover have "mainPredecessors g (wn_id n) \<noteq> []"
      using conn 1(2,3) False by (auto simp: main_connected_def list_all_iff)
    moreover have "n \<notin> set (ready_nodes g latest)" by (simp add: quiet)
    ultimately obtain nr where nr: "kv_get latest (wn_id n) = Some nr"
      using 1(2,3) False by (auto simp: ready_nodes_def list_all_iff)
    with settled show ?thesis
      by (auto simp: is_done_def settled_def list_all_iff dest!: kv_get_mem)
  qed
qed

lemma find_map: "find P (map f xs) = map_option f (find (\<lambda>x. P (f x)) xs)"
  by (induction xs) auto

lemma get_run_setRunStatus:
  assumes "get_run org rid st = Some run"
  shows "\<exists>run'. get_run org rid (setRunStatus env org rid s token st) = Some run' \<and> wr_status run' = s \<and>
    wr_lastTransitionToken run' = or_default token (wr_lastTransitionToken run)"
proof -
  define new where "new = run\<lparr>wr_status := s,
    wr_lastTransitionToken := or_default token (wr_lastTransitionToken run), wr_updatedAt := en_now env\<rparr>"
  define f where "f x = (if wr_id x = wr_id new then x\<lparr>wr_status := wr_status new,
    wr_lastTransitionToken := wr_lastTransitionToken new, wr_updatedAt := wr_updatedAt new\<rparr> else x)"
    for x :: workflow_run
  have run: "run \<in> set (es_runs st)" "wr_id run = rid" using get_run_Some [OF assms] by simp_all
  have "es_runs (setRunStatus env org rid s token st) = map f (es_runs st)"
    using run(1) assms tbl_upsert_existing [of wr_id new "es_runs st"]
    by (auto simp: setRunStatus_def save_run_def new_def f_def)
  moreover have "wr_organizationId (f x) = wr_organizationId x" "wr_id (f x) = wr_id x" for x
    by (simp_all add: f_def)
  ultimately have "get_run org rid (setRunStatus env org rid s token st) = Some (f run)"
    using assms by (simp add: get_run_def find_map)
  then show ?thesis by (simp add: f_def new_def)
qed

lemma get_run_log [simp]: "get_run org rid (log_effect e st) = get_run org rid st"
  by (simp add: get_run_def)

lemma get_run_notify [simp]:
  "get_run org rid (notify o' r m i st) = get_run org rid st"
  "get_run org rid (postFailedCard o' r st) = get_run org rid st"
  by (simp_all add: notify_def postFailedCard_def split: option.split)

lemma maybeComplete_settled:
  assumes run: "get_run org rid st = Some run" "wr_status run = Run_Running" and ok: "graph_ok ctx (wr_graph run)"
    and conn: "main_connected (wr_graph run)"
    and settled: "settled (wr_graph run) (latestNodeRuns (list_nodes rid st))"
    and quiet: "ready_nodes (wr_graph run) (latestNodeRuns (list_nodes rid st)) = []"
  shows "\<exists>run'. get_run org rid (fst (maybeComplete env org rid st)) = Some run' \<and> wr_status run' = Run_Completed"
proof -
  have "list_all (\<lambda>n. is_done (latestNodeRuns (list_nodes rid st)) (wn_id n))
      (filter (\<lambda>n. wn_kind n \<in> set MAIN_FLOW_KINDS) (wg_nodes (wr_graph run)))"
    using settled_all_done [OF ok conn settled quiet] by (auto simp: list_all_iff)
  moreover have "\<not> list_ex (\<lambda>(_, nr). active_status (nr_status nr)) (latestNodeRuns (list_nodes rid st))"
    using settled by (force simp: settled_def list_all_iff list_ex_iff active_status_def done_status_def)
  ultimately show ?thesis
    using run get_run_setRunStatus [OF run(1), of env Run_Completed None]
    by (auto simp: maybeComplete_def Let_def)
qed

section \<open>Transitions and completions\<close>

lemma get_run_token_grows:
  assumes "engine_inv env st'" "grows True st st'" "get_run org rid st = Some run"
  shows "\<exists>run'. get_run org rid st' = Some run' \<and> wr_lastTransitionToken run' = wr_lastTransitionToken run"
proof -
  note run = get_run_Some [OF assms(3)]
  obtain r' where r': "r' \<in> set (es_runs st')" "same_run True run r'"
    using assms(2) run by (auto simp: grows_def)
  then have "get_run org rid st' \<noteq> None" using run by (auto simp: get_run_def find_None_iff same_run_def)
  then obtain run' where run': "get_run org rid st' = Some run'" by auto
  then have "run' = r'"
    using get_run_Some [OF run'] r' run engine_invD(2) [OF assms(1)]
    by (auto simp: same_run_def distinct_map inj_on_def)
  with run' r' show ?thesis by (auto simp: same_run_def)
qed

text \<open>What follows a status change with a token keeps the token.\<close>

lemma token_kept:
  assumes inv: "engine_inv env st" and run: "get_run org rid st \<noteq> None"
    and s: "s \<noteq> Run_Completed"
    and r: "good env True (setRunStatus env org rid s (Some key) st) r"
  shows "\<exists>run'. get_run org rid (fst r) = Some run' \<and> wr_lastTransitionToken run' = Some key"
proof -
  obtain run1 where run1: "get_run org rid (setRunStatus env org rid s (Some key) st) = Some run1"
    "wr_lastTransitionToken run1 = Some key"
    using run get_run_setRunStatus [of org rid st _ env s "Some key"] by auto
  show ?thesis using get_run_token_grows [OF _ _ run1(1), of env "fst r"] r run1(2) by (simp add: good_def)
qed

lemma and_then_Go: "and_then r f = (st', Go) \<Longrightarrow> \<exists>st1. r = (st1, Go) \<and> f st1 = (st', Go)"
  by (cases r; cases "snd r") (auto simp: and_then_def)

lemma get_run_kept:
  "engine_inv env st' \<Longrightarrow> grows True st st' \<Longrightarrow> get_run org rid st \<noteq> None \<Longrightarrow> get_run org rid st' \<noteq> None"
  using get_run_token_grows by fastforce

lemma transition_sets_token:
  assumes inv: "engine_inv env st" and inj: "inj (en_uuid env)"
    and ok: "transition env t st = ((st', Go), Ok_Done)"
  shows "\<exists>run. get_run (ti_organizationId t) (ti_workflowRunId t) st' = Some run \<and>
    wr_lastTransitionToken run = Some (ti_idempotencyKey t)"
proof -
  define org rid key where "org = ti_organizationId t" and "rid = ti_workflowRunId t" and "key = ti_idempotencyKey t"
  note names = org_def [symmetric] rid_def [symmetric] key_def [symmetric]
  obtain run where run: "get_run org rid st = Some run"
    using ok by (auto simp: transition_def Let_def org_def rid_def split: option.splits)
  have fresh: "\<not> already_applied run key"
    using ok run by (auto simp: transition_def Let_def names)
  note start = transition_def Let_def names run fresh option.case if_False
  have stepped: ?thesis
    if "good env True st (st1, Go)" "step env org rid (setRunStatus env org rid Run_Running (Some key) st1) = (st', Go)"
    for st1
    using token_kept [of env st1 org rid Run_Running key "(st', Go)"] get_run_kept [of env st1 st org rid] that run
      step_good [OF good_set_status(1) inj, of st1 Run_Running org rid "Some key" org rid]
    by (simp add: names good_def)
  note resolved = resolve_awaiting_good [OF inv, of _ rid]
  show ?thesis
  proof (cases "ti_action t")
    case Approve
    with ok obtain st1 where "resolve_awaiting (\<lambda>nr. nr\<lparr>nr_status := Nr_Completed,
        nr_summary := Some (coalesce (nr_summary nr) ''approved''),
        nr_completedAt := Some (en_now env)\<rparr>) (latestNodeRuns (list_nodes rid st)) st = (st1, Go)"
      "step env org rid (setRunStatus env org rid Run_Running (Some key) st1) = (st', Go)"
      by (auto simp: start dest!: and_then_Go)
    then show ?thesis using stepped resolved [of "\<lambda>nr. nr\<lparr>nr_status := Nr_Completed,
        nr_summary := Some (coalesce (nr_summary nr) ''approved''), nr_completedAt := Some (en_now env)\<rparr>"] by simp
  next
    case Reject
    define f where "f nr = nr\<lparr>nr_status := Nr_Failed,
        nr_failureReason := Some (''rejected: '' @ coalesce (ti_rejectionReason t) []),
        nr_completedAt := Some (en_now env)\<rparr>" for nr :: node_run
    from Reject ok obtain st1 where st1: "resolve_awaiting f (latestNodeRuns (list_nodes rid st)) st = (st1, Go)"
      and st': "st' = postFailedCard org rid (notify org rid
        (''Approval rejected: '' @ coalesce (ti_rejectionReason t) []) None (setRunStatus env org rid Run_Paused (Some key) st1))"
      by (auto simp: start f_def [abs_def] dest!: and_then_Go)
    have "engine_inv env st1" "get_run org rid st1 \<noteq> None"
      using resolved [of f] st1 run get_run_kept [of env st1 st org rid] by (simp_all add: f_def)
    then show ?thesis
      using get_run_setRunStatus [of org rid st1 _ env Run_Paused "Some key"] by (auto simp: st' names)
  next
    case Abort
    with ok have "st' = postFailedCard org rid (setRunStatus env org rid Run_Failed (Some key) st)"
      by (simp add: start)
    then show ?thesis
      using get_run_setRunStatus [OF run, of env Run_Failed "Some key"] by (auto simp: names)
  next
    case Retry
    define st1 where "st1 = setRunStatus env org rid Run_Running (Some key) st"
    from Retry ok obtain failed where failed: "latestFailed (latestNodeRuns (list_nodes rid st)) = Some failed"
      by (auto simp: start split: option.splits)
    obtain run1 where run1: "get_run org rid st1 = Some run1"
      using get_run_setRunStatus [OF run] unfolding st1_def by blast
    have inv1: "engine_inv env st1" unfolding st1_def by (rule good_set_status(1) [OF inv]) simp
    note row = latestFailed_Some [OF failed]
    have "failed \<in> set (es_nodes st1)" using row by (simp add: st1_def)
    note retry = retry_good [OF inv1 inj this _ _ run1]
    have "good env True st1 (st', Go)"
      using ok Retry retry [of "buildNodeOutputs (list_nodes rid st1)" "nr_attempt failed + 1"] row run1
      unfolding st1_def by (simp add: start failed)
    then show ?thesis
      using token_kept [OF inv, of org rid Run_Running key "(st', Go)"] run by (simp add: st1_def names)
  next
    case Skip
    from Skip ok obtain failed where failed: "latestFailed (latestNodeRuns (list_nodes rid st)) = Some failed"
      by (auto simp: start split: option.splits)
    define nr where "nr = failed\<lparr>nr_status := Nr_Skipped,
        nr_summary := Some (coalesce (nr_summary failed) ''(skipped)''), nr_completedAt := Some (en_now env)\<rparr>"
    have "good env True st (save_node_action nr st)"
      by (rule good_save_node_update [OF inv, of failed])
        (use latestFailed_Some [OF failed] in \<open>simp_all add: nr_def\<close>)
    moreover from ok Skip failed obtain st1 where "save_node_action nr st = (st1, Go)"
      "step env org rid (setRunStatus env org rid Run_Running (Some key) st1) = (st', Go)"
      by (auto simp: start nr_def dest!: and_then_Go)
    ultimately show ?thesis using stepped by simp
  qed
qed
end
