(* ===== verification/WorkflowClaims.thy ===== *)
theory WorkflowClaims
  imports WorkflowSafety
begin

text \<open>
  The properties of workflow graphs and of the workflow engine, with the concrete
  environment, graphs and histories their witnesses run.
\<close>

section \<open>Concrete inputs\<close>

definition demo_uuid :: "nat \<Rightarrow> string" where
  "demo_uuid k = replicate k (CHR ''u'')"

lemma demo_uuid_inj [simp]: "inj demo_uuid"
  unfolding demo_uuid_def by (rule injI) (metis length_replicate)

definition demo_env :: engine_env where
  "demo_env = \<lparr>en_uuid = demo_uuid, en_now = 1000, en_spawn = (\<lambda>_. None), en_approval = (\<lambda>_. Inr ''ap''),
     en_goal = (\<lambda>_. Inr ''goal''), en_thread = (\<lambda>_. Inr ''thread''),
     en_stat = (\<lambda>p. Some (''sha'', 1)), en_runStatus = (\<lambda>_. None), en_parse = (\<lambda>_. None)\<rparr>"

definition demo_trigger :: workflow_node where
  "demo_trigger = \<lparr>wn_id = ''t'', wn_label = None, wn_config = C_Trigger Src_Manual\<rparr>"

definition demo_agent :: "string \<Rightarrow> workflow_node" where
  "demo_agent i = \<lparr>wn_id = i, wn_label = None, wn_config = C_Agent
     \<lparr>ac_agentId = ''ada'', ac_prompt = ''Read {{input}}'', ac_outputPath = None, ac_requiresApproval = False\<rparr>\<rparr>"

definition demo_output :: workflow_node where
  "demo_output = \<lparr>wn_id = ''o'', wn_label = None, wn_config = C_Output
     \<lparr>oc_format = Fmt_Text, oc_instructions = None, oc_outputPath = None\<rparr>\<rparr>"

definition demo_edge :: "string \<Rightarrow> string \<Rightarrow> raw_edge" where
  "demo_edge a b = \<lparr>re_id = a @ b, re_source = a, re_sourcePort = None, re_target = b, re_targetPort = None\<rparr>"

definition demo_start :: "workflow_node list \<Rightarrow> raw_edge list \<Rightarrow> start_input" where
  "demo_start nodes edges = \<lparr>sr_organizationId = ''org'', sr_definitionId = None, sr_definitionName = None,
     sr_inlineGraph = Some (nodes, edges), sr_name = None, sr_input = ''hi'', sr_initiatedBy = ''ann'',
     sr_channelId = ''ch'', sr_threadId = ''th''\<rparr>"

definition demo_empty :: engine_state where
  "demo_empty = \<lparr>es_defs = [], es_runs = [], es_nodes = [], es_next = 0, es_log = [],
     es_lastReminder = (\<lambda>_. None), es_reminderCount = (\<lambda>_. None)\<rparr>"

lemma demo_fresh [simp]: "fresh_engine demo_empty"
  by (simp add: fresh_engine_def demo_empty_def)

definition demo_context :: validation_context where
  "demo_context = \<lparr>vc_agentIds = None, vc_skillNames = None, vc_toolIds = None\<rparr>"

text \<open>A trigger with one agent behind it, just started.\<close>

definition demo_run :: engine_state where
  "demo_run = fst (fst (startRun demo_env
     (demo_start [demo_trigger, demo_agent ''a''] [demo_edge ''t'' ''a'']) demo_empty))"

lemma demo_run_reached: "(engine_event demo_uuid)\<^sup>*\<^sup>* demo_empty demo_run"
  unfolding demo_run_def
  by (rule r_into_rtranclp, rule engine_event.started) (simp add: demo_env_def)

lemma demo_run_inv: "engine_inv demo_env demo_run"
  using history_inv [OF demo_uuid_inj demo_fresh demo_run_reached] sound_iff [of demo_env demo_uuid demo_run]
  by (simp add: sound_def demo_env_def)

section \<open>Graphs\<close>

text \<open>
  C16: A graph the validator accepts has distinct node ids, exactly one trigger, edges that
  fit their ports, an acyclic main flow, only known tokens that name strict ancestors of
  their node, and output paths that stay inside the workspace by their text.\<close>
theorem validator_sound:
  assumes "graph_ok ctx g"
  shows "distinct (map wn_id (wg_nodes g)) \<and>
    length (filter (\<lambda>n. wn_kind n = K_Trigger) (wg_nodes g)) = 1 \<and>
    set (wg_edges g) \<subseteq> {e. edge_fits g e} \<and> acyclic (main_edges g) \<and>
    set (wg_nodes g) \<subseteq> {n. set (node_texts (wn_config n)) \<subseteq> {t. tokens_upstream g (wn_id n) t} \<and>
      set (output_paths (wn_config n)) \<inter> {p. isUnsafeWorkspacePath p} = {}}"
  using graph_ok_parts [OF assms] by blast

text \<open>At the graph of a trigger and one agent.\<close>
theorem validator_sound_witness:
  "\<exists>g. graph_ok demo_context g \<and> acyclic (main_edges g) \<and> length (wg_nodes g) = 2"
proof (intro exI conjI)
  let ?g = "normalizeWorkflowGraph [demo_trigger, demo_agent ''a''] [demo_edge ''t'' ''a'']"
  show ok: "graph_ok demo_context ?g" by code_simp
  show "acyclic (main_edges ?g)" using validator_sound [OF ok] by blast
  show "length (wg_nodes ?g) = 2" by code_simp
qed

text \<open>
  C17: The depth-first search of the validator reports a cycle of the main flow exactly when
  there is one; its ancestor worklist yields exactly the nodes with a path to the given one.\<close>
theorem cycle_search_exact:
  "(hasCycle (main_keys g) (main_adj g) \<longleftrightarrow> \<not> acyclic (main_edges g)) \<and>
   computeAncestors (main_keys g) (main_adj g) i = {x. (x, i) \<in> (main_edges g)\<^sup>+}"
  using cycle_issue [of g] ancestors_are_upstream [of _ g i] by blast

section \<open>Histories of the engine\<close>

text \<open>
  C11: In every history of the engine, started from a store without runs, a node other than
  a trigger has a row only after all its predecessors on the main flow, of which there is
  at least one, have completed or were skipped.\<close>
theorem dependencies_first:
  assumes "inj u" and "fresh_engine st0" and "(engine_event u)\<^sup>*\<^sup>* st0 st"
    and "run \<in> set (es_runs st)" and "r \<in> set (es_nodes st)" and "nr_workflowRunId r = wr_id run"
    and "nr_kind r \<noteq> K_Trigger"
  shows "mainPredecessors (wr_graph run) (nr_nodeId r) \<noteq> [] \<and>
    set (mainPredecessors (wr_graph run) (nr_nodeId r)) \<subseteq> {p. node_done st (wr_id run) p}"
  using engine_invD(7) [OF history_inv [OF assms(1-3)] assms(4-6)] assms(7)
  by (auto simp: row_ok_def deps_done_def)

text \<open>On the started run: the agent's row follows the trigger's.\<close>
theorem dependencies_first_witness:
  "\<exists>run (r :: node_run). run \<in> set (es_runs demo_run) \<and> nr_kind r = K_Agent \<and> node_done demo_run (wr_id run) ''t''"
proof (intro exI conjI)
  let ?run = "hd (es_runs demo_run)" and ?r = "last (es_nodes demo_run)"
  have mem: "?run \<in> set (es_runs demo_run)" "?r \<in> set (es_nodes demo_run)"
    "nr_workflowRunId ?r = wr_id ?run" "mainPredecessors (wr_graph ?run) (nr_nodeId ?r) = [''t'']" by code_simp+
  show "?run \<in> set (es_runs demo_run)" by (rule mem)
  show kind: "nr_kind ?r = K_Agent" by code_simp
  have "nr_kind ?r \<noteq> K_Trigger" by (simp add: kind)
  from dependencies_first [OF demo_uuid_inj demo_fresh demo_run_reached mem(1-3) this] mem(4)
  show "node_done demo_run (wr_id ?run) ''t''" by simp
qed

text \<open>
  C13: A node run that has completed or was skipped is never changed or lost again, and no
  attempt of a node gets a second row, whatever handlers follow.\<close>
theorem finished_rows_final:
  assumes "inj u" and "fresh_engine st0" and "(engine_event u)\<^sup>*\<^sup>* st0 st" and "(engine_event u)\<^sup>*\<^sup>* st st'"
    and "r \<in> set (es_nodes st)" and "done_status (nr_status r)"
  shows "r \<in> set (es_nodes st') \<and>
    {x \<in> set (es_nodes st'). nr_workflowRunId x = nr_workflowRunId r \<and> nr_nodeId x = nr_nodeId r \<and>
       nr_attempt x = nr_attempt r} = {r}"
proof -
  have "sound u st" using engine.reach_inv [OF assms(3)] fresh_sound assms(1,2) by blast
  then have "grows False st st'" and inv: "engine_inv (no_env u) st'"
    using engine.reach_both [OF assms(4)] by (auto simp: sound_def)
  then have "r \<in> set (es_nodes st')"
    using assms(5,6) by (auto simp: grows_def same_row_def)
  then show ?thesis using engine_invD(5) [OF inv] by auto
qed

text \<open>On the started run: a sweep leaves the trigger's row alone.\<close>
theorem finished_rows_final_witness:
  "hd (es_nodes demo_run) \<in> set (es_nodes (fst (sweep demo_env ''org'' demo_run)))"
proof -
  have "(engine_event demo_uuid)\<^sup>*\<^sup>* demo_run (fst (sweep demo_env ''org'' demo_run))"
    by (rule r_into_rtranclp, rule engine_event.swept) (simp add: demo_env_def)
  moreover have "hd (es_nodes demo_run) \<in> set (es_nodes demo_run)"
    "done_status (nr_status (hd (es_nodes demo_run)))" by code_simp+
  ultimately show ?thesis
    using finished_rows_final [OF demo_uuid_inj demo_fresh demo_run_reached] by blast
qed

text \<open>
  C12: A run with status completed has a completed or skipped row for every node of its main
  flow, in every history.\<close>
theorem completed_runs_are_complete:
  assumes "inj u" and "fresh_engine st0" and "(engine_event u)\<^sup>*\<^sup>* st0 st"
    and "run \<in> set (es_runs st)" and "wr_status run = Run_Completed"
  shows "set (main_node_ids (wr_graph run)) \<subseteq> {i. node_done st (wr_id run) i}"
  using engine_invD(8) [OF history_inv [OF assms(1-3)] assms(4,5)] by blast

text \<open>On the run of a graph with a trigger and an output node, which completes at once.\<close>
theorem completed_runs_are_complete_witness:
  "\<exists>(run :: workflow_run) st. wr_status run = Run_Completed \<and> node_done st (wr_id run) ''o''"
proof (intro exI conjI)
  let ?st = "fst (fst (startRun demo_env (demo_start [demo_trigger, demo_output] [demo_edge ''t'' ''o'']) demo_empty))"
  let ?run = "hd (es_runs ?st)"
  have reach: "(engine_event demo_uuid)\<^sup>*\<^sup>* demo_empty ?st"
    by (rule r_into_rtranclp, rule engine_event.started) (simp add: demo_env_def)
  have run: "?run \<in> set (es_runs ?st)" "''o'' \<in> set (main_node_ids (wr_graph ?run))" by code_simp+
  show fin: "wr_status ?run = Run_Completed" by code_simp
  from completed_runs_are_complete [OF demo_uuid_inj demo_fresh reach run(1) fin] run(2)
  show "node_done ?st (wr_id ?run) ''o''" by blast
qed

text \<open>
  C15: The step function never exhausts the fuel the model gives it: every nested call of an
  output node starts with one more node dispatched, and a graph has finitely many.\<close>
theorem step_terminates:
  assumes "engine_inv env st" and "inj (en_uuid env)"
  shows "snd (step env org rid st) \<noteq> No_Fuel"
  using fuel_step [OF assms] by (simp add: fuelled_def)

text \<open>On the started run.\<close>
theorem step_terminates_witness: "snd (step demo_env ''org'' (demo_uuid 0) demo_run) \<noteq> No_Fuel"
  by (rule step_terminates [OF demo_run_inv]) (simp add: demo_env_def)

text \<open>
  C14: A running run of a valid graph, with every main-flow node but the trigger connected,
  nothing under way and nothing failed, does not hang: a step finds a node to dispatch, or
  it completes the run.\<close>
theorem no_run_hangs:
  assumes "get_run org rid st = Some run" and "wr_status run = Run_Running"
    and "graph_ok ctx (wr_graph run)" and "main_connected (wr_graph run)"
    and "settled (wr_graph run) (latestNodeRuns (list_nodes rid st))"
  shows "ready_nodes (wr_graph run) (latestNodeRuns (list_nodes rid st)) \<noteq> [] \<or>
    (\<exists>run'. get_run org rid (fst (step env org rid st)) = Some run' \<and> wr_status run' = Run_Completed)"
proof (cases "ready_nodes (wr_graph run) (latestNodeRuns (list_nodes rid st))")
  case Nil
  have "step env org rid st = maybeComplete env org rid st"
    using assms(1,2) Nil by (simp add: step_def step_fuel_def)
  then show ?thesis using maybeComplete_settled [OF assms(1-5) Nil, of env] by simp
qed simp

text \<open>On the run whose agent has just finished: the completion step ends it.\<close>

definition demo_finished :: engine_state where
  "demo_finished = (let r = last (es_nodes demo_run) in
     fst (save_node_action (r\<lparr>nr_status := Nr_Completed\<rparr>) demo_run))"

theorem no_run_hangs_witness:
  "\<exists>run'. get_run ''org'' (demo_uuid 0) (fst (step demo_env ''org'' (demo_uuid 0) demo_finished)) = Some run' \<and>
     wr_status run' = Run_Completed"
proof -
  have "get_run ''org'' (demo_uuid 0) demo_finished = Some (hd (es_runs demo_finished))"
    "wr_status (hd (es_runs demo_finished)) = Run_Running"
    "graph_ok demo_context (wr_graph (hd (es_runs demo_finished)))"
    "main_connected (wr_graph (hd (es_runs demo_finished)))"
    "settled (wr_graph (hd (es_runs demo_finished))) (latestNodeRuns (list_nodes (demo_uuid 0) demo_finished))"
    "ready_nodes (wr_graph (hd (es_runs demo_finished))) (latestNodeRuns (list_nodes (demo_uuid 0) demo_finished)) = []"
    by code_simp+
  with no_run_hangs [of "''org''" "demo_uuid 0" demo_finished _ demo_context demo_env] show ?thesis by metis
qed

text \<open>
  A transition that was applied is remembered: repeating its key on its run, whatever
  the action, changes nothing and reports an idempotent success.\<close>
theorem transition_idempotent:
  assumes "engine_inv env st" and "inj (en_uuid env)"
    and "transition env t st = ((st', Go), Ok_Done)" and "ti_idempotencyKey t \<noteq> []"
  shows "transition env' (t\<lparr>ti_action := a\<rparr>) st' = ((st', Go), Ok_Idempotent)"
proof -
  obtain run where "get_run (ti_organizationId t) (ti_workflowRunId t) st' = Some run"
    "wr_lastTransitionToken run = Some (ti_idempotencyKey t)"
    using transition_sets_token [OF assms(1-3)] by blast
  with assms(4) show ?thesis
    by (simp add: transition_def Let_def already_applied_def truthy_def)
qed

definition demo_abort :: transition_input where
  "demo_abort = \<lparr>ti_organizationId = ''org'', ti_workflowRunId = demo_uuid 0, ti_action = Abort,
     ti_idempotencyKey = ''k1'', ti_rejectionReason = None\<rparr>"

text \<open>On the started run, aborted twice.\<close>
theorem transition_idempotent_witness:
  "let st' = fst (fst (transition demo_env demo_abort demo_run))
   in transition demo_env demo_abort st' = ((st', Go), Ok_Idempotent)"
proof -
  let ?st' = "fst (fst (transition demo_env demo_abort demo_run))"
  have parts: "snd (fst (transition demo_env demo_abort demo_run)) = Go"
    "snd (transition demo_env demo_abort demo_run) = Ok_Done" by code_simp+
  have first: "transition demo_env demo_abort demo_run = ((?st', Go), Ok_Done)"
    by (intro prod_eqI) (simp_all add: parts)
  have "ti_idempotencyKey demo_abort \<noteq> []" "demo_abort\<lparr>ti_action := Abort\<rparr> = demo_abort" "inj (en_uuid demo_env)"
    by (simp_all add: demo_abort_def demo_env_def)
  with transition_idempotent [OF demo_run_inv _ first, of demo_env Abort] show ?thesis by simp
qed

text \<open>
  An abort is not final: when a node run that is still under way fails later, its run
  goes back to paused, whatever status it had.\<close>
theorem late_failure_reopens:
  assumes "get_run (nc_organizationId input) (nc_workflowRunId input) st = Some run"
    and "get_node (nc_workflowRunId input) (nc_nodeRunId input) st = Some nr"
    and "active_status (nr_status nr)" and "nc_failed input"
  shows "\<exists>run'. get_run (nc_organizationId input) (nc_workflowRunId input) (fst (onNodeComplete env input st)) = Some run' \<and>
    wr_status run' = Run_Paused"
proof -
  note nr = get_node_Some [OF assms(2)]
  define new where "new = nr\<lparr>nr_status := Nr_Failed,
    nr_failureReason := Some (coalesce (nc_failureReason input) ''agent_run_failed''),
    nr_completedAt := Some (en_now env)\<rparr>"
  have "nr_id new \<in> nr_id ` set (es_nodes st)" using nr by (auto simp: new_def intro: rev_image_eqI)
  then obtain ns where "save_node_action new st = (st\<lparr>es_nodes := ns\<rparr>, Go)"
    by (simp add: save_node_action_def save_node_def)
  moreover have "get_run (nc_organizationId input) (nc_workflowRunId input) (st\<lparr>es_nodes := ns\<rparr>) = Some run"
    using assms(1) by (simp add: get_run_def)
  ultimately show ?thesis
    using assms(2-4) nr get_run_setRunStatus [of "nc_organizationId input" "nc_workflowRunId input"
        "st\<lparr>es_nodes := ns\<rparr>" run env Run_Paused None]
    by (auto simp: onNodeComplete_def Let_def fail_node_def new_def [symmetric] and_then_def
        active_status_def done_status_def)
qed

text \<open>On the started run, aborted, whose agent then fails.\<close>
theorem late_failure_reopens_witness:
  "let st = fst (fst (transition demo_env demo_abort demo_run)); nr = last (es_nodes st) in
   wr_status (hd (es_runs st)) = Run_Failed \<and>
   (\<exists>run'. get_run ''org'' (demo_uuid 0)
      (fst (onNodeComplete demo_env (completion_of ''org'' nr ''cancelled'') st)) = Some run' \<and>
    wr_status run' = Run_Paused)"
proof -
  define st where "st = fst (fst (transition demo_env demo_abort demo_run))"
  define nr where "nr = last (es_nodes st)"
  have st: "wr_status (hd (es_runs st)) = Run_Failed" "get_run ''org'' (demo_uuid 0) st = Some (hd (es_runs st))"
    unfolding st_def by code_simp+
  have nr: "get_node (demo_uuid 0) (nr_id nr) st = Some nr" "nr_workflowRunId nr = demo_uuid 0"
    "active_status (nr_status nr)"
    unfolding nr_def st_def by code_simp+
  from late_failure_reopens [of "completion_of ''org'' nr ''cancelled''" st _ nr demo_env] st nr show ?thesis
    unfolding st_def [symmetric] nr_def [symmetric] Let_def by (simp add: completion_of_def)
qed

text \<open>
  The validator accepts graphs with a main-flow node that is not the trigger and has no
  predecessor; a run of such a graph never completes, in any history.\<close>
theorem unreachable_node_blocks:
  assumes "inj u" and "fresh_engine st0" and "(engine_event u)\<^sup>*\<^sup>* st0 st" and "run \<in> set (es_runs st)"
    and "graph_ok ctx (wr_graph run)" and "n \<in> set (wg_nodes (wr_graph run))"
    and "wn_kind n \<in> set MAIN_FLOW_KINDS" and "wn_kind n \<noteq> K_Trigger"
    and "mainPredecessors (wr_graph run) (wn_id n) = []"
  shows "wr_status run \<noteq> Run_Completed"
proof
  assume "wr_status run = Run_Completed"
  note inv = history_inv [OF assms(1-3)]
  have "wn_id n \<in> set (main_node_ids (wr_graph run))" using assms(6,7) by (auto simp: main_node_ids_def)
  then have "node_done st (wr_id run) (wn_id n)"
    using engine_invD(8) [OF inv assms(4) \<open>wr_status run = Run_Completed\<close>] by blast
  then obtain r where "r \<in> set (es_nodes st)" "nr_workflowRunId r = wr_id run" "nr_nodeId r = wn_id n"
    by (auto simp: node_done_def)
  then have "wn_id n \<in> set (trigger_ids (wr_graph run))"
    using engine_invD(7) [OF inv assms(4), of r] assms(9) by (auto simp: row_ok_def deps_done_def split: if_splits)
  then show False
    using graph_ok_parts(1) [OF assms(5)] assms(6,8) by (auto simp: trigger_ids_def distinct_map inj_on_def)
qed

text \<open>On the run of a graph with an agent that no edge reaches.\<close>
theorem unreachable_node_blocks_witness:
  "\<exists>run :: workflow_run. graph_ok demo_context (wr_graph run) \<and> length (wg_nodes (wr_graph run)) = 2 \<and> wr_status run \<noteq> Run_Completed"
proof (intro exI conjI)
  let ?st = "fst (fst (startRun demo_env (demo_start [demo_trigger, demo_agent ''a''] []) demo_empty))"
  let ?run = "hd (es_runs ?st)"
  have reach: "(engine_event demo_uuid)\<^sup>*\<^sup>* demo_empty ?st"
    by (rule r_into_rtranclp, rule engine_event.started) (simp add: demo_env_def)
  show ok: "graph_ok demo_context (wr_graph ?run)" by code_simp
  show "length (wg_nodes (wr_graph ?run)) = 2" by code_simp
  have n: "?run \<in> set (es_runs ?st)" "last (wg_nodes (wr_graph ?run)) \<in> set (wg_nodes (wr_graph ?run))"
    "wn_kind (last (wg_nodes (wr_graph ?run))) \<in> set MAIN_FLOW_KINDS"
    "wn_kind (last (wg_nodes (wr_graph ?run))) \<noteq> K_Trigger"
    "mainPredecessors (wr_graph ?run) (wn_id (last (wg_nodes (wr_graph ?run)))) = []" by code_simp+
  show "wr_status ?run \<noteq> Run_Completed"
    by (rule unreachable_node_blocks [OF demo_uuid_inj demo_fresh reach n(1) ok n(2-5)])
qed

text \<open>
  An output node with a sibling that becomes ready with it makes the step function
  dispatch the sibling twice: starting a run of a valid graph with a trigger, an output
  node and an agent spawns the agent and then throws on the unique index.\<close>
theorem output_sibling_throws:
  "let input = demo_start [demo_trigger, demo_output, demo_agent ''a''] [demo_edge ''t'' ''o'', demo_edge ''t'' ''a''];
       r = fst (startRun demo_env input demo_empty)
   in graph_ok demo_context (wr_graph (hd (es_runs (fst r)))) \<and> snd r = Threw \<and>
      length (filter (\<lambda>e. case e of Ef_Spawn _ \<Rightarrow> True | _ \<Rightarrow> False) (es_log (fst r))) = 1"
  by code_simp

end
