(* ===== verification/Goals.thy ===== *)
theory Goals
  imports SqlTable JsValues
begin

text \<open>
  Goals, their task boards and the questions of a run
  (\<open>packages/orchestrator/src/services/goal-system.ts\<close>) over their tables
  (\<open>packages/runtime-core/src/repositories/goals.ts\<close>). An operation yields the new state and
  an error or a result. A transaction that throws restores the tables; the service's memory
  and the messages it posted stay. Messages are constructors that carry their parameters;
  channels, organisations, active runs and whether a message can be posted are given by an
  environment. The columns are read back as written, but an empty text reads as absent.
\<close>

section \<open>Rows\<close>

datatype goal_status = G_Planning | G_Running | G_Completed | G_Suspended | G_Cancelled

datatype goal_task_status =
    T_Pending | T_In_Progress | T_Completed | T_Blocked | T_Cancelled | T_Failed | T_Blocked_By_Failure

datatype question_status = Q_Pending | Q_Answered | Q_Superseded

record goal =
  g_id :: string
  g_organizationId :: string
  g_channelId :: string
  g_title :: string
  g_status :: goal_status
  g_supervisorId :: string
  g_planMarkdown :: string
  g_planVersion :: int
  g_createdAt :: int
  g_updatedAt :: int

record goal_task =
  gt_id :: string
  gt_organizationId :: string
  gt_goalId :: string
  gt_title :: string
  gt_description :: string
  gt_status :: goal_task_status
  gt_assigneeId :: string
  gt_createdBy :: string
  gt_dependsOnTaskId :: "string option"
  gt_handoverSummary :: "string option"
  gt_createdAt :: int
  gt_updatedAt :: int
  gt_lastNudgedAt :: "int option"

record question =
  iq_id :: string
  iq_organizationId :: string
  iq_channelId :: string
  iq_goalId :: "string option"
  iq_runId :: "string option"
  iq_toolCallId :: "string option"
  iq_questionText :: string
  iq_options :: "string list"
  iq_status :: question_status
  iq_selectedOption :: "string option"
  iq_createdAt :: int
  iq_updatedAt :: int

record agent_run =
  ar_id :: string
  ar_organizationId :: string
  ar_status :: string
  ar_step :: string
  ar_summary :: string
  ar_endedAt :: "int option"

record run_step =
  rs_id :: string
  rs_organizationId :: string
  rs_runId :: string
  rs_toolCallId :: "string option"
  rs_output :: "json option"

definition goal_valid :: "goal \<Rightarrow> bool" where
  "goal_valid g = (g_id g \<noteq> [] \<and> g_organizationId g \<noteq> [] \<and> g_channelId g \<noteq> [] \<and> g_title g \<noteq> [] \<and>
     g_supervisorId g \<noteq> [] \<and> g_planVersion g > 0)"

definition task_valid :: "goal_task \<Rightarrow> bool" where
  "task_valid t = (gt_id t \<noteq> [] \<and> gt_organizationId t \<noteq> [] \<and> gt_goalId t \<noteq> [] \<and> gt_title t \<noteq> [] \<and>
     gt_assigneeId t \<noteq> [] \<and> gt_createdBy t \<noteq> [] \<and> gt_dependsOnTaskId t \<noteq> Some [])"

definition question_valid :: "question \<Rightarrow> bool" where
  "question_valid q = (iq_id q \<noteq> [] \<and> iq_organizationId q \<noteq> [] \<and> iq_channelId q \<noteq> [] \<and>
     iq_goalId q \<noteq> Some [] \<and> iq_runId q \<noteq> Some [] \<and> iq_toolCallId q \<noteq> Some [] \<and>
     iq_questionText q \<noteq> [] \<and> iq_options q \<noteq> [] \<and> list_all (\<lambda>x. x \<noteq> []) (iq_options q))"

section \<open>State and results\<close>

datatype nudge_reason = Unblocked | Idle | Stalled | Moved

datatype notice_body =
    B_Moved string string goal_task_status goal_task_status string
  | B_Unblocked string string "string option" string
  | B_Stalled string string string
  | B_Idle string string string

record nudge =
  nu_taskId :: string
  nu_taskTitle :: string
  nu_reason :: nudge_reason
  nu_assigneeId :: string
  nu_completedDependency :: "(string \<times> string) option"
  nu_previousStatus :: "goal_task_status option"
  nu_status :: "goal_task_status option"

datatype goal_effect =
    Sent_Dm string string notice_body nudge
  | Posted string string notice_body nudge
  | Resumed string bool

record goal_state =
  gs_goals :: "goal list"
  gs_tasks :: "goal_task list"
  gs_questions :: "question list"
  gs_runs :: "agent_run list"
  gs_steps :: "run_step list"
  gs_nudged :: "string \<Rightarrow> int option"
  gs_log :: "goal_effect list"
  gs_next :: nat

record channel_info =
  ch_kind :: string
  ch_memberIds :: "string list"

record goal_env =
  ge_uuid :: "nat \<Rightarrow> string"
  ge_now :: int
  ge_channel :: "string \<Rightarrow> string \<Rightarrow> channel_info option"
  ge_conversations :: bool
  ge_resume :: bool
  ge_dm_ok :: "nat \<Rightarrow> bool"
  ge_post_ok :: "nat \<Rightarrow> bool"
  ge_organizations :: "string list"
  ge_activeRuns :: "string \<Rightarrow> (string \<times> int) list"

datatype goal_error =
    Plan_Empty
  | Bad_Dependency string
  | Too_Few_Options
  | Duplicate_Options
  | Recommended_Count
  | Goal_Not_Found string
  | Not_Planning
  | No_Tasks
  | Already_Running string
  | Bad_Move goal_status goal_status
  | Task_Not_Found string
  | Caller_Required
  | Goal_Missing_For_Task string
  | Only_Supervisor string
  | Dependency_Open
  | Handover_Required
  | Question_Not_Found string
  | Question_Closed
  | Bad_Option
  | Invalid_Row

type_synonym 'a goal_result = "goal_state \<times> (goal_error + 'a)"

definition and_ok :: "'a goal_result \<Rightarrow> ('a \<Rightarrow> goal_state \<Rightarrow> 'b goal_result) \<Rightarrow> 'b goal_result" where
  "and_ok r f = (case r of (st, Inl e) \<Rightarrow> (st, Inl e) | (st, Inr x) \<Rightarrow> f x st)"

text \<open>\<open>repo.transaction\<close>: an exception rolls the tables back.\<close>

definition transaction :: "goal_state \<Rightarrow> 'a goal_result \<Rightarrow> 'a goal_result" where
  "transaction st r =
     (case r of
        (st', Inl e) \<Rightarrow> (st\<lparr>gs_nudged := gs_nudged st', gs_log := gs_log st', gs_next := gs_next st'\<rparr>, Inl e)
      | _ \<Rightarrow> r)"

fun each_ok :: "('a \<Rightarrow> goal_state \<Rightarrow> 'b goal_result) \<Rightarrow> 'a list \<Rightarrow> goal_state \<Rightarrow> 'b list goal_result" where
  "each_ok f [] st = (st, Inr [])"
| "each_ok f (x # xs) st =
     and_ok (f x st) (\<lambda>y st1. and_ok (each_ok f xs st1) (\<lambda>ys st2. (st2, Inr (y # ys))))"

section \<open>Tables\<close>

definition saveGoal :: "goal \<Rightarrow> goal_state \<Rightarrow> goal goal_result" where
  "saveGoal g st =
     (if goal_valid g
      then (st\<lparr>gs_goals := tbl_upsert g_id
              (\<lambda>old new. old\<lparr>g_title := g_title new, g_status := g_status new,
                 g_supervisorId := g_supervisorId new, g_planMarkdown := g_planMarkdown new,
                 g_planVersion := g_planVersion new, g_updatedAt := g_updatedAt new\<rparr>) g (gs_goals st)\<rparr>, Inr g)
      else (st, Inl Invalid_Row))"

definition getGoal :: "string \<Rightarrow> string \<Rightarrow> goal_state \<Rightarrow> goal option" where
  "getGoal org i st = find (\<lambda>g. g_organizationId g = org \<and> g_id g = i) (gs_goals st)"

definition goal_recency :: "goal \<Rightarrow> goal \<Rightarrow> int" where
  "goal_recency a b = (if g_updatedAt a \<noteq> g_updatedAt b then g_updatedAt b - g_updatedAt a
                       else g_createdAt b - g_createdAt a)"

definition getGoalByChannel :: "string \<Rightarrow> string \<Rightarrow> goal_state \<Rightarrow> goal option" where
  "getGoalByChannel org ch st =
     (case sort_cmp goal_recency (filter (\<lambda>g. g_organizationId g = org \<and> g_channelId g = ch) (gs_goals st)) of
        [] \<Rightarrow> None | g # _ \<Rightarrow> Some g)"

definition listGoals :: "string \<Rightarrow> goal_state \<Rightarrow> goal list" where
  "listGoals org st = sort_cmp (by_int_desc g_updatedAt) (filter (\<lambda>g. g_organizationId g = org) (gs_goals st))"

definition optional_text :: "string option \<Rightarrow> string option" where
  "optional_text x = (if x = Some [] then None else x)"

definition read_task :: "goal_task \<Rightarrow> goal_task" where
  "read_task t = t\<lparr>gt_handoverSummary := optional_text (gt_handoverSummary t)\<rparr>"

definition saveGoalTask :: "goal_task \<Rightarrow> goal_state \<Rightarrow> goal_task goal_result" where
  "saveGoalTask t st =
     (if task_valid t
      then (st\<lparr>gs_tasks := tbl_upsert gt_id
              (\<lambda>old new. old\<lparr>gt_title := gt_title new, gt_description := gt_description new,
                 gt_status := gt_status new, gt_assigneeId := gt_assigneeId new,
                 gt_dependsOnTaskId := gt_dependsOnTaskId new,
                 gt_handoverSummary := gt_handoverSummary new, gt_updatedAt := gt_updatedAt new\<rparr>)
              t (gs_tasks st)\<rparr>, Inr t)
      else (st, Inl Invalid_Row))"

definition deleteGoalTasks :: "string \<Rightarrow> string \<Rightarrow> goal_state \<Rightarrow> goal_state" where
  "deleteGoalTasks org i st = st\<lparr>gs_tasks :=
     tbl_delete (\<lambda>t. gt_organizationId t = org \<and> gt_goalId t = i) (gs_tasks st)\<rparr>"

definition listGoalTasks :: "string \<Rightarrow> string \<Rightarrow> goal_state \<Rightarrow> goal_task list" where
  "listGoalTasks org i st = map read_task (sort_cmp (by_int gt_createdAt)
     (filter (\<lambda>t. gt_organizationId t = org \<and> gt_goalId t = i) (gs_tasks st)))"

definition find_task :: "string \<Rightarrow> string \<Rightarrow> goal_task list \<Rightarrow> goal_task option" where
  "find_task org i ts = find (\<lambda>t. gt_organizationId t = org \<and> gt_id t = i) ts"

definition getGoalTask :: "string \<Rightarrow> string \<Rightarrow> goal_state \<Rightarrow> goal_task option" where
  "getGoalTask org i st = map_option read_task (find_task org i (gs_tasks st))"

text \<open>
  The recursive query \<open>downstream\<close>: the tasks whose chain of dependencies passes the given
  one. A chain without a cycle is no longer than the table.
\<close>

fun depends_path :: "nat \<Rightarrow> string \<Rightarrow> string \<Rightarrow> goal_task list \<Rightarrow> goal_task \<Rightarrow> bool" where
  "depends_path 0 org root ts t = False"
| "depends_path (Suc n) org root ts t =
     (case gt_dependsOnTaskId t of
        None \<Rightarrow> False
      | Some d \<Rightarrow> d = root \<or>
          (case find_task org d ts of None \<Rightarrow> False | Some x \<Rightarrow> depends_path n org root ts x))"

definition is_downstream :: "string \<Rightarrow> string \<Rightarrow> goal_task list \<Rightarrow> goal_task \<Rightarrow> bool" where
  "is_downstream org root ts t = (gt_organizationId t = org \<and> depends_path (length ts) org root ts t)"

definition set_status :: "goal_task_status \<Rightarrow> int \<Rightarrow> goal_task \<Rightarrow> goal_task" where
  "set_status s now t = t\<lparr>gt_status := s, gt_updatedAt := now\<rparr>"

text \<open>What a change of status does to the tasks that depend on the task.\<close>

definition cascade :: "string \<Rightarrow> string \<Rightarrow> goal_task_status \<Rightarrow> int \<Rightarrow> goal_task list \<Rightarrow> goal_task list" where
  "cascade org i status now ts =
     (if status = T_Completed
      then tbl_update (\<lambda>t. gt_organizationId t = org \<and> gt_dependsOnTaskId t = Some i \<and> gt_status t = T_Blocked)
             (set_status T_Pending now) ts
      else if status = T_Failed \<or> status = T_Cancelled
      then tbl_update (\<lambda>t. is_downstream org i ts t \<and> gt_status t \<notin> {T_Completed, T_Cancelled, T_Failed})
             (set_status T_Blocked_By_Failure now) ts
      else tbl_update (\<lambda>t. is_downstream org i ts t \<and> gt_status t \<in> {T_Pending, T_In_Progress})
             (set_status T_Blocked now) ts)"

definition updateGoalTaskStatus ::
  "int \<Rightarrow> string \<Rightarrow> string \<Rightarrow> goal_task_status \<Rightarrow> string option \<Rightarrow> goal_state \<Rightarrow> goal_task option goal_result" where
  "updateGoalTaskStatus now org i status handover st =
     (case getGoalTask org i st of
        None \<Rightarrow> (st, Inr None)
      | Some existing \<Rightarrow>
          if (status = T_In_Progress \<or> status = T_Completed) \<and>
             (case gt_dependsOnTaskId existing of
                None \<Rightarrow> False
              | Some d \<Rightarrow> (case getGoalTask org d st of
                  None \<Rightarrow> True | Some dep \<Rightarrow> gt_status dep \<noteq> T_Completed))
          then (st, Inl Dependency_Open)
          else if status = T_Completed \<and> optional_text handover = None \<and> gt_handoverSummary existing = None \<and>
             list_ex (\<lambda>t. gt_organizationId t = org \<and> gt_dependsOnTaskId t = Some i) (gs_tasks st)
          then (st, Inl Handover_Required)
          else
          (let ts = tbl_update (\<lambda>t. gt_organizationId t = org \<and> gt_id t = i)
                 (\<lambda>t. t\<lparr>gt_status := status, gt_handoverSummary := or_default handover (gt_handoverSummary t),
                        gt_updatedAt := now\<rparr>) (gs_tasks st);
               st' = st\<lparr>gs_tasks := cascade org i status now ts\<rparr>
           in (st', Inr (getGoalTask org i st'))))"

definition setGoalTaskLastNudgedAt :: "string \<Rightarrow> string \<Rightarrow> int \<Rightarrow> goal_state \<Rightarrow> goal_state" where
  "setGoalTaskLastNudgedAt org i now st = st\<lparr>gs_tasks :=
     tbl_update (\<lambda>t. gt_organizationId t = org \<and> gt_id t = i) (\<lambda>t. t\<lparr>gt_lastNudgedAt := Some now\<rparr>) (gs_tasks st)\<rparr>"

definition saveInteractiveQuestion :: "question \<Rightarrow> goal_state \<Rightarrow> question goal_result" where
  "saveInteractiveQuestion q st =
     (if question_valid q
      then (st\<lparr>gs_questions := tbl_upsert iq_id
              (\<lambda>old new. old\<lparr>iq_status := iq_status new, iq_selectedOption := iq_selectedOption new,
                 iq_updatedAt := iq_updatedAt new\<rparr>) q (gs_questions st)\<rparr>, Inr q)
      else (st, Inl Invalid_Row))"

definition getInteractiveQuestion :: "string \<Rightarrow> string \<Rightarrow> goal_state \<Rightarrow> question option" where
  "getInteractiveQuestion org i st = find (\<lambda>q. iq_organizationId q = org \<and> iq_id q = i) (gs_questions st)"

definition listPendingInteractiveQuestions :: "string \<Rightarrow> string \<Rightarrow> goal_state \<Rightarrow> question list" where
  "listPendingInteractiveQuestions org ch st = sort_cmp (by_int iq_createdAt)
     (filter (\<lambda>q. iq_organizationId q = org \<and> iq_channelId q = ch \<and> iq_status q = Q_Pending) (gs_questions st))"

definition listInteractiveQuestionsByRunId :: "string \<Rightarrow> string \<Rightarrow> goal_state \<Rightarrow> question list" where
  "listInteractiveQuestionsByRunId org rid st = sort_cmp (by_int iq_createdAt)
     (filter (\<lambda>q. iq_organizationId q = org \<and> iq_runId q = Some rid) (gs_questions st))"

end
