(* ===== verification/GoalSystem.thy ===== *)
theory GoalSystem
  imports Goals
begin

text \<open>
  The operations of \<open>GoalSystemService\<close>: plans and their start, the approval question,
  moves of goals and tasks with their notifications, the sweep over idle tasks, questions
  and their answers. \<open>resumeRun\<close> is recorded as an effect; what the service does when it
  fails later is the operation \<open>resume_failed\<close>.
\<close>

section \<open>Plans\<close>

record plan_task =
  pt_title :: string
  pt_assigneeId :: string
  pt_dependsOnTaskIndex :: "int option"

fun check_dependencies :: "int \<Rightarrow> plan_task list \<Rightarrow> goal_error option" where
  "check_dependencies index [] = None"
| "check_dependencies index (t # ts) =
     (case pt_dependsOnTaskIndex t of
        Some d \<Rightarrow> if d < 0 \<or> d \<ge> index then Some (Bad_Dependency (pt_title t))
                  else check_dependencies (index + 1) ts
      | None \<Rightarrow> check_dependencies (index + 1) ts)"

definition validatePlanTasks :: "plan_task list \<Rightarrow> goal_error option" where
  "validatePlanTasks tasks = (if tasks = [] then Some Plan_Empty else check_dependencies 0 tasks)"

definition QUESTION_RECOMMENDED_SUFFIX :: string where
  "QUESTION_RECOMMENDED_SUFFIX = ''(Recommended)''"

definition IMPLEMENT_QUESTION_TEXT :: string where
  "IMPLEMENT_QUESTION_TEXT = ''Do you want me to implement?''"

definition IMPLEMENT_QUESTION_OPTION :: string where
  "IMPLEMENT_QUESTION_OPTION = ''Yes, implement '' @ QUESTION_RECOMMENDED_SUFFIX"

definition IMPLEMENT_QUESTION_REJECT_OPTION :: string where
  "IMPLEMENT_QUESTION_REJECT_OPTION = ''No, stop''"

definition validateQuestionOptions :: "string list \<Rightarrow> goal_error option" where
  "validateQuestionOptions options =
     (if length options < 2 then Some Too_Few_Options
      else if length (uniq options) \<noteq> length options then Some Duplicate_Options
      else if length (filter (\<lambda>x. ends_with x QUESTION_RECOMMENDED_SUFFIX) options) \<noteq> 1
      then Some Recommended_Count
      else None)"

record goal_input =
  gi_organizationId :: string
  gi_channelId :: string
  gi_supervisorId :: string
  gi_title :: string
  gi_planMarkdown :: string

text \<open>The goal of a direct channel is reused; it is the channel's latest one.\<close>

definition existing_goal :: "goal_env \<Rightarrow> string \<Rightarrow> string \<Rightarrow> goal_state \<Rightarrow> goal option" where
  "existing_goal env org ch st =
     (case ge_channel env org ch of
        Some c \<Rightarrow> if ch_kind c = ''dm'' \<or> ch_kind c = ''self'' then getGoalByChannel org ch st else None
      | None \<Rightarrow> None)"

definition supersede_all :: "int \<Rightarrow> string \<Rightarrow> question list \<Rightarrow> goal_state \<Rightarrow> unit goal_result" where
  "supersede_all now goalId qs st =
     and_ok (each_ok (\<lambda>q. saveInteractiveQuestion (q\<lparr>iq_status := Q_Superseded, iq_updatedAt := now\<rparr>))
               (filter (\<lambda>q. iq_goalId q = Some goalId) qs) st)
       (\<lambda>_ st'. (st', Inr ()))"

text \<open>What \<open>start\<close> and \<open>create\<close> share: a planning goal, with an earlier board cleared.\<close>

definition plan_goal :: "goal_env \<Rightarrow> goal_input \<Rightarrow> goal option \<Rightarrow> goal_state \<Rightarrow> goal goal_result" where
  "plan_goal env input existing st =
     (let now = ge_now env;
          i = (case existing of Some g \<Rightarrow> g_id g | None \<Rightarrow> ge_uuid env (gs_next st));
          st1 = (case existing of Some _ \<Rightarrow> st | None \<Rightarrow> st\<lparr>gs_next := Suc (gs_next st)\<rparr>)
      in and_ok (saveGoal \<lparr>g_id = i, g_organizationId = gi_organizationId input,
              g_channelId = gi_channelId input, g_title = gi_title input, g_status = G_Planning,
              g_supervisorId = gi_supervisorId input, g_planMarkdown = gi_planMarkdown input,
              g_planVersion = (case existing of Some g \<Rightarrow> g_planVersion g | None \<Rightarrow> 0) + 1,
              g_createdAt = (case existing of Some g \<Rightarrow> g_createdAt g | None \<Rightarrow> now),
              g_updatedAt = now\<rparr> st1)
           (\<lambda>goal st2.
              case existing of
                None \<Rightarrow> (st2, Inr goal)
              | Some _ \<Rightarrow>
                  (let st3 = deleteGoalTasks (gi_organizationId input) (g_id goal) st2
                   in and_ok (supersede_all now (g_id goal)
                        (listPendingInteractiveQuestions (gi_organizationId input) (gi_channelId input) st3) st3)
                        (\<lambda>_ st4. (st4, Inr goal)))))"

definition board_task :: "int \<Rightarrow> goal_input \<Rightarrow> string \<Rightarrow> (nat \<Rightarrow> string) \<Rightarrow> nat \<times> plan_task \<Rightarrow> goal_task" where
  "board_task now input goalId taskId p =
     (case p of (k, t) \<Rightarrow>
       \<lparr>gt_id = taskId k, gt_organizationId = gi_organizationId input, gt_goalId = goalId,
        gt_title = pt_title t, gt_description = [],
        gt_status = (if pt_dependsOnTaskIndex t = None then T_Pending else T_Blocked),
        gt_assigneeId = pt_assigneeId t, gt_createdBy = gi_supervisorId input,
        gt_dependsOnTaskId = map_option (\<lambda>d. taskId (nat d)) (pt_dependsOnTaskIndex t),
        gt_handoverSummary = None, gt_createdAt = now, gt_updatedAt = now, gt_lastNudgedAt = None\<rparr>)"

definition start :: "goal_env \<Rightarrow> goal_input \<Rightarrow> plan_task list \<Rightarrow> goal_state \<Rightarrow> (goal \<times> goal_task list) goal_result" where
  "start env input tasks st =
     (case validatePlanTasks tasks of
        Some e \<Rightarrow> (st, Inl e)
      | None \<Rightarrow> transaction st
          (and_ok (plan_goal env input (existing_goal env (gi_organizationId input) (gi_channelId input) st) st)
            (\<lambda>goal st1.
               let base = gs_next st1; st2 = st1\<lparr>gs_next := base + length tasks\<rparr>
               in and_ok (each_ok saveGoalTask
                    (map (board_task (ge_now env) input (g_id goal) (\<lambda>k. ge_uuid env (base + k)))
                      (enumerate 0 tasks)) st2)
                    (\<lambda>saved st3. (st3, Inr (goal, saved))))))"

definition implement :: "goal_env \<Rightarrow> string \<Rightarrow> string \<Rightarrow> goal_state \<Rightarrow> (goal \<times> goal_task list) goal_result" where
  "implement env org i st = transaction st
     (case getGoal org i st of
        None \<Rightarrow> (st, Inl (Goal_Not_Found i))
      | Some goal \<Rightarrow>
          if g_status goal \<noteq> G_Planning then (st, Inl Not_Planning)
          else
          (let tasks = listGoalTasks org i st in
           if tasks = [] then (st, Inl No_Tasks)
           else and_ok (saveGoal (goal\<lparr>g_status := G_Running, g_updatedAt := ge_now env\<rparr>) st)
                  (\<lambda>updated st'. (st', Inr (updated, tasks)))))"

definition create :: "goal_env \<Rightarrow> goal_input \<Rightarrow> goal_state \<Rightarrow> goal goal_result" where
  "create env input st = transaction st
     (let existing = existing_goal env (gi_organizationId input) (gi_channelId input) st in
      case existing of
        Some g \<Rightarrow> if g_status g = G_Running then (st, Inl (Already_Running (g_title g)))
                  else plan_goal env input existing st
      | None \<Rightarrow> plan_goal env input existing st)"

definition setGoalStatus ::
  "goal_env \<Rightarrow> string \<Rightarrow> string \<Rightarrow> goal_status list \<Rightarrow> goal_status \<Rightarrow> goal_state \<Rightarrow> goal goal_result" where
  "setGoalStatus env org i allowed next st = transaction st
     (case getGoal org i st of
        None \<Rightarrow> (st, Inl (Goal_Not_Found i))
      | Some goal \<Rightarrow>
          if g_status goal \<notin> set allowed then (st, Inl (Bad_Move (g_status goal) next))
          else saveGoal (goal\<lparr>g_status := next, g_updatedAt := ge_now env\<rparr>) st)"

definition pause :: "goal_env \<Rightarrow> string \<Rightarrow> string \<Rightarrow> goal_state \<Rightarrow> goal goal_result" where
  "pause env org i st = setGoalStatus env org i [G_Planning, G_Running] G_Suspended st"

definition resume :: "goal_env \<Rightarrow> string \<Rightarrow> string \<Rightarrow> goal_state \<Rightarrow> goal goal_result" where
  "resume env org i st = setGoalStatus env org i [G_Suspended] G_Running st"

definition stop :: "goal_env \<Rightarrow> string \<Rightarrow> string \<Rightarrow> goal_state \<Rightarrow> goal goal_result" where
  "stop env org i st = transaction st
     (case getGoal org i st of
        None \<Rightarrow> (st, Inl (Goal_Not_Found i))
      | Some goal \<Rightarrow>
          if g_status goal = G_Completed \<or> g_status goal = G_Cancelled then (st, Inr goal)
          else saveGoal (goal\<lparr>g_status := G_Cancelled, g_updatedAt := ge_now env\<rparr>) st)"

section \<open>Notifications\<close>

definition NUDGE_DEDUP_WINDOW_MS :: int where "NUDGE_DEDUP_WINDOW_MS = 10 * 60 * 1000"
definition PENDING_IDLE_THRESHOLD_MS :: int where "PENDING_IDLE_THRESHOLD_MS = 5 * 60 * 1000"
definition IN_PROGRESS_IDLE_THRESHOLD_MS :: int where "IN_PROGRESS_IDLE_THRESHOLD_MS = 10 * 60 * 1000"
definition AGENT_ACTIVE_WINDOW_MS :: int where "AGENT_ACTIVE_WINDOW_MS = 5 * 60 * 1000"

definition log_goal :: "goal_effect \<Rightarrow> goal_state \<Rightarrow> goal_state" where
  "log_goal e st = st\<lparr>gs_log := gs_log st @ [e]\<rparr>"

text \<open>Whether posting went through; what was posted before it threw stays posted.\<close>

definition postNotificationToAssignee ::
  "goal_env \<Rightarrow> string \<Rightarrow> goal \<Rightarrow> goal_task \<Rightarrow> string \<Rightarrow> notice_body \<Rightarrow> bool \<Rightarrow> nudge \<Rightarrow> goal_state
   \<Rightarrow> goal_state \<times> bool" where
  "postNotificationToAssignee env org goal task sender body skipChannelCopy nudge st =
     (if \<not> ge_conversations env then (st, True)
      else if \<not> ge_dm_ok env (length (gs_log st)) then (st, False)
      else
      (let st1 = log_goal (Sent_Dm sender (gt_assigneeId task) body nudge) st in
       if skipChannelCopy then (st1, True)
       else case ge_channel env org (g_channelId goal) of
              None \<Rightarrow> (st1, True)
            | Some c \<Rightarrow>
                if gt_assigneeId task \<notin> set (ch_memberIds c) then (st1, True)
                else if \<not> ge_post_ok env (length (gs_log st1)) then (st1, False)
                else (log_goal (Posted sender (g_channelId goal) body nudge) st1, True)))"

definition recent :: "int \<Rightarrow> int option \<Rightarrow> bool" where
  "recent now sent = (case sent of None \<Rightarrow> False | Some t \<Rightarrow> t \<noteq> 0 \<and> now - t < NUDGE_DEDUP_WINDOW_MS)"

definition nudge_of :: "goal_task \<Rightarrow> nudge_reason \<Rightarrow> goal_task option \<Rightarrow> nudge" where
  "nudge_of task reason completedDependency =
     \<lparr>nu_taskId = gt_id task, nu_taskTitle = gt_title task, nu_reason = reason,
      nu_assigneeId = gt_assigneeId task,
      nu_completedDependency = map_option (\<lambda>d. (gt_id d, gt_title d)) completedDependency,
      nu_previousStatus = None, nu_status = None\<rparr>"

definition nudge_body :: "goal_task \<Rightarrow> nudge_reason \<Rightarrow> goal_task option \<Rightarrow> notice_body" where
  "nudge_body task reason completedDependency =
     (case reason of
        Unblocked \<Rightarrow> B_Unblocked (gt_assigneeId task) (gt_title task) (map_option gt_title completedDependency) (gt_id task)
      | Stalled \<Rightarrow> B_Stalled (gt_assigneeId task) (gt_title task) (gt_id task)
      | _ \<Rightarrow> B_Idle (gt_assigneeId task) (gt_title task) (gt_id task))"

definition nudge_now ::
  "goal_env \<Rightarrow> string \<Rightarrow> goal_task \<Rightarrow> nudge_reason \<Rightarrow> goal_task option \<Rightarrow> goal_state \<Rightarrow> goal_state" where
  "nudge_now env org task reason completedDependency st =
     (case getGoal org (gt_goalId task) st of
        None \<Rightarrow> st
      | Some goal \<Rightarrow>
          if g_supervisorId goal = gt_assigneeId task then st
          else case postNotificationToAssignee env org goal task (g_supervisorId goal)
                 (nudge_body task reason completedDependency) False
                 (nudge_of task reason completedDependency) st of
                 (st1, False) \<Rightarrow> st1
               | (st1, True) \<Rightarrow> setGoalTaskLastNudgedAt org (gt_id task) (ge_now env)
                   (st1\<lparr>gs_nudged := (gs_nudged st1)(gt_id task \<mapsto> ge_now env)\<rparr>))"

definition nudgeAssignee ::
  "goal_env \<Rightarrow> string \<Rightarrow> goal_task \<Rightarrow> nudge_reason \<Rightarrow> goal_task option \<Rightarrow> goal_state \<Rightarrow> goal_state" where
  "nudgeAssignee env org task reason completedDependency st =
     (if \<not> ge_conversations env then st
      else if recent (ge_now env) (gs_nudged st (gt_id task)) then st
      else case gt_lastNudgedAt task of
        Some persisted \<Rightarrow>
          if ge_now env - persisted < NUDGE_DEDUP_WINDOW_MS
          then st\<lparr>gs_nudged := (gs_nudged st)(gt_id task \<mapsto> persisted)\<rparr>
          else nudge_now env org task reason completedDependency st
      | None \<Rightarrow> nudge_now env org task reason completedDependency st)"

definition notifyDependentsUnblocked :: "goal_env \<Rightarrow> string \<Rightarrow> goal_task \<Rightarrow> goal_state \<Rightarrow> goal_state" where
  "notifyDependentsUnblocked env org completed st =
     (if \<not> ge_conversations env then st
      else fold (\<lambda>t. nudgeAssignee env org t Unblocked (Some completed))
             (filter (\<lambda>t. gt_status t = T_Pending \<and> gt_dependsOnTaskId t = Some (gt_id completed))
               (listGoalTasks org (gt_goalId completed) st)) st)"

definition moved_key :: "string \<Rightarrow> string" where
  "moved_key i = ''moved:'' @ i"

definition notifyTaskMoved ::
  "goal_env \<Rightarrow> string \<Rightarrow> goal_task \<Rightarrow> goal_task_status \<Rightarrow> string \<Rightarrow> goal_state \<Rightarrow> goal_state" where
  "notifyTaskMoved env org task oldStatus mover st =
     (if \<not> ge_conversations env then st
      else if recent (ge_now env) (gs_nudged st (moved_key (gt_id task))) then st
      else case getGoal org (gt_goalId task) st of
        None \<Rightarrow> st
      | Some goal \<Rightarrow>
          (case postNotificationToAssignee env org goal task mover
              (B_Moved (gt_assigneeId task) (gt_title task) oldStatus (gt_status task) (gt_id task)) True
              ((nudge_of task Moved None)
                 \<lparr>nu_previousStatus := Some oldStatus, nu_status := Some (gt_status task)\<rparr>) st of
             (st1, False) \<Rightarrow> st1
           | (st1, True) \<Rightarrow> st1\<lparr>gs_nudged := (gs_nudged st1)(moved_key (gt_id task) \<mapsto> ge_now env)\<rparr>))"

section \<open>Task updates\<close>

text \<open>The status of a goal follows its tasks, unless it was cancelled.\<close>

definition synced_status :: "goal_task_status list \<Rightarrow> goal_status" where
  "synced_status ts =
     (if ts \<noteq> [] \<and> list_all (\<lambda>s. s = T_Completed) ts then G_Completed
      else if ts \<noteq> [] \<and> list_all (\<lambda>s. s = T_Cancelled) ts then G_Cancelled
      else if list_ex (\<lambda>s. s = T_Failed \<or> s = T_Blocked_By_Failure) ts then G_Suspended
      else G_Running)"

definition syncGoalStatus :: "goal_env \<Rightarrow> string \<Rightarrow> string \<Rightarrow> goal_state \<Rightarrow> unit goal_result" where
  "syncGoalStatus env org i st =
     (case getGoal org i st of
        None \<Rightarrow> (st, Inr ())
      | Some goal \<Rightarrow>
          if g_status goal = G_Cancelled then (st, Inr ())
          else
          (let next = synced_status (map gt_status (listGoalTasks org i st)) in
           if next = G_Running \<and> g_status goal = G_Running then (st, Inr ())
           else and_ok (saveGoal (goal\<lparr>g_status := next, g_updatedAt := ge_now env\<rparr>) st)
                  (\<lambda>_ st'. (st', Inr ()))))"

record task_update =
  tu_organizationId :: string
  tu_taskId :: string
  tu_status :: "goal_task_status option"
  tu_handoverSummary :: "string option"
  tu_title :: "string option"
  tu_description :: "string option"
  tu_assigneeId :: "string option"
  tu_callerMemberId :: "string option"

definition edits_plan :: "task_update \<Rightarrow> bool" where
  "edits_plan u = (tu_title u \<noteq> None \<or> tu_description u \<noteq> None \<or> tu_assigneeId u \<noteq> None)"

definition edit_plan :: "goal_env \<Rightarrow> task_update \<Rightarrow> goal_task \<Rightarrow> goal_state \<Rightarrow> unit goal_result" where
  "edit_plan env u existing st =
     (if \<not> edits_plan u then (st, Inr ())
      else case optional_text (tu_callerMemberId u) of
        None \<Rightarrow> (st, Inl Caller_Required)
      | Some caller \<Rightarrow>
          (case getGoal (tu_organizationId u) (gt_goalId existing) st of
             None \<Rightarrow> (st, Inl (Goal_Missing_For_Task (tu_taskId u)))
           | Some goal \<Rightarrow>
               if caller \<noteq> g_supervisorId goal then (st, Inl (Only_Supervisor (g_supervisorId goal)))
               else and_ok (saveGoalTask (existing
                      \<lparr>gt_title := coalesce (tu_title u) (gt_title existing),
                       gt_description := coalesce (tu_description u) (gt_description existing),
                       gt_assigneeId := coalesce (tu_assigneeId u) (gt_assigneeId existing),
                       gt_handoverSummary := or_default (tu_handoverSummary u) (gt_handoverSummary existing),
                       gt_updatedAt := ge_now env\<rparr>) st)
                      (\<lambda>_ st'. (st', Inr ()))))"

definition forget_nudge :: "string \<Rightarrow> goal_state \<Rightarrow> goal_state" where
  "forget_nudge i st = st\<lparr>gs_nudged := (gs_nudged st)(i := None)\<rparr>"

definition move_task ::
  "goal_env \<Rightarrow> task_update \<Rightarrow> goal_task_status \<Rightarrow> goal_task_status \<Rightarrow> goal_state \<Rightarrow> (goal_task \<times> goal_task_status option) goal_result" where
  "move_task env u oldStatus status st =
     (let org = tu_organizationId u; st1 = forget_nudge (tu_taskId u) st
      in and_ok (updateGoalTaskStatus (ge_now env) org (tu_taskId u) status (tu_handoverSummary u) st1)
           (\<lambda>r st2. case r of
              None \<Rightarrow> (st2, Inl (Task_Not_Found (tu_taskId u)))
            | Some task \<Rightarrow>
                and_ok (syncGoalStatus env org (gt_goalId task) st2)
                  (\<lambda>_ st3.
                     let st4 = (case optional_text (tu_callerMemberId u) of
                                  Some caller \<Rightarrow>
                                    if caller \<noteq> gt_assigneeId task \<and> oldStatus \<noteq> status
                                    then notifyTaskMoved env org task oldStatus caller st3 else st3
                                | None \<Rightarrow> st3);
                         st5 = (if status = T_Completed then notifyDependentsUnblocked env org task st4 else st4)
                     in (st5, Inr (task, if oldStatus \<noteq> status then Some oldStatus else None)))))"

definition updateTask :: "goal_env \<Rightarrow> task_update \<Rightarrow> goal_state \<Rightarrow> (goal_task \<times> goal_task_status option) goal_result" where
  "updateTask env u st = transaction st
     (let org = tu_organizationId u; i = tu_taskId u in
      case getGoalTask org i st of
        None \<Rightarrow> (st, Inl (Task_Not_Found i))
      | Some existing \<Rightarrow>
          and_ok (edit_plan env u existing st)
            (\<lambda>_ st1.
               case tu_status u of
                 Some status \<Rightarrow> move_task env u (gt_status existing) status st1
               | None \<Rightarrow>
                   and_ok (if tu_handoverSummary u \<noteq> None \<and> \<not> edits_plan u
                           then and_ok (saveGoalTask (existing\<lparr>gt_handoverSummary := tu_handoverSummary u,
                                  gt_updatedAt := ge_now env\<rparr>) st1) (\<lambda>_ st2. (st2, Inr ()))
                           else (st1, Inr ()))
                     (\<lambda>_ st2. case getGoalTask org i st2 of
                        None \<Rightarrow> (st2, Inl (Task_Not_Found i))
                      | Some refreshed \<Rightarrow> (st2, Inr (refreshed, None)))))"

section \<open>The sweep\<close>

definition evictStaleTimestamps :: "(string \<Rightarrow> int option) \<Rightarrow> int \<Rightarrow> int \<Rightarrow> string \<Rightarrow> int option" where
  "evictStaleTimestamps m now maxAge = (\<lambda>k. case m k of None \<Rightarrow> None | Some t \<Rightarrow> if now - t > maxAge then None else Some t)"

definition sweep_task :: "goal_env \<Rightarrow> string \<Rightarrow> string set \<Rightarrow> goal_task list \<Rightarrow> goal_task \<Rightarrow> goal_state \<Rightarrow> goal_state" where
  "sweep_task env org active tasks t st =
     (case gt_status t of
        T_Pending \<Rightarrow>
          if (case gt_dependsOnTaskId t of
                None \<Rightarrow> False
              | Some d \<Rightarrow> (case find (\<lambda>x. gt_id x = d) (rev tasks) of
                    None \<Rightarrow> False | Some dep \<Rightarrow> gt_status dep \<noteq> T_Completed))
          then st
          else if ge_now env - gt_updatedAt t < PENDING_IDLE_THRESHOLD_MS then st
          else nudgeAssignee env org t Idle None st
      | T_In_Progress \<Rightarrow>
          if gt_assigneeId t \<in> active then st
          else if ge_now env - gt_updatedAt t < IN_PROGRESS_IDLE_THRESHOLD_MS then st
          else nudgeAssignee env org t Stalled None st
      | _ \<Rightarrow> st)"

definition sweep_goal :: "goal_env \<Rightarrow> string \<Rightarrow> string set \<Rightarrow> goal \<Rightarrow> goal_state \<Rightarrow> goal_state" where
  "sweep_goal env org active goal st =
     (if g_status goal \<noteq> G_Running \<and> g_status goal \<noteq> G_Planning then st
      else (let tasks = listGoalTasks org (g_id goal) st in fold (sweep_task env org active tasks) tasks st))"

definition active_assignees :: "goal_env \<Rightarrow> string \<Rightarrow> string set" where
  "active_assignees env org =
     set (map fst (filter (\<lambda>r. ge_now env - snd r < AGENT_ACTIVE_WINDOW_MS) (ge_activeRuns env org)))"

definition sweepAllPendingTasks :: "goal_env \<Rightarrow> goal_state \<Rightarrow> goal_state" where
  "sweepAllPendingTasks env st =
     (if \<not> ge_conversations env then st
      else fold (\<lambda>org st'. fold (sweep_goal env org (active_assignees env org)) (listGoals org st') st')
             (ge_organizations env)
             (st\<lparr>gs_nudged := evictStaleTimestamps (gs_nudged st) (ge_now env) NUDGE_DEDUP_WINDOW_MS\<rparr>))"

section \<open>Questions\<close>

record ask_input =
  aq_organizationId :: string
  aq_channelId :: string
  aq_goalId :: "string option"
  aq_runId :: "string option"
  aq_toolCallId :: "string option"
  aq_questionText :: string
  aq_options :: "string list"

definition ask :: "goal_env \<Rightarrow> ask_input \<Rightarrow> goal_state \<Rightarrow> question goal_result" where
  "ask env input st =
     (case validateQuestionOptions (aq_options input) of
        Some e \<Rightarrow> (st, Inl e)
      | None \<Rightarrow> saveInteractiveQuestion
          \<lparr>iq_id = ge_uuid env (gs_next st), iq_organizationId = aq_organizationId input,
           iq_channelId = aq_channelId input, iq_goalId = aq_goalId input, iq_runId = aq_runId input,
           iq_toolCallId = aq_toolCallId input, iq_questionText = aq_questionText input,
           iq_options = aq_options input, iq_status = Q_Pending, iq_selectedOption = None,
           iq_createdAt = ge_now env, iq_updatedAt = ge_now env\<rparr> (st\<lparr>gs_next := Suc (gs_next st)\<rparr>))"

text \<open>The output of the step that asked is marked as completed with the answer.\<close>

definition complete_step :: "question \<Rightarrow> string \<Rightarrow> goal_state \<Rightarrow> goal_state" where
  "complete_step q selected st =
     (case (iq_runId q, iq_toolCallId q) of
        (Some rid, Some call) \<Rightarrow>
          (case find (\<lambda>s. rs_organizationId s = iq_organizationId q \<and> rs_runId s = rid \<and> rs_toolCallId s = Some call)
                  (gs_steps st) of
             None \<Rightarrow> st
           | Some step \<Rightarrow>
               st\<lparr>gs_steps := tbl_update (\<lambda>s. rs_id s = rs_id step)
                 (\<lambda>s. s\<lparr>rs_output := Some (JObj (kv_put ''selectedOption'' (JStr selected)
                    (kv_put ''status'' (JStr ''completed'')
                      (case rs_output step of Some (JObj kvs) \<Rightarrow> kvs | _ \<Rightarrow> []))))\<rparr>) (gs_steps st)\<rparr>)
      | _ \<Rightarrow> st)"

definition get_agent_run :: "string \<Rightarrow> string \<Rightarrow> goal_state \<Rightarrow> agent_run option" where
  "get_agent_run org rid st = find (\<lambda>r. ar_organizationId r = org \<and> ar_id r = rid) (gs_runs st)"

definition is_implement_question :: "question \<Rightarrow> bool" where
  "is_implement_question q = (iq_questionText q = IMPLEMENT_QUESTION_TEXT \<and> iq_goalId q \<noteq> None)"

text \<open>
  The run goes on once none of its questions is pending. A rejection supersedes the others
  and lets the run end.
\<close>

definition resume_run_after ::
  "goal_env \<Rightarrow> string \<Rightarrow> string \<Rightarrow> bool \<Rightarrow> goal_state \<Rightarrow> unit goal_result" where
  "resume_run_after env org rid rejected st =
     (let run = get_agent_run org rid st
      in and_ok
           (if rejected
            then and_ok (each_ok (\<lambda>q. saveInteractiveQuestion (q\<lparr>iq_status := Q_Superseded, iq_updatedAt := ge_now env\<rparr>))
                    (filter (\<lambda>q. iq_status q = Q_Pending) (listInteractiveQuestionsByRunId org rid st)) st)
                   (\<lambda>_ st'. (st', Inr ()))
            else (st, Inr ()))
           (\<lambda>_ st1.
              let stillPending = list_ex (\<lambda>q. iq_status q = Q_Pending) (listInteractiveQuestionsByRunId org rid st1)
              in case run of
                   None \<Rightarrow> (st1, Inr ())
                 | Some r \<Rightarrow>
                     if ar_status r = ''waiting_for_input'' \<and> \<not> stillPending
                     then (log_goal (Resumed rid (\<not> rejected)) st1, Inr ())
                     else (st1, Inr ())))"

definition answer :: "goal_env \<Rightarrow> string \<Rightarrow> string \<Rightarrow> string \<Rightarrow> goal_state \<Rightarrow> question goal_result" where
  "answer env org i selected st =
     (case getInteractiveQuestion org i st of
        None \<Rightarrow> (st, Inl (Question_Not_Found i))
      | Some q \<Rightarrow>
          if iq_status q \<noteq> Q_Pending then (st, Inl Question_Closed)
          else if selected \<notin> set (iq_options q) then (st, Inl Bad_Option)
          else and_ok (saveInteractiveQuestion (q\<lparr>iq_status := Q_Answered, iq_selectedOption := Some selected,
                  iq_updatedAt := ge_now env\<rparr>) st)
            (\<lambda>answered st1.
               let st2 = complete_step q selected st1;
                   approved = (is_implement_question q \<and> selected = IMPLEMENT_QUESTION_OPTION);
                   rejected = (is_implement_question q \<and> selected = IMPLEMENT_QUESTION_REJECT_OPTION);
                   st3 = (case iq_goalId q of
                            Some g \<Rightarrow> if approved then fst (implement env org g st2) else st2
                          | None \<Rightarrow> st2)
               in case (if ge_resume env then iq_runId q else None) of
                    None \<Rightarrow> (st3, Inr answered)
                  | Some rid \<Rightarrow> and_ok (resume_run_after env org rid rejected st3) (\<lambda>_ st4. (st4, Inr answered))))"

definition resume_failed :: "goal_env \<Rightarrow> string \<Rightarrow> string \<Rightarrow> string \<Rightarrow> goal_state \<Rightarrow> goal_state" where
  "resume_failed env org rid message st =
     (case get_agent_run org rid st of
        None \<Rightarrow> st
      | Some r \<Rightarrow>
          if ar_status r \<noteq> ''waiting_for_input'' then st
          else st\<lparr>gs_runs := tbl_update (\<lambda>x. ar_organizationId x = org \<and> ar_id x = rid)
            (\<lambda>x. x\<lparr>ar_status := ''failed'', ar_step := ''failed'',
                   ar_summary := (if message = [] then ''Run failed while resuming after user input'' else message),
                   ar_endedAt := Some (ge_now env)\<rparr>) (gs_runs st)\<rparr>)"

definition supersede :: "goal_env \<Rightarrow> string \<Rightarrow> string \<Rightarrow> goal_state \<Rightarrow> question goal_result" where
  "supersede env org i st =
     (case getInteractiveQuestion org i st of
        None \<Rightarrow> (st, Inl (Question_Not_Found i))
      | Some q \<Rightarrow>
          if iq_status q \<noteq> Q_Pending then (st, Inl Question_Closed)
          else saveInteractiveQuestion (q\<lparr>iq_status := Q_Superseded, iq_updatedAt := ge_now env\<rparr>) st)"

end
