(* ===== verification/GoalLaws.thy ===== *)
theory GoalLaws
  imports GoalSystem
begin

text \<open>
  The invariant of the goal tables: ids are unique and were drawn, a dependency is an earlier
  task of the same goal, a task in progress has a completed dependency, and a completed goal
  has tasks, all completed. What a step may do to a history is \<open>goal_grows\<close>.
\<close>

section \<open>Dependencies\<close>

definition dep_in :: "goal_task list \<Rightarrow> goal_task \<Rightarrow> bool" where
  "dep_in xs t = (case gt_dependsOnTaskId t of None \<Rightarrow> True | Some d \<Rightarrow>
     list_ex (\<lambda>x. gt_id x = d \<and> gt_goalId x = gt_goalId t \<and> gt_organizationId x = gt_organizationId t) xs)"

definition deps_ordered :: "goal_task list \<Rightarrow> bool" where
  "deps_ordered ts = list_all (\<lambda>k. dep_in (take k ts) (ts ! k)) [0 ..< length ts]"

lemma deps_ordered_Nil [simp]: "deps_ordered []"
  by (simp add: deps_ordered_def)

lemma deps_ordered_snoc: "deps_ordered (ts @ [t]) \<longleftrightarrow> deps_ordered ts \<and> dep_in ts t"
  by (auto simp: deps_ordered_def list_all_iff nth_append)

text \<open>The columns no update of a task changes.\<close>

definition same_task :: "goal_task \<Rightarrow> goal_task \<Rightarrow> bool" where
  "same_task t t' \<longleftrightarrow> gt_id t' = gt_id t \<and> gt_organizationId t' = gt_organizationId t \<and>
     gt_goalId t' = gt_goalId t \<and> gt_dependsOnTaskId t' = gt_dependsOnTaskId t"

lemma dep_in_map:
  "(\<And>x. same_task x (f x)) \<Longrightarrow> same_task t t' \<Longrightarrow> dep_in (map f ts) t' \<longleftrightarrow> dep_in ts t"
  by (auto simp: dep_in_def same_task_def list_ex_iff split: option.split)

lemma deps_ordered_map:
  "(\<And>x. same_task x (f x)) \<Longrightarrow> deps_ordered (map f ts) \<longleftrightarrow> deps_ordered ts"
proof (induction ts rule: rev_induct)
  case (snoc x xs)
  with dep_in_map [of f x "f x" xs] show ?case by (simp add: deps_ordered_snoc)
qed simp

lemma dep_in_filter:
  "dep_in ts t \<Longrightarrow> \<not> Q (gt_organizationId t) (gt_goalId t) \<Longrightarrow>
   dep_in (filter (\<lambda>x. \<not> Q (gt_organizationId x) (gt_goalId x)) ts) t"
  by (auto simp: dep_in_def list_ex_iff split: option.splits)

lemma deps_ordered_filter:
  "deps_ordered ts \<Longrightarrow> deps_ordered (filter (\<lambda>x. \<not> Q (gt_organizationId x) (gt_goalId x)) ts)"
  by (induction ts rule: rev_induct) (auto simp: deps_ordered_snoc dep_in_filter)

lemma deps_ordered_dep:
  assumes "deps_ordered ts" "t \<in> set ts" "gt_dependsOnTaskId t = Some d"
  shows "\<exists>x \<in> set ts. gt_id x = d \<and> gt_goalId x = gt_goalId t \<and> gt_organizationId x = gt_organizationId t"
  using assms
proof (induction ts rule: rev_induct)
  case (snoc x xs)
  then show ?case by (auto simp: deps_ordered_snoc dep_in_def list_ex_iff)
qed simp

lemma deps_ordered_irrefl:
  assumes "deps_ordered ts" "distinct (map gt_id ts)" "t \<in> set ts"
  shows "gt_dependsOnTaskId t \<noteq> Some (gt_id t)"
  using assms
proof (induction ts rule: rev_induct)
  case (snoc x xs)
  show ?case
  proof (cases "t = x")
    case True
    from snoc.prems(2) have "\<forall>y \<in> set xs. gt_id y \<noteq> gt_id x" by (auto simp: image_iff)
    with snoc.prems(1) True show ?thesis
      by (auto simp: deps_ordered_snoc dep_in_def list_ex_iff)
  next
    case False
    with snoc show ?thesis by (simp add: deps_ordered_snoc)
  qed
qed simp

lemma find_task_Some: "find_task org i ts = Some t \<Longrightarrow> t \<in> set ts \<and> gt_organizationId t = org \<and> gt_id t = i"
  by (auto simp: find_task_def find_Some_iff in_set_conv_nth)

lemma find_task_mem:
  assumes "distinct (map gt_id ts)" "t \<in> set ts"
  shows "find_task (gt_organizationId t) (gt_id t) ts = Some t"
proof (cases "find_task (gt_organizationId t) (gt_id t) ts")
  case None
  with assms(2) show ?thesis by (auto simp: find_task_def find_None_iff)
next
  case (Some x)
  with assms find_task_Some [OF Some] show ?thesis by (auto simp: distinct_map inj_on_def)
qed

text \<open>What is downstream of a task belongs to its goal.\<close>

lemma depends_path_goal:
  assumes "distinct (map gt_id ts)" "deps_ordered ts" "r \<in> set ts"
  shows "depends_path n (gt_organizationId r) (gt_id r) ts t \<Longrightarrow> t \<in> set ts \<Longrightarrow>
    gt_organizationId t = gt_organizationId r \<Longrightarrow> gt_goalId t = gt_goalId r"
proof (induction n arbitrary: t)
  case (Suc n)
  then obtain d where d: "gt_dependsOnTaskId t = Some d" by (auto split: option.splits)
  obtain x where x: "x \<in> set ts" "gt_id x = d" "gt_goalId x = gt_goalId t" "gt_organizationId x = gt_organizationId t"
    using deps_ordered_dep [OF assms(2) Suc.prems(2) d] by blast
  show ?case
  proof (cases "d = gt_id r")
    case True
    then have "x = r" using x assms(1,3) by (auto simp: distinct_map inj_on_def)
    with x show ?thesis by simp
  next
    case False
    then have "depends_path n (gt_organizationId r) (gt_id r) ts x"
      using Suc.prems(1,3) d x find_task_mem [OF assms(1) x(1)] by simp
    with Suc.IH [OF _ x(1)] x Suc.prems(3) show ?thesis by simp
  qed
qed simp

section \<open>The invariant\<close>

definition progress_ok :: "goal_task list \<Rightarrow> bool" where
  "progress_ok ts \<longleftrightarrow> (\<forall>t \<in> set ts. gt_status t = T_In_Progress \<longrightarrow>
     (\<forall>d. gt_dependsOnTaskId t = Some d \<longrightarrow>
       (\<exists>x \<in> set ts. gt_id x = d \<and> gt_organizationId x = gt_organizationId t \<and> gt_status x = T_Completed)))"

definition tasks_of :: "goal \<Rightarrow> goal_task list \<Rightarrow> goal_task list" where
  "tasks_of g ts = filter (\<lambda>t. gt_organizationId t = g_organizationId g \<and> gt_goalId t = g_id g) ts"

definition goal_done :: "goal_task list \<Rightarrow> goal \<Rightarrow> bool" where
  "goal_done ts g \<longleftrightarrow> tasks_of g ts \<noteq> [] \<and> list_all (\<lambda>t. gt_status t = T_Completed) (tasks_of g ts)"

definition drawn :: "(nat \<Rightarrow> string) \<Rightarrow> nat \<Rightarrow> string \<Rightarrow> bool" where
  "drawn u n i \<longleftrightarrow> list_ex (\<lambda>k. i = u k) [0 ..< n]"

lemma drawn_le: "drawn u n i \<Longrightarrow> n \<le> m \<Longrightarrow> drawn u m i"
  by (fastforce simp: drawn_def list_ex_iff)

lemma drawn_new [simp]: "k < n \<Longrightarrow> drawn u n (u k)"
  by (auto simp: drawn_def list_ex_iff)

lemma drawn_not_new: "drawn u n i \<Longrightarrow> inj u \<Longrightarrow> n \<le> k \<Longrightarrow> i \<noteq> u k"
  by (auto simp: drawn_def list_ex_iff dest: injD)

definition goal_inv :: "(nat \<Rightarrow> string) \<Rightarrow> goal_state \<Rightarrow> bool" where
  "goal_inv u st \<longleftrightarrow>
     distinct (map gt_id (gs_tasks st)) \<and> distinct (map g_id (gs_goals st)) \<and>
     list_all (\<lambda>t. drawn u (gs_next st) (gt_id t)) (gs_tasks st) \<and>
     list_all (\<lambda>g. drawn u (gs_next st) (g_id g)) (gs_goals st) \<and>
     list_all (\<lambda>t. drawn u (gs_next st) (gt_goalId t)) (gs_tasks st) \<and>
     deps_ordered (gs_tasks st) \<and> progress_ok (gs_tasks st) \<and>
     list_all (\<lambda>g. g_status g = G_Completed \<longrightarrow> goal_done (gs_tasks st) g) (gs_goals st) \<and>
     distinct (map iq_id (gs_questions st)) \<and>
     list_all (\<lambda>q. drawn u (gs_next st) (iq_id q)) (gs_questions st)"

lemma goal_invD:
  assumes "goal_inv u st"
  shows "distinct (map gt_id (gs_tasks st))" "distinct (map g_id (gs_goals st))"
    and "t \<in> set (gs_tasks st) \<Longrightarrow> drawn u (gs_next st) (gt_id t)"
    and "g \<in> set (gs_goals st) \<Longrightarrow> drawn u (gs_next st) (g_id g)"
    and "t \<in> set (gs_tasks st) \<Longrightarrow> drawn u (gs_next st) (gt_goalId t)"
    and "deps_ordered (gs_tasks st)" "progress_ok (gs_tasks st)"
    and "g \<in> set (gs_goals st) \<Longrightarrow> g_status g = G_Completed \<Longrightarrow> goal_done (gs_tasks st) g"
    and "distinct (map iq_id (gs_questions st))"
    and "q \<in> set (gs_questions st) \<Longrightarrow> drawn u (gs_next st) (iq_id q)"
  using assms by (auto simp: goal_inv_def list_all_iff)

lemma goal_invI:
  assumes "distinct (map gt_id (gs_tasks st))" "distinct (map g_id (gs_goals st))"
    and "\<And>t. t \<in> set (gs_tasks st) \<Longrightarrow> drawn u (gs_next st) (gt_id t) \<and> drawn u (gs_next st) (gt_goalId t)"
    and "\<And>g. g \<in> set (gs_goals st) \<Longrightarrow> drawn u (gs_next st) (g_id g)"
    and "deps_ordered (gs_tasks st)" "progress_ok (gs_tasks st)"
    and "\<And>g. g \<in> set (gs_goals st) \<Longrightarrow> g_status g = G_Completed \<Longrightarrow> goal_done (gs_tasks st) g"
    and "distinct (map iq_id (gs_questions st))"
    and "\<And>q. q \<in> set (gs_questions st) \<Longrightarrow> drawn u (gs_next st) (iq_id q)"
  shows "goal_inv u st"
  using assms by (simp add: goal_inv_def list_all_iff)

text \<open>What no step undoes: goals keep their place and their version only grows, a closed question is final.\<close>

definition goal_grows :: "goal_state \<Rightarrow> goal_state \<Rightarrow> bool" where
  "goal_grows st st' \<longleftrightarrow> gs_next st \<le> gs_next st' \<and>
     (\<exists>l. gs_log st' = gs_log st @ l) \<and>
     (\<forall>g \<in> set (gs_goals st). \<exists>g' \<in> set (gs_goals st'). g_id g' = g_id g \<and>
        g_organizationId g' = g_organizationId g \<and> g_channelId g' = g_channelId g \<and>
        g_createdAt g' = g_createdAt g \<and> g_planVersion g \<le> g_planVersion g') \<and>
     (\<forall>q \<in> set (gs_questions st). iq_status q \<noteq> Q_Pending \<longrightarrow> q \<in> set (gs_questions st'))"

lemma goal_grows_refl [simp]: "goal_grows st st"
  by (auto simp: goal_grows_def)

lemma goal_grows_trans:
  assumes "goal_grows a b" "goal_grows b c"
  shows "goal_grows a c"
proof -
  have "\<exists>l. gs_log c = gs_log a @ l"
    using assms unfolding goal_grows_def by (metis append.assoc)
  moreover have "\<exists>g' \<in> set (gs_goals c). g_id g' = g_id g \<and> g_organizationId g' = g_organizationId g \<and>
      g_channelId g' = g_channelId g \<and> g_createdAt g' = g_createdAt g \<and> g_planVersion g \<le> g_planVersion g'"
    if g: "g \<in> set (gs_goals a)" for g
  proof -
    obtain h where h: "h \<in> set (gs_goals b)" "g_id h = g_id g" "g_organizationId h = g_organizationId g"
      "g_channelId h = g_channelId g" "g_createdAt h = g_createdAt g" "g_planVersion g \<le> g_planVersion h"
      using assms(1) g unfolding goal_grows_def by blast
    obtain h' where "h' \<in> set (gs_goals c)" "g_id h' = g_id h" "g_organizationId h' = g_organizationId h"
      "g_channelId h' = g_channelId h" "g_createdAt h' = g_createdAt h" "g_planVersion h \<le> g_planVersion h'"
      using assms(2) h(1) unfolding goal_grows_def by blast
    with h show ?thesis by (metis order_trans)
  qed
  ultimately show ?thesis using assms by (simp add: goal_grows_def)
qed

definition goal_step_ok :: "(nat \<Rightarrow> string) \<Rightarrow> goal_state \<Rightarrow> goal_state \<Rightarrow> bool" where
  "goal_step_ok u st st' \<longleftrightarrow> (goal_inv u st \<longrightarrow> goal_inv u st' \<and> goal_grows st st')"

lemma goal_step_ok_refl [simp]: "goal_step_ok u st st"
  by (simp add: goal_step_ok_def)

lemma goal_step_ok_trans: "goal_step_ok u a b \<Longrightarrow> goal_step_ok u b c \<Longrightarrow> goal_step_ok u a c"
  unfolding goal_step_ok_def by (meson goal_grows_trans)

text \<open>A quiet step touches no goal, and of a task neither its status nor its place.\<close>

definition quiet_task :: "(goal_task \<Rightarrow> goal_task) \<Rightarrow> bool" where
  "quiet_task f \<longleftrightarrow> (\<forall>t. same_task t (f t) \<and> gt_status (f t) = gt_status t)"

definition quiet :: "goal_state \<Rightarrow> goal_state \<Rightarrow> bool" where
  "quiet st st' \<longleftrightarrow> gs_goals st' = gs_goals st \<and> gs_questions st' = gs_questions st \<and> gs_next st \<le> gs_next st' \<and>
     (\<exists>l. gs_log st' = gs_log st @ l) \<and> (\<exists>f. quiet_task f \<and> gs_tasks st' = map f (gs_tasks st))"

lemma quietI:
  assumes "gs_goals st' = gs_goals st" "gs_questions st' = gs_questions st" "gs_next st \<le> gs_next st'"
    and "gs_log st' = gs_log st @ l" "quiet_task f" "gs_tasks st' = map f (gs_tasks st)"
  shows "quiet st st'"
  using assms by (auto simp: quiet_def)

lemma quiet_task_id [simp]: "quiet_task (\<lambda>t. t)"
  by (simp add: quiet_task_def same_task_def)

lemma quiet_same:
  "gs_goals st' = gs_goals st \<Longrightarrow> gs_questions st' = gs_questions st \<Longrightarrow> gs_next st \<le> gs_next st' \<Longrightarrow>
   gs_log st' = gs_log st @ l \<Longrightarrow> gs_tasks st' = gs_tasks st \<Longrightarrow> quiet st st'"
  by (rule quietI [of _ _ l "\<lambda>t. t"]) simp_all

lemma quiet_refl [simp]: "quiet st st"
  by (rule quiet_same [of _ _ "[]"]) simp_all

lemma quiet_trans:
  assumes "quiet a b" "quiet b c"
  shows "quiet a c"
proof -
  obtain f where f: "quiet_task f" "gs_tasks b = map f (gs_tasks a)" using assms(1) by (auto simp: quiet_def)
  obtain h where h: "quiet_task h" "gs_tasks c = map h (gs_tasks b)" using assms(2) by (auto simp: quiet_def)
  obtain l where l: "gs_log b = gs_log a @ l" using assms(1) by (auto simp: quiet_def)
  obtain m where m: "gs_log c = gs_log b @ m" using assms(2) by (auto simp: quiet_def)
  have "quiet_task (h \<circ> f)" using f(1) h(1) by (simp add: quiet_task_def same_task_def)
  then show ?thesis
    using assms f h l m by (intro quietI [of _ _ "l @ m" "h \<circ> f"]) (simp_all add: quiet_def)
qed

lemma quiet_fold: "(\<And>x s. quiet s (f x s)) \<Longrightarrow> quiet st (fold f xs st)"
proof (induction xs arbitrary: st)
  case (Cons x xs)
  then show ?case by (auto intro: quiet_trans)
qed simp

lemma tasks_of_map:
  assumes "\<And>t. same_task t (f t)"
  shows "tasks_of g (map f ts) = map f (tasks_of g ts)"
  using assms by (simp add: tasks_of_def filter_map o_def same_task_def)

lemma map_same_id:
  assumes "\<And>t. same_task t (f t)"
  shows "map gt_id (map f ts) = map gt_id ts"
  using assms by (simp add: same_task_def)

lemma quiet_progress:
  assumes "quiet_task f" "progress_ok ts"
  shows "progress_ok (map f ts)"
  unfolding progress_ok_def
proof (intro ballI impI allI)
  fix t d
  assume t: "t \<in> set (map f ts)" "gt_status t = T_In_Progress" "gt_dependsOnTaskId t = Some d"
  then obtain s where s: "s \<in> set ts" "t = f s" by auto
  with t assms(1) have "gt_status s = T_In_Progress" "gt_dependsOnTaskId s = Some d"
    by (simp_all add: quiet_task_def same_task_def)
  with s(1) assms(2) obtain x where x: "x \<in> set ts" "gt_id x = d" "gt_organizationId x = gt_organizationId s"
    "gt_status x = T_Completed" unfolding progress_ok_def by blast
  with s(2) assms(1) have "f x \<in> set (map f ts) \<and> gt_id (f x) = d \<and>
      gt_organizationId (f x) = gt_organizationId t \<and> gt_status (f x) = T_Completed"
    by (simp add: quiet_task_def same_task_def)
  then show "\<exists>x \<in> set (map f ts). gt_id x = d \<and> gt_organizationId x = gt_organizationId t \<and> gt_status x = T_Completed"
    by blast
qed

lemma quiet_ok:
  assumes "quiet st st'"
  shows "goal_step_ok u st st'"
  unfolding goal_step_ok_def
proof (intro impI conjI)
  assume inv: "goal_inv u st"
  obtain f where f: "quiet_task f" "gs_tasks st' = map f (gs_tasks st)" using assms by (auto simp: quiet_def)
  then have same: "\<And>t. same_task t (f t)" and stat: "\<And>t. gt_status (f t) = gt_status t"
    by (simp_all add: quiet_task_def)
  have eq: "gs_goals st' = gs_goals st" "gs_questions st' = gs_questions st" and le: "gs_next st \<le> gs_next st'"
    using assms by (simp_all add: quiet_def)
  have done_eq: "goal_done (map f ts) g \<longleftrightarrow> goal_done ts g" for ts g
    using stat by (simp add: goal_done_def tasks_of_map [OF same] list_all_iff)
  show "goal_inv u st'"
  proof (rule goal_invI)
    fix t assume "t \<in> set (gs_tasks st')"
    then obtain s where "s \<in> set (gs_tasks st)" "gt_id t = gt_id s" "gt_goalId t = gt_goalId s"
      using f(2) same by (auto simp: same_task_def)
    then show "drawn u (gs_next st') (gt_id t) \<and> drawn u (gs_next st') (gt_goalId t)"
      using goal_invD(3,5) [OF inv] le by (auto intro: drawn_le)
  next
    fix g assume "g \<in> set (gs_goals st')"
    then show "drawn u (gs_next st') (g_id g)"
      using goal_invD(4) [OF inv] eq le by (auto intro: drawn_le)
  next
    fix q assume "q \<in> set (gs_questions st')"
    then show "drawn u (gs_next st') (iq_id q)"
      using goal_invD(10) [OF inv] eq le by (auto intro: drawn_le)
  next
    show "distinct (map gt_id (gs_tasks st'))"
      using goal_invD(1) [OF inv] by (simp only: f(2) map_same_id [of f, OF same])
  qed (use goal_invD [OF inv] f(1) same in \<open>auto simp: f(2) eq deps_ordered_map quiet_progress done_eq\<close>)
  show "goal_grows st st'"
    using assms by (auto simp: goal_grows_def quiet_def)
qed

section \<open>A change of status\<close>

lemma same_task_refl [simp]: "same_task t t"
  by (simp add: same_task_def)

lemma same_task_set [simp]: "same_task t (set_status s now t)"
  by (simp add: same_task_def set_status_def)

lemma set_status_sel [simp]: "gt_status (set_status s now t) = s"
  by (simp add: set_status_def)

text \<open>The function a change of status maps over the tasks.\<close>

definition moved :: "string \<Rightarrow> string \<Rightarrow> goal_task_status \<Rightarrow> string option \<Rightarrow> int \<Rightarrow> goal_task \<Rightarrow> goal_task" where
  "moved org i status h now t = (if gt_organizationId t = org \<and> gt_id t = i
     then t\<lparr>gt_status := status, gt_handoverSummary := or_default h (gt_handoverSummary t), gt_updatedAt := now\<rparr>
     else t)"

definition cascaded :: "string \<Rightarrow> string \<Rightarrow> goal_task_status \<Rightarrow> int \<Rightarrow> goal_task list \<Rightarrow> goal_task \<Rightarrow> goal_task" where
  "cascaded org i status now ts t =
     (if status = T_Completed
      then if gt_organizationId t = org \<and> gt_dependsOnTaskId t = Some i \<and> gt_status t = T_Blocked
           then set_status T_Pending now t else t
      else if status = T_Failed \<or> status = T_Cancelled
      then if is_downstream org i ts t \<and> gt_status t \<notin> {T_Completed, T_Cancelled, T_Failed}
           then set_status T_Blocked_By_Failure now t else t
      else if is_downstream org i ts t \<and> gt_status t \<in> {T_Pending, T_In_Progress}
           then set_status T_Blocked now t else t)"

lemma same_task_moved [simp]: "same_task t (moved org i status h now t)"
  by (simp add: moved_def same_task_def)

lemma same_task_cascaded [simp]: "same_task t (cascaded org i status now ts t)"
  by (simp add: cascaded_def)

lemma same_task_trans: "same_task a b \<Longrightarrow> same_task b c \<Longrightarrow> same_task a c"
  by (simp add: same_task_def)

lemma updateGoalTaskStatus_tasks:
  assumes "updateGoalTaskStatus now org i status h st = (st', Inr (Some t))"
  defines "ts \<equiv> map (moved org i status h now) (gs_tasks st)"
  shows "st' = st\<lparr>gs_tasks := map (cascaded org i status now ts) ts\<rparr>"
    and "getGoalTask org i st' = Some t"
    and "status = T_In_Progress \<or> status = T_Completed \<Longrightarrow> x \<in> set (gs_tasks st) \<Longrightarrow>
      gt_organizationId x = org \<Longrightarrow> gt_id x = i \<Longrightarrow> distinct (map gt_id (gs_tasks st)) \<Longrightarrow>
      gt_dependsOnTaskId x = Some d \<Longrightarrow> \<exists>y \<in> set (gs_tasks st). gt_organizationId y = org \<and> gt_id y = d \<and> gt_status y = T_Completed"
proof -
  have casc: "cascade org i status now ts = map (cascaded org i status now ts) ts"
    by (auto simp: cascade_def cascaded_def tbl_update_def)
  have mv: "tbl_update (\<lambda>t. gt_organizationId t = org \<and> gt_id t = i)
      (\<lambda>t. t\<lparr>gt_status := status, gt_handoverSummary := or_default h (gt_handoverSummary t), gt_updatedAt := now\<rparr>)
      (gs_tasks st) = ts"
    by (simp add: ts_def tbl_update_def moved_def)
  show st': "st' = st\<lparr>gs_tasks := map (cascaded org i status now ts) ts\<rparr>"
    and "getGoalTask org i st' = Some t"
    using assms(1) unfolding updateGoalTaskStatus_def Let_def mv casc
    by (auto split: option.splits if_splits)
  show "\<exists>y \<in> set (gs_tasks st). gt_organizationId y = org \<and> gt_id y = d \<and> gt_status y = T_Completed"
    if x: "status = T_In_Progress \<or> status = T_Completed" "x \<in> set (gs_tasks st)"
      "gt_organizationId x = org" "gt_id x = i" "distinct (map gt_id (gs_tasks st))" "gt_dependsOnTaskId x = Some d"
  proof -
    have "getGoalTask org i st = Some (read_task x)"
      using find_task_mem [OF x(5,2)] x(3,4) by (simp add: getGoalTask_def)
    with assms(1) x(1,6) obtain y where "getGoalTask org d st = Some y" "gt_status y = T_Completed"
      by (auto simp: updateGoalTaskStatus_def read_task_def split: option.splits if_splits)
    then show ?thesis by (auto simp: getGoalTask_def read_task_def dest: find_task_Some)
  qed
qed

lemma progress_ok_moved:
  fixes h :: "string option" and now :: int
  assumes dist: "distinct (map gt_id ts)" and ord: "deps_ordered ts" and ok: "progress_ok ts"
    and i: "\<And>x d. status = T_In_Progress \<Longrightarrow> x \<in> set ts \<Longrightarrow> gt_organizationId x = org \<Longrightarrow> gt_id x = i \<Longrightarrow>
      gt_dependsOnTaskId x = Some d \<Longrightarrow>
      \<exists>y \<in> set ts. gt_organizationId y = org \<and> gt_id y = d \<and> gt_status y = T_Completed"
  defines "ts1 \<equiv> map (moved org i status h now) ts"
  shows "progress_ok (map (cascaded org i status now ts1) ts1)"
proof -
  define f where "f x = cascaded org i status now ts1 (moved org i status h now x)" for x
  have same: "same_task x (f x)" for x
    unfolding f_def by (rule same_task_trans [OF same_task_moved same_task_cascaded])
  have keeps: "gt_status (f x) = T_Completed" if "x \<in> set ts" "gt_status x = T_Completed" "gt_id x \<noteq> i" for x
    using that by (simp add: f_def moved_def cascaded_def)
  have "\<exists>y \<in> set ts. gt_id y = d \<and> gt_organizationId y = gt_organizationId x \<and> gt_status (f y) = T_Completed"
    if x: "x \<in> set ts" "gt_status (f x) = T_In_Progress" "gt_dependsOnTaskId x = Some d" for x d
  proof (cases "gt_organizationId x = org \<and> gt_id x = i")
    case True
    have "status = T_In_Progress"
      using x(2) True by (auto simp: f_def moved_def cascaded_def split: if_splits)
    then obtain y where y: "y \<in> set ts" "gt_organizationId y = org" "gt_id y = d" "gt_status y = T_Completed"
      using i x(1,3) True by blast
    moreover have "d \<noteq> i" using deps_ordered_irrefl [OF ord dist x(1)] x(3) True by auto
    ultimately show ?thesis using keeps True by metis
  next
    case False
    then have mv: "moved org i status h now x = x" by (auto simp: moved_def)
    have prog: "gt_status x = T_In_Progress"
      using x(2) by (auto simp: f_def mv cascaded_def split: if_splits)
    obtain y where y: "y \<in> set ts" "gt_id y = d" "gt_organizationId y = gt_organizationId x" "gt_status y = T_Completed"
      using ok x(1,3) prog unfolding progress_ok_def by blast
    show ?thesis
    proof (cases "d = i \<and> gt_organizationId x = org")
      case True
      have "is_downstream org i ts1 x"
        using x(1,3) True by (cases ts) (auto simp: is_downstream_def ts1_def)
      then have "status = T_Completed"
        using x(2) prog by (auto simp: f_def mv cascaded_def split: if_splits)
      with y True have "gt_status (f y) = T_Completed"
        by (simp add: f_def moved_def cascaded_def)
      with y show ?thesis by blast
    next
      case other: False
      then have "moved org i status h now y = y" using y by (auto simp: moved_def)
      then have "gt_status (f y) = T_Completed" using y(4) by (simp add: f_def cascaded_def)
      with y show ?thesis by blast
    qed
  qed
  then show ?thesis
    using same unfolding progress_ok_def same_task_def ts1_def by (fastforce simp: f_def ts1_def)
qed

end
