(* ===== verification/GoalSteps.thy ===== *)
theory GoalSteps
  imports GoalLaws
begin

text \<open>
  Every operation of the goal service keeps the invariant of the tables and the history of
  goals and questions (\<open>goal_step_ok\<close>).
\<close>

section \<open>Updates in place\<close>

definition same_goal :: "goal \<Rightarrow> goal \<Rightarrow> bool" where
  "same_goal g g' \<longleftrightarrow> g_id g' = g_id g \<and> g_organizationId g' = g_organizationId g \<and>
     g_channelId g' = g_channelId g \<and> g_createdAt g' = g_createdAt g \<and> g_planVersion g \<le> g_planVersion g'"

lemma same_goal_refl [simp]: "same_goal g g"
  by (simp add: same_goal_def)

lemma goal_update_ok:
  assumes inv: "goal_inv u st"
    and t: "gs_tasks st' = map F (gs_tasks st)" "\<And>t. same_task t (F t)" "progress_ok (gs_tasks st')"
    and g: "gs_goals st' = map H (gs_goals st)" "\<And>g. g \<in> set (gs_goals st) \<Longrightarrow> same_goal g (H g)"
    and fin: "\<And>g. g \<in> set (gs_goals st) \<Longrightarrow> g_status (H g) = G_Completed \<Longrightarrow> goal_done (gs_tasks st') (H g)"
    and rest: "gs_questions st' = gs_questions st" "gs_next st \<le> gs_next st'" "gs_log st' = gs_log st @ l"
  shows "goal_inv u st' \<and> goal_grows st st'"
proof
  have ids: "map g_id (gs_goals st') = map g_id (gs_goals st)"
    using g by (simp add: same_goal_def)
  have tids: "map gt_id (gs_tasks st') = map gt_id (gs_tasks st)"
    using t by (simp add: same_task_def)
  show "goal_inv u st'"
  proof (rule goal_invI)
    fix x assume "x \<in> set (gs_tasks st')"
    then obtain s where "s \<in> set (gs_tasks st)" "gt_id x = gt_id s" "gt_goalId x = gt_goalId s"
      using t by (auto simp: same_task_def)
    then show "drawn u (gs_next st') (gt_id x) \<and> drawn u (gs_next st') (gt_goalId x)"
      using goal_invD(3,5) [OF inv] rest(2) by (auto intro: drawn_le)
  next
    fix x assume "x \<in> set (gs_goals st')"
    then obtain y where "y \<in> set (gs_goals st)" "g_id x = g_id y" using g by (auto simp: same_goal_def)
    then show "drawn u (gs_next st') (g_id x)"
      using goal_invD(4) [OF inv] rest(2) by (auto intro: drawn_le)
  next
    fix q assume "q \<in> set (gs_questions st')"
    then show "drawn u (gs_next st') (iq_id q)"
      using goal_invD(10) [OF inv] rest by (auto intro: drawn_le)
  next
    show "distinct (map gt_id (gs_tasks st'))" "distinct (map g_id (gs_goals st'))"
      using goal_invD(1,2) [OF inv] ids tids by simp_all
    show "deps_ordered (gs_tasks st')"
      using goal_invD(6) [OF inv] t(2) by (simp only: t(1) deps_ordered_map)
  qed (use goal_invD [OF inv] t(3) rest g(1) fin in auto)
  show "goal_grows st st'"
    using g rest by (auto simp: goal_grows_def same_goal_def)
qed

lemma goal_done_same: "same_goal g g' \<Longrightarrow> goal_done ts g' = goal_done ts g"
  by (simp add: goal_done_def tasks_of_def same_goal_def)

text \<open>A goal that is in the table is saved in place.\<close>

lemma saveGoal_in_place:
  assumes "saveGoal g st = (st', r)" "g0 \<in> set (gs_goals st)" "same_goal g0 g" "distinct (map g_id (gs_goals st))"
  shows "st' = st \<and> r = Inl Invalid_Row \<or> (\<exists>H. st' = st\<lparr>gs_goals := map H (gs_goals st)\<rparr> \<and>
    (\<forall>x \<in> set (gs_goals st). same_goal x (H x) \<and> (g_id x = g_id g \<longrightarrow> g_status (H x) = g_status g) \<and>
       (g_id x \<noteq> g_id g \<longrightarrow> H x = x)))"
proof (cases "goal_valid g")
  case True
  define H where "H r = (if g_id r = g_id g then r\<lparr>g_title := g_title g, g_status := g_status g,
    g_supervisorId := g_supervisorId g, g_planMarkdown := g_planMarkdown g,
    g_planVersion := g_planVersion g, g_updatedAt := g_updatedAt g\<rparr> else r)" for r :: goal
  have "g_id g \<in> g_id ` set (gs_goals st)" using assms(2,3) by (auto simp: same_goal_def)
  then have "st' = st\<lparr>gs_goals := map H (gs_goals st)\<rparr>"
    using assms(1) True by (auto simp: saveGoal_def tbl_upsert_def H_def [abs_def])
  moreover have "same_goal x (H x)" if "x \<in> set (gs_goals st)" for x
  proof (cases "g_id x = g_id g")
    case True
    with that assms(2-4) have "x = g0" by (auto simp: same_goal_def distinct_map inj_on_def)
    with assms(3) show ?thesis by (auto simp: H_def same_goal_def)
  qed (simp add: H_def)
  ultimately show ?thesis by (intro disjI2 exI [of _ H]) (auto simp: H_def)
qed (use assms(1) in \<open>simp add: saveGoal_def\<close>)

lemma saveGoal_ok:
  assumes inv: "goal_inv u st" and "saveGoal g st = (st', r)" "g0 \<in> set (gs_goals st)" "same_goal g0 g"
    and "g_status g = G_Completed \<Longrightarrow> goal_done (gs_tasks st) g"
  shows "goal_inv u st' \<and> goal_grows st st'"
  using saveGoal_in_place [OF assms(2-4) goal_invD(2) [OF inv]]
proof (elim disjE exE conjE)
  fix H assume H: "st' = st\<lparr>gs_goals := map H (gs_goals st)\<rparr>"
    "\<forall>x \<in> set (gs_goals st). same_goal x (H x) \<and> (g_id x = g_id g \<longrightarrow> g_status (H x) = g_status g) \<and>
       (g_id x \<noteq> g_id g \<longrightarrow> H x = x)"
  show ?thesis
  proof (rule goal_update_ok [OF inv, of st' "\<lambda>t. t" H "[]"])
    fix x assume x: "x \<in> set (gs_goals st)" "g_status (H x) = G_Completed"
    show "goal_done (gs_tasks st') (H x)"
    proof (cases "g_id x = g_id g")
      case True
      then have "x = g0"
        using x(1) assms(3,4) goal_invD(2) [OF inv] by (auto simp: same_goal_def distinct_map inj_on_def)
      then have "goal_done (gs_tasks st) (H x) = goal_done (gs_tasks st) g"
        using H(2) x(1) assms(4) by (metis goal_done_same)
      with assms(5) H True x show ?thesis by simp
    next
      case False
      with H x goal_invD(8) [OF inv x(1)] show ?thesis by simp
    qed
  qed (use H goal_invD(7) [OF inv] in auto)
qed (use inv in simp)

section \<open>Results and transactions\<close>

lemma and_ok_split:
  "P (and_ok r f) \<longleftrightarrow> (\<forall>st e. r = (st, Inl e) \<longrightarrow> P (st, Inl e)) \<and> (\<forall>st x. r = (st, Inr x) \<longrightarrow> P (f x st))"
  by (cases r; cases "snd r") (auto simp: and_ok_def)

lemma and_ok_simps [simp]:
  "and_ok (st, Inl e) f = (st, Inl e)" "and_ok (st, Inr x) f = f x st"
  by (simp_all add: and_ok_def)

text \<open>
  A transaction is safe when what it commits is, and what it rolls back only drew ids,
  remembered nudges or posted messages.
\<close>

definition memory_grows :: "goal_state \<Rightarrow> goal_state \<Rightarrow> bool" where
  "memory_grows st st' \<longleftrightarrow> gs_next st \<le> gs_next st' \<and> (\<exists>l. gs_log st' = gs_log st @ l)"

lemma memory_grows_refl [simp]: "memory_grows st st"
  by (simp add: memory_grows_def)

lemma memory_grows_trans: "memory_grows a b \<Longrightarrow> memory_grows b c \<Longrightarrow> memory_grows a c"
  by (auto simp: memory_grows_def)

lemma grows_memory: "goal_grows st st' \<Longrightarrow> memory_grows st st'"
  by (simp add: goal_grows_def memory_grows_def)

lemma transaction_ok:
  assumes "\<And>st' x. r = (st', Inr x) \<Longrightarrow> goal_step_ok u st st'"
    and "\<And>st' e. r = (st', Inl e) \<Longrightarrow> memory_grows st st'"
  shows "goal_step_ok u st (fst (transaction st r))"
proof (cases r)
  case (Pair st' x)
  show ?thesis
  proof (cases x)
    case (Inl e)
    then have grow: "memory_grows st st'" using assms(2) Pair by simp
    then obtain l where "gs_log st' = gs_log st @ l" by (auto simp: memory_grows_def)
    with grow Pair Inl show ?thesis
      by (simp add: transaction_def memory_grows_def) (rule quiet_ok, rule quiet_same [of _ _ l]; simp)
  next
    case (Inr y)
    with Pair assms(1) show ?thesis by (simp add: transaction_def)
  qed
qed

lemma getGoal_mem: "getGoal org i st = Some g \<Longrightarrow> g \<in> set (gs_goals st) \<and> g_organizationId g = org \<and> g_id g = i"
  by (auto simp: getGoal_def find_Some_iff in_set_conv_nth)

lemma saveGoal_memory: "saveGoal g st = (st', r) \<Longrightarrow> memory_grows st st'"
  by (auto simp: saveGoal_def memory_grows_def split: if_splits)

lemma saveGoal_status_ok:
  assumes "saveGoal (g\<lparr>g_status := s, g_updatedAt := now\<rparr>) st = (st', r)" "getGoal org i st = Some g" "s \<noteq> G_Completed"
  shows "goal_step_ok u st st'"
  unfolding goal_step_ok_def
  using saveGoal_ok [OF _ assms(1), of u g] getGoal_mem [OF assms(2)] assms(3) by (simp add: same_goal_def)

lemma setGoalStatus_ok:
  "next \<noteq> G_Completed \<Longrightarrow> goal_step_ok u st (fst (setGoalStatus env org i allowed next st))"
  unfolding setGoalStatus_def
  by (rule transaction_ok)
    (auto split: option.splits if_splits intro: saveGoal_status_ok saveGoal_memory)

lemma pause_ok: "goal_step_ok u st (fst (pause env org i st))"
  and resume_ok: "goal_step_ok u st (fst (resume env org i st))"
  by (simp_all add: pause_def resume_def setGoalStatus_ok)

lemma stop_ok: "goal_step_ok u st (fst (stop env org i st))"
  unfolding stop_def
  by (rule transaction_ok)
    (auto split: option.splits if_splits intro: saveGoal_status_ok saveGoal_memory)

lemma implement_ok: "goal_step_ok u st (fst (implement env org i st))"
  unfolding implement_def Let_def
proof (rule transaction_ok; clarsimp split: option.splits if_splits simp: and_ok_def split: prod.splits sum.splits)
qed (auto intro: saveGoal_status_ok saveGoal_memory)

section \<open>Notifications\<close>

lemma quiet_log: "quiet st (log_goal e st)"
  by (rule quiet_same [of _ _ "[e]"]) (simp_all add: log_goal_def)

lemma quiet_nudged: "quiet st (st\<lparr>gs_nudged := m\<rparr>)"
  by (rule quiet_same [of _ _ "[]"]) simp_all

lemma quiet_lastNudged: "quiet st (setGoalTaskLastNudgedAt org i now st)"
  by (rule quietI [of _ _ "[]" "\<lambda>t. if gt_organizationId t = org \<and> gt_id t = i then t\<lparr>gt_lastNudgedAt := Some now\<rparr> else t"])
    (simp_all add: setGoalTaskLastNudgedAt_def tbl_update_def quiet_task_def same_task_def)

lemma quiet_post: "quiet st (fst (postNotificationToAssignee env org goal task sender body skip nudge st))"
  by (auto simp: postNotificationToAssignee_def Let_def quiet_log intro: quiet_trans [OF quiet_log quiet_log]
      split: option.split)

lemma quiet_nudge_now: "quiet st (nudge_now env org task reason dep st)"
proof -
  have "quiet st (case postNotificationToAssignee env org g task s b sk n st of
      (st1, False) \<Rightarrow> st1
    | (st1, True) \<Rightarrow> setGoalTaskLastNudgedAt org i now (st1\<lparr>gs_nudged := m st1\<rparr>))" for g s b sk n i now m
  proof (cases "postNotificationToAssignee env org g task s b sk n st")
    case (Pair st1 ok)
    then have "quiet st st1" by (metis quiet_post fst_conv)
    moreover have "quiet st1 (setGoalTaskLastNudgedAt org i now (st1\<lparr>gs_nudged := m st1\<rparr>))"
      by (rule quiet_trans [OF quiet_nudged quiet_lastNudged])
    ultimately show ?thesis using Pair by (auto split: bool.split intro: quiet_trans)
  qed
  then show ?thesis by (simp add: nudge_now_def split: option.split)
qed

lemma quiet_nudgeAssignee: "quiet st (nudgeAssignee env org task reason dep st)"
  by (simp add: nudgeAssignee_def quiet_nudge_now quiet_nudged split: option.split)

lemma quiet_dependents: "quiet st (notifyDependentsUnblocked env org t st)"
  by (simp add: notifyDependentsUnblocked_def quiet_fold quiet_nudgeAssignee)

lemma quiet_notifyTaskMoved: "quiet st (notifyTaskMoved env org task old mover st)"
proof -
  have "quiet st (case postNotificationToAssignee env org g task mover b True n st of
      (st1, False) \<Rightarrow> st1 | (st1, True) \<Rightarrow> st1\<lparr>gs_nudged := m st1\<rparr>)" for g b n m
    using quiet_post [of st env org g task mover b True n]
    by (cases "postNotificationToAssignee env org g task mover b True n st")
      (auto split: bool.split intro: quiet_trans [OF _ quiet_nudged])
  then show ?thesis by (simp add: notifyTaskMoved_def split: option.split)
qed

lemma quiet_sweep: "quiet st (sweepAllPendingTasks env st)"
proof -
  have "quiet s (sweep_task env org a ts t s)" for org a ts t s
    by (simp add: sweep_task_def quiet_nudgeAssignee split: goal_task_status.split option.split)
  then have goal: "quiet s (sweep_goal env org a g s)" for org a g s
    by (simp add: sweep_goal_def Let_def quiet_fold)
  have "quiet s (fold (\<lambda>org st'. fold (sweep_goal env org (active_assignees env org)) (listGoals org st') st') os s)" for os s
    by (rule quiet_fold) (rule quiet_fold [OF goal])
  then show ?thesis
    unfolding sweepAllPendingTasks_def by (auto intro: quiet_trans [OF quiet_nudged])
qed

section \<open>Task updates\<close>

lemma getGoalTask_Some:
  assumes "getGoalTask org i st = Some t"
  obtains x where "x \<in> set (gs_tasks st)" "gt_organizationId x = org" "gt_id x = i" "t = read_task x"
  using assms by (auto simp: getGoalTask_def dest: find_task_Some)

lemma same_task_read: "same_task t (read_task t)" "gt_status (read_task t) = gt_status t"
  by (simp_all add: same_task_def read_task_def)

text \<open>Saving a task that was read, with its status, is quiet.\<close>

lemma saveGoalTask_quiet:
  assumes "saveGoalTask t st = (st', r)" "getGoalTask org i st = Some t0" "same_task t0 t"
    and "gt_status t = gt_status t0" "distinct (map gt_id (gs_tasks st))"
  shows "quiet st st'"
proof (cases "task_valid t")
  case True
  obtain x where x: "x \<in> set (gs_tasks st)" "t0 = read_task x" by (rule getGoalTask_Some [OF assms(2)])
  define f where "f s = (if s = x then s\<lparr>gt_title := gt_title t, gt_description := gt_description t,
    gt_status := gt_status t, gt_assigneeId := gt_assigneeId t, gt_dependsOnTaskId := gt_dependsOnTaskId t,
    gt_handoverSummary := gt_handoverSummary t, gt_updatedAt := gt_updatedAt t\<rparr> else s)" for s :: goal_task
  have id: "gt_id t = gt_id x" using x(2) assms(3) by (simp add: same_task_def read_task_def)
  have "gt_id t \<in> gt_id ` set (gs_tasks st)" using x(1) id by simp
  moreover have "gt_id s = gt_id x \<longleftrightarrow> s = x" if "s \<in> set (gs_tasks st)" for s
    using that x(1) assms(5) by (auto simp: distinct_map inj_on_def)
  ultimately have "st' = st\<lparr>gs_tasks := map f (gs_tasks st)\<rparr>"
    using assms(1) True id by (auto simp: saveGoalTask_def tbl_upsert_def f_def)
  moreover have "quiet_task f"
    using x(2) assms(3,4) by (auto simp: quiet_task_def f_def same_task_def read_task_def)
  ultimately show ?thesis by (intro quietI [of _ _ "[]" f]) simp_all
qed (use assms(1) in \<open>simp add: saveGoalTask_def\<close>)

lemma saveGoalTask_memory: "saveGoalTask t st = (st', r) \<Longrightarrow> memory_grows st st'"
  by (auto simp: saveGoalTask_def memory_grows_def split: if_splits)

lemma quiet_memory: "quiet st st' \<Longrightarrow> memory_grows st st'"
  by (simp add: quiet_def memory_grows_def)

lemma edit_plan_quiet:
  assumes "edit_plan env u existing st = (st', r)" "getGoalTask org i st = Some existing"
    and "distinct (map gt_id (gs_tasks st))"
  shows "quiet st st'"
  using assms(1)
  by (auto simp: edit_plan_def and_ok_def same_task_def split: if_splits option.splits prod.splits sum.splits
      intro: saveGoalTask_quiet [OF _ assms(2) _ _ assms(3)])

text \<open>What a change of status may touch: the task, and tasks of its goal.\<close>

lemma updateGoalTaskStatus_ok:
  assumes inv: "goal_inv u st" and "updateGoalTaskStatus now org i status h st = (st', Inr (Some t))"
  obtains F where "gs_tasks st' = map F (gs_tasks st)" "\<And>x. same_task x (F x)"
    "progress_ok (gs_tasks st')"
    "\<And>x. x \<in> set (gs_tasks st) \<Longrightarrow> gt_status (F x) \<noteq> gt_status x \<Longrightarrow>
        gt_organizationId x = org \<and> gt_goalId x = gt_goalId t"
    "st' = st\<lparr>gs_tasks := gs_tasks st'\<rparr>" "gt_organizationId t = org" "gt_id t = i"
    "\<exists>x \<in> set (gs_tasks st'). t = read_task x"
proof -
  define ts where "ts = map (moved org i status h now) (gs_tasks st)"
  define F where "F x = cascaded org i status now ts (moved org i status h now x)" for x
  note upd = updateGoalTaskStatus_tasks [OF assms(2)]
  have st': "gs_tasks st' = map F (gs_tasks st)" "st' = st\<lparr>gs_tasks := gs_tasks st'\<rparr>"
    using upd(1) by (simp_all add: ts_def F_def o_def)
  have same: "same_task x (F x)" for x
    unfolding F_def by (rule same_task_trans [OF same_task_moved same_task_cascaded])
  obtain r where r: "r \<in> set (gs_tasks st')" "gt_organizationId r = org" "gt_id r = i" "t = read_task r"
    by (rule getGoalTask_Some [OF upd(2)])
  obtain r0 where r0: "r0 \<in> set (gs_tasks st)" "r = F r0" using r(1) st'(1) by auto
  have prog: "progress_ok (gs_tasks st')"
    unfolding st'(1) F_def ts_def
    using progress_ok_moved [OF goal_invD(1,6,7) [OF inv], of status org i now h]
      upd(3) goal_invD(1) [OF inv] by (simp add: o_def)
  have "gt_organizationId x = org \<and> gt_goalId x = gt_goalId t"
    if x: "x \<in> set (gs_tasks st)" "gt_status (F x) \<noteq> gt_status x" for x
  proof -
    define m where "m = moved org i status h now"
    have "map gt_id ts = map gt_id (gs_tasks st)"
      unfolding ts_def by (rule map_same_id) (rule same_task_moved)
    then have dist: "distinct (map gt_id ts)"
      using goal_invD(1) [OF inv] by (simp only:)
    have ord: "deps_ordered ts"
      using goal_invD(6) [OF inv] by (simp add: ts_def deps_ordered_map)
    have mem: "m x \<in> set ts" "m r0 \<in> set ts" using x(1) r0(1) by (auto simp: ts_def m_def)
    have eqs: "gt_organizationId (m y) = gt_organizationId y" "gt_goalId (m y) = gt_goalId y" "gt_id (m y) = gt_id y"
      "gt_dependsOnTaskId (m y) = gt_dependsOnTaskId y" for y
      by (simp_all add: m_def moved_def)
    have r0_eqs: "gt_organizationId r0 = org" "gt_id r0 = i" "gt_goalId t = gt_goalId r0"
      using r r0 same [of r0] by (auto simp: same_task_def read_task_def)
    have path: ?thesis if "depends_path n org i ts (m x)" "gt_organizationId x = org" for n
      using depends_path_goal [OF dist ord mem(2), of n "m x"] that mem(1) eqs r0_eqs by simp
    show ?thesis
    proof (cases "m x = x")
      case False
      then have "x = r0"
        using x(1) r0(1) r0_eqs goal_invD(1) [OF inv]
        by (auto simp: m_def moved_def distinct_map inj_on_def split: if_splits)
      with r0_eqs show ?thesis by simp
    next
      case True
      have one: "depends_path 1 org i ts (m x)" if "gt_dependsOnTaskId x = Some i"
        using that by (simp add: eqs)
      show ?thesis
        using x(2) True path [of 1] path [of "length ts"] one
        by (auto simp: F_def m_def [symmetric] cascaded_def is_downstream_def split: if_splits)
    qed
  qed
  then show thesis
    using that [of F] st' same prog r upd by (auto simp: read_task_def)
qed

lemma synced_completed: "synced_status ts = G_Completed \<longleftrightarrow> ts \<noteq> [] \<and> list_all (\<lambda>s. s = T_Completed) ts"
  by (auto simp: synced_status_def)

lemma statuses_listGoalTasks:
  "set (map gt_status (listGoalTasks org i st)) =
   gt_status ` set (filter (\<lambda>t. gt_organizationId t = org \<and> gt_goalId t = i) (gs_tasks st))"
  by (simp add: listGoalTasks_def image_image read_task_def)

lemma synced_done:
  assumes "synced_status (map gt_status (listGoalTasks (g_organizationId g) (g_id g) st)) = G_Completed"
  shows "goal_done (gs_tasks st) g"
proof -
  define ss where "ss = map gt_status (listGoalTasks (g_organizationId g) (g_id g) st)"
  have set: "set ss = gt_status ` set (tasks_of g (gs_tasks st))"
    unfolding ss_def tasks_of_def by (rule statuses_listGoalTasks)
  have "ss \<noteq> []" "list_all (\<lambda>s. s = T_Completed) ss"
    using assms by (simp_all add: synced_completed ss_def)
  then have "set ss \<noteq> {}" "\<forall>s \<in> set ss. s = T_Completed" by (simp_all add: list_all_iff)
  then show ?thesis unfolding goal_done_def list_all_iff set by auto
qed


text \<open>The goal whose tasks changed is synchronised; the other goals saw no change.\<close>

lemma goal_done_untouched:
  assumes "\<And>x. same_task x (F x)" "goal_done ts g"
    and "\<And>x. x \<in> set ts \<Longrightarrow> gt_status (F x) \<noteq> gt_status x \<Longrightarrow> gt_organizationId x = org \<and> gt_goalId x = gid"
    and "\<not> (g_organizationId g = org \<and> g_id g = gid)"
  shows "goal_done (map F ts) g"
proof -
  have "gt_status (F x) = gt_status x" if "x \<in> set (tasks_of g ts)" for x
    using that assms(3) [of x] assms(4) by (auto simp: tasks_of_def)
  with assms(2) show ?thesis
    by (auto simp: goal_done_def tasks_of_map [OF assms(1)] list_all_iff)
qed

lemma syncGoalStatus_cases:
  assumes "syncGoalStatus env org gid st = (st', Inr ())"
  obtains (none) "st' = st" "getGoal org gid st = None"
  | (kept) g where "st' = st" "getGoal org gid st = Some g" "g_status g \<noteq> G_Completed"
  | (saved) g g' where "getGoal org gid st = Some g"
      "g' = g\<lparr>g_status := synced_status (map gt_status (listGoalTasks org gid st)), g_updatedAt := ge_now env\<rparr>"
      "saveGoal g' st = (st', Inr g')"
  using assms unfolding syncGoalStatus_def Let_def
  by (auto simp: and_ok_def saveGoal_def split: option.splits if_splits prod.splits sum.splits)

lemma sync_ok:
  assumes inv: "goal_inv u st"
    and st2: "gs_tasks st2 = map F (gs_tasks st)" "\<And>x. same_task x (F x)" "progress_ok (gs_tasks st2)"
      "\<And>x. x \<in> set (gs_tasks st) \<Longrightarrow> gt_status (F x) \<noteq> gt_status x \<Longrightarrow> gt_organizationId x = org \<and> gt_goalId x = gid"
    and rest: "st2 = st\<lparr>gs_tasks := gs_tasks st2\<rparr>"
    and sync: "syncGoalStatus env org gid st2 = (st3, Inr ())"
  shows "goal_inv u st3 \<and> goal_grows st st3"
proof -
  have goals: "gs_goals st2 = gs_goals st" using rest by (metis goal_state.select_convs(1) goal_state.surjective goal_state.update_convs(2))
  have other: "goal_done (gs_tasks st2) g"
    if "g \<in> set (gs_goals st)" "g_status g = G_Completed" "\<not> (g_organizationId g = org \<and> g_id g = gid)" for g
    unfolding st2(1) using goal_done_untouched [OF st2(2) goal_invD(8) [OF inv that(1,2)] st2(4) that(3)] by blast
  have st2': "gs_questions st2 = gs_questions st" "gs_next st2 = gs_next st" "gs_log st2 = gs_log st"
    by (subst rest, simp)+
  have keep: ?thesis
    if eq: "st3 = st2" and notdone: "\<And>g. g \<in> set (gs_goals st) \<Longrightarrow> g_organizationId g = org \<and> g_id g = gid \<Longrightarrow>
      g_status g \<noteq> G_Completed"
  proof (rule goal_update_ok [OF inv, of _ F "\<lambda>g. g" "[]"])
    show "goal_done (gs_tasks st3) g" if "g \<in> set (gs_goals st)" "g_status g = G_Completed" for g
      using other [OF that] that eq notdone by blast
  qed (use eq st2 st2' goals in simp_all)
  from sync show ?thesis
  proof (cases rule: syncGoalStatus_cases)
    case none
    then have "\<not> (\<exists>g \<in> set (gs_goals st). g_organizationId g = org \<and> g_id g = gid)"
      using goals by (auto simp: getGoal_def find_None_iff)
    with keep none(1) show ?thesis by blast
  next
    case (kept g)
    have "h = g" if "h \<in> set (gs_goals st)" "g_id h = gid" for h
      using that getGoal_mem [OF kept(2)] goals goal_invD(2) [OF inv] by (auto simp: distinct_map inj_on_def)
    with keep kept show ?thesis by blast
  next
    case (saved g g')
    have g: "g \<in> set (gs_goals st2)" "g_organizationId g = org" "g_id g = gid" using getGoal_mem [OF saved(1)] by auto
    have same: "same_goal g g'" using saved(2) by (simp add: same_goal_def)
    have id: "g_id g' = gid" using saved(2) g by simp
    have dist: "distinct (map g_id (gs_goals st2))" using goal_invD(2) [OF inv] goals by simp
    from saveGoal_in_place [OF saved(3) g(1) same dist] id goals
    obtain H where H: "st3 = st2\<lparr>gs_goals := map H (gs_goals st)\<rparr>"
      and H': "\<forall>x \<in> set (gs_goals st). same_goal x (H x) \<and> (g_id x = gid \<longrightarrow> g_status (H x) = g_status g') \<and>
         (g_id x \<noteq> gid \<longrightarrow> H x = x)" by auto
    show ?thesis
    proof (rule goal_update_ok [OF inv, of _ F H "[]"])
      fix x assume x: "x \<in> set (gs_goals st)" "g_status (H x) = G_Completed"
      show "goal_done (gs_tasks st3) (H x)"
      proof (cases "g_id x = gid")
        case True
        then have "x = g" using x(1) g goals dist by (auto simp: distinct_map inj_on_def)
        moreover have "goal_done (gs_tasks st2) g"
          using x H' True g saved(2) by (intro synced_done) auto
        ultimately show ?thesis using H H' x(1) goal_done_same [of x "H x"] by auto
      next
        case False
        with x H' have "H x = x" by auto
        with x False H other [OF x(1)] show ?thesis by auto
      qed
    qed (use H H' st2 st2' in auto)
  qed
qed


lemma syncGoalStatus_memory: "syncGoalStatus env org i st = (st', r) \<Longrightarrow> memory_grows st st'"
  by (auto simp: syncGoalStatus_def Let_def and_ok_def split: option.splits if_splits prod.splits sum.splits
      dest: saveGoal_memory)

lemma updateGoalTaskStatus_memory: "updateGoalTaskStatus now org i status h st = (st', r) \<Longrightarrow> memory_grows st st'"
  by (auto simp: updateGoalTaskStatus_def Let_def memory_grows_def split: option.splits if_splits)

text \<open>What a move tells the assignees once the tables are written.\<close>

definition move_notices ::
  "goal_env \<Rightarrow> task_update \<Rightarrow> goal_task_status \<Rightarrow> goal_task_status \<Rightarrow> goal_task \<Rightarrow> goal_state \<Rightarrow> goal_state" where
  "move_notices env u oldStatus status task st3 =
     (let st4 = (case optional_text (tu_callerMemberId u) of
                   Some caller \<Rightarrow>
                     if caller \<noteq> gt_assigneeId task \<and> oldStatus \<noteq> status
                     then notifyTaskMoved env (tu_organizationId u) task oldStatus caller st3 else st3
                 | None \<Rightarrow> st3)
      in if status = T_Completed then notifyDependentsUnblocked env (tu_organizationId u) task st4 else st4)"

lemma quiet_move_notices: "quiet st (move_notices env u oldStatus status task st)"
  by (auto simp: move_notices_def Let_def quiet_notifyTaskMoved quiet_dependents
      intro: quiet_trans [OF quiet_notifyTaskMoved quiet_dependents] split: option.split)

lemma move_task_cases:
  assumes "move_task env u oldStatus status st = (st', r)"
  obtains (update) e where "updateGoalTaskStatus (ge_now env) (tu_organizationId u) (tu_taskId u) status
      (tu_handoverSummary u) (forget_nudge (tu_taskId u) st) = (st', Inl e)" "r = Inl e"
  | (missing) "updateGoalTaskStatus (ge_now env) (tu_organizationId u) (tu_taskId u) status
      (tu_handoverSummary u) (forget_nudge (tu_taskId u) st) = (st', Inr None)" "r = Inl (Task_Not_Found (tu_taskId u))"
  | (sync) st2 task e where "updateGoalTaskStatus (ge_now env) (tu_organizationId u) (tu_taskId u) status
      (tu_handoverSummary u) (forget_nudge (tu_taskId u) st) = (st2, Inr (Some task))"
      "syncGoalStatus env (tu_organizationId u) (gt_goalId task) st2 = (st', Inl e)" "r = Inl e"
  | (moved) st2 task st3 where "updateGoalTaskStatus (ge_now env) (tu_organizationId u) (tu_taskId u) status
      (tu_handoverSummary u) (forget_nudge (tu_taskId u) st) = (st2, Inr (Some task))"
      "syncGoalStatus env (tu_organizationId u) (gt_goalId task) st2 = (st3, Inr ())"
      "st' = move_notices env u oldStatus status task st3"
      "r = Inr (task, if oldStatus \<noteq> status then Some oldStatus else None)"
proof -
  obtain st2 x where upd: "updateGoalTaskStatus (ge_now env) (tu_organizationId u) (tu_taskId u) status
      (tu_handoverSummary u) (forget_nudge (tu_taskId u) st) = (st2, x)" by (metis surj_pair)
  show thesis
  proof (cases x)
    case (Inl e)
    with upd assms update show ?thesis by (auto simp: move_task_def)
  next
    case (Inr t)
    show ?thesis
    proof (cases t)
      case None
      with Inr upd assms missing show ?thesis by (auto simp: move_task_def)
    next
      case (Some task)
      obtain st3 y where y: "syncGoalStatus env (tu_organizationId u) (gt_goalId task) st2 = (st3, y)" by (metis surj_pair)
      show ?thesis
        using upd y Inr Some assms sync moved by (cases y) (auto simp: move_task_def move_notices_def Let_def)
    qed
  qed
qed

lemma quiet_forget: "quiet st (forget_nudge i st)"
  unfolding forget_nudge_def by (rule quiet_nudged)

lemma move_task_ok:
  assumes "move_task env u oldStatus status st = (st', Inr x)"
  shows "goal_step_ok v st st'"
  unfolding goal_step_ok_def
proof
  let ?st = "forget_nudge (tu_taskId u) st"
  assume "goal_inv v st"
  then have forget: "goal_inv v ?st" "goal_grows st ?st"
    using quiet_ok [OF quiet_forget] unfolding goal_step_ok_def by blast+
  from assms show "goal_inv v st' \<and> goal_grows st st'"
  proof (cases rule: move_task_cases)
    case (moved st2 task st3)
    obtain F where F: "gs_tasks st2 = map F (gs_tasks ?st)" "\<And>x. same_task x (F x)" "progress_ok (gs_tasks st2)"
      "\<And>x. x \<in> set (gs_tasks ?st) \<Longrightarrow> gt_status (F x) \<noteq> gt_status x \<Longrightarrow>
        gt_organizationId x = tu_organizationId u \<and> gt_goalId x = gt_goalId task"
      "st2 = ?st\<lparr>gs_tasks := gs_tasks st2\<rparr>"
      by (rule updateGoalTaskStatus_ok [OF forget(1) moved(1)]) blast
    have "goal_inv v st3 \<and> goal_grows ?st st3" by (rule sync_ok [OF forget(1) F moved(2)])
    moreover have "goal_step_ok v st3 st'" unfolding moved(3) by (rule quiet_ok [OF quiet_move_notices])
    ultimately show ?thesis using forget(2) unfolding goal_step_ok_def by (blast intro: goal_grows_trans)
  qed simp_all
qed

lemma move_task_memory:
  assumes "move_task env u oldStatus status st = (st', r)"
  shows "memory_grows st st'"
proof -
  have forget: "memory_grows st (forget_nudge (tu_taskId u) st)" by (rule quiet_memory [OF quiet_forget])
  from assms show ?thesis
  proof (cases rule: move_task_cases)
    case (sync st2 task e)
    with forget show ?thesis
      by (blast intro: memory_grows_trans dest: updateGoalTaskStatus_memory syncGoalStatus_memory)
  next
    case (moved st2 task st3)
    have "memory_grows st3 st'" unfolding moved(3) by (rule quiet_memory [OF quiet_move_notices])
    with forget moved(1,2) show ?thesis
      by (blast intro: memory_grows_trans dest: updateGoalTaskStatus_memory syncGoalStatus_memory)
  qed (use forget in \<open>blast intro: memory_grows_trans dest: updateGoalTaskStatus_memory\<close>)+
qed

lemma updateTask_ok: "goal_step_ok v st (fst (updateTask env u st))"
proof (cases "goal_inv v st")
  case inv: True
  let ?org = "tu_organizationId u" and ?i = "tu_taskId u"
  have body: "memory_grows st st' \<and> (\<forall>x. r = Inr x \<longrightarrow> goal_step_ok v st st')"
    if t: "getGoalTask ?org ?i st = Some t" and
      r: "and_ok (edit_plan env u t st) (\<lambda>_ st1.
           case tu_status u of
             Some status \<Rightarrow> move_task env u (gt_status t) status st1
           | None \<Rightarrow> and_ok (if tu_handoverSummary u \<noteq> None \<and> \<not> edits_plan u
                   then and_ok (saveGoalTask (t\<lparr>gt_handoverSummary := tu_handoverSummary u,
                          gt_updatedAt := ge_now env\<rparr>) st1) (\<lambda>_ st2. (st2, Inr ()))
                   else (st1, Inr ()))
                 (\<lambda>_ st2. case getGoalTask ?org ?i st2 of
                    None \<Rightarrow> (st2, Inl (Task_Not_Found ?i)) | Some refreshed \<Rightarrow> (st2, Inr (refreshed, None))))
         = (st', r)" for t st' r
  proof -
    obtain st1 y where edit: "edit_plan env u t st = (st1, y)" by (metis surj_pair)
    have quiet: "quiet st st1" by (rule edit_plan_quiet [OF edit t goal_invD(1) [OF inv]])
    show ?thesis
    proof (cases "\<exists>e. y = Inl e \<or> (y = Inr () \<and> tu_status u = None)")
      case True
      have "st1 = st" if "\<not> edits_plan u" using edit that by (simp add: edit_plan_def)
      moreover have "quiet st st2" if "saveGoalTask (t\<lparr>gt_handoverSummary := h, gt_updatedAt := now\<rparr>) st = (st2, z)" for st2 z h now
        by (rule saveGoalTask_quiet [OF that t _ _ goal_invD(1) [OF inv]]) (simp_all add: same_task_def)
      ultimately have "quiet st st'"
        using r edit quiet True
        by (auto simp: and_ok_def split: if_splits option.splits prod.splits sum.splits)
      then show ?thesis by (auto intro: quiet_memory quiet_ok)
    next
      case False
      then obtain status where "tu_status u = Some status" "move_task env u (gt_status t) status st1 = (st', r)"
        using r edit by (cases y) auto
      with quiet show ?thesis
        by (blast intro: goal_step_ok_trans [OF quiet_ok] memory_grows_trans [OF quiet_memory] move_task_ok move_task_memory)
    qed
  qed
  show ?thesis
    unfolding updateTask_def Let_def
    by (rule transaction_ok) (auto split: option.splits dest: body)
qed (simp add: goal_step_ok_def)


section \<open>Questions\<close>

text \<open>A step of the questions alone: rows are added or closed, a closed row stays as it is.\<close>

definition same_boards :: "goal_state \<Rightarrow> goal_state \<Rightarrow> bool" where
  "same_boards st st' \<longleftrightarrow> gs_tasks st' = gs_tasks st \<and> gs_goals st' = gs_goals st \<and> memory_grows st st'"

lemma same_boards_refl [simp]: "same_boards st st"
  by (simp add: same_boards_def)

lemma same_boards_trans: "same_boards a b \<Longrightarrow> same_boards b c \<Longrightarrow> same_boards a c"
  by (auto simp: same_boards_def intro: memory_grows_trans)

lemma questions_ok:
  assumes inv: "goal_inv u st" and b: "same_boards st st'"
    and q: "distinct (map iq_id (gs_questions st'))"
      "\<And>q. q \<in> set (gs_questions st') \<Longrightarrow> drawn u (gs_next st') (iq_id q)"
      "\<And>q. q \<in> set (gs_questions st) \<Longrightarrow> iq_status q \<noteq> Q_Pending \<Longrightarrow> q \<in> set (gs_questions st')"
  shows "goal_inv u st' \<and> goal_grows st st'"
proof
  have eq: "gs_tasks st' = gs_tasks st" "gs_goals st' = gs_goals st" "gs_next st \<le> gs_next st'"
    using b by (simp_all add: same_boards_def memory_grows_def)
  show "goal_inv u st'"
    by (rule goal_invI) (use goal_invD [OF inv] eq q in \<open>auto intro: drawn_le\<close>)
  show "goal_grows st st'"
    using b q(3) by (auto simp: goal_grows_def same_boards_def memory_grows_def)
qed

text \<open>A pending question is closed in place.\<close>

lemma close_question:
  assumes inv: "goal_inv u st" and q: "q \<in> set (gs_questions st)" "iq_status q = Q_Pending"
    and "saveInteractiveQuestion q' st = (st', r)" "iq_id q' = iq_id q"
  shows "goal_inv u st' \<and> goal_grows st st' \<and> same_boards st st' \<and>
    (\<forall>x \<in> set (gs_questions st). iq_id x \<noteq> iq_id q \<longrightarrow> x \<in> set (gs_questions st'))"
proof (cases "question_valid q'")
  case True
  define K where "K x = (if iq_id x = iq_id q then x\<lparr>iq_status := iq_status q', iq_selectedOption := iq_selectedOption q',
    iq_updatedAt := iq_updatedAt q'\<rparr> else x)" for x :: question
  have "iq_id q' \<in> iq_id ` set (gs_questions st)" using q(1) assms(5) by simp
  then have st': "st' = st\<lparr>gs_questions := map K (gs_questions st)\<rparr>"
    using assms(4,5) True by (auto simp: saveInteractiveQuestion_def tbl_upsert_def K_def)
  have ids: "map iq_id (map K (gs_questions st)) = map iq_id (gs_questions st)" by (simp add: K_def)
  have boards: "same_boards st st'" by (simp add: st' same_boards_def memory_grows_def)
  have other: "x \<in> set (gs_questions st')" if "x \<in> set (gs_questions st)" "iq_id x \<noteq> iq_id q" for x
    using that by (force simp: st' K_def)
  have "goal_inv u st' \<and> goal_grows st st'"
  proof (rule questions_ok [OF inv boards])
    show "distinct (map iq_id (gs_questions st'))"
      using goal_invD(9) [OF inv] arg_cong [OF ids, of distinct] by (simp add: st')
    show "drawn u (gs_next st') (iq_id x)" if x: "x \<in> set (gs_questions st')" for x
    proof -
      obtain y where "y \<in> set (gs_questions st)" "iq_id x = iq_id y" using x by (auto simp: st' K_def)
      with goal_invD(10) [OF inv] show ?thesis by (simp add: st')
    qed
    show "x \<in> set (gs_questions st')" if "x \<in> set (gs_questions st)" "iq_status x \<noteq> Q_Pending" for x
      using other that q goal_invD(9) [OF inv] by (auto simp: distinct_map inj_on_def)
  qed
  with boards other show ?thesis by blast
qed (use assms in \<open>simp add: saveInteractiveQuestion_def\<close>)

lemma supersede_each_ok:
  assumes "each_ok (\<lambda>q. saveInteractiveQuestion (q\<lparr>iq_status := s, iq_updatedAt := now\<rparr>)) qs st = (st', r)"
    and "goal_inv u st" "distinct (map iq_id qs)" "set qs \<subseteq> {q \<in> set (gs_questions st). iq_status q = Q_Pending}"
  shows "goal_inv u st' \<and> goal_grows st st' \<and> same_boards st st'"
  using assms
proof (induction qs arbitrary: st r)
  case (Cons q qs)
  obtain st1 x where save: "saveInteractiveQuestion (q\<lparr>iq_status := s, iq_updatedAt := now\<rparr>) st = (st1, x)"
    by (metis surj_pair)
  have q: "q \<in> set (gs_questions st)" "iq_status q = Q_Pending" using Cons.prems(4) by auto
  have one: "goal_inv u st1" "goal_grows st st1" "same_boards st st1"
    "\<forall>x \<in> set (gs_questions st). iq_id x \<noteq> iq_id q \<longrightarrow> x \<in> set (gs_questions st1)"
    using close_question [OF Cons.prems(2) q save] by simp_all
  show ?case
  proof (cases x)
    case (Inl e)
    with save Cons.prems(1) one show ?thesis by simp
  next
    case (Inr y)
    obtain st2 z where rest: "each_ok (\<lambda>q. saveInteractiveQuestion (q\<lparr>iq_status := s, iq_updatedAt := now\<rparr>)) qs st1 = (st2, z)"
      by (metis surj_pair)
    have "st2 = st'" using save Inr rest Cons.prems(1) by (cases z) auto
    have "set qs \<subseteq> {q \<in> set (gs_questions st1). iq_status q = Q_Pending}"
    proof
      fix x assume x: "x \<in> set qs"
      moreover have "iq_id q \<notin> iq_id ` set qs" using Cons.prems(3) by simp
      ultimately have "iq_id x \<noteq> iq_id q" by (metis imageI)
      with x one(4) Cons.prems(4) show "x \<in> {q \<in> set (gs_questions st1). iq_status q = Q_Pending}" by auto
    qed
    then have "goal_inv u st2 \<and> goal_grows st1 st2 \<and> same_boards st1 st2"
      using Cons.IH [of st1 z] rest one(1) Cons.prems(3) \<open>st2 = st'\<close> by simp
    with one(2,3) \<open>st2 = st'\<close> show ?thesis
      by (blast intro: goal_grows_trans same_boards_trans)
  qed
qed simp

lemma getInteractiveQuestion_mem:
  "getInteractiveQuestion org i st = Some q \<Longrightarrow> q \<in> set (gs_questions st) \<and> iq_organizationId q = org \<and> iq_id q = i"
  by (auto simp: getInteractiveQuestion_def find_Some_iff in_set_conv_nth)

lemma supersede_ok: "goal_step_ok u st (fst (supersede env org i st))"
proof (cases "getInteractiveQuestion org i st")
  case (Some q)
  show ?thesis
  proof (cases "iq_status q = Q_Pending")
    case True
    obtain st' r where "saveInteractiveQuestion (q\<lparr>iq_status := Q_Superseded, iq_updatedAt := ge_now env\<rparr>) st = (st', r)"
      by (metis surj_pair)
    with Some True close_question [OF _ _ True this, of u] getInteractiveQuestion_mem [OF Some] show ?thesis
      by (simp add: goal_step_ok_def supersede_def)
  qed (simp add: supersede_def Some)
qed (simp add: supersede_def)

lemma ask_ok:
  assumes "ge_uuid env = u" "inj u"
  shows "goal_step_ok u st (fst (ask env input st))"
  unfolding goal_step_ok_def
proof
  assume inv: "goal_inv u st"
  define q where "q = \<lparr>iq_id = u (gs_next st), iq_organizationId = aq_organizationId input,
     iq_channelId = aq_channelId input, iq_goalId = aq_goalId input, iq_runId = aq_runId input,
     iq_toolCallId = aq_toolCallId input, iq_questionText = aq_questionText input,
     iq_options = aq_options input, iq_status = Q_Pending, iq_selectedOption = None,
     iq_createdAt = ge_now env, iq_updatedAt = ge_now env\<rparr>"
  have "ask env input st = (case validateQuestionOptions (aq_options input) of Some e \<Rightarrow> (st, Inl e)
      | None \<Rightarrow> saveInteractiveQuestion q (st\<lparr>gs_next := Suc (gs_next st)\<rparr>))"
    using assms(1) by (simp add: ask_def q_def split: option.split)
  moreover have "iq_id q = u (gs_next st)" by (simp add: q_def)
  ultimately consider "fst (ask env input st) = st" | "fst (ask env input st) = st\<lparr>gs_next := Suc (gs_next st)\<rparr>"
    | r where "iq_id r = u (gs_next st)" "fst (ask env input st) = st\<lparr>gs_next := Suc (gs_next st),
        gs_questions := tbl_upsert iq_id (\<lambda>old new. old\<lparr>iq_status := iq_status new,
           iq_selectedOption := iq_selectedOption new, iq_updatedAt := iq_updatedAt new\<rparr>) r (gs_questions st)\<rparr>"
    by (cases "validateQuestionOptions (aq_options input)"; cases "question_valid q")
      (simp_all add: saveInteractiveQuestion_def)
  then show "goal_inv u (fst (ask env input st)) \<and> goal_grows st (fst (ask env input st))"
  proof cases
    case 2
    have "quiet st (fst (ask env input st))" by (rule quiet_same [of _ _ "[]"]) (simp_all add: 2)
    with inv show ?thesis using quiet_ok unfolding goal_step_ok_def by blast
  next
    case (3 r)
    have fresh: "u (gs_next st) \<notin> iq_id ` set (gs_questions st)"
      using goal_invD(10) [OF inv] drawn_not_new [OF _ assms(2)] by fastforce
    then have q: "gs_questions (fst (ask env input st)) = gs_questions st @ [r]"
      using 3 by (simp add: tbl_upsert_def)
    show ?thesis
    proof (rule questions_ok [OF inv])
      show "drawn u (gs_next (fst (ask env input st))) (iq_id x)" if "x \<in> set (gs_questions (fst (ask env input st)))" for x
        using that 3(1) goal_invD(10) [OF inv] unfolding q by (auto simp: 3(2) intro: drawn_le [of u "gs_next st"])
    qed (use 3 fresh goal_invD(9) [OF inv] q in \<open>auto simp: same_boards_def memory_grows_def\<close>)
  qed (use inv in simp)
qed


lemma quiet_complete_step: "quiet st (complete_step q selected st)"
  by (rule quiet_same [of _ _ "[]"]) (simp_all add: complete_step_def split: option.split)

lemma quiet_resume_failed: "quiet st (resume_failed env org rid message st)"
  by (rule quiet_same [of _ _ "[]"]) (simp_all add: resume_failed_def split: option.split)

lemma pending_of_run:
  assumes "goal_inv u st"
  shows "distinct (map iq_id (filter (\<lambda>q. iq_status q = Q_Pending) (listInteractiveQuestionsByRunId org rid st)))"
    and "set (filter (\<lambda>q. iq_status q = Q_Pending) (listInteractiveQuestionsByRunId org rid st))
      \<subseteq> {q \<in> set (gs_questions st). iq_status q = Q_Pending}"
  using goal_invD(9) [OF assms] by (auto simp: listInteractiveQuestionsByRunId_def distinct_map_filter)

lemma resume_run_after_ok: "goal_step_ok u st (fst (resume_run_after env org rid rejected st))"
  unfolding goal_step_ok_def
proof
  assume inv: "goal_inv u st"
  define closed where "closed = (if rejected
     then and_ok (each_ok (\<lambda>q. saveInteractiveQuestion (q\<lparr>iq_status := Q_Superseded, iq_updatedAt := ge_now env\<rparr>))
            (filter (\<lambda>q. iq_status q = Q_Pending) (listInteractiveQuestionsByRunId org rid st)) st)
           (\<lambda>_ st'. (st', Inr ()))
     else (st, Inr ()))"
  obtain st1 r where c: "closed = (st1, r)" by (metis surj_pair)
  have one: "goal_inv u st1 \<and> goal_grows st st1"
    using c inv supersede_each_ok [OF _ inv pending_of_run [OF inv]]
    by (auto simp: closed_def and_ok_def split: if_splits prod.splits sum.splits)
  have "fst (resume_run_after env org rid rejected st) \<in> {st1, log_goal (Resumed rid (\<not> rejected)) st1}"
    unfolding resume_run_after_def closed_def [symmetric] c Let_def
    by (cases r) (auto split: option.split)
  moreover have "goal_step_ok u st1 (log_goal (Resumed rid (\<not> rejected)) st1)"
    by (rule quiet_ok [OF quiet_log])
  ultimately show "goal_inv u (fst (resume_run_after env org rid rejected st)) \<and>
      goal_grows st (fst (resume_run_after env org rid rejected st))"
    using one unfolding goal_step_ok_def by (auto intro: goal_grows_trans)
qed

lemma answer_ok: "goal_step_ok u st (fst (answer env org i selected st))"
proof (cases "goal_inv u st \<and> (\<exists>q. getInteractiveQuestion org i st = Some q \<and> iq_status q = Q_Pending \<and>
    selected \<in> set (iq_options q))")
  case True
  then obtain q where q: "getInteractiveQuestion org i st = Some q" "iq_status q = Q_Pending" "selected \<in> set (iq_options q)"
    and inv: "goal_inv u st" by blast
  obtain st1 r where save: "saveInteractiveQuestion (q\<lparr>iq_status := Q_Answered, iq_selectedOption := Some selected,
      iq_updatedAt := ge_now env\<rparr>) st = (st1, r)" by (metis surj_pair)
  have one: "goal_step_ok u st st1"
    using close_question [OF _ _ q(2) save, of u] getInteractiveQuestion_mem [OF q(1)] by (simp add: goal_step_ok_def)
  show ?thesis
  proof (cases r)
    case (Inl e)
    with q save one show ?thesis by (simp add: answer_def)
  next
    case (Inr a)
    define st2 where "st2 = complete_step q selected st1"
    define st3 where "st3 = (case iq_goalId q of
       Some g \<Rightarrow> if is_implement_question q \<and> selected = IMPLEMENT_QUESTION_OPTION then fst (implement env org g st2) else st2
     | None \<Rightarrow> st2)"
    have two: "goal_step_ok u st st2"
      unfolding st2_def by (rule goal_step_ok_trans [OF one quiet_ok [OF quiet_complete_step]])
    have three: "goal_step_ok u st st3"
      unfolding st3_def by (auto split: option.split intro: two goal_step_ok_trans [OF two implement_ok])
    define rejected where "rejected = (is_implement_question q \<and> selected = IMPLEMENT_QUESTION_REJECT_OPTION)"
    have "fst (and_ok x (\<lambda>_ s. (s, Inr b))) = fst x" for x :: "unit goal_result" and b :: question
      by (cases x; cases "snd x") (auto simp: and_ok_def)
    then have "fst (answer env org i selected st) = (case (if ge_resume env then iq_runId q else None) of
        None \<Rightarrow> st3 | Some rid \<Rightarrow> fst (resume_run_after env org rid rejected st3))"
      using q save Inr unfolding st3_def st2_def rejected_def
      by (simp add: answer_def Let_def split: option.split)
    with three show ?thesis
      by (auto split: option.split intro: goal_step_ok_trans [OF three resume_run_after_ok])
  qed
qed (auto simp: goal_step_ok_def answer_def split: option.split)

end
