(* ===== verification/GoalSafety.thy ===== *)
theory GoalSafety
  imports GoalSteps
begin

text \<open>
  Plans and their boards keep the invariant; then the goal service as a step relation, whose
  histories the interpretation of \<open>step_system\<close> carries.
\<close>

section \<open>A plan\<close>

lemma goal_done_filter:
  assumes "goal_done ts g" "\<not> Q (g_organizationId g) (g_id g)"
  shows "goal_done (filter (\<lambda>x. \<not> Q (gt_organizationId x) (gt_goalId x)) ts) g"
proof -
  have "tasks_of g (filter (\<lambda>x. \<not> Q (gt_organizationId x) (gt_goalId x)) ts) = tasks_of g ts"
    using assms(2) by (auto simp: tasks_of_def intro: filter_cong)
  with assms(1) show ?thesis by (simp add: goal_done_def)
qed

lemma progress_ok_filter:
  assumes "progress_ok ts" "deps_ordered ts" "distinct (map gt_id ts)"
  shows "progress_ok (filter (\<lambda>x. \<not> Q (gt_organizationId x) (gt_goalId x)) ts)"
  unfolding progress_ok_def
proof (intro ballI impI allI)
  fix t d
  assume t: "t \<in> set (filter (\<lambda>x. \<not> Q (gt_organizationId x) (gt_goalId x)) ts)" "gt_status t = T_In_Progress"
    "gt_dependsOnTaskId t = Some d"
  then have mem: "t \<in> set ts" by simp
  obtain x where x: "x \<in> set ts" "gt_id x = d" "gt_organizationId x = gt_organizationId t" "gt_status x = T_Completed"
    using assms(1) mem t(2,3) unfolding progress_ok_def by blast
  obtain y where y: "y \<in> set ts" "gt_id y = d" "gt_goalId y = gt_goalId t"
    using deps_ordered_dep [OF assms(2) mem t(3)] by blast
  have "x = y" using x y assms(3) by (auto simp: distinct_map inj_on_def)
  with x y t(1) show "\<exists>x \<in> set (filter (\<lambda>x. \<not> Q (gt_organizationId x) (gt_goalId x)) ts).
      gt_id x = d \<and> gt_organizationId x = gt_organizationId t \<and> gt_status x = T_Completed" by auto
qed

lemma deleteGoalTasks_ok:
  assumes inv: "goal_inv u st"
    and notdone: "\<And>g. g \<in> set (gs_goals st) \<Longrightarrow> g_id g = i \<Longrightarrow> g_status g \<noteq> G_Completed"
  shows "goal_inv u (deleteGoalTasks org i st) \<and> goal_grows st (deleteGoalTasks org i st)"
proof
  let ?Q = "\<lambda>x y. x = org \<and> y = i"
  have ts: "gs_tasks (deleteGoalTasks org i st) = filter (\<lambda>x. \<not> ?Q (gt_organizationId x) (gt_goalId x)) (gs_tasks st)"
    by (simp add: deleteGoalTasks_def tbl_delete_def)
  have rest: "gs_goals (deleteGoalTasks org i st) = gs_goals st" "gs_questions (deleteGoalTasks org i st) = gs_questions st"
    "gs_next (deleteGoalTasks org i st) = gs_next st" "gs_log (deleteGoalTasks org i st) = gs_log st"
    by (simp_all add: deleteGoalTasks_def)
  show "goal_inv u (deleteGoalTasks org i st)"
  proof (rule goal_invI)
    show "deps_ordered (gs_tasks (deleteGoalTasks org i st))"
      unfolding ts by (rule deps_ordered_filter [OF goal_invD(6) [OF inv]])
    show "progress_ok (gs_tasks (deleteGoalTasks org i st))"
      unfolding ts by (rule progress_ok_filter [OF goal_invD(7,6,1) [OF inv]])
    show "goal_done (gs_tasks (deleteGoalTasks org i st)) g"
      if "g \<in> set (gs_goals (deleteGoalTasks org i st))" "g_status g = G_Completed" for g
      unfolding ts by (rule goal_done_filter) (use that rest notdone goal_invD(8) [OF inv] in auto)
    show "distinct (map gt_id (gs_tasks (deleteGoalTasks org i st)))"
      unfolding ts by (rule distinct_map_filter [OF goal_invD(1) [OF inv]])
  qed (use goal_invD [OF inv] rest ts in auto)
  show "goal_grows st (deleteGoalTasks org i st)"
    using rest by (auto simp: goal_grows_def)
qed

text \<open>A goal under a fresh id is added.\<close>

lemma saveGoal_new:
  assumes inv: "goal_inv u st" and "inj u" "g_id g = u (gs_next st)" "g_status g = G_Planning"
    and save: "saveGoal g (st\<lparr>gs_next := Suc (gs_next st)\<rparr>) = (st', r)"
  shows "goal_inv u st' \<and> goal_grows st st' \<and> gs_next st < gs_next st' \<and> (r \<noteq> Inl Invalid_Row \<longrightarrow> g \<in> set (gs_goals st'))"
proof -
  have fresh: "g_id g \<notin> g_id ` set (gs_goals st)"
    using goal_invD(4) [OF inv] drawn_not_new [OF _ assms(2)] assms(3) by fastforce
  show ?thesis
  proof (cases "goal_valid g")
    case True
    then have st': "st' = st\<lparr>gs_next := Suc (gs_next st), gs_goals := gs_goals st @ [g]\<rparr>"
      using save fresh by (auto simp: saveGoal_def tbl_upsert_def)
    have "goal_inv u st'"
      by (rule goal_invI)
        (use goal_invD [OF inv] assms(3,4) fresh in \<open>auto simp: st' intro: drawn_le [of u "gs_next st"]\<close>)
    then show ?thesis by (auto simp: st' goal_grows_def)
  next
    case False
    then have st': "st' = st\<lparr>gs_next := Suc (gs_next st)\<rparr>" "r = Inl Invalid_Row"
      using save by (auto simp: saveGoal_def)
    have "quiet st st'" by (rule quiet_same [of _ _ "[]"]) (simp_all add: st')
    then have "goal_step_ok u st st'" by (rule quiet_ok)
    with inv st' show ?thesis by (simp add: goal_step_ok_def)
  qed
qed

lemma supersede_all_ok:
  assumes "supersede_all now i qs st = (st', r)" "goal_inv u st" "distinct (map iq_id qs)"
    "set qs \<subseteq> {q \<in> set (gs_questions st). iq_status q = Q_Pending}"
  shows "goal_inv u st' \<and> goal_grows st st' \<and> same_boards st st'"
proof -
  obtain st1 x where e: "each_ok (\<lambda>q. saveInteractiveQuestion (q\<lparr>iq_status := Q_Superseded, iq_updatedAt := now\<rparr>))
      (filter (\<lambda>q. iq_goalId q = Some i) qs) st = (st1, x)" by (metis surj_pair)
  have "st1 = st'" using e assms(1) by (cases x) (auto simp: supersede_all_def)
  with supersede_each_ok [OF e assms(2)] assms(3,4) show ?thesis
    by (auto simp: distinct_map_filter)
qed


lemma existing_goal_mem:
  assumes "existing_goal env org ch st = Some g"
  shows "g \<in> set (gs_goals st) \<and> g_organizationId g = org \<and> g_channelId g = ch"
proof -
  have "getGoalByChannel org ch st = Some g"
    using assms by (auto simp: existing_goal_def split: option.splits if_splits)
  then have "\<exists>gs. sort_cmp goal_recency (filter (\<lambda>g. g_organizationId g = org \<and> g_channelId g = ch) (gs_goals st)) = g # gs"
    by (auto simp: getGoalByChannel_def split: list.splits)
  then have "g \<in> set (sort_cmp goal_recency (filter (\<lambda>g. g_organizationId g = org \<and> g_channelId g = ch) (gs_goals st)))"
    by (metis list.set_intros(1))
  then show ?thesis by simp
qed

definition planned :: "(nat \<Rightarrow> string) \<Rightarrow> string \<Rightarrow> goal_state \<Rightarrow> bool" where
  "planned u i st \<longleftrightarrow> drawn u (gs_next st) i \<and> (\<forall>h \<in> set (gs_goals st). g_id h = i \<longrightarrow> g_status h = G_Planning)"

lemma planned_boards: "planned u i st \<Longrightarrow> same_boards st st' \<Longrightarrow> planned u i st'"
  by (auto simp: planned_def same_boards_def memory_grows_def intro: drawn_le)

lemma pending_of_channel:
  assumes "goal_inv u st"
  shows "distinct (map iq_id (listPendingInteractiveQuestions org ch st))"
    and "set (listPendingInteractiveQuestions org ch st) \<subseteq> {q \<in> set (gs_questions st). iq_status q = Q_Pending}"
  using goal_invD(9) [OF assms] by (auto simp: listPendingInteractiveQuestions_def distinct_map_filter)

text \<open>The board of a goal that is planned again is cleared, its questions are closed.\<close>

lemma clear_board_ok:
  assumes inv: "goal_inv u st" and p: "planned u i st"
    and r: "supersede_all now i (listPendingInteractiveQuestions org ch (deleteGoalTasks org i st)) (deleteGoalTasks org i st) = (st', r)"
  shows "goal_inv u st' \<and> goal_grows st st' \<and> planned u i st'"
proof -
  let ?st = "deleteGoalTasks org i st"
  have del: "goal_inv u ?st \<and> goal_grows st ?st"
    by (rule deleteGoalTasks_ok [OF inv]) (use p in \<open>auto simp: planned_def\<close>)
  have "planned u i ?st" using p by (simp add: planned_def deleteGoalTasks_def)
  with supersede_all_ok [OF r _ pending_of_channel] del show ?thesis
    by (blast intro: goal_grows_trans planned_boards)
qed

lemma plan_goal_ok:
  assumes plan: "plan_goal env input existing st = (st', r)" and inv: "goal_inv u st" and u: "ge_uuid env = u" "inj u"
    and ex: "\<And>g. existing = Some g \<Longrightarrow> g \<in> set (gs_goals st) \<and> g_organizationId g = gi_organizationId input \<and>
      g_channelId g = gi_channelId input"
  shows "goal_inv u st' \<and> goal_grows st st' \<and> (\<forall>g. r = Inr g \<longrightarrow> planned u (g_id g) st')"
proof (cases existing)
  case None
  define g where "g = \<lparr>g_id = u (gs_next st), g_organizationId = gi_organizationId input,
    g_channelId = gi_channelId input, g_title = gi_title input, g_status = G_Planning,
    g_supervisorId = gi_supervisorId input, g_planMarkdown = gi_planMarkdown input,
    g_planVersion = 0 + 1, g_createdAt = ge_now env, g_updatedAt = ge_now env\<rparr>"
  have g: "g_id g = u (gs_next st)" "g_status g = G_Planning" by (simp_all add: g_def)
  have save: "saveGoal g (st\<lparr>gs_next := Suc (gs_next st)\<rparr>) = (st', r)"
    using plan None u(1) unfolding plan_goal_def g_def
    by (cases r) (auto simp: Let_def and_ok_def split: prod.splits sum.splits)
  have new: "goal_inv u st'" "goal_grows st st'" "gs_next st < gs_next st'"
    "r \<noteq> Inl Invalid_Row \<Longrightarrow> g \<in> set (gs_goals st')"
    using saveGoal_new [OF inv u(2) g save] by blast+
  have "planned u (g_id h) st'" if "r = Inr h" for h
  proof -
    have "h = g" using save that by (auto simp: saveGoal_def split: if_splits)
    moreover have "x = g" if "x \<in> set (gs_goals st')" "g_id x = g_id g" for x
      using that new(4) \<open>r = Inr h\<close> goal_invD(2) [OF new(1)] by (auto simp: distinct_map inj_on_def)
    ultimately show ?thesis using g new(3) by (auto simp: planned_def)
  qed
  with new show ?thesis by blast
next
  case (Some g0)
  define g where "g = \<lparr>g_id = g_id g0, g_organizationId = gi_organizationId input,
    g_channelId = gi_channelId input, g_title = gi_title input, g_status = G_Planning,
    g_supervisorId = gi_supervisorId input, g_planMarkdown = gi_planMarkdown input,
    g_planVersion = g_planVersion g0 + 1, g_createdAt = g_createdAt g0, g_updatedAt = ge_now env\<rparr>"
  have g: "g_id g = g_id g0" "g_status g = G_Planning" "same_goal g0 g"
    using ex [OF Some] by (simp_all add: g_def same_goal_def)
  obtain st1 r1 where save: "saveGoal g st = (st1, r1)" by (metis surj_pair)
  have one: "goal_inv u st1 \<and> goal_grows st st1"
    using saveGoal_ok [OF inv save _ g(3)] ex [OF Some] g(2) by simp
  show ?thesis
  proof (cases r1)
    case (Inl e)
    then have "st' = st1" "r = Inl e"
      using plan save Some by (simp_all add: plan_goal_def Let_def flip: g_def)
    with one show ?thesis by simp
  next
    case (Inr h)
    then have h: "h = g" using save by (auto simp: saveGoal_def split: if_splits)
    obtain st2 r2 where clear: "supersede_all (ge_now env) (g_id g)
        (listPendingInteractiveQuestions (gi_organizationId input) (gi_channelId input)
          (deleteGoalTasks (gi_organizationId input) (g_id g) st1))
        (deleteGoalTasks (gi_organizationId input) (g_id g) st1) = (st2, r2)" by (metis surj_pair)
    have res: "st' = st2 \<and> (\<forall>x. r = Inr x \<longrightarrow> x = g)"
      using plan save Some Inr clear h by (cases r2) (auto simp: plan_goal_def Let_def simp flip: g_def)
    have "planned u (g_id g) st1"
    proof -
      obtain H where "st1 = st\<lparr>gs_goals := map H (gs_goals st)\<rparr>"
        "\<forall>x \<in> set (gs_goals st). same_goal x (H x) \<and> (g_id x = g_id g \<longrightarrow> g_status (H x) = g_status g)"
        using saveGoal_in_place [OF save _ g(3) goal_invD(2) [OF inv]] ex [OF Some] Inr by auto
      then show ?thesis
        using g ex [OF Some] goal_invD(4) [OF inv] by (auto simp: planned_def same_goal_def)
    qed
    with clear_board_ok [OF _ _ clear, of u] one res show ?thesis
      by (auto intro: goal_grows_trans)
  qed
qed


section \<open>A board\<close>

lemma check_dependencies_bound:
  "check_dependencies n ts = None \<Longrightarrow> k < length ts \<Longrightarrow> pt_dependsOnTaskIndex (ts ! k) = Some d \<Longrightarrow>
   0 \<le> d \<and> d < n + int k"
proof (induction n ts arbitrary: k rule: check_dependencies.induct)
  case (2 n t ts)
  show ?case
  proof (cases k)
    case 0
    with 2 show ?thesis by (auto split: if_splits)
  next
    case (Suc j)
    with 2 show ?thesis by (fastforce split: option.splits if_splits)
  qed
qed simp

lemma deps_ordered_append:
  assumes "deps_ordered xs" "deps_ordered ys"
  shows "deps_ordered (xs @ ys)"
  using assms(2)
proof (induction ys rule: rev_induct)
  case (snoc y ys)
  then have "dep_in ys y" by (simp add: deps_ordered_snoc)
  then have "dep_in (xs @ ys) y" by (auto simp: dep_in_def split: option.splits)
  with snoc show ?case by (simp add: deps_ordered_snoc flip: append_assoc)
qed (simp add: assms(1))

definition board :: "int \<Rightarrow> goal_input \<Rightarrow> string \<Rightarrow> (nat \<Rightarrow> string) \<Rightarrow> plan_task list \<Rightarrow> goal_task list" where
  "board now input goalId ids tasks = map (board_task now input goalId ids) (enumerate 0 tasks)"

lemma board_task_sel [simp]:
  "gt_id (board_task now input i ids (k, t)) = ids k"
  "gt_organizationId (board_task now input i ids (k, t)) = gi_organizationId input"
  "gt_goalId (board_task now input i ids (k, t)) = i"
  "gt_status (board_task now input i ids (k, t)) \<in> {T_Pending, T_Blocked}"
  "gt_dependsOnTaskId (board_task now input i ids (k, t)) = map_option (\<lambda>d. ids (nat d)) (pt_dependsOnTaskIndex t)"
  by (simp_all add: board_task_def)

lemma board_mem: "x \<in> set (board now input i ids tasks) \<Longrightarrow>
  gt_organizationId x = gi_organizationId input \<and> gt_goalId x = i \<and> gt_status x \<in> {T_Pending, T_Blocked} \<and>
  (\<exists>k < length tasks. gt_id x = ids k)"
  by (auto simp: board_def in_set_enumerate_eq board_task_def split: if_splits)

lemma board_nth: "k < length tasks \<Longrightarrow> board now input i ids tasks ! k = board_task now input i ids (k, tasks ! k)"
  by (simp add: board_def nth_enumerate_eq)

lemma length_board [simp]: "length (board now input i ids tasks) = length tasks"
  by (simp add: board_def)

lemma board_deps:
  assumes "check_dependencies 0 tasks = None"
  shows "deps_ordered (board now input i ids tasks)"
proof -
  let ?B = "board now input i ids tasks"
  have "dep_in (take k ?B) (?B ! k)" if k: "k < length tasks" for k
  proof (cases "pt_dependsOnTaskIndex (tasks ! k)")
    case (Some d)
    then have d: "nat d < k" using check_dependencies_bound [OF assms k Some] by linarith
    then have "take k ?B ! nat d \<in> set (take k ?B)" using k by (intro nth_mem) simp
    with d k Some show ?thesis
      by (auto simp: dep_in_def list_ex_iff board_nth intro!: bexI [of _ "take k ?B ! nat d"])
  qed (simp add: dep_in_def board_nth [OF k])
  then show ?thesis by (simp add: deps_ordered_def list_all_iff)
qed

lemma board_ids: "inj ids \<Longrightarrow> distinct (map gt_id (board now input i ids tasks))"
  by (auto simp: distinct_conv_nth board_nth dest: injD)

text \<open>Tasks under fresh ids are added in their order.\<close>

lemma each_saveGoalTask:
  assumes "each_ok saveGoalTask ts st = (st', Inr ys)" "distinct (map gt_id ts)"
    "gt_id ` set ts \<inter> gt_id ` set (gs_tasks st) = {}"
  shows "st' = st\<lparr>gs_tasks := gs_tasks st @ ts\<rparr>"
  using assms
proof (induction ts arbitrary: st ys)
  case (Cons t ts)
  have fresh: "gt_id t \<notin> gt_id ` set (gs_tasks st)" using Cons.prems(3) by auto
  have "saveGoalTask t st = (st, Inl Invalid_Row) \<or> saveGoalTask t st = (st\<lparr>gs_tasks := gs_tasks st @ [t]\<rparr>, Inr t)"
    using fresh by (simp add: saveGoalTask_def tbl_upsert_def)
  then obtain zs where "each_ok saveGoalTask ts (st\<lparr>gs_tasks := gs_tasks st @ [t]\<rparr>) = (st', Inr zs)"
    using Cons.prems(1) by (auto simp: and_ok_def split: prod.splits sum.splits)
  from Cons.IH [OF this] Cons.prems(2,3) show ?case by auto
qed simp

lemma each_saveGoalTask_memory: "each_ok saveGoalTask ts st = (st', r) \<Longrightarrow> memory_grows st st'"
proof (induction ts arbitrary: st r)
  case (Cons t ts)
  then show ?case
    by (auto simp: and_ok_def split: prod.splits sum.splits
        intro: memory_grows_trans dest!: saveGoalTask_memory)
qed simp


lemma add_board_ok:
  assumes inv: "goal_inv u st" and "inj u" and p: "planned u i st" and deps: "check_dependencies 0 tasks = None"
    and save: "each_ok saveGoalTask (board now input i (\<lambda>k. u (gs_next st + k)) tasks)
      (st\<lparr>gs_next := gs_next st + length tasks\<rparr>) = (st', Inr ys)"
  shows "goal_inv u st' \<and> goal_grows st st'"
proof -
  define B where "B = board now input i (\<lambda>k. u (gs_next st + k)) tasks"
  have inj: "inj (\<lambda>k. u (gs_next st + k))" using \<open>inj u\<close> by (auto intro!: injI dest!: injD)
  note mem = board_mem [of _ now input i "\<lambda>k. u (gs_next st + k)" tasks, folded B_def]
  have fresh: "gt_id x \<noteq> gt_id y" if xy: "x \<in> set B" "y \<in> set (gs_tasks st)" for x y
  proof -
    obtain k where "gt_id x = u (gs_next st + k)" using mem [OF xy(1)] by blast
    with drawn_not_new [OF goal_invD(3) [OF inv xy(2)] \<open>inj u\<close>, of "gs_next st + k"] show ?thesis by simp
  qed
  have dist: "distinct (map gt_id B)" unfolding B_def by (rule board_ids [OF inj])
  have st': "st' = st\<lparr>gs_next := gs_next st + length tasks, gs_tasks := gs_tasks st @ B\<rparr>"
    using each_saveGoalTask [OF save [folded B_def] dist] fresh by auto
  have "progress_ok (gs_tasks st @ B)"
    using goal_invD(7) [OF inv] mem unfolding progress_ok_def by fastforce
  moreover have "goal_done (gs_tasks st @ B) g" if g: "g \<in> set (gs_goals st)" "g_status g = G_Completed" for g
  proof -
    have "g_id g \<noteq> i" using p g by (auto simp: planned_def)
    then have "tasks_of g (gs_tasks st @ B) = tasks_of g (gs_tasks st)"
      using mem by (auto simp: tasks_of_def filter_empty_conv)
    with goal_invD(8) [OF inv g] show ?thesis by (simp add: goal_done_def)
  qed
  moreover have "drawn u (gs_next st + length tasks) (gt_id t) \<and> drawn u (gs_next st + length tasks) (gt_goalId t)"
    if "t \<in> set (gs_tasks st @ B)" for t
    using that mem [of t] goal_invD(3,5) [OF inv, of t] p
    by (auto simp: planned_def intro: drawn_le [of u "gs_next st"])
  moreover have "distinct (map gt_id (gs_tasks st @ B))"
    using dist goal_invD(1) [OF inv] fresh by (auto, metis)
  ultimately have "goal_inv u st'"
    using goal_invD [OF inv] deps_ordered_append [OF goal_invD(6) [OF inv] board_deps [OF deps]]
    by (intro goal_invI) (auto simp: st' B_def intro: drawn_le [of u "gs_next st"])
  then show ?thesis by (auto simp: st' goal_grows_def)
qed

lemma start_ok:
  assumes "ge_uuid env = u" "inj u"
  shows "goal_step_ok u st (fst (start env input tasks st))"
proof (cases "goal_inv u st \<and> validatePlanTasks tasks = None")
  case True
  then have inv: "goal_inv u st" and deps: "check_dependencies 0 tasks = None"
    by (auto simp: validatePlanTasks_def split: if_splits)
  let ?ex = "existing_goal env (gi_organizationId input) (gi_channelId input) st"
  obtain st1 r1 where plan: "plan_goal env input ?ex st = (st1, r1)" by (metis surj_pair)
  have one: "goal_inv u st1 \<and> goal_grows st st1 \<and> (\<forall>g. r1 = Inr g \<longrightarrow> planned u (g_id g) st1)"
    by (rule plan_goal_ok [OF plan inv assms existing_goal_mem])
  show ?thesis
  proof (cases r1)
    case (Inl e)
    with True plan one show ?thesis
      by (auto simp: start_def intro!: transaction_ok grows_memory)
  next
    case (Inr g)
    define B where "B = board (ge_now env) input (g_id g) (\<lambda>k. u (gs_next st1 + k)) tasks"
    obtain st2 r2 where save: "each_ok saveGoalTask B (st1\<lparr>gs_next := gs_next st1 + length tasks\<rparr>) = (st2, r2)"
      by (metis surj_pair)
    have "memory_grows st1 st2"
      using each_saveGoalTask_memory [OF save] by (simp add: memory_grows_def)
    then have "memory_grows st st2" using one grows_memory memory_grows_trans by blast
    moreover have "goal_step_ok u st st2" if "r2 = Inr ys" for ys
      using add_board_ok [OF _ assms(2) _ deps] one Inr save that
      by (auto simp: goal_step_ok_def B_def intro: goal_grows_trans)
    moreover have "start env input tasks st = transaction st (and_ok (st2, r2) (\<lambda>saved st3. (st3, Inr (g, saved))))"
      using True plan Inr save assms(1)
      by (simp add: start_def Let_def B_def board_def)
    ultimately show ?thesis
      by (cases r2) (auto intro!: transaction_ok)
  qed
qed (auto simp: start_def goal_step_ok_def split: option.split)

lemma create_ok:
  assumes "ge_uuid env = u" "inj u"
  shows "goal_step_ok u st (fst (create env input st))"
proof (cases "goal_inv u st")
  case inv: True
  let ?ex = "existing_goal env (gi_organizationId input) (gi_channelId input) st"
  obtain st1 r1 where plan: "plan_goal env input ?ex st = (st1, r1)" by (metis surj_pair)
  have "goal_inv u st1 \<and> goal_grows st st1 \<and> (\<forall>g. r1 = Inr g \<longrightarrow> planned u (g_id g) st1)"
    by (rule plan_goal_ok [OF plan inv assms existing_goal_mem])
  then have "goal_step_ok u st st1" "memory_grows st st1" by (auto simp: goal_step_ok_def grows_memory)
  then show ?thesis
    unfolding create_def Let_def using plan
    by (intro transaction_ok) (auto split: option.splits if_splits)
qed (simp add: goal_step_ok_def)

section \<open>The service as a step relation\<close>

text \<open>
  Every call names the environment it runs in: the time, the channels, what can be posted.
  Ids are drawn from one supply.
\<close>

inductive goal_event :: "(nat \<Rightarrow> string) \<Rightarrow> goal_state \<Rightarrow> goal_state \<Rightarrow> bool" for u where
  do_start: "ge_uuid env = u \<Longrightarrow> goal_event u st (fst (start env input tasks st))"
| do_create: "ge_uuid env = u \<Longrightarrow> goal_event u st (fst (create env input st))"
| do_implement: "goal_event u st (fst (implement env org i st))"
| do_pause: "goal_event u st (fst (pause env org i st))"
| do_resume: "goal_event u st (fst (resume env org i st))"
| do_stop: "goal_event u st (fst (stop env org i st))"
| do_update: "goal_event u st (fst (updateTask env upd st))"
| do_sweep: "goal_event u st (sweepAllPendingTasks env st)"
| do_ask: "ge_uuid env = u \<Longrightarrow> goal_event u st (fst (ask env question st))"
| do_answer: "goal_event u st (fst (answer env org i selected st))"
| do_supersede: "goal_event u st (fst (supersede env org i st))"
| do_resume_failed: "goal_event u st (resume_failed env org rid message st)"

inductive_cases goal_eventE: "goal_event u st st'"

lemmas goal_steps_ok = start_ok create_ok implement_ok pause_ok resume_ok stop_ok updateTask_ok
  quiet_ok [OF quiet_sweep] ask_ok answer_ok supersede_ok quiet_ok [OF quiet_resume_failed]

lemma goal_event_ok: "goal_event u st st' \<Longrightarrow> inj u \<Longrightarrow> goal_step_ok u st st'"
  by (erule goal_eventE) (auto intro: goal_steps_ok)

interpretation goals: step_system "\<lambda>st st'. inj u \<and> goal_event u st st'" "goal_inv u" goal_grows for u
proof unfold_locales
  show "goal_inv u st \<Longrightarrow> inj u \<and> goal_event u st st' \<Longrightarrow> goal_inv u st'"
    and "goal_inv u st \<Longrightarrow> inj u \<and> goal_event u st st' \<Longrightarrow> goal_grows st st'" for st st'
    using goal_event_ok [of u st st'] by (auto simp: goal_step_ok_def)
qed (auto intro: goal_grows_trans)

definition goal_start :: "run_step list \<Rightarrow> agent_run list \<Rightarrow> goal_state" where
  "goal_start steps runs = \<lparr>gs_goals = [], gs_tasks = [], gs_questions = [], gs_runs = runs, gs_steps = steps,
     gs_nudged = (\<lambda>_. None), gs_log = [], gs_next = 0\<rparr>"

lemma goal_inv_start [simp]: "goal_inv u (goal_start steps runs)"
  by (simp add: goal_inv_def goal_start_def progress_ok_def)

lemma goal_history:
  assumes "(goal_event u)\<^sup>*\<^sup>* (goal_start steps runs) st" "inj u"
  shows "goal_inv u st"
  using goals.reach_inv [of u] assms by simp


end
