(* ===== verification/GoalClaims.thy ===== *)
theory GoalClaims
  imports GoalSafety
begin

text \<open>
  The properties of goals, task boards and questions, with the concrete plan and history
  their witnesses run.
\<close>

section \<open>Concrete inputs\<close>

definition plan_ids :: "nat \<Rightarrow> string" where
  "plan_ids k = replicate (Suc k) (CHR ''i'')"

lemma plan_ids_inj [simp]: "inj plan_ids"
  unfolding plan_ids_def by (rule injI) (metis length_replicate nat.inject)

definition plan_env :: goal_env where
  "plan_env = \<lparr>ge_uuid = plan_ids, ge_now = 1000, ge_channel = (\<lambda>_ _. None), ge_conversations = True,
     ge_resume = True, ge_dm_ok = (\<lambda>_. True), ge_post_ok = (\<lambda>_. True), ge_organizations = [''org''],
     ge_activeRuns = (\<lambda>_. [])\<rparr>"

definition plan_input :: goal_input where
  "plan_input = \<lparr>gi_organizationId = ''org'', gi_channelId = ''ch'', gi_supervisorId = ''sup'',
     gi_title = ''Ship'', gi_planMarkdown = ''text''\<rparr>"

definition plan_tasks :: "plan_task list" where
  "plan_tasks = [\<lparr>pt_title = ''A'', pt_assigneeId = ''ann'', pt_dependsOnTaskIndex = None\<rparr>,
     \<lparr>pt_title = ''B'', pt_assigneeId = ''bob'', pt_dependsOnTaskIndex = Some 0\<rparr>]"

definition plan_update :: "string \<Rightarrow> goal_task_status \<Rightarrow> task_update" where
  "plan_update i s = \<lparr>tu_organizationId = ''org'', tu_taskId = i, tu_status = Some s,
     tu_handoverSummary = Some ''handover'', tu_title = None, tu_description = None,
     tu_assigneeId = None, tu_callerMemberId = None\<rparr>"

definition waiting_run :: agent_run where
  "waiting_run = \<lparr>ar_id = ''run'', ar_organizationId = ''org'', ar_status = ''waiting_for_input'', ar_step = ''ask'',
     ar_summary = [], ar_endedAt = None\<rparr>"

text \<open>The board, the first task done, the second in progress, both done.\<close>

definition board0 :: goal_state where
  "board0 = fst (start plan_env plan_input plan_tasks (goal_start [] [waiting_run]))"

definition board1 :: goal_state where
  "board1 = fst (updateTask plan_env (plan_update ''ii'' T_Completed) board0)"

definition board2 :: goal_state where
  "board2 = fst (updateTask plan_env (plan_update ''iii'' T_In_Progress) board1)"

definition board3 :: goal_state where
  "board3 = fst (updateTask plan_env (plan_update ''iii'' T_Completed) board2)"

lemma board0_reached: "(goal_event plan_ids)\<^sup>*\<^sup>* (goal_start [] [waiting_run]) board0"
  unfolding board0_def by (rule r_into_rtranclp, rule do_start) (simp add: plan_env_def)

lemma board2_reached: "(goal_event plan_ids)\<^sup>*\<^sup>* (goal_start [] [waiting_run]) board2"
  unfolding board2_def board1_def
  by (rule rtranclp.rtrancl_into_rtrancl [OF rtranclp.rtrancl_into_rtrancl [OF board0_reached do_update] do_update])

lemma board3_reached: "(goal_event plan_ids)\<^sup>*\<^sup>* (goal_start [] [waiting_run]) board3"
  unfolding board3_def by (rule rtranclp.rtrancl_into_rtrancl [OF board2_reached do_update])

section \<open>Boards\<close>

text \<open>
  C18: In every history of the service, a task in progress that depends on another has that
  other task in its own goal, and it is completed.\<close>
theorem in_progress_dependency_done:
  assumes "(goal_event u)\<^sup>*\<^sup>* (goal_start steps runs) st" "inj u"
    and "t \<in> set (gs_tasks st)" "gt_status t = T_In_Progress" "gt_dependsOnTaskId t = Some d"
  shows "\<exists>x. find_task (gt_organizationId t) d (gs_tasks st) = Some x \<and> gt_goalId x = gt_goalId t \<and>
    gt_status x = T_Completed"
proof -
  note inv = goal_history [OF assms(1,2)]
  obtain x where x: "x \<in> set (gs_tasks st)" "gt_id x = d" "gt_organizationId x = gt_organizationId t"
    "gt_status x = T_Completed" using goal_invD(7) [OF inv] assms(3-5) unfolding progress_ok_def by blast
  obtain y where y: "y \<in> set (gs_tasks st)" "gt_id y = d" "gt_goalId y = gt_goalId t"
    using deps_ordered_dep [OF goal_invD(6) [OF inv] assms(3,5)] by blast
  have "x = y" using x y goal_invD(1) [OF inv] by (auto simp: distinct_map inj_on_def)
  with x y find_task_mem [OF goal_invD(1) [OF inv] x(1)] show ?thesis by auto
qed

text \<open>The second task of the plan, once the first is done.\<close>
theorem in_progress_dependency_done_witness:
  "\<exists>(t :: goal_task) (x :: goal_task). t \<in> set (gs_tasks board2) \<and> gt_title t = ''B'' \<and> gt_status t = T_In_Progress \<and>
    find_task ''org'' ''ii'' (gs_tasks board2) = Some x \<and> gt_status x = T_Completed"
proof -
  let ?t = "last (gs_tasks board2)"
  have t: "?t \<in> set (gs_tasks board2)" "gt_title ?t = ''B''" "gt_status ?t = T_In_Progress"
    "gt_dependsOnTaskId ?t = Some ''ii''" "gt_organizationId ?t = ''org''" by code_simp+
  from in_progress_dependency_done [OF board2_reached plan_ids_inj t(1,3,4)] t show ?thesis by auto
qed

text \<open>
  C19: In every history of the service, a completed goal has tasks, and every one of them is
  completed.\<close>
theorem completed_goal_all_done:
  assumes "(goal_event u)\<^sup>*\<^sup>* (goal_start steps runs) st" "inj u"
    and "g \<in> set (gs_goals st)" "g_status g = G_Completed"
  shows "set (map gt_status (listGoalTasks (g_organizationId g) (g_id g) st)) = {T_Completed}"
  using goal_invD(8) [OF goal_history [OF assms(1,2)] assms(3,4)]
  unfolding statuses_listGoalTasks goal_done_def tasks_of_def [symmetric]
  by (cases "tasks_of g (gs_tasks st)") (auto simp: list_all_iff)

text \<open>The plan with both tasks done.\<close>
theorem completed_goal_all_done_witness:
  "g_status (hd (gs_goals board3)) = G_Completed \<and>
   set (map gt_status (listGoalTasks ''org'' ''i'' board3)) = {T_Completed}"
proof -
  let ?g = "hd (gs_goals board3)"
  have g: "?g \<in> set (gs_goals board3)" "g_status ?g = G_Completed" "g_organizationId ?g = ''org''" "g_id ?g = ''i''"
    by code_simp+
  from completed_goal_all_done [OF board3_reached plan_ids_inj g(1,2)] g show ?thesis by simp
qed


section \<open>Moves and edits of tasks\<close>

lemma synced_status_set:
  assumes "set xs = set ys"
  shows "synced_status xs = synced_status ys"
proof -
  have "xs = [] \<longleftrightarrow> ys = []" using assms by (metis set_empty)
  then show ?thesis by (simp add: synced_status_def list_all_iff list_ex_iff assms)
qed

lemma quiet_statuses:
  assumes "quiet a b"
  shows "set (map gt_status (listGoalTasks org i b)) = set (map gt_status (listGoalTasks org i a))"
proof -
  obtain f where f: "quiet_task f" "gs_tasks b = map f (gs_tasks a)" using assms by (auto simp: quiet_def)
  then have "filter (\<lambda>t. gt_organizationId t = org \<and> gt_goalId t = i) (gs_tasks b) =
      map f (filter (\<lambda>t. gt_organizationId t = org \<and> gt_goalId t = i) (gs_tasks a))"
    by (simp add: filter_map o_def quiet_task_def same_task_def)
  with f(1) show ?thesis unfolding statuses_listGoalTasks by (simp add: image_image quiet_task_def)
qed

lemma syncGoalStatus_result:
  assumes "syncGoalStatus env org i st = (st', Inr ())" "getGoal org i st = Some g" "g_status g \<noteq> G_Cancelled"
    and dist: "distinct (map g_id (gs_goals st))"
  shows "\<exists>g'. getGoal org i st' = Some g' \<and> g_status g' = synced_status (map gt_status (listGoalTasks org i st')) \<and>
    gs_tasks st' = gs_tasks st"
proof -
  let ?next = "synced_status (map gt_status (listGoalTasks org i st))"
  let ?g = "g\<lparr>g_status := ?next, g_updatedAt := ge_now env\<rparr>"
  consider "st' = st" "g_status g = ?next" | "saveGoal ?g st = (st', Inr ?g)"
    using assms(1-3) by (auto simp: syncGoalStatus_def and_ok_def saveGoal_def Let_def split: if_splits prod.splits sum.splits)
  then show ?thesis
  proof cases
    case 1
    with assms(2) show ?thesis by auto
  next
    case 2
    have g: "g \<in> set (gs_goals st)" "g_organizationId g = org" "g_id g = i" using getGoal_mem [OF assms(2)] by auto
    have same: "same_goal g ?g" by (simp add: same_goal_def)
    obtain H where H: "st' = st\<lparr>gs_goals := map H (gs_goals st)\<rparr>" "same_goal g (H g)" "g_status (H g) = ?next"
      using saveGoal_in_place [OF 2 g(1) same dist] g by auto
    have "getGoal org i st' \<noteq> None"
      using H g by (auto simp: getGoal_def find_None_iff same_goal_def)
    then obtain g' where g': "getGoal org i st' = Some g'" by auto
    have "distinct (map g_id (gs_goals st'))"
      using saveGoal_in_place [OF 2 g(1) same dist] dist by (auto simp: same_goal_def o_def cong: map_cong)
    then have "g' = H g"
      using getGoal_mem [OF g'] H(1,2) g by (auto simp: distinct_map inj_on_def same_goal_def)
    with g' H show ?thesis by (auto simp: listGoalTasks_def)
  qed
qed

lemma updateTask_moved:
  assumes "updateTask env u st = (st', Inr (task, previous))" "tu_status u = Some status"
  obtains st1 old where "quiet st st1 \<or> \<not> distinct (map gt_id (gs_tasks st))"
    "move_task env u old status st1 = (st', Inr (task, previous))"
proof -
  obtain t st1 where t: "getGoalTask (tu_organizationId u) (tu_taskId u) st = Some t"
    and edit: "edit_plan env u t st = (st1, Inr ())" "move_task env u (gt_status t) status st1 = (st', Inr (task, previous))"
    using assms
    by (auto simp: updateTask_def Let_def transaction_def and_ok_def split: option.splits prod.splits sum.splits)
  have "quiet st st1 \<or> \<not> distinct (map gt_id (gs_tasks st))" using edit_plan_quiet [OF edit(1) t] by blast
  with edit(2) that show thesis by blast
qed

text \<open>
  A task update that sets a status leaves the task's goal, unless it was cancelled, with
  the status its tasks give: completed, cancelled, suspended by a failure, or running. So a
  goal that was never approved runs after any move of one of its tasks.\<close>
theorem goal_follows_tasks:
  assumes "(goal_event u)\<^sup>*\<^sup>* (goal_start steps runs) st" "inj u"
    and "updateTask env upd st = (st', Inr (task, previous))" "tu_status upd = Some status"
    and "getGoal (tu_organizationId upd) (gt_goalId task) st = Some g" "g_status g \<noteq> G_Cancelled"
  shows "\<exists>g'. getGoal (tu_organizationId upd) (gt_goalId task) st' = Some g' \<and>
    g_status g' = synced_status (map gt_status (listGoalTasks (tu_organizationId upd) (gt_goalId task) st'))"
proof -
  note inv = goal_history [OF assms(1,2)]
  obtain st1 old where st1: "quiet st st1" "move_task env upd old status st1 = (st', Inr (task, previous))"
    using updateTask_moved [OF assms(3,4)] goal_invD(1) [OF inv] by blast
  obtain st2 st3 where
    upd: "updateGoalTaskStatus (ge_now env) (tu_organizationId upd) (tu_taskId upd) status
      (tu_handoverSummary upd) (forget_nudge (tu_taskId upd) st1) = (st2, Inr (Some task))"
    and sync: "syncGoalStatus env (tu_organizationId upd) (gt_goalId task) st2 = (st3, Inr ())"
    and st': "st' = move_notices env upd old status task st3"
    using st1(2) by (cases rule: move_task_cases) auto
  have "gs_goals st2 = gs_goals st1" using updateGoalTaskStatus_tasks(1) [OF upd] by (simp add: forget_nudge_def)
  also have "\<dots> = gs_goals st" using st1(1) by (simp add: quiet_def)
  finally have goals: "gs_goals st2 = gs_goals st" .
  then obtain g' where g': "getGoal (tu_organizationId upd) (gt_goalId task) st3 = Some g'"
    "g_status g' = synced_status (map gt_status (listGoalTasks (tu_organizationId upd) (gt_goalId task) st3))"
    using syncGoalStatus_result [OF sync _ assms(6)] assms(5) goal_invD(2) [OF inv] by (auto simp: getGoal_def)
  have quiet: "quiet st3 st'" unfolding st' by (rule quiet_move_notices)
  then have "getGoal (tu_organizationId upd) (gt_goalId task) st' = Some g'"
    using g'(1) by (simp add: getGoal_def quiet_def)
  with g'(2) synced_status_set [OF quiet_statuses [OF quiet]] show ?thesis by metis
qed

text \<open>
  A planned goal, with its question not answered: a worker starts the first task, and the
  goal runs.\<close>
theorem goal_follows_tasks_witness:
  "g_status (hd (gs_goals board0)) = G_Planning \<and>
   (\<exists>g'. getGoal ''org'' ''i'' (fst (updateTask plan_env (plan_update ''ii'' T_In_Progress) board0)) = Some g' \<and>
      g_status g' = G_Running)"
proof -
  let ?u = "plan_update ''ii'' T_In_Progress"
  obtain st' task previous where r: "updateTask plan_env ?u board0 = (st', Inr (task, previous))"
    and st': "st' = fst (updateTask plan_env ?u board0)" and task: "gt_goalId task = ''i''"
  proof -
    have "\<not> isl (snd (updateTask plan_env ?u board0))"
      "gt_goalId (fst (projr (snd (updateTask plan_env ?u board0)))) = ''i''" by code_simp+
    then show thesis
      using that by (cases "updateTask plan_env ?u board0"; cases "snd (updateTask plan_env ?u board0)") auto
  qed
  have pre: "tu_status ?u = Some T_In_Progress" "tu_organizationId ?u = ''org''" by (simp_all add: plan_update_def)
  have goal: "getGoal ''org'' ''i'' board0 = Some (hd (gs_goals board0))" "g_status (hd (gs_goals board0)) = G_Planning"
    by code_simp+
  have "synced_status (map gt_status (listGoalTasks ''org'' ''i'' st')) = G_Running"
    unfolding st' by code_simp
  with goal_follows_tasks [OF board0_reached plan_ids_inj r pre(1), unfolded pre(2) task, OF goal(1)] goal(2) st'
  show ?thesis by auto
qed



text \<open>
  An update that touches the title, the description or the assignee of a task is refused
  with nothing written unless the caller is named and is the goal's supervisor, whatever
  status it also asks for.\<close>
theorem plan_edits_by_supervisor:
  assumes "getGoalTask (tu_organizationId u) (tu_taskId u) st = Some t"
    and "getGoal (tu_organizationId u) (gt_goalId t) st = Some g"
    and "edits_plan u" "tu_callerMemberId u \<noteq> Some (g_supervisorId g)"
  shows "updateTask env u st = (st, Inl (if optional_text (tu_callerMemberId u) = None then Caller_Required
    else Only_Supervisor (g_supervisorId g)))"
  using assms
  by (auto simp: updateTask_def edit_plan_def transaction_def optional_text_def split: option.splits)

text \<open>The assignee renames the task it works on.\<close>
theorem plan_edits_by_supervisor_witness:
  "updateTask plan_env ((plan_update ''ii'' T_Completed)\<lparr>tu_title := Some ''Z'', tu_callerMemberId := Some ''ann''\<rparr>) board0
   = (board0, Inl (Only_Supervisor ''sup''))"
proof -
  let ?u = "(plan_update ''ii'' T_Completed)\<lparr>tu_title := Some ''Z'', tu_callerMemberId := Some ''ann''\<rparr>"
  let ?t = "hd (gs_tasks board0)" and ?g = "hd (gs_goals board0)"
  have pre: "getGoalTask (tu_organizationId ?u) (tu_taskId ?u) board0 = Some ?t"
    "getGoal (tu_organizationId ?u) (gt_goalId ?t) board0 = Some ?g" by code_simp+
  have sup: "g_supervisorId ?g = ''sup''" by code_simp
  show ?thesis
    using plan_edits_by_supervisor [OF pre, of plan_env] sup by (simp add: edits_plan_def optional_text_def)
qed

section \<open>Questions and runs\<close>

text \<open>
  Over any further history of the service, a question once answered or superseded keeps
  its row as it is, and a goal keeps its organisation and channel while its plan version
  never falls.\<close>
theorem goal_history_final:
  assumes "(goal_event u)\<^sup>*\<^sup>* (goal_start steps runs) st" "inj u" "(goal_event u)\<^sup>*\<^sup>* st st'"
  shows "set (filter (\<lambda>q. iq_status q \<noteq> Q_Pending) (gs_questions st)) \<subseteq> set (gs_questions st') \<and>
    set (gs_goals st) \<subseteq> {g. \<exists>g' \<in> set (gs_goals st'). g_id g' = g_id g \<and>
      g_organizationId g' = g_organizationId g \<and> g_channelId g' = g_channelId g \<and> g_planVersion g \<le> g_planVersion g'}"
proof -
  have "(\<lambda>st st'. inj u \<and> goal_event u st st')\<^sup>*\<^sup>* st st'" using assms(2,3) by simp
  from goals.reach_keeps [OF this goal_history [OF assms(1,2)]] show ?thesis
    unfolding goal_grows_def by auto
qed

definition plan_question :: ask_input where
  "plan_question = \<lparr>aq_organizationId = ''org'', aq_channelId = ''ch'', aq_goalId = None, aq_runId = Some ''run'',
     aq_toolCallId = None, aq_questionText = ''Which?'', aq_options = [''a (Recommended)'', ''b'']\<rparr>"

definition asked :: goal_state where
  "asked = fst (ask plan_env plan_question board0)"

definition answered :: goal_state where
  "answered = fst (answer plan_env ''org'' ''iiii'' ''b'' asked)"

lemma answered_reached: "(goal_event plan_ids)\<^sup>*\<^sup>* (goal_start [] [waiting_run]) answered"
proof -
  have "ge_uuid plan_env = plan_ids" by (simp add: plan_env_def)
  from do_ask [OF this] board0_reached have "(goal_event plan_ids)\<^sup>*\<^sup>* (goal_start [] [waiting_run]) asked"
    unfolding asked_def by (rule rtranclp.rtrancl_into_rtrancl [rotated])
  then show ?thesis unfolding answered_def by (rule rtranclp.rtrancl_into_rtrancl) (rule do_answer)
qed

text \<open>The answer of a question outlives a new plan of the channel.\<close>
theorem goal_history_final_witness:
  "\<exists>(q :: question). q \<in> set (gs_questions (fst (create plan_env plan_input answered))) \<and>
    iq_selectedOption q = Some ''b'' \<and> iq_status q = Q_Answered"
proof -
  let ?q = "hd (gs_questions answered)"
  have q: "iq_selectedOption ?q = Some ''b''" "iq_status ?q = Q_Answered"
    "?q \<in> set (filter (\<lambda>q. iq_status q \<noteq> Q_Pending) (gs_questions answered))" by code_simp+
  have "(goal_event plan_ids)\<^sup>*\<^sup>* answered (fst (create plan_env plan_input answered))"
    by (rule r_into_rtranclp, rule do_create) (simp add: plan_env_def)
  from goal_history_final [OF answered_reached plan_ids_inj this] q show ?thesis by blast
qed

lemma implement_frame:
  "gs_log (fst (implement env org i st)) = gs_log st \<and> gs_questions (fst (implement env org i st)) = gs_questions st \<and>
   gs_runs (fst (implement env org i st)) = gs_runs st"
  by (auto simp: implement_def transaction_def and_ok_def saveGoal_def Let_def split: option.splits prod.splits sum.splits)

lemma complete_step_frame:
  "gs_log (complete_step q s st) = gs_log st \<and> gs_questions (complete_step q s st) = gs_questions st \<and>
   gs_runs (complete_step q s st) = gs_runs st"
  by (simp add: complete_step_def split: option.split)

lemma each_save_frame:
  "each_ok (\<lambda>q. saveInteractiveQuestion (f q)) qs st = (st', r) \<Longrightarrow> gs_log st' = gs_log st \<and> gs_runs st' = gs_runs st"
  by (induction qs arbitrary: st r)
    (auto simp: and_ok_def saveInteractiveQuestion_def split: if_splits prod.splits sum.splits)

lemma resume_run_after_log:
  assumes "resume_run_after env org rid rejected st = (st', r)"
  shows "gs_log st' = gs_log st \<or>
    gs_log st' = gs_log st @ [Resumed rid (\<not> rejected)] \<and>
      list_all (\<lambda>q. iq_status q \<noteq> Q_Pending) (listInteractiveQuestionsByRunId org rid st') \<and>
      (\<exists>x. get_agent_run org rid st = Some x \<and> ar_status x = ''waiting_for_input'')"
proof -
  define closed where "closed = (if rejected
     then and_ok (each_ok (\<lambda>q. saveInteractiveQuestion (q\<lparr>iq_status := Q_Superseded, iq_updatedAt := ge_now env\<rparr>))
            (filter (\<lambda>q. iq_status q = Q_Pending) (listInteractiveQuestionsByRunId org rid st)) st)
           (\<lambda>_ st'. (st', Inr ()))
     else (st, Inr ()))"
  obtain st1 x where c: "closed = (st1, x)" by (metis surj_pair)
  have log: "gs_log st1 = gs_log st"
    using c by (auto simp: closed_def and_ok_def split: if_splits prod.splits sum.splits dest: each_save_frame)
  show ?thesis
    using assms log unfolding resume_run_after_def closed_def [symmetric] c Let_def
    by (cases x)
      (auto simp: log_goal_def listInteractiveQuestionsByRunId_def list_ex_iff list_all_iff split: option.splits if_splits)
qed



lemma saveInteractiveQuestion_frame:
  "saveInteractiveQuestion q st = (st', r) \<Longrightarrow> gs_log st' = gs_log st \<and> gs_runs st' = gs_runs st"
  by (auto simp: saveInteractiveQuestion_def split: if_splits)

lemma answer_log:
  assumes "answer env org i selected st = (st', r)"
  shows "gs_log st' = gs_log st \<or>
    (\<exists>q rid st3 y. getInteractiveQuestion org i st = Some q \<and> iq_runId q = Some rid \<and>
       gs_log st3 = gs_log st \<and> gs_runs st3 = gs_runs st \<and>
       resume_run_after env org rid (is_implement_question q \<and> selected = IMPLEMENT_QUESTION_REJECT_OPTION) st3 = (st', y))"
proof (cases "\<exists>q. getInteractiveQuestion org i st = Some q \<and> iq_status q = Q_Pending \<and> selected \<in> set (iq_options q)")
  case True
  then obtain q where q: "getInteractiveQuestion org i st = Some q" "iq_status q = Q_Pending" "selected \<in> set (iq_options q)"
    by blast
  obtain st1 z where save: "saveInteractiveQuestion (q\<lparr>iq_status := Q_Answered, iq_selectedOption := Some selected,
      iq_updatedAt := ge_now env\<rparr>) st = (st1, z)" by (metis surj_pair)
  note frame1 = saveInteractiveQuestion_frame [OF save]
  show ?thesis
  proof (cases z)
    case (Inl e)
    with q save assms frame1 show ?thesis by (auto simp: answer_def)
  next
    case (Inr a)
    define st3 where "st3 = (case iq_goalId q of
       Some g \<Rightarrow> if is_implement_question q \<and> selected = IMPLEMENT_QUESTION_OPTION
                 then fst (implement env org g (complete_step q selected st1)) else complete_step q selected st1
     | None \<Rightarrow> complete_step q selected st1)"
    have frame3: "gs_log st3 = gs_log st \<and> gs_runs st3 = gs_runs st"
      using frame1 by (simp add: st3_def implement_frame complete_step_frame split: option.split)
    define rejected where "rejected = (is_implement_question q \<and> selected = IMPLEMENT_QUESTION_REJECT_OPTION)"
    have "(st', r) = (case (if ge_resume env then iq_runId q else None) of None \<Rightarrow> (st3, Inr a)
        | Some rid \<Rightarrow> and_ok (resume_run_after env org rid rejected st3) (\<lambda>_ st4. (st4, Inr a)))"
      using assms q save Inr unfolding st3_def rejected_def by (simp add: answer_def Let_def)
    then show ?thesis
      using frame3 q(1) unfolding rejected_def [symmetric]
      by (auto simp: and_ok_def rejected_def split: if_splits option.splits prod.splits sum.splits)
  qed
qed (use assms in \<open>auto simp: answer_def split: option.splits if_splits\<close>)

text \<open>
  C20: An answer wakes a run only when the answered question was the run's, the run waits for
  input, and no question of the run is left pending; it wakes it once, and posts nothing
  else.\<close>
theorem run_resumes_after_all_answers:
  assumes "answer env org i selected st = (st', r)" "gs_log st' \<noteq> gs_log st"
  shows "\<exists>q rid b x. getInteractiveQuestion org i st = Some q \<and> iq_runId q = Some rid \<and>
    gs_log st' = gs_log st @ [Resumed rid b] \<and>
    (b \<longleftrightarrow> \<not> (is_implement_question q \<and> selected = IMPLEMENT_QUESTION_REJECT_OPTION)) \<and>
    get_agent_run org rid st = Some x \<and> ar_status x = ''waiting_for_input'' \<and>
    list_all (\<lambda>q. iq_status q \<noteq> Q_Pending) (listInteractiveQuestionsByRunId org rid st')"
proof -
  obtain q rid st3 y where q: "getInteractiveQuestion org i st = Some q" "iq_runId q = Some rid"
    and st3: "gs_log st3 = gs_log st" "gs_runs st3 = gs_runs st"
    and run: "resume_run_after env org rid (is_implement_question q \<and> selected = IMPLEMENT_QUESTION_REJECT_OPTION) st3 = (st', y)"
    using answer_log [OF assms(1)] assms(2) by blast
  have "get_agent_run org rid st3 = get_agent_run org rid st" by (simp add: get_agent_run_def st3)
  with q st3 resume_run_after_log [OF run] assms(2) show ?thesis by auto
qed

text \<open>Of two questions of a run, the second answer wakes it.\<close>
theorem run_resumes_after_all_answers_witness:
  "\<exists>st rid. gs_log (fst (answer plan_env ''org'' ''iiii'' ''b'' st)) = gs_log st \<and>
    gs_log (fst (answer plan_env ''org'' ''iiiii'' ''b'' (fst (answer plan_env ''org'' ''iiii'' ''b'' st)))) =
      gs_log st @ [Resumed rid True]"
proof -
  let ?st = "fst (ask plan_env plan_question asked)"
  let ?st1 = "fst (answer plan_env ''org'' ''iiii'' ''b'' ?st)"
  let ?st2 = "fst (answer plan_env ''org'' ''iiiii'' ''b'' ?st1)"
  have one: "gs_log ?st1 = gs_log ?st" by code_simp
  obtain r where r: "answer plan_env ''org'' ''iiiii'' ''b'' ?st1 = (?st2, r)" by (metis prod.collapse)
  have two: "gs_log ?st2 \<noteq> gs_log ?st1" by code_simp
  have b: "\<not> (''b'' = IMPLEMENT_QUESTION_REJECT_OPTION)" by code_simp
  from run_resumes_after_all_answers [OF r two] one b show ?thesis by auto
qed



section \<open>The way around the approval\<close>

lemma find_map_eq: "find P (map f xs) = map_option f (find (\<lambda>x. P (f x)) xs)"
  by (induction xs) auto

lemma getGoal_saveGoal:
  assumes "getGoal org i st = Some g" "goal_valid g"
  shows "saveGoal (g\<lparr>g_status := s, g_updatedAt := now\<rparr>) st = (fst (saveGoal (g\<lparr>g_status := s, g_updatedAt := now\<rparr>) st),
      Inr (g\<lparr>g_status := s, g_updatedAt := now\<rparr>))"
    and "getGoal org i (fst (saveGoal (g\<lparr>g_status := s, g_updatedAt := now\<rparr>) st)) =
      Some (g\<lparr>g_status := s, g_updatedAt := now\<rparr>)"
proof -
  have valid: "goal_valid (g\<lparr>g_status := s, g_updatedAt := now\<rparr>)" using assms(2) by (simp add: goal_valid_def)
  then show "saveGoal (g\<lparr>g_status := s, g_updatedAt := now\<rparr>) st = (fst (saveGoal (g\<lparr>g_status := s, g_updatedAt := now\<rparr>) st),
      Inr (g\<lparr>g_status := s, g_updatedAt := now\<rparr>))" by (simp add: saveGoal_def)
  define f where "f x = (if g_id x = g_id g then x\<lparr>g_title := g_title g, g_status := s, g_supervisorId := g_supervisorId g,
    g_planMarkdown := g_planMarkdown g, g_planVersion := g_planVersion g, g_updatedAt := now\<rparr> else x)" for x :: goal
  have mem: "g \<in> set (gs_goals st)" "g_organizationId g = org" "g_id g = i" using getGoal_mem [OF assms(1)] by auto
  have "fst (saveGoal (g\<lparr>g_status := s, g_updatedAt := now\<rparr>) st) = st\<lparr>gs_goals := map f (gs_goals st)\<rparr>"
    using valid mem by (auto simp: saveGoal_def tbl_upsert_def f_def image_iff)
  moreover have "g_organizationId (f x) = g_organizationId x" "g_id (f x) = g_id x" for x by (simp_all add: f_def)
  moreover have "f g = g\<lparr>g_status := s, g_updatedAt := now\<rparr>" by (simp add: f_def)
  ultimately show "getGoal org i (fst (saveGoal (g\<lparr>g_status := s, g_updatedAt := now\<rparr>) st)) =
      Some (g\<lparr>g_status := s, g_updatedAt := now\<rparr>)"
    using assms(1) by (simp add: getGoal_def find_map_eq)
qed

lemma setGoalStatus_Some:
  assumes "getGoal org i st = Some g" "goal_valid g" "g_status g \<in> set allowed"
  shows "getGoal org i (fst (setGoalStatus env org i allowed s st)) = Some (g\<lparr>g_status := s, g_updatedAt := ge_now env\<rparr>)"
proof -
  note saved = getGoal_saveGoal [OF assms(1,2), of "ge_now env" s]
  have "setGoalStatus env org i allowed s st = transaction st (saveGoal (g\<lparr>g_status := s, g_updatedAt := ge_now env\<rparr>) st)"
    using assms(1,3) by (simp add: setGoalStatus_def)
  also have "\<dots> = saveGoal (g\<lparr>g_status := s, g_updatedAt := ge_now env\<rparr>) st"
    by (subst (1 2) saved(1)) (simp add: transaction_def)
  finally show ?thesis using saved(2) by simp
qed

text \<open>
  A goal in planning that is paused and then resumed runs, though nobody implemented it:
  a suspended goal need not have been approved.\<close>
theorem pause_resume_skips_approval:
  assumes "getGoal org i st = Some g" "goal_valid g" "g_status g = G_Planning"
  shows "\<exists>g'. getGoal org i (fst (resume env org i (fst (pause env' org i st)))) = Some g' \<and> g_status g' = G_Running"
proof -
  let ?g = "g\<lparr>g_status := G_Suspended, g_updatedAt := ge_now env'\<rparr>"
  have paused: "getGoal org i (fst (pause env' org i st)) = Some ?g"
    unfolding pause_def by (rule setGoalStatus_Some [OF assms(1,2)]) (simp add: assms(3))
  have "goal_valid ?g" using assms(2) by (simp add: goal_valid_def)
  from setGoalStatus_Some [OF paused this] show ?thesis by (simp add: resume_def)
qed

text \<open>The plan of the demo board.\<close>
theorem pause_resume_skips_approval_witness:
  "g_status (hd (gs_goals board0)) = G_Planning \<and>
   (\<exists>g'. getGoal ''org'' ''i'' (fst (resume plan_env ''org'' ''i'' (fst (pause plan_env ''org'' ''i'' board0)))) = Some g' \<and>
      g_status g' = G_Running)"
proof -
  have g: "getGoal ''org'' ''i'' board0 = Some (hd (gs_goals board0))" "goal_valid (hd (gs_goals board0))"
    "g_status (hd (gs_goals board0)) = G_Planning" by code_simp+
  from pause_resume_skips_approval [OF g] g(3) show ?thesis by blast
qed


end
