(* ===== verification/AgentLoop.thy ===== *)
theory AgentLoop
  imports JsValues
begin

text \<open>
  The agent loop (\<open>packages/agent-core/src/loop.ts\<close>): the repair of message lists before
  they go to a model, what a step of the loop means for the run, the stop test, token
  counts; and the classification of provider errors (\<open>error-classification.ts\<close>). The
  stream itself belongs to a library and is not modelled.
\<close>

section \<open>Messages\<close>

datatype message_role = R_System | R_User | R_Assistant | R_Tool

datatype message_part =
    P_Tool_Call string json
  | P_Tool_Result string json
  | P_Other json

datatype message_content = Plain string | Parts "message_part list"

record model_message =
  mm_role :: message_role
  mm_content :: message_content

definition call_ids :: "message_part list \<Rightarrow> string set" where
  "call_ids ps = set (List.map_filter (\<lambda>p. case p of P_Tool_Call i _ \<Rightarrow> Some i | _ \<Rightarrow> None) ps)"

definition result_ids :: "message_part list \<Rightarrow> string set" where
  "result_ids ps = set (List.map_filter (\<lambda>p. case p of P_Tool_Result i _ \<Rightarrow> Some i | _ \<Rightarrow> None) ps)"

definition toolCallIdsFor :: "message_content \<Rightarrow> string set" where
  "toolCallIdsFor c = (case c of Plain _ \<Rightarrow> {} | Parts ps \<Rightarrow> call_ids ps)"

definition toolResultIdsFor :: "model_message option \<Rightarrow> string set" where
  "toolResultIdsFor m =
     (case m of
        None \<Rightarrow> {}
      | Some x \<Rightarrow> if mm_role x \<noteq> R_Tool then {}
                  else (case mm_content x of Plain _ \<Rightarrow> {} | Parts ps \<Rightarrow> result_ids ps))"

fun keep_call :: "string set \<Rightarrow> message_part \<Rightarrow> bool" where
  "keep_call ids (P_Tool_Call i _) = (i \<in> ids)"
| "keep_call ids _ = True"

fun keep_result :: "string set \<Rightarrow> message_part \<Rightarrow> bool" where
  "keep_result ids (P_Tool_Result i _) = (i \<in> ids)"
| "keep_result ids _ = False"

definition sanitizeAssistantMessage :: "model_message \<Rightarrow> string set \<Rightarrow> model_message option" where
  "sanitizeAssistantMessage m nextToolResultIds =
     (case mm_content m of
        Plain _ \<Rightarrow> Some m
      | Parts ps \<Rightarrow>
          (let content = filter (keep_call nextToolResultIds) ps
           in if list_all (keep_call nextToolResultIds) ps then Some m
              else if content = [] then None
              else Some (m\<lparr>mm_content := Parts content\<rparr>)))"

definition sanitizeToolMessage :: "model_message \<Rightarrow> string set \<Rightarrow> model_message option" where
  "sanitizeToolMessage m pendingToolCallIds =
     (case mm_content m of
        Plain _ \<Rightarrow> None
      | Parts ps \<Rightarrow>
          if pendingToolCallIds = {} then None
          else (let content = filter (keep_result pendingToolCallIds) ps
                in if content = [] then None else Some (m\<lparr>mm_content := Parts content\<rparr>)))"

definition opt_list :: "'a option \<Rightarrow> 'a list" where
  "opt_list x = (case x of None \<Rightarrow> [] | Some y \<Rightarrow> [y])"

definition next_message :: "model_message list \<Rightarrow> model_message option" where
  "next_message ms = (case ms of [] \<Rightarrow> None | m # _ \<Rightarrow> Some m)"

fun sanitize_loop :: "string set \<Rightarrow> model_message list \<Rightarrow> model_message list" where
  "sanitize_loop pending [] = []"
| "sanitize_loop pending (m # ms) =
     (if mm_role m = R_Assistant
      then (let sanitized = sanitizeAssistantMessage m (toolResultIdsFor (next_message ms))
            in opt_list sanitized @ sanitize_loop
                 (case sanitized of Some x \<Rightarrow> toolCallIdsFor (mm_content x) | None \<Rightarrow> {}) ms)
      else if mm_role m = R_Tool
      then opt_list (sanitizeToolMessage m pending) @ sanitize_loop {} ms
      else m # sanitize_loop {} ms)"

definition sanitizeModelMessages :: "model_message list \<Rightarrow> model_message list" where
  "sanitizeModelMessages ms = sanitize_loop {} ms"

section \<open>Steps\<close>

record tool_call =
  tc_toolName :: "string option"
  tc_providerExecuted :: "bool option"

record tool_result =
  tr_output :: "json option"
  tr_result :: "json option"

record content_item =
  ci_type :: "string option"
  ci_text :: "string option"
  ci_toolName :: "string option"
  ci_output :: "json option"
  ci_result :: "json option"

record loop_step =
  ls_text :: "string option"
  ls_toolCalls :: "tool_call list"
  ls_staticToolCalls :: "tool_call list"
  ls_dynamicToolCalls :: "tool_call list"
  ls_toolResults :: "tool_result list"
  ls_staticToolResults :: "tool_result list"
  ls_dynamicToolResults :: "tool_result list"
  ls_content :: "content_item list"
  ls_usage :: "json option"

definition normalizedToolCalls :: "loop_step \<Rightarrow> tool_call list" where
  "normalizedToolCalls s = ls_toolCalls s @ ls_staticToolCalls s @ ls_dynamicToolCalls s"

definition normalizedToolResults :: "loop_step \<Rightarrow> tool_result list" where
  "normalizedToolResults s = ls_toolResults s @ ls_staticToolResults s @ ls_dynamicToolResults s @
     map (\<lambda>c. \<lparr>tr_output = ci_output c, tr_result = ci_result c\<rparr>)
       (filter (\<lambda>c. ci_type c = Some ''tool-result'') (ls_content s))"

definition toolResultPayload :: "tool_result \<Rightarrow> json option" where
  "toolResultPayload r = (case tr_output r of Some v \<Rightarrow> if v = JNull then tr_result r else Some v | None \<Rightarrow> tr_result r)"

definition json_field :: "json option \<Rightarrow> string \<Rightarrow> json option" where
  "json_field v k = (case v of Some (JObj kvs) \<Rightarrow> obj_get kvs k | _ \<Rightarrow> None)"

definition wait_of :: "string \<Rightarrow> string \<Rightarrow> tool_result \<Rightarrow> string option" where
  "wait_of status key r =
     (let v = toolResultPayload r
      in if json_field v ''status'' = Some (JStr status) then as_string (json_field v key) else None)"

definition approvalWaitFromSteps :: "loop_step list \<Rightarrow> string option" where
  "approvalWaitFromSteps steps =
     first_some (map (wait_of ''waiting_for_approval'' ''approvalId'') (concat (map normalizedToolResults steps)))"

definition inputWaitFromSteps :: "loop_step list \<Rightarrow> string option" where
  "inputWaitFromSteps steps =
     first_some (map (wait_of ''waiting_for_input'' ''questionId'') (concat (map normalizedToolResults steps)))"

datatype human_pause = Pause_Approval string | Pause_Input string

definition humanPauseFromSteps :: "loop_step list \<Rightarrow> human_pause option" where
  "humanPauseFromSteps steps =
     (case approvalWaitFromSteps steps of
        Some (c # cs) \<Rightarrow> Some (Pause_Approval (c # cs))
      | _ \<Rightarrow> (case inputWaitFromSteps steps of
                Some (c # cs) \<Rightarrow> Some (Pause_Input (c # cs))
              | _ \<Rightarrow> None))"

definition stepPausesRun :: "loop_step \<Rightarrow> bool" where
  "stepPausesRun s = (humanPauseFromSteps [s] \<noteq> None)"

definition normalizeToDottedToolName :: "string \<Rightarrow> string" where
  "normalizeToDottedToolName name = map (\<lambda>c. if c = CHR ''_'' then CHR ''.'' else c) name"

definition RUN_TERMINATING_TOOL_NAMES :: "string list" where
  "RUN_TERMINATING_TOOL_NAMES = [''message'', ''channel.reply'', ''channel.close'', ''channel.post'',
     ''channel.handoff'', ''channel.ack'', ''channel.pass'']"

definition TERMINATING_STATUSES :: "string list" where
  "TERMINATING_STATUSES = [''passed'', ''acked'', ''acknowledged'', ''handoff_sent'']"

definition stepTerminatesRun :: "loop_step \<Rightarrow> bool" where
  "stepTerminatesRun s =
     (list_ex (\<lambda>c. normalizeToDottedToolName (coalesce (tc_toolName c) []) \<in> set RUN_TERMINATING_TOOL_NAMES)
        (normalizedToolCalls s) \<or>
      list_ex (\<lambda>r. json_field (toolResultPayload r) ''status'' \<in> Some ` JStr ` set TERMINATING_STATUSES)
        (normalizedToolResults s))"

definition stepHasPendingToolCall :: "loop_step \<Rightarrow> bool" where
  "stepHasPendingToolCall s = list_ex (\<lambda>c. tc_providerExecuted c \<noteq> Some True) (normalizedToolCalls s)"

definition stepHasFinalText :: "loop_step \<Rightarrow> bool" where
  "stepHasFinalText s =
     ((trim (coalesce (ls_text s) []) \<noteq> [] \<or>
       list_ex (\<lambda>p. ci_type p = Some ''text'' \<and> trim (coalesce (ci_text p) []) \<noteq> []) (ls_content s)) \<and>
      \<not> stepHasPendingToolCall s)"

section \<open>The stop test\<close>

text \<open>
  What the loop's caller supplies: messages that arrived meanwhile (absent when the caller
  does not load any), a pause found elsewhere, its own stop condition.
\<close>

record loop_env =
  le_interrupts :: "(loop_step \<Rightarrow> model_message list) option"
  le_externalPause :: "human_pause option"
  le_userStop :: "(loop_step list \<Rightarrow> bool) option"

definition readInterrupts :: "loop_env \<Rightarrow> loop_step \<Rightarrow> model_message list" where
  "readInterrupts env s =
     sanitizeModelMessages (case le_interrupts env of None \<Rightarrow> [] | Some load \<Rightarrow> load s)"

text \<open>The pending interrupts are kept until the next step takes them.\<close>

definition hasInterruptsForStep :: "loop_env \<Rightarrow> loop_step \<Rightarrow> model_message list \<Rightarrow> bool \<times> model_message list" where
  "hasInterruptsForStep env s pending =
     (if pending \<noteq> [] then (True, pending)
      else (let loaded = readInterrupts env s in if loaded = [] then (False, pending) else (True, loaded)))"

definition loadInterruptsForStep :: "loop_env \<Rightarrow> loop_step \<Rightarrow> model_message list \<Rightarrow> model_message list \<times> model_message list" where
  "loadInterruptsForStep env s pending = (if pending \<noteq> [] then (pending, []) else (readInterrupts env s, pending))"

definition stopWhen :: "loop_env \<Rightarrow> loop_step list \<Rightarrow> loop_step list \<Rightarrow> model_message list \<Rightarrow> bool \<times> model_message list" where
  "stopWhen env steps infoSteps pending =
     (let completed = steps @ infoSteps in
      if humanPauseFromSteps completed \<noteq> None then (True, pending)
      else if le_externalPause env \<noteq> None then (True, pending)
      else if list_ex stepTerminatesRun completed then (True, pending)
      else case find stepHasFinalText completed of
        Some s \<Rightarrow>
          (if le_interrupts env = None then (True, pending)
           else case hasInterruptsForStep env s pending of (has, pending') \<Rightarrow> (\<not> has, pending'))
      | None \<Rightarrow>
          (case le_userStop env of None \<Rightarrow> (False, pending) | Some f \<Rightarrow> (f infoSteps, pending)))"

text \<open>\<open>same\<close> says that the library passed the loop's own list.\<close>

definition mergeInterruptMessages :: "model_message list \<Rightarrow> model_message list \<Rightarrow> bool \<Rightarrow> model_message list \<Rightarrow> model_message list" where
  "mergeInterruptMessages messages nextMessages same interrupts =
     (if interrupts = [] then messages
      else if same then messages @ interrupts
      else nextMessages @ interrupts)"

datatype prepared = Prep_Keep | Prep_Messages "model_message list" | Prep_Pause human_pause

definition prepareStep ::
  "loop_env \<Rightarrow> nat \<Rightarrow> loop_step list \<Rightarrow> model_message list \<Rightarrow> model_message list \<Rightarrow> bool \<Rightarrow> model_message list
   \<Rightarrow> prepared \<times> model_message list \<times> model_message list" where
  "prepareStep env stepNumber steps messages nextMessages same pending =
     (if stepNumber = 0 then (Prep_Keep, messages, pending)
      else case le_externalPause env of
        Some p \<Rightarrow> (Prep_Pause p, messages, pending)
      | None \<Rightarrow>
          (if steps = [] then (Prep_Keep, messages, pending)
           else case loadInterruptsForStep env (last steps) pending of
             (interrupts, pending') \<Rightarrow>
               if interrupts = [] then (Prep_Keep, messages, pending')
               else (let merged = sanitizeModelMessages (mergeInterruptMessages messages nextMessages same interrupts)
                     in (Prep_Messages merged, merged, pending'))))"

text \<open>After a step: it is recorded, and a pause it reports, or one found elsewhere, is thrown.\<close>

definition onStepFinish :: "loop_env \<Rightarrow> loop_step list \<Rightarrow> loop_step \<Rightarrow> loop_step list \<times> human_pause option" where
  "onStepFinish env steps s = (steps @ [s], or_default (humanPauseFromSteps [s]) (le_externalPause env))"

definition chunkDelta :: "json \<Rightarrow> string" where
  "chunkDelta chunk =
     (case as_string (json_field (Some chunk) ''delta'') of
        Some d \<Rightarrow> d
      | None \<Rightarrow> coalesce (as_string (json_field (Some chunk) ''text'')) [])"

section \<open>Token counts\<close>

lemma obj_get_size [termination_simp]:
  "obj_get kvs k = Some v \<Longrightarrow> size v < Suc (size_list (\<lambda>x. Suc (size (snd x))) kvs)"
  by (induction kvs) (auto simp: obj_get_def split: if_splits)

fun tokenTotal :: "json \<Rightarrow> int" where
  "tokenTotal (JNum n) = (if n > 0 then n else 0)"
| "tokenTotal (JObj kvs) = (case obj_get kvs ''total'' of None \<Rightarrow> 0 | Some v \<Rightarrow> tokenTotal v)"
| "tokenTotal _ = 0"

record token_usage =
  us_inputTokens :: int
  us_outputTokens :: int
  us_totalTokens :: int

definition usage_field :: "json option \<Rightarrow> string \<Rightarrow> int" where
  "usage_field usage k = (case json_field usage k of None \<Rightarrow> 0 | Some v \<Rightarrow> tokenTotal v)"

definition normalizeTokenUsage :: "json option \<Rightarrow> token_usage" where
  "normalizeTokenUsage usage =
     (let i = usage_field usage ''inputTokens''; out = usage_field usage ''outputTokens'';
          total = usage_field usage ''totalTokens''
      in \<lparr>us_inputTokens = i, us_outputTokens = out, us_totalTokens = (if total \<noteq> 0 then total else i + out)\<rparr>)"

fun usage_loop :: "int \<Rightarrow> int \<Rightarrow> json option list \<Rightarrow> token_usage" where
  "usage_loop i out [] = \<lparr>us_inputTokens = i, us_outputTokens = out, us_totalTokens = i + out\<rparr>"
| "usage_loop i out (u # us) =
     (let x = normalizeTokenUsage u
      in usage_loop (if us_inputTokens x > 0 then us_inputTokens x else i) (out + us_outputTokens x) us)"

definition normalizeStepTokenUsage :: "loop_step list \<Rightarrow> token_usage" where
  "normalizeStepTokenUsage steps = usage_loop 0 0 (map ls_usage steps)"

text \<open>What the loop ends with: a pause that it throws, or the usage it reports.\<close>

datatype loop_outcome = End_Pause human_pause | End_Usage "token_usage option"

definition loop_end :: "loop_env \<Rightarrow> loop_step list \<Rightarrow> token_usage option \<Rightarrow> loop_outcome" where
  "loop_end env steps reported =
     (case or_default (humanPauseFromSteps steps) (le_externalPause env) of
        Some p \<Rightarrow> End_Pause p
      | None \<Rightarrow> (let u = normalizeStepTokenUsage steps
                 in End_Usage (if us_totalTokens u > 0 then Some u else reported)))"

end
