(* ===== verification/AgentLoopClaims.thy ===== *)
theory AgentLoopClaims
  imports AgentLoop
begin

text \<open>The properties of the agent loop: paired tool calls, the stop test, token counts.\<close>

section \<open>Paired messages\<close>

text \<open>
  What providers ask of a conversation: the calls of an assistant message have their results
  in the next message, and a tool message has nothing but results of the calls just made.
\<close>

fun paired :: "string set \<Rightarrow> model_message list \<Rightarrow> bool" where
  "paired P [] = True"
| "paired P (m # ms) =
     (if mm_role m = R_Assistant
      then toolCallIdsFor (mm_content m) \<subseteq> toolResultIdsFor (next_message ms) \<and>
           paired (toolCallIdsFor (mm_content m)) ms
      else if mm_role m = R_Tool
      then (case mm_content m of Plain _ \<Rightarrow> False
            | Parts ps \<Rightarrow> ps \<noteq> [] \<and> list_all (keep_result P) ps) \<and> paired {} ms
      else paired {} ms)"

lemma map_filter_keep_call:
  "call_ids (filter (keep_call N) ps) = call_ids ps \<inter> N"
  unfolding call_ids_def
  by (induction ps) (auto simp: List.map_filter_simps split: message_part.splits)

lemma map_filter_keep_result:
  "result_ids (filter (keep_result P) ps) = result_ids ps \<inter> P"
  unfolding result_ids_def
  by (induction ps) (auto simp: List.map_filter_simps split: message_part.splits)

lemma keep_call_all: "list_all (keep_call N) ps \<longleftrightarrow> call_ids ps \<subseteq> N"
  unfolding call_ids_def
  by (induction ps) (auto simp: List.map_filter_simps split: message_part.splits)

lemma result_ids_empty: "filter (keep_result P) ps = [] \<longleftrightarrow> result_ids ps \<inter> P = {}"
  unfolding result_ids_def
  by (induction ps) (auto simp: List.map_filter_simps split: message_part.splits)

lemma paired_mono:
  assumes "paired P ms" "P \<subseteq> Q"
  shows "paired Q ms"
proof (cases ms)
  case (Cons m rest)
  have "keep_result Q p" if "keep_result P p" for p
    using that assms(2) by (cases p) auto
  with assms(1) Cons show ?thesis
    by (auto simp: list_all_iff split: message_content.splits if_splits)
qed simp

lemma sanitizeAssistant_calls:
  assumes "sanitizeAssistantMessage m N = Some x"
  shows "toolCallIdsFor (mm_content x) \<subseteq> N \<and> mm_role x = mm_role m"
  using assms
  by (auto simp: sanitizeAssistantMessage_def toolCallIdsFor_def Let_def keep_call_all map_filter_keep_call
      split: message_content.splits if_splits)

lemma next_results_kept:
  assumes "C \<subseteq> toolResultIdsFor (next_message ms)"
  shows "C \<subseteq> toolResultIdsFor (next_message (sanitize_loop C ms))"
proof (cases "C = {}")
  case False
  with assms obtain m rest ps where m: "ms = m # rest" "mm_role m = R_Tool" "mm_content m = Parts ps"
    by (cases ms) (auto simp: next_message_def toolResultIdsFor_def split: if_splits message_content.splits)
  with assms have sub: "C \<subseteq> result_ids ps" by (simp add: next_message_def toolResultIdsFor_def)
  then have "filter (keep_result C) ps \<noteq> []" using False by (auto simp: result_ids_empty)
  with m False sub show ?thesis
    by (auto simp: sanitizeToolMessage_def Let_def opt_list_def next_message_def toolResultIdsFor_def map_filter_keep_result)
qed simp

lemma sanitize_loop_paired: "paired P (sanitize_loop P ms)"
proof (induction P ms rule: sanitize_loop.induct)
  case (2 P m ms)
  consider "mm_role m = R_Assistant" | "mm_role m = R_Tool" | "mm_role m \<noteq> R_Assistant" "mm_role m \<noteq> R_Tool" by blast
  then show ?case
  proof cases
    case 1
    show ?thesis
    proof (cases "sanitizeAssistantMessage m (toolResultIdsFor (next_message ms))")
      case None
      with 2(1) 1 have "paired {} (sanitize_loop {} ms)" by simp
      with 1 None paired_mono show ?thesis by (fastforce simp: opt_list_def)
    next
      case (Some x)
      note calls = sanitizeAssistant_calls [OF Some]
      with next_results_kept [of "toolCallIdsFor (mm_content x)" ms] 2(1) [OF 1 refl] 1 Some show ?thesis
        by (simp add: opt_list_def)
    qed
  next
    case 2: 2
    with "2.IH"(2) have rest: "paired {} (sanitize_loop {} ms)" by simp
    show ?thesis
    proof (cases "sanitizeToolMessage m P")
      case None
      with 2 rest paired_mono show ?thesis by (fastforce simp: opt_list_def)
    next
      case (Some x)
      obtain ps where ps: "mm_content m = Parts ps"
        using Some by (auto simp: sanitizeToolMessage_def split: message_content.splits)
      then have "mm_content x = Parts (filter (keep_result P) ps)" "filter (keep_result P) ps \<noteq> []" "mm_role x = R_Tool"
        using 2 Some by (auto simp: sanitizeToolMessage_def Let_def split: if_splits)
      with Some 2 rest show ?thesis by (auto simp: opt_list_def list_all_iff)
    qed
  next
    case 3
    with "2.IH"(3) show ?thesis by simp
  qed
qed simp

lemma paired_fixed: "paired P ms \<Longrightarrow> sanitize_loop P ms = ms"
proof (induction P ms rule: paired.induct)
  case (2 P m ms)
  consider "mm_role m = R_Assistant" | "mm_role m = R_Tool" | "mm_role m \<noteq> R_Assistant" "mm_role m \<noteq> R_Tool" by blast
  then show ?case
  proof cases
    case 1
    with "2.prems" have "sanitizeAssistantMessage m (toolResultIdsFor (next_message ms)) = Some m"
      by (auto simp: sanitizeAssistantMessage_def toolCallIdsFor_def Let_def keep_call_all split: message_content.split)
    with 1 "2.prems" "2.IH"(1) show ?thesis by (simp add: opt_list_def)
  next
    case 2: 2
    then obtain p ps where ps: "mm_content m = Parts (p # ps)" "list_all (keep_result P) (p # ps)"
      using "2.prems" by (auto simp: neq_Nil_conv split: message_content.splits)
    then have "P \<noteq> {}" by (cases p) auto
    moreover have "filter (keep_result P) (p # ps) = p # ps" using ps(2) by (simp add: filter_id_conv list_all_iff)
    ultimately have "sanitizeToolMessage m P = Some m"
      using ps(1) by (simp add: sanitizeToolMessage_def Let_def)
    with 2 "2.prems" "2.IH"(2) show ?thesis by (simp add: opt_list_def)
  next
    case 3
    with "2.prems" "2.IH"(3) show ?thesis by simp
  qed
qed simp

lemma sanitize_keeps_others:
  "filter (\<lambda>m. mm_role m \<notin> {R_Assistant, R_Tool}) (sanitize_loop P ms) =
   filter (\<lambda>m. mm_role m \<notin> {R_Assistant, R_Tool}) ms"
proof (induction P ms rule: sanitize_loop.induct)
  case (2 P m ms)
  have "mm_role x = R_Assistant" if "sanitizeAssistantMessage m N = Some x" "mm_role m = R_Assistant" for x N
    using sanitizeAssistant_calls [OF that(1)] that(2) by simp
  moreover have "mm_role x = R_Tool" if "sanitizeToolMessage m P = Some x" "mm_role m = R_Tool" for x
    using that by (auto simp: sanitizeToolMessage_def Let_def split: message_content.splits if_splits)
  ultimately show ?case
    using 2 by (auto simp: opt_list_def Let_def split: option.splits)
qed simp

text \<open>
  C26: Whatever messages it is given, the repair yields a list in which every tool call has
  its result in the next message and every tool message only answers the calls just made;
  it changes nothing exactly when the list is of that shape already, so it is idempotent,
  and it never drops or reorders a system or user message.\<close>
theorem sanitized_messages_pair:
  "paired {} (sanitizeModelMessages ms) \<and>
   (sanitizeModelMessages ms = ms \<longleftrightarrow> paired {} ms) \<and>
   sanitizeModelMessages (sanitizeModelMessages ms) = sanitizeModelMessages ms \<and>
   filter (\<lambda>m. mm_role m \<notin> {R_Assistant, R_Tool}) (sanitizeModelMessages ms) =
     filter (\<lambda>m. mm_role m \<notin> {R_Assistant, R_Tool}) ms"
proof -
  have paired: "paired {} (sanitizeModelMessages ms)"
    unfolding sanitizeModelMessages_def by (rule sanitize_loop_paired)
  then have "sanitizeModelMessages ms = ms \<longleftrightarrow> paired {} ms"
    by (metis paired_fixed sanitizeModelMessages_def)
  then show ?thesis
    using paired paired_fixed sanitize_keeps_others by (simp add: sanitizeModelMessages_def)
qed

section \<open>The stop test\<close>

text \<open>Waiting messages: kept by an earlier test, or loaded now.\<close>

definition waiting :: "loop_env \<Rightarrow> loop_step \<Rightarrow> model_message list \<Rightarrow> model_message list" where
  "waiting env s pending =
     (if le_interrupts env = None then [] else if pending \<noteq> [] then pending else readInterrupts env s)"

lemma stopWhen_result:
  "stopWhen env steps info pending =
     (if humanPauseFromSteps (steps @ info) \<noteq> None \<or> le_externalPause env \<noteq> None \<or> list_ex stepTerminatesRun (steps @ info)
      then (True, pending)
      else case find stepHasFinalText (steps @ info) of
        Some s \<Rightarrow> (waiting env s pending = [], if le_interrupts env = None then pending else waiting env s pending)
      | None \<Rightarrow> (case le_userStop env of None \<Rightarrow> False | Some f \<Rightarrow> f info, pending))"
  by (auto simp: stopWhen_def Let_def waiting_def hasInterruptsForStep_def split: option.split)

text \<open>
  After a step with final text the loop goes on only when messages are waiting, and it
  then hands exactly these to the next step, after the conversation so far, and keeps none
  of them back; unless a pause has come up elsewhere meanwhile.\<close>
theorem final_text_stops_or_delivers:
  assumes "stopWhen env steps info pending = (False, pending')" "find stepHasFinalText (steps @ info) = Some s"
    and "steps \<noteq> []" "le_externalPause env' = None"
  shows "waiting env s pending \<noteq> [] \<and>
    prepareStep env' (Suc n) steps messages nextMessages same pending' =
      (let m = sanitizeModelMessages ((if same then messages else nextMessages) @ waiting env s pending)
       in (Prep_Messages m, m, []))"
proof -
  from assms(1,2) have w: "waiting env s pending \<noteq> []" "pending' = waiting env s pending"
    by (auto simp: stopWhen_result waiting_def split: if_splits)
  then show ?thesis
    using assms(3,4) by (simp add: prepareStep_def loadInterruptsForStep_def mergeInterruptMessages_def Let_def)
qed

definition final_step :: loop_step where
  "final_step = \<lparr>ls_text = Some ''Done.'', ls_toolCalls = [], ls_staticToolCalls = [], ls_dynamicToolCalls = [],
     ls_toolResults = [], ls_staticToolResults = [], ls_dynamicToolResults = [], ls_content = [], ls_usage = None\<rparr>"

definition late_message :: model_message where
  "late_message = \<lparr>mm_role = R_User, mm_content = Plain ''wait''\<rparr>"

definition late_env :: loop_env where
  "late_env = \<lparr>le_interrupts = Some (\<lambda>_. [late_message]), le_externalPause = None, le_userStop = None\<rparr>"

text \<open>A user message that arrives with the final text.\<close>
theorem final_text_stops_or_delivers_witness:
  "\<exists>p. stopWhen late_env [final_step] [] [] = (False, p) \<and>
    prepareStep late_env 1 [final_step] [] [] True p = (Prep_Messages [late_message], [late_message], [])"
proof (intro exI conjI)
  show stop: "stopWhen late_env [final_step] [] [] = (False, [late_message])" by code_simp
  have s: "find stepHasFinalText ([final_step] @ []) = Some final_step" by code_simp
  have w: "waiting late_env final_step [] = [late_message]" by code_simp
  have m: "sanitizeModelMessages [late_message] = [late_message]" by code_simp
  show "prepareStep late_env 1 [final_step] [] [] True [late_message] = (Prep_Messages [late_message], [late_message], [])"
    using final_text_stops_or_delivers [OF stop s, of late_env 0 "[]" "[]" True] w m
    by (simp add: Let_def late_env_def)
qed

text \<open>Every step whose tool reports a wait for a person stops the loop.\<close>

lemma pause_stops:
  "humanPauseFromSteps (steps @ info) \<noteq> None \<Longrightarrow> fst (stopWhen env steps info pending)"
  by (simp add: stopWhen_result)

lemma first_some_Some: "first_some xs = Some y \<Longrightarrow> Some y \<in> set xs"
  by (induction xs rule: first_some.induct) (auto split: option.splits)

lemma first_some_None: "first_some xs = None \<longleftrightarrow> set xs \<subseteq> {None}"
  by (induction xs rule: first_some.induct) (auto split: option.splits)

section \<open>Token counts\<close>

lemma tokenTotal_nonneg: "0 \<le> tokenTotal v"
  by (induction v rule: tokenTotal.induct) (auto split: option.split)

lemma usage_loop_exact:
  "us_outputTokens (usage_loop i out us) = out + sum_list (map (\<lambda>u. usage_field u ''outputTokens'') us) \<and>
   us_inputTokens (usage_loop i out us) =
     (case filter (\<lambda>n. n > 0) (rev (map (\<lambda>u. usage_field u ''inputTokens'') us)) of [] \<Rightarrow> i | n # _ \<Rightarrow> n) \<and>
   us_totalTokens (usage_loop i out us) = us_inputTokens (usage_loop i out us) + us_outputTokens (usage_loop i out us)"
proof (induction us arbitrary: i out)
  case (Cons u us)
  then show ?case
    by (simp add: normalizeTokenUsage_def Let_def filter_append split: list.split)
qed simp

end
