(* ===== verification/ModelErrors.thy ===== *)
theory ModelErrors
  imports AgentLoop
begin

text \<open>
  The classification of errors around a model call (\<open>error-classification.ts\<close>). An error is
  the tree of its own properties as a JSON value, so a chain of causes has no cycle; the
  classes are recognised by their name, which their constructors set.
\<close>

section \<open>Waits for a person\<close>

text \<open>The searches go through the properties \<open>cause\<close> and \<open>error\<close>, depth first.\<close>

fun find_wait :: "string \<Rightarrow> string \<Rightarrow> json \<Rightarrow> string option" where
  "find_wait name key (JObj kvs) =
     (case (obj_get kvs ''name'' = Some (JStr name), as_string (obj_get kvs key)) of
        (True, Some i) \<Rightarrow> Some i
      | _ \<Rightarrow>
          (case (case obj_get kvs ''cause'' of None \<Rightarrow> None | Some v \<Rightarrow> find_wait name key v) of
             Some i \<Rightarrow> Some i
           | None \<Rightarrow> (case obj_get kvs ''error'' of None \<Rightarrow> None | Some v \<Rightarrow> find_wait name key v)))"
| "find_wait name key _ = None"

definition findToolApprovalRequiredError :: "json \<Rightarrow> string option" where
  "findToolApprovalRequiredError = find_wait ''ToolApprovalRequiredError'' ''approvalId''"

definition findToolInputRequiredError :: "json \<Rightarrow> string option" where
  "findToolInputRequiredError = find_wait ''ToolInputRequiredError'' ''questionId''"

section \<open>Provider errors\<close>

fun error_layers :: "json \<Rightarrow> json list" where
  "error_layers (JObj kvs) =
     JObj kvs #
     (case obj_get kvs ''cause'' of None \<Rightarrow> [] | Some v \<Rightarrow> error_layers v) @
     (case obj_get kvs ''error'' of None \<Rightarrow> [] | Some v \<Rightarrow> error_layers v)"
| "error_layers (JArr xs) = [JArr xs]"
| "error_layers _ = []"

datatype classified =
    Model_Not_Found string "string option" string
  | Schema_Too_Large string
  | Context_Length_Exceeded string

definition layer_strings :: "string \<Rightarrow> json list \<Rightarrow> string list" where
  "layer_strings k layers = List.map_filter (\<lambda>l. as_string (json_field (Some l) k)) layers"

definition layer_status :: "json list \<Rightarrow> int option" where
  "layer_status layers =
     first_some (map (\<lambda>l. case json_field (Some l) ''statusCode'' of Some (JNum n) \<Rightarrow> Some n | _ \<Rightarrow> None) layers)"

definition says :: "string list \<Rightarrow> string \<Rightarrow> bool" where
  "says phrases message = list_ex (\<lambda>p. includes_str (to_lower message) (to_lower p)) phrases"

definition CONTEXT_PHRASES :: "string list" where
  "CONTEXT_PHRASES = [''context_length_exceeded'', ''maximum context length'',
     ''reduce the length of the messages'', ''reduce the length of the prompt'']"

definition NOT_FOUND_PHRASES :: "string list" where
  "NOT_FOUND_PHRASES = [''is not found for API version'', ''is not supported for generateContent'']"

definition SCHEMA_PHRASES :: "string list" where
  "SCHEMA_PHRASES = [''too many states for serving'']"

text \<open>The match of \<open>/models\/([^:]+):/\<close> in the url.\<close>

fun url_model :: "string \<Rightarrow> string option" where
  "url_model [] = None"
| "url_model (c # cs) =
     (let rest = drop 7 (c # cs); i = takeWhile (\<lambda>x. x \<noteq> CHR 0x3A) rest
      in if starts_with (c # cs) ''models/'' \<and> i \<noteq> [] \<and> length i < length rest then Some i else url_model cs)"

definition classifyModelError :: "json \<Rightarrow> classified option" where
  "classifyModelError e =
     (let layers = error_layers e;
          message = join_with '' '' (layer_strings ''message'' layers);
          url = (case layer_strings ''url'' layers of [] \<Rightarrow> [] | u # _ \<Rightarrow> u);
          status = layer_status layers;
          names = layer_strings ''name'' layers;
          api = (''AI_APICallError'' \<in> set names \<or> status \<noteq> None);
          known = says (CONTEXT_PHRASES @ SCHEMA_PHRASES @ NOT_FOUND_PHRASES) message;
          code = (''context_length_exceeded'' \<in> set (layer_strings ''code'' layers));
          named = (''ContextLengthExceededError'' \<in> set names)
      in if \<not> api \<and> \<not> known \<and> \<not> code \<and> \<not> named then None
         else if status = Some 404 \<and> says NOT_FOUND_PHRASES message
         then Some (Model_Not_Found (coalesce (url_model url) ''unknown'')
                (if includes_str url ''generativelanguage.googleapis.com'' then Some ''google'' else None) message)
         else if status = Some 400 \<and> says SCHEMA_PHRASES message then Some (Schema_Too_Large message)
         else if named \<or> code \<or> says CONTEXT_PHRASES message then Some (Context_Length_Exceeded message)
         else None)"

definition isContextLengthExceededError :: "json \<Rightarrow> bool" where
  "isContextLengthExceededError e =
     (case e of
        JObj kvs \<Rightarrow> obj_get kvs ''name'' = Some (JStr ''ContextLengthExceededError'') \<or>
          (case classifyModelError e of Some (Context_Length_Exceeded _) \<Rightarrow> True | _ \<Rightarrow> False)
      | _ \<Rightarrow> (case classifyModelError e of Some (Context_Length_Exceeded _) \<Rightarrow> True | _ \<Rightarrow> False))"

text \<open>What \<open>rethrowClassified\<close> throws; the last case is the error itself.\<close>

datatype rethrown =
    Throw_Approval string
  | Throw_Input string
  | Throw_Classified classified
  | Throw_Same json

definition CLASSIFIED_NAMES :: "string list" where
  "CLASSIFIED_NAMES = [''ModelNotFoundError'', ''SchemaTooLargeError'', ''ContextLengthExceededError'']"

definition rethrowClassified :: "json \<Rightarrow> rethrown" where
  "rethrowClassified e =
     (case findToolApprovalRequiredError e of
        Some i \<Rightarrow> Throw_Approval i
      | None \<Rightarrow>
          (case findToolInputRequiredError e of
             Some i \<Rightarrow> Throw_Input i
           | None \<Rightarrow>
               if (case json_field (Some e) ''name'' of Some (JStr n) \<Rightarrow> n \<in> set CLASSIFIED_NAMES | _ \<Rightarrow> False)
               then Throw_Same e
               else case classifyModelError e of Some c \<Rightarrow> Throw_Classified c | None \<Rightarrow> Throw_Same e))"

section \<open>Wrapped errors\<close>

text \<open>\<open>wraps e e'\<close>: \<open>e'\<close> has \<open>e\<close> as its cause at some depth.\<close>

inductive wraps :: "json \<Rightarrow> json \<Rightarrow> bool" where
  wraps_refl: "wraps e e"
| wraps_cause: "wraps e e' \<Longrightarrow> obj_get kvs ''cause'' = Some e' \<Longrightarrow> wraps e (JObj kvs)"

lemma find_wait_wrapped: "wraps e e' \<Longrightarrow> find_wait name key e \<noteq> None \<Longrightarrow> find_wait name key e' \<noteq> None"
  by (induction rule: wraps.induct) (auto split: option.splits bool.splits)

lemma layers_wrapped: "wraps e e' \<Longrightarrow> set (error_layers e) \<subseteq> set (error_layers e')"
  by (induction rule: wraps.induct) auto

lemma rethrow_wait:
  assumes "wraps e e'" "findToolApprovalRequiredError e \<noteq> None"
  shows "\<exists>i. rethrowClassified e' = Throw_Approval i"
proof -
  obtain i where "findToolApprovalRequiredError e' = Some i"
    using find_wait_wrapped [OF assms(1)] assms(2) by (auto simp: findToolApprovalRequiredError_def)
  then show ?thesis by (simp add: rethrowClassified_def)
qed

end
