(* ===== verification/ReplyGuard.thy ===== *)
theory ReplyGuard
  imports AgentLoop
begin

text \<open>
  Two guards on what a run may publish: the detection of mirrored acknowledgements
  (\<open>services/mirror-guard.ts\<close>) and the choice of the tool that ended a run
  (\<open>services/run-reply-guard.ts\<close>).
\<close>

section \<open>Vacuous acknowledgements\<close>

definition isMirrorFragileModel :: "string \<Rightarrow> bool" where
  "isMirrorFragileModel modelId =
     (let i = to_lower modelId in includes_str i ''gemini'' \<and> includes_str i ''flash'')"

definition VACUOUS_ACK_OPENERS :: "string list" where
  "VACUOUS_ACK_OPENERS = [''understood'', ''acknowledged'', ''got it'', ''thanks'', ''thank you'', ''will do'',
     ''noted'', ''i will await'', ''i'' @ [CHR 0x27] @ ''ll await'', ''i will wait'', ''i'' @ [CHR 0x27] @ ''ll wait'',
     ''i am still working'', ''i'' @ [CHR 0x27] @ ''m still working'', ''still working'', ''continuing'']"

definition SUBSTANTIVE_ACTION_VERBS :: "string list" where
  "SUBSTANTIVE_ACTION_VERBS =
     [''sending'', ''send'', ''drafting'', ''draft'', ''drafted'', ''writing'', ''wrote'',
      ''building'', ''built'', ''preparing'', ''prepared'', ''implementing'', ''implemented'',
      ''posting'', ''posted'', ''pushing'', ''pushed'', ''deploying'', ''deployed'',
      ''fixing'', ''fixed'', ''running'', ''ran'', ''reviewing'', ''reviewed'',
      ''deleting'', ''deleted'', ''removing'', ''removed'', ''updating'', ''updated'',
      ''finishing'', ''finishedreply'', ''completing'', ''completed'', ''shipping'', ''shipped'',
      ''addressing'', ''addressed'', ''resolving'', ''resolved'', ''opening'', ''opened'',
      ''merging'', ''merged'', ''closing'', ''closed'', ''starting'', ''started'',
      ''creating'', ''created'', ''investigating'', ''investigated'', ''debugging'', ''debugged'']"

definition back_tick :: char where "back_tick = CHR 0x60"

definition rx_path :: rx where
  "rx_path = Seq (Cls (\<lambda>c. c = CHR ''/'')) (Some_Of (\<lambda>c. \<not> is_ws c))"

definition rx_extension :: rx where
  "rx_extension = seqs [Cls (\<lambda>c. c = CHR ''.''),
     alts (map (\<lambda>n. seqs (replicate n (Cls is_word))) [1, 2, 3, 4, 5]), alts [Word_Bound, End]]"

definition rx_number :: rx where
  "rx_number = seqs [Word_Bound, Cls is_digit, Cls is_digit, Cls is_digit, Many is_digit, Word_Bound]"

definition rx_verb :: "string \<Rightarrow> rx" where
  "rx_verb verb = seqs [Word_Bound, lit verb, Word_Bound]"

definition isVacuousAck :: "string \<Rightarrow> bool" where
  "isVacuousAck body =
     (let trimmed = to_lower (trim body) in
      if trimmed = [] then False
      else if length trimmed > 240 then False
      else if CHR ''?'' \<in> set trimmed then False
      else if includes_str trimmed [back_tick, back_tick, back_tick] \<or> includes_str trimmed ''http://'' \<or>
              includes_str trimmed ''https://'' then False
      else case find (starts_with trimmed) VACUOUS_ACK_OPENERS of
        None \<Rightarrow> False
      | Some opener \<Rightarrow>
          (let residue = drop (length opener) trimmed in
           if residue = [] then True
           else if rx_test rx_path residue \<or> rx_test rx_extension residue then False
           else if rx_test rx_number residue then False
           else \<not> list_ex (\<lambda>verb. rx_test (rx_verb verb) residue) SUBSTANTIVE_ACTION_VERBS))"

section \<open>Mirror chains\<close>

definition is_punctuation :: "char \<Rightarrow> bool" where
  "is_punctuation c = (c \<in> set (back_tick # CHR 0x27 # CHR 0x22 # ''*_~>[]()!?,.;:''))"

text \<open>A run of punctuation becomes one space.\<close>

fun blank_punctuation :: "string \<Rightarrow> string" where
  "blank_punctuation [] = []"
| "blank_punctuation (c # cs) =
     (if is_punctuation c
      then (case cs of d # _ \<Rightarrow> if is_punctuation d then blank_punctuation cs else CHR '' '' # blank_punctuation cs
                     | [] \<Rightarrow> [CHR '' ''])
      else c # blank_punctuation cs)"

text \<open>A mention loses its sign and name.\<close>

fun drop_mentions :: "bool \<Rightarrow> string \<Rightarrow> string" where
  "drop_mentions inside [] = []"
| "drop_mentions inside (c # cs) =
     (if inside \<and> is_word c then drop_mentions True cs
      else if c = CHR ''@'' \<and> (case cs of d # _ \<Rightarrow> is_word d | [] \<Rightarrow> False) then drop_mentions True cs
      else c # drop_mentions False cs)"

fun words_loop :: "string \<Rightarrow> string \<Rightarrow> string list" where
  "words_loop w [] = [rev w]"
| "words_loop w (c # cs) = (if is_ws c then rev w # words_loop [] cs else words_loop (c # w) cs)"

definition tokenize :: "string \<Rightarrow> string list" where
  "tokenize body =
     uniq (filter (\<lambda>t. length t \<ge> 3) (words_loop [] (drop_mentions False (blank_punctuation (to_lower body)))))"

text \<open>The similarity as numerator and denominator.\<close>

definition jaccard :: "string list \<Rightarrow> string list \<Rightarrow> nat \<times> nat" where
  "jaccard a b =
     (if a = [] \<and> b = [] then (1, 1)
      else (let n = length (filter (\<lambda>t. t \<in> set b) a); u = length a + length b - n
            in if u = 0 then (0, 1) else (n, u)))"

datatype mirror_reason = Self_Mirror | Pair_Mirror

record mirror_result =
  mi_triggered :: bool
  mi_score :: "nat \<times> nat"
  mi_reason :: "mirror_reason option"

definition no_mirror :: mirror_result where
  "no_mirror = \<lparr>mi_triggered = False, mi_score = (0, 1), mi_reason = None\<rparr>"

definition detectMirrorChain :: "string \<Rightarrow> (string \<times> string) list \<Rightarrow> string \<Rightarrow> nat \<Rightarrow> mirror_result" where
  "detectMirrorChain candidateBody recentAgentMessages selfMemberId windowSize =
     (let candidate = trim candidateBody;
          window = (if windowSize = 0 then recentAgentMessages
                    else drop (length recentAgentMessages - windowSize) recentAgentMessages) in
      if candidate = [] then no_mirror
      else if \<not> isVacuousAck candidate then no_mirror
      else if length window < windowSize then no_mirror
      else if \<not> list_all (\<lambda>m. isVacuousAck (snd m)) window then no_mirror
      else \<lparr>mi_triggered = True,
             mi_score = (if window = [] then (0, 1) else jaccard (tokenize candidate) (tokenize (snd (last window)))),
             mi_reason = Some (if window \<noteq> [] \<and> fst (last window) = selfMemberId then Self_Mirror else Pair_Mirror)\<rparr>)"

definition shouldSuppressForMirror :: "string \<Rightarrow> (string \<times> string) list \<Rightarrow> string \<Rightarrow> mirror_result" where
  "shouldSuppressForMirror candidateBody recentAgentMessages selfMemberId =
     (if \<not> isVacuousAck candidateBody then no_mirror
      else detectMirrorChain candidateBody recentAgentMessages selfMemberId 3)"

section \<open>The tool that ended a run\<close>

definition readToolName :: "json \<Rightarrow> string option" where
  "readToolName value =
     first_some (map (\<lambda>k. case as_string (json_field (Some value) k) of
         Some (c # cs) \<Rightarrow> Some (normalizeToDottedToolName (c # cs)) | _ \<Rightarrow> None)
       [''toolName'', ''toolId'', ''tool_id''])"

definition readTerminatingToolName :: "json \<Rightarrow> string option" where
  "readTerminatingToolName value =
     (case readToolName value of
        Some name \<Rightarrow> Some name
      | None \<Rightarrow>
          (case as_string (json_field (json_field (Some value) ''output'') ''status'') of
             Some status \<Rightarrow>
               map_of [(''passed'', ''channel.pass''), (''acked'', ''channel.ack''), (''closed'', ''channel.close''),
                       (''acknowledged'', ''channel.ack''), (''handoff_sent'', ''channel.handoff'')] status
           | None \<Rightarrow> None))"

definition collectToolNamesFromList :: "json option \<Rightarrow> string list" where
  "collectToolNamesFromList l =
     (case l of Some (JArr items) \<Rightarrow> List.map_filter readTerminatingToolName items | _ \<Rightarrow> [])"

definition collectFiredToolNames :: "json \<Rightarrow> string list" where
  "collectFiredToolNames result =
     (case result of
        JObj _ \<Rightarrow>
          collectToolNamesFromList (json_field (Some result) ''toolResults'') @
          (case json_field (Some result) ''steps'' of
             Some (JArr steps) \<Rightarrow>
               concat (map (\<lambda>s. concat (map (\<lambda>k. collectToolNamesFromList (json_field (Some s) k))
                 [''toolResults'', ''toolCalls'', ''staticToolResults'', ''staticToolCalls'',
                  ''dynamicToolResults'', ''dynamicToolCalls'', ''content''])) steps)
           | _ \<Rightarrow> [])
      | _ \<Rightarrow> [])"

definition TERMINATOR_PRECEDENCE :: "string list" where
  "TERMINATOR_PRECEDENCE = [''message'', ''channel.reply'', ''channel.close'', ''channel.post'',
     ''channel.handoff'', ''channel.ack'', ''channel.pass'']"

definition pickTerminatingTool :: "string set \<Rightarrow> string option" where
  "pickTerminatingTool names = find (\<lambda>c. c \<in> names) TERMINATOR_PRECEDENCE"

definition findTerminatingTool :: "json \<Rightarrow> string option" where
  "findTerminatingTool result = pickTerminatingTool (set (collectFiredToolNames result))"

definition runUsedThreadPublishingTool :: "json \<Rightarrow> bool" where
  "runUsedThreadPublishingTool result = (findTerminatingTool result \<noteq> None)"

definition findTerminatingToolFromRunSteps :: "json \<Rightarrow> string option" where
  "findTerminatingToolFromRunSteps steps =
     (case steps of
        JArr items \<Rightarrow> pickTerminatingTool (set (List.map_filter readTerminatingToolName
          (filter (\<lambda>s. json_field (Some s) ''status'' \<in> {None, Some (JStr ''ok'')}) items)))
      | _ \<Rightarrow> None)"

definition runUsedChannelPass :: "json \<Rightarrow> bool" where
  "runUsedChannelPass result = (''channel.pass'' \<in> set (collectFiredToolNames result))"

definition SILENT_TERMINATING_TOOLS :: "string list" where
  "SILENT_TERMINATING_TOOLS = [''channel.close'', ''channel.pass'', ''channel.ack'']"

definition json_items :: "json option \<Rightarrow> json list" where
  "json_items l = (case l of Some (JArr items) \<Rightarrow> items | _ \<Rightarrow> [])"

definition stepContainsSilentTerminator :: "json \<Rightarrow> bool" where
  "stepContainsSilentTerminator step =
     list_ex (\<lambda>item. case as_string (json_field (Some item) ''toolName'') of
         Some name \<Rightarrow> normalizeToDottedToolName name \<in> set SILENT_TERMINATING_TOOLS
       | None \<Rightarrow> False)
       (concat (map (\<lambda>k. json_items (json_field (Some step) k))
         [''toolCalls'', ''toolResults'', ''staticToolCalls'', ''dynamicToolCalls'',
          ''staticToolResults'', ''dynamicToolResults'', ''content'']))"

section \<open>Laws\<close>

lemma pick_first:
  "pickTerminatingTool names = Some t \<Longrightarrow> t \<in> names \<and> t \<in> set TERMINATOR_PRECEDENCE"
  by (auto simp: pickTerminatingTool_def find_Some_iff in_set_conv_nth)

lemma find_in_append: "find P (xs @ ys) = (if find P xs = None then find P ys else find P xs)"
  by (induction xs) auto

lemma precedence_split: "TERMINATOR_PRECEDENCE = butlast TERMINATOR_PRECEDENCE @ [''channel.pass'']"
  by (simp add: TERMINATOR_PRECEDENCE_def)

lemma pass_is_last: "''channel.pass'' \<notin> set (butlast TERMINATOR_PRECEDENCE)"
  by code_simp

lemma no_mirror_untriggered [simp]: "\<not> mi_triggered no_mirror"
  by (simp add: no_mirror_def)

lemma mirror_needs_chain:
  "0 < n \<Longrightarrow> mi_triggered (detectMirrorChain body recent self n) \<longleftrightarrow>
   isVacuousAck (trim body) \<and> trim body \<noteq> [] \<and> n \<le> length recent \<and>
   list_all (\<lambda>m. isVacuousAck (snd m)) (drop (length recent - n) recent)"
  by (auto simp: detectMirrorChain_def Let_def)

lemma posting_precedes_pass:
  assumes "findTerminatingTool result = Some ''channel.pass''"
  shows "set (collectFiredToolNames result) \<inter> set (butlast TERMINATOR_PRECEDENCE) = {}"
proof -
  have "find (\<lambda>c. c \<in> set (collectFiredToolNames result)) (butlast TERMINATOR_PRECEDENCE) = None"
  proof (rule ccontr)
    assume "find (\<lambda>c. c \<in> set (collectFiredToolNames result)) (butlast TERMINATOR_PRECEDENCE) \<noteq> None"
    then obtain t where t: "find (\<lambda>c. c \<in> set (collectFiredToolNames result)) (butlast TERMINATOR_PRECEDENCE) = Some t"
      by auto
    then have "findTerminatingTool result = Some t"
      unfolding findTerminatingTool_def pickTerminatingTool_def
      by (subst precedence_split) (simp add: find_in_append)
    moreover have "t \<in> set (butlast TERMINATOR_PRECEDENCE)"
      using t by (auto simp: find_Some_iff)
    ultimately show False using assms pass_is_last by auto
  qed
  then show ?thesis by (auto simp: find_None_iff)
qed

end
