(* ===== verification/Quotas.thy ===== *)
theory Quotas
  imports SqlTable
begin

text \<open>
  The sliding windows behind the wake limits (\<open>services/conversation-quota.ts\<close>): a map from
  keys to the times of their recent uses, pruned when it grows. Times are milliseconds.
\<close>

section \<open>The code\<close>

type_synonym windows = "(string \<times> int list) list"

definition samples :: "windows \<Rightarrow> string \<Rightarrow> int list" where
  "samples ws key = coalesce (kv_get ws key) []"

definition pruneWindows :: "windows \<Rightarrow> int \<Rightarrow> windows" where
  "pruneWindows ws cutoff =
     (if length ws \<le> 1024 then ws
      else filter (\<lambda>(k, ts). ts \<noteq> []) (map (\<lambda>(k, ts). (k, filter (\<lambda>t. t > cutoff) ts)) ws))"

definition recordInWindow :: "windows \<Rightarrow> string \<Rightarrow> nat \<Rightarrow> int \<Rightarrow> int \<Rightarrow> bool \<times> windows" where
  "recordInWindow ws key cap windowMs now =
     (let cutoff = now - windowMs;
          pruned = pruneWindows ws cutoff;
          recent = filter (\<lambda>t. t > cutoff) (samples pruned key)
      in if length recent \<ge> cap then (False, kv_put key recent pruned)
         else (True, kv_put key (recent @ [now]) pruned))"

text \<open>The classes \<open>MentionQuota\<close> and \<open>ChannelReadQuota\<close> have the same body.\<close>

record quota =
  qu_cap :: nat
  qu_windowMs :: int
  qu_windows :: windows

definition consume :: "string \<Rightarrow> int \<Rightarrow> quota \<Rightarrow> bool \<times> quota" where
  "consume key now q =
     (case recordInWindow (qu_windows q) key (qu_cap q) (qu_windowMs q) now of
        (granted, ws) \<Rightarrow> (granted, q\<lparr>qu_windows := ws\<rparr>))"

text \<open>\<open>PairMentionTracker\<close>; its parameter \<open>cap\<close> is never read.\<close>

record pair_tracker =
  pt_windowMs :: int
  pt_windows :: windows

definition evict_pairs :: "windows \<Rightarrow> int \<Rightarrow> windows" where
  "evict_pairs ws windowStart =
     (if length ws > 1024 then filter (\<lambda>(k, ts). ts \<noteq> [] \<and> \<not> last ts < windowStart) ws else ws)"

definition record_pair :: "string \<Rightarrow> int \<Rightarrow> pair_tracker \<Rightarrow> nat \<times> pair_tracker" where
  "record_pair key now p =
     (let windowStart = now - pt_windowMs p;
          kept = filter (\<lambda>t. t \<ge> windowStart) (samples (pt_windows p) key) @ [now]
      in (length kept, p\<lparr>pt_windows := evict_pairs (kv_put key kept (pt_windows p)) windowStart\<rparr>))"

section \<open>Logs with a window\<close>

text \<open>
  What both have in common: a step at a time either records it for its key or not, and what
  is still live at that time is kept for every key. The client compares the log with the full
  history of what was recorded.
\<close>

locale window_log =
  fixes live :: "int \<Rightarrow> int \<Rightarrow> bool"
    and times :: "'s \<Rightarrow> string \<Rightarrow> int list"
    and ok :: "int \<Rightarrow> 's \<Rightarrow> bool"
    and step :: "int \<Rightarrow> string \<Rightarrow> 's \<Rightarrow> bool \<times> 's"
  assumes live_mono: "now \<le> now' \<Longrightarrow> live now' t \<Longrightarrow> live now t"
    and ok_mono: "ok now s \<Longrightarrow> now \<le> now' \<Longrightarrow> ok now' s"
    and step_ok: "ok now s \<Longrightarrow> ok now (snd (step now k s))"
    and step_times: "ok now s \<Longrightarrow> filter (live now) (times (snd (step now k s)) k') =
          filter (live now) (times s k' @ (if fst (step now k s) \<and> k' = k then [now] else []))"
begin

fun run :: "'s \<Rightarrow> (string \<times> int) list \<Rightarrow> (string \<times> int) list \<times> 's" where
  "run s [] = ([], s)"
| "run s ((k, now) # calls) =
     (case step now k s of
        (g, s') \<Rightarrow> (case run s' calls of (gs, s'') \<Rightarrow> ((if g then [(k, now)] else []) @ gs, s'')))"

definition agrees :: "int \<Rightarrow> 's \<Rightarrow> (string \<times> int) list \<Rightarrow> bool" where
  "agrees now s history \<longleftrightarrow>
     ok now s \<and> (\<forall>k. filter (live now) (times s k) = filter (live now) (map snd (filter (\<lambda>h. fst h = k) history)))"

lemma filter_live: "now \<le> now' \<Longrightarrow> filter (live now') (filter (live now) ts) = filter (live now') ts"
  unfolding filter_filter by (rule filter_cong) (auto intro: live_mono)

lemma agrees_later:
  assumes "agrees now s history" "now \<le> now'"
  shows "agrees now' s history"
  using assms ok_mono filter_live [OF assms(2)] unfolding agrees_def by metis

lemma agrees_step:
  assumes "agrees now s history" "now \<le> now'"
  shows "agrees now' (snd (step now' k s)) (history @ (if fst (step now' k s) then [(k, now')] else []))"
proof -
  have a: "agrees now' s history" by (rule agrees_later [OF assms])
  have "filter (live now') (times (snd (step now' k s)) k') =
      filter (live now') (map snd (filter (\<lambda>h. fst h = k')
        (history @ (if fst (step now' k s) then [(k, now')] else []))))" for k'
    using a by (auto simp: agrees_def step_times)
  with a show ?thesis by (auto simp: agrees_def step_ok)
qed

lemma step_history:
  assumes "agrees now s history" "now \<le> now'"
  shows "filter (live now') (times s k) = filter (live now') (map snd (filter (\<lambda>h. fst h = k) history))"
  using agrees_later [OF assms] by (simp add: agrees_def)

end

section \<open>Laws\<close>

definition ws_ok :: "windows \<Rightarrow> bool" where
  "ws_ok ws = distinct (map fst ws)"

lemma samples_put [simp]: "samples (kv_put k v ws) k' = (if k' = k then v else samples ws k')"
  by (simp add: samples_def kv.lookup_put)

lemma kv_get_Cons: "kv_get ((a, b) # t) k = (if a = k then Some b else kv_get t k)"
  by (simp add: kv_get_def)

lemma samples_Cons: "samples ((a, b) # t) k = (if a = k then b else samples t k)"
  by (simp add: samples_def kv_get_Cons)

lemma samples_absent: "k \<notin> fst ` set ws \<Longrightarrow> samples ws k = []"
  using tbl_find_None [of fst k ws] by (simp add: samples_def kv_get_def)

text \<open>Dropping keys of which nothing that satisfies \<open>P\<close> remains loses nothing live.\<close>

lemma samples_keep:
  assumes "ws_ok ws" "\<And>k ts. (k, ts) \<in> set ws \<Longrightarrow> \<not> keep (k, ts) \<Longrightarrow> filter P ts = []"
  shows "filter P (samples (filter keep ws) k) = filter P (samples ws k)"
  using assms
proof (induction ws)
  case (Cons r ws)
  obtain a ts where r: "r = (a, ts)" by force
  have "a \<notin> fst ` set (filter keep ws)" using Cons.prems(1) r by (auto simp: ws_ok_def)
  then have none: "samples (filter keep ws) a = []" by (rule samples_absent)
  have IH: "filter P (samples (filter keep ws) k) = filter P (samples ws k)"
    using Cons by (auto simp: ws_ok_def)
  show ?case
  proof (cases "keep r")
    case True
    with IH r show ?thesis by (simp add: samples_Cons)
  next
    case False
    with r have "filter P ts = []" by (intro Cons.prems(2) [of a]) simp_all
    with IH none False r show ?thesis by (auto simp: samples_Cons)
  qed
qed simp

lemma samples_map: "samples (map (\<lambda>(k, ts). (k, f ts)) ws) k = (if k \<in> fst ` set ws then f (samples ws k) else [])"
  by (induction ws) (auto simp: samples_Cons samples_def kv_get_def)

lemma prune_ok:
  assumes "ws_ok ws"
  shows "ws_ok (pruneWindows ws c)"
proof -
  have "map fst (map (\<lambda>(k, ts). (k, filter (\<lambda>t. t > c) ts)) ws) = map fst ws"
    by (induction ws) auto
  then have "distinct (map fst (map (\<lambda>(k, ts). (k, filter (\<lambda>t. t > c) ts)) ws))"
    using assms by (simp only: ws_ok_def)
  then have "distinct (map fst (filter (\<lambda>(k, ts). ts \<noteq> []) (map (\<lambda>(k, ts). (k, filter (\<lambda>t. t > c) ts)) ws)))"
    by (rule distinct_map_filter)
  with assms show ?thesis unfolding ws_ok_def pruneWindows_def by (simp only: split: if_split) simp
qed

lemma prune_samples:
  assumes "ws_ok ws"
  shows "filter (\<lambda>t. t > c) (samples (pruneWindows ws c) k) = filter (\<lambda>t. t > c) (samples ws k)"
proof (cases "length ws \<le> 1024")
  case False
  let ?m = "map (\<lambda>(k, ts). (k, filter (\<lambda>t. t > c) ts)) ws"
  have "map fst ?m = map fst ws" by (induction ws) auto
  then have m: "ws_ok ?m" using assms by (simp only: ws_ok_def)
  have "filter (\<lambda>t. t > c) (samples (filter (\<lambda>(k, ts). ts \<noteq> []) ?m) k) = filter (\<lambda>t. t > c) (samples ?m k)"
    by (rule samples_keep [OF m]) auto
  also have "\<dots> = filter (\<lambda>t. t > c) (samples ws k)"
    using samples_absent [of k ws] by (auto simp: samples_map)
  finally show ?thesis using False by (simp add: pruneWindows_def)
qed (simp add: pruneWindows_def)

lemma put_ok: "ws_ok ws \<Longrightarrow> ws_ok (kv_put k v ws)"
  by (simp add: ws_ok_def distinct_kv_put)

interpretation wl: window_log "\<lambda>now t. t > now - w" samples "\<lambda>_. ws_ok" "\<lambda>now k ws. recordInWindow ws k cap w now"
  for cap :: nat and w :: int
proof unfold_locales
  show "ws_ok (snd (recordInWindow s k cap w now))" if "ws_ok s" for s k now
    using that by (simp add: recordInWindow_def Let_def prune_ok put_ok)
  show "filter (\<lambda>t. t > now - w) (samples (snd (recordInWindow s k cap w now)) k') =
      filter (\<lambda>t. t > now - w) (samples s k' @ (if fst (recordInWindow s k cap w now) \<and> k' = k then [now] else []))"
    if "ws_ok s" for s k k' now
    using prune_samples [OF that, of "now - w"] by (simp add: recordInWindow_def Let_def)
qed auto

text \<open>For the pairs, time order matters: a key goes when its last time is old.\<close>

definition pairs_ok :: "int \<Rightarrow> windows \<Rightarrow> bool" where
  "pairs_ok now ws = (ws_ok ws \<and> (\<forall>(k, ts) \<in> set ws. sorted ts \<and> (\<forall>t \<in> set ts. t \<le> now)))"

definition pair_step :: "int \<Rightarrow> int \<Rightarrow> string \<Rightarrow> windows \<Rightarrow> bool \<times> windows" where
  "pair_step w now k ws = (True, pt_windows (snd (record_pair k now \<lparr>pt_windowMs = w, pt_windows = ws\<rparr>)))"

lemma samples_mem: "samples ws k \<noteq> [] \<Longrightarrow> (k, samples ws k) \<in> set ws"
  by (induction ws) (auto simp: samples_Cons samples_def kv_get_def)

lemma pairs_ok_put:
  assumes "pairs_ok now ws"
  shows "pairs_ok now (kv_put k (filter P (samples ws k) @ [now]) ws)"
proof -
  have "sorted (samples ws k) \<and> (\<forall>t \<in> set (samples ws k). t \<le> now)"
    using assms samples_mem [of ws k] by (cases "samples ws k = []") (auto simp: pairs_ok_def)
  then have "sorted (filter P (samples ws k) @ [now]) \<and> (\<forall>t \<in> set (filter P (samples ws k) @ [now]). t \<le> now)"
    by (auto simp: sorted_append sorted_wrt_filter)
  with assms show ?thesis
    using set_kv_put [of k "filter P (samples ws k) @ [now]" ws] by (fastforce simp: pairs_ok_def put_ok)
qed

lemma evict_ok: "pairs_ok now ws \<Longrightarrow> pairs_ok now (evict_pairs ws c)"
  by (auto simp: pairs_ok_def ws_ok_def evict_pairs_def distinct_map_filter)

lemma sorted_last: "sorted ts \<Longrightarrow> t \<in> set ts \<Longrightarrow> t \<le> last ts"
  by (induction ts) auto

lemma evict_samples:
  assumes "pairs_ok now ws"
  shows "filter (\<lambda>t. t \<ge> c) (samples (evict_pairs ws c) k) = filter (\<lambda>t. t \<ge> c) (samples ws k)"
proof (cases "length ws > 1024")
  case True
  have "filter (\<lambda>t. t \<ge> c) ts = []" if "(k, ts) \<in> set ws" "\<not> (ts \<noteq> [] \<and> \<not> last ts < c)" for k ts
    using assms that sorted_last [of ts] by (fastforce simp: pairs_ok_def filter_empty_conv)
  then have "filter (\<lambda>t. t \<ge> c) (samples (filter (\<lambda>(k, ts). ts \<noteq> [] \<and> \<not> last ts < c) ws) k) =
      filter (\<lambda>t. t \<ge> c) (samples ws k)"
    using assms by (intro samples_keep) (auto simp: pairs_ok_def)
  with True show ?thesis by (simp add: evict_pairs_def)
qed (simp add: evict_pairs_def)

interpretation pl: window_log "\<lambda>now t. t \<ge> now - w" samples pairs_ok "pair_step w"
  for w :: int
proof unfold_locales
  show "pairs_ok now' s" if "pairs_ok now s" "now \<le> now'" for now now' s
    using that by (fastforce simp: pairs_ok_def)
  show "pairs_ok now (snd (pair_step w now k s))" if "pairs_ok now s" for now k s
    using that by (simp add: pair_step_def record_pair_def Let_def evict_ok pairs_ok_put)
  show "filter (\<lambda>t. t \<ge> now - w) (samples (snd (pair_step w now k s)) k') =
      filter (\<lambda>t. t \<ge> now - w) (samples s k' @ (if fst (pair_step w now k s) \<and> k' = k then [now] else []))"
    if "pairs_ok now s" for now k k' s
    using evict_samples [OF pairs_ok_put [OF that, of k "\<lambda>t. t \<ge> now - w"], of "now - w" k']
    by (simp add: pair_step_def record_pair_def Let_def)
qed auto

section \<open>The windows are exact\<close>

text \<open>The reference: a use is granted when fewer than the cap of the granted ones lie in its window.\<close>

fun sliding :: "nat \<Rightarrow> int \<Rightarrow> (string \<times> int) list \<Rightarrow> (string \<times> int) list \<Rightarrow> (string \<times> int) list" where
  "sliding cap w hist [] = []"
| "sliding cap w hist ((k, now) # calls) =
     (if length (filter (\<lambda>h. fst h = k \<and> snd h > now - w) hist) < cap
      then (k, now) # sliding cap w (hist @ [(k, now)]) calls
      else sliding cap w hist calls)"

fun consume_all :: "(string \<times> int) list \<Rightarrow> quota \<Rightarrow> (string \<times> int) list \<times> quota" where
  "consume_all [] q = ([], q)"
| "consume_all ((k, now) # calls) q =
     (case consume k now q of
        (granted, q') \<Rightarrow> (case consume_all calls q' of
           (gs, q'') \<Rightarrow> ((if granted then [(k, now)] else []) @ gs, q'')))"

lemma filter_map_snd: "length (filter P (map snd (filter (\<lambda>h. fst h = k) hs))) = length (filter (\<lambda>h. fst h = k \<and> P (snd h)) hs)"
  by (induction hs) auto

lemma consume_granted:
  assumes "wl.agrees w now (qu_windows q) hist" "w = qu_windowMs q" "now \<le> now'"
  shows "fst (consume k now' q) \<longleftrightarrow> length (filter (\<lambda>h. fst h = k \<and> snd h > now' - w) hist) < qu_cap q"
proof -
  have ok: "ws_ok (qu_windows q)" using assms(1) by (simp add: wl.agrees_def)
  have "filter (\<lambda>t. t > now' - w) (samples (pruneWindows (qu_windows q) (now' - w)) k) =
      filter (\<lambda>t. t > now' - w) (map snd (filter (\<lambda>h. fst h = k) hist))"
    using prune_samples [OF ok] wl.step_history [OF assms(1,3)] by simp
  then show ?thesis
    using filter_map_snd [of "\<lambda>t. t > now' - w" k hist] assms(2)
    by (simp add: consume_def recordInWindow_def Let_def not_le)
qed

lemma consume_all_sliding:
  assumes "wl.agrees w now (qu_windows q) hist" "w = qu_windowMs q" "sorted (now # map snd calls)"
  shows "fst (consume_all calls q) = sliding (qu_cap q) w hist calls"
  using assms
proof (induction calls arbitrary: now q hist)
  case (Cons c calls)
  obtain k now' where c: "c = (k, now')" by force
  obtain g q' where q': "consume k now' q = (g, q')" by force
  have le: "now \<le> now'" using Cons.prems(3) c by simp
  have same: "qu_cap q' = qu_cap q" "qu_windowMs q' = qu_windowMs q" "qu_windows q' = snd (recordInWindow (qu_windows q) k (qu_cap q) w now')"
    "g = fst (recordInWindow (qu_windows q) k (qu_cap q) w now')"
    using q' Cons.prems(2) by (auto simp: consume_def split: prod.splits)
  have "wl.agrees w now' (qu_windows q') (hist @ (if g then [(k, now')] else []))"
    using wl.agrees_step [OF Cons.prems(1) le, where cap = "qu_cap q" and k = k] same by simp
  from Cons.IH [OF this] have "fst (consume_all calls q') = sliding (qu_cap q) w (hist @ (if g then [(k, now')] else [])) calls"
    using same Cons.prems(2,3) c by simp
  then show ?case
    using consume_granted [OF Cons.prems(1,2) le, of k] q' c
    by (cases "consume_all calls q'") simp
qed simp

definition within_cap :: "nat \<Rightarrow> int \<Rightarrow> (string \<times> int) list \<Rightarrow> bool" where
  "within_cap cap w hist = (\<forall>(k :: string) s. length (filter (\<lambda>h. fst h = k \<and> s < snd h \<and> snd h \<le> s + w) hist) \<le> cap)"

lemma within_cap_snoc:
  assumes "within_cap cap w hist" "length (filter (\<lambda>h. fst h = k \<and> snd h > now - w) hist) < cap"
  shows "within_cap cap w (hist @ [(k, now)])"
  unfolding within_cap_def
proof (intro allI)
  fix k' s
  let ?in = "\<lambda>h :: string \<times> int. fst h = k' \<and> s < snd h \<and> snd h \<le> s + w"
  show "length (filter ?in (hist @ [(k, now)])) \<le> cap"
  proof (cases "?in (k, now)")
    case True
    have "length (filter ?in hist) \<le> length (filter (\<lambda>h. fst h = k \<and> snd h > now - w) hist)"
      using True by (induction hist) auto
    with True assms(2) show ?thesis by simp
  next
    case False
    with assms(1) show ?thesis by (auto simp: within_cap_def)
  qed
qed

lemma sliding_within_cap: "within_cap cap w hist \<Longrightarrow> within_cap cap w (hist @ sliding cap w hist calls)"
proof (induction cap w hist calls rule: sliding.induct)
  case (2 cap w hist k now calls)
  then show ?case using within_cap_snoc [of cap w hist k now] by auto
qed simp

lemma record_pair_count:
  assumes "pl.agrees w now (pt_windows p) hist" "w = pt_windowMs p" "now \<le> now'"
  shows "fst (record_pair k now' p) = Suc (length (filter (\<lambda>h. fst h = k \<and> snd h \<ge> now' - w) hist))"
  using pl.step_history [OF assms(1,3), of k] filter_map_snd [of "\<lambda>t. t \<ge> now' - w" k hist] assms(2)
  by (simp add: record_pair_def Let_def)

text \<open>
  C25: For calls in time order a quota grants exactly what the reference grants, whatever it
  pruned, and in no interval as long as its window does a key get more than its cap.\<close>
theorem quota_sliding_window:
  assumes "sorted (map snd calls)" "qu_windows q = []"
  shows "fst (consume_all calls q) = sliding (qu_cap q) (qu_windowMs q) [] calls \<and>
    within_cap (qu_cap q) (qu_windowMs q) (fst (consume_all calls q))"
proof -
  obtain now where "sorted (now # map snd calls)" using assms(1) by (cases calls) auto
  moreover have "wl.agrees (qu_windowMs q) now (qu_windows q) []"
    using assms(2) by (simp add: wl.agrees_def ws_ok_def samples_def kv_get_def)
  ultimately have "fst (consume_all calls q) = sliding (qu_cap q) (qu_windowMs q) [] calls"
    using consume_all_sliding by blast
  moreover have "within_cap (qu_cap q) (qu_windowMs q) []" by (simp add: within_cap_def)
  ultimately show ?thesis using sliding_within_cap by (metis append_Nil)
qed

definition mention_quota :: quota where
  "mention_quota = \<lparr>qu_cap = 2, qu_windowMs = 60, qu_windows = []\<rparr>"

text \<open>Two uses, a refusal, and a grant once the first use has left the window.\<close>
theorem quota_sliding_window_witness:
  "fst (consume_all [(''a'', 0), (''a'', 10), (''a'', 59), (''a'', 60)] mention_quota) =
     [(''a'', 0), (''a'', 10), (''a'', 60)]"
proof -
  have "fst (consume_all [(''a'', 0), (''a'', 10), (''a'', 59), (''a'', 60)] mention_quota) =
      sliding (qu_cap mention_quota) (qu_windowMs mention_quota) [] [(''a'', 0), (''a'', 10), (''a'', 59), (''a'', 60)]"
    using quota_sliding_window [of "[(''a'', 0), (''a'', 10), (''a'', 59), (''a'', 60)]" mention_quota]
    by (simp add: mention_quota_def)
  also have "\<dots> = [(''a'', 0), (''a'', 10), (''a'', 60)]" by (simp add: mention_quota_def)
  finally show ?thesis .
qed

end
