(* ===== verification/Mentions.thy ===== *)
theory Mentions
  imports Conversations JsValues SqlTable
begin

text \<open>
  Mentions in message texts (\<open>shared/src/mentions.ts\<close>, \<open>services/mention-resolver.ts\<close>): the
  handles of the members with the aliases of their bare names, the scan of a text, and the
  members it addresses.
\<close>

record conv_member =
  cm_id :: string
  cm_org :: string
  cm_name :: string
  cm_kind :: member_kind
  cm_retired :: bool

section \<open>Handles\<close>

definition normalizeMentionHandle :: "string \<Rightarrow> string" where
  "normalizeMentionHandle value = to_lower (trim value)"

definition trim_end :: "string \<Rightarrow> string" where
  "trim_end s = rev (dropWhile is_ws (rev s))"

text \<open>
  \<open>replace(/\s*\([^)]*\)\s*$/, '').trim()\<close>: the match ends the text and starts at the first
  opening parenthesis after the last closing one but its own.
\<close>

definition stripMentionSuffix :: "string \<Rightarrow> string" where
  "stripMentionSuffix name =
     (let t = trim_end name; body = butlast t;
          tail = rev (takeWhile (\<lambda>c. c \<noteq> CHR '')'') (rev body));
          head = take (length body - length tail) body
      in if t \<noteq> [] \<and> last t = CHR '')'' \<and> CHR ''('' \<in> set tail
         then trim (head @ takeWhile (\<lambda>c. c \<noteq> CHR ''('') tail)
         else trim name)"

definition answers_to :: "string \<Rightarrow> conv_member \<Rightarrow> bool" where
  "answers_to key m = (to_lower (cm_name m) = key \<or> to_lower (stripMentionSuffix (cm_name m)) = key)"

definition base_owners :: "conv_member list \<Rightarrow> string \<Rightarrow> string list" where
  "base_owners members key = (if key = [] then [] else uniq (map cm_id (filter (answers_to key) members)))"

definition alias_of :: "conv_member list \<Rightarrow> conv_member \<Rightarrow> string option" where
  "alias_of members m =
     (let stripped = stripMentionSuffix (cm_name m) in
      if stripped \<noteq> [] \<and> to_lower stripped \<noteq> to_lower (cm_name m) \<and>
         base_owners members (to_lower stripped) = [cm_id m]
      then Some stripped else None)"

definition buildMemberMentionEntries :: "conv_member list \<Rightarrow> (conv_member \<Rightarrow> string) \<Rightarrow> (string \<times> string) list" where
  "buildMemberMentionEntries members valueOf =
     concat (map (\<lambda>m. [(cm_id m, valueOf m), (cm_name m, valueOf m)] @
       (case alias_of members m of Some a \<Rightarrow> [(a, valueOf m)] | None \<Rightarrow> [])) members)"

type_synonym mention_registry = "(string \<times> string) list"

definition buildMentionHandleRegistry :: "(string \<times> string) list \<Rightarrow> mention_registry" where
  "buildMentionHandleRegistry entries =
     fold (\<lambda>(h, v) m. kv_put (normalizeMentionHandle h) v m) entries []"

definition sortedHandles :: "mention_registry \<Rightarrow> string list" where
  "sortedHandles reg = sort_cmp (\<lambda>a b. int (length b) - int (length a)) (map fst reg)"

section \<open>The scan\<close>

text \<open>What follows each sign that starts the text or comes after neither a sign nor a word character.\<close>

fun mention_tails :: "bool \<Rightarrow> string \<Rightarrow> string list" where
  "mention_tails start [] = []"
| "mention_tails start (c # cs) =
     (if c = CHR ''@'' \<and> start then [to_lower cs] else []) @
     mention_tails (\<not> (c = CHR ''@'' \<or> is_word c)) cs"

definition handle_at :: "string \<Rightarrow> string \<Rightarrow> bool" where
  "handle_at remaining handle =
     (starts_with remaining handle \<and>
      (case drop (length handle) remaining of [] \<Rightarrow> True | c # _ \<Rightarrow> \<not> is_word c))"

datatype mention_hit = Hit_All | Hit_Value string

definition scan_at :: "mention_registry \<Rightarrow> bool \<Rightarrow> bool \<Rightarrow> string \<Rightarrow> mention_hit option" where
  "scan_at reg allowAll skipAllInDm remaining =
     (if allowAll \<and> handle_at remaining ''all''
      then (if skipAllInDm then None else Some Hit_All)
      else (case find (handle_at remaining) (sortedHandles reg) of
              None \<Rightarrow> None
            | Some handle \<Rightarrow> map_option Hit_Value (kv_get reg handle)))"

definition scanMentionsInContent :: "string \<Rightarrow> mention_registry \<Rightarrow> bool \<Rightarrow> bool \<Rightarrow> mention_hit list" where
  "scanMentionsInContent content reg allowAll skipAllInDm =
     List.map_filter (scan_at reg allowAll skipAllInDm) (mention_tails True content)"

section \<open>Addressees\<close>

definition hit_values :: "mention_hit list \<Rightarrow> string list" where
  "hit_values hits = List.map_filter (\<lambda>h. case h of Hit_Value v \<Rightarrow> Some v | Hit_All \<Rightarrow> None) hits"

definition resolveAllMentionIds :: "conv_member list \<Rightarrow> string list option \<Rightarrow> string list" where
  "resolveAllMentionIds members channelMembers =
     (case channelMembers of
        Some (i # is) \<Rightarrow> i # is
      | _ \<Rightarrow> map cm_id members)"

text \<open>\<open>members\<close> is the roster of the organization, \<open>channelMembers\<close> that of the channel, if any.\<close>

definition resolveMentionIds ::
  "conv_member list \<Rightarrow> string \<Rightarrow> string list option \<Rightarrow> member_kind \<Rightarrow> string list \<Rightarrow> string list" where
  "resolveMentionIds members content channelMembers senderKind explicitMentionIds =
     (let reg = buildMentionHandleRegistry (buildMemberMentionEntries members cm_id);
          hits = scanMentionsInContent content reg (senderKind \<noteq> Agent) False
      in uniq (explicitMentionIds @
           (if Hit_All \<in> set hits then resolveAllMentionIds members channelMembers else []) @
           hit_values hits))"

definition resolveMentionNames :: "conv_member list \<Rightarrow> string \<Rightarrow> bool \<Rightarrow> string list" where
  "resolveMentionNames members content inDm =
     (let reg = buildMentionHandleRegistry (buildMemberMentionEntries members cm_name);
          hits = scanMentionsInContent content reg True inDm
      in uniq (map (\<lambda>h. case h of Hit_Value v \<Rightarrow> v | Hit_All \<Rightarrow> ''all'') hits))"

definition inferExplicitMentionIds ::
  "conv_member list \<Rightarrow> string \<Rightarrow> string list option \<Rightarrow> member_kind \<Rightarrow> string list \<Rightarrow> string list" where
  "inferExplicitMentionIds members content channelMembers senderKind mentions =
     filter (\<lambda>i. i \<notin> set (resolveMentionIds members content channelMembers senderKind [])) mentions"

section \<open>What a handle means\<close>

definition means :: "conv_member list \<Rightarrow> string \<Rightarrow> conv_member \<Rightarrow> bool" where
  "means members h m =
     (m \<in> set members \<and>
      (normalizeMentionHandle (cm_id m) = h \<or> normalizeMentionHandle (cm_name m) = h \<or>
       (\<exists>a. alias_of members m = Some a \<and> normalizeMentionHandle a = h)))"

lemma entries_mean:
  "(h, v) \<in> set (buildMemberMentionEntries members f) \<longleftrightarrow>
   (\<exists>m \<in> set members. v = f m \<and> (h = cm_id m \<or> h = cm_name m \<or> alias_of members m = Some h))"
proof -
  have "(h, v) \<in> set ([(cm_id m, f m), (cm_name m, f m)] @ (case alias_of members m of Some a \<Rightarrow> [(a, f m)] | None \<Rightarrow> []))
      \<longleftrightarrow> v = f m \<and> (h = cm_id m \<or> h = cm_name m \<or> alias_of members m = Some h)" for m
    by (cases "alias_of members m") auto
  then show ?thesis unfolding buildMemberMentionEntries_def by simp
qed

lemma registry_entry:
  assumes "kv_get (fold (\<lambda>(h, v) m. kv_put (normalizeMentionHandle h) v m) entries reg) k = Some v"
  shows "kv_get reg k = Some v \<or> (\<exists>h. (h, v) \<in> set entries \<and> normalizeMentionHandle h = k)"
  using assms
proof (induction entries arbitrary: reg)
  case (Cons e entries)
  obtain h w where e: "e = (h, w)" by force
  with Cons.IH [of "kv_put (normalizeMentionHandle h) w reg"] Cons.prems show ?case
    by (auto simp: kv.lookup_put split: if_splits)
qed simp

lemma registry_means:
  assumes "kv_get (buildMentionHandleRegistry (buildMemberMentionEntries members f)) k = Some v"
  shows "\<exists>m. means members k m \<and> v = f m"
  using registry_entry [of "buildMemberMentionEntries members f" "[]" k v] assms
  by (auto simp: buildMentionHandleRegistry_def entries_mean means_def kv_get_def)

text \<open>An alias belongs to the only member that answers to it.\<close>

lemma alias_unique:
  assumes "alias_of members m = Some a" "m' \<in> set members" "answers_to (to_lower a) m'"
  shows "cm_id m' = cm_id m"
proof -
  have "base_owners members (to_lower a) = [cm_id m]"
    using assms(1) by (auto simp: alias_of_def Let_def split: if_splits)
  then have "uniq (map cm_id (filter (answers_to (to_lower a)) members)) = [cm_id m]"
    by (simp add: base_owners_def split: if_splits)
  moreover have "cm_id m' \<in> set (uniq (map cm_id (filter (answers_to (to_lower a)) members)))"
    using assms(2,3) by simp
  ultimately show ?thesis by (simp only: list.set) simp
qed

lemma trim_trim [simp]: "trim (trim s) = trim s"
proof -
  let ?a = "dropWhile is_ws s"
  let ?b = "rev (dropWhile is_ws (rev ?a))"
  have "dropWhile is_ws ?b = ?b"
  proof (cases "?b")
    case (Cons c cs)
    have "?a = ?b @ rev (takeWhile is_ws (rev ?a))"
      by (metis rev_append rev_rev_ident takeWhile_dropWhile_id)
    then have "?a \<noteq> []" "hd ?a = c" using Cons by (metis append_Cons list.discI, metis append_Cons list.sel(1))
    then have "\<not> is_ws c" by (metis hd_dropWhile)
    then show ?thesis unfolding Cons by simp
  next
    case Nil
    then show ?thesis by (simp only: dropWhile.simps)
  qed
  then show ?thesis by (simp add: trim_def dropWhile_idem)
qed

lemma strip_trimmed: "trim (stripMentionSuffix name) = stripMentionSuffix name"
  by (simp add: stripMentionSuffix_def Let_def)

lemma alias_normal:
  assumes "alias_of members m = Some a"
  shows "normalizeMentionHandle a = to_lower a \<and> a = stripMentionSuffix (cm_name m)"
  using assms strip_trimmed [of "cm_name m"]
  by (auto simp: alias_of_def Let_def normalizeMentionHandle_def split: if_splits)

lemma scan_mem:
  "hit \<in> set (scanMentionsInContent content reg allowAll skip) \<longleftrightarrow>
   (\<exists>tail \<in> set (mention_tails True content). scan_at reg allowAll skip tail = Some hit)"
  by (auto simp: scanMentionsInContent_def map_filter_def image_iff)

lemma scan_at_value:
  assumes "scan_at reg allowAll skip tail = Some (Hit_Value v)"
  shows "\<exists>h. handle_at tail h \<and> kv_get reg h = Some v"
  using assms by (auto simp: scan_at_def find_Some_iff split: if_splits option.splits)

lemma scan_value:
  assumes "Hit_Value v \<in> set (scanMentionsInContent content reg allowAll skip)"
  shows "\<exists>tail \<in> set (mention_tails True content). \<exists>h. handle_at tail h \<and> kv_get reg h = Some v"
  using assms scan_at_value unfolding scan_mem by blast

lemma scan_all:
  assumes "Hit_All \<in> set (scanMentionsInContent content reg allowAll skip)"
  shows "allowAll \<and> \<not> skip \<and> (\<exists>tail \<in> set (mention_tails True content). handle_at tail ''all'')"
  using assms unfolding scan_mem
  by (auto simp: scan_at_def split: if_splits option.splits)

section \<open>Properties\<close>

text \<open>
  A text addresses, beside the members named explicitly, only those of the @all of a
  sender that is no agent, and members whose id or name follows a sign; by a name without
  its suffix only the one member that answers to it.\<close>
theorem mentions_sound:
  assumes "x \<in> set (resolveMentionIds members content channelMembers senderKind explicit)" "x \<notin> set explicit"
  shows "(\<exists>tail \<in> set (mention_tails True content).
      senderKind \<noteq> Agent \<and> handle_at tail ''all'' \<and> x \<in> set (resolveAllMentionIds members channelMembers)) \<or>
    (\<exists>tail \<in> set (mention_tails True content). \<exists>h. handle_at tail h \<and>
      (\<exists>m \<in> set members. x = cm_id m \<and>
        (h = normalizeMentionHandle (cm_id m) \<or> h = normalizeMentionHandle (cm_name m) \<or>
         h = to_lower (stripMentionSuffix (cm_name m)) \<and>
         (\<forall>m' \<in> set members. answers_to h m' \<longrightarrow> cm_id m' = cm_id m))))"
proof -
  let ?reg = "buildMentionHandleRegistry (buildMemberMentionEntries members cm_id)"
  let ?hits = "scanMentionsInContent content ?reg (senderKind \<noteq> Agent) False"
  consider "Hit_All \<in> set ?hits" "x \<in> set (resolveAllMentionIds members channelMembers)" | "Hit_Value x \<in> set ?hits"
    using assms by (fastforce simp: resolveMentionIds_def Let_def hit_values_def map_filter_def split: if_splits mention_hit.splits)
  then show ?thesis
  proof cases
    case 1
    with scan_all show ?thesis by blast
  next
    case 2
    then obtain tail h where t: "tail \<in> set (mention_tails True content)" "handle_at tail h" "kv_get ?reg h = Some x"
      using scan_value by blast
    then obtain m where m: "means members h m" "x = cm_id m" using registry_means by blast
    have "h = to_lower (stripMentionSuffix (cm_name m)) \<and> (\<forall>m' \<in> set members. answers_to h m' \<longrightarrow> cm_id m' = cm_id m)"
      if "alias_of members m = Some a" "normalizeMentionHandle a = h" for a
      using alias_unique [OF that(1)] alias_normal [OF that(1)] that(2) by auto
    with t m show ?thesis unfolding means_def by blast
  qed
qed

definition layla :: conv_member where
  "layla = \<lparr>cm_id = ''m1'', cm_org = ''o'', cm_name = ''Layla Reds ( OSINT )'', cm_kind = Agent, cm_retired = False\<rparr>"

definition omar :: conv_member where
  "omar = \<lparr>cm_id = ''m2'', cm_org = ''o'', cm_name = ''Omar'', cm_kind = Agent, cm_retired = False\<rparr>"

text \<open>The bare name reaches the member whose name has a suffix.\<close>
theorem mentions_sound_witness:
  "resolveMentionIds [layla, omar] ''hi @Layla Reds!'' None Human [] = [''m1''] \<and>
   (\<exists>tail \<in> set (mention_tails True ''hi @Layla Reds!''). \<exists>h. handle_at tail h \<and> h = ''layla reds'')"
proof
  show r: "resolveMentionIds [layla, omar] ''hi @Layla Reds!'' None Human [] = [''m1'']" by code_simp
  have nall: "\<not> (\<exists>tail \<in> set (mention_tails True ''hi @Layla Reds!''). handle_at tail ''all'')" by code_simp
  have "''m1'' \<in> set (resolveMentionIds [layla, omar] ''hi @Layla Reds!'' None Human [])" "''m1'' \<notin> set []"
    using r by simp_all
  from mentions_sound [OF this] nall obtain tail h m where "tail \<in> set (mention_tails True ''hi @Layla Reds!'')"
    "handle_at tail h" "m \<in> {layla, omar}" "''m1'' = cm_id m"
    "h = normalizeMentionHandle (cm_id m) \<or> h = normalizeMentionHandle (cm_name m) \<or> h = to_lower (stripMentionSuffix (cm_name m))"
    by auto
  moreover have "mention_tails True ''hi @Layla Reds!'' = [''layla reds!'']" by code_simp
  moreover have "normalizeMentionHandle (cm_id layla) = ''m1''" "normalizeMentionHandle (cm_name layla) = ''layla reds ( osint )''"
    "to_lower (stripMentionSuffix (cm_name layla)) = ''layla reds''" by code_simp+
  moreover have "\<not> handle_at ''layla reds!'' ''m1''" "\<not> handle_at ''layla reds!'' ''layla reds ( osint )''" by code_simp+
  moreover have "cm_id omar \<noteq> ''m1''" by (simp add: omar_def)
  ultimately show "\<exists>tail \<in> set (mention_tails True ''hi @Layla Reds!''). \<exists>h. handle_at tail h \<and> h = ''layla reds''"
    by auto
qed

text \<open>The owners of an alias are looked for among names only: it can hide another member's id.\<close>

lemma alias_hides_id:
  "resolveMentionIds
     [\<lparr>cm_id = ''sam'', cm_org = ''o'', cm_name = ''Samira'', cm_kind = Agent, cm_retired = False\<rparr>,
      \<lparr>cm_id = ''m9'', cm_org = ''o'', cm_name = ''Sam ( Ops )'', cm_kind = Agent, cm_retired = False\<rparr>]
     ''@sam please'' None Human [] = [''m9'']"
  by code_simp

end
