(* ===== verification/MessageStore.thy ===== *)
theory MessageStore
  imports Mentions
begin

text \<open>
  The tables behind conversations (\<open>runtime-core/src/repositories\<close>: \<open>channels.ts\<close>,
  \<open>threads.ts\<close>, \<open>messages.ts\<close>, \<open>message-mentions.ts\<close>, \<open>attachments.ts\<close>, \<open>common.ts\<close>) and
  the cursors of their lists (\<open>shared/src/cursor.ts\<close>). Times are milliseconds. A message
  leaves out the reasoning text and the token counts, which are only carried along, and has
  its tool calls by name; the random id of a mention is left out as well.
\<close>

section \<open>Rows\<close>

datatype channel_kind = Ch_General | Ch_Group | Ch_Dm | Ch_Task_Run | Ch_Self

datatype member_mode = Md_Active | Md_Passive | Md_Muted | Md_Temp_Disable

datatype message_kind = Mk_Human | Mk_Agent | Mk_System

record channel_row =
  ch_id :: string
  ch_org :: string
  ch_name :: string
  ch_kind :: channel_kind
  ch_topic :: string
  ch_parent :: "string option"
  ch_createdAt :: int
  ch_archivedAt :: "int option"

record channel = channel_row +
  ch_memberIds :: "string list"

record thread_row =
  th_id :: string
  th_org :: string
  th_channel :: "string option"
  th_title :: string
  th_createdAt :: int

record thread = thread_row +
  th_memberIds :: "string list"

record message =
  ms_id :: string
  ms_org :: string
  ms_thread :: string
  ms_channel :: "string option"
  ms_parent :: "string option"
  ms_sender :: string
  ms_senderKind :: member_kind
  ms_kind :: message_kind
  ms_content :: string
  ms_mentions :: "string list"
  ms_mentionNames :: "string list option"
  ms_toolCalls :: "string list"
  ms_attachments :: "string list"
  ms_metadata :: "(string \<times> json) list"
  ms_clientId :: "string option"
  ms_createdAt :: int
  ms_editedAt :: "int option"
  ms_deletedAt :: "int option"

record mention_row =
  mn_message :: string
  mn_member :: string
  mn_createdAt :: int

record attachment =
  at_id :: string
  at_org :: string
  at_sizeBytes :: int
  at_filename :: string

record conv_db =
  db_orgs :: "string list"
  db_members :: "conv_member list"
  db_channels :: "channel_row list"
  db_channel_members :: "(string \<times> string \<times> string) list"
  db_modes :: "((string \<times> string \<times> string) \<times> member_mode) list"
  db_threads :: "thread_row list"
  db_thread_members :: "(string \<times> string) list"
  db_messages :: "message list"
  db_mentions :: "mention_row list"
  db_attachments :: "attachment list"
  db_links :: "(string \<times> string \<times> nat) list"

section \<open>Members\<close>

definition member_key :: "conv_member \<Rightarrow> string \<times> string" where
  "member_key m = (cm_org m, cm_id m)"

definition db_getMember :: "conv_db \<Rightarrow> string \<Rightarrow> string \<Rightarrow> conv_member option" where
  "db_getMember db org i = tbl_find member_key (org, i) (db_members db)"

definition db_listMembers :: "conv_db \<Rightarrow> string \<Rightarrow> conv_member list" where
  "db_listMembers db org = filter (\<lambda>m. cm_org m = org) (db_members db)"

definition sorted_ids :: "string list \<Rightarrow> string list" where
  "sorted_ids xs = sort_cmp str_cmp (uniq xs)"

section \<open>Threads\<close>

definition replaceChannelMemberLinks :: "string \<Rightarrow> string \<Rightarrow> string list \<Rightarrow> conv_db \<Rightarrow> conv_db" where
  "replaceChannelMemberLinks org ch memberIds db =
     db\<lparr>db_channel_members := filter (\<lambda>(o', c, _). \<not> (o' = org \<and> c = ch)) (db_channel_members db) @
          map (\<lambda>m. (org, ch, m)) (sorted_ids memberIds)\<rparr>"

definition replaceThreadMemberLinks :: "string \<Rightarrow> string list \<Rightarrow> conv_db \<Rightarrow> conv_db" where
  "replaceThreadMemberLinks t memberIds db =
     db\<lparr>db_thread_members := filter (\<lambda>(t', _). t' \<noteq> t) (db_thread_members db) @
          map (\<lambda>m. (t, m)) (sorted_ids memberIds)\<rparr>"

definition getThreadChannelId :: "conv_db \<Rightarrow> string \<Rightarrow> string option" where
  "getThreadChannelId db t = (case tbl_find th_id t (db_threads db) of
      Some r \<Rightarrow> (case th_channel r of Some (c # cs) \<Rightarrow> Some (c # cs) | _ \<Rightarrow> None) | None \<Rightarrow> None)"

definition setThreadMembers :: "string \<Rightarrow> string \<Rightarrow> string list \<Rightarrow> conv_db \<Rightarrow> conv_db" where
  "setThreadMembers org t memberIds db =
     (let db' = replaceThreadMemberLinks t memberIds db
      in case getThreadChannelId db' t of
           Some ch \<Rightarrow> replaceChannelMemberLinks org ch memberIds db'
         | None \<Rightarrow> db')"

text \<open>The conflict is on the id alone; organization and creation time stay.\<close>

definition saveThread :: "thread \<Rightarrow> conv_db \<Rightarrow> conv_db" where
  "saveThread t db =
     setThreadMembers (th_org t) (th_id t) (th_memberIds t)
       (db\<lparr>db_threads := tbl_upsert th_id (\<lambda>old new. old\<lparr>th_channel := th_channel new, th_title := th_title new\<rparr>)
          (thread_row.truncate t) (db_threads db)\<rparr>)"

definition listThreadMemberIds :: "conv_db \<Rightarrow> string \<Rightarrow> string list" where
  "listThreadMemberIds db t = sort_cmp str_cmp (map snd (filter (\<lambda>r. fst r = t) (db_thread_members db)))"

definition getThread :: "conv_db \<Rightarrow> string \<Rightarrow> string \<Rightarrow> thread option" where
  "getThread db org t =
     map_option (\<lambda>r. thread_row.extend (r\<lparr>th_channel := getThreadChannelId db t\<rparr>)
         \<lparr>th_memberIds = listThreadMemberIds db t\<rparr>)
       (find (\<lambda>r. th_org r = org \<and> th_id r = t) (db_threads db))"

definition ensureThread :: "thread \<Rightarrow> conv_db \<Rightarrow> conv_db" where
  "ensureThread t db = (case getThread db (th_org t) (th_id t) of Some _ \<Rightarrow> db | None \<Rightarrow> saveThread t db)"

definition listThreadIdsForChannel :: "conv_db \<Rightarrow> string \<Rightarrow> string \<Rightarrow> string list" where
  "listThreadIdsForChannel db org ch =
     sort_cmp str_cmp (map th_id (filter (\<lambda>r. th_org r = org \<and> (th_channel r = Some ch \<or> th_id r = ch)) (db_threads db)))"

section \<open>Channels\<close>

definition channel_key :: "channel_row \<Rightarrow> string \<times> string" where
  "channel_key c = (ch_org c, ch_id c)"

definition saveChannel :: "channel_row \<Rightarrow> int \<Rightarrow> conv_db \<Rightarrow> conv_db" where
  "saveChannel c now db =
     db\<lparr>db_channels := tbl_upsert channel_key
          (\<lambda>old new. old\<lparr>ch_name := ch_name new, ch_kind := ch_kind new, ch_topic := ch_topic new,
             ch_parent := ch_parent new, ch_archivedAt := ch_archivedAt new\<rparr>)
          (c\<lparr>ch_createdAt := now\<rparr>) (db_channels db)\<rparr>"

text \<open>The members of the channel's own table, joined with those of its threads.\<close>

definition thread_channel :: "string list \<Rightarrow> thread_row \<Rightarrow> string" where
  "thread_channel ids r = (case th_channel r of Some c \<Rightarrow> if c \<in> set ids then c else th_id r | None \<Rightarrow> th_id r)"

definition listChannelMemberIdsForChannelIds :: "conv_db \<Rightarrow> string \<Rightarrow> string list \<Rightarrow> string \<Rightarrow> string list" where
  "listChannelMemberIdsForChannelIds db org ids ch =
     sorted_ids
       (map (\<lambda>r. snd (snd r)) (filter (\<lambda>(o', c, _). o' = org \<and> c = ch) (db_channel_members db)) @
        concat (map (\<lambda>t. map snd (filter (\<lambda>r. fst r = th_id t) (db_thread_members db)))
          (filter (\<lambda>t. th_org t = org \<and> ((case th_channel t of Some c \<Rightarrow> c \<in> set ids | None \<Rightarrow> False) \<or> th_id t \<in> set ids) \<and>
             thread_channel ids t = ch) (db_threads db))))"

definition listChannelMemberIds :: "conv_db \<Rightarrow> string \<Rightarrow> string \<Rightarrow> string list" where
  "listChannelMemberIds db org ch = listChannelMemberIdsForChannelIds db org [ch] ch"

definition getChannel :: "conv_db \<Rightarrow> string \<Rightarrow> string \<Rightarrow> channel option" where
  "getChannel db org ch =
     map_option (\<lambda>r. channel_row.extend r \<lparr>ch_memberIds = listChannelMemberIds db org ch\<rparr>)
       (tbl_find channel_key (org, ch) (db_channels db))"

text \<open>Newest first, ids downwards.\<close>

definition newest_first :: "channel_row \<Rightarrow> channel_row \<Rightarrow> int" where
  "newest_first a b = (if ch_createdAt a = ch_createdAt b then str_cmp (ch_id b) (ch_id a) else ch_createdAt b - ch_createdAt a)"

definition listAllChannels :: "conv_db \<Rightarrow> string \<Rightarrow> channel list" where
  "listAllChannels db org =
     (let rows = sort_cmp newest_first (filter (\<lambda>c. ch_org c = org) (db_channels db)) in
      map (\<lambda>r. channel_row.extend r \<lparr>ch_memberIds = listChannelMemberIdsForChannelIds db org (map ch_id rows) (ch_id r)\<rparr>) rows)"

definition setChannelMembers :: "string \<Rightarrow> string \<Rightarrow> string list \<Rightarrow> conv_db \<Rightarrow> conv_db" where
  "setChannelMembers org ch memberIds db =
     (let db' = replaceChannelMemberLinks org ch memberIds db
      in fold (\<lambda>t. replaceThreadMemberLinks t memberIds) (listThreadIdsForChannel db' org ch) db')"

definition deleteChannel :: "string \<Rightarrow> string \<Rightarrow> conv_db \<Rightarrow> conv_db" where
  "deleteChannel org ch db =
     db\<lparr>db_channel_members := filter (\<lambda>(o', c, _). \<not> (o' = org \<and> c = ch)) (db_channel_members db),
        db_modes := filter (\<lambda>((o', c, _), _). \<not> (o' = org \<and> c = ch)) (db_modes db),
        db_channels := tbl_delete (\<lambda>c. channel_key c = (org, ch)) (db_channels db)\<rparr>"

definition setChannelMemberMode :: "string \<Rightarrow> string \<Rightarrow> string \<Rightarrow> member_mode \<Rightarrow> conv_db \<Rightarrow> conv_db" where
  "setChannelMemberMode org ch m mode db = db\<lparr>db_modes := kv_put (org, ch, m) mode (db_modes db)\<rparr>"

definition getChannelMemberMode :: "conv_db \<Rightarrow> string \<Rightarrow> string \<Rightarrow> string \<Rightarrow> member_mode option" where
  "getChannelMemberMode db org ch m = kv_get (db_modes db) (org, ch, m)"

definition removeChannelMemberMode :: "string \<Rightarrow> string \<Rightarrow> string \<Rightarrow> conv_db \<Rightarrow> conv_db" where
  "removeChannelMemberMode org ch m db = db\<lparr>db_modes := kv_del (org, ch, m) (db_modes db)\<rparr>"

section \<open>Messages\<close>

definition message_row :: "message \<Rightarrow> message" where
  "message_row m = m\<lparr>ms_mentionNames := None, ms_attachments := []\<rparr>"

definition same_client :: "message \<Rightarrow> message \<Rightarrow> bool" where
  "same_client a b =
     (ms_clientId a \<noteq> None \<and> ms_clientId a = ms_clientId b \<and> ms_org a = ms_org b \<and>
      ms_sender a = ms_sender b \<and> ms_thread a = ms_thread b)"

text \<open>By creation time, then by id.\<close>

definition message_order :: "message \<Rightarrow> message \<Rightarrow> int" where
  "message_order a b = (if ms_createdAt a = ms_createdAt b then str_cmp (ms_id a) (ms_id b) else ms_createdAt a - ms_createdAt b)"

definition listMessageAttachments :: "conv_db \<Rightarrow> string \<Rightarrow> string list" where
  "listMessageAttachments db m =
     map (\<lambda>r. fst (snd r)) (sort_cmp (\<lambda>a b. if snd (snd a) = snd (snd b) then str_cmp (fst (snd a)) (fst (snd b))
                                          else int (snd (snd a)) - int (snd (snd b)))
       (filter (\<lambda>r. fst r = m \<and> (\<exists>a \<in> set (db_attachments db). at_id a = fst (snd r))) (db_links db)))"

definition load_message :: "conv_db \<Rightarrow> message \<Rightarrow> message" where
  "load_message db r = r\<lparr>ms_attachments := listMessageAttachments db (ms_id r)\<rparr>"

definition getMessage :: "conv_db \<Rightarrow> string \<Rightarrow> string \<Rightarrow> message option" where
  "getMessage db org i =
     map_option (load_message db) (find (\<lambda>m. ms_org m = org \<and> ms_id m = i) (db_messages db))"

definition last_of :: "message list \<Rightarrow> message option" where
  "last_of ms = (case rev (sort_cmp message_order ms) of [] \<Rightarrow> None | m # _ \<Rightarrow> Some m)"

definition findMessageByClientId :: "conv_db \<Rightarrow> string \<Rightarrow> string \<Rightarrow> string \<Rightarrow> string \<Rightarrow> message option" where
  "findMessageByClientId db org sender t client =
     map_option (load_message db)
       (last_of (filter (\<lambda>m. ms_org m = org \<and> ms_sender m = sender \<and> ms_thread m = t \<and> ms_clientId m = Some client)
          (db_messages db)))"

text \<open>\<open>None\<close> is the thrown violation of a constraint.\<close>

definition saveMessage :: "message \<Rightarrow> conv_db \<Rightarrow> (message \<times> conv_db) option" where
  "saveMessage m db =
     (if ms_id m \<in> ms_id ` set (db_messages db) \<or> (\<exists>x \<in> set (db_messages db). same_client m x)
      then (case ms_clientId m of
              None \<Rightarrow> None
            | Some client \<Rightarrow>
                map_option (\<lambda>w. (w, db)) (findMessageByClientId db (ms_org m) (ms_sender m) (ms_thread m) client))
      else Some (m, db\<lparr>db_messages := db_messages db @ [message_row m]\<rparr>))"

definition updateMessage :: "message \<Rightarrow> conv_db \<Rightarrow> conv_db option" where
  "updateMessage m db =
     (let hit = (\<lambda>x. ms_org x = ms_org m \<and> ms_id x = ms_id m) in
      if list_ex hit (db_messages db) \<and> (\<exists>x \<in> set (db_messages db). \<not> hit x \<and> same_client m x) then None
      else Some (db\<lparr>db_messages := tbl_update hit (\<lambda>x. (message_row m)\<lparr>ms_createdAt := ms_createdAt x\<rparr>) (db_messages db)\<rparr>))"

definition deleteMessages :: "string \<Rightarrow> string list \<Rightarrow> conv_db \<Rightarrow> conv_db" where
  "deleteMessages org ids db =
     db\<lparr>db_messages := filter (\<lambda>m. \<not> (ms_org m = org \<and> ms_id m \<in> set ids)) (db_messages db)\<rparr>"

definition getLatestHumanMessageInThread :: "conv_db \<Rightarrow> string \<Rightarrow> string \<Rightarrow> message option" where
  "getLatestHumanMessageInThread db org t =
     map_option (load_message db)
       (last_of (filter (\<lambda>m. ms_org m = org \<and> ms_thread m = t \<and> ms_kind m = Mk_Human) (db_messages db)))"

definition countMessagesSince :: "conv_db \<Rightarrow> string \<Rightarrow> string \<Rightarrow> int option \<Rightarrow> string option \<Rightarrow> nat" where
  "countMessagesSince db org t since excludeSenderId =
     length (filter (\<lambda>m. ms_org m = org \<and> ms_thread m = t \<and>
       (case since of None \<Rightarrow> True | Some s \<Rightarrow> ms_createdAt m > s) \<and>
       (case excludeSenderId of None \<Rightarrow> True | Some s \<Rightarrow> ms_sender m \<noteq> s)) (db_messages db))"

definition replaceMessageMentions :: "string \<Rightarrow> mention_row list \<Rightarrow> conv_db \<Rightarrow> conv_db" where
  "replaceMessageMentions i mentions db =
     db\<lparr>db_mentions := filter (\<lambda>r. mn_message r \<noteq> i) (db_mentions db) @ mentions\<rparr>"

text \<open>The links before a repeated one are kept; then the insert throws.\<close>

fun link_from :: "nat \<Rightarrow> string \<Rightarrow> string list \<Rightarrow> conv_db \<Rightarrow> bool \<times> conv_db" where
  "link_from n m [] db = (True, db)"
| "link_from n m (a # as) db =
     (if list_ex (\<lambda>r. fst r = m \<and> fst (snd r) = a) (db_links db) then (False, db)
      else link_from (Suc n) m as (db\<lparr>db_links := db_links db @ [(m, a, n)]\<rparr>))"

definition linkAttachmentsToMessage :: "string \<Rightarrow> string list \<Rightarrow> conv_db \<Rightarrow> bool \<times> conv_db" where
  "linkAttachmentsToMessage m as db = link_from 0 m as db"

definition getAttachment :: "conv_db \<Rightarrow> string \<Rightarrow> string \<Rightarrow> attachment option" where
  "getAttachment db org i = find (\<lambda>a. at_org a = org \<and> at_id a = i) (db_attachments db)"

section \<open>Pages\<close>

definition encodeCursor :: "string \<Rightarrow> string \<Rightarrow> string" where
  "encodeCursor timestamp i = timestamp @ ''|'' @ i"

definition decodeCursor :: "string option \<Rightarrow> (string \<times> string option) option" where
  "decodeCursor raw =
     (case raw of
        None \<Rightarrow> None
      | Some [] \<Rightarrow> None
      | Some s \<Rightarrow>
          (let t = takeWhile (\<lambda>c. c \<noteq> CHR ''|'') s in
           if CHR ''|'' \<notin> set s then Some (s, None) else Some (t, Some (drop (Suc (length t)) s))))"

text \<open>The condition of \<open>cursorWhereClause\<close>; a cursor without an id is a legacy one.\<close>

definition before_cursor :: "(int \<times> string option) option \<Rightarrow> message \<Rightarrow> bool" where
  "before_cursor cursor m =
     (case cursor of
        None \<Rightarrow> True
      | Some (t, None) \<Rightarrow> ms_createdAt m < t
      | Some (t, Some i) \<Rightarrow> ms_createdAt m < t \<or> ms_createdAt m = t \<and> str_cmp (ms_id m) i < 0)"

record message_page =
  pg_data :: "message list"
  pg_hasMore :: bool
  pg_nextCursor :: "(int \<times> string option) option"

text \<open>The newest \<open>limit + 1\<close> rows in ascending order; the extra one is the oldest.\<close>

definition newest_rows :: "nat \<Rightarrow> message list \<Rightarrow> message list" where
  "newest_rows n ms = (let s = sort_cmp message_order ms in drop (length s - n) s)"

definition messagePage :: "conv_db \<Rightarrow> message list \<Rightarrow> nat \<Rightarrow> message_page" where
  "messagePage db rows limit =
     (let hasMore = length rows > limit;
          data = map (load_message db) (if hasMore then tl rows else rows)
      in \<lparr>pg_data = data, pg_hasMore = hasMore,
          pg_nextCursor = (if hasMore then (case data of [] \<Rightarrow> None | m # _ \<Rightarrow> Some (ms_createdAt m, Some (ms_id m))) else None)\<rparr>)"

definition listMessages :: "conv_db \<Rightarrow> string \<Rightarrow> string \<Rightarrow> (int \<times> string option) option \<Rightarrow> nat \<Rightarrow> message_page" where
  "listMessages db org t cursor limit =
     messagePage db (newest_rows (Suc limit)
       (filter (\<lambda>m. ms_org m = org \<and> ms_thread m = t \<and> before_cursor cursor m) (db_messages db))) limit"

definition listChannelMessages ::
  "conv_db \<Rightarrow> string \<Rightarrow> string \<Rightarrow> int option \<Rightarrow> (int \<times> string option) option \<Rightarrow> nat \<Rightarrow> message_page" where
  "listChannelMessages db org ch since cursor limit =
     messagePage db (newest_rows (Suc limit)
       (filter (\<lambda>m. ms_org m = org \<and> ms_channel m = Some ch \<and>
          (case since of None \<Rightarrow> True | Some s \<Rightarrow> ms_createdAt m \<ge> s) \<and> before_cursor cursor m) (db_messages db))) limit"

end
