(* ===== verification/MessageStoreClaims.thy ===== *)
theory MessageStoreClaims
  imports MessageStore
begin

text \<open>
  The properties of the conversation tables: pages of a thread, cursors, and the rosters of
  threads whose id two organizations share.
\<close>

section \<open>The order of messages\<close>

lemma preorder_message_order: "preorder_cmp message_order"
proof -
  have "message_order a b \<le> 0 \<or> message_order b a \<le> 0" for a b
    using str_cmp_swap [of "ms_id a" "ms_id b"] by (auto simp: message_order_def)
  moreover have "message_order a c \<le> 0" if "message_order a b \<le> 0" "message_order b c \<le> 0" for a b c
    using that str_cmp_trans [of "ms_id a" "ms_id b" "ms_id c"] by (auto simp: message_order_def split: if_splits)
  ultimately show ?thesis unfolding preorder_cmp_def by blast
qed

definition earlier :: "message \<Rightarrow> message \<Rightarrow> bool" where
  "earlier a b \<longleftrightarrow> ms_createdAt a < ms_createdAt b \<or> ms_createdAt a = ms_createdAt b \<and> str_cmp (ms_id a) (ms_id b) < 0"

lemma earlier_irrefl: "\<not> earlier a a"
  by (simp add: earlier_def)

lemma str_cmp_less_trans: "str_cmp x y < 0 \<Longrightarrow> str_cmp y z < 0 \<Longrightarrow> str_cmp x z < 0"
proof -
  assume "str_cmp x y < 0" "str_cmp y z < 0"
  moreover from this have "x \<noteq> z" using str_cmp_swap [of y x] by auto
  ultimately show "str_cmp x z < 0" using str_cmp_trans [of x y z] str_cmp_zero [of x z] by linarith
qed

lemma earlier_trans: "earlier a b \<Longrightarrow> earlier b c \<Longrightarrow> earlier a c"
  unfolding earlier_def using str_cmp_less_trans [of "ms_id a" "ms_id b" "ms_id c"] by auto

lemma earlier_asym: "earlier a b \<Longrightarrow> \<not> earlier b a"
  using earlier_trans earlier_irrefl by blast

lemma earlier_order: "ms_id a \<noteq> ms_id b \<Longrightarrow> message_order a b \<le> 0 \<longleftrightarrow> earlier a b"
  using str_cmp_zero [of "ms_id a" "ms_id b"] unfolding message_order_def earlier_def
  by (cases "ms_createdAt a = ms_createdAt b") (simp_all del: str_cmp_zero add: order.order_iff_strict)

lemma sorted_earlier:
  assumes "distinct (map ms_id ms)"
  shows "sorted_wrt earlier (sort_cmp message_order ms)"
proof -
  have "sorted_wrt earlier xs" if "sorted_wrt (\<lambda>a b. message_order a b \<le> 0) xs" "distinct (map ms_id xs)" for xs
    using that by (induction xs) (auto simp: earlier_order image_iff)
  moreover have "distinct (map ms_id (sort_cmp message_order ms))" using assms by simp
  ultimately show ?thesis using sorted_sort_cmp [OF preorder_message_order] by blast
qed

lemma earlier_unique:
  "sorted_wrt earlier xs \<Longrightarrow> sorted_wrt earlier ys \<Longrightarrow> set xs = set ys \<Longrightarrow> xs = ys"
proof (induction xs arbitrary: ys)
  case (Cons x xs)
  then obtain y ys' where ys: "ys = y # ys'" by (cases ys) auto
  have "x = y" using Cons.prems ys earlier_asym by (metis list.set_intros(1) set_ConsD sorted_wrt.simps(2))
  moreover have "x \<notin> set xs" "y \<notin> set ys'" using Cons.prems ys earlier_irrefl by auto
  ultimately have "set xs = set ys'" using Cons.prems(3) ys by auto
  with Cons ys \<open>x = y\<close> show ?case by simp
qed simp

section \<open>Pages\<close>

text \<open>Following the cursors from the newest page back; older pages come before newer ones.\<close>

fun collect_pages ::
  "nat \<Rightarrow> conv_db \<Rightarrow> string \<Rightarrow> string \<Rightarrow> nat \<Rightarrow> (int \<times> string option) option \<Rightarrow> message list option" where
  "collect_pages 0 db org t limit cursor = None"
| "collect_pages (Suc n) db org t limit cursor =
     (let p = listMessages db org t cursor limit in
      if pg_hasMore p
      then map_option (\<lambda>older. older @ pg_data p) (collect_pages n db org t limit (pg_nextCursor p))
      else Some (pg_data p))"

definition thread_rows :: "conv_db \<Rightarrow> string \<Rightarrow> string \<Rightarrow> message list" where
  "thread_rows db org t = filter (\<lambda>m. ms_org m = org \<and> ms_thread m = t) (db_messages db)"

lemma before_earlier: "before_cursor (Some (ms_createdAt m, Some (ms_id m))) x \<longleftrightarrow> earlier x m"
  by (simp add: before_cursor_def earlier_def)

lemma before_down: "earlier x m \<Longrightarrow> before_cursor cursor m \<Longrightarrow> before_cursor cursor x"
  using str_cmp_less_trans [of "ms_id x" "ms_id m"]
  by (auto simp: before_cursor_def earlier_def split: option.splits prod.splits)

lemma filter_earlier_prefix:
  assumes "sorted_wrt earlier (xs @ m # ys)"
  shows "filter (\<lambda>x. earlier x m) (xs @ m # ys) = xs"
proof -
  have "filter (\<lambda>x. earlier x m) xs = xs" using assms by (auto simp: sorted_wrt_append intro: filter_True)
  moreover have "filter (\<lambda>x. earlier x m) (m # ys) = []"
    using assms earlier_irrefl earlier_asym by (auto simp: sorted_wrt_append filter_empty_conv)
  ultimately show ?thesis by simp
qed

text \<open>A page of a thread, by the sorted rows before its cursor.\<close>

lemma listMessages_sorted:
  assumes "distinct (map ms_id (db_messages db))"
    and "set older = set (filter (before_cursor cursor) (thread_rows db org t))" "sorted_wrt earlier older"
  shows "listMessages db org t cursor limit = messagePage db (drop (length older - Suc limit) older) limit"
proof -
  let ?rows = "filter (\<lambda>m. ms_org m = org \<and> ms_thread m = t \<and> before_cursor cursor m) (db_messages db)"
  have "distinct (map ms_id ?rows)" using assms(1) by (simp add: distinct_map_filter)
  then have "sorted_wrt earlier (sort_cmp message_order ?rows)" by (rule sorted_earlier)
  moreover have "set (sort_cmp message_order ?rows) = set older"
    using assms(2) by (auto simp: thread_rows_def)
  ultimately have "sort_cmp message_order ?rows = older" using assms(3) earlier_unique by blast
  then show ?thesis by (simp add: listMessages_def newest_rows_def Let_def)
qed

lemma drop_Suc_tl: "k < length xs \<Longrightarrow> tl (drop k xs) = drop (Suc k) xs"
  by (simp add: drop_Suc drop_tl)

lemma collect_older:
  assumes "distinct (map ms_id (db_messages db))" "0 < limit"
  shows "set older = set (filter (before_cursor cursor) (thread_rows db org t)) \<Longrightarrow> sorted_wrt earlier older \<Longrightarrow>
    length older < n \<Longrightarrow> collect_pages n db org t limit cursor = Some (map (load_message db) older)"
proof (induction n arbitrary: older cursor)
  case (Suc n)
  note page = listMessages_sorted [OF assms(1) Suc.prems(1,2), of limit]
  show ?case
  proof (cases "length older > limit")
    case True
    let ?k = "length older - limit"
    obtain m newer where m: "drop ?k older = m # newer" using True assms(2) by (cases "drop ?k older") auto
    then have split: "older = take ?k older @ m # newer" by (metis append_take_drop_id)
    have "filter (\<lambda>x. earlier x m) older = take ?k older"
      using filter_earlier_prefix [of "take ?k older" m newer] Suc.prems(2) split by metis
    then have "set (take ?k older) = {x \<in> set older. earlier x m}" by (metis set_filter)
    moreover have "m \<in> set older" using split by (metis in_set_conv_decomp)
    then have "before_cursor cursor m" using Suc.prems(1) by auto
    ultimately have set: "set (take ?k older) =
        set (filter (before_cursor (Some (ms_createdAt m, Some (ms_id m)))) (thread_rows db org t))"
      using Suc.prems(1) before_down [of _ m cursor] by (auto simp: before_earlier)
    have "sorted_wrt earlier (take ?k older)" using Suc.prems(2) split by (metis sorted_wrt_append)
    then have "collect_pages n db org t limit (Some (ms_createdAt m, Some (ms_id m))) =
        Some (map (load_message db) (take ?k older))"
      using Suc.IH [OF set] Suc.prems(3) True assms(2) by simp
    moreover have "tl (drop (length older - Suc limit) older) = m # newer"
      using True m drop_Suc_tl [of "length older - Suc limit" older] by (simp add: Suc_diff_Suc)
    moreover have "map (load_message db) (take ?k older) @ map (load_message db) (m # newer) = map (load_message db) older"
      using split by (metis map_append)
    ultimately show ?thesis
      using page True by (simp add: messagePage_def Let_def load_message_def)
  next
    case False
    with page show ?thesis by (simp add: messagePage_def Let_def)
  qed
qed simp

text \<open>
  C23: Following the cursors of a thread from its newest page returns every message of the
  thread exactly once, in the order of creation time and id, whatever the page size.\<close>
theorem pages_cover_thread:
  assumes "distinct (map ms_id (db_messages db))" "0 < limit"
  shows "collect_pages (Suc (length (db_messages db))) db org t limit None =
    Some (map (load_message db) (sort_cmp message_order (thread_rows db org t)))"
proof (rule collect_older [OF assms])
  show "set (sort_cmp message_order (thread_rows db org t)) = set (filter (before_cursor None) (thread_rows db org t))"
    by (simp add: before_cursor_def)
  show "sorted_wrt earlier (sort_cmp message_order (thread_rows db org t))"
    using assms(1) by (intro sorted_earlier) (simp add: thread_rows_def distinct_map_filter)
  show "length (sort_cmp message_order (thread_rows db org t)) < Suc (length (db_messages db))"
    by (simp add: thread_rows_def less_Suc_eq_le)
qed

definition text_of :: "string \<Rightarrow> int \<Rightarrow> message" where
  "text_of i t = \<lparr>ms_id = i, ms_org = ''o'', ms_thread = ''general'', ms_channel = Some ''general'', ms_parent = None,
     ms_sender = ''ann'', ms_senderKind = Human, ms_kind = Mk_Human, ms_content = ''hello'', ms_mentions = [],
     ms_mentionNames = None, ms_toolCalls = [], ms_attachments = [], ms_metadata = [], ms_clientId = None,
     ms_createdAt = t, ms_editedAt = None, ms_deletedAt = None\<rparr>"

definition empty_db :: conv_db where
  "empty_db = \<lparr>db_orgs = [''o''], db_members = [], db_channels = [], db_channel_members = [], db_modes = [],
     db_threads = [], db_thread_members = [], db_messages = [], db_mentions = [], db_attachments = [], db_links = []\<rparr>"

definition three_messages :: conv_db where
  "three_messages = empty_db\<lparr>db_messages := [text_of ''b'' 5, text_of ''a'' 5, text_of ''c'' 2]\<rparr>"

text \<open>Three messages, two of the same millisecond, in pages of one.\<close>
theorem pages_cover_thread_witness:
  "collect_pages 4 three_messages ''o'' ''general'' 1 None = Some [text_of ''c'' 2, text_of ''a'' 5, text_of ''b'' 5]"
proof -
  have d: "distinct (map ms_id (db_messages three_messages))" by (simp add: three_messages_def text_of_def)
  have n: "Suc (length (db_messages three_messages)) = 4" by (simp add: three_messages_def)
  have "map (load_message three_messages) (sort_cmp message_order (thread_rows three_messages ''o'' ''general'')) =
      [text_of ''c'' 2, text_of ''a'' 5, text_of ''b'' 5]" by code_simp
  with pages_cover_thread [OF d zero_less_one, of "''o''" "''general''"] n show ?thesis by simp
qed

section \<open>Cursors\<close>

lemma takeWhile_bar: "CHR ''|'' \<notin> set t \<Longrightarrow> takeWhile (\<lambda>c. c \<noteq> CHR ''|'') (t @ ''|'' @ i) = t"
  by (induction t) auto

lemma decode_nonempty:
  "s \<noteq> [] \<Longrightarrow> decodeCursor (Some s) =
     (if CHR ''|'' \<notin> set s then Some (s, None)
      else Some (takeWhile (\<lambda>c. c \<noteq> CHR ''|'') s, Some (drop (Suc (length (takeWhile (\<lambda>c. c \<noteq> CHR ''|'') s))) s)))"
  by (cases s) (simp_all add: decodeCursor_def Let_def)

lemma decode_encode:
  "CHR ''|'' \<notin> set t \<Longrightarrow> decodeCursor (Some (encodeCursor t i)) = Some (t, Some i)"
  using takeWhile_bar [of t i] by (simp add: encodeCursor_def decode_nonempty)

section \<open>Thread ids shared by organizations\<close>

lemma sorted_ids_idem: "listThreadMemberIds (replaceThreadMemberLinks t ms db) t = sort_cmp str_cmp (sorted_ids ms)"
proof -
  have "filter (\<lambda>r. fst r = t) (filter (\<lambda>(t', _). t' \<noteq> t) xs) = []" for xs :: "(string \<times> string) list"
    by (induction xs) auto
  moreover have "map snd (filter (\<lambda>r. fst r = t) (map (\<lambda>m. (t, m)) ys)) = ys" for ys :: "string list"
    by (induction ys) auto
  ultimately show ?thesis by (simp add: listThreadMemberIds_def replaceThreadMemberLinks_def)
qed

lemma setThreadMembers_members: "listThreadMemberIds (setThreadMembers org t ms db) t = sort_cmp str_cmp (sorted_ids ms)"
  using sorted_ids_idem [of t ms db]
  by (auto simp: setThreadMembers_def Let_def replaceChannelMemberLinks_def listThreadMemberIds_def split: option.split)

lemma setThreadMembers_threads [simp]: "db_threads (setThreadMembers org t ms db) = db_threads db"
  by (simp add: setThreadMembers_def Let_def replaceChannelMemberLinks_def replaceThreadMemberLinks_def split: option.split)

lemma find_only: "x \<in> set xs \<Longrightarrow> P x \<Longrightarrow> (\<And>y. y \<in> set xs \<Longrightarrow> P y \<Longrightarrow> y = x) \<Longrightarrow> find P xs = Some x"
proof (cases "find P xs")
  case None
  assume "x \<in> set xs" "P x"
  with None show ?thesis by (auto simp: find_None_iff)
next
  case (Some y)
  assume only: "\<And>y. y \<in> set xs \<Longrightarrow> P y \<Longrightarrow> y = x"
  from Some have "y \<in> set xs" "P y" by (auto simp: find_Some_iff)
  with only Some show ?thesis by simp
qed

text \<open>
  Threads are keyed by their id alone. Ensuring a thread whose id another organization
  has already used creates no thread for the caller, but gives the other organization's
  thread the caller's channel, title and members.\<close>
theorem thread_save_crosses_tenants:
  assumes "tbl_wf th_id (db_threads db)" "r \<in> set (db_threads db)" "th_id r = th_id t" "th_org r \<noteq> th_org t"
  shows "getThread (ensureThread t db) (th_org t) (th_id t) = None \<and>
    (\<exists>x. getThread (ensureThread t db) (th_org r) (th_id t) = Some x \<and>
       th_title x = th_title t \<and> set (th_memberIds x) = set (th_memberIds t))"
proof -
  have only: "x = r" if "x \<in> set (db_threads db)" "th_id x = th_id t" for x
    using that assms(1-3) tbl_find_wf_mem [of th_id "db_threads db"] by (metis option.inject)
  have none: "getThread db (th_org t) (th_id t) = None"
    using only assms(4) by (auto simp: getThread_def find_None_iff)
  let ?up = "tbl_upsert th_id (\<lambda>old new. old\<lparr>th_channel := th_channel new, th_title := th_title new\<rparr>)
     (thread_row.truncate t) (db_threads db)"
  let ?r = "r\<lparr>th_channel := th_channel t, th_title := th_title t\<rparr>"
  have key: "th_id (thread_row.truncate t) = th_id t" "th_channel (thread_row.truncate t) = th_channel t"
    "th_title (thread_row.truncate t) = th_title t"
    by (simp_all add: thread_row.truncate_def)
  have up: "?up = map (\<lambda>x. if th_id x = th_id t then x\<lparr>th_channel := th_channel t, th_title := th_title t\<rparr> else x) (db_threads db)"
    using assms(2,3) by (auto simp: tbl_upsert_def key image_iff intro: bexI [of _ r])
  have hit: "x = ?r" if "x \<in> set ?up" "th_id x = th_id t" for x
    using that only unfolding up by (auto split: if_splits)
  have mem: "?r \<in> set ?up" using assms(2,3) unfolding up by (auto simp: image_iff intro: bexI [of _ r])
  have e: "ensureThread t db = saveThread t db" using none by (simp add: ensureThread_def)
  have rows: "db_threads (ensureThread t db) = ?up" unfolding e by (simp add: saveThread_def)
  have "getThread (ensureThread t db) (th_org t) (th_id t) = None"
  proof -
    have "th_org x \<noteq> th_org t" if "x \<in> set ?up" "th_id x = th_id t" for x
      using hit [OF that] assms(4) by simp
    then show ?thesis unfolding getThread_def rows by (auto simp: find_None_iff)
  qed
  moreover have "find (\<lambda>x. th_org x = th_org r \<and> th_id x = th_id t) ?up = Some ?r"
    by (rule find_only [OF mem]) (simp add: assms(3), use hit in blast)
  moreover have "set (listThreadMemberIds (ensureThread t db) (th_id t)) = set (th_memberIds t)"
    unfolding e saveThread_def setThreadMembers_members by (simp add: sorted_ids_def)
  ultimately show ?thesis
    unfolding getThread_def rows by (auto simp: thread_row.extend_def)
qed

definition acme_general :: thread_row where
  "acme_general = \<lparr>th_id = ''general'', th_org = ''acme'', th_channel = Some ''general'', th_title = ''Acme'', th_createdAt = 1\<rparr>"

definition beta_general :: thread where
  "beta_general = \<lparr>th_id = ''general'', th_org = ''beta'', th_channel = Some ''general'', th_title = ''Beta'',
     th_createdAt = 2, th_memberIds = [''eve'']\<rparr>"

definition acme_db :: conv_db where
  "acme_db = empty_db\<lparr>db_threads := [acme_general], db_thread_members := [(''general'', ''ann'')]\<rparr>"

text \<open>The general thread of one organization is handed to a member of another.\<close>
theorem thread_save_crosses_tenants_witness:
  "\<exists>x. getThread (ensureThread beta_general acme_db) ''acme'' ''general'' = Some x \<and>
     th_title x = ''Beta'' \<and> set (th_memberIds x) = {''eve''}"
proof -
  have "tbl_wf th_id (db_threads acme_db)" "acme_general \<in> set (db_threads acme_db)"
    "th_id acme_general = th_id beta_general" "th_org acme_general \<noteq> th_org beta_general"
    by (simp_all add: acme_db_def acme_general_def beta_general_def tbl_wf_def)
  from thread_save_crosses_tenants [OF this] show ?thesis by (simp add: acme_general_def beta_general_def)
qed

end
