(* ===== verification/WakeDispatch.thy ===== *)
theory WakeDispatch
  imports MessageStore Quotas ReplyGuard
begin

text \<open>
  Who wakes for a message (\<open>services/wake-dispatcher.ts\<close>) and the state of the
  conversation service around it. The handlers run without suspension up to the callback of
  the host, so they are functions on the state; the callback and the realtime events are
  entries of a log. Of the runs the state has the tool that ended each.
\<close>

section \<open>State\<close>

datatype wake_suppressed = Ws_Non_Agent | Ws_Retired | Ws_Sender_Self | Ws_Quota | Ws_Mode_Blocked | Ws_Mode_Passive

datatype message_topic = Ev_Dm_Message | Ev_Channel_Message | Ev_Thread_Message

record alert =
  al_org :: string
  al_member :: string
  al_channel :: "string option"
  al_thread :: string
  al_message :: string
  al_by :: string
  al_reason :: string
  al_wakeReason :: string

datatype conv_effect =
    Emitted message_topic message "string list"
  | Member_Alerted alert
  | Wake_Suppressed message string wake_suppressed
  | Echo_Suppressed string string string "string option" "string option" nat
  | Mirror_Suppressed string string string string "nat \<times> nat"
  | Message_Published message

record conv_state =
  cv_db :: conv_db
  cv_last :: "(string \<times> int) list"
  cv_mentionQuota :: quota
  cv_channelReadQuota :: quota
  cv_pairTracker :: pair_tracker
  cv_runs :: "((string \<times> string) \<times> string option) list"
  cv_drawn :: nat
  cv_log :: "conv_effect list"

record conv_env =
  ce_now :: int
  ce_uuid :: "nat \<Rightarrow> string"

definition say :: "conv_effect \<Rightarrow> conv_state \<Rightarrow> conv_state" where
  "say e st = st\<lparr>cv_log := cv_log st @ [e]\<rparr>"

definition uuid :: "conv_env \<Rightarrow> conv_state \<Rightarrow> string \<times> conv_state" where
  "uuid env st = (ce_uuid env (cv_drawn st), st\<lparr>cv_drawn := Suc (cv_drawn st)\<rparr>)"

section \<open>Alerts\<close>

definition WAKE_REASONS :: "string list" where
  "WAKE_REASONS = [''mention'', ''dm'', ''channel-read'', ''handoff'', ''parent-thread'']"

definition alertMember :: "message \<Rightarrow> string \<Rightarrow> channel option \<Rightarrow> string \<Rightarrow> conv_state \<Rightarrow> conv_state" where
  "alertMember m memberId ch reason st =
     (case db_getMember (cv_db st) (ms_org m) memberId of
        None \<Rightarrow> st
      | Some x \<Rightarrow>
          if cm_kind x \<noteq> Agent \<or> cm_retired x then st
          else say (Member_Alerted \<lparr>al_org = ms_org m, al_member = cm_id x, al_channel = map_option ch_id ch,
                 al_thread = ms_thread m, al_message = ms_id m, al_by = ms_sender m, al_reason = reason,
                 al_wakeReason = (if reason \<in> set WAKE_REASONS then reason else ''mention'')\<rparr>) st)"

definition quota_key :: "string list \<Rightarrow> string" where
  "quota_key parts = join_with '':'' parts"

definition pair_key :: "message \<Rightarrow> string \<Rightarrow> string" where
  "pair_key m memberId = join_with ''|'' [ms_org m, ms_thread m, ms_sender m, memberId]"

definition consume_mention :: "string \<Rightarrow> int \<Rightarrow> conv_state \<Rightarrow> bool \<times> conv_state" where
  "consume_mention key now st =
     (case consume key now (cv_mentionQuota st) of (ok, q) \<Rightarrow> (ok, st\<lparr>cv_mentionQuota := q\<rparr>))"

definition consume_read :: "string \<Rightarrow> int \<Rightarrow> conv_state \<Rightarrow> bool \<times> conv_state" where
  "consume_read key now st =
     (case consume key now (cv_channelReadQuota st) of (ok, q) \<Rightarrow> (ok, st\<lparr>cv_channelReadQuota := q\<rparr>))"

definition record_mention :: "bool \<Rightarrow> string \<Rightarrow> int \<Rightarrow> conv_state \<Rightarrow> nat \<times> conv_state" where
  "record_mention counted key now st =
     (if counted then (case record_pair key now (cv_pairTracker st) of (n, p) \<Rightarrow> (n, st\<lparr>cv_pairTracker := p\<rparr>))
      else (0, st))"

definition blocked_mode :: "member_mode option \<Rightarrow> bool" where
  "blocked_mode mode = (mode = Some Md_Muted \<or> mode = Some Md_Temp_Disable)"

section \<open>Mentions\<close>

text \<open>Whether a mentioned member may be woken at all.\<close>

definition wakeable_mention :: "conv_state \<Rightarrow> message \<Rightarrow> channel option \<Rightarrow> string \<Rightarrow> bool" where
  "wakeable_mention st m ch memberId =
     (memberId \<noteq> ms_sender m \<and>
      (case db_getMember (cv_db st) (ms_org m) memberId of
         None \<Rightarrow> False
       | Some x \<Rightarrow> cm_kind x = Agent \<and> \<not> cm_retired x) \<and>
      (case ch of
         None \<Rightarrow> True
       | Some c \<Rightarrow>
           \<not> blocked_mode (getChannelMemberMode (cv_db st) (ms_org m) (ch_id c) memberId) \<and>
           ch_kind c \<noteq> Ch_Self \<and>
           (ch_memberIds c = [] \<or> memberId \<in> set (ch_memberIds c))))"

text \<open>\<open>notify\<close> publishes the notice of a throttled mention; it may throw, which ends the loop.\<close>

definition alert_mention ::
  "conv_env \<Rightarrow> (string \<Rightarrow> string \<Rightarrow> string \<Rightarrow> conv_state \<Rightarrow> bool \<times> conv_state) \<Rightarrow> message \<Rightarrow> channel option \<Rightarrow>
   string \<Rightarrow> conv_state \<Rightarrow> bool \<times> conv_state" where
  "alert_mention env notify m ch memberId st =
     (if \<not> wakeable_mention st m ch memberId then (True, st)
      else case consume_mention (quota_key [ms_org m, memberId]) (ce_now env) st of
        (False, st') \<Rightarrow> notify (ms_org m) memberId (ms_sender m) st'
      | (True, st') \<Rightarrow>
          (case record_mention (ms_senderKind m = Agent) (pair_key m memberId) (ce_now env) st' of
             (n, st'') \<Rightarrow>
               if n > 3
               then (True, say (Echo_Suppressed (ms_org m) (ms_sender m) memberId (map_option ch_id ch) (Some (ms_thread m)) n) st'')
               else (True, alertMember m memberId ch ''mention'' st'')))"

fun alert_loop :: "(string \<Rightarrow> conv_state \<Rightarrow> bool \<times> conv_state) \<Rightarrow> string list \<Rightarrow> conv_state \<Rightarrow> conv_state" where
  "alert_loop f [] st = st"
| "alert_loop f (i # is) st = (case f i st of (True, st') \<Rightarrow> alert_loop f is st' | (False, st') \<Rightarrow> st')"

definition alertMentionedMembers ::
  "conv_env \<Rightarrow> (string \<Rightarrow> string \<Rightarrow> string \<Rightarrow> conv_state \<Rightarrow> bool \<times> conv_state) \<Rightarrow> message \<Rightarrow> string list \<Rightarrow>
   channel option \<Rightarrow> conv_state \<Rightarrow> conv_state" where
  "alertMentionedMembers env notify m mentions ch st =
     alert_loop (alert_mention env notify m ch) (uniq mentions) st"

section \<open>Readers of a channel\<close>

definition alert_reader ::
  "conv_env \<Rightarrow> message \<Rightarrow> channel \<Rightarrow> string list \<Rightarrow> conv_member \<Rightarrow> conv_state \<Rightarrow> conv_state" where
  "alert_reader env m ch mentioned x st =
     (if cm_kind x \<noteq> Agent then say (Wake_Suppressed m (cm_id x) Ws_Non_Agent) st
      else if cm_retired x then say (Wake_Suppressed m (cm_id x) Ws_Retired) st
      else if cm_id x = ms_sender m then say (Wake_Suppressed m (cm_id x) Ws_Sender_Self) st
      else if cm_id x \<in> set mentioned then st
      else case consume_read (quota_key [ms_org m, cm_id x, ch_id ch]) (ce_now env) st of
        (False, st') \<Rightarrow> say (Wake_Suppressed m (cm_id x) Ws_Quota) st'
      | (True, st') \<Rightarrow>
          (let mode = getChannelMemberMode (cv_db st') (ms_org m) (ch_id ch) (cm_id x) in
           if blocked_mode mode then say (Wake_Suppressed m (cm_id x) Ws_Mode_Blocked) st'
           else if mode = Some Md_Passive then say (Wake_Suppressed m (cm_id x) Ws_Mode_Passive) st'
           else alertMember m (cm_id x) (Some ch) ''channel-read'' st'))"

definition alertChannelReaders :: "conv_env \<Rightarrow> message \<Rightarrow> channel option \<Rightarrow> string list \<Rightarrow> conv_state \<Rightarrow> conv_state" where
  "alertChannelReaders env m channel mentions st =
     (case channel of
        None \<Rightarrow> st
      | Some ch \<Rightarrow>
          if ch_kind ch \<noteq> Ch_General \<and> ch_kind ch \<noteq> Ch_Group then st
          else if ms_senderKind m \<noteq> Human \<or> ms_kind m = Mk_System \<or> ms_sender m = ''system'' then st
          else (let candidates = (if ch_memberIds ch = [] then db_listMembers (cv_db st) (ms_org m)
                  else List.map_filter (db_getMember (cv_db st) (ms_org m)) (ch_memberIds ch))
                in fold (alert_reader env m ch mentions) candidates st))"

section \<open>Participants of a direct message\<close>

definition is_agent :: "conv_member option \<Rightarrow> bool" where
  "is_agent x = (case x of None \<Rightarrow> False | Some y \<Rightarrow> cm_kind y = Agent)"

definition alert_participant :: "conv_env \<Rightarrow> message \<Rightarrow> channel \<Rightarrow> string \<Rightarrow> conv_state \<Rightarrow> conv_state" where
  "alert_participant env m ch recipientId st =
     (if blocked_mode (getChannelMemberMode (cv_db st) (ms_org m) (ch_id ch) recipientId) then st
      else
        (let pair = is_agent (db_getMember (cv_db st) (ms_org m) (ms_sender m)) \<and>
                    is_agent (db_getMember (cv_db st) (ms_org m) recipientId)
         in case record_mention pair (pair_key m recipientId) (ce_now env) st of
           (n, st') \<Rightarrow>
             if n > 1
             then alertMember m recipientId (Some ch) ''channel-read''
                    (say (Echo_Suppressed (ms_org m) (ms_sender m) recipientId (Some (ch_id ch)) (Some (ms_thread m)) n) st')
             else alertMember m recipientId (Some ch) ''dm'' st'))"

definition alertDirectMessageParticipants :: "conv_env \<Rightarrow> message \<Rightarrow> channel option \<Rightarrow> conv_state \<Rightarrow> conv_state" where
  "alertDirectMessageParticipants env m channel st =
     (case channel of
        None \<Rightarrow> st
      | Some ch \<Rightarrow>
          if ch_kind ch \<noteq> Ch_Dm then st
          else fold (alert_participant env m ch) (filter (\<lambda>i. i \<noteq> ms_sender m) (ch_memberIds ch)) st)"

section \<open>Direct messages between agents\<close>

definition WAKEABLE_AGENT_DM_TERMINATORS :: "string list" where
  "WAKEABLE_AGENT_DM_TERMINATORS = [''message'', ''channel.reply'', ''channel.post'', ''channel.handoff'']"

definition handoff_complete :: "message \<Rightarrow> bool" where
  "handoff_complete m =
     (json_field (json_field (Some (JObj (ms_metadata m))) ''handoff'') ''complete'' = Some (JBool True))"

definition shouldSuppressDmWake :: "conv_state \<Rightarrow> message \<Rightarrow> channel option \<Rightarrow> bool" where
  "shouldSuppressDmWake st m channel =
     (case channel of
        None \<Rightarrow> False
      | Some ch \<Rightarrow>
          if ch_kind ch \<noteq> Ch_Dm then False
          else if ms_kind m \<noteq> Mk_Agent then False
          else
            (let members = map (\<lambda>x. \<lparr>rm_id = cm_id x, rm_kind = cm_kind x\<rparr>)
                   (List.map_filter (db_getMember (cv_db st) (ms_org m)) (ch_memberIds ch))
             in if \<not> isAgentOnlyThread (ms_thread m) members None then False
                else if handoff_complete m \<or> isVacuousAck (ms_content m) then True
                else if ms_toolCalls m = [] then trim (ms_content m) = []
                else \<not> list_ex (\<lambda>t. normalizeToDottedToolName t \<in> set WAKEABLE_AGENT_DM_TERMINATORS) (ms_toolCalls m)))"

end
