(* ===== verification/Messaging.thy ===== *)
theory Messaging
  imports WakeDispatch
begin

text \<open>
  The conversation service (\<open>services/conversation.ts\<close>, \<open>message-writer.ts\<close>,
  \<open>message-factory.ts\<close>): access to channels and threads, the write path of a message,
  publishing with its wakes, and the operations agents and people post with. Payloads are
  taken to satisfy their schemas. Compaction, archives and searches are not modelled.
\<close>

section \<open>Errors\<close>

datatype conv_error =
    Organization_Not_Found string | Sender_Not_Found string | Recipient_Not_Found string
  | Member_Not_Found string | Thread_Not_Found string | Channel_Not_Found string | Channel_Archived string
  | Forbidden_Thread | Message_Not_Found string | Reply_Across_Channels string
  | Attachment_Not_Found string | Attachment_Too_Large string | Attachments_Too_Large
  | Cannot_Edit string string | Cannot_Delete string string | Constraint_Violated

type_synonym 'a conv_result = "conv_state \<times> (conv_error + 'a)"

definition and_with :: "conv_state \<Rightarrow> conv_error + 'a \<Rightarrow> ('a \<Rightarrow> 'b conv_result) \<Rightarrow> 'b conv_result" where
  "and_with st r k = (case r of Inl e \<Rightarrow> (st, Inl e) | Inr x \<Rightarrow> k x)"

definition or_fail :: "'a option \<Rightarrow> conv_error \<Rightarrow> conv_error + 'a" where
  "or_fail x e = (case x of None \<Rightarrow> Inl e | Some y \<Rightarrow> Inr y)"

definition with_db :: "(conv_db \<Rightarrow> conv_db) \<Rightarrow> conv_state \<Rightarrow> conv_state" where
  "with_db f st = st\<lparr>cv_db := f (cv_db st)\<rparr>"

section \<open>Access\<close>

definition requireOrganization :: "conv_db \<Rightarrow> string \<Rightarrow> conv_error + unit" where
  "requireOrganization db org = (if org \<in> set (db_orgs db) then Inr () else Inl (Organization_Not_Found org))"

definition canMemberAccessChannel :: "conv_db \<Rightarrow> channel \<Rightarrow> string \<Rightarrow> bool" where
  "canMemberAccessChannel db ch memberId =
     (case db_getMember db (ch_org ch) memberId of
        None \<Rightarrow> False
      | Some x \<Rightarrow>
          if cm_retired x then False
          else if ch_kind ch = Ch_Self \<or> ch_kind ch = Ch_Dm then memberId \<in> set (ch_memberIds ch)
          else True)"

definition requireActiveChannel :: "conv_db \<Rightarrow> string \<Rightarrow> string \<Rightarrow> conv_error + channel" where
  "requireActiveChannel db org ch =
     (case getChannel db org ch of
        None \<Rightarrow> Inl (Channel_Not_Found ch)
      | Some c \<Rightarrow> if ch_archivedAt c \<noteq> None then Inl (Channel_Archived ch) else Inr c)"

definition requireReadableChannel :: "conv_db \<Rightarrow> string \<Rightarrow> string \<Rightarrow> string \<Rightarrow> conv_error + channel" where
  "requireReadableChannel db org ch memberId =
     (case requireActiveChannel db org ch of
        Inl e \<Rightarrow> Inl e
      | Inr c \<Rightarrow> if canMemberAccessChannel db c memberId then Inr c else Inl (Channel_Not_Found ch))"

definition requireWritableChannel :: "conv_db \<Rightarrow> string \<Rightarrow> string \<Rightarrow> string \<Rightarrow> conv_error + channel" where
  "requireWritableChannel = requireReadableChannel"

definition roster_of :: "conv_member list \<Rightarrow> roster_member list" where
  "roster_of ms = map (\<lambda>x. \<lparr>rm_id = cm_id x, rm_kind = cm_kind x\<rparr>) ms"

definition channel_of_thread :: "conv_db \<Rightarrow> string \<Rightarrow> thread \<Rightarrow> channel option" where
  "channel_of_thread db org t = (case th_channel t of None \<Rightarrow> None | Some c \<Rightarrow> getChannel db org c)"

definition canObserverReadThread :: "conv_db \<Rightarrow> string \<Rightarrow> string \<Rightarrow> string \<Rightarrow> bool" where
  "canObserverReadThread db org threadId memberId =
     (case db_getMember db org memberId of
        None \<Rightarrow> False
      | Some x \<Rightarrow>
          cm_kind x = Human \<and>
          (case getThread db org threadId of
             None \<Rightarrow> False
           | Some t \<Rightarrow>
               isAgentOnlyThread (th_id t) (roster_of (db_listMembers db org))
                 (Some [case channel_of_thread db org t of
                          Some c \<Rightarrow> \<lparr>rc_id = ch_id c, rc_memberIds = ch_memberIds c\<rparr>
                        | None \<Rightarrow> \<lparr>rc_id = th_id t, rc_memberIds = th_memberIds t\<rparr>])))"

definition thread_for_channel :: "conv_db \<Rightarrow> string \<Rightarrow> channel \<Rightarrow> thread" where
  "thread_for_channel db org c =
     \<lparr>th_id = ch_id c, th_org = org, th_channel = Some (ch_id c), th_title = ch_name c, th_createdAt = ch_createdAt c,
      th_memberIds = (if ch_memberIds c \<noteq> [] then ch_memberIds c else map cm_id (db_listMembers db org))\<rparr>"

definition requireThreadAccess :: "bool \<Rightarrow> string \<Rightarrow> string \<Rightarrow> string \<Rightarrow> conv_state \<Rightarrow> unit conv_result" where
  "requireThreadAccess readOnly org threadId memberId st =
     (let db = cv_db st; observer = readOnly \<and> canObserverReadThread db org threadId memberId in
      case getThread db org threadId of
        None \<Rightarrow>
          (case getChannel db org threadId of
             None \<Rightarrow> (st, Inl (Thread_Not_Found threadId))
           | Some c \<Rightarrow>
               if ch_archivedAt c \<noteq> None then (st, Inl (Channel_Archived threadId))
               else if \<not> canMemberAccessChannel db c memberId
               then (st, if observer then Inr () else Inl Forbidden_Thread)
               else (with_db (ensureThread (thread_for_channel db org c)) st, Inr ()))
      | Some t \<Rightarrow>
          (st, if memberId \<in> set (th_memberIds t) then Inr ()
               else if (case channel_of_thread db org t of Some c \<Rightarrow> canMemberAccessChannel db c memberId | None \<Rightarrow> False)
               then Inr ()
               else if observer then Inr () else Inl Forbidden_Thread))"

definition listVisibleChannels :: "string \<Rightarrow> string \<Rightarrow> bool \<Rightarrow> conv_db \<Rightarrow> conv_error + channel list" where
  "listVisibleChannels org memberId mine db =
     (case requireOrganization db org of
        Inl e \<Rightarrow> Inl e
      | Inr _ \<Rightarrow>
          (case db_getMember db org memberId of
             None \<Rightarrow> Inl (Member_Not_Found memberId)
           | Some x \<Rightarrow>
               Inr (filter (\<lambda>c. if mine then cm_id x \<in> set (ch_memberIds c) else canMemberAccessChannel db c (cm_id x))
                 (listAllChannels db org))))"

definition ATTACHMENT_FILE_LIMIT_BYTES :: int where
  "ATTACHMENT_FILE_LIMIT_BYTES = 25 * 1024 * 1024"

definition ATTACHMENT_MESSAGE_LIMIT_BYTES :: int where
  "ATTACHMENT_MESSAGE_LIMIT_BYTES = 100 * 1024 * 1024"

fun attachments_size :: "conv_db \<Rightarrow> string \<Rightarrow> string list \<Rightarrow> int \<Rightarrow> conv_error + int" where
  "attachments_size db org [] bytes = Inr bytes"
| "attachments_size db org (i # is) bytes =
     (case getAttachment db org i of
        None \<Rightarrow> Inl (Attachment_Not_Found i)
      | Some a \<Rightarrow>
          if at_sizeBytes a > ATTACHMENT_FILE_LIMIT_BYTES then Inl (Attachment_Too_Large (at_filename a))
          else attachments_size db org is (bytes + at_sizeBytes a))"

definition requireAttachments :: "conv_db \<Rightarrow> string \<Rightarrow> string list \<Rightarrow> conv_error + unit" where
  "requireAttachments db org ids =
     (case attachments_size db org ids 0 of
        Inl e \<Rightarrow> Inl e
      | Inr bytes \<Rightarrow> if bytes > ATTACHMENT_MESSAGE_LIMIT_BYTES then Inl Attachments_Too_Large else Inr ())"

definition requireMessage :: "conv_db \<Rightarrow> string \<Rightarrow> string \<Rightarrow> conv_error + message" where
  "requireMessage db org i = or_fail (getMessage db org i) (Message_Not_Found i)"

section \<open>Creation times\<close>

definition evict_stale :: "(string \<times> int) list \<Rightarrow> int \<Rightarrow> int \<Rightarrow> (string \<times> int) list" where
  "evict_stale m now maxAge = filter (\<lambda>(_, t). \<not> now - t > maxAge) m"

definition next_created_at :: "string \<Rightarrow> int \<Rightarrow> int \<Rightarrow> (string \<times> int) list \<Rightarrow> int \<times> (string \<times> int) list" where
  "next_created_at key requested now m =
     (let previous = coalesce (kv_get m key) 0;
          next = max requested (previous + 1);
          m' = kv_put key next m
      in (next, if length m' > 1024 then evict_stale m' now (10 * 60 * 1000) else m'))"

definition nextMessageCreatedAt :: "conv_env \<Rightarrow> string \<Rightarrow> string \<Rightarrow> int \<Rightarrow> conv_state \<Rightarrow> int \<times> conv_state" where
  "nextMessageCreatedAt env org threadId requestedAt st =
     (case next_created_at (quota_key [org, threadId]) requestedAt (ce_now env) (cv_last st) of
        (t, m) \<Rightarrow> (t, st\<lparr>cv_last := m\<rparr>))"

section \<open>The write path\<close>

definition orgRoom :: "string \<Rightarrow> string" where "orgRoom i = ''org:'' @ i"
definition channelRoom :: "string \<Rightarrow> string" where "channelRoom i = ''channel:'' @ i"
definition threadRoom :: "string \<Rightarrow> string" where "threadRoom i = ''thread:'' @ i"
definition memberRoom :: "string \<Rightarrow> string" where "memberRoom i = ''member:'' @ i"

definition getPublishRooms :: "message \<Rightarrow> channel option \<Rightarrow> string list" where
  "getPublishRooms m channel =
     (case channel of
        Some c \<Rightarrow>
          if ch_kind c = Ch_Dm \<or> ch_kind c = Ch_Self
          then [orgRoom (ms_org m), channelRoom (ch_id c), threadRoom (ms_thread m)] @ map memberRoom (ch_memberIds c)
          else [orgRoom (ms_org m)] @ (case ms_channel m of Some x \<Rightarrow> [channelRoom x] | None \<Rightarrow> []) @ [threadRoom (ms_thread m)]
      | None \<Rightarrow> [orgRoom (ms_org m)] @ (case ms_channel m of Some x \<Rightarrow> [channelRoom x] | None \<Rightarrow> []) @ [threadRoom (ms_thread m)])"

definition message_event :: "message \<Rightarrow> channel option \<Rightarrow> message_topic" where
  "message_event m channel =
     (if (case channel of Some c \<Rightarrow> ch_kind c = Ch_Dm | None \<Rightarrow> False) then Ev_Dm_Message
      else if ms_channel m \<noteq> None then Ev_Channel_Message else Ev_Thread_Message)"

record publish_options =
  po_suppressDmAlerts :: bool
  po_silent :: bool
  po_skipMentionResolution :: bool
  po_wakeNever :: bool

definition default_options :: publish_options where
  "default_options = \<lparr>po_suppressDmAlerts = False, po_silent = False, po_skipMentionResolution = False, po_wakeNever = False\<rparr>"

text \<open>Mentions as the ids of their members; the caller may give them.\<close>

definition resolved_mentions :: "conv_db \<Rightarrow> message \<Rightarrow> channel option \<Rightarrow> string list option \<Rightarrow> publish_options \<Rightarrow> string list" where
  "resolved_mentions db m channel typed opts =
     (if po_skipMentionResolution opts then coalesce typed []
      else case typed of
        Some ids \<Rightarrow> ids
      | None \<Rightarrow> resolveMentionIds (db_listMembers db (ms_org m)) (ms_content m) (map_option ch_memberIds channel)
                  (ms_senderKind m) (ms_mentions m))"

definition mention_rows :: "message \<Rightarrow> string list \<Rightarrow> mention_row list" where
  "mention_rows m ids = map (\<lambda>i. \<lparr>mn_message = ms_id m, mn_member = i, mn_createdAt = ms_createdAt m\<rparr>) ids"

definition message_channel :: "conv_db \<Rightarrow> message \<Rightarrow> conv_error + channel option" where
  "message_channel db m =
     (case ms_channel m of
        None \<Rightarrow> Inr None
      | Some c \<Rightarrow> (case requireActiveChannel db (ms_org m) c of Inl e \<Rightarrow> Inl e | Inr x \<Rightarrow> Inr (Some x)))"

text \<open>After the row: mentions, attachments, the event.\<close>

definition finish_write ::
  "message \<Rightarrow> string list \<Rightarrow> string list \<Rightarrow> channel option \<Rightarrow> message \<Rightarrow> publish_options \<Rightarrow> conv_state \<Rightarrow> message conv_result" where
  "finish_write final mentions linked channel m opts st =
     (let st1 = with_db (replaceMessageMentions (ms_id final) (mention_rows m mentions)) st
      in case linkAttachmentsToMessage (ms_id final) linked (cv_db st1) of
        (False, db) \<Rightarrow> (st1\<lparr>cv_db := db\<rparr>, Inl Constraint_Violated)
      | (True, db) \<Rightarrow>
          (let st2 = st1\<lparr>cv_db := db\<rparr>;
               emitted = (if linked \<noteq> [] then final\<lparr>ms_attachments := listMessageAttachments db (ms_id final)\<rparr> else final)
           in (if po_silent opts then st2
               else say (Emitted (message_event emitted channel) emitted (getPublishRooms emitted channel)) st2, Inr emitted)))"

definition write_message ::
  "conv_env \<Rightarrow> message \<Rightarrow> string list option \<Rightarrow> string list option \<Rightarrow> publish_options \<Rightarrow> conv_state \<Rightarrow> message conv_result" where
  "write_message env m typed attachmentIds opts st =
     and_with st (message_channel (cv_db st) m) (\<lambda>channel.
       let db = cv_db st;
           mentions = resolved_mentions db m channel typed opts;
           existing = getMessage db (ms_org m) (ms_id m);
           (created, st1) = (case existing of
               Some x \<Rightarrow> (ms_createdAt x, st)
             | None \<Rightarrow> nextMessageCreatedAt env (ms_org m) (ms_thread m) (ms_createdAt m) st);
           inDm = (case channel of Some c \<Rightarrow> ch_kind c = Ch_Dm | None \<Rightarrow> False);
           final = m\<lparr>ms_createdAt := created, ms_mentions := uniq mentions,
                     ms_mentionNames := Some (resolveMentionNames (db_listMembers db (ms_org m)) (ms_content m) inDm)\<rparr>;
           linked = coalesce attachmentIds (ms_attachments final)
       in and_with st1 (if linked = [] then Inr () else requireAttachments db (ms_org final) linked) (\<lambda>_.
            case existing of
              Some x \<Rightarrow>
                (case updateMessage (final\<lparr>ms_editedAt := Some (ce_now env)\<rparr>) (cv_db st1) of
                   None \<Rightarrow> (st1, Inl Constraint_Violated)
                 | Some db' \<Rightarrow> finish_write final mentions linked channel m opts (st1\<lparr>cv_db := db'\<rparr>))
            | None \<Rightarrow>
                (case saveMessage final (cv_db st1) of
                   None \<Rightarrow> (st1, Inl Constraint_Violated)
                 | Some (saved, db') \<Rightarrow>
                     if ms_id saved \<noteq> ms_id final then (st1\<lparr>cv_db := db'\<rparr>, Inr saved)
                     else finish_write final mentions linked channel m opts (st1\<lparr>cv_db := db'\<rparr>))))"

section \<open>Publishing\<close>

text \<open>The command \<open>/^@workflow[:\s]+[^\s:]+/i\<close> of a person starts a workflow and wakes nobody.\<close>

definition isWorkflowCommand :: "message \<Rightarrow> bool" where
  "isWorkflowCommand m =
     (let s = to_lower (trim (ms_content m)); rest = drop 9 s;
          gap = takeWhile (\<lambda>c. c = CHR 0x3A \<or> is_ws c) rest
      in ms_senderKind m = Human \<and> starts_with s ''@workflow'' \<and> gap \<noteq> [] \<and> length gap < length rest)"

definition publish_wakes ::
  "conv_env \<Rightarrow> (string \<Rightarrow> string \<Rightarrow> string \<Rightarrow> conv_state \<Rightarrow> bool \<times> conv_state) \<Rightarrow> message \<Rightarrow> channel option \<Rightarrow>
   string list \<Rightarrow> publish_options \<Rightarrow> conv_state \<Rightarrow> conv_state" where
  "publish_wakes env notify m channel mentions opts st =
     (if po_wakeNever opts \<or> isWorkflowCommand m \<or> shouldSuppressDmWake st m channel then st
      else
        (let st1 = alertMentionedMembers env notify m mentions channel st;
             dmDone = (case channel of
                 Some c \<Rightarrow> ch_kind c = Ch_Dm \<and> list_ex (\<lambda>i. i \<noteq> ms_sender m \<and> i \<in> set mentions) (ch_memberIds c)
               | None \<Rightarrow> False);
             st2 = (if po_suppressDmAlerts opts \<or> dmDone then st1 else alertDirectMessageParticipants env m channel st1)
         in alertChannelReaders env m channel mentions st2))"

definition publish_with ::
  "(string \<Rightarrow> string \<Rightarrow> string \<Rightarrow> conv_state \<Rightarrow> bool \<times> conv_state) \<Rightarrow> conv_env \<Rightarrow> message \<Rightarrow> string list option \<Rightarrow>
   string list option \<Rightarrow> publish_options \<Rightarrow> conv_state \<Rightarrow> message conv_result" where
  "publish_with notify env m typed attachmentIds opts st =
     (case write_message env m typed attachmentIds opts st of
        (st1, Inl e) \<Rightarrow> (st1, Inl e)
      | (st1, Inr emitted) \<Rightarrow>
          if ms_id emitted \<noteq> ms_id m then (st1, Inr emitted)
          else and_with st1 (message_channel (cv_db st1) m) (\<lambda>channel.
            if po_silent opts then (st1, Inr emitted)
            else (say (Message_Published emitted)
                    (publish_wakes env notify emitted channel (resolved_mentions (cv_db st1) m channel typed opts) opts st1),
                  Inr emitted)))"

record message_draft =
  dr_org :: string
  dr_thread :: string
  dr_channel :: "string option"
  dr_parent :: "string option"
  dr_sender :: string
  dr_senderKind :: member_kind
  dr_kind :: message_kind
  dr_content :: string
  dr_mentions :: "string list"
  dr_metadata :: "(string \<times> json) list"
  dr_clientId :: "string option"
  dr_createdAt :: "int option"

definition buildMessage :: "conv_env \<Rightarrow> message_draft \<Rightarrow> conv_state \<Rightarrow> message \<times> conv_state" where
  "buildMessage env d st =
     (case uuid env st of
        (i, st') \<Rightarrow>
          (\<lparr>ms_id = i, ms_org = dr_org d, ms_thread = dr_thread d, ms_channel = dr_channel d, ms_parent = dr_parent d,
            ms_sender = dr_sender d, ms_senderKind = dr_senderKind d, ms_kind = dr_kind d, ms_content = dr_content d,
            ms_mentions = dr_mentions d, ms_mentionNames = None, ms_toolCalls = [], ms_attachments = [],
            ms_metadata = dr_metadata d, ms_clientId = dr_clientId d,
            ms_createdAt = coalesce (dr_createdAt d) (ce_now env), ms_editedAt = None, ms_deletedAt = None\<rparr>, st'))"

definition system_draft :: "string \<Rightarrow> string \<Rightarrow> string \<Rightarrow> message_draft" where
  "system_draft org channelId content =
     \<lparr>dr_org = org, dr_thread = channelId, dr_channel = Some channelId, dr_parent = None, dr_sender = ''system'',
      dr_senderKind = Human, dr_kind = Mk_System, dr_content = content, dr_mentions = [], dr_metadata = [],
      dr_clientId = None, dr_createdAt = None\<rparr>"

definition throttle_text :: "string \<Rightarrow> string \<Rightarrow> string" where
  "throttle_text memberId byMemberId =
     ''member.alert_throttled: mention delivery for '' @ dq memberId @ '' by '' @ dq byMemberId @ '' exceeded alerts window''"

text \<open>
  A notice names no member, so its own publishing sends no further notice: what it passes as
  \<open>notify\<close> is never called.
\<close>

definition publishMentionThrottled ::
  "conv_env \<Rightarrow> string \<Rightarrow> string \<Rightarrow> string \<Rightarrow> conv_state \<Rightarrow> bool \<times> conv_state" where
  "publishMentionThrottled env org memberId byMemberId st =
     (case find (\<lambda>c. ch_name c = ''general'' \<or> ch_id c = ''general'') (listAllChannels (cv_db st) org) of
        None \<Rightarrow> (True, st)
      | Some c \<Rightarrow>
          (case buildMessage env (system_draft org (ch_id c) (throttle_text memberId byMemberId)) st of
             (m, st') \<Rightarrow>
               (case publish_with (\<lambda>_ _ _ s. (True, s)) env m (Some []) None default_options st' of
                  (st'', Inl _) \<Rightarrow> (False, st'')
                | (st'', Inr _) \<Rightarrow> (True, st''))))"

definition publishMessage ::
  "conv_env \<Rightarrow> message \<Rightarrow> string list option \<Rightarrow> string list option \<Rightarrow> publish_options \<Rightarrow> conv_state \<Rightarrow> message conv_result" where
  "publishMessage env m typed attachmentIds opts st =
     publish_with (publishMentionThrottled env) env m typed attachmentIds opts st"

end
