(* ===== verification/MessagingOps.thy ===== *)
theory MessagingOps
  imports Messaging
begin

text \<open>
  The operations of the conversation service that agents and people post with: messages in
  threads and channels, replies, direct messages, notes to oneself, edits and deletions, and
  the gate against mirrored acknowledgements.
\<close>

section \<open>Messages in threads\<close>

record send_input =
  si_org :: string
  si_thread :: string
  si_channel :: "string option"
  si_sender :: string
  si_content :: string
  si_mentions :: "string list"
  si_parent :: "string option"
  si_attachments :: "string list option"
  si_metadata :: "(string \<times> json) list"
  si_clientId :: "string option"

definition kind_of_member :: "member_kind \<Rightarrow> message_kind" where
  "kind_of_member k = (case k of Human \<Rightarrow> Mk_Human | Agent \<Rightarrow> Mk_Agent)"

definition find_existing :: "conv_db \<Rightarrow> string \<Rightarrow> string \<Rightarrow> string \<Rightarrow> string option \<Rightarrow> message option" where
  "find_existing db org sender threadId client =
     (case client of None \<Rightarrow> None | Some c \<Rightarrow> findMessageByClientId db org sender threadId c)"

text \<open>The sender of the parent is mentioned, unless the reply only acknowledges.\<close>

definition inherited_mentions :: "send_input \<Rightarrow> message option \<Rightarrow> string list" where
  "inherited_mentions i parent =
     uniq (si_mentions i @
       (case parent of
          None \<Rightarrow> []
        | Some p \<Rightarrow> if isVacuousAck (si_content i) \<and> si_mentions i = [] then [] else [ms_sender p]))"

definition send_draft :: "send_input \<Rightarrow> conv_member \<Rightarrow> message option \<Rightarrow> message_draft" where
  "send_draft i sender parent =
     \<lparr>dr_org = si_org i, dr_thread = si_thread i, dr_channel = si_channel i, dr_parent = si_parent i,
      dr_sender = si_sender i, dr_senderKind = cm_kind sender, dr_kind = kind_of_member (cm_kind sender),
      dr_content = si_content i, dr_mentions = inherited_mentions i parent, dr_metadata = si_metadata i,
      dr_clientId = si_clientId i, dr_createdAt = None\<rparr>"

definition find_parent :: "conv_db \<Rightarrow> string \<Rightarrow> string option \<Rightarrow> conv_error + message option" where
  "find_parent db org parent =
     (case parent of
        None \<Rightarrow> Inr None
      | Some p \<Rightarrow> (case requireMessage db org p of Inl e \<Rightarrow> Inl e | Inr m \<Rightarrow> Inr (Some m)))"

definition send_thread :: "conv_env \<Rightarrow> send_input \<Rightarrow> conv_member \<Rightarrow> channel option \<Rightarrow> thread" where
  "send_thread env i sender channel =
     \<lparr>th_id = si_thread i, th_org = si_org i, th_channel = si_channel i,
      th_title = (case channel of Some c \<Rightarrow> ch_name c | None \<Rightarrow> []), th_createdAt = ce_now env,
      th_memberIds = (case channel of Some c \<Rightarrow> ch_memberIds c | None \<Rightarrow> [cm_id sender])\<rparr>"

definition writable :: "conv_db \<Rightarrow> send_input \<Rightarrow> conv_member \<Rightarrow> conv_error + channel option" where
  "writable db i sender =
     (case si_channel i of
        None \<Rightarrow> Inr None
      | Some c \<Rightarrow> (case requireWritableChannel db (si_org i) c (cm_id sender) of Inl e \<Rightarrow> Inl e | Inr x \<Rightarrow> Inr (Some x)))"

definition sendMessage :: "conv_env \<Rightarrow> send_input \<Rightarrow> conv_state \<Rightarrow> message conv_result" where
  "sendMessage env i st =
     and_with st (requireOrganization (cv_db st) (si_org i)) (\<lambda>_.
     and_with st (or_fail (db_getMember (cv_db st) (si_org i) (si_sender i)) (Sender_Not_Found (si_sender i))) (\<lambda>sender.
     and_with st (writable (cv_db st) i sender) (\<lambda>channel.
       case find_existing (cv_db st) (si_org i) (si_sender i) (si_thread i) (si_clientId i) of
         Some existing \<Rightarrow> (st, Inr existing)
       | None \<Rightarrow>
           (let st1 = with_db (ensureThread (send_thread env i sender channel)) st in
            and_with st1 (find_parent (cv_db st1) (si_org i) (si_parent i)) (\<lambda>parent.
              case buildMessage env (send_draft i sender parent) st1 of
                (m, st2) \<Rightarrow> publishMessage env m None (si_attachments i) default_options st2)))))"

record post_input =
  pi_org :: string
  pi_sender :: string
  pi_target :: string
  pi_body :: string
  pi_replyTo :: "string option"
  pi_mentions :: "string list"
  pi_attachments :: "string list option"
  pi_metadata :: "(string \<times> json) list"

definition send_of_post :: "post_input \<Rightarrow> string \<Rightarrow> string option \<Rightarrow> string option \<Rightarrow> send_input" where
  "send_of_post i threadId channelId parent =
     \<lparr>si_org = pi_org i, si_thread = threadId, si_channel = channelId, si_sender = pi_sender i,
      si_content = pi_body i, si_mentions = pi_mentions i, si_parent = parent,
      si_attachments = pi_attachments i, si_metadata = pi_metadata i, si_clientId = None\<rparr>"

text \<open>\<open>pi_target\<close> is the channel.\<close>

definition postToChannel :: "conv_env \<Rightarrow> post_input \<Rightarrow> conv_state \<Rightarrow> message conv_result" where
  "postToChannel env i st =
     and_with st (requireActiveChannel (cv_db st) (pi_org i) (pi_target i)) (\<lambda>c.
       case pi_replyTo i of
         None \<Rightarrow> sendMessage env (send_of_post i (ch_id c) (Some (ch_id c)) None) st
       | Some r \<Rightarrow>
           and_with st (requireMessage (cv_db st) (pi_org i) r) (\<lambda>parent.
             if ms_channel parent \<noteq> Some (ch_id c) then (st, Inl (Reply_Across_Channels (ms_id parent)))
             else sendMessage env (send_of_post i (ms_thread parent) (Some (ch_id c)) (Some r)) st))"

text \<open>\<open>pi_target\<close> is the message answered.\<close>

definition replyToMessage :: "conv_env \<Rightarrow> post_input \<Rightarrow> conv_state \<Rightarrow> message conv_result" where
  "replyToMessage env i st =
     and_with st (requireMessage (cv_db st) (pi_org i) (pi_target i)) (\<lambda>parent.
       sendMessage env (send_of_post i (ms_thread parent) (ms_channel parent) (Some (ms_id parent))) st)"

section \<open>Notes and direct messages\<close>

definition selfChannelId :: "string \<Rightarrow> string" where
  "selfChannelId memberId = ''self:'' @ memberId"

definition self_channel :: "string \<Rightarrow> conv_member \<Rightarrow> channel_row" where
  "self_channel org x =
     \<lparr>ch_id = selfChannelId (cm_id x), ch_org = org, ch_name = cm_name x @ '' (self)'', ch_kind = Ch_Self,
      ch_topic = ''Private working notes'', ch_parent = None, ch_createdAt = 0, ch_archivedAt = None\<rparr>"

definition self_thread :: "conv_env \<Rightarrow> string \<Rightarrow> conv_member \<Rightarrow> thread" where
  "self_thread env org x =
     \<lparr>th_id = selfChannelId (cm_id x), th_org = org, th_channel = Some (selfChannelId (cm_id x)),
      th_title = cm_name x @ '' (self)'', th_createdAt = ce_now env, th_memberIds = [cm_id x]\<rparr>"

definition self_draft :: "string \<Rightarrow> conv_member \<Rightarrow> string \<Rightarrow> string option \<Rightarrow> message_draft" where
  "self_draft org x body client =
     \<lparr>dr_org = org, dr_thread = selfChannelId (cm_id x), dr_channel = Some (selfChannelId (cm_id x)), dr_parent = None,
      dr_sender = cm_id x, dr_senderKind = cm_kind x, dr_kind = kind_of_member (cm_kind x), dr_content = body,
      dr_mentions = [], dr_metadata = [], dr_clientId = client, dr_createdAt = None\<rparr>"

definition sendSelfNote ::
  "conv_env \<Rightarrow> string \<Rightarrow> string \<Rightarrow> string \<Rightarrow> string list option \<Rightarrow> string option \<Rightarrow> conv_state \<Rightarrow> message conv_result" where
  "sendSelfNote env org memberId body attachmentIds client st =
     and_with st (requireOrganization (cv_db st) org) (\<lambda>_.
     and_with st (or_fail (db_getMember (cv_db st) org memberId) (Member_Not_Found memberId)) (\<lambda>x.
       let ch = selfChannelId (cm_id x);
           st1 = (case getChannel (cv_db st) org ch of
               Some _ \<Rightarrow> st
             | None \<Rightarrow> with_db (setChannelMembers org ch [cm_id x]) (with_db (saveChannel (self_channel org x) (ce_now env)) st));
           st2 = with_db (ensureThread (self_thread env org x)) st1
       in case find_existing (cv_db st2) org (cm_id x) ch client of
            Some existing \<Rightarrow> (st2, Inr existing)
          | None \<Rightarrow>
              (case buildMessage env (self_draft org x body client) st2 of
                 (m, st3) \<Rightarrow> publishMessage env m (Some []) attachmentIds default_options st3)))"

definition dm_name :: "conv_member \<Rightarrow> conv_member \<Rightarrow> string" where
  "dm_name a b =
     (if cm_id a = cm_id b then cm_name a @ '' (self delegation)''
      else join_with '' / '' (sort_cmp str_cmp [cm_name a, cm_name b]))"

definition dm_channel :: "string \<Rightarrow> conv_member \<Rightarrow> conv_member \<Rightarrow> channel_row" where
  "dm_channel org a b =
     \<lparr>ch_id = getDirectMessageThreadId (cm_id a) (cm_id b), ch_org = org, ch_name = dm_name a b, ch_kind = Ch_Dm,
      ch_topic = [], ch_parent = None, ch_createdAt = 0, ch_archivedAt = None\<rparr>"

definition dm_thread :: "conv_env \<Rightarrow> string \<Rightarrow> conv_member \<Rightarrow> conv_member \<Rightarrow> thread" where
  "dm_thread env org a b =
     \<lparr>th_id = getDirectMessageThreadId (cm_id a) (cm_id b), th_org = org,
      th_channel = Some (getDirectMessageThreadId (cm_id a) (cm_id b)), th_title = dm_name a b,
      th_createdAt = ce_now env, th_memberIds = sorted_ids [cm_id a, cm_id b]\<rparr>"

text \<open>The channel is saved afresh every time, which also takes it out of the archive.\<close>

definition open_dm :: "conv_env \<Rightarrow> string \<Rightarrow> conv_member \<Rightarrow> conv_member \<Rightarrow> conv_state \<Rightarrow> conv_state" where
  "open_dm env org a b st =
     with_db (ensureThread (dm_thread env org a b))
       (with_db (setChannelMembers org (ch_id (dm_channel org a b)) (sorted_ids [cm_id a, cm_id b]))
         (with_db (saveChannel (dm_channel org a b) (ce_now env)) st))"

record dm_input =
  dm_org :: string
  dm_sender :: string
  dm_recipient :: string
  dm_content :: string
  dm_mentions :: "string list"
  dm_parent :: "string option"
  dm_ignore :: bool
  dm_attachments :: "string list option"
  dm_metadata :: "(string \<times> json) list"
  dm_clientId :: "string option"

definition dm_draft :: "conv_env \<Rightarrow> dm_input \<Rightarrow> conv_member \<Rightarrow> string \<Rightarrow> string \<Rightarrow> message_draft" where
  "dm_draft env i sender threadId channelId =
     \<lparr>dr_org = dm_org i, dr_thread = threadId, dr_channel = Some channelId, dr_parent = dm_parent i,
      dr_sender = dm_sender i, dr_senderKind = cm_kind sender, dr_kind = kind_of_member (cm_kind sender),
      dr_content = dm_content i, dr_mentions = dm_mentions i, dr_metadata = dm_metadata i,
      dr_clientId = dm_clientId i, dr_createdAt = Some (ce_now env)\<rparr>"

text \<open>Where the message goes: with a parent, into the parent's thread and channel.\<close>

definition dm_place :: "message option \<Rightarrow> string \<Rightarrow> string \<times> string" where
  "dm_place parent channelId =
     (case parent of
        None \<Rightarrow> (channelId, channelId)
      | Some p \<Rightarrow> (ms_thread p, coalesce (ms_channel p) channelId))"

definition sendDirectMessage :: "conv_env \<Rightarrow> dm_input \<Rightarrow> conv_state \<Rightarrow> message conv_result" where
  "sendDirectMessage env i st =
     and_with st (requireOrganization (cv_db st) (dm_org i)) (\<lambda>_.
     and_with st (or_fail (db_getMember (cv_db st) (dm_org i) (dm_sender i)) (Sender_Not_Found (dm_sender i))) (\<lambda>sender.
       if dm_recipient i = ''self''
       then sendSelfNote env (dm_org i) (dm_sender i) (dm_content i) (dm_attachments i) (dm_clientId i) st
       else
         and_with st (or_fail (db_getMember (cv_db st) (dm_org i) (dm_recipient i)) (Recipient_Not_Found (dm_recipient i))) (\<lambda>recipient.
         and_with st (find_parent (cv_db st) (dm_org i) (dm_parent i)) (\<lambda>parent.
           case dm_place parent (ch_id (dm_channel (dm_org i) sender recipient)) of
             (threadId, channelId) \<Rightarrow>
               (case find_existing (cv_db st) (dm_org i) (dm_sender i) threadId (dm_clientId i) of
                  Some existing \<Rightarrow> (st, Inr existing)
                | None \<Rightarrow>
                    (case buildMessage env (dm_draft env i sender threadId channelId) (open_dm env (dm_org i) sender recipient st) of
                       (m, st2) \<Rightarrow>
                         publishMessage env m None (dm_attachments i)
                           (if dm_ignore i then default_options\<lparr>po_suppressDmAlerts := True\<rparr> else default_options) st2))))))"

definition sendDirectSystemMessage ::
  "conv_env \<Rightarrow> string \<Rightarrow> string \<Rightarrow> string \<Rightarrow> string \<Rightarrow> bool \<Rightarrow> string list option \<Rightarrow> conv_state \<Rightarrow> message conv_result" where
  "sendDirectSystemMessage env org memberIdA memberIdB content suppressDmAlerts attachmentIds st =
     and_with st (requireOrganization (cv_db st) org) (\<lambda>_.
       let a = db_getMember (cv_db st) org memberIdA; b = db_getMember (cv_db st) org memberIdB in
       and_with st (or_fail a (Member_Not_Found memberIdA)) (\<lambda>x.
       and_with st (or_fail b (Member_Not_Found memberIdB)) (\<lambda>y.
         case buildMessage env (system_draft org (ch_id (dm_channel org x y)) content) (open_dm env org x y st) of
           (m, st2) \<Rightarrow>
             publishMessage env m (Some []) attachmentIds
               (default_options\<lparr>po_suppressDmAlerts := suppressDmAlerts, po_skipMentionResolution := True\<rparr>) st2)))"

section \<open>Edits and deletions\<close>

definition channel_members_of :: "conv_db \<Rightarrow> message \<Rightarrow> string list option" where
  "channel_members_of db m =
     (case ms_channel m of None \<Rightarrow> None | Some c \<Rightarrow> map_option ch_memberIds (getChannel db (ms_org m) c))"

definition edited_mentions :: "conv_db \<Rightarrow> message \<Rightarrow> string \<Rightarrow> string list" where
  "edited_mentions db m content =
     (let members = db_listMembers db (ms_org m); cs = channel_members_of db m
      in resolveMentionIds members content cs (ms_senderKind m)
           (inferExplicitMentionIds members (ms_content m) cs (ms_senderKind m) (ms_mentions m)))"

definition editMessage :: "conv_env \<Rightarrow> string \<Rightarrow> string \<Rightarrow> string \<Rightarrow> string \<Rightarrow> conv_state \<Rightarrow> message conv_result" where
  "editMessage env org messageId editorId content st =
     and_with st (requireMessage (cv_db st) org messageId) (\<lambda>existing.
       if ms_sender existing \<noteq> editorId then (st, Inl (Cannot_Edit messageId editorId))
       else
         (let ids = edited_mentions (cv_db st) existing content;
              updated = existing\<lparr>ms_content := content, ms_mentions := uniq ids, ms_editedAt := Some (ce_now env)\<rparr>
          in case updateMessage updated (cv_db st) of
               None \<Rightarrow> (st, Inl Constraint_Violated)
             | Some db \<Rightarrow>
                 (st\<lparr>cv_db := replaceMessageMentions (ms_id existing) (mention_rows existing ids) db\<rparr>, Inr updated)))"

definition deleteMessage :: "conv_env \<Rightarrow> string \<Rightarrow> string \<Rightarrow> string \<Rightarrow> conv_state \<Rightarrow> message conv_result" where
  "deleteMessage env org messageId deletedBy st =
     and_with st (requireMessage (cv_db st) org messageId) (\<lambda>existing.
       if ms_sender existing \<noteq> deletedBy then (st, Inl (Cannot_Delete messageId deletedBy))
       else
         (let updated = existing\<lparr>ms_content := ''[deleted]'', ms_deletedAt := Some (ce_now env)\<rparr>
          in case updateMessage updated (cv_db st) of
               None \<Rightarrow> (st, Inl Constraint_Violated)
             | Some db \<Rightarrow> (st\<lparr>cv_db := db\<rparr>, Inr updated)))"

section \<open>Mirrored acknowledgements\<close>

definition tryMirrorSuppress :: "string \<Rightarrow> string \<Rightarrow> string \<Rightarrow> string \<Rightarrow> string \<Rightarrow> conv_state \<Rightarrow> bool \<times> conv_state" where
  "tryMirrorSuppress org runId senderId threadId body st =
     (let recent = map (\<lambda>m. (ms_sender m, ms_content m))
            (filter (\<lambda>m. ms_kind m = Mk_Agent) (pg_data (listMessages (cv_db st) org threadId None 12)));
          result = shouldSuppressForMirror body recent senderId
      in if \<not> mi_triggered result then (False, st)
         else (True, say (Mirror_Suppressed org senderId runId body (mi_score result))
                (case kv_get (cv_runs st) (org, runId) of
                   None \<Rightarrow> st
                 | Some _ \<Rightarrow> st\<lparr>cv_runs := kv_put (org, runId) (Some ''channel.ack'') (cv_runs st)\<rparr>)))"

end
