(* ===== verification/MessagingLaws.thy ===== *)
theory MessagingLaws
  imports MessagingOps
begin

text \<open>
  What every operation of the conversation service keeps: message ids stay unique, so does
  every client key, and whoever was alerted was an active agent that the channel does not
  mute. Members and modes are not touched, so an operation is judged by the relation
  \<open>evolves\<close> between the states around it.
\<close>

section \<open>The invariant\<close>

definition messages_ok :: "conv_db \<Rightarrow> bool" where
  "messages_ok db \<longleftrightarrow> distinct (map ms_id (db_messages db)) \<and> sorted_wrt (\<lambda>a b. \<not> same_client a b) (db_messages db)"

definition alert_ok :: "conv_db \<Rightarrow> alert \<Rightarrow> bool" where
  "alert_ok db a \<longleftrightarrow>
     (case db_getMember db (al_org a) (al_member a) of
        None \<Rightarrow> False
      | Some x \<Rightarrow> cm_kind x = Agent \<and> \<not> cm_retired x) \<and>
     al_member a \<noteq> al_by a \<and>
     (case al_channel a of None \<Rightarrow> True | Some c \<Rightarrow> \<not> blocked_mode (getChannelMemberMode db (al_org a) c (al_member a)))"

definition conv_inv :: "conv_state \<Rightarrow> bool" where
  "conv_inv st \<longleftrightarrow> messages_ok (cv_db st) \<and> (\<forall>a. Member_Alerted a \<in> set (cv_log st) \<longrightarrow> alert_ok (cv_db st) a)"

definition same_people :: "conv_db \<Rightarrow> conv_db \<Rightarrow> bool" where
  "same_people db db' \<longleftrightarrow> db_members db' = db_members db \<and> db_modes db' = db_modes db"

definition evolves :: "conv_state \<Rightarrow> conv_state \<Rightarrow> bool" where
  "evolves st st' \<longleftrightarrow> same_people (cv_db st) (cv_db st') \<and> (conv_inv st \<longrightarrow> conv_inv st')"

lemma same_people_simps:
  assumes "same_people db db'"
  shows "db_getMember db' = db_getMember db" "getChannelMemberMode db' = getChannelMemberMode db" "alert_ok db' = alert_ok db"
proof -
  show g: "db_getMember db' = db_getMember db" "getChannelMemberMode db' = getChannelMemberMode db"
    using assms by (auto simp: same_people_def db_getMember_def getChannelMemberMode_def fun_eq_iff)
  show "alert_ok db' = alert_ok db" by (rule ext) (unfold alert_ok_def g, rule refl)
qed

lemma evolves_refl [simp, intro]: "evolves st st"
  by (simp add: evolves_def same_people_def)

lemma evolves_trans [trans]: "evolves a b \<Longrightarrow> evolves b c \<Longrightarrow> evolves a c"
  by (simp add: evolves_def same_people_def)

text \<open>Steps that leave the log alone and the messages too.\<close>

lemma evolves_quiet:
  assumes "same_people (cv_db st) (cv_db st')" "db_messages (cv_db st') = db_messages (cv_db st)" "cv_log st' = cv_log st"
  shows "evolves st st'"
  using assms by (simp add: evolves_def conv_inv_def messages_ok_def same_people_simps(3))

lemma evolves_messages:
  assumes "same_people (cv_db st) (cv_db st')" "messages_ok (cv_db st) \<Longrightarrow> messages_ok (cv_db st')" "cv_log st' = cv_log st"
  shows "evolves st st'"
  using assms by (simp add: evolves_def conv_inv_def same_people_simps(3))

lemma evolves_say: "(\<And>a. e = Member_Alerted a \<Longrightarrow> alert_ok (cv_db st) a) \<Longrightarrow> evolves st (say e st)"
  by (auto simp: evolves_def say_def conv_inv_def same_people_def)

section \<open>Wakes\<close>

lemma evolves_counters:
  "evolves st (snd (consume_mention k now st))" "evolves st (snd (consume_read k now st))"
  "evolves st (snd (record_mention c k now st))" "evolves st (snd (uuid env st))"
  "cv_db (snd (consume_mention k now st)) = cv_db st" "cv_db (snd (consume_read k now st)) = cv_db st"
  "cv_db (snd (record_mention c k now st)) = cv_db st" "cv_db (snd (uuid env st)) = cv_db st"
  by (auto simp: consume_mention_def consume_read_def record_mention_def uuid_def same_people_def
      intro!: evolves_quiet split: prod.splits)

lemma getMember_id: "db_getMember db org i = Some x \<Longrightarrow> cm_id x = i \<and> cm_org x = org"
  using tbl_find_Some [of member_key "(org, i)" "db_members db" x] by (auto simp: db_getMember_def member_key_def)

lemma evolves_alert:
  assumes "memberId \<noteq> ms_sender m"
    and "\<And>c. ch = Some c \<Longrightarrow> \<not> blocked_mode (getChannelMemberMode (cv_db st) (ms_org m) (ch_id c) memberId)"
  shows "evolves st (alertMember m memberId ch reason st)"
  using assms getMember_id [of "cv_db st" "ms_org m" memberId]
  by (auto simp: alertMember_def alert_ok_def intro!: evolves_say split: option.split)

lemma alertMember_db [simp]: "cv_db (alertMember m i ch r st) = cv_db st"
  by (simp add: alertMember_def say_def split: option.split)

lemma say_db [simp]: "cv_db (say e st) = cv_db st"
  by (simp add: say_def)

lemma evolves_alert_mention:
  assumes "\<And>org i by s. evolves s (snd (notify org i by s))"
  shows "evolves st (snd (alert_mention env notify m ch i st))"
proof (cases "wakeable_mention st m ch i")
  case True
  obtain ok st1 where c: "consume_mention (quota_key [ms_org m, i]) (ce_now env) st = (ok, st1)" by force
  then have 1: "evolves st st1" "cv_db st1 = cv_db st"
    using evolves_counters(1,5) [where st = st and k = "quota_key [ms_org m, i]" and now = "ce_now env"] by simp_all
  obtain n st2 where r: "record_mention (ms_senderKind m = Agent) (pair_key m i) (ce_now env) st1 = (n, st2)" by force
  then have 2: "evolves st1 st2" "cv_db st2 = cv_db st1"
    using evolves_counters(3,7) [where st = st1 and c = "ms_senderKind m = Agent" and k = "pair_key m i" and now = "ce_now env"] by simp_all
  have "evolves st2 (alertMember m i ch ''mention'' st2)"
    using True 1 2 by (intro evolves_alert) (auto simp: wakeable_mention_def)
  moreover have "evolves st2 (say (Echo_Suppressed (ms_org m) (ms_sender m) i (map_option ch_id ch) (Some (ms_thread m)) n) st2)"
    by (rule evolves_say) simp
  ultimately have "evolves st (alertMember m i ch ''mention'' st2)"
    "evolves st (say (Echo_Suppressed (ms_org m) (ms_sender m) i (map_option ch_id ch) (Some (ms_thread m)) n) st2)"
    using 1(1) 2(1) evolves_trans by blast+
  moreover have "evolves st (snd (notify (ms_org m) i (ms_sender m) st1))" using 1(1) assms evolves_trans by blast
  ultimately show ?thesis using True c r by (simp add: alert_mention_def split: bool.split)
qed (simp add: alert_mention_def)

lemma evolves_alert_loop:
  "(\<And>i s. evolves s (snd (f i s))) \<Longrightarrow> evolves st (alert_loop f is st)"
proof (induction "is" arbitrary: st)
  case (Cons i "is")
  obtain ok st' where f: "f i st = (ok, st')" by force
  with Cons.prems [of st i] have "evolves st st'" by simp
  moreover have "evolves st' (alert_loop f is st')" by (rule Cons.IH [OF Cons.prems])
  ultimately show ?case using f by (auto split: bool.split intro: evolves_trans)
qed simp

lemma evolves_mentioned:
  "(\<And>org i by s. evolves s (snd (notify org i by s))) \<Longrightarrow> evolves st (alertMentionedMembers env notify m mentions ch st)"
  unfolding alertMentionedMembers_def by (intro evolves_alert_loop evolves_alert_mention)

lemma evolves_fold: "(\<And>x s. x \<in> set xs \<Longrightarrow> evolves s (f x s)) \<Longrightarrow> evolves st (fold f xs st)"
proof (induction xs arbitrary: st)
  case (Cons x xs)
  have "evolves st (f x st)" "evolves (f x st) (fold f xs (f x st))" using Cons by simp_all
  then show ?case by (auto intro: evolves_trans)
qed simp

lemma evolves_reader: "evolves st (alert_reader env m ch mentioned x st)"
proof -
  obtain ok st1 where c: "consume_read (quota_key [ms_org m, cm_id x, ch_id ch]) (ce_now env) st = (ok, st1)" by force
  then have 1: "evolves st st1" "cv_db st1 = cv_db st"
    using evolves_counters(2,6) [where st = st and k = "quota_key [ms_org m, cm_id x, ch_id ch]" and now = "ce_now env"] by simp_all
  have "evolves st1 (alertMember m (cm_id x) (Some ch) ''channel-read'' st1)"
    if "cm_id x \<noteq> ms_sender m" "\<not> blocked_mode (getChannelMemberMode (cv_db st) (ms_org m) (ch_id ch) (cm_id x))"
    using that 1 by (intro evolves_alert) auto
  moreover have "evolves st1 (say (Wake_Suppressed m (cm_id x) w) st1)" "evolves st (say (Wake_Suppressed m (cm_id x) w) st)" for w
    by (rule evolves_say; simp)+
  ultimately show ?thesis
    using 1 c by (auto simp: alert_reader_def Let_def split: bool.split intro: evolves_trans)
qed

lemma evolves_readers: "evolves st (alertChannelReaders env m ch mentions st)"
  by (auto simp: alertChannelReaders_def Let_def intro!: evolves_fold evolves_reader split: option.split)

lemma evolves_participant:
  assumes "i \<noteq> ms_sender m"
  shows "evolves st (alert_participant env m ch i st)"
proof -
  let ?pair = "is_agent (db_getMember (cv_db st) (ms_org m) (ms_sender m)) \<and> is_agent (db_getMember (cv_db st) (ms_org m) i)"
  obtain n st1 where r: "record_mention ?pair (pair_key m i) (ce_now env) st = (n, st1)" by force
  then have 1: "evolves st st1" "cv_db st1 = cv_db st"
    using evolves_counters(3,7) [where st = st and c = ?pair and k = "pair_key m i" and now = "ce_now env"] by simp_all
  let ?e = "Echo_Suppressed (ms_org m) (ms_sender m) i (Some (ch_id ch)) (Some (ms_thread m)) n"
  have "evolves st1 (say ?e st1)" by (rule evolves_say) simp
  moreover have "evolves s (alertMember m i (Some ch) w s)"
    if "\<not> blocked_mode (getChannelMemberMode (cv_db st) (ms_org m) (ch_id ch) i)" "cv_db s = cv_db st" for s w
    using that assms by (intro evolves_alert) auto
  ultimately show ?thesis
    using 1 r by (auto simp: alert_participant_def Let_def intro: evolves_trans)
qed

lemma evolves_participants: "evolves st (alertDirectMessageParticipants env m ch st)"
  by (auto simp: alertDirectMessageParticipants_def intro!: evolves_fold evolves_participant split: option.split)

lemma evolves_wakes:
  assumes "\<And>org i by s. evolves s (snd (notify org i by s))"
  shows "evolves st (publish_wakes env notify m ch mentions opts st)"
proof -
  let ?st1 = "alertMentionedMembers env notify m mentions ch st"
  have 1: "evolves st ?st1" by (rule evolves_mentioned [OF assms])
  have "evolves st (if b then ?st1 else alertDirectMessageParticipants env m ch ?st1)" for b
    using 1 evolves_participants evolves_trans by (cases b) auto
  then have "evolves st (alertChannelReaders env m ch mentions (if b then ?st1 else alertDirectMessageParticipants env m ch ?st1))" for b
    using evolves_readers evolves_trans by blast
  then show ?thesis unfolding publish_wakes_def Let_def by simp
qed

section \<open>The write path\<close>

lemma same_client_sym: "same_client a b = same_client b a"
  by (auto simp: same_client_def)

lemma same_client_row: "same_client (message_row a) b = same_client a b"
  "same_client b (message_row a) = same_client a b" "ms_id (message_row a) = ms_id a"
  by (auto simp: same_client_def message_row_def)

lemma save_ok:
  assumes "saveMessage m db = Some (saved, db')" "messages_ok db"
  shows "messages_ok db'"
  using assms
  by (auto simp: saveMessage_def messages_ok_def sorted_wrt_append same_client_row
      split: if_splits option.splits)

lemma save_people: "saveMessage m db = Some (saved, db') \<Longrightarrow> same_people db db'"
  by (auto simp: saveMessage_def same_people_def split: if_splits option.splits)

lemma update_people: "updateMessage m db = Some db' \<Longrightarrow> same_people db db'"
  by (auto simp: updateMessage_def Let_def same_people_def split: if_splits)

lemma sorted_wrt_map_cong:
  "sorted_wrt P xs \<Longrightarrow> (\<And>x y. x \<in> set xs \<Longrightarrow> y \<in> set xs \<Longrightarrow> x \<noteq> y \<Longrightarrow> P x y \<Longrightarrow> P (f x) (f y)) \<Longrightarrow> distinct xs \<Longrightarrow>
   sorted_wrt P (map f xs)"
  by (induction xs) auto

lemma update_ok:
  assumes "updateMessage m db = Some db'" "messages_ok db"
  shows "messages_ok db'"
proof -
  let ?hit = "\<lambda>x. ms_org x = ms_org m \<and> ms_id x = ms_id m"
  let ?f = "\<lambda>x. if ?hit x then (message_row m)\<lparr>ms_createdAt := ms_createdAt x\<rparr> else x"
  have db': "db_messages db' = map ?f (db_messages db)" and
    clash: "list_ex ?hit (db_messages db) \<Longrightarrow> x \<in> set (db_messages db) \<Longrightarrow> same_client m x \<Longrightarrow> ?hit x" for x
    using assms(1) by (auto simp: updateMessage_def Let_def tbl_update_def split: if_splits)
  have id: "ms_id (?f x) = ms_id x" for x by (simp add: message_row_def)
  have ids: "map ms_id (db_messages db') = map ms_id (db_messages db)" unfolding db' by (simp add: id comp_def)
  have "\<not> same_client (?f x) (?f y)" if "x \<in> set (db_messages db)" "y \<in> set (db_messages db)" "x \<noteq> y" "\<not> same_client x y" for x y
  proof -
    have ids: "ms_id x \<noteq> ms_id y" using assms(2) that by (auto simp: messages_ok_def distinct_map inj_on_def)
    consider "?hit x" "\<not> ?hit y" | "\<not> ?hit x" "?hit y" | "\<not> ?hit x" "\<not> ?hit y" using ids by metis
    then show ?thesis
    proof cases
      case 1
      then have "list_ex ?hit (db_messages db)" using that by (auto simp: list_ex_iff)
      with clash [of y] that 1 have "\<not> same_client m y" by blast
      with 1 show ?thesis by (auto simp: same_client_def message_row_def)
    next
      case 2
      then have "list_ex ?hit (db_messages db)" using that by (auto simp: list_ex_iff)
      with clash [of x] that 2 have "\<not> same_client m x" by blast
      with 2 show ?thesis by (auto simp: same_client_def message_row_def)
    next
      case 3
      with that show ?thesis by auto
    qed
  qed
  moreover have "distinct (db_messages db)" using assms(2) by (simp add: messages_ok_def distinct_map)
  ultimately have "sorted_wrt (\<lambda>a b. \<not> same_client a b) (db_messages db')"
    using assms(2) unfolding db' messages_ok_def by (intro sorted_wrt_map_cong) auto
  with assms(2) show ?thesis unfolding messages_ok_def ids by simp
qed

text \<open>Updates of the other tables.\<close>

definition quiet_db :: "(conv_db \<Rightarrow> conv_db) \<Rightarrow> bool" where
  "quiet_db f \<longleftrightarrow> (\<forall>db. same_people db (f db) \<and> db_messages (f db) = db_messages db)"

lemma quiet_comp: "quiet_db f \<Longrightarrow> quiet_db g \<Longrightarrow> quiet_db (\<lambda>db. f (g db))"
  by (simp add: quiet_db_def same_people_def)

lemma quiet_each: "(\<And>x. quiet_db (f x)) \<Longrightarrow> quiet_db (fold f xs)"
proof (induction xs)
  case (Cons x xs)
  then show ?case by (simp add: quiet_db_def same_people_def)
qed (simp add: quiet_db_def same_people_def)

lemma quiet_links: "quiet_db (replaceChannelMemberLinks org ch ms)" "quiet_db (replaceThreadMemberLinks t ms)"
  "quiet_db (replaceMessageMentions i rows)" "quiet_db (saveChannel c now)"
  by (simp_all add: quiet_db_def same_people_def replaceChannelMemberLinks_def replaceThreadMemberLinks_def
      replaceMessageMentions_def saveChannel_def)

lemma quiet_setThreadMembers: "quiet_db (setThreadMembers org t ms)"
  using quiet_links(1,2) unfolding quiet_db_def setThreadMembers_def Let_def
  by (auto simp: same_people_def split: option.split)

lemma quiet_threads: "quiet_db (saveThread t)" "quiet_db (ensureThread t)"
proof -
  show s: "quiet_db (saveThread t)"
    using quiet_setThreadMembers unfolding quiet_db_def saveThread_def by (simp add: same_people_def)
  show "quiet_db (ensureThread t)"
    using s unfolding quiet_db_def ensureThread_def by (simp add: same_people_def split: option.split)
qed

lemma quiet_setChannelMembers: "quiet_db (setChannelMembers org ch ms)"
  using quiet_links(1) quiet_each [of "\<lambda>t. replaceThreadMemberLinks t ms", OF quiet_links(2)]
  unfolding quiet_db_def setChannelMembers_def Let_def by (simp add: same_people_def)

lemma evolves_with_db: "quiet_db f \<Longrightarrow> evolves st (with_db f st)"
  by (rule evolves_quiet) (simp_all add: quiet_db_def with_db_def)

lemma link_quiet: "link_from n m as db = (ok, db') \<Longrightarrow> same_people db db' \<and> db_messages db' = db_messages db"
  by (induction n m as db rule: link_from.induct) (auto simp: same_people_def split: if_splits)

lemma evolves_and_with:
  "evolves st s \<Longrightarrow> (\<And>x. r = Inr x \<Longrightarrow> evolves st (fst (k x))) \<Longrightarrow> evolves st (fst (and_with s r k))"
  by (simp add: and_with_def split: sum.split)

lemma evolves_finish: "evolves st (fst (finish_write final mentions linked ch m opts st))"
proof -
  let ?st1 = "with_db (replaceMessageMentions (ms_id final) (mention_rows m mentions)) st"
  obtain ok db where l: "linkAttachmentsToMessage (ms_id final) linked (cv_db ?st1) = (ok, db)" by force
  have 1: "evolves st ?st1" by (rule evolves_with_db [OF quiet_links(3)])
  have "evolves ?st1 (?st1\<lparr>cv_db := db\<rparr>)"
    using link_quiet [of 0 "ms_id final" linked "cv_db ?st1" ok db] l
    by (intro evolves_quiet) (simp_all add: linkAttachmentsToMessage_def)
  then have 2: "evolves st (?st1\<lparr>cv_db := db\<rparr>)" using 1 evolves_trans by blast
  have "evolves (?st1\<lparr>cv_db := db\<rparr>) (say (Emitted e x r) (?st1\<lparr>cv_db := db\<rparr>))" for e x r by (rule evolves_say) simp
  then have "evolves st (say (Emitted e x r) (?st1\<lparr>cv_db := db\<rparr>))" for e x r using 2 evolves_trans by blast
  with 2 l show ?thesis by (simp add: finish_write_def Let_def split: bool.split)
qed

lemma evolves_save:
  assumes "saveMessage m (cv_db st) = Some (saved, db)"
  shows "evolves st (st\<lparr>cv_db := db\<rparr>)"
  using save_ok [OF assms] save_people [OF assms] by (intro evolves_messages) simp_all

lemma evolves_update:
  assumes "updateMessage m (cv_db st) = Some db"
  shows "evolves st (st\<lparr>cv_db := db\<rparr>)"
  using update_ok [OF assms] update_people [OF assms] by (intro evolves_messages) simp_all

lemma evolves_created: "evolves st (snd (nextMessageCreatedAt env org t r st))"
  by (auto simp: nextMessageCreatedAt_def same_people_def intro!: evolves_quiet split: prod.splits)

lemma evolves_write: "evolves st (fst (write_message env m typed as opts st))"
  unfolding write_message_def
proof (rule evolves_and_with [OF evolves_refl])
  fix ch
  let ?existing = "getMessage (cv_db st) (ms_org m) (ms_id m)"
  obtain created st1 where c: "(case ?existing of Some x \<Rightarrow> (ms_createdAt x, st)
      | None \<Rightarrow> nextMessageCreatedAt env (ms_org m) (ms_thread m) (ms_createdAt m) st) = (created, st1)" by force
  have 1: "evolves st st1"
    using c evolves_created [of st env "ms_org m" "ms_thread m" "ms_createdAt m"] by (cases ?existing) auto
  have upd: "evolves st (fst (finish_write f ms l c' m opts (st1\<lparr>cv_db := db\<rparr>)))"
    if "updateMessage x (cv_db st1) = Some db" for x db f ms l c'
    using 1 evolves_update [OF that] evolves_finish evolves_trans by blast
  have sav: "evolves st (st1\<lparr>cv_db := db\<rparr>)" "evolves st (fst (finish_write f ms l c' m opts (st1\<lparr>cv_db := db\<rparr>)))"
    if "saveMessage x (cv_db st1) = Some (y, db)" for x y db f ms l c'
    using 1 evolves_save [OF that] evolves_finish evolves_trans by blast+
  show "evolves st (fst (let db = cv_db st; mentions = resolved_mentions db m ch typed opts; existing = getMessage db (ms_org m) (ms_id m);
           (created, st1) = (case existing of Some x \<Rightarrow> (ms_createdAt x, st)
             | None \<Rightarrow> nextMessageCreatedAt env (ms_org m) (ms_thread m) (ms_createdAt m) st);
           inDm = (case ch of Some c \<Rightarrow> ch_kind c = Ch_Dm | None \<Rightarrow> False);
           final = m\<lparr>ms_createdAt := created, ms_mentions := uniq mentions,
                     ms_mentionNames := Some (resolveMentionNames (db_listMembers db (ms_org m)) (ms_content m) inDm)\<rparr>;
           linked = coalesce as (ms_attachments final)
       in and_with st1 (if linked = [] then Inr () else requireAttachments db (ms_org final) linked) (\<lambda>_.
            case existing of
              Some x \<Rightarrow>
                (case updateMessage (final\<lparr>ms_editedAt := Some (ce_now env)\<rparr>) (cv_db st1) of
                   None \<Rightarrow> (st1, Inl Constraint_Violated)
                 | Some db' \<Rightarrow> finish_write final mentions linked ch m opts (st1\<lparr>cv_db := db'\<rparr>))
            | None \<Rightarrow>
                (case saveMessage final (cv_db st1) of
                   None \<Rightarrow> (st1, Inl Constraint_Violated)
                 | Some (saved, db') \<Rightarrow>
                     if ms_id saved \<noteq> ms_id final then (st1\<lparr>cv_db := db'\<rparr>, Inr saved)
                     else finish_write final mentions linked ch m opts (st1\<lparr>cv_db := db'\<rparr>)))))"
    unfolding Let_def c prod.case
    by (rule evolves_and_with [OF 1]) (auto simp: 1 split: option.split dest: upd sav)
qed

section \<open>Publishing\<close>

lemma evolves_publish_with:
  assumes "\<And>org i by s. evolves s (snd (notify org i by s))"
  shows "evolves st (fst (publish_with notify env m typed as opts st))"
proof -
  obtain st1 r where w: "write_message env m typed as opts st = (st1, r)" by force
  have 1: "evolves st st1" using evolves_write [of st env m typed as opts] w by simp
  have "evolves st (say (Message_Published e) (publish_wakes env notify e ch ms opts st1))" for e ch ms
  proof -
    have "evolves st1 (publish_wakes env notify e ch ms opts st1)" by (rule evolves_wakes [OF assms])
    moreover have "evolves s (say (Message_Published e) s)" for s by (rule evolves_say) simp
    ultimately show ?thesis using 1 evolves_trans by blast
  qed
  then show ?thesis
    using w 1 by (auto simp: publish_with_def split: sum.split intro!: evolves_and_with)
qed

lemma evolves_build: "evolves st (snd (buildMessage env d st))"
  using evolves_counters(4) [of st env] by (cases "uuid env st") (simp add: buildMessage_def)

lemma evolves_throttled: "evolves st (snd (publishMentionThrottled env org i by st))"
proof -
  have "evolves st (fst (publish_with (\<lambda>_ _ _ s. (True, s)) env m (Some []) None default_options st'))"
    if "buildMessage env d st = (m, st')" for m st' d
  proof -
    have "evolves st st'" using evolves_build [of st env d] that by simp
    moreover have "evolves st' (fst (publish_with (\<lambda>_ _ _ s. (True, s)) env m (Some []) None default_options st'))"
      by (rule evolves_publish_with) simp
    ultimately show ?thesis using evolves_trans by blast
  qed
  then show ?thesis
    unfolding publishMentionThrottled_def
    by (auto split: option.split prod.split sum.split) (metis fst_conv)+
qed

lemma evolves_publish: "evolves st (fst (publishMessage env m typed as opts st))"
  unfolding publishMessage_def by (rule evolves_publish_with [OF evolves_throttled])

text \<open>The pattern of every operation: prepare, draft, publish.\<close>

lemma evolves_draft_publish:
  assumes "evolves st st1"
  shows "evolves st (fst (case buildMessage env d st1 of (m, st2) \<Rightarrow> publishMessage env m typed as opts st2))"
proof -
  obtain m st2 where b: "buildMessage env d st1 = (m, st2)" by force
  then have "evolves st st2" using evolves_trans [OF assms evolves_build [of st1 env d]] by simp
  then show ?thesis using b evolves_trans [OF _ evolves_publish] by simp
qed

lemma evolves_built:
  assumes "buildMessage env d s = (m, s2)" "evolves st s"
  shows "evolves st (fst (publishMessage env m typed as opts s2))"
  using evolves_draft_publish [OF assms(2), where env = env and d = d and typed = typed and as = as and opts = opts] assms(1) by simp

section \<open>Operations\<close>

lemma evolves_ensure: "evolves st s \<Longrightarrow> evolves st (with_db (ensureThread t) s)"
  using evolves_with_db [OF quiet_threads(2)] evolves_trans by blast

lemma evolves_sendMessage: "evolves st (fst (sendMessage env i st))"
  unfolding sendMessage_def Let_def
  by (intro evolves_and_with evolves_refl)
    (auto split: option.split intro!: evolves_and_with evolves_draft_publish evolves_ensure)

lemma evolves_post: "evolves st (fst (postToChannel env i st))"
  unfolding postToChannel_def
  by (auto split: option.split intro!: evolves_and_with evolves_sendMessage)

lemma evolves_reply: "evolves st (fst (replyToMessage env i st))"
  unfolding replyToMessage_def by (intro evolves_and_with evolves_refl evolves_sendMessage)

lemma evolves_saveChannel: "evolves st s \<Longrightarrow> evolves st (with_db (saveChannel c now) s)"
  using evolves_with_db [OF quiet_links(4)] evolves_trans by blast

lemma evolves_setMembers: "evolves st s \<Longrightarrow> evolves st (with_db (setChannelMembers org ch ms) s)"
  using evolves_with_db [OF quiet_setChannelMembers] evolves_trans by blast

lemma evolves_selfNote: "evolves st (fst (sendSelfNote env org i body as client st))"
  unfolding sendSelfNote_def Let_def
  by (intro evolves_and_with evolves_refl)
    (auto split: option.split intro!: evolves_draft_publish evolves_ensure evolves_setMembers evolves_saveChannel)

lemma evolves_open_dm: "evolves st (open_dm env org a b st)"
  unfolding open_dm_def by (intro evolves_ensure evolves_setMembers evolves_saveChannel evolves_refl)

lemma evolves_direct: "evolves st (fst (sendDirectMessage env i st))"
  unfolding sendDirectMessage_def
  by (intro evolves_and_with evolves_refl)
    (auto simp: dm_place_def split: option.split prod.split intro!: evolves_and_with evolves_selfNote
      intro: evolves_built [OF _ evolves_open_dm])

lemma evolves_direct_system: "evolves st (fst (sendDirectSystemMessage env org a b c s as st))"
  unfolding sendDirectSystemMessage_def Let_def
  by (intro evolves_and_with evolves_refl evolves_draft_publish evolves_open_dm)

lemma evolves_edit: "evolves st (fst (editMessage env org i e c st))"
proof -
  have "evolves st (st\<lparr>cv_db := replaceMessageMentions j rows db\<rparr>)" if "updateMessage x (cv_db st) = Some db" for x db j rows
    using evolves_trans [OF evolves_update [OF that] evolves_with_db [OF quiet_links(3) [of j rows]]]
    by (simp add: with_db_def)
  then show ?thesis
    unfolding editMessage_def Let_def by (auto split: option.split intro!: evolves_and_with)
qed

lemma evolves_delete: "evolves st (fst (deleteMessage env org i by st))"
  unfolding deleteMessage_def Let_def
  by (auto split: option.split intro!: evolves_and_with intro: evolves_update)

lemma evolves_access: "evolves st (fst (requireThreadAccess ro org t m st))"
  unfolding requireThreadAccess_def Let_def
  by (auto split: option.split intro!: evolves_ensure)

lemma evolves_mirror: "evolves st (snd (tryMirrorSuppress org run sender t body st))"
proof -
  have q: "evolves st (st\<lparr>cv_runs := r\<rparr>)" for r by (rule evolves_quiet) (simp_all add: same_people_def)
  have "evolves s (say (Mirror_Suppressed a b c d e) s)" for s a b c d e by (rule evolves_say) simp
  then have "evolves st (say (Mirror_Suppressed a b c d e) st)"
    "evolves st (say (Mirror_Suppressed a b c d e) (st\<lparr>cv_runs := r\<rparr>))" for a b c d e r
    using q [of r] evolves_trans by blast+
  then show ?thesis
    unfolding tryMirrorSuppress_def Let_def by (simp split: option.split)
qed

section \<open>Histories\<close>

datatype conv_op =
    Do_Send send_input
  | Do_Post post_input
  | Do_Reply post_input
  | Do_Direct dm_input
  | Do_System string string string string bool
  | Do_Note string string string "string option"
  | Do_Edit string string string string
  | Do_Delete string string string
  | Do_Access bool string string string
  | Do_Mirror string string string string string

fun do_op :: "conv_env \<times> conv_op \<Rightarrow> conv_state \<Rightarrow> conv_state" where
  "do_op (env, Do_Send i) st = fst (sendMessage env i st)"
| "do_op (env, Do_Post i) st = fst (postToChannel env i st)"
| "do_op (env, Do_Reply i) st = fst (replyToMessage env i st)"
| "do_op (env, Do_Direct i) st = fst (sendDirectMessage env i st)"
| "do_op (env, Do_System org a b c s) st = fst (sendDirectSystemMessage env org a b c s None st)"
| "do_op (env, Do_Note org m b c) st = fst (sendSelfNote env org m b None c st)"
| "do_op (env, Do_Edit org i e c) st = fst (editMessage env org i e c st)"
| "do_op (env, Do_Delete org i by) st = fst (deleteMessage env org i by st)"
| "do_op (env, Do_Access ro org t m) st = fst (requireThreadAccess ro org t m st)"
| "do_op (env, Do_Mirror org r s t b) st = snd (tryMirrorSuppress org r s t b st)"

lemma evolves_op: "evolves st (do_op e st)"
  by (cases "(e, st)" rule: do_op.cases)
    (simp_all add: evolves_sendMessage evolves_post evolves_reply evolves_direct evolves_direct_system evolves_selfNote
      evolves_edit evolves_delete evolves_access evolves_mirror)

interpretation conv: invariant_machine do_op conv_inv
  by unfold_locales (use evolves_op in \<open>simp add: evolves_def\<close>)

end
