(* ===== verification/MessagingClaims.thy ===== *)
theory MessagingClaims
  imports MessagingLaws MessageStoreClaims
begin

text \<open>
  The properties of the conversation service: who is alerted, retried messages, access,
  direct replies, creation times.
\<close>

section \<open>Alerts\<close>

text \<open>
  C21: Over any history of sends, replies, direct messages, notes, edits and the rest, whoever
  was alerted is an active agent of the organization other than the sender, whom the channel
  of the message neither mutes nor disables.\<close>
theorem alerts_only_active_agents:
  assumes "conv_inv st" "Member_Alerted a \<in> set (cv_log (fold do_op ops st))"
  shows "\<exists>x. db_getMember (cv_db (fold do_op ops st)) (al_org a) (al_member a) = Some x \<and>
    cm_kind x = Agent \<and> \<not> cm_retired x \<and> al_member a \<noteq> al_by a \<and>
    (case al_channel a of None \<Rightarrow> True
     | Some c \<Rightarrow> \<not> blocked_mode (getChannelMemberMode (cv_db (fold do_op ops st)) (al_org a) c (al_member a)))"
proof -
  have "alert_ok (cv_db (fold do_op ops st)) a"
    using conv.run_inv [OF assms(1), of ops] assms(2) unfolding conv_inv_def by blast
  then show ?thesis
    by (cases "db_getMember (cv_db (fold do_op ops st)) (al_org a) (al_member a)") (simp_all add: alert_ok_def)
qed

definition ann :: conv_member where
  "ann = \<lparr>cm_id = ''ann'', cm_org = ''o'', cm_name = ''Ann'', cm_kind = Human, cm_retired = False\<rparr>"

definition bot :: conv_member where
  "bot = \<lparr>cm_id = ''bot'', cm_org = ''o'', cm_name = ''Bot'', cm_kind = Agent, cm_retired = False\<rparr>"

definition eve :: conv_member where
  "eve = \<lparr>cm_id = ''eve'', cm_org = ''o'', cm_name = ''Eve'', cm_kind = Human, cm_retired = False\<rparr>"

definition room :: "string \<Rightarrow> channel_kind \<Rightarrow> channel_row" where
  "room i k = \<lparr>ch_id = i, ch_org = ''o'', ch_name = i, ch_kind = k, ch_topic = [], ch_parent = None, ch_createdAt = 1,
     ch_archivedAt = None\<rparr>"

definition office_db :: conv_db where
  "office_db = empty_db\<lparr>db_members := [ann, bot, eve], db_channels := [room ''general'' Ch_General, room ''dm:ann:bot'' Ch_Dm],
     db_channel_members := [(''o'', ''dm:ann:bot'', ''ann''), (''o'', ''dm:ann:bot'', ''bot'')]\<rparr>"

definition office :: conv_state where
  "office = \<lparr>cv_db = office_db, cv_last = [], cv_mentionQuota = \<lparr>qu_cap = 10, qu_windowMs = 60000, qu_windows = []\<rparr>,
     cv_channelReadQuota = \<lparr>qu_cap = 100, qu_windowMs = 60000, qu_windows = []\<rparr>,
     cv_pairTracker = \<lparr>pt_windowMs = 90000, pt_windows = []\<rparr>, cv_runs = [], cv_drawn = 0, cv_log = []\<rparr>"

definition clock :: conv_env where
  "clock = \<lparr>ce_now = 1000, ce_uuid = (\<lambda>n. ''m'' @ nat_to_str n)\<rparr>"

definition hello :: send_input where
  "hello = \<lparr>si_org = ''o'', si_thread = ''general'', si_channel = Some ''general'', si_sender = ''ann'',
     si_content = ''hi @Bot'', si_mentions = [], si_parent = None, si_attachments = None, si_metadata = [],
     si_clientId = Some ''c1''\<rparr>"

definition said_hello :: conv_state where
  "said_hello = fold do_op [(clock, Do_Send hello)] office"

definition hello_alert :: alert where
  "hello_alert = \<lparr>al_org = ''o'', al_member = ''bot'', al_channel = Some ''general'', al_thread = ''general'',
     al_message = ''m0'', al_by = ''ann'', al_reason = ''mention'', al_wakeReason = ''mention''\<rparr>"

definition hello_row :: message where
  "hello_row = \<lparr>ms_id = ''m0'', ms_org = ''o'', ms_thread = ''general'', ms_channel = Some ''general'', ms_parent = None,
     ms_sender = ''ann'', ms_senderKind = Human, ms_kind = Mk_Human, ms_content = ''hi @Bot'', ms_mentions = [''bot''],
     ms_mentionNames = None, ms_toolCalls = [], ms_attachments = [], ms_metadata = [], ms_clientId = Some ''c1'',
     ms_createdAt = 1000, ms_editedAt = None, ms_deletedAt = None\<rparr>"

definition hello_sent :: message where
  "hello_sent = hello_row\<lparr>ms_mentionNames := Some [''Bot'']\<rparr>"

definition after_hello :: conv_state where
  "after_hello = office\<lparr>cv_db := office_db\<lparr>
       db_threads := [\<lparr>th_id = ''general'', th_org = ''o'', th_channel = Some ''general'', th_title = ''general'', th_createdAt = 1000\<rparr>],
       db_messages := [hello_row], db_mentions := [\<lparr>mn_message = ''m0'', mn_member = ''bot'', mn_createdAt = 1000\<rparr>]\<rparr>,
     cv_last := [(''o:general'', 1000)],
     cv_mentionQuota := \<lparr>qu_cap = 10, qu_windowMs = 60000, qu_windows = [(''o:bot'', [1000])]\<rparr>,
     cv_drawn := 1,
     cv_log := [Emitted Ev_Channel_Message hello_sent [''org:o'', ''channel:general'', ''thread:general''],
       Member_Alerted hello_alert, Wake_Suppressed hello_sent ''ann'' Ws_Non_Agent,
       Wake_Suppressed hello_sent ''eve'' Ws_Non_Agent, Message_Published hello_sent]\<rparr>"

lemma said_hello_eval: "said_hello = after_hello"
  by code_simp

lemma office_inv: "conv_inv office"
  by (simp add: conv_inv_def office_def office_db_def empty_db_def messages_ok_def)

text \<open>A person mentions an agent in the general channel.\<close>
theorem alerts_only_active_agents_witness:
  "Member_Alerted hello_alert \<in> set (cv_log said_hello) \<and>
   (\<exists>x. db_getMember (cv_db said_hello) ''o'' ''bot'' = Some x \<and> cm_kind x = Agent \<and> \<not> cm_retired x)"
proof
  show a: "Member_Alerted hello_alert \<in> set (cv_log said_hello)" by (simp add: said_hello_eval after_hello_def)
  show "\<exists>x. db_getMember (cv_db said_hello) ''o'' ''bot'' = Some x \<and> cm_kind x = Agent \<and> \<not> cm_retired x"
    using alerts_only_active_agents [OF office_inv, of hello_alert "[(clock, Do_Send hello)]"] a
    unfolding said_hello_def by (auto simp: hello_alert_def)
qed

section \<open>Retries\<close>

lemma client_row_unique:
  assumes "messages_ok db" "row \<in> set (db_messages db)" "ms_clientId row = Some k"
  shows "findMessageByClientId db (ms_org row) (ms_sender row) (ms_thread row) k = Some (load_message db row)"
proof -
  let ?P = "\<lambda>m. ms_org m = ms_org row \<and> ms_sender m = ms_sender row \<and> ms_thread m = ms_thread row \<and> ms_clientId m = Some k"
  have "filter ?P ms = [row]"
    if "row \<in> set ms" "sorted_wrt (\<lambda>a b. \<not> same_client a b) ms" "distinct ms" for ms
    using that
  proof (induction ms)
    case (Cons m ms)
    show ?case
    proof (cases "row = m")
      case True
      then have "\<forall>x \<in> set ms. \<not> ?P x" using Cons.prems assms(3) by (auto simp: same_client_def)
      then have "filter ?P ms = []" by (simp add: filter_empty_conv)
      with True assms(3) show ?thesis by simp
    next
      case False
      then have "\<not> ?P m" using Cons.prems assms(3) by (auto simp: same_client_def)
      moreover have "filter ?P ms = [row]" using Cons False by auto
      ultimately show ?thesis by simp
    qed
  qed simp
  moreover have "distinct (db_messages db)" using assms(1) by (simp add: messages_ok_def distinct_map)
  ultimately have "filter ?P (db_messages db) = [row]" using assms(1,2) unfolding messages_ok_def by blast
  then show ?thesis by (simp add: findMessageByClientId_def last_of_def)
qed

text \<open>
  Once a history has stored a message with a client key, sending with that key again, in
  the same thread and by the same sender, returns that message and changes nothing, as long
  as the sender may still write to the channel.\<close>
theorem retry_returns_same_message:
  assumes "conv_inv st" "st' = fold do_op ops st"
    and "row \<in> set (db_messages (cv_db st'))" "ms_clientId row = Some k"
    and "si_org i = ms_org row" "si_sender i = ms_sender row" "si_thread i = ms_thread row" "si_clientId i = Some k"
    and "si_org i \<in> set (db_orgs (cv_db st'))" "db_getMember (cv_db st') (si_org i) (si_sender i) = Some sender"
    and "writable (cv_db st') i sender = Inr channel"
  shows "sendMessage env i st' = (st', Inr (load_message (cv_db st') row))"
proof -
  have "messages_ok (cv_db st')" using conv.run_inv [OF assms(1)] assms(2) by (simp add: conv_inv_def)
  from client_row_unique [OF this assms(3,4)] show ?thesis
    using assms(5-11)
    by (simp add: sendMessage_def and_with_def requireOrganization_def or_fail_def find_existing_def)
qed

text \<open>The message of the person, sent once more.\<close>
theorem retry_returns_same_message_witness:
  "sendMessage clock hello said_hello = (said_hello, Inr (load_message (cv_db said_hello) hello_row))"
proof -
  have "\<not> isl (writable (cv_db after_hello) hello ann)" by code_simp
  then obtain channel where w: "writable (cv_db said_hello) hello ann = Inr channel"
    unfolding said_hello_eval by (cases "writable (cv_db after_hello) hello ann") auto
  show ?thesis
    by (rule retry_returns_same_message [OF office_inv said_hello_def _ _ _ _ _ _ _ _ w])
      (simp_all add: said_hello_eval after_hello_def hello_row_def hello_def office_def office_db_def empty_db_def
        db_getMember_def member_key_def ann_def)
qed

section \<open>Access\<close>

text \<open>Who may write to a channel: its private kinds are for their members.\<close>

definition may_write :: "conv_db \<Rightarrow> string \<Rightarrow> string \<Rightarrow> string \<Rightarrow> bool" where
  "may_write db org c memberId =
     (case (getChannel db org c, db_getMember db org memberId) of
        (Some ch, Some x) \<Rightarrow>
          ch_archivedAt ch = None \<and> \<not> cm_retired x \<and>
          (ch_kind ch \<in> {Ch_Self, Ch_Dm} \<longrightarrow> memberId \<in> set (ch_memberIds ch))
      | _ \<Rightarrow> False)"

lemma getChannel_key: "getChannel db org c = Some ch \<Longrightarrow> ch_org ch = org \<and> ch_id ch = c"
  using tbl_find_Some [of channel_key "(org, c)" "db_channels db"]
  by (auto simp: getChannel_def channel_key_def channel_row.extend_def)

lemma writable_iff: "(\<exists>ch. requireWritableChannel db org c i = Inr ch) \<longleftrightarrow> may_write db org c i"
  using getChannel_key [of db org c]
  by (auto simp: requireWritableChannel_def requireReadableChannel_def requireActiveChannel_def may_write_def
      canMemberAccessChannel_def split: option.splits)

lemma send_denied:
  fixes i :: send_input
  assumes "\<not> may_write (cv_db st) (si_org i) c (si_sender i)" "si_channel i = Some c"
  shows "\<exists>e. sendMessage env i st = (st, Inl e)"
proof (cases "si_org i \<in> set (db_orgs (cv_db st))")
  case True
  show ?thesis
  proof (cases "db_getMember (cv_db st) (si_org i) (si_sender i)")
    case (Some x)
    then have "\<not> may_write (cv_db st) (si_org i) c (cm_id x)" using assms(1) getMember_id by metis
    then obtain e where "requireWritableChannel (cv_db st) (si_org i) c (cm_id x) = Inl e"
      using writable_iff by (metis sum.exhaust)
    with True Some assms(2) show ?thesis
      by (simp add: sendMessage_def and_with_def requireOrganization_def or_fail_def writable_def)
  qed (use True in \<open>simp add: sendMessage_def and_with_def requireOrganization_def or_fail_def\<close>)
qed (simp add: sendMessage_def and_with_def requireOrganization_def)

text \<open>
  C22: A member without access to an existing, active channel, or any sender to an archived
  one, can neither send to it, nor post in it, nor reply to its messages: each fails and
  writes nothing.\<close>
theorem posting_needs_access:
  assumes "\<not> may_write (cv_db st) org c memberId"
  shows "(\<forall>i :: send_input. si_org i = org \<and> si_sender i = memberId \<and> si_channel i = Some c \<longrightarrow>
      (\<exists>e. sendMessage env i st = (st, Inl e))) \<and>
    (\<forall>i :: post_input. pi_org i = org \<and> pi_sender i = memberId \<and> pi_target i = c \<longrightarrow>
      (\<exists>e. postToChannel env i st = (st, Inl e))) \<and>
    (\<forall>(i :: post_input) p. pi_org i = org \<and> pi_sender i = memberId \<and> getMessage (cv_db st) org (pi_target i) = Some p \<and>
      ms_channel p = Some c \<longrightarrow> (\<exists>e. replyToMessage env i st = (st, Inl e)))"
proof (intro conjI allI impI)
  fix i :: send_input
  assume "si_org i = org \<and> si_sender i = memberId \<and> si_channel i = Some c"
  then show "\<exists>e. sendMessage env i st = (st, Inl e)" using send_denied [of st i c env] assms by simp
next
  fix i :: post_input
  assume i: "pi_org i = org \<and> pi_sender i = memberId \<and> pi_target i = c"
  have send: "\<exists>e. sendMessage env (send_of_post i t (Some c) p) st = (st, Inl e)" for t p
    using send_denied [of st "send_of_post i t (Some c) p" c env] i assms by (simp add: send_of_post_def)
  show "\<exists>e. postToChannel env i st = (st, Inl e)"
  proof (cases "requireActiveChannel (cv_db st) org c")
    case (Inr ch)
    then have "ch_id ch = c"
      using getChannel_key [of "cv_db st" org c] by (auto simp: requireActiveChannel_def split: option.splits if_splits)
    with Inr i send show ?thesis
      by (auto simp: postToChannel_def and_with_def split: option.split sum.split)
  qed (use i in \<open>simp add: postToChannel_def and_with_def\<close>)
next
  fix i :: post_input and p
  assume i: "pi_org i = org \<and> pi_sender i = memberId \<and> getMessage (cv_db st) org (pi_target i) = Some p \<and>
    ms_channel p = Some c"
  then show "\<exists>e. replyToMessage env i st = (st, Inl e)"
    using send_denied [of st "send_of_post i (ms_thread p) (Some c) (Some (ms_id p))" c env] assms
    by (simp add: replyToMessage_def and_with_def requireMessage_def or_fail_def send_of_post_def)
qed

definition intrusion :: send_input where
  "intrusion = hello\<lparr>si_sender := ''eve'', si_thread := ''dm:ann:bot'', si_channel := Some ''dm:ann:bot'', si_clientId := None\<rparr>"

text \<open>A third member cannot send into a direct conversation.\<close>
theorem posting_needs_access_witness:
  "\<exists>e. sendMessage clock intrusion office = (office, Inl e)"
proof -
  have "\<not> may_write (cv_db office) ''o'' ''dm:ann:bot'' ''eve''" by code_simp
  from posting_needs_access [OF this, of clock] show ?thesis by (simp add: intrusion_def hello_def)
qed

section \<open>Direct replies\<close>

lemma getChannel_messages:
  "getChannel (db\<lparr>db_messages := ms\<rparr>) = getChannel db"
  "getChannel (db\<lparr>db_mentions := rs\<rparr>) = getChannel db"
  by (auto simp: getChannel_def listChannelMemberIds_def listChannelMemberIdsForChannelIds_def fun_eq_iff)

lemma message_channel_messages:
  "message_channel (db\<lparr>db_messages := ms\<rparr>) m = message_channel db m"
  "message_channel (db\<lparr>db_mentions := rs\<rparr>) m = message_channel db m"
  by (simp_all add: message_channel_def requireActiveChannel_def getChannel_messages split: option.split)

text \<open>Publishing a new message without attachments and client key to an active channel.\<close>

lemma publish_new:
  assumes "message_channel (cv_db st) m = Inr channel" "ms_id m \<notin> ms_id ` set (db_messages (cv_db st))"
    and "ms_clientId m = None" "ms_attachments m = []"
  shows "\<exists>st' m'. publishMessage env m None None opts st = (st', Inr m') \<and>
    ms_id m' = ms_id m \<and> ms_channel m' = ms_channel m \<and> ms_thread m' = ms_thread m \<and> ms_sender m' = ms_sender m"
proof -
  have new: "getMessage (cv_db st) (ms_org m) (ms_id m) = None"
    using assms(2) by (auto simp: getMessage_def find_None_iff image_iff)
  obtain t s1 where c: "nextMessageCreatedAt env (ms_org m) (ms_thread m) (ms_createdAt m) st = (t, s1)" by force
  then have s1: "cv_db s1 = cv_db st" by (auto simp: nextMessageCreatedAt_def split: prod.splits)
  define f where "f = m\<lparr>ms_createdAt := t, ms_mentions := uniq (resolved_mentions (cv_db st) m channel None opts),
    ms_mentionNames := Some (resolveMentionNames (db_listMembers (cv_db st) (ms_org m)) (ms_content m)
      (case channel of Some c \<Rightarrow> ch_kind c = Ch_Dm | None \<Rightarrow> False))\<rparr>"
  have f: "ms_id f = ms_id m" "ms_channel f = ms_channel m" "ms_thread f = ms_thread m" "ms_sender f = ms_sender m"
    "ms_clientId f = None" "ms_attachments f = []" "ms_org f = ms_org m"
    using assms(3,4) by (simp_all add: f_def)
  have w: "write_message env m None None opts st =
      (case saveMessage f (cv_db st) of
         None \<Rightarrow> (s1, Inl Constraint_Violated)
       | Some (saved, db') \<Rightarrow> if ms_id saved \<noteq> ms_id f then (s1\<lparr>cv_db := db'\<rparr>, Inr saved)
           else finish_write f (resolved_mentions (cv_db st) m channel None opts) (ms_attachments f) channel m opts (s1\<lparr>cv_db := db'\<rparr>))"
    using assms(1,4) new c s1 unfolding f_def
    by (simp add: write_message_def and_with_def coalesce_def Let_def)
  have sv: "saveMessage f (cv_db st) = Some (f, (cv_db st)\<lparr>db_messages := db_messages (cv_db st) @ [message_row f]\<rparr>)"
    using f assms(2) by (simp add: saveMessage_def same_client_def)
  obtain s2 where s2: "write_message env m None None opts st = (s2, Inr f)"
    "message_channel (cv_db s2) m = message_channel (cv_db st) m"
    using w sv f by (auto simp: finish_write_def linkAttachmentsToMessage_def with_db_def replaceMessageMentions_def
        Let_def message_channel_messages)
  then show ?thesis
    using assms(1) f by (auto simp: publishMessage_def publish_with_def and_with_def)
qed

lemma links_channels [simp]:
  "db_channels (replaceChannelMemberLinks org c ms db) = db_channels db"
  "db_channels (replaceThreadMemberLinks t ms db) = db_channels db"
  "db_channels (setThreadMembers org t ms db) = db_channels db"
  by (simp_all add: replaceChannelMemberLinks_def replaceThreadMemberLinks_def setThreadMembers_def Let_def split: option.split)

lemma threads_channels [simp]:
  "db_channels (saveThread t db) = db_channels db" "db_channels (ensureThread t db) = db_channels db"
  by (simp_all add: saveThread_def ensureThread_def split: option.split)

lemma setChannelMembers_channels [simp]: "db_channels (setChannelMembers org c ms db) = db_channels db"
proof -
  have "db_channels (fold (\<lambda>t. replaceThreadMemberLinks t ms) ts d) = db_channels d" for ts d
    by (induction ts arbitrary: d) simp_all
  then show ?thesis by (simp add: setChannelMembers_def Let_def)
qed

lemma open_dm_channels:
  "db_channels (cv_db (open_dm env org a b st)) = db_channels (saveChannel (dm_channel org a b) (ce_now env) (cv_db st))"
  by (simp add: open_dm_def with_db_def)

lemma open_dm_messages: "db_messages (cv_db (open_dm env org a b st)) = db_messages (cv_db st)"
  using quiet_threads(2) quiet_setChannelMembers
  by (simp add: open_dm_def with_db_def quiet_db_def saveChannel_def)

lemma requireActive_rows:
  "(\<exists>x. requireActiveChannel db org c = Inr x) \<longleftrightarrow>
   (\<exists>r. tbl_find channel_key (org, c) (db_channels db) = Some r \<and> ch_archivedAt r = None)"
  by (auto simp: requireActiveChannel_def getChannel_def channel_row.extend_def split: option.splits)

lemma open_dm_active:
  assumes "\<exists>x. requireActiveChannel (cv_db st) org c = Inr x"
  shows "\<exists>x. requireActiveChannel (cv_db (open_dm env org' a b st)) org c = Inr x"
proof -
  have "tbl_find channel_key k (db_channels (saveChannel d now db)) =
      (if k = channel_key d then Some (case tbl_find channel_key k (db_channels db) of
           None \<Rightarrow> d\<lparr>ch_createdAt := now\<rparr>
         | Some old \<Rightarrow> old\<lparr>ch_name := ch_name d, ch_kind := ch_kind d, ch_topic := ch_topic d, ch_parent := ch_parent d,
             ch_archivedAt := ch_archivedAt d\<rparr>)
       else tbl_find channel_key k (db_channels db))" for k d now db
  proof -
    have row: "db_channels (saveChannel d now db) = tbl_upsert channel_key
        (\<lambda>old new. old\<lparr>ch_name := ch_name new, ch_kind := ch_kind new, ch_topic := ch_topic new,
           ch_parent := ch_parent new, ch_archivedAt := ch_archivedAt new\<rparr>) (d\<lparr>ch_createdAt := now\<rparr>) (db_channels db)"
      by (simp add: saveChannel_def)
    show ?thesis unfolding row
      by (subst tbl_find_upsert) (simp_all add: channel_key_def split: option.split)
  qed
  then show ?thesis
    using assms unfolding requireActive_rows open_dm_channels by (auto simp: dm_channel_def split: option.splits)
qed

text \<open>
  A direct message that answers a message of another channel is published in that channel
  and thread: the access of its sender to them is not asked for.\<close>
theorem dm_reply_bypasses_access:
  assumes "dm_org i \<in> set (db_orgs (cv_db st))" "db_getMember (cv_db st) (dm_org i) (dm_sender i) = Some a"
    and "db_getMember (cv_db st) (dm_org i) (dm_recipient i) = Some b" "dm_recipient i \<noteq> ''self''"
    and "dm_parent i = Some p" "getMessage (cv_db st) (dm_org i) p = Some m" "ms_channel m = Some c"
    and "requireActiveChannel (cv_db st) (dm_org i) c = Inr ch"
    and "dm_clientId i = None" "dm_attachments i = None"
    and "ce_uuid env (cv_drawn st) \<notin> ms_id ` set (db_messages (cv_db st))"
  shows "\<exists>st' m'. sendDirectMessage env i st = (st', Inr m') \<and>
    ms_channel m' = Some c \<and> ms_thread m' = ms_thread m \<and> ms_sender m' = dm_sender i"
proof -
  let ?o = "open_dm env (dm_org i) a b st"
  let ?d = "buildMessage env (dm_draft env i a (ms_thread m) c) ?o"
  have drawn: "cv_drawn ?o = cv_drawn st" by (simp add: open_dm_def with_db_def)
  have rows: "db_messages (cv_db ?o) = db_messages (cv_db st)" using open_dm_messages by simp
  have send: "sendDirectMessage env i st =
      publishMessage env (fst ?d) None None
        (if dm_ignore i then default_options\<lparr>po_suppressDmAlerts := True\<rparr> else default_options) (snd ?d)"
    using assms by (simp add: sendDirectMessage_def and_with_def requireOrganization_def or_fail_def find_parent_def
        requireMessage_def dm_place_def coalesce_def find_existing_def split: prod.splits)
  have draft: "ms_id (fst ?d) = ce_uuid env (cv_drawn st)" "ms_clientId (fst ?d) = None" "ms_attachments (fst ?d) = []"
    "ms_channel (fst ?d) = Some c" "ms_thread (fst ?d) = ms_thread m" "ms_sender (fst ?d) = dm_sender i" "ms_org (fst ?d) = dm_org i"
    "cv_db (snd ?d) = cv_db ?o"
    using assms(9) drawn by (simp_all add: buildMessage_def uuid_def dm_draft_def)
  obtain x where "requireActiveChannel (cv_db ?o) (dm_org i) c = Inr x"
    using open_dm_active assms(8) by blast
  then have "message_channel (cv_db ?o) (fst ?d) = Inr (Some x)" using draft by (simp add: message_channel_def)
  with draft assms(11) rows
  have "\<exists>st' m'. publishMessage env (fst ?d) None None opts (snd ?d) = (st', Inr m') \<and>
      ms_channel m' = Some c \<and> ms_thread m' = ms_thread m \<and> ms_sender m' = dm_sender i" for opts
    using publish_new [of "snd ?d" "fst ?d" "Some x" env opts] by auto
  then show ?thesis unfolding send .
qed
definition whisper :: message where
  "whisper = hello_row\<lparr>ms_id := ''w0'', ms_thread := ''dm:ann:bot'', ms_channel := Some ''dm:ann:bot'', ms_clientId := None\<rparr>"

definition whispered :: conv_state where
  "whispered = office\<lparr>cv_db := office_db\<lparr>db_messages := [whisper]\<rparr>\<rparr>"

definition snooping :: dm_input where
  "snooping = \<lparr>dm_org = ''o'', dm_sender = ''eve'', dm_recipient = ''bot'', dm_content = ''me too'', dm_mentions = [],
     dm_parent = Some ''w0'', dm_ignore = False, dm_attachments = None, dm_metadata = [], dm_clientId = None\<rparr>"

text \<open>A third member answers in the direct conversation of two others, where it may not write.\<close>
theorem dm_reply_bypasses_access_witness:
  "\<not> may_write (cv_db whispered) ''o'' ''dm:ann:bot'' ''eve'' \<and>
   (\<exists>st' m'. sendDirectMessage clock snooping whispered = (st', Inr m') \<and> ms_channel m' = Some ''dm:ann:bot'')"
proof
  show "\<not> may_write (cv_db whispered) ''o'' ''dm:ann:bot'' ''eve''" by code_simp
  have "\<not> isl (requireActiveChannel (cv_db whispered) ''o'' ''dm:ann:bot'')" by code_simp
  then obtain ch where act: "requireActiveChannel (cv_db whispered) (dm_org snooping) ''dm:ann:bot'' = Inr ch"
    by (cases "requireActiveChannel (cv_db whispered) ''o'' ''dm:ann:bot''") (auto simp: snooping_def)
  have fresh: "ce_uuid clock (cv_drawn whispered) \<notin> ms_id ` set (db_messages (cv_db whispered))" by code_simp
  have "\<exists>st' m'. sendDirectMessage clock snooping whispered = (st', Inr m') \<and>
      ms_channel m' = Some ''dm:ann:bot'' \<and> ms_thread m' = ms_thread (load_message (cv_db whispered) whisper) \<and>
      ms_sender m' = dm_sender snooping"
    by (rule dm_reply_bypasses_access [OF _ _ _ _ _ _ _ act _ _ fresh, of eve bot "''w0''"])
      (simp_all add: snooping_def whispered_def office_def office_db_def empty_db_def db_getMember_def member_key_def
        ann_def bot_def eve_def getMessage_def whisper_def hello_row_def load_message_def)
  then show "\<exists>st' m'. sendDirectMessage clock snooping whispered = (st', Inr m') \<and> ms_channel m' = Some ''dm:ann:bot''"
    by blast
qed

section \<open>Creation times\<close>

text \<open>The creation times a series of messages gets: each with its key, the time it asks for, and the clock.\<close>

fun stamp_all :: "(string \<times> int \<times> int) list \<Rightarrow> (string \<times> int) list \<Rightarrow> (string \<times> int) list" where
  "stamp_all [] m = []"
| "stamp_all ((k, requested, now) # es) m =
     (case next_created_at k requested now m of (t, m') \<Rightarrow> (k, t) # stamp_all es m')"

text \<open>A time given under a key is remembered, or too old for a later message to ask for it.\<close>

definition held :: "(string \<times> int) list \<Rightarrow> int \<Rightarrow> string \<times> int \<Rightarrow> bool" where
  "held m now = (\<lambda>(k, v). (\<exists>t. kv_get m k = Some t \<and> v \<le> t) \<or> v < now - 600000)"

lemma kv_get_evict:
  assumes "distinct (map fst m)" "kv_get m k = Some t" "\<not> now - t > maxAge"
  shows "kv_get (evict_stale m now maxAge) k = Some t"
  using assms
proof (induction m)
  case (Cons e m)
  obtain a b where e: "e = (a, b)" by force
  have "kv_get (evict_stale m now maxAge) k = Some t" if "a \<noteq> k"
    using Cons that e by (simp add: kv_get_Cons)
  then show ?case
    using Cons.prems(2,3) e by (cases "a = k") (auto simp: evict_stale_def kv_get_Cons)
qed (simp add: kv_get_def)

lemma next_created:
  assumes "distinct (map fst m)" "next_created_at k requested now m = (t, m')"
  shows "t = max requested (coalesce (kv_get m k) 0 + 1)" "distinct (map fst m')"
    and "\<And>k' v. held (kv_put k t m) now (k', v) \<Longrightarrow> held m' now (k', v)"
proof -
  show "t = max requested (coalesce (kv_get m k) 0 + 1)"
    using assms(2) by (simp add: next_created_at_def Let_def)
  with assms(2) have m': "m' = (if length (kv_put k t m) > 1024 then evict_stale (kv_put k t m) now 600000 else kv_put k t m)"
    by (auto simp: next_created_at_def Let_def)
  have d: "distinct (map fst (kv_put k t m))" using assms(1) by (rule distinct_kv_put)
  then have "distinct (map fst (evict_stale (kv_put k t m) now 600000))"
    by (simp add: evict_stale_def distinct_map_filter)
  with d m' show "distinct (map fst m')" by simp
  fix k' v
  assume h: "held (kv_put k t m) now (k', v)"
  show "held m' now (k', v)"
  proof (cases "v < now - 600000")
    case False
    with h obtain u where u: "kv_get (kv_put k t m) k' = Some u" "v \<le> u" by (auto simp: held_def)
    with False have "kv_get m' k' = Some u" using kv_get_evict [OF d u(1), where now = now and maxAge = 600000] m' by auto
    with u(2) show ?thesis by (auto simp: held_def)
  qed (simp add: held_def)
qed

lemma stamps_after:
  assumes "distinct (map fst m)" "sorted (now # map (\<lambda>(_, _, n). n) es)" "\<forall>(_, r, n) \<in> set es. r \<ge> n - 600000"
    and "held m now (k, v)"
  shows "\<forall>(k', t) \<in> set (stamp_all es m). k' = k \<longrightarrow> v < t"
  using assms
proof (induction es arbitrary: m now)
  case (Cons e es)
  obtain a r n where e: "e = (a, r, n)" by (cases e)
  obtain t m' where n: "next_created_at a r n m = (t, m')" by force
  note c = next_created [OF Cons.prems(1) n]
  have le: "now \<le> n" using Cons.prems(2) e by simp
  have hn: "held m n (k, v)" using Cons.prems(4) le by (auto simp: held_def)
  have gt: "v < t" if "a = k"
    using hn c(1) that Cons.prems(3) e by (auto simp: held_def coalesce_def)
  have "held (kv_put a t m) n (k, v)" using hn gt by (auto simp: held_def kv.lookup_put)
  then have h': "held m' n (k, v)" by (rule c(3))
  have "sorted (n # map (\<lambda>(_, _, n). n) es)" using Cons.prems(2) e by simp
  with Cons.IH [OF c(2) _ _ h'] Cons.prems(3) have "\<forall>(k', t) \<in> set (stamp_all es m'). k' = k \<longrightarrow> v < t" by simp
  then show ?case using e n gt by auto
qed simp

lemma stamps_increase:
  assumes "distinct (map fst m)" "sorted (map (\<lambda>(_, _, n). n) es)" "\<forall>(_, r, n) \<in> set es. r \<ge> n - 600000"
  shows "sorted_wrt (\<lambda>(k, t) (k', t'). k = k' \<longrightarrow> t < t') (stamp_all es m)"
  using assms
proof (induction es arbitrary: m)
  case (Cons e es)
  obtain a r n where e: "e = (a, r, n)" by (cases e)
  obtain t m' where n: "next_created_at a r n m = (t, m')" by force
  note c = next_created [OF Cons.prems(1) n]
  have "held (kv_put a t m) n (a, t)" by (simp add: held_def kv.lookup_put)
  from stamps_after [OF c(2) _ _ c(3) [OF this]] Cons.prems(2,3) e
  have "\<forall>(k', t') \<in> set (stamp_all es m'). k' = a \<longrightarrow> t < t'" by simp
  with Cons.IH [OF c(2)] Cons.prems(2,3) e n show ?case by auto
qed simp

text \<open>
  C24: Messages of one thread get strictly increasing creation times, not before the time they
  ask for, although old entries are evicted: as long as the clock does not run backwards and
  no message asks for a time more than ten minutes before it.\<close>
theorem timestamps_increase:
  assumes "sorted (map (\<lambda>(_, _, now). now) es)" "\<forall>(_, requested, now) \<in> set es. requested \<ge> now - 600000"
  shows "sorted_wrt (\<lambda>(k, t) (k', t'). k = k' \<longrightarrow> t < t') (stamp_all es [])"
  using stamps_increase [of "[]" es] assms by simp

text \<open>Two messages of one thread in the same millisecond, and one of another thread.\<close>
theorem timestamps_increase_witness:
  "sorted_wrt (\<lambda>(k, t) (k', t'). k = k' \<longrightarrow> t < t')
     (stamp_all [(''a'', 5, 5), (''b'', 5, 5), (''a'', 5, 6)] []) \<and>
   stamp_all [(''a'', 5, 5), (''b'', 5, 5), (''a'', 5, 6)] [] = [(''a'', 5), (''b'', 5), (''a'', 6)]"
  using timestamps_increase [of "[(''a'', 5, 5), (''b'', 5, 5), (''a'', 5, 6)]"] by (intro conjI) (simp, code_simp)

end
