(* ===== verification/JsonText.thy ===== *)
theory JsonText
  imports JsValues SqlTable
begin

text \<open>
  The texts the code reads back: \<open>JSON.parse\<close>, and \<open>encodeURIComponent\<close> with its inverse.
  The parser has fuel, of which twice the length of the text is enough (\<open>parse_stringify\<close>
  needs no more). Numbers are integers: a fraction or an exponent is refused. Of the escapes
  of a string those beyond ASCII are refused; characters of a text are ASCII.
\<close>

section \<open>Reading JSON\<close>

definition is_json_ws :: "char \<Rightarrow> bool" where
  "is_json_ws c = (c = CHR 0x20 \<or> c = CHR 0x09 \<or> c = CHR 0x0A \<or> c = CHR 0x0D)"

definition skip_ws :: "string \<Rightarrow> string" where
  "skip_ws s = dropWhile is_json_ws s"

definition hex_val :: "char \<Rightarrow> nat option" where
  "hex_val c =
     (let n = of_char c :: nat in
      if 48 \<le> n \<and> n \<le> 57 then Some (n - 48)
      else if 97 \<le> n \<and> n \<le> 102 then Some (n - 87)
      else if 65 \<le> n \<and> n \<le> 70 then Some (n - 55)
      else None)"

fun hex_number :: "string \<Rightarrow> nat option" where
  "hex_number [] = Some 0"
| "hex_number (c # cs) =
     (case (hex_val c, hex_number cs) of
        (Some d, Some n) \<Rightarrow> Some (d * 16 ^ length cs + n)
      | _ \<Rightarrow> None)"

definition simple_escape :: "char \<Rightarrow> char option" where
  "simple_escape c =
     (if c = CHR 0x22 \<or> c = CHR 0x5C \<or> c = CHR ''/'' then Some c
      else if c = CHR ''b'' then Some (CHR 0x08)
      else if c = CHR ''f'' then Some (CHR 0x0C)
      else if c = CHR ''n'' then Some (CHR 0x0A)
      else if c = CHR ''r'' then Some (CHR 0x0D)
      else if c = CHR ''t'' then Some (CHR 0x09)
      else None)"

text \<open>The rest of a string literal, after its opening quote: the string and what follows it.\<close>

fun string_body :: "string \<Rightarrow> (string \<times> string) option" where
  "string_body [] = None"
| "string_body (c # cs) =
     (if c = CHR 0x22 then Some ([], cs)
      else if c = CHR 0x5C then
        (case cs of
           [] \<Rightarrow> None
         | e # rest \<Rightarrow>
             if e = CHR ''u'' then
               (case rest of
                  h1 # h2 # h3 # h4 # rest' \<Rightarrow>
                    (case hex_number [h1, h2, h3, h4] of
                       Some n \<Rightarrow> if n < 128 then map_option (\<lambda>(s, r). (char_of n # s, r)) (string_body rest') else None
                     | None \<Rightarrow> None)
                | _ \<Rightarrow> None)
             else
               (case simple_escape e of
                  Some d \<Rightarrow> map_option (\<lambda>(s, r). (d # s, r)) (string_body rest)
                | None \<Rightarrow> None))
      else if (of_char c :: nat) < 32 then None
      else map_option (\<lambda>(s, r). (c # s, r)) (string_body cs))"

definition digits_value :: "string \<Rightarrow> nat" where
  "digits_value ds = foldl (\<lambda>n c. 10 * n + (of_char c - 48)) 0 ds"

definition fraction_follows :: "string \<Rightarrow> bool" where
  "fraction_follows r = (case r of [] \<Rightarrow> False | c # _ \<Rightarrow> c = CHR ''.'' \<or> c = CHR ''e'' \<or> c = CHR ''E'')"

definition parse_digits :: "string \<Rightarrow> (nat \<times> string) option" where
  "parse_digits s =
     (let ds = takeWhile is_digit s; r = dropWhile is_digit s in
      if ds = [] \<or> (length ds > 1 \<and> hd ds = CHR ''0'') \<or> fraction_follows r then None
      else Some (digits_value ds, r))"

definition parse_number :: "string \<Rightarrow> (json \<times> string) option" where
  "parse_number s =
     (case s of
        [] \<Rightarrow> None
      | c # cs \<Rightarrow>
          if c = CHR ''-'' then map_option (\<lambda>(n, r). (JNum (- int n), r)) (parse_digits cs)
          else map_option (\<lambda>(n, r). (JNum (int n), r)) (parse_digits s))"

definition parse_word :: "string \<Rightarrow> (json \<times> string) option" where
  "parse_word s =
     (if starts_with s ''true'' then Some (JBool True, drop 4 s)
      else if starts_with s ''false'' then Some (JBool False, drop 5 s)
      else if starts_with s ''null'' then Some (JNull, drop 4 s)
      else parse_number s)"

text \<open>Members with the same key: the last value, at the place of the first.\<close>

fun parse_value :: "nat \<Rightarrow> string \<Rightarrow> (json \<times> string) option"
  and parse_elements :: "nat \<Rightarrow> json list \<Rightarrow> string \<Rightarrow> (json \<times> string) option"
  and parse_members :: "nat \<Rightarrow> (string \<times> json) list \<Rightarrow> string \<Rightarrow> (json \<times> string) option" where
  "parse_value 0 s = None"
| "parse_value (Suc n) s =
     (case skip_ws s of
        [] \<Rightarrow> None
      | c # cs \<Rightarrow>
          if c = CHR 0x7B then
            (case skip_ws cs of
               [] \<Rightarrow> None
             | d # ds \<Rightarrow> if d = CHR 0x7D then Some (JObj [], ds) else parse_members n [] (d # ds))
          else if c = CHR 0x5B then
            (case skip_ws cs of
               [] \<Rightarrow> None
             | d # ds \<Rightarrow> if d = CHR 0x5D then Some (JArr [], ds) else parse_elements n [] (d # ds))
          else if c = CHR 0x22 then map_option (\<lambda>(t, r). (JStr t, r)) (string_body cs)
          else parse_word (c # cs))"
| "parse_elements 0 acc s = None"
| "parse_elements (Suc n) acc s =
     (case parse_value n s of
        None \<Rightarrow> None
      | Some (v, r) \<Rightarrow>
          (case skip_ws r of
             [] \<Rightarrow> None
           | c # cs \<Rightarrow>
               if c = CHR '','' then parse_elements n (acc @ [v]) cs
               else if c = CHR 0x5D then Some (JArr (acc @ [v]), cs)
               else None))"
| "parse_members 0 acc s = None"
| "parse_members (Suc n) acc s =
     (case skip_ws s of
        [] \<Rightarrow> None
      | c # cs \<Rightarrow>
          if c \<noteq> CHR 0x22 then None
          else
            (case string_body cs of
               None \<Rightarrow> None
             | Some (k, r) \<Rightarrow>
                 (case skip_ws r of
                    [] \<Rightarrow> None
                  | d # ds \<Rightarrow>
                      if d \<noteq> CHR 0x3A then None
                      else
                        (case parse_value n ds of
                           None \<Rightarrow> None
                         | Some (v, r') \<Rightarrow>
                             (case skip_ws r' of
                                [] \<Rightarrow> None
                              | e # es \<Rightarrow>
                                  if e = CHR '','' then parse_members n (kv_put k v acc) es
                                  else if e = CHR 0x7D then Some (JObj (kv_put k v acc), es)
                                  else None)))))"

definition json_parse :: "string \<Rightarrow> json option" where
  "json_parse s =
     (case parse_value (2 * length s + 1) s of
        Some (v, r) \<Rightarrow> if skip_ws r = [] then Some v else None
      | None \<Rightarrow> None)"

section \<open>Reading back what was written\<close>

lemma skip_ws_other [simp]: "\<not> is_json_ws c \<Longrightarrow> skip_ws (c # cs) = c # cs"
  by (simp add: skip_ws_def)

lemma skip_ws_Nil [simp]: "skip_ws [] = []"
  by (simp add: skip_ws_def)

lemma hex_table: "\<forall>k \<in> set [0 ..< 16]. hex_val (hex_digit k) = Some k"
  by (simp add: upt_rec hex_val_def hex_digit_def)

lemma hex_val_digit: "n < 16 \<Longrightarrow> hex_val (hex_digit n) = Some n"
  using hex_table by simp

lemma escape_read: "string_body (escape_char c @ t) = map_option (\<lambda>(s, r). (c # s, r)) (string_body t)"
proof -
  let ?n = "of_char c :: nat"
  have h: "hex_number [CHR ''0'', CHR ''0'', hex_digit (?n div 16), hex_digit (?n mod 16)] = Some ?n" if "?n < 32"
  proof -
    have "hex_val CHR ''0'' = Some 0" by (simp add: hex_val_def)
    moreover have "?n div 16 < 16" "?n mod 16 < 16" using that by auto
    ultimately show ?thesis by (simp add: hex_val_digit)
  qed
  show ?thesis
  proof (cases "?n < 32")
    case True
    with h show ?thesis by (auto simp: escape_char_def simple_escape_def)
  next
    case False
    then show ?thesis by (auto simp: escape_char_def simple_escape_def)
  qed
qed

lemma string_read: "string_body (concat (map escape_char s) @ CHR 0x22 # r) = Some (s, r)"
  by (induction s) (simp_all add: escape_read)

lemma digit_char: "n < 10 \<Longrightarrow> of_char (char_of (48 + n) :: char) = (48 + n :: nat)"
  by simp

lemma is_digit_char: "(n :: nat) < 10 \<Longrightarrow> is_digit (char_of (48 + n))"
  by (simp add: is_digit_def)

lemma nat_to_str_digits: "list_all is_digit (nat_to_str n)"
proof (induction n rule: nat_to_str.induct)
  case (1 n)
  then show ?case
    by (subst nat_to_str.simps) (simp add: is_digit_char)
qed

lemma nat_to_str_ne [simp]: "nat_to_str n \<noteq> []"
  by (subst nat_to_str.simps) simp

lemma digits_value_snoc: "digits_value (ds @ [c]) = 10 * digits_value ds + (of_char c - 48)"
  by (simp add: digits_value_def)

lemma nat_to_str_value: "digits_value (nat_to_str n) = n"
proof (induction n rule: nat_to_str.induct)
  case (1 n)
  show ?case
  proof (cases "n < 10")
    case True
    then show ?thesis by (subst nat_to_str.simps) (simp add: digits_value_def)
  next
    case False
    then show ?thesis
      by (subst nat_to_str.simps) (simp add: digits_value_snoc 1 digit_char)
  qed
qed

lemma nat_to_str_hd: "n > 0 \<Longrightarrow> hd (nat_to_str n) \<noteq> CHR ''0''"
proof (induction n rule: nat_to_str.induct)
  case (1 n)
  show ?case
  proof (cases "n < 10")
    case True
    have "(of_char (char_of (48 + n) :: char) :: nat) = 48 + n" using True by simp
    moreover have "(of_char (CHR ''0'') :: nat) = 48" by simp
    ultimately have "char_of (48 + n) \<noteq> CHR ''0''" using 1(2) by (metis add_cancel_right_right less_irrefl)
    with True show ?thesis by (subst nat_to_str.simps) simp
  next
    case False
    then show ?thesis using 1(1) by (subst nat_to_str.simps) simp
  qed
qed

lemma nat_to_str_long: "length (nat_to_str n) > 1 \<Longrightarrow> n > 0"
  by (rule ccontr) (simp add: nat_to_str.simps [of 0])

definition ends_value :: "string \<Rightarrow> bool" where
  "ends_value r = (case r of [] \<Rightarrow> True | c # _ \<Rightarrow> \<not> is_digit c \<and> \<not> fraction_follows r)"

lemma digits_read:
  assumes "ends_value r"
  shows "parse_digits (nat_to_str n @ r) = Some (n, r)"
proof -
  have all: "\<forall>c \<in> set (nat_to_str n). is_digit c"
    using nat_to_str_digits by (simp add: list_all_iff)
  have r: "takeWhile is_digit r = []" "dropWhile is_digit r = r" "\<not> fraction_follows r"
    using assms by (auto simp: ends_value_def fraction_follows_def split: list.splits)
  have "takeWhile is_digit (nat_to_str n @ r) = nat_to_str n" "dropWhile is_digit (nat_to_str n @ r) = r"
    using all r by (simp_all add: takeWhile_append2 dropWhile_append2)
  then show ?thesis
    using nat_to_str_hd [of n] nat_to_str_long [of n] r nat_to_str_value
    by (auto simp: parse_digits_def Let_def)
qed

lemma nat_to_str_Cons: "\<exists>c cs. nat_to_str n = c # cs \<and> is_digit c"
  using nat_to_str_digits [of n] by (cases "nat_to_str n") auto

lemma number_read:
  assumes "ends_value r"
  shows "parse_number (int_to_str i @ r) = Some (JNum i, r)"
proof -
  obtain c cs where c: "nat_to_str (nat i) = c # cs" "is_digit c" using nat_to_str_Cons by blast
  then have "c \<noteq> CHR ''-''" by (auto simp: is_digit_def)
  then show ?thesis
    using digits_read [OF assms, of "nat i"] digits_read [OF assms, of "nat (- i)"] c
    by (auto simp: parse_number_def int_to_str_def)
qed


text \<open>Keys of an object that the parser builds are distinct.\<close>

fun json_wf :: "json \<Rightarrow> bool" where
  "json_wf (JArr xs) = list_all json_wf xs"
| "json_wf (JObj kvs) = (distinct (map fst kvs) \<and> list_all (\<lambda>kv. json_wf (snd kv)) kvs)"
| "json_wf _ = True"

lemma int_to_str_Cons: "\<exists>c cs. int_to_str i = c # cs \<and> (is_digit c \<or> c = CHR ''-'')"
  using nat_to_str_Cons [of "nat i"] by (auto simp: int_to_str_def)

lemma word_read:
  assumes "ends_value r"
  shows "parse_word (int_to_str i @ r) = Some (JNum i, r)"
proof -
  obtain c cs where "int_to_str i = c # cs" "is_digit c \<or> c = CHR ''-''" using int_to_str_Cons by blast
  then have "\<not> starts_with (int_to_str i @ r) ''true''" "\<not> starts_with (int_to_str i @ r) ''false''"
    "\<not> starts_with (int_to_str i @ r) ''null''"
    by (auto simp: is_digit_def)
  then show ?thesis using number_read [OF assms] by (simp add: parse_word_def)
qed

definition member_text :: "string \<times> json \<Rightarrow> string" where
  "member_text kv = quote (fst kv) @ '':'' @ stringify (snd kv)"

lemma stringify_obj: "stringify (JObj kvs) = ''{'' @ join_with '','' (map member_text kvs) @ ''}''"
  by (simp add: member_text_def [abs_def])

lemma join_cons: "join_with sep (x # xs) = x @ (if xs = [] then [] else sep @ join_with sep xs)"
  by (cases xs) auto

lemma stringify_Cons:
  "\<exists>c cs. stringify v = c # cs \<and> \<not> is_json_ws c \<and> c \<noteq> CHR 0x5D \<and> c \<noteq> CHR 0x7D"
proof (cases v)
  case (JNum i)
  with int_to_str_Cons [of i] show ?thesis by (auto simp: is_digit_def is_json_ws_def)
qed (auto simp: is_json_ws_def quote_def)


lemma kv_put_new: "k \<notin> fst ` set acc \<Longrightarrow> kv_put k v acc = acc @ [(k, v)]"
  by (simp add: kv_put_def tbl_upsert_def)

lemma ends_value_sep [simp]:
  "ends_value (CHR '','' # r)" "ends_value (CHR 0x5D # r)" "ends_value (CHR 0x7D # r)" "ends_value []"
  by (simp_all add: ends_value_def is_digit_def fraction_follows_def)

lemma json_ws_seps [simp]:
  "\<not> is_json_ws (CHR '','')" "\<not> is_json_ws (CHR 0x5D)" "\<not> is_json_ws (CHR 0x7D)" "\<not> is_json_ws (CHR 0x22)"
  "\<not> is_json_ws (CHR 0x3A)"
  by (simp_all add: is_json_ws_def)

lemma elements_read:
  assumes "\<And>x n r. x \<in> set (v # vs) \<Longrightarrow> ends_value r \<Longrightarrow> 2 * length (stringify x) \<le> n \<Longrightarrow>
      parse_value n (stringify x @ r) = Some (x, r)"
    and "2 * length (join_with '','' (map stringify (v # vs))) + 1 \<le> n"
  shows "parse_elements n acc (join_with '','' (map stringify (v # vs)) @ CHR 0x5D # r) = Some (JArr (acc @ v # vs), r)"
  using assms
proof (induction vs arbitrary: v n acc)
  case Nil
  then obtain m where m: "n = Suc m" "2 * length (stringify v) \<le> m" by (cases n) auto
  then show ?case using Nil(1) [of v "CHR 0x5D # r" m] by simp
next
  case (Cons w ws)
  let ?t = "join_with '','' (map stringify (w # ws))"
  from Cons.prems(2) obtain m where m: "n = Suc m" "2 * length (stringify v) \<le> m" "2 * length ?t + 1 \<le> m"
    by (cases n) auto
  have "parse_value m (stringify v @ CHR '','' # ?t @ CHR 0x5D # r) = Some (v, CHR '','' # ?t @ CHR 0x5D # r)"
    using Cons.prems(1) m(2) by simp
  moreover have "parse_elements m (acc @ [v]) (?t @ CHR 0x5D # r) = Some (JArr ((acc @ [v]) @ w # ws), r)"
    by (rule Cons.IH) (use Cons.prems(1) m(3) in auto)
  ultimately show ?case using m(1) by simp
qed

lemma members_read:
  assumes "\<And>x n r. x \<in> snd ` set (kv # kvs) \<Longrightarrow> ends_value r \<Longrightarrow> 2 * length (stringify x) \<le> n \<Longrightarrow>
      parse_value n (stringify x @ r) = Some (x, r)"
    and "2 * length (join_with '','' (map member_text (kv # kvs))) + 1 \<le> n" "distinct (map fst (acc @ kv # kvs))"
  shows "parse_members n acc (join_with '','' (map member_text (kv # kvs)) @ CHR 0x7D # r) = Some (JObj (acc @ kv # kvs), r)"
  using assms
proof (induction kvs arbitrary: kv n acc)
  case Nil
  obtain k v where kv: "kv = (k, v)" by force
  from Nil.prems(2) obtain m where m: "n = Suc m" "2 * length (stringify v) \<le> m"
    by (cases n) (auto simp: kv member_text_def)
  have "parse_value m (stringify v @ CHR 0x7D # r) = Some (v, CHR 0x7D # r)"
    using Nil.prems(1) [of v "CHR 0x7D # r" m] m(2) kv by simp
  then show ?case
    using Nil.prems(3) m(1) kv by (simp add: member_text_def quote_def string_read kv_put_new)
next
  case (Cons w ws)
  obtain k v where kv: "kv = (k, v)" by force
  let ?t = "join_with '','' (map member_text (w # ws))"
  have "length (member_text kv) > length (stringify v)" by (simp add: kv member_text_def)
  with Cons.prems(2) obtain m where m: "n = Suc m" "2 * length (stringify v) \<le> m" "2 * length ?t + 1 \<le> m"
    by (cases n) auto
  have "parse_value m (stringify v @ CHR '','' # ?t @ CHR 0x7D # r) = Some (v, CHR '','' # ?t @ CHR 0x7D # r)"
    using Cons.prems(1) [of v "CHR '','' # ?t @ CHR 0x7D # r" m] m(2) kv by simp
  moreover have "parse_members m (acc @ [kv]) (?t @ CHR 0x7D # r) = Some (JObj ((acc @ [kv]) @ w # ws), r)"
    by (rule Cons.IH) (use Cons.prems m(3) in auto)
  moreover have "kv_put k v acc = acc @ [kv]" using Cons.prems(3) kv by (simp add: kv_put_new)
  ultimately show ?case using m(1) kv by (simp add: member_text_def [of "(k, v)"] quote_def string_read)
qed

lemma value_read:
  "json_wf v \<Longrightarrow> ends_value r \<Longrightarrow> 2 * length (stringify v) \<le> n \<Longrightarrow> parse_value n (stringify v @ r) = Some (v, r)"
proof (induction v arbitrary: n r)
  case JNull
  then obtain m where "n = Suc m" by (cases n) auto
  then show ?case by (simp add: is_json_ws_def parse_word_def)
next
  case (JBool b)
  then obtain m where "n = Suc m" by (cases n; cases b) auto
  then show ?case by (simp add: is_json_ws_def parse_word_def)
next
  case (JNum i)
  obtain c cs where c: "int_to_str i = c # cs" "is_digit c \<or> c = CHR ''-''"
    using int_to_str_Cons by blast
  with JNum obtain m where "n = Suc m" by (cases n) auto
  moreover have "\<not> is_json_ws c" "c \<noteq> CHR 0x7B" "c \<noteq> CHR 0x5B" "c \<noteq> CHR 0x22"
    using c(2) by (auto simp: is_digit_def is_json_ws_def)
  ultimately show ?case using word_read [OF JNum(2), of i] c(1) by simp
next
  case (JStr s)
  then obtain m where "n = Suc m" by (cases n) (auto simp: quote_def)
  then show ?case by (simp add: quote_def string_read)
next
  case (JArr vs)
  then obtain m where m: "n = Suc m" by (cases n) auto
  show ?case
  proof (cases vs)
    case Nil
    then show ?thesis using m by (simp add: is_json_ws_def)
  next
    case (Cons w ws)
    obtain c cs where c: "stringify w = c # cs" "\<not> is_json_ws c" "c \<noteq> CHR 0x5D" using stringify_Cons by blast
    have "parse_elements m [] (join_with '','' (map stringify (w # ws)) @ CHR 0x5D # r) = Some (JArr ([] @ w # ws), r)"
      by (rule elements_read) (use JArr Cons m in \<open>auto simp: list_all_iff\<close>)
    then show ?thesis using m c Cons by (simp add: is_json_ws_def join_cons)
  qed
next
  case (JObj kvs)
  then obtain m where m: "n = Suc m" by (cases n) auto
  show ?case
  proof (cases kvs)
    case Nil
    then show ?thesis using m by (simp add: is_json_ws_def)
  next
    case (Cons w ws)
    have len: "length (stringify (JObj kvs)) = length (join_with '','' (map member_text kvs)) + 2"
      unfolding stringify_obj by simp
    have "parse_members m [] (join_with '','' (map member_text (w # ws)) @ CHR 0x7D # r) = Some (JObj ([] @ w # ws), r)"
    proof (rule members_read)
      show "2 * length (join_with '','' (map member_text (w # ws))) + 1 \<le> m"
        using JObj(4) m Cons len by simp
      show "distinct (map fst ([] @ w # ws))" using JObj(2) Cons by simp
      fix x n r
      assume x: "x \<in> snd ` set (w # ws)" and r: "ends_value r" "2 * length (stringify x) \<le> n"
      from x obtain k where "(k, x) \<in> set kvs" using Cons by force
      moreover from this have "json_wf x" using JObj(2) by (auto simp: list_all_iff)
      ultimately show "parse_value n (stringify x @ r) = Some (x, r)" using JObj(1) r by force
    qed
    then show ?thesis
      using m Cons unfolding stringify_obj by (simp add: is_json_ws_def join_cons member_text_def quote_def)
  qed
qed

text \<open>Reading back what \<open>JSON.stringify\<close> wrote.\<close>

lemma parse_stringify: "json_wf v \<Longrightarrow> json_parse (stringify v) = Some v"
  using value_read [of v "[]" "2 * length (stringify v) + 1"] by (simp add: json_parse_def)


section \<open>Percent encoding\<close>

text \<open>The characters \<open>encodeURIComponent\<close> leaves alone; of others the text is ASCII.\<close>

definition is_unreserved :: "char \<Rightarrow> bool" where
  "is_unreserved c = (is_digit c \<or> is_upper c \<or> is_lower c \<or>
     c \<in> set [CHR ''-'', CHR ''_'', CHR ''.'', CHR ''!'', CHR ''~'', CHR ''*'', CHR 0x27, CHR ''('', CHR '')''])"

definition upper_hex :: "nat \<Rightarrow> char" where
  "upper_hex n = (if n < 10 then char_of (48 + n) else char_of (55 + n))"

definition encode_char :: "char \<Rightarrow> string" where
  "encode_char c =
     (if is_unreserved c then [c]
      else [CHR ''%'', upper_hex (of_char c div 16), upper_hex (of_char c mod 16)])"

definition encodeURIComponent :: "string \<Rightarrow> string" where
  "encodeURIComponent s = concat (map encode_char s)"

fun decodeURIComponent :: "string \<Rightarrow> string option" where
  "decodeURIComponent [] = Some []"
| "decodeURIComponent (c # cs) =
     (if c = CHR ''%'' then
        (case cs of
           h1 # h2 # rest \<Rightarrow>
             (case hex_number [h1, h2] of
                Some n \<Rightarrow> if n < 128 then map_option ((#) (char_of n)) (decodeURIComponent rest) else None
              | None \<Rightarrow> None)
         | _ \<Rightarrow> None)
      else map_option ((#) c) (decodeURIComponent cs))"

definition ascii :: "string \<Rightarrow> bool" where
  "ascii s = list_all (\<lambda>c. (of_char c :: nat) < 128) s"

lemma upper_hex_table: "\<forall>k \<in> set [0 ..< 16]. hex_val (upper_hex k) = Some k \<and> is_unreserved (upper_hex k)"
  by (simp add: upt_rec hex_val_def upper_hex_def is_unreserved_def is_digit_def is_upper_def)

lemma hex_val_upper: "n < 16 \<Longrightarrow> hex_val (upper_hex n) = Some n"
  using upper_hex_table by simp

lemma decode_encode_char:
  assumes "(of_char c :: nat) < 128"
  shows "decodeURIComponent (encode_char c @ t) = map_option ((#) c) (decodeURIComponent t)"
proof (cases "is_unreserved c")
  case True
  then have "c \<noteq> CHR ''%''" by (auto simp: is_unreserved_def is_digit_def is_upper_def is_lower_def)
  with True show ?thesis by (simp add: encode_char_def)
next
  case False
  let ?n = "of_char c :: nat"
  have "?n div 16 < 16" "?n mod 16 < 16" using assms by auto
  then have "hex_number [upper_hex (?n div 16), upper_hex (?n mod 16)] = Some ?n" by (simp add: hex_val_upper)
  with False assms show ?thesis by (simp add: encode_char_def del: hex_number.simps)
qed

lemma decode_encodeURI: "ascii s \<Longrightarrow> decodeURIComponent (encodeURIComponent s) = Some s"
  by (induction s) (simp_all add: ascii_def encodeURIComponent_def decode_encode_char)

lemma upper_hex_plain: "n < 16 \<Longrightarrow> is_unreserved (upper_hex n)"
  using upper_hex_table by simp

text \<open>An encoded text has no separator of the reasons it is put into.\<close>

lemma encoded_plain: "c \<in> set (encodeURIComponent s) \<Longrightarrow> c = CHR ''%'' \<or> is_unreserved c"
proof (induction s)
  case (Cons x s)
  have "(of_char x :: nat) < 256" by (metis of_char_mod_256 mod_less_divisor zero_less_numeral)
  then have "(of_char x :: nat) div 16 < 16" "(of_char x :: nat) mod 16 < 16" by (simp_all add: div_less_iff_less_mult)
  then show ?case using Cons upper_hex_plain by (auto simp: encodeURIComponent_def encode_char_def split: if_splits)
qed (simp add: encodeURIComponent_def)

end
