(* ===== verification/ApprovalScopes.thy ===== *)
theory ApprovalScopes
  imports JsonText
begin

text \<open>
  Approval scopes (\<open>shared/src/approval-scope.ts\<close>): texts that say what an approval is for.
  They are parsed, stripped of what is only displayed, and brought into a canonical form,
  precise for a grant and coarse for a family of calls; grants match by canonical forms.
\<close>

section \<open>Fields of a payload\<close>

definition json_object :: "string \<Rightarrow> (string \<times> json) list option" where
  "json_object payload = (case json_parse payload of Some (JObj kvs) \<Rightarrow> Some kvs | _ \<Rightarrow> None)"

definition string_field :: "(string \<times> json) list \<Rightarrow> string list \<Rightarrow> string option" where
  "string_field kvs ks = first_some (map (\<lambda>k. as_string (obj_get kvs k)) ks)"

definition number_field :: "(string \<times> json) list \<Rightarrow> string \<Rightarrow> int option" where
  "number_field kvs k = (case obj_get kvs k of Some (JNum n) \<Rightarrow> Some n | _ \<Rightarrow> None)"

text \<open>\<open>String(value)\<close>.\<close>

fun js_string :: "json \<Rightarrow> string" where
  "js_string JNull = ''null''"
| "js_string (JBool b) = (if b then ''true'' else ''false'')"
| "js_string (JNum n) = int_to_str n"
| "js_string (JStr s) = s"
| "js_string (JArr xs) = join_with '','' (map (\<lambda>x. if x = JNull then [] else js_string x) xs)"
| "js_string (JObj kvs) = ''[object Object]''"

definition without_key :: "string \<Rightarrow> (string \<times> json) list \<Rightarrow> (string \<times> json) list" where
  "without_key k kvs = filter (\<lambda>kv. fst kv \<noteq> k) kvs"

definition opt_field :: "string \<Rightarrow> json option \<Rightarrow> (string \<times> json) list" where
  "opt_field k v = (case v of None \<Rightarrow> [] | Some x \<Rightarrow> [(k, x)])"

text \<open>The payload after a prefix, if it is written as an object.\<close>

definition object_payload :: "string \<Rightarrow> string \<Rightarrow> string option" where
  "object_payload p scope =
     (if starts_with scope p \<and> starts_with (drop (length p) scope) ''{'' then Some (drop (length p) scope) else None)"

section \<open>Edits\<close>

record edit_input =
  ei_oldString :: string
  ei_newString :: string
  ei_replaceAll :: bool
  ei_whitespace :: bool

definition readEditRecord :: "json \<Rightarrow> edit_input option" where
  "readEditRecord edit =
     (case edit of
        JObj kvs \<Rightarrow>
          Some \<lparr>ei_oldString = coalesce (string_field kvs [''oldString'', ''old_string'']) [],
            ei_newString = coalesce (string_field kvs [''newString'', ''new_string'']) [],
            ei_replaceAll = (obj_get kvs ''replaceAll'' = Some (JBool True) \<or> obj_get kvs ''replace_all'' = Some (JBool True)),
            ei_whitespace = (obj_get kvs ''matchStrategy'' = Some (JStr ''whitespace'') \<or>
              obj_get kvs ''match_strategy'' = Some (JStr ''whitespace''))\<rparr>
      | _ \<Rightarrow> None)"

definition index_of :: "string \<Rightarrow> string \<Rightarrow> nat option" where
  "index_of s p = find (\<lambda>i. starts_with (drop i s) p) [0 ..< Suc (length s)]"

definition start_line :: "edit_input \<Rightarrow> string option \<Rightarrow> nat option" where
  "start_line e fileContent =
     (case fileContent of
        None \<Rightarrow> None
      | Some content \<Rightarrow>
          if content = [] \<or> ei_oldString e = [] then None
          else map_option (\<lambda>i. length (split_char (CHR 0x0A) (take i content))) (index_of content (ei_oldString e)))"

definition enrichEditScopeFields :: "edit_input \<Rightarrow> string option \<Rightarrow> (string \<times> json) list" where
  "enrichEditScopeFields e fileContent =
     [(''oldString'', JStr (ei_oldString e)), (''newString'', JStr (ei_newString e)), (''replaceAll'', JBool (ei_replaceAll e))] @
     (if ei_whitespace e then [(''matchStrategy'', JStr ''whitespace'')] else []) @
     opt_field ''startLine'' (map_option (\<lambda>n. JNum (int n)) (start_line e fileContent))"

definition strip_edit :: "json \<Rightarrow> json" where
  "strip_edit edit = (case edit of JObj kvs \<Rightarrow> JObj (without_key ''startLine'' kvs) | _ \<Rightarrow> edit)"

definition map_edits :: "(json list \<Rightarrow> json list) \<Rightarrow> (string \<times> json) list \<Rightarrow> (string \<times> json) list" where
  "map_edits f kvs = (case obj_get kvs ''edits'' of Some (JArr es) \<Rightarrow> kv_put ''edits'' (JArr (f es)) kvs | _ \<Rightarrow> kvs)"

definition rewrite_object :: "string \<Rightarrow> ((string \<times> json) list \<Rightarrow> (string \<times> json) list) \<Rightarrow> string \<Rightarrow> string" where
  "rewrite_object p f scope =
     (case object_payload p scope of
        None \<Rightarrow> scope
      | Some payload \<Rightarrow> (case json_object payload of None \<Rightarrow> scope | Some kvs \<Rightarrow> p @ stringify (JObj (f kvs))))"

definition stripApprovalScopeDisplayFields :: "string \<Rightarrow> string" where
  "stripApprovalScopeDisplayFields scope =
     (if starts_with scope ''edit:'' then rewrite_object ''edit:'' (without_key ''startLine'') scope
      else if starts_with scope ''multiedit:'' then rewrite_object ''multiedit:'' (map_edits (map strip_edit)) scope
      else if starts_with scope ''connector:'' then rewrite_object ''connector:'' (without_key ''serverDisplayName'') scope
      else scope)"

text \<open>Each edit is applied to the content before the next one looks for its line.\<close>

fun split_on :: "nat \<Rightarrow> string \<Rightarrow> string \<Rightarrow> string list" where
  "split_on 0 p s = [s]"
| "split_on (Suc n) p s =
     (case index_of s p of
        None \<Rightarrow> [s]
      | Some i \<Rightarrow> take i s # split_on n p (drop (i + length p) s))"

definition apply_edit_text :: "edit_input \<Rightarrow> string \<Rightarrow> string" where
  "apply_edit_text e content =
     (if content = [] \<or> ei_oldString e = [] then content
      else case index_of content (ei_oldString e) of
        None \<Rightarrow> content
      | Some i \<Rightarrow>
          if ei_replaceAll e then join_with (ei_newString e) (split_on (length content) (ei_oldString e) content)
          else take i content @ ei_newString e @ drop (i + length (ei_oldString e)) content)"

fun enrich_edits :: "string \<Rightarrow> json list \<Rightarrow> json list" where
  "enrich_edits content [] = []"
| "enrich_edits content (e # es) =
     (case readEditRecord e of
        None \<Rightarrow> e # enrich_edits content es
      | Some f \<Rightarrow> JObj (enrichEditScopeFields f (Some content)) # enrich_edits (apply_edit_text f content) es)"

definition enrichApprovalScopeForDisplay :: "string \<Rightarrow> string option \<Rightarrow> string" where
  "enrichApprovalScopeForDisplay scope fileContent =
     (case fileContent of
        None \<Rightarrow> scope
      | Some content \<Rightarrow>
          if content = [] then scope
          else if starts_with scope ''edit:'' then
            rewrite_object ''edit:'' (\<lambda>kvs. case readEditRecord (JObj kvs) of
                None \<Rightarrow> kvs
              | Some f \<Rightarrow> opt_field ''resourcePath'' (obj_get kvs ''resourcePath'') @ enrichEditScopeFields f (Some content)) scope
          else if starts_with scope ''multiedit:'' then rewrite_object ''multiedit:'' (map_edits (enrich_edits content)) scope
          else scope)"

section \<open>Values in a reason\<close>

text \<open>The first \<open>key=value\<close> at the start of the reason or after a separator.\<close>

fun reason_value :: "bool \<Rightarrow> string \<Rightarrow> string \<Rightarrow> string option" where
  "reason_value start pre [] = None"
| "reason_value start pre (c # cs) =
     (let v = takeWhile (\<lambda>d. d \<noteq> CHR '';'') (drop (length pre) (c # cs)) in
      if start \<and> starts_with (c # cs) pre \<and> v \<noteq> [] then Some v
      else reason_value (c = CHR '';'' \<or> c = CHR 0x3A) pre cs)"

definition parseApprovalReasonValue :: "string \<Rightarrow> string \<Rightarrow> string option" where
  "parseApprovalReasonValue reason k =
     (case reason_value True (k @ ''='') reason of
        None \<Rightarrow> None
      | Some v \<Rightarrow> Some (coalesce (decodeURIComponent v) v))"

section \<open>Shell scopes\<close>

record shell_scope =
  ss_cwd :: string
  ss_command :: string
  ss_args :: "string list"

text \<open>Missing and empty argument lists are not distinguished.\<close>

definition parseLegacyArgs :: "string option \<Rightarrow> string list" where
  "parseLegacyArgs value =
     (case value of
        None \<Rightarrow> []
      | Some [] \<Rightarrow> []
      | Some v \<Rightarrow> (case json_parse v of Some (JArr xs) \<Rightarrow> map js_string xs | _ \<Rightarrow> [v]))"

definition args_field :: "(string \<times> json) list \<Rightarrow> string list" where
  "args_field kvs = (case obj_get kvs ''args'' of Some (JArr xs) \<Rightarrow> map js_string xs | _ \<Rightarrow> [])"

definition parseShellScope :: "string \<Rightarrow> shell_scope option" where
  "parseShellScope scope =
     (if \<not> starts_with scope ''shell:'' then None
      else
        (let payload = drop 6 scope in
         if starts_with payload ''{'' then
           (case json_object payload of
              None \<Rightarrow> None
            | Some kvs \<Rightarrow>
                (case (as_string (obj_get kvs ''cwd''), as_string (obj_get kvs ''command'')) of
                   (Some cwd, Some command) \<Rightarrow> Some \<lparr>ss_cwd = cwd, ss_command = command, ss_args = args_field kvs\<rparr>
                 | _ \<Rightarrow> None))
         else
           (case split_char (CHR 0x3A) payload of
              cwd # command # rest \<Rightarrow>
                if cwd = [] \<or> command = [] then None
                else Some \<lparr>ss_cwd = cwd, ss_command = command,
                       ss_args = parseLegacyArgs (case rest of [] \<Rightarrow> None | a # _ \<Rightarrow> Some a)\<rparr>
            | _ \<Rightarrow> None)))"

section \<open>Filesystem scopes\<close>

record fs_scope =
  fs_write :: bool
  fs_path :: string
  fs_offset :: "int option"
  fs_limit :: "int option"
  fs_patch :: "string option"
  fs_content :: "string option"

definition fs_action :: "bool \<Rightarrow> string" where
  "fs_action w = (if w then ''write'' else ''read'')"

definition read_or_write :: "string \<Rightarrow> bool option" where
  "read_or_write a = (if a = ''write'' then Some True else if a = ''read'' then Some False else None)"

definition parseFilesystemScope :: "string \<Rightarrow> fs_scope option" where
  "parseFilesystemScope scope =
     (if \<not> starts_with scope ''filesystem:'' then None
      else
        (let payload = drop 11 scope in
         if starts_with payload ''{'' then
           (case json_object payload of
              None \<Rightarrow> None
            | Some kvs \<Rightarrow>
                (case (as_string (obj_get kvs ''action''), as_string (obj_get kvs ''resourcePath'')) of
                   (Some a, Some p) \<Rightarrow>
                     (case read_or_write a of
                        None \<Rightarrow> None
                      | Some w \<Rightarrow>
                          if trim p = [] then None
                          else Some \<lparr>fs_write = w, fs_path = p, fs_offset = number_field kvs ''offset'',
                                 fs_limit = number_field kvs ''limit'', fs_patch = as_string (obj_get kvs ''patch''),
                                 fs_content = as_string (obj_get kvs ''content'')\<rparr>)
                 | _ \<Rightarrow> None))
         else
           (let a = takeWhile (\<lambda>c. c \<noteq> CHR 0x3A) payload; p = drop (Suc (length a)) payload in
            if CHR 0x3A \<notin> set payload then None
            else (case read_or_write a of
                    None \<Rightarrow> None
                  | Some w \<Rightarrow> if p = [] then None
                      else Some \<lparr>fs_write = w, fs_path = p, fs_offset = None, fs_limit = None, fs_patch = None, fs_content = None\<rparr>))))"

fun split_lines :: "string \<Rightarrow> string list" where
  "split_lines [] = [[]]"
| "split_lines (c # cs) =
     (if c = CHR 0x0A then [] # split_lines cs
      else if c = CHR 0x0D \<and> starts_with cs [CHR 0x0A] then split_lines cs
      else (case split_lines cs of [] \<Rightarrow> [[c]] | l # ls \<Rightarrow> (c # l) # ls))"

definition splitDiffLines :: "char \<Rightarrow> string \<Rightarrow> string list" where
  "splitDiffLines prefix value = map (\<lambda>l. prefix # l) (split_lines value)"

definition proposedWriteDiff :: "string \<Rightarrow> string \<Rightarrow> string" where
  "proposedWriteDiff path content =
     join_with [CHR 0x0A] ([''--- '' @ path, ''+++ '' @ path,
       ''@@ -0,0 +1,'' @ nat_to_str (max 1 (length (split_lines content))) @ '' @@''] @ splitDiffLines (CHR ''+'') content)"

definition proposedEditDiff :: "string \<Rightarrow> string \<Rightarrow> string \<Rightarrow> int option \<Rightarrow> string" where
  "proposedEditDiff path old new startLine =
     join_with [CHR 0x0A] ([''--- '' @ path, ''+++ '' @ path,
       (case startLine of
          None \<Rightarrow> ''@@''
        | Some n \<Rightarrow> ''@@ -'' @ int_to_str n @ '','' @ nat_to_str (length (split_lines old)) @ '' +'' @ int_to_str n @ '','' @
            nat_to_str (length (split_lines new)) @ '' @@'')] @
       splitDiffLines (CHR ''-'') old @ splitDiffLines (CHR ''+'') new)"

definition write_prefix :: "string \<Rightarrow> string option" where
  "write_prefix scope = find (starts_with scope) [''write:'', ''edit:'', ''multiedit:'']"

definition edits_patch :: "string \<Rightarrow> json list \<Rightarrow> string" where
  "edits_patch path edits =
     join_with [CHR 0x0A] (filter (\<lambda>d. d \<noteq> [])
       (map (\<lambda>e. case (readEditRecord e, e) of
               (Some f, JObj kvs) \<Rightarrow> proposedEditDiff path (ei_oldString f) (ei_newString f) (number_field kvs ''startLine'')
             | _ \<Rightarrow> []) edits))"

definition write_patch :: "string \<Rightarrow> string \<Rightarrow> (string \<times> json) list \<Rightarrow> string option" where
  "write_patch prefix path kvs =
     (if prefix = ''write:'' then map_option (proposedWriteDiff path) (string_field kvs [''content''])
      else if prefix = ''edit:'' then
        (case (string_field kvs [''oldString'', ''old_string''], string_field kvs [''newString'', ''new_string'']) of
           (Some old, Some new) \<Rightarrow> Some (proposedEditDiff path old new (number_field kvs ''startLine''))
         | _ \<Rightarrow> None)
      else
        (let patch = edits_patch path (case obj_get kvs ''edits'' of Some (JArr es) \<Rightarrow> es | _ \<Rightarrow> [])
         in if patch = [] then None else Some patch))"

definition parseWorkspaceWriteScope :: "string \<Rightarrow> fs_scope option" where
  "parseWorkspaceWriteScope scope =
     (case write_prefix scope of
        None \<Rightarrow> None
      | Some prefix \<Rightarrow>
          (case object_payload prefix scope of
             None \<Rightarrow> None
           | Some payload \<Rightarrow>
               (case json_object payload of
                  None \<Rightarrow> None
                | Some kvs \<Rightarrow>
                    (case string_field kvs [''resourcePath'', ''file_path''] of
                       None \<Rightarrow> None
                     | Some path \<Rightarrow>
                         if trim path = [] then None
                         else Some \<lparr>fs_write = True, fs_path = path, fs_offset = None, fs_limit = None,
                                fs_patch = write_patch prefix path kvs, fs_content = None\<rparr>))))"

section \<open>Connector scopes\<close>

record connector_scope =
  co_serverId :: string
  co_serverDisplayName :: string
  co_toolName :: string
  co_argsPreview :: string
  co_argsFingerprint :: "string option"

definition nonempty :: "string option \<Rightarrow> string option" where
  "nonempty s = (case s of None \<Rightarrow> None | Some [] \<Rightarrow> None | Some t \<Rightarrow> Some t)"

definition parseConnectorScope :: "string \<Rightarrow> connector_scope option" where
  "parseConnectorScope scope =
     (if \<not> starts_with scope ''connector:'' then None
      else
        (case json_object (drop 10 scope) of
           None \<Rightarrow> None
         | Some kvs \<Rightarrow>
             (case (nonempty (string_field kvs [''serverId'', ''server_id'']),
                    nonempty (string_field kvs [''toolName'', ''tool_name'', ''tool''])) of
                (Some server, Some tool) \<Rightarrow>
                  Some \<lparr>co_serverId = server,
                    co_serverDisplayName = coalesce (string_field kvs [''serverDisplayName'', ''server_display_name'', ''server'']) [],
                    co_toolName = tool,
                    co_argsPreview = coalesce (string_field kvs [''argsPreview'', ''args_preview'', ''args'']) [],
                    co_argsFingerprint = nonempty (string_field kvs [''argsFingerprint'', ''args_fingerprint''])\<rparr>
              | _ \<Rightarrow> None)))"

definition connector_fields :: "connector_scope \<Rightarrow> (string \<times> json) list" where
  "connector_fields c =
     [(''serverId'', JStr (co_serverId c)), (''serverDisplayName'', JStr (co_serverDisplayName c)),
      (''toolName'', JStr (co_toolName c)), (''argsPreview'', JStr (co_argsPreview c))] @
     opt_field ''argsFingerprint'' (map_option JStr (nonempty (co_argsFingerprint c)))"

definition buildConnectorScope :: "connector_scope \<Rightarrow> string" where
  "buildConnectorScope c = ''connector:'' @ stringify (JObj (connector_fields c))"

section \<open>Canonical forms\<close>

fun path_stack :: "string list \<Rightarrow> string list \<Rightarrow> string list" where
  "path_stack stack [] = stack"
| "path_stack stack (p # ps) =
     (if p = [] \<or> p = ''.'' then path_stack stack ps
      else if p = ''..'' then path_stack (butlast stack) ps
      else path_stack (stack @ [p]) ps)"

definition normalizeApprovalPath :: "string \<Rightarrow> string" where
  "normalizeApprovalPath value =
     (let t = trim (map (\<lambda>c. if c = CHR 0x5C then CHR ''/'' else c) value);
          trimmed = (if t = [] then ''.'' else t);
          joined = join_with ''/'' (path_stack [] (split_char (CHR ''/'') trimmed))
      in if starts_with trimmed ''/'' then ''/'' @ joined else if joined = [] then ''.'' else joined)"

fun stable_json :: "json \<Rightarrow> string" where
  "stable_json (JArr xs) = ''['' @ join_with '','' (map stable_json xs) @ '']''"
| "stable_json (JObj kvs) =
     ''{'' @ join_with '','' (map (\<lambda>kt. quote (fst kt) @ '':'' @ snd kt)
        (sort_cmp (\<lambda>a b. str_cmp (fst a) (fst b)) (map (\<lambda>kv. (fst kv, stable_json (snd kv))) kvs))) @ ''}''"
| "stable_json v = stringify v"

definition canonical_shell :: "bool \<Rightarrow> shell_scope \<Rightarrow> string" where
  "canonical_shell family s =
     ''shell:'' @ stringify (JObj ([(''cwd'', JStr (normalizeApprovalPath (ss_cwd s))), (''command'', JStr (ss_command s))] @
       (if family \<or> ss_args s = [] then [] else [(''args'', JArr (map JStr (ss_args s)))])))"

definition fs_operation :: "string \<Rightarrow> string" where
  "fs_operation scope =
     (if starts_with scope ''write:'' then ''write'' else if starts_with scope ''edit:'' then ''edit''
      else if starts_with scope ''multiedit:'' then ''multiedit'' else ''filesystem'')"

definition canonical_fs :: "bool \<Rightarrow> string \<Rightarrow> fs_scope \<Rightarrow> string" where
  "canonical_fs family operation f =
     ''filesystem:'' @ stringify (JObj ([(''action'', JStr (fs_action (fs_write f))),
        (''resourcePath'', JStr (normalizeApprovalPath (fs_path f)))] @
        (if \<not> family \<and> operation = ''filesystem'' then
           opt_field ''offset'' (map_option JNum (fs_offset f)) @ opt_field ''limit'' (map_option JNum (fs_limit f)) @
           opt_field ''patch'' (map_option JStr (fs_patch f)) @ opt_field ''content'' (map_option JStr (fs_content f))
         else [])))"

text \<open>A precise write keeps all its details, in a stable order of their keys.\<close>

definition canonical_write :: "string \<Rightarrow> string \<Rightarrow> fs_scope \<Rightarrow> string option" where
  "canonical_write scope operation f =
     (case object_payload (operation @ '':'') (stripApprovalScopeDisplayFields scope) of
        None \<Rightarrow> None
      | Some payload \<Rightarrow>
          map_option (\<lambda>kvs. ''filesystem:'' @ stable_json (JObj [(''action'', JStr (fs_action (fs_write f))),
              (''resourcePath'', JStr (normalizeApprovalPath (fs_path f))), (''operation'', JStr operation),
              (''details'', JObj (without_key ''startLine'' kvs))]))
            (json_object payload))"

definition canonical_connector :: "bool \<Rightarrow> connector_scope \<Rightarrow> string" where
  "canonical_connector family c =
     buildConnectorScope \<lparr>co_serverId = co_serverId c, co_serverDisplayName = [], co_toolName = co_toolName c,
       co_argsPreview = (if family \<or> co_argsFingerprint c \<noteq> None then [] else co_argsPreview c),
       co_argsFingerprint = (if family then None else co_argsFingerprint c)\<rparr>"

definition canonical_download :: "string \<Rightarrow> string option" where
  "canonical_download scope =
     (case object_payload ''download:'' scope of
        None \<Rightarrow> None
      | Some payload \<Rightarrow>
          (case json_object payload of
             None \<Rightarrow> None
           | Some kvs \<Rightarrow>
               (let path = (case as_string (obj_get kvs ''resourcePath'') of
                      None \<Rightarrow> None
                    | Some p \<Rightarrow> if trim p = [] then None else Some (normalizeApprovalPath p));
                    url = trim (coalesce (as_string (obj_get kvs ''url'')) [])
                in if path = None \<and> url = [] then None
                   else Some (''download:'' @ stringify (JObj (opt_field ''resourcePath'' (map_option JStr path) @
                      (if url = [] then [] else [(''url'', JStr url)])))))))"

definition canonical_fetch :: "string \<Rightarrow> string option" where
  "canonical_fetch scope =
     (case object_payload ''fetch:'' scope of
        None \<Rightarrow> None
      | Some payload \<Rightarrow>
          (case json_object payload of
             None \<Rightarrow> None
           | Some kvs \<Rightarrow>
               (case as_string (obj_get kvs ''url'') of
                  None \<Rightarrow> None
                | Some u \<Rightarrow> if trim u = [] then None else Some (''fetch:'' @ stringify (JObj [(''url'', JStr (trim u))])))))"

definition canonical_generic :: "string \<Rightarrow> string" where
  "canonical_generic scope =
     (let ty = takeWhile (\<lambda>c. c \<noteq> CHR 0x3A) scope; rest = drop (Suc (length ty)) scope;
          ac = takeWhile (\<lambda>c. c \<noteq> CHR 0x3A) rest; path = trim (drop (Suc (length ac)) rest)
      in if CHR 0x3A \<in> set scope \<and> CHR 0x3A \<in> set rest \<and> ty \<noteq> [] \<and> ac \<noteq> [] \<and> path \<noteq> []
         then ty @ '':'' @ ac @ '':'' @ normalizeApprovalPath path else scope)"

definition canonical_other :: "string \<Rightarrow> string" where
  "canonical_other scope =
     (case canonical_download scope of
        Some s \<Rightarrow> s
      | None \<Rightarrow>
          if starts_with scope ''job_kill:'' then ''job_kill''
          else (case canonical_fetch scope of Some s \<Rightarrow> s | None \<Rightarrow> canonical_generic scope))"

definition canonicalizeApprovalScope :: "string \<Rightarrow> bool \<Rightarrow> string" where
  "canonicalizeApprovalScope scope family =
     (case parseShellScope scope of
        Some s \<Rightarrow> canonical_shell family s
      | None \<Rightarrow>
          (case or_default (parseFilesystemScope scope) (parseWorkspaceWriteScope scope) of
             Some f \<Rightarrow>
               (let operation = fs_operation scope;
                    precise = (if \<not> family \<and> operation \<noteq> ''filesystem'' then canonical_write scope operation f else None)
                in coalesce precise (canonical_fs family operation f))
           | None \<Rightarrow>
               (case parseConnectorScope scope of
                  Some c \<Rightarrow> canonical_connector family c
                | None \<Rightarrow> canonical_other scope)))"

definition canonicalizeApprovalGrantScope :: "string \<Rightarrow> string" where
  "canonicalizeApprovalGrantScope scope = canonicalizeApprovalScope scope False"

definition canonicalizeApprovalFamilyScope :: "string \<Rightarrow> string" where
  "canonicalizeApprovalFamilyScope scope = canonicalizeApprovalScope scope True"

section \<open>Matching\<close>

definition approvalScopeMatches :: "string \<Rightarrow> string \<Rightarrow> bool" where
  "approvalScopeMatches stored requested =
     (canonicalizeApprovalGrantScope stored = canonicalizeApprovalGrantScope requested)"

datatype grant_mode = Grant_Exact | Grant_Family

definition approvalScopeMatchesPersisted :: "string \<Rightarrow> string \<Rightarrow> grant_mode \<Rightarrow> bool" where
  "approvalScopeMatchesPersisted scope persisted mode =
     (canonicalizeApprovalGrantScope scope = persisted \<or>
      mode = Grant_Family \<and> canonicalizeApprovalFamilyScope scope = persisted)"

definition APPROVAL_GRANT_ALWAYS_PREFIX :: string where
  "APPROVAL_GRANT_ALWAYS_PREFIX = ''grant:always_allow:''"

definition APPROVAL_GRANT_FAMILY_PREFIX :: string where
  "APPROVAL_GRANT_FAMILY_PREFIX = ''grant:always_allow_family:''"

definition formatPersistedApprovalGrantReason :: "grant_mode \<Rightarrow> string \<Rightarrow> string \<Rightarrow> string" where
  "formatPersistedApprovalGrantReason mode scope remark =
     (if mode = Grant_Family then APPROVAL_GRANT_FAMILY_PREFIX else APPROVAL_GRANT_ALWAYS_PREFIX) @
     ''scope='' @ encodeURIComponent scope @ '';note='' @ remark"

definition persistedGrantMode :: "string \<Rightarrow> grant_mode" where
  "persistedGrantMode reason = (if includes_str reason APPROVAL_GRANT_FAMILY_PREFIX then Grant_Family else Grant_Exact)"

text \<open>The second alternative is for families that were once stored as plain grants.\<close>

definition approvalPersistedGrantMatches :: "string \<Rightarrow> string \<Rightarrow> string \<Rightarrow> bool" where
  "approvalPersistedGrantMatches reason stored requested =
     (let mode = persistedGrantMode reason;
          persisted = (if mode = Grant_Family then canonicalizeApprovalFamilyScope stored
                       else canonicalizeApprovalGrantScope stored)
      in approvalScopeMatchesPersisted requested persisted mode \<or>
         mode = Grant_Exact \<and> canonicalizeApprovalFamilyScope stored = canonicalizeApprovalGrantScope stored \<and>
         approvalScopeMatchesPersisted requested (canonicalizeApprovalFamilyScope stored) Grant_Family)"

end
