(* ===== verification/ApprovalScopeLaws.thy ===== *)
theory ApprovalScopeLaws
  imports ApprovalScopes
begin

text \<open>
  Facts about approval scopes: what the parser of JSON returns is well-formed, canonical paths
  stay as they are, and what the canonical form of a canonical form is.
\<close>

section \<open>Parsed values\<close>

lemma json_wf_put:
  assumes "json_wf (JObj acc)" "json_wf v"
  shows "json_wf (JObj (kv_put k v acc))"
  using assms set_kv_put [of k v acc] distinct_kv_put [of acc k v]
  by (auto simp: list_all_iff)

lemma parse_number_wf: "parse_number s = Some (v, r) \<Longrightarrow> json_wf v"
  by (auto simp: parse_number_def split: list.splits if_splits)

lemma parse_word_wf: "parse_word s = Some (v, r) \<Longrightarrow> json_wf v"
  using parse_number_wf by (auto simp: parse_word_def split: if_splits)

lemma parse_wf:
  "parse_value n s = Some (v, r) \<Longrightarrow> json_wf v"
  "parse_elements n es s = Some (v, r) \<Longrightarrow> list_all json_wf es \<Longrightarrow> json_wf v"
  "parse_members n kvs s = Some (v, r) \<Longrightarrow> json_wf (JObj kvs) \<Longrightarrow> json_wf v"
proof (induction n s and n es s and n kvs s arbitrary: v r and v r and v r
    rule: parse_value_parse_elements_parse_members.induct)
  case (2 n s)
  then show ?case by (auto split: list.splits if_splits dest: parse_word_wf)
next
  case (4 n acc s)
  then show ?case by (fastforce split: option.splits list.splits if_splits)
next
  case (6 n acc s)
  from 6(3) obtain cs k q d ds w q' e es where p: "skip_ws s = CHR 0x22 # cs" "string_body cs = Some (k, q)"
    "skip_ws q = d # ds" "d = CHR 0x3A" "parse_value n ds = Some (w, q')" "skip_ws q' = e # es"
    "if e = CHR '','' then parse_members n (kv_put k w acc) es = Some (v, r)
     else e = CHR 0x7D \<and> v = JObj (kv_put k w acc)"
    by (auto split: option.splits list.splits if_splits)
  from 6 p have "json_wf w" by force
  then have "json_wf (JObj (kv_put k w acc))" using json_wf_put 6(4) by blast
  with p 6 show ?case by (auto split: if_splits)
qed simp_all

lemma json_parse_wf: "json_parse s = Some v \<Longrightarrow> json_wf v"
  by (auto simp: json_parse_def simp del: parse_value.simps dest: parse_wf(1) split: option.splits if_splits)

lemma json_object_wf: "json_object s = Some kvs \<Longrightarrow> json_wf (JObj kvs)"
  by (auto simp: json_object_def dest!: json_parse_wf split: option.splits json.splits)

lemma json_object_stringify: "json_wf (JObj kvs) \<Longrightarrow> json_object (stringify (JObj kvs)) = Some kvs"
  using parse_stringify [of "JObj kvs"] by (simp add: json_object_def del: stringify.simps)

lemma stringify_inj: "json_wf v \<Longrightarrow> json_wf w \<Longrightarrow> stringify v = stringify w \<longleftrightarrow> v = w"
  by (metis option.inject parse_stringify)

lemma stringify_obj_Cons: "\<exists>t. stringify (JObj kvs) = CHR 0x7B # t"
  by simp

section \<open>Canonical paths\<close>

definition good_part :: "string \<Rightarrow> bool" where
  "good_part p = (p \<noteq> [] \<and> p \<noteq> ''.'' \<and> p \<noteq> ''..'')"

lemma path_stack_good:
  assumes "list_all good_part ps"
  shows "path_stack st ps = st @ ps"
  using assms by (induction ps arbitrary: st) (auto simp: good_part_def)

lemma path_stack_parts:
  "p \<in> set (path_stack st ps) \<Longrightarrow> p \<in> set st \<or> (p \<in> set ps \<and> good_part p)"
  by (induction st ps rule: path_stack.induct) (auto simp: good_part_def split: if_splits dest: in_set_butlastD)

lemma join_slash_ne:
  assumes "list_all good_part ps" "ps \<noteq> []"
  shows "join_with ''/'' ps \<noteq> []"
  using assms by (cases ps) (auto simp: join_cons good_part_def)

lemma join_slash_head:
  assumes "list_all (\<lambda>p. good_part p \<and> CHR ''/'' \<notin> set p) ps"
  shows "\<not> starts_with (join_with ''/'' ps) ''/''"
proof (cases ps)
  case (Cons p qs)
  with assms obtain c cs where "p = c # cs" "c \<noteq> CHR ''/''" by (cases p) (auto simp: good_part_def)
  with Cons show ?thesis by (simp add: join_cons)
qed simp

lemma set_join: "c \<in> set (join_with sep ps) \<Longrightarrow> c \<in> set sep \<or> (\<exists>p \<in> set ps. c \<in> set p)"
  by (induction ps rule: induct_list012) auto

lemma set_split: "p \<in> set (split_char c s) \<Longrightarrow> set p \<subseteq> set s"
proof (induction s arbitrary: p)
  case (Cons x xs)
  obtain q qs where "split_char c xs = q # qs" by (cases "split_char c xs") simp_all
  with Cons show ?case by (fastforce split: if_splits)
qed simp

lemma set_trim: "set (trim s) \<subseteq> set s"
  by (auto simp: trim_def dest!: set_dropWhileD)

text \<open>Normalizing again changes nothing, unless a blank part has come to an end of the path.\<close>

definition settled_path :: "string \<Rightarrow> bool" where
  "settled_path p \<longleftrightarrow> trim (normalizeApprovalPath p) = normalizeApprovalPath p"

lemma normalize_settled:
  assumes "settled_path p"
  shows "normalizeApprovalPath (normalizeApprovalPath p) = normalizeApprovalPath p"
proof -
  define t where "t = trim (map (\<lambda>c. if c = CHR 0x5C then CHR ''/'' else c) p)"
  define tr where "tr = (if t = [] then ''.'' else t)"
  define st where "st = path_stack [] (split_char (CHR ''/'') tr)"
  define n where "n = normalizeApprovalPath p"
  have n: "n = (if starts_with tr ''/'' then ''/'' @ join_with ''/'' st else if join_with ''/'' st = [] then ''.'' else join_with ''/'' st)"
    by (simp add: n_def normalizeApprovalPath_def Let_def t_def tr_def st_def)
  have "CHR 0x5C \<notin> set t"
  proof -
    have "CHR 0x5C \<notin> set (map (\<lambda>c. if c = CHR 0x5C then CHR ''/'' else c) p)" by auto
    then show ?thesis using set_trim unfolding t_def by blast
  qed
  then have tr: "CHR 0x5C \<notin> set tr" by (simp add: tr_def)
  have st: "list_all (\<lambda>q. good_part q \<and> CHR ''/'' \<notin> set q) st" "\<forall>q \<in> set st. CHR 0x5C \<notin> set q"
    using path_stack_parts [of _ "[]"] split_char_no_sep [of _ "CHR ''/''" tr] set_split [of _ "CHR ''/''" tr] tr
    unfolding st_def list_all_iff by fastforce+
  then have good: "list_all good_part st" by (auto simp: list_all_iff)
  have "CHR 0x5C \<notin> set n" using n st(2) set_join [of "CHR 0x5C" "''/''" st] by (auto split: if_splits)
  then have same: "map (\<lambda>c. if c = CHR 0x5C then CHR ''/'' else c) n = n" by (auto intro: map_idI)
  have ne: "n \<noteq> []" using n by auto
  have tn: "trim n = n" using assms by (simp add: settled_path_def n_def)
  have parts: "split_char (CHR ''/'') (join_with ''/'' st) = st" if "st \<noteq> []"
    using split_char_join [of st "CHR ''/''"] st(1) that by (auto simp: list_all_iff)
  have again: "normalizeApprovalPath n =
      (let joined = join_with ''/'' (path_stack [] (split_char (CHR ''/'') n))
       in if starts_with n ''/'' then ''/'' @ joined else if joined = [] then ''.'' else joined)"
    by (simp add: normalizeApprovalPath_def Let_def same tn ne)
  show ?thesis
  proof (cases "starts_with tr ''/''")
    case True
    then have nn: "n = ''/'' @ join_with ''/'' st" using n by simp
    have "path_stack [] (split_char (CHR ''/'') n) = st"
      using parts path_stack_good [OF good, of "[]"] unfolding nn by (cases "st = []") auto
    then show ?thesis using again nn unfolding n_def [symmetric] by simp
  next
    case False
    show ?thesis
    proof (cases "st = []")
      case True
      then have "n = ''.''" using n False by simp
      then show ?thesis unfolding n_def [symmetric] by (simp add: normalizeApprovalPath_def trim_def is_ws_def)
    next
      case nonempty: False
      then have nn: "n = join_with ''/'' st" using n False join_slash_ne [OF good] by simp
      then show ?thesis
        using again parts [OF nonempty] path_stack_good [OF good, of "[]"] join_slash_head [OF st(1)] ne
        unfolding n_def [symmetric] by simp
    qed
  qed
qed


section \<open>Stable texts\<close>

text \<open>A stable text is the plain text of the value with its keys sorted.\<close>

fun sort_keys :: "json \<Rightarrow> json" where
  "sort_keys (JArr xs) = JArr (map sort_keys xs)"
| "sort_keys (JObj kvs) = JObj (sort_cmp (\<lambda>a b. str_cmp (fst a) (fst b)) (map (\<lambda>kv. (fst kv, sort_keys (snd kv))) kvs))"
| "sort_keys v = v"

lemma map_insert_cmp:
  "(\<And>a b. cmp' (f a) (f b) = cmp a b) \<Longrightarrow> map f (insert_cmp cmp x ys) = insert_cmp cmp' (f x) (map f ys)"
  by (induction ys) auto

lemma map_sort_cmp:
  "(\<And>a b. cmp' (f a) (f b) = cmp a b) \<Longrightarrow> map f (sort_cmp cmp xs) = sort_cmp cmp' (map f xs)"
  by (induction xs) (simp_all add: map_insert_cmp [where cmp = cmp and cmp' = cmp'])

lemma stable_json_sorted: "stable_json v = stringify (sort_keys v)"
proof (induction v)
  case (JArr xs)
  then show ?case by (simp add: comp_def cong: map_cong)
next
  case (JObj kvs)
  let ?cmp = "\<lambda>a b :: string \<times> 'b. str_cmp (fst a) (fst b)"
  have IH: "map (\<lambda>kv. (fst kv, stable_json (snd kv))) kvs = map (\<lambda>kv. (fst kv, stringify (sort_keys (snd kv)))) kvs"
    using JObj by fastforce
  have "sort_cmp (\<lambda>a b. str_cmp (fst a) (fst b)) (map (\<lambda>kv. (fst kv, stringify (sort_keys (snd kv)))) kvs) =
      map (\<lambda>kv. (fst kv, stringify (snd kv)))
        (sort_cmp (\<lambda>a b. str_cmp (fst a) (fst b)) (map (\<lambda>kv. (fst kv, sort_keys (snd kv))) kvs))"
    by (subst map_sort_cmp [where cmp' = "\<lambda>a b. str_cmp (fst a) (fst b)"]) (simp_all add: comp_def)
  then show ?case by (simp add: IH comp_def)
qed simp_all

lemma set_sort_keys_pairs: "set (sort_cmp cmp kvs) = set kvs"
  by simp

lemma sort_keys_wf: "json_wf v \<Longrightarrow> json_wf (sort_keys v)"
proof (induction v)
  case (JObj kvs)
  then have "distinct (map fst (map (\<lambda>kv. (fst kv, sort_keys (snd kv))) kvs))" by (simp add: comp_def)
  then have "distinct (map fst (sort_cmp (\<lambda>a b. str_cmp (fst a) (fst b)) (map (\<lambda>kv. (fst kv, sort_keys (snd kv))) kvs)))"
    by (simp only: distinct_sort_cmp)
  moreover have "json_wf (sort_keys (snd kv))" if "kv \<in> set kvs" for kv
    using JObj that by (cases kv) (force simp: list_all_iff)
  ultimately show ?case by (auto simp: list_all_iff)
qed (auto simp: list_all_iff)

lemma obj_get_sorted:
  assumes "distinct (map fst kvs)"
  shows "obj_get (sort_cmp (\<lambda>a b. str_cmp (fst a) (fst b)) kvs) k = obj_get kvs k"
proof -
  have "map_of (sort_cmp (\<lambda>a b. str_cmp (fst a) (fst b)) kvs) = map_of kvs"
    by (subst map_of_inject_set) (use assms in auto)
  then show ?thesis by (simp add: obj_get_def)
qed

section \<open>Canonical shell scopes\<close>

definition shell_fields :: "bool \<Rightarrow> shell_scope \<Rightarrow> (string \<times> json) list" where
  "shell_fields family s = [(''cwd'', JStr (normalizeApprovalPath (ss_cwd s))), (''command'', JStr (ss_command s))] @
     (if family \<or> ss_args s = [] then [] else [(''args'', JArr (map JStr (ss_args s)))])"

lemma canonical_shell_fields: "canonical_shell family s = ''shell:'' @ stringify (JObj (shell_fields family s))"
  by (simp add: canonical_shell_def shell_fields_def)

lemma shell_fields_wf: "json_wf (JObj (shell_fields family s))"
  by (simp add: shell_fields_def list_all_iff)

lemma parse_canonical_shell:
  "parseShellScope (canonical_shell family s) =
     Some \<lparr>ss_cwd = normalizeApprovalPath (ss_cwd s), ss_command = ss_command s, ss_args = (if family then [] else ss_args s)\<rparr>"
proof -
  have "json_object (stringify (JObj (shell_fields family s))) = Some (shell_fields family s)"
    by (rule json_object_stringify [OF shell_fields_wf])
  then show ?thesis
    unfolding canonical_shell_fields parseShellScope_def
    by (simp add: Let_def del: stringify.simps) (simp add: shell_fields_def obj_get_def args_field_def comp_def)
qed

lemma canonicalize_shell: "parseShellScope scope = Some s \<Longrightarrow> canonicalizeApprovalScope scope family = canonical_shell family s"
  by (simp add: canonicalizeApprovalScope_def)

lemma canonical_shell_inj:
  "canonical_shell False s = canonical_shell False t \<longleftrightarrow>
     normalizeApprovalPath (ss_cwd s) = normalizeApprovalPath (ss_cwd t) \<and> ss_command s = ss_command t \<and> ss_args s = ss_args t"
  "canonical_shell True s = canonical_shell True t \<longleftrightarrow>
     normalizeApprovalPath (ss_cwd s) = normalizeApprovalPath (ss_cwd t) \<and> ss_command s = ss_command t"
  "canonical_shell True s = canonical_shell False t \<longleftrightarrow>
     normalizeApprovalPath (ss_cwd s) = normalizeApprovalPath (ss_cwd t) \<and> ss_command s = ss_command t \<and> ss_args t = []"
proof -
  have inj: "map JStr xs = map JStr ys \<longleftrightarrow> xs = ys" for xs ys by (simp add: inj_map_eq_map inj_def)
  have eq: "canonical_shell f s = canonical_shell g t \<longleftrightarrow> shell_fields f s = shell_fields g t" for f g
    unfolding canonical_shell_fields using stringify_inj [OF shell_fields_wf shell_fields_wf, of f s g t] by (simp del: stringify.simps)
  show "canonical_shell False s = canonical_shell False t \<longleftrightarrow>
     normalizeApprovalPath (ss_cwd s) = normalizeApprovalPath (ss_cwd t) \<and> ss_command s = ss_command t \<and> ss_args s = ss_args t"
    unfolding eq by (auto simp: shell_fields_def inj)
  show "canonical_shell True s = canonical_shell True t \<longleftrightarrow>
     normalizeApprovalPath (ss_cwd s) = normalizeApprovalPath (ss_cwd t) \<and> ss_command s = ss_command t"
    unfolding eq by (auto simp: shell_fields_def)
  show "canonical_shell True s = canonical_shell False t \<longleftrightarrow>
     normalizeApprovalPath (ss_cwd s) = normalizeApprovalPath (ss_cwd t) \<and> ss_command s = ss_command t \<and> ss_args t = []"
    unfolding eq by (auto simp: shell_fields_def)
qed

text \<open>The canonical form of a canonical shell scope.\<close>

lemma canonicalize_canonical_shell:
  assumes "settled_path (ss_cwd s)"
  shows "canonicalizeApprovalScope (canonical_shell False s) family = canonical_shell family s"
    "canonicalizeApprovalScope (canonical_shell True s) family = canonical_shell True s"
  using canonicalize_shell [OF parse_canonical_shell [of False s], of family]
    canonicalize_shell [OF parse_canonical_shell [of True s], of family] normalize_settled [OF assms]
  by (simp_all add: canonical_shell_def)


section \<open>Canonical writes\<close>

definition write_fields :: "string \<Rightarrow> string \<Rightarrow> (string \<times> json) list \<Rightarrow> (string \<times> json) list" where
  "write_fields path operation details =
     [(''action'', JStr ''write''), (''resourcePath'', JStr path), (''operation'', JStr operation), (''details'', JObj details)]"

lemma rewrite_object_payload:
  assumes "object_payload p scope = Some payload" "json_object payload = Some kvs" "json_wf (JObj (f kvs))"
  shows "object_payload p (rewrite_object p f scope) = Some (stringify (JObj (f kvs)))"
    "json_object (stringify (JObj (f kvs))) = Some (f kvs)"
  using assms(1,2) json_object_stringify [OF assms(3)] by (simp_all add: rewrite_object_def object_payload_def del: stringify.simps) simp

lemma without_key_wf: "json_wf (JObj kvs) \<Longrightarrow> json_wf (JObj (without_key k kvs))"
  by (auto simp: without_key_def list_all_iff distinct_map_filter)

lemma strip_edit_wf: "json_wf e \<Longrightarrow> json_wf (strip_edit e)"
  using without_key_wf by (auto simp: strip_edit_def split: json.split)

lemma map_edits_wf:
  assumes "json_wf (JObj kvs)"
  shows "json_wf (JObj (map_edits (map strip_edit) kvs))"
proof (cases "obj_get kvs ''edits''")
  case (Some v)
  then have "json_wf v" using assms map_of_SomeD [of kvs "''edits''" v] by (force simp: obj_get_def list_all_iff)
  then have "json_wf (JArr (map strip_edit es))" if "v = JArr es" for es
    using that strip_edit_wf by (auto simp: list_all_iff)
  with Some assms json_wf_put [OF assms] show ?thesis by (auto simp: map_edits_def split: json.split)
qed (use assms in \<open>simp add: map_edits_def\<close>)

lemma write_scope_cases:
  assumes "parseWorkspaceWriteScope scope = Some f"
  obtains operation payload kvs where "operation \<in> {''write'', ''edit'', ''multiedit''}" "fs_operation scope = operation"
    "object_payload (operation @ '':'') scope = Some payload" "json_object payload = Some kvs"
    "string_field kvs [''resourcePath'', ''file_path''] = Some (fs_path f)" "fs_write f" "trim (fs_path f) \<noteq> []"
    "starts_with scope (operation @ '':'')"
proof -
  have pre: "prefix = fs_operation scope @ '':''" "prefix \<in> {''write:'', ''edit:'', ''multiedit:''}"
      "fs_operation scope \<in> {''write'', ''edit'', ''multiedit''}" "starts_with scope prefix"
    if "write_prefix scope = Some prefix" for prefix
    using that by (auto simp: write_prefix_def fs_operation_def split: if_splits)
  from assms obtain prefix payload kvs where p: "write_prefix scope = Some prefix" "object_payload prefix scope = Some payload"
    "json_object payload = Some kvs" "string_field kvs [''resourcePath'', ''file_path''] = Some (fs_path f)" "fs_write f"
    "trim (fs_path f) \<noteq> []"
    by (auto simp: parseWorkspaceWriteScope_def split: option.splits if_splits)
  show ?thesis
    by (rule that [OF _ refl _ p(3,4,5,6)]) (use p(2) pre [OF p(1)] in auto)
qed

lemma starts_with_chars:
  "starts_with s ''write:'' \<Longrightarrow> \<not> starts_with s ''shell:'' \<and> \<not> starts_with s ''filesystem:'' \<and> \<not> starts_with s ''edit:'' \<and>
     \<not> starts_with s ''multiedit:'' \<and> \<not> starts_with s ''connector:''"
  "starts_with s ''edit:'' \<Longrightarrow> \<not> starts_with s ''shell:'' \<and> \<not> starts_with s ''filesystem:'' \<and> \<not> starts_with s ''write:''"
  "starts_with s ''multiedit:'' \<Longrightarrow> \<not> starts_with s ''shell:'' \<and> \<not> starts_with s ''filesystem:'' \<and> \<not> starts_with s ''write:'' \<and>
     \<not> starts_with s ''edit:''"
  by (auto simp: starts_with_iff)

lemma write_scope_other:
  assumes "parseWorkspaceWriteScope scope = Some f"
  shows "parseShellScope scope = None" "parseFilesystemScope scope = None"
  using assms by (auto elim!: write_scope_cases simp: parseShellScope_def parseFilesystemScope_def dest!: starts_with_chars)

lemma canonicalize_write:
  assumes "parseWorkspaceWriteScope scope = Some f"
  shows "\<exists>details operation. json_wf (JObj details) \<and> canonicalizeApprovalScope scope False =
      ''filesystem:'' @ stable_json (JObj (write_fields (normalizeApprovalPath (fs_path f)) operation details))"
    and "canonicalizeApprovalScope scope True = ''filesystem:'' @ stringify (JObj [(''action'', JStr ''write''),
      (''resourcePath'', JStr (normalizeApprovalPath (fs_path f)))])"
proof -
  note other = write_scope_other [OF assms]
  from assms obtain operation payload kvs where o: "operation \<in> {''write'', ''edit'', ''multiedit''}" "fs_operation scope = operation"
    "object_payload (operation @ '':'') scope = Some payload" "json_object payload = Some kvs" "fs_write f"
    "starts_with scope (operation @ '':'')"
    by (rule write_scope_cases)
  have wf: "json_wf (JObj kvs)" using json_object_wf o(4) by blast
  have "\<exists>payload' kvs'. object_payload (operation @ '':'') (stripApprovalScopeDisplayFields scope) = Some payload' \<and>
      json_object payload' = Some kvs' \<and> json_wf (JObj kvs')"
  proof -
    have "stripApprovalScopeDisplayFields scope = scope" if "operation = ''write''"
      using that o(6) starts_with_chars(1) [of scope] by (simp add: stripApprovalScopeDisplayFields_def)
    moreover have "stripApprovalScopeDisplayFields scope = rewrite_object ''edit:'' (without_key ''startLine'') scope"
      if "operation = ''edit''" using that o(6) by (simp add: stripApprovalScopeDisplayFields_def)
    moreover have "stripApprovalScopeDisplayFields scope = rewrite_object ''multiedit:'' (map_edits (map strip_edit)) scope"
      if "operation = ''multiedit''"
      using that o(6) starts_with_chars(3) [of scope] by (simp add: stripApprovalScopeDisplayFields_def)
    ultimately show ?thesis
      using o(1,3,4) wf rewrite_object_payload [where f = "without_key ''startLine''", OF _ o(4) without_key_wf [OF wf]] without_key_wf [OF wf]
        rewrite_object_payload [where f = "map_edits (map strip_edit)", OF _ o(4) map_edits_wf [OF wf]] map_edits_wf [OF wf]
      by (auto simp del: stringify.simps json_wf.simps)
  qed
  then obtain payload' kvs' where s: "object_payload (operation @ '':'') (stripApprovalScopeDisplayFields scope) = Some payload'"
    "json_object payload' = Some kvs'" "json_wf (JObj kvs')" by blast
  then have "canonical_write scope operation f = Some (''filesystem:'' @ stable_json
      (JObj (write_fields (normalizeApprovalPath (fs_path f)) operation (without_key ''startLine'' kvs'))))"
    using o(5) by (simp add: canonical_write_def write_fields_def fs_action_def del: stable_json.simps)
  then have "canonicalizeApprovalScope scope False = ''filesystem:'' @ stable_json
      (JObj (write_fields (normalizeApprovalPath (fs_path f)) operation (without_key ''startLine'' kvs')))"
    using o(1,2) other assms
    by (auto simp: canonicalizeApprovalScope_def Let_def simp del: stable_json.simps)
  then show "\<exists>details operation. json_wf (JObj details) \<and> canonicalizeApprovalScope scope False =
      ''filesystem:'' @ stable_json (JObj (write_fields (normalizeApprovalPath (fs_path f)) operation details))"
    using without_key_wf [OF s(3)] by blast
  show "canonicalizeApprovalScope scope True = ''filesystem:'' @ stringify (JObj [(''action'', JStr ''write''),
      (''resourcePath'', JStr (normalizeApprovalPath (fs_path f)))])"
    using o(5) other assms by (simp add: canonicalizeApprovalScope_def Let_def canonical_fs_def fs_action_def)
qed


definition plain_write :: "string \<Rightarrow> string" where
  "plain_write path = ''filesystem:'' @ stringify (JObj [(''action'', JStr ''write''), (''resourcePath'', JStr path)])"

lemma sorted_write_fields:
  fixes path operation :: string and details kvs
  assumes "json_wf (JObj details)"
  defines "kvs \<equiv> sort_cmp (\<lambda>a b. str_cmp (fst a) (fst b)) (map (\<lambda>kv. (fst kv, sort_keys (snd kv))) (write_fields path operation details))"
  shows "json_object (stable_json (JObj (write_fields path operation details))) = Some kvs"
    "obj_get kvs ''action'' = Some (JStr ''write'')" "obj_get kvs ''resourcePath'' = Some (JStr path)"
    "obj_get kvs ''offset'' = None" "obj_get kvs ''limit'' = None" "obj_get kvs ''patch'' = None" "obj_get kvs ''content'' = None"
proof -
  have "json_wf (JObj (write_fields path operation details))"
    using assms(1) by (simp add: write_fields_def)
  then have "json_wf (JObj kvs)" using sort_keys_wf unfolding kvs_def by fastforce
  then show "json_object (stable_json (JObj (write_fields path operation details))) = Some kvs"
    unfolding stable_json_sorted by (simp add: json_object_stringify kvs_def del: stringify.simps json_wf.simps)
  have get: "obj_get kvs k = obj_get (map (\<lambda>kv. (fst kv, sort_keys (snd kv))) (write_fields path operation details)) k" for k
    unfolding kvs_def by (rule obj_get_sorted) (simp add: write_fields_def)
  show "obj_get kvs ''action'' = Some (JStr ''write'')" "obj_get kvs ''resourcePath'' = Some (JStr path)"
    "obj_get kvs ''offset'' = None" "obj_get kvs ''limit'' = None" "obj_get kvs ''patch'' = None" "obj_get kvs ''content'' = None"
    unfolding get by (simp_all add: write_fields_def obj_get_def)
qed

lemma normalize_ne: "normalizeApprovalPath p \<noteq> []"
  by (simp add: normalizeApprovalPath_def Let_def)

lemma parse_plain_shape:
  assumes "json_object text = Some kvs" "starts_with text ''{''" "obj_get kvs ''action'' = Some (JStr ''write'')"
    "obj_get kvs ''resourcePath'' = Some (JStr path)" "obj_get kvs ''offset'' = None" "obj_get kvs ''limit'' = None"
    "obj_get kvs ''patch'' = None" "obj_get kvs ''content'' = None" "trim path \<noteq> []"
  shows "canonicalizeApprovalScope (''filesystem:'' @ text) family = plain_write (normalizeApprovalPath path)"
proof -
  have "parseShellScope (''filesystem:'' @ text) = None" by (simp add: parseShellScope_def)
  moreover have "parseFilesystemScope (''filesystem:'' @ text) =
      Some \<lparr>fs_write = True, fs_path = path, fs_offset = None, fs_limit = None, fs_patch = None, fs_content = None\<rparr>"
    using assms by (simp add: parseFilesystemScope_def read_or_write_def number_field_def)
  moreover have "fs_operation (''filesystem:'' @ text) = ''filesystem''" by (simp add: fs_operation_def)
  ultimately show ?thesis
    by (simp add: canonicalizeApprovalScope_def Let_def canonical_fs_def fs_action_def opt_field_def plain_write_def)
qed

lemma settled_trim: "settled_path p \<Longrightarrow> trim (normalizeApprovalPath p) \<noteq> []"
  using normalize_ne by (simp add: settled_path_def)

text \<open>The canonical form of a canonical write has lost the details.\<close>

lemma canonicalize_canonical_write:
  assumes "settled_path p" "json_wf (JObj details)"
  shows "canonicalizeApprovalScope (''filesystem:'' @ stable_json (JObj (write_fields (normalizeApprovalPath p) operation details))) family =
    plain_write (normalizeApprovalPath p)"
proof -
  note k = sorted_write_fields [OF assms(2), of "normalizeApprovalPath p" operation]
  show ?thesis
    using parse_plain_shape [OF k(1) _ k(2-7) settled_trim [OF assms(1)], of family] normalize_settled [OF assms(1)]
    by (simp add: stable_json_sorted)
qed

lemma plain_write_differs:
  assumes "json_wf (JObj details)"
  shows "''filesystem:'' @ stable_json (JObj (write_fields path operation details)) \<noteq> plain_write path"
proof
  assume "''filesystem:'' @ stable_json (JObj (write_fields path operation details)) = plain_write path"
  then have "json_object (stable_json (JObj (write_fields path operation details))) =
      json_object (stringify (JObj [(''action'', JStr ''write''), (''resourcePath'', JStr path)]))"
    by (simp add: plain_write_def del: stringify.simps stable_json.simps)
  then have "length (sort_cmp (\<lambda>a b. str_cmp (fst a) (fst b))
      (map (\<lambda>kv. (fst kv, sort_keys (snd kv))) (write_fields path operation details))) = 2"
    using sorted_write_fields(1) [OF assms, of path operation] json_object_stringify [of "[(''action'', JStr ''write''), (''resourcePath'', JStr path)]"]
    by (simp del: stringify.simps stable_json.simps)
  then show False by (simp add: write_fields_def)
qed

section \<open>Grants\<close>

text \<open>What a grant of a single shell call covers among the shell calls.\<close>

lemma shell_grant:
  assumes "parseShellScope scope = Some s" "settled_path (ss_cwd s)" "persistedGrantMode reason = Grant_Exact"
    and "parseShellScope requested = Some t"
  shows "approvalPersistedGrantMatches reason (canonicalizeApprovalGrantScope scope) requested \<longleftrightarrow>
    normalizeApprovalPath (ss_cwd t) = normalizeApprovalPath (ss_cwd s) \<and> ss_command t = ss_command s \<and>
    (ss_args s = [] \<or> ss_args t = ss_args s)"
proof -
  have st: "canonicalizeApprovalGrantScope scope = canonical_shell False s"
    by (simp add: canonicalizeApprovalGrantScope_def canonicalize_shell [OF assms(1)])
  have mixed: "canonical_shell False t = canonical_shell True s \<longleftrightarrow> canonical_shell True s = canonical_shell False t" by auto
  show ?thesis
    unfolding st using assms(3)
    by (auto simp: approvalPersistedGrantMatches_def approvalScopeMatchesPersisted_def canonicalizeApprovalGrantScope_def
      canonicalizeApprovalFamilyScope_def Let_def canonicalize_canonical_shell [OF assms(2)] canonicalize_shell [OF assms(4)]
      canonical_shell_inj mixed)
qed

text \<open>What a grant of a single write covers.\<close>

lemma write_grant:
  assumes "parseWorkspaceWriteScope scope = Some f" "settled_path (fs_path f)" "persistedGrantMode reason = Grant_Exact"
    and "parseWorkspaceWriteScope requested = Some g" "normalizeApprovalPath (fs_path g) = normalizeApprovalPath (fs_path f)"
  shows "approvalPersistedGrantMatches reason (canonicalizeApprovalGrantScope scope) requested"
proof -
  from canonicalize_write(1) [OF assms(1)] obtain details operation where d: "json_wf (JObj details)"
    "canonicalizeApprovalScope scope False =
      ''filesystem:'' @ stable_json (JObj (write_fields (normalizeApprovalPath (fs_path f)) operation details))" by blast
  have "canonicalizeApprovalScope requested True = plain_write (normalizeApprovalPath (fs_path f))"
    using canonicalize_write(2) [OF assms(4)] assms(5) by (simp add: plain_write_def)
  then show ?thesis
    using canonicalize_canonical_write [OF assms(2) d(1)] assms(3)
    unfolding approvalPersistedGrantMatches_def approvalScopeMatchesPersisted_def canonicalizeApprovalGrantScope_def
      canonicalizeApprovalFamilyScope_def d(2) Let_def
    by simp
qed

end
