(* ===== verification/ToolScopes.thy ===== *)
theory ToolScopes
  imports ApprovalScopes
begin

text \<open>
  The scope of a tool call (\<open>services/shell-scope.ts\<close>, \<open>services/tool-service.ts\<close>): how a call is
  turned into the text an approval is matched by. The hash of a connector's arguments is a
  parameter. A scope is an option: \<open>None\<close> is a call of the builder that does not return.
\<close>

section \<open>Values\<close>

definition js_truthy :: "json option \<Rightarrow> bool" where
  "js_truthy v = (case v of
     None \<Rightarrow> False | Some JNull \<Rightarrow> False | Some (JBool b) \<Rightarrow> b | Some (JNum n) \<Rightarrow> n \<noteq> 0 | Some (JStr s) \<Rightarrow> s \<noteq> [] | _ \<Rightarrow> True)"

text \<open>The operator \<open>??\<close>.\<close>

definition nullish_or :: "json option \<Rightarrow> json option \<Rightarrow> json option" where
  "nullish_or a b = (if a = None \<or> a = Some JNull then b else a)"

definition js_replace_all :: "string \<Rightarrow> string \<Rightarrow> string \<Rightarrow> string" where
  "js_replace_all a b s = join_with b (split_on (length s) a s)"

section \<open>Shell commands\<close>

text \<open>The length of a double-quoted token after its opening quote, if it is closed.\<close>

fun dq_length :: "string \<Rightarrow> nat option" where
  "dq_length [] = None"
| "dq_length (c # cs) =
     (if c = CHR 0x22 then Some 1
      else if c = CHR 0x5C then
        (case cs of
           [] \<Rightarrow> None
         | d # ds \<Rightarrow> if d = CHR 0x0A \<or> d = CHR 0x0D then None else map_option (\<lambda>n. n + 2) (dq_length ds))
      else map_option Suc (dq_length cs))"

text \<open>The length of the token that starts here: quoted, or a run without white space.\<close>

definition token_length :: "string \<Rightarrow> nat" where
  "token_length s =
     (let plain = length (takeWhile (\<lambda>c. \<not> is_ws c) s) in
      case s of
        [] \<Rightarrow> 0
      | c # cs \<Rightarrow>
          if c = CHR 0x27 \<and> CHR 0x27 \<in> set cs then length (takeWhile (\<lambda>d. d \<noteq> CHR 0x27) cs) + 2
          else if c = CHR 0x22 then (case dq_length cs of Some n \<Rightarrow> Suc n | None \<Rightarrow> plain)
          else plain)"

function scan_tokens :: "string \<Rightarrow> string list" where
  "scan_tokens [] = []"
| "scan_tokens (c # cs) =
     (if token_length (c # cs) = 0 then scan_tokens cs
      else take (token_length (c # cs)) (c # cs) # scan_tokens (drop (token_length (c # cs)) (c # cs)))"
  by pat_completeness auto
termination by (relation "measure length") (auto simp: less_Suc_eq_le)

definition unquoteToken :: "string \<Rightarrow> string" where
  "unquoteToken token =
     (let quoted = (\<lambda>q. 2 \<le> length token \<and> starts_with token [q] \<and> ends_with token [q]);
          inner = butlast (tl token)
      in if quoted (CHR 0x27) then inner
         else if quoted (CHR 0x22) then
           js_replace_all [CHR 0x5C, CHR 0x5C] [CHR 0x5C] (js_replace_all [CHR 0x5C, CHR 0x22] [CHR 0x22] inner)
         else token)"

definition tokenizeCommand :: "string \<Rightarrow> string list" where
  "tokenizeCommand commandText = map unquoteToken (scan_tokens commandText)"

record parsed_command =
  pc_cwd :: "string option"
  pc_command :: string
  pc_args :: "string list"

definition parseCommandText :: "string \<Rightarrow> parsed_command option" where
  "parseCommandText commandText =
     (case tokenizeCommand commandText of
        [] \<Rightarrow> None
      | command # args \<Rightarrow>
          (case args of
             dir # amp # c # rest \<Rightarrow>
               if command = ''cd'' \<and> dir \<noteq> [] \<and> amp = ''&&'' \<and> c \<noteq> []
               then Some \<lparr>pc_cwd = Some dir, pc_command = c, pc_args = rest\<rparr>
               else if command = [] then None
               else Some \<lparr>pc_cwd = None, pc_command = command, pc_args = args\<rparr>
           | _ \<Rightarrow> if command = [] then None else Some \<lparr>pc_cwd = None, pc_command = command, pc_args = args\<rparr>))"

definition command_fields :: "string \<Rightarrow> string \<Rightarrow> string list \<Rightarrow> (string \<times> json) list" where
  "command_fields cwd command args =
     [(''cwd'', JStr cwd), (''command'', JStr command)] @
     (if args = [] then [] else [(''args'', JArr (map JStr args))])"

definition normalizeShellScope :: "(string \<times> json) list \<Rightarrow> string option \<Rightarrow> (string \<times> json) list" where
  "normalizeShellScope input resourcePath =
     (if js_truthy (obj_get input ''operation'') \<and> obj_get input ''operation'' \<noteq> Some (JStr ''execute'') then
        opt_field ''operation'' (obj_get input ''operation'') @ opt_field ''job_id'' (obj_get input ''job_id'')
      else
        (let cwd = coalesce (as_string (obj_get input ''cwd'')) (coalesce resourcePath []);
             commandText = coalesce (as_string (obj_get input ''command'')) []
         in case obj_get input ''args'' of
              Some (JArr xs) \<Rightarrow> command_fields cwd commandText (map js_string xs)
            | _ \<Rightarrow>
                (case parseCommandText commandText of
                   None \<Rightarrow> command_fields cwd commandText []
                 | Some p \<Rightarrow> command_fields (coalesce (pc_cwd p) cwd) (pc_command p) (pc_args p))))"

definition buildShellApprovalScope :: "(string \<times> json) list \<Rightarrow> string option \<Rightarrow> string" where
  "buildShellApprovalScope input resourcePath = ''shell:'' @ stringify (JObj (normalizeShellScope input resourcePath))"

section \<open>Secrets\<close>

definition DEFAULT_REDACT_KEYS :: "string list" where
  "DEFAULT_REDACT_KEYS = [''password'', ''token'', ''secret'', ''api_key'', ''apikey'', ''authorization'', ''auth'']"

definition REDACTED_VALUE :: json where
  "REDACTED_VALUE = JStr ''***''"

definition redact_key :: "string \<Rightarrow> string" where
  "redact_key k = filter (\<lambda>c. c \<noteq> CHR ''_'') (to_lower k)"

definition redacted_key :: "string \<Rightarrow> bool" where
  "redacted_key k = (redact_key k \<in> set (map redact_key DEFAULT_REDACT_KEYS))"

fun redactArgs :: "json \<Rightarrow> json" where
  "redactArgs (JArr xs) = JArr (map redactArgs xs)"
| "redactArgs (JObj kvs) = JObj (map (\<lambda>kv. (fst kv, if redacted_key (fst kv) then REDACTED_VALUE else redactArgs (snd kv))) kvs)"
| "redactArgs v = v"

section \<open>Scopes of tool calls\<close>

record tool_invocation =
  ti_org :: string
  ti_run :: string
  ti_member :: string
  ti_thread :: "string option"
  ti_call :: string
  ti_tool :: string
  ti_action :: string
  ti_type :: string
  ti_path :: "string option"
  ti_input :: "(string \<times> json) list"
  ti_mcp :: "string option"
  ti_permission :: "string option"
  ti_bypass :: bool
  ti_role :: "string option"

text \<open>\<open>JSON.stringify(value, null, 2)\<close>.\<close>

definition spaces :: "nat \<Rightarrow> string" where
  "spaces n = replicate n (CHR 0x20)"

fun pretty :: "nat \<Rightarrow> json \<Rightarrow> string" where
  "pretty n (JArr xs) =
     (if xs = [] then ''[]''
      else ''['' @ join_with '','' (map (\<lambda>x. CHR 0x0A # spaces (n + 2) @ pretty (n + 2) x) xs) @ CHR 0x0A # spaces n @ '']'')"
| "pretty n (JObj kvs) =
     (if kvs = [] then ''{}''
      else ''{'' @ join_with '','' (map (\<lambda>kv. CHR 0x0A # spaces (n + 2) @ quote (fst kv) @ '': '' @ pretty (n + 2) (snd kv)) kvs) @
        CHR 0x0A # spaces n @ ''}'')"
| "pretty n v = stringify v"

definition connector_target :: "tool_invocation \<Rightarrow> (string \<times> string \<times> string) option" where
  "connector_target call =
     (let serverId = or_default (ti_mcp call) (as_string (obj_get (ti_input call) ''mcpServerId''));
          toolName = as_string (obj_get (ti_input call) ''toolName'');
          serverName = or_default (as_string (obj_get (ti_input call) ''mcpServerName'')) serverId
      in case (nonempty serverId, nonempty toolName, nonempty serverName) of
           (Some s, Some t, Some n) \<Rightarrow> Some (s, t, n)
         | _ \<Rightarrow> None)"

text \<open>Without arguments the preview is \<open>undefined\<close>, so its field is left out; the hash is of \<open>null\<close>.\<close>

definition connector_action_text :: "(string \<Rightarrow> string) \<Rightarrow> string \<times> string \<times> string \<Rightarrow> json option \<Rightarrow> string" where
  "connector_action_text sha target args =
     (case target of (serverId, toolName, serverName) \<Rightarrow>
        (let scope = \<lparr>co_serverId = serverId, co_serverDisplayName = serverName, co_toolName = toolName,
               co_argsPreview = (case args of None \<Rightarrow> [] | Some v \<Rightarrow> pretty 0 (redactArgs v)),
               co_argsFingerprint = Some (sha (stringify (case args of None \<Rightarrow> JNull | Some v \<Rightarrow> v)))\<rparr>
         in if args = None then ''connector:'' @ stringify (JObj (without_key ''argsPreview'' (connector_fields scope)))
            else buildConnectorScope scope))"

definition object_scope :: "string \<Rightarrow> (string \<times> json) list \<Rightarrow> string" where
  "object_scope p kvs = p @ stringify (JObj kvs)"

definition edit_of_input :: "(string \<times> json) list \<Rightarrow> edit_input" where
  "edit_of_input input =
     (let text = (\<lambda>a b. js_string (case nullish_or (nullish_or (obj_get input a) (obj_get input b)) (Some (JStr [])) of
            Some v \<Rightarrow> v | None \<Rightarrow> JStr []))
      in \<lparr>ei_oldString = text ''oldString'' ''old_string'', ei_newString = text ''newString'' ''new_string'',
        ei_replaceAll = (obj_get input ''replaceAll'' = Some (JBool True) \<or> obj_get input ''replace_all'' = Some (JBool True)),
        ei_whitespace = (obj_get input ''matchStrategy'' = Some (JStr ''whitespace'') \<or>
          obj_get input ''match_strategy'' = Some (JStr ''whitespace''))\<rparr>)"

definition plain_tool_scope :: "tool_invocation \<Rightarrow> string" where
  "plain_tool_scope call =
     (let input = ti_input call; path = opt_field ''resourcePath'' (map_option JStr (ti_path call)) in
      if ti_tool call = ''shell'' then buildShellApprovalScope input (ti_path call)
      else if ti_tool call = ''write'' then object_scope ''write:'' (path @ opt_field ''content'' (obj_get input ''content''))
      else if ti_tool call = ''edit'' then object_scope ''edit:'' (path @ enrichEditScopeFields (edit_of_input input) None)
      else if ti_tool call = ''multiedit'' then
        object_scope ''multiedit:'' (path @ [(''edits'', JArr (map (\<lambda>e. JObj (enrichEditScopeFields e None))
          (List.map_filter readEditRecord (case obj_get input ''edits'' of Some (JArr es) \<Rightarrow> es | _ \<Rightarrow> []))))])
      else if ti_tool call = ''download'' then
        object_scope ''download:'' (path @ opt_field ''url'' (obj_get input ''url'') @ opt_field ''timeout'' (obj_get input ''timeout''))
      else if ti_tool call = ''job_kill'' then object_scope ''job_kill:'' (opt_field ''job_id'' (obj_get input ''job_id''))
      else ti_tool call @ '':'' @ ti_action call @ '':'' @ coalesce (ti_path call) [])"

text \<open>
  A connector call whose server or tool is missing falls back to the generic builder, and
  that one hands every connector call back.
\<close>

partial_function (option) buildConnectorActionScope :: "(string \<Rightarrow> string) \<Rightarrow> tool_invocation \<Rightarrow> string option" where
  "buildConnectorActionScope sha call =
     (case connector_target call of
        Some target \<Rightarrow> Some (connector_action_text sha target (obj_get (ti_input call) ''args''))
      | None \<Rightarrow>
          if ti_tool call = ''shell'' then Some (plain_tool_scope call)
          else if ti_tool call = ''mcp'' then buildConnectorActionScope sha call
          else Some (plain_tool_scope call))"

declare buildConnectorActionScope.simps [code]

definition buildGenericToolApprovalScope :: "(string \<Rightarrow> string) \<Rightarrow> tool_invocation \<Rightarrow> string option" where
  "buildGenericToolApprovalScope sha call =
     (if ti_tool call = ''mcp'' then buildConnectorActionScope sha call else Some (plain_tool_scope call))"

definition buildToolApprovalScope :: "(string \<Rightarrow> string) \<Rightarrow> tool_invocation \<Rightarrow> string option" where
  "buildToolApprovalScope sha call =
     (if ti_tool call = ''mcp'' then buildConnectorActionScope sha call else buildGenericToolApprovalScope sha call)"

text \<open>The content of the edited file, if it can be read, is a parameter.\<close>

definition enrichToolApprovalScopeForRequest :: "string \<Rightarrow> string option \<Rightarrow> string" where
  "enrichToolApprovalScopeForRequest scope fileContent =
     (if starts_with scope ''edit:'' \<or> starts_with scope ''multiedit:''
      then enrichApprovalScopeForDisplay scope fileContent else scope)"

end
