(* ===== verification/ToolScopeLaws.thy ===== *)
theory ToolScopeLaws
  imports ToolScopes ApprovalScopeLaws
begin

text \<open>
  What a scope says of a call, and what it does not: words and their quotes, the connector
  calls that have no scope, secrets, and what a grant for a connector call covers.
\<close>

section \<open>Words of a command\<close>

datatype quoting = Bare | Single | Double

fun quote_word :: "quoting \<Rightarrow> string \<Rightarrow> string" where
  "quote_word Bare w = w"
| "quote_word Single w = CHR 0x27 # w @ [CHR 0x27]"
| "quote_word Double w = CHR 0x22 # w @ [CHR 0x22]"

definition plain_word :: "string \<Rightarrow> bool" where
  "plain_word w = (w \<noteq> [] \<and> (\<forall>c \<in> set w. \<not> is_ws c \<and> c \<noteq> CHR 0x27 \<and> c \<noteq> CHR 0x22 \<and> c \<noteq> CHR 0x5C))"

definition command_text :: "quoting list \<Rightarrow> string list \<Rightarrow> string" where
  "command_text qs ws = join_with '' '' (map2 quote_word qs ws)"

lemma takeWhile_word: "(\<forall>c \<in> set w. P c) \<Longrightarrow> t = [] \<or> \<not> P (hd t) \<Longrightarrow> takeWhile P (w @ t) = w"
  by (induction w) (cases t, auto)

lemma dq_length_word: "\<forall>c \<in> set w. c \<noteq> CHR 0x22 \<and> c \<noteq> CHR 0x5C \<Longrightarrow> dq_length (w @ CHR 0x22 # t) = Some (Suc (length w))"
  by (induction w) auto

lemma token_length_quoted:
  assumes "plain_word w" "t = [] \<or> is_ws (hd t)"
  shows "token_length (quote_word q w @ t) = length (quote_word q w)"
proof (cases q)
  case Bare
  obtain c cs where w: "w = c # cs" using assms(1) by (cases w) (auto simp: plain_word_def)
  have "takeWhile (\<lambda>c. \<not> is_ws c) (w @ t) = w"
    using assms by (intro takeWhile_word) (auto simp: plain_word_def)
  then show ?thesis
    using assms(1) Bare by (auto simp: token_length_def w plain_word_def Let_def)
next
  case Single
  have "takeWhile (\<lambda>d. d \<noteq> CHR 0x27) (w @ CHR 0x27 # t) = w"
    using assms(1) by (intro takeWhile_word) (auto simp: plain_word_def)
  then show ?thesis using Single by (simp add: token_length_def)
next
  case Double
  then show ?thesis using assms(1) by (simp add: token_length_def dq_length_word plain_word_def)
qed

lemma scan_token:
  "token_length s = Suc n \<Longrightarrow> scan_tokens s = take (Suc n) s # scan_tokens (drop (Suc n) s)"
  by (cases s) (auto simp: token_length_def)

lemma scan_space: "scan_tokens (CHR 0x20 # t) = scan_tokens t"
  by (simp add: token_length_def is_ws_def)

lemma scan_words:
  "list_all plain_word ws \<Longrightarrow> length qs = length ws \<Longrightarrow> scan_tokens (command_text qs ws) = map2 quote_word qs ws"
proof (induction qs ws rule: list_induct2')
  case (4 q qs w ws)
  let ?rest = "(if ws = [] then [] else '' '' @ command_text qs ws)"
  have line: "command_text (q # qs) (w # ws) = quote_word q w @ ?rest"
    using 4 by (cases ws; cases qs) (auto simp: command_text_def)
  have len: "token_length (quote_word q w @ ?rest) = length (quote_word q w)"
    using 4 by (intro token_length_quoted) (auto simp: is_ws_def)
  obtain n where n: "length (quote_word q w) = Suc n" using 4 by (cases q; cases w) (auto simp: plain_word_def)
  show ?case
    using scan_token [OF len [unfolded n]] n 4 by (auto simp: line scan_space simp del: scan_tokens.simps(2))
qed (auto simp: command_text_def)

lemma ends_quoted: "ends_with (w @ [c]) [c]"
  by (simp add: ends_with_iff)

lemma index_of_absent: "p \<noteq> [] \<Longrightarrow> hd p \<notin> set s \<Longrightarrow> index_of s p = None"
proof -
  assume p: "p \<noteq> []" "hd p \<notin> set s"
  have "\<not> starts_with (drop i s) p" for i
  proof
    assume "starts_with (drop i s) p"
    then obtain t where "drop i s = p @ t" by (auto simp: starts_with_iff)
    then have "hd p \<in> set (drop i s)" using p(1) by (cases p) auto
    then show False using p(2) in_set_dropD by metis
  qed
  then show ?thesis by (simp add: index_of_def find_None_iff)
qed

lemma replace_absent: "p \<noteq> [] \<Longrightarrow> hd p \<notin> set s \<Longrightarrow> js_replace_all p b s = s"
  using index_of_absent [of p s] by (cases s) (simp_all add: js_replace_all_def)

lemma unquote_word: "plain_word w \<Longrightarrow> unquoteToken (quote_word q w) = w"
proof (cases q)
  case Bare
  assume "plain_word w"
  then obtain c cs where "w = c # cs" "c \<noteq> CHR 0x27" "c \<noteq> CHR 0x22" by (cases w) (auto simp: plain_word_def)
  then show ?thesis using Bare by (simp add: unquoteToken_def starts_with_def)
next
  case Single
  then show ?thesis by (simp add: unquoteToken_def starts_with_iff ends_with_iff Let_def)
next
  case Double
  assume w: "plain_word w"
  then have "CHR 0x5C \<notin> set w" by (auto simp: plain_word_def)
  then have "js_replace_all [CHR 0x5C, CHR 0x22] [CHR 0x22] w = w" "js_replace_all [CHR 0x5C, CHR 0x5C] [CHR 0x5C] w = w"
    by (simp_all add: replace_absent)
  then show ?thesis using Double by (simp add: unquoteToken_def starts_with_iff ends_with_iff Let_def)
qed

lemma tokens_of_words:
  "list_all plain_word ws \<Longrightarrow> length qs = length ws \<Longrightarrow> tokenizeCommand (command_text qs ws) = ws"
  unfolding tokenizeCommand_def
proof -
  assume "list_all plain_word ws" "length qs = length ws"
  then have "map unquoteToken (map2 quote_word qs ws) = ws"
    by (induction qs ws rule: list_induct2') (simp_all add: unquote_word)
  then show "map unquoteToken (scan_tokens (command_text qs ws)) = ws"
    using \<open>list_all plain_word ws\<close> \<open>length qs = length ws\<close> by (simp add: scan_words)
qed

text \<open>The calls the shell tool makes: a text that the shell reads, or a program and its arguments.\<close>

definition text_call :: "string \<Rightarrow> string \<Rightarrow> (string \<times> json) list" where
  "text_call cwd command = [(''operation'', JStr ''execute''), (''command'', JStr command), (''cwd'', JStr cwd)]"

definition argv_call :: "string \<Rightarrow> string \<Rightarrow> string list \<Rightarrow> (string \<times> json) list" where
  "argv_call cwd command args =
     [(''operation'', JStr ''execute''), (''command'', JStr command), (''args'', JArr (map JStr args)), (''cwd'', JStr cwd)]"

lemma parse_words:
  assumes "list_all plain_word (c # ws)" "c \<noteq> ''cd''" "length qs = Suc (length ws)"
  shows "parseCommandText (command_text qs (c # ws)) = Some \<lparr>pc_cwd = None, pc_command = c, pc_args = ws\<rparr>"
proof -
  have "tokenizeCommand (command_text qs (c # ws)) = c # ws" using assms by (intro tokens_of_words) auto
  moreover have "c \<noteq> []" using assms(1) by (auto simp: plain_word_def)
  ultimately show ?thesis using assms(2) by (simp add: parseCommandText_def split: list.split)
qed

text \<open>
  The scope of a shell call does not say who splits it into words: a text for the shell,
  with its words quoted or not, has the scope of the program run directly on those words, so
  that an operator of the shell and a literal word are not told apart.
\<close>

theorem quoting_hidden_from_scope:
  assumes "list_all plain_word (c # ws)" "c \<noteq> ''cd''" "length qs = Suc (length ws)"
  shows "buildShellApprovalScope (text_call cwd (command_text qs (c # ws))) path =
    buildShellApprovalScope (argv_call cwd c ws) path"
proof -
  have "map js_string (map JStr ws) = ws" by (simp add: comp_def)
  then show ?thesis
    using parse_words [OF assms]
    by (simp add: buildShellApprovalScope_def normalizeShellScope_def text_call_def argv_call_def obj_get_def as_string_def
      js_truthy_def Let_def del: stringify.simps)
qed

lemma quoting_hidden_from_scope_witness:
  "buildShellApprovalScope (text_call ''/w'' ''echo && rm x'') None = buildShellApprovalScope (argv_call ''/w'' ''echo'' [''&&'', ''rm'', ''x'']) None \<and>
   buildShellApprovalScope (text_call ''/w'' (''echo '' @ quote_word Single ''&&'' @ '' rm x'')) None =
     buildShellApprovalScope (argv_call ''/w'' ''echo'' [''&&'', ''rm'', ''x'']) None"
  using quoting_hidden_from_scope [of "''echo''" "[''&&'', ''rm'', ''x'']" "[Bare, Bare, Bare, Bare]" "''/w''" None]
    quoting_hidden_from_scope [of "''echo''" "[''&&'', ''rm'', ''x'']" "[Bare, Single, Bare, Bare]" "''/w''" None]
  by (simp add: command_text_def plain_word_def is_ws_def)

section \<open>Calls without a scope\<close>

lemma connector_returns:
  assumes "buildConnectorActionScope sha call = Some s"
  shows "connector_target call \<noteq> None \<or> ti_tool call \<noteq> ''mcp''"
proof (rule buildConnectorActionScope.raw_induct [where P = "\<lambda>_ c _. connector_target c \<noteq> None \<or> ti_tool c \<noteq> ''mcp''", OF _ assms])
  fix build shb c y
  assume ih: "\<And>shx d z. build shx d = Some z \<Longrightarrow> connector_target d \<noteq> None \<or> ti_tool d \<noteq> ''mcp''"
    and eq: "(case connector_target c of
        None \<Rightarrow> if ti_tool c = ''shell'' then Some (plain_tool_scope c)
          else if ti_tool c = ''mcp'' then build shb c else Some (plain_tool_scope c)
      | Some target \<Rightarrow> Some (connector_action_text shb target (obj_get (ti_input c) ''args''))) = Some y"
  show "connector_target c \<noteq> None \<or> ti_tool c \<noteq> ''mcp''"
  proof (rule disjCI)
    assume "\<not> ti_tool c \<noteq> ''mcp''"
    then show "connector_target c \<noteq> None"
      using eq ih [of shb c y] by (cases "connector_target c") simp_all
  qed
qed

lemma connector_loops: "connector_target call = None \<Longrightarrow> ti_tool call = ''mcp'' \<Longrightarrow> buildConnectorActionScope sha call = None"
  using connector_returns [of sha call] by (cases "buildConnectorActionScope sha call") auto

lemma connector_scope_of: "connector_target call = Some target \<Longrightarrow>
    buildConnectorActionScope sha call = Some (connector_action_text sha target (obj_get (ti_input call) ''args''))"
  by (subst buildConnectorActionScope.simps) simp

text \<open>
  The scope of a tool call is built without end exactly when the call is for a connector
  and names no server or no tool: the builder of connector scopes falls back to the generic
  one, which hands the call back.
\<close>

theorem scope_builder_diverges:
  "buildToolApprovalScope sha call = None \<longleftrightarrow> ti_tool call = ''mcp'' \<and> connector_target call = None"
  by (cases "connector_target call")
    (auto simp: buildToolApprovalScope_def buildGenericToolApprovalScope_def connector_loops connector_scope_of)

section \<open>Secrets\<close>

fun secrets_hidden :: "json \<Rightarrow> bool" where
  "secrets_hidden (JArr xs) = list_all secrets_hidden xs"
| "secrets_hidden (JObj kvs) = list_all (\<lambda>kv. if redacted_key (fst kv) then snd kv = REDACTED_VALUE else secrets_hidden (snd kv)) kvs"
| "secrets_hidden v = True"

lemma redacted_hidden: "secrets_hidden (redactArgs v)"
  by (induction v rule: redactArgs.induct) (auto simp: list_all_iff REDACTED_VALUE_def)

lemma hidden_fixed: "secrets_hidden v \<Longrightarrow> redactArgs v = v"
  by (induction v rule: redactArgs.induct) (force simp: list_all_iff intro!: map_idI split: if_splits)+

section \<open>What a grant covers\<close>

text \<open>What a connector scope is reduced to when it is compared.\<close>

definition connector_key :: "string \<Rightarrow> string \<Rightarrow> string option \<Rightarrow> connector_scope" where
  "connector_key s t print =
     \<lparr>co_serverId = s, co_serverDisplayName = [], co_toolName = t, co_argsPreview = [], co_argsFingerprint = print\<rparr>"

lemma connector_fields_wf: "json_wf (JObj (connector_fields c))" "json_wf (JObj (without_key k (connector_fields c)))"
  by (auto simp: connector_fields_def opt_field_def without_key_def split: option.split)

lemma string_field_one: "string_field kvs [k] = as_string (obj_get kvs k)"
  by (cases "as_string (obj_get kvs k)") (simp_all add: string_field_def)

lemma string_field_more: "string_field kvs (k # k' # ks) =
    (case as_string (obj_get kvs k) of None \<Rightarrow> string_field kvs (k' # ks) | Some s \<Rightarrow> Some s)"
  by (cases "as_string (obj_get kvs k)") (simp_all add: string_field_def)

lemma connector_gets:
  assumes "kvs = connector_fields c \<or> kvs = without_key ''argsPreview'' (connector_fields c)"
  shows "as_string (obj_get kvs ''serverId'') = Some (co_serverId c)" "as_string (obj_get kvs ''toolName'') = Some (co_toolName c)"
    "as_string (obj_get kvs ''argsFingerprint'') = nonempty (co_argsFingerprint c)" "as_string (obj_get kvs ''args_fingerprint'') = None"
  using assms
  by (cases "nonempty (co_argsFingerprint c)";
      auto simp: connector_fields_def without_key_def opt_field_def obj_get_def as_string_def)+

lemma parse_connector:
  assumes "kvs = connector_fields c \<or> kvs = without_key ''argsPreview'' (connector_fields c)"
    and "co_serverId c \<noteq> []" "co_toolName c \<noteq> []"
  shows "\<exists>d. parseConnectorScope (''connector:'' @ stringify (JObj kvs)) = Some d \<and> co_serverId d = co_serverId c \<and>
    co_toolName d = co_toolName c \<and> co_argsFingerprint d = nonempty (co_argsFingerprint c)"
proof -
  have "json_wf (JObj kvs)" using assms(1) connector_fields_wf by auto
  then have obj: "json_object (stringify (JObj kvs)) = Some kvs" by (rule json_object_stringify)
  have twice: "nonempty (nonempty q) = nonempty q" "nonempty (Some r) = (if r = [] then None else Some r)" for q r
    by (auto simp: nonempty_def split: option.split list.split)
  show ?thesis
    using assms(2,3) twice(1) [of "co_argsFingerprint c"]
    by (cases "nonempty (co_argsFingerprint c)")
      (simp_all add: parseConnectorScope_def obj string_field_one string_field_more connector_gets [OF assms(1)] twice(2) starts_with_def
        del: stringify.simps)
qed

lemma canonicalize_connector:
  assumes "parseConnectorScope scope = Some c" "co_argsFingerprint c \<noteq> None \<or> family"
  shows "canonicalizeApprovalScope scope family =
    buildConnectorScope (connector_key (co_serverId c) (co_toolName c) (if family then None else co_argsFingerprint c))"
proof -
  have "starts_with scope ''connector:''" using assms(1) by (simp add: parseConnectorScope_def split: if_splits)
  then obtain rest where "scope = ''connector:'' @ rest" by (auto simp: starts_with_iff)
  then have "parseShellScope scope = None" "parseFilesystemScope scope = None" "parseWorkspaceWriteScope scope = None"
    by (simp_all add: parseShellScope_def parseFilesystemScope_def parseWorkspaceWriteScope_def write_prefix_def starts_with_def)
  then show ?thesis
    using assms by (auto simp: canonicalizeApprovalScope_def canonical_connector_def connector_key_def)
qed

lemma connector_key_inj:
  assumes "p \<noteq> Some []" "p' \<noteq> Some []"
  shows "buildConnectorScope (connector_key s t p) = buildConnectorScope (connector_key s' t' p') \<longleftrightarrow> s = s' \<and> t = t' \<and> p = p'"
proof -
  have "buildConnectorScope (connector_key s t p) = buildConnectorScope (connector_key s' t' p') \<longleftrightarrow>
      connector_fields (connector_key s t p) = connector_fields (connector_key s' t' p')"
    unfolding buildConnectorScope_def
    using stringify_inj [OF connector_fields_wf(1) [of "connector_key s t p"] connector_fields_wf(1) [of "connector_key s' t' p'"]]
    by (simp del: stringify.simps)
  then show ?thesis
    using assms
    by (auto simp: connector_fields_def connector_key_def opt_field_def nonempty_def split: option.splits list.splits)
qed

definition call_args :: "tool_invocation \<Rightarrow> json" where
  "call_args call = coalesce (obj_get (ti_input call) ''args'') JNull"

lemma connector_scope_parsed:
  assumes "ti_tool call = ''mcp''" "connector_target call = Some (s, t, n)" "sha (stringify (call_args call)) \<noteq> []"
    and "buildToolApprovalScope sha call = Some scope"
  shows "\<exists>c. parseConnectorScope scope = Some c \<and> co_serverId c = s \<and> co_toolName c = t \<and>
    co_argsFingerprint c = Some (sha (stringify (call_args call)))"
proof -
  let ?args = "obj_get (ti_input call) ''args''"
  define c where "c = \<lparr>co_serverId = s, co_serverDisplayName = n, co_toolName = t,
      co_argsPreview = (case ?args of None \<Rightarrow> [] | Some v \<Rightarrow> pretty 0 (redactArgs v)),
      co_argsFingerprint = Some (sha (stringify (call_args call)))\<rparr>"
  have ne: "co_serverId c \<noteq> []" "co_toolName c \<noteq> []"
    using assms(2) by (auto simp: c_def connector_target_def Let_def nonempty_def split: option.splits list.splits)
  have print: "nonempty (co_argsFingerprint c) = Some (sha (stringify (call_args call)))"
    using assms(3) by (cases "sha (stringify (call_args call))") (simp_all add: c_def nonempty_def)
  have "(case ?args of None \<Rightarrow> JNull | Some v \<Rightarrow> v) = call_args call" by (simp add: call_args_def coalesce_def split: option.split)
  then have "scope = ''connector:'' @ stringify (JObj (if ?args = None then without_key ''argsPreview'' (connector_fields c) else connector_fields c))"
    using assms(1,2,4)
    by (auto simp add: buildToolApprovalScope_def connector_scope_of connector_action_text_def Let_def buildConnectorScope_def c_def
      simp del: stringify.simps)
  then show ?thesis
    using parse_connector [OF _ ne, of "if ?args = None then without_key ''argsPreview'' (connector_fields c) else connector_fields c"] print
    by (auto simp: c_def simp del: stringify.simps)
qed

lemma parse_connector_key:
  assumes "s \<noteq> []" "t \<noteq> []" "p \<noteq> Some []"
  shows "\<exists>d. parseConnectorScope (buildConnectorScope (connector_key s t p)) = Some d \<and> co_serverId d = s \<and> co_toolName d = t \<and>
    co_argsFingerprint d = p"
proof -
  have "nonempty p = p" using assms(3) by (auto simp: nonempty_def split: option.split list.split)
  then show ?thesis
    using parse_connector [of "connector_fields (connector_key s t p)" "connector_key s t p"] assms
    by (simp add: connector_key_def buildConnectorScope_def del: stringify.simps)
qed

lemma connector_grant:
  assumes "ti_tool a = ''mcp''" "connector_target a = Some (s, t, n)" "buildToolApprovalScope sha a = Some x"
    and "ti_tool b = ''mcp''" "connector_target b = Some (s', t', n')" "buildToolApprovalScope sha b = Some y"
    and "sha (stringify (call_args a)) \<noteq> []" "sha (stringify (call_args b)) \<noteq> []" "persistedGrantMode reason = Grant_Exact"
  shows "approvalPersistedGrantMatches reason (canonicalizeApprovalGrantScope x) y \<longleftrightarrow>
    s = s' \<and> t = t' \<and> sha (stringify (call_args a)) = sha (stringify (call_args b))"
proof -
  let ?p = "Some (sha (stringify (call_args a)))" and ?q = "Some (sha (stringify (call_args b)))"
  obtain c where c: "parseConnectorScope x = Some c" "co_serverId c = s" "co_toolName c = t" "co_argsFingerprint c = ?p"
    using connector_scope_parsed [where sha = sha, OF assms(1,2,7,3)] by blast
  obtain d where d: "parseConnectorScope y = Some d" "co_serverId d = s'" "co_toolName d = t'" "co_argsFingerprint d = ?q"
    using connector_scope_parsed [where sha = sha, OF assms(4,5,8,6)] by blast
  have x: "canonicalizeApprovalGrantScope x = buildConnectorScope (connector_key s t ?p)"
    using canonicalize_connector [OF c(1), of False] c by (simp add: canonicalizeApprovalGrantScope_def)
  have ne: "s \<noteq> []" "t \<noteq> []"
    using assms(2) by (auto simp: connector_target_def Let_def nonempty_def split: option.splits list.splits)
  obtain e where e: "parseConnectorScope (buildConnectorScope (connector_key s t ?p)) = Some e" "co_serverId e = s" "co_toolName e = t"
      "co_argsFingerprint e = ?p"
    using parse_connector_key [OF ne, of ?p] assms(7) by auto
  have xx: "canonicalizeApprovalScope (buildConnectorScope (connector_key s t ?p)) family =
      buildConnectorScope (connector_key s t (if family then None else ?p))" for family
    using canonicalize_connector [OF e(1), of family] e by simp
  have y: "canonicalizeApprovalScope y family = buildConnectorScope (connector_key s' t' (if family then None else ?q))" for family
    using canonicalize_connector [OF d(1), of family] d by simp
  show ?thesis
    unfolding x using assms(7-9)
    by (auto simp: approvalPersistedGrantMatches_def approvalScopeMatchesPersisted_def canonicalizeApprovalGrantScope_def
      canonicalizeApprovalFamilyScope_def Let_def xx y connector_key_inj)
qed

end
