(* ===== verification/ScopeClaims.thy ===== *)
theory ScopeClaims
  imports ToolScopeLaws
begin

text \<open>
  What a persisted grant covers, for shell calls, for writes and for connector calls, with
  the calls these statements are tried on.
\<close>

section \<open>Shell calls\<close>

text \<open>
  C9: An exact grant given for one shell call covers another shell call only in the same
  directory and with the same command; and with the same arguments, unless the granted call
  had none, in which case it covers that command with every list of arguments.
\<close>

theorem shell_grant_exact:
  assumes "parseShellScope scope = Some s" "settled_path (ss_cwd s)" "persistedGrantMode reason = Grant_Exact"
    and "parseShellScope requested = Some t"
  shows "approvalPersistedGrantMatches reason (canonicalizeApprovalGrantScope scope) requested \<longleftrightarrow>
    normalizeApprovalPath (ss_cwd t) = normalizeApprovalPath (ss_cwd s) \<and> ss_command t = ss_command s \<and>
    (ss_args s = [] \<or> ss_args t = ss_args s)"
  by (rule shell_grant [OF assms])

definition shell_text :: "string \<Rightarrow> string \<Rightarrow> string list \<Rightarrow> string" where
  "shell_text cwd command args = ''shell:'' @ stringify (JObj (command_fields cwd command args))"

lemma parse_shell_text:
  "parseShellScope (shell_text cwd command args) = Some \<lparr>ss_cwd = cwd, ss_command = command, ss_args = args\<rparr>"
proof -
  have wf: "json_wf (JObj (command_fields cwd command args))" by (auto simp: command_fields_def list_all_iff)
  obtain t where t: "stringify (JObj (command_fields cwd command args)) = CHR 0x7B # t" using stringify_obj_Cons by blast
  have "map js_string (map JStr args) = args" by (simp add: comp_def)
  moreover have "starts_with (stringify (JObj (command_fields cwd command args))) ''{''" by (simp add: t starts_with_def)
  ultimately show ?thesis
    using json_object_stringify [OF wf]
    by (simp add: parseShellScope_def shell_text_def Let_def starts_with_def command_fields_def obj_get_def as_string_def args_field_def
      del: stringify.simps)
qed

lemma shell_grant_exact_witness:
  "approvalPersistedGrantMatches ''grant:always_allow:scope=x'' (canonicalizeApprovalGrantScope (shell_text ''/w'' ''rm'' []))
     (shell_text ''/w/'' ''rm'' [''-rf'', ''x'']) \<and>
   \<not> approvalPersistedGrantMatches ''grant:always_allow:scope=x'' (canonicalizeApprovalGrantScope (shell_text ''/w'' ''rm'' [''y'']))
     (shell_text ''/w'' ''rm'' [''-rf'', ''x''])"
proof -
  have "settled_path ''/w''" by (simp add: settled_path_def normalizeApprovalPath_def trim_def is_ws_def Let_def starts_with_def)
  moreover have "normalizeApprovalPath ''/w/'' = normalizeApprovalPath ''/w''"
    by (simp add: normalizeApprovalPath_def trim_def is_ws_def Let_def starts_with_def)
  moreover have "persistedGrantMode ''grant:always_allow:scope=x'' = Grant_Exact"
    by code_simp
  ultimately show ?thesis
    using shell_grant_exact [OF parse_shell_text [of "''/w''" "''rm''" "[]"] _ _ parse_shell_text [of "''/w/''" "''rm''" "[''-rf'', ''x'']"]]
      shell_grant_exact [OF parse_shell_text [of "''/w''" "''rm''" "[''y'']"] _ _ parse_shell_text [of "''/w''" "''rm''" "[''-rf'', ''x'']"]]
    by simp
qed

section \<open>Writes\<close>

text \<open>
  An exact grant given for one write, edit or multiedit covers every write, edit and
  multiedit of the same path, whatever it puts there: the stored canonical form is brought
  into canonical form once more, and loses the details.
\<close>

theorem write_grant_covers_path:
  assumes "parseWorkspaceWriteScope scope = Some f" "settled_path (fs_path f)" "persistedGrantMode reason = Grant_Exact"
    and "parseWorkspaceWriteScope requested = Some g" "normalizeApprovalPath (fs_path g) = normalizeApprovalPath (fs_path f)"
  shows "approvalPersistedGrantMatches reason (canonicalizeApprovalGrantScope scope) requested"
  by (rule write_grant [OF assms])

definition write_text :: "string \<Rightarrow> string \<Rightarrow> string" where
  "write_text path content = object_scope ''write:'' [(''resourcePath'', JStr path), (''content'', JStr content)]"

lemma parse_write_text:
  assumes "trim path \<noteq> []"
  shows "\<exists>f. parseWorkspaceWriteScope (write_text path content) = Some f \<and> fs_path f = path"
proof -
  let ?kvs = "[(''resourcePath'', JStr path), (''content'', JStr content)]"
  have "json_wf (JObj ?kvs)" by simp
  then have obj: "json_object (stringify (JObj ?kvs)) = Some ?kvs" by (rule json_object_stringify)
  obtain t where t: "stringify (JObj ?kvs) = CHR 0x7B # t" using stringify_obj_Cons by blast
  have "write_prefix (write_text path content) = Some ''write:''"
    by (simp add: write_prefix_def write_text_def object_scope_def starts_with_def del: stringify.simps)
  moreover have "object_payload ''write:'' (write_text path content) = Some (stringify (JObj ?kvs))"
    using t by (simp add: object_payload_def write_text_def object_scope_def starts_with_def del: stringify.simps)
  ultimately show ?thesis
    using assms
    by (simp add: parseWorkspaceWriteScope_def obj string_field_more obj_get_def as_string_def del: stringify.simps)
qed

lemma write_grant_covers_path_witness:
  "approvalPersistedGrantMatches ''grant:always_allow:scope=x'' (canonicalizeApprovalGrantScope (write_text ''/w/a'' ''safe''))
     (write_text ''/w/b/../a'' ''harmful'')"
proof -
  have paths: "settled_path ''/w/a''" "normalizeApprovalPath ''/w/b/../a'' = normalizeApprovalPath ''/w/a''"
      "trim ''/w/a'' \<noteq> []" "trim ''/w/b/../a'' \<noteq> []"
    by (simp_all add: settled_path_def normalizeApprovalPath_def trim_def is_ws_def Let_def starts_with_def)
  have mode: "persistedGrantMode ''grant:always_allow:scope=x'' = Grant_Exact"
    by code_simp
  obtain f where f: "parseWorkspaceWriteScope (write_text ''/w/a'' ''safe'') = Some f" "fs_path f = ''/w/a''"
    using parse_write_text [OF paths(3)] by blast
  obtain g where g: "parseWorkspaceWriteScope (write_text ''/w/b/../a'' ''harmful'') = Some g" "fs_path g = ''/w/b/../a''"
    using parse_write_text [OF paths(4)] by blast
  show ?thesis
    using write_grant_covers_path [OF f(1) _ mode g(1)] f(2) g(2) paths(1,2) by simp
qed

section \<open>Connector calls\<close>

text \<open>
  An exact grant given for one connector call covers another connector call exactly when
  server, tool and the hash of the unredacted arguments are the same; the name shown for the
  server and the preview of the arguments do not count.
\<close>

theorem connector_grant_exact:
  assumes "ti_tool a = ''mcp''" "connector_target a = Some (s, t, n)" "buildToolApprovalScope sha a = Some x"
    and "ti_tool b = ''mcp''" "connector_target b = Some (s', t', n')" "buildToolApprovalScope sha b = Some y"
    and "sha (stringify (call_args a)) \<noteq> []" "sha (stringify (call_args b)) \<noteq> []" "persistedGrantMode reason = Grant_Exact"
  shows "approvalPersistedGrantMatches reason (canonicalizeApprovalGrantScope x) y \<longleftrightarrow>
    s = s' \<and> t = t' \<and> sha (stringify (call_args a)) = sha (stringify (call_args b))"
  by (rule connector_grant [OF assms])

definition mail_call :: "string \<Rightarrow> tool_invocation" where
  "mail_call to =
     \<lparr>ti_org = ''o'', ti_run = ''r'', ti_member = ''m'', ti_thread = None, ti_call = ''c'', ti_tool = ''mcp'', ti_action = ''mcp'',
       ti_type = ''mcp'', ti_path = Some ''mail:send'',
       ti_input = [(''mcpServerId'', JStr ''mail''), (''toolName'', JStr ''send''), (''args'', JObj [(''to'', JStr to)])],
       ti_mcp = None, ti_permission = None, ti_bypass = False, ti_role = None\<rparr>"

lemma connector_grant_exact_witness:
  "\<exists>x y. buildToolApprovalScope (\<lambda>s. s) (mail_call ''ann'') = Some x \<and> buildToolApprovalScope (\<lambda>s. s) (mail_call ''bob'') = Some y \<and>
     approvalPersistedGrantMatches ''grant:always_allow:scope=x'' (canonicalizeApprovalGrantScope x) x \<and>
     \<not> approvalPersistedGrantMatches ''grant:always_allow:scope=x'' (canonicalizeApprovalGrantScope x) y"
proof -
  have target: "ti_tool (mail_call to) = ''mcp''" "connector_target (mail_call to) = Some (''mail'', ''send'', ''mail'')"
      "call_args (mail_call to) = JObj [(''to'', JStr to)]" for to
    by (simp_all add: mail_call_def connector_target_def Let_def obj_get_def as_string_def nonempty_def call_args_def)
  have mode: "persistedGrantMode ''grant:always_allow:scope=x'' = Grant_Exact"
    by code_simp
  obtain x where x: "buildToolApprovalScope (\<lambda>s. s) (mail_call ''ann'') = Some x"
    by (simp add: buildToolApprovalScope_def target connector_scope_of)
  obtain y where y: "buildToolApprovalScope (\<lambda>s. s) (mail_call ''bob'') = Some y"
    by (simp add: buildToolApprovalScope_def target connector_scope_of)
  show ?thesis
    using x y connector_grant_exact [OF target(1,2) x target(1,2) x _ _ mode] connector_grant_exact [OF target(1,2) x target(1,2) y _ _ mode]
    by (simp add: target quote_def escape_char_def)
qed

end
