(* ===== verification/ApprovalStore.thy ===== *)
theory ApprovalStore
  imports ToolScopes
begin

text \<open>
  The approvals table (\<open>runtime-core/src/repositories/approvals.ts\<close>), the one-shot permits of a
  run (\<open>utils/approved-run-scopes.ts\<close>) and how an approval row and a requested scope are
  compared (\<open>services/approval.ts\<close>). A raised exception is a value of \<open>'a fallible\<close>.
\<close>

section \<open>Data\<close>

datatype 'a fallible = Returns 'a | Throws string

datatype gate_status = Ap_Pending | Ap_Approved | Ap_Rejected

record approval_row =
  aro_id :: string
  aro_org :: string
  aro_run :: "string option"
  aro_call :: "string option"
  aro_thread :: "string option"
  aro_by :: string
  aro_type :: string
  aro_path :: string
  aro_action :: string
  aro_status :: gate_status
  aro_reason :: string
  aro_created :: int
  aro_resolved :: "int option"

record gate_run =
  gr_id :: string
  gr_org :: string
  gr_thread :: "string option"
  gr_status :: string

definition TOOL_ACTIONS :: "string list" where
  "TOOL_ACTIONS = [''read'', ''write'', ''execute'', ''mcp'', ''message'', ''create'', ''update'']"

definition RESOURCE_TYPES :: "string list" where
  "RESOURCE_TYPES = [''file'', ''folder'', ''shell'', ''mcp'', ''message'', ''goal'', ''goal_task'', ''question'', ''skill'']"

text \<open>\<open>ApprovalRequestSchema\<close>: ids and the path are not empty.\<close>

definition approval_valid :: "approval_row \<Rightarrow> bool" where
  "approval_valid a =
     (aro_id a \<noteq> [] \<and> aro_org a \<noteq> [] \<and> aro_run a \<noteq> Some [] \<and> aro_call a \<noteq> Some [] \<and> aro_thread a \<noteq> Some [] \<and> aro_by a \<noteq> [] \<and>
      aro_type a \<in> set RESOURCE_TYPES \<and> aro_path a \<noteq> [] \<and> aro_action a \<in> set TOOL_ACTIONS)"

section \<open>Repository\<close>

text \<open>A conflict keeps the columns that the statement does not set.\<close>

definition merge_approval :: "approval_row \<Rightarrow> approval_row \<Rightarrow> approval_row" where
  "merge_approval old new = old\<lparr>aro_call := aro_call new, aro_thread := or_default (aro_thread new) (aro_thread old),
     aro_status := aro_status new, aro_reason := aro_reason new, aro_resolved := aro_resolved new\<rparr>"

definition saveApproval :: "approval_row \<Rightarrow> approval_row list \<Rightarrow> approval_row list fallible" where
  "saveApproval a t = (if approval_valid a then Returns (tbl_upsert aro_id merge_approval a t) else Throws ''ZodError'')"

definition getApproval :: "string \<Rightarrow> string \<Rightarrow> approval_row list \<Rightarrow> approval_row option" where
  "getApproval org i t = find (\<lambda>a. aro_org a = org \<and> aro_id a = i) t"

definition resolve_row :: "gate_status \<Rightarrow> string \<Rightarrow> int \<Rightarrow> approval_row \<Rightarrow> approval_row" where
  "resolve_row status reason now a = a\<lparr>aro_status := status, aro_reason := reason, aro_resolved := Some now\<rparr>"

definition repo_resolveApproval ::
  "string \<Rightarrow> string \<Rightarrow> gate_status \<Rightarrow> string \<Rightarrow> int \<Rightarrow> approval_row list \<Rightarrow> approval_row option \<times> approval_row list" where
  "repo_resolveApproval org i status reason now t =
     (case getApproval org i t of
        None \<Rightarrow> (None, t)
      | Some a \<Rightarrow> (Some (resolve_row status reason now a),
          tbl_update (\<lambda>x. aro_org x = org \<and> aro_id x = i) (resolve_row status reason now) t))"

definition deleteApproval :: "string \<Rightarrow> string \<Rightarrow> approval_row list \<Rightarrow> approval_row list" where
  "deleteApproval org i t = tbl_delete (\<lambda>a. aro_org a = org \<and> aro_id a = i) t"

definition getRun :: "string \<Rightarrow> string \<Rightarrow> gate_run list \<Rightarrow> gate_run option" where
  "getRun org i runs = find (\<lambda>r. gr_org r = org \<and> gr_id r = i) runs"

text \<open>The thread of a pending approval is completed from its run.\<close>

definition with_thread :: "gate_run list \<Rightarrow> approval_row \<Rightarrow> approval_row" where
  "with_thread runs a =
     a\<lparr>aro_thread := or_default (aro_thread a)
        (case aro_run a of None \<Rightarrow> None
         | Some r \<Rightarrow> (case getRun (aro_org a) r runs of None \<Rightarrow> None | Some run \<Rightarrow> gr_thread run))\<rparr>"

definition listPendingApprovals :: "string \<Rightarrow> gate_run list \<Rightarrow> approval_row list \<Rightarrow> approval_row list" where
  "listPendingApprovals org runs t =
     map (with_thread runs) (sort_cmp (by_int aro_created) (filter (\<lambda>a. aro_org a = org \<and> aro_status a = Ap_Pending) t))"

definition grant_rows :: "string \<Rightarrow> string \<Rightarrow> string \<Rightarrow> approval_row list \<Rightarrow> approval_row list" where
  "grant_rows org resourceType action t =
     filter (\<lambda>a. aro_org a = org \<and> aro_type a = resourceType \<and> aro_action a = action \<and> aro_status a = Ap_Approved \<and>
       (like ''grant:always_allow:scope=%'' (aro_reason a) \<or> like ''grant:always_allow_family:scope=%'' (aro_reason a))) t"

definition grant_matches :: "string \<Rightarrow> approval_row \<Rightarrow> bool" where
  "grant_matches scope a =
     (case nonempty (parseApprovalReasonValue (aro_reason a) ''scope'') of
        None \<Rightarrow> False
      | Some stored \<Rightarrow> approvalPersistedGrantMatches (aro_reason a) stored scope)"

definition hasApprovalGrant :: "string \<Rightarrow> string \<Rightarrow> string \<Rightarrow> string \<Rightarrow> approval_row list \<Rightarrow> bool" where
  "hasApprovalGrant org resourceType action scope t = list_ex (grant_matches scope) (grant_rows org resourceType action t)"

section \<open>One-shot permits\<close>

record permits =
  pm_runs :: "string set"
  pm_scopes :: "string set"

definition runKey :: "string \<Rightarrow> string \<Rightarrow> string" where
  "runKey org run = org @ '':'' @ run"

definition scopedRunKey :: "string \<Rightarrow> string \<Rightarrow> string \<Rightarrow> string" where
  "scopedRunKey org run scope = runKey org run @ '':'' @ scope"

definition allowRun :: "string \<Rightarrow> string \<Rightarrow> string option \<Rightarrow> permits \<Rightarrow> permits" where
  "allowRun org run scope p =
     (case nonempty scope of
        Some s \<Rightarrow> p\<lparr>pm_scopes := insert (scopedRunKey org run (canonicalizeApprovalGrantScope s)) (pm_scopes p)\<rparr>
      | None \<Rightarrow> p\<lparr>pm_runs := insert (runKey org run) (pm_runs p)\<rparr>)"

definition hasApprovedRun :: "string \<Rightarrow> string \<Rightarrow> string \<Rightarrow> permits \<Rightarrow> bool" where
  "hasApprovedRun org run scope p =
     (scopedRunKey org run (canonicalizeApprovalGrantScope scope) \<in> pm_scopes p \<or> runKey org run \<in> pm_runs p)"

definition consumeApprovedRun :: "string \<Rightarrow> string \<Rightarrow> string \<Rightarrow> permits \<Rightarrow> bool \<times> permits" where
  "consumeApprovedRun org run scope p =
     (let scopedKey = scopedRunKey org run (canonicalizeApprovalGrantScope scope) in
      if scopedKey \<in> pm_scopes p then (True, p\<lparr>pm_scopes := pm_scopes p - {scopedKey}\<rparr>)
      else if runKey org run \<notin> pm_runs p then (False, p)
      else (True, p\<lparr>pm_runs := pm_runs p - {runKey org run}\<rparr>))"

section \<open>The scope of an approval row\<close>

definition decodeApprovalScope :: "string \<Rightarrow> string option" where
  "decodeApprovalScope reason = parseApprovalReasonValue reason ''scope''"

definition fallbackApprovalScope :: "approval_row \<Rightarrow> string option" where
  "fallbackApprovalScope a =
     (if aro_path a = [] then None
      else if aro_type a = ''shell'' then
        Some (canonicalizeApprovalGrantScope (''shell:'' @ stringify (JObj [(''cwd'', JStr (aro_path a))])))
      else if aro_action a = ''write'' then
        Some (canonicalizeApprovalGrantScope (''write:'' @ stringify (JObj [(''resourcePath'', JStr (aro_path a))])))
      else Some (canonicalizeApprovalGrantScope (aro_type a @ '':'' @ aro_action a @ '':'' @ aro_path a)))"

definition extractOperationalScope :: "approval_row \<Rightarrow> string option" where
  "extractOperationalScope a =
     (case nonempty (map_option stripApprovalScopeDisplayFields (nonempty (decodeApprovalScope (aro_reason a)))) of
        Some scope \<Rightarrow> Some scope
      | None \<Rightarrow> fallbackApprovalScope a)"

definition matchingApprovalScope :: "approval_row \<Rightarrow> string \<Rightarrow> bool" where
  "matchingApprovalScope a requested =
     (case nonempty (extractOperationalScope a) of
        None \<Rightarrow> False
      | Some scope \<Rightarrow> approvalScopeMatches scope requested)"

datatype resolution = Allow_Once | Allow_Always | Allow_Family | Reject

definition pendingApprovalMatchesResolution :: "approval_row \<Rightarrow> approval_row \<Rightarrow> string option \<Rightarrow> resolution option \<Rightarrow> bool" where
  "pendingApprovalMatchesResolution a existing persistedScope res =
     (aro_run a = aro_run existing \<and> aro_type a = aro_type existing \<and> aro_action a = aro_action existing \<and>
      (case (nonempty (extractOperationalScope a), nonempty persistedScope) of
         (Some scope, Some persisted) \<Rightarrow>
           approvalScopeMatchesPersisted scope persisted (if res = Some Allow_Family then Grant_Family else Grant_Exact)
       | _ \<Rightarrow> False))"

section \<open>Attachment requests\<close>

definition ATTACHMENT_PREFIX :: string where
  "ATTACHMENT_PREFIX = ''attachment_request_scope=''"

record attachment_payload =
  at_server :: string
  at_target :: string
  at_targetId :: string
  at_reason :: string

definition string_of :: "json option \<Rightarrow> string" where
  "string_of v = (case nullish_or v (Some (JStr [])) of Some x \<Rightarrow> js_string x | None \<Rightarrow> [])"

definition parseAttachmentRequestReason :: "string \<Rightarrow> attachment_payload option" where
  "parseAttachmentRequestReason reason =
     (case nonempty (parseApprovalReasonValue reason ''attachment_request_scope'') of
        None \<Rightarrow> None
      | Some value \<Rightarrow>
          (case json_object value of
             None \<Rightarrow> None
           | Some kvs \<Rightarrow>
               (case obj_get kvs ''target'' of
                  Some (JStr target) \<Rightarrow>
                    if target \<noteq> ''agent'' \<and> target \<noteq> ''channel'' then None
                    else Some \<lparr>at_server = string_of (obj_get kvs ''serverId''), at_target = target,
                           at_targetId = string_of (obj_get kvs ''targetId''), at_reason = string_of (obj_get kvs ''agentReason'')\<rparr>
                | _ \<Rightarrow> None)))"

end
