(* ===== verification/ToolGate.thy ===== *)
theory ToolGate
  imports ApprovalStore Permissions ToolRegistry ToolPolicy
begin

text \<open>
  The two gates of a tool call: the permission wrapper (\<open>createPermissionGatedToolService\<close> in
  \<open>services/tool-service.ts\<close>) and the tool service behind it (\<open>services/tool-service-impl.ts\<close>),
  with the requests for approval they make (\<open>services/approval.ts\<close>). Both share one tracker
  of permits. What the gates ask others is the environment: the permission decision, path
  resolution (a new path and input, or a refusal), the tool policy of the team, the reviewer, and the tools themselves. The
  builder of a scope that does not return exhausts the stack, which is an exception.
\<close>

section \<open>State\<close>

record gate_spirit =
  gs_id :: string
  gs_org :: string
  gs_run :: "string option"
  gs_status :: string
  gs_role :: string

record tool_step =
  st_id :: string
  st_org :: string
  st_run :: string
  st_thread :: "string option"
  st_agent :: string
  st_call :: string
  st_tool :: string
  st_action :: string
  st_type :: string
  st_path :: string
  st_input :: "(string \<times> json) list"
  st_output :: "json option"
  st_status :: string
  st_created :: int

datatype gate_note =
    Asked approval_row
  | Settled approval_row
  | Connector_Resolved string string string
  | Attachment_Resolved attachment_payload bool
  | Called tool_invocation
  | Executed tool_invocation
  | Audited tool_invocation string
  | Answered_Call string bool
  | Run_Ended string string
  | Run_Advanced string string
  | Replay_Done tool_invocation bool

record gate_state =
  ga_approvals :: "approval_row list"
  ga_runs :: "gate_run list"
  ga_spirits :: "gate_spirit list"
  ga_members :: "(string \<times> string) list"
  ga_steps :: "tool_step list"
  ga_answered :: "(string \<times> string) list"
  ga_permits :: permits
  ga_controllers :: "string set"
  ga_deferred :: "string set"
  ga_clock :: int
  ga_ids :: nat
  ga_log :: "gate_note list"

datatype tool_outcome = Tool_Returned json | Tool_Escaped string | Tool_Threw string

record gate_env =
  ge_uuid :: "nat \<Rightarrow> string"
  ge_sha :: "string \<Rightarrow> string"
  ge_file :: "string \<Rightarrow> string option"
  ge_permission :: "tool_invocation \<Rightarrow> decision"
  ge_prepare :: "tool_invocation \<Rightarrow> string + (string option \<times> (string \<times> json) list)"
  ge_policy :: "tool_invocation \<Rightarrow> policy_result"
  ge_why :: "policy_reason \<Rightarrow> string"
  ge_governance :: "string \<Rightarrow> governance_policy"
  ge_risk :: "string \<Rightarrow> string \<Rightarrow> string \<Rightarrow> classification option"
  ge_goal_mode :: "tool_invocation \<Rightarrow> bool"
  ge_review :: "tool_invocation \<Rightarrow> bool"
  ge_tool :: "nat \<Rightarrow> tool_invocation \<Rightarrow> tool_outcome"

record invocation_result =
  iv_ok :: bool
  iv_output :: "json option"
  iv_error :: "string option"
  iv_approval :: "string option"

definition gate_log :: "gate_note \<Rightarrow> gate_state \<Rightarrow> gate_state" where
  "gate_log e s = s\<lparr>ga_log := ga_log s @ [e]\<rparr>"

definition new_id :: "gate_env \<Rightarrow> gate_state \<Rightarrow> string \<times> gate_state" where
  "new_id env s = (ge_uuid env (ga_ids s), s\<lparr>ga_ids := Suc (ga_ids s)\<rparr>)"

definition gate_run_of :: "string \<Rightarrow> string \<Rightarrow> gate_state \<Rightarrow> gate_run option" where
  "gate_run_of org run s = getRun org run (ga_runs s)"

definition pending_of :: "string \<Rightarrow> gate_state \<Rightarrow> approval_row list" where
  "pending_of org s = listPendingApprovals org (ga_runs s) (ga_approvals s)"

section \<open>Steps\<close>

definition step_order :: "tool_step \<Rightarrow> tool_step \<Rightarrow> int" where
  "step_order a b = (if st_created a = st_created b then str_cmp (st_id a) (st_id b) else st_created a - st_created b)"

definition listRunSteps :: "string \<Rightarrow> string \<Rightarrow> gate_state \<Rightarrow> tool_step list" where
  "listRunSteps org run s = sort_cmp step_order (filter (\<lambda>t. st_org t = org \<and> st_run t = run) (ga_steps s))"

definition repo_saveRunStep :: "tool_step \<Rightarrow> gate_state \<Rightarrow> gate_state" where
  "repo_saveRunStep t s = s\<lparr>ga_steps := tbl_upsert st_id (\<lambda>old new. old\<lparr>st_output := st_output new, st_status := st_status new\<rparr>) t (ga_steps s)\<rparr>"

definition step_of :: "string \<Rightarrow> tool_invocation \<Rightarrow> json \<Rightarrow> string \<Rightarrow> int \<Rightarrow> tool_step" where
  "step_of i call output status now =
     \<lparr>st_id = i, st_org = ti_org call, st_run = ti_run call, st_thread = ti_thread call, st_agent = ti_member call,
      st_call = ti_call call, st_tool = ti_tool call, st_action = ti_action call, st_type = ti_type call,
      st_path = coalesce (ti_path call) [], st_input = ti_input call, st_output = Some output, st_status = status, st_created = now\<rparr>"

text \<open>The wrapper always writes a new row; the service reuses the row of the same call.\<close>

definition saveBlockedToolRunStep :: "gate_env \<Rightarrow> tool_invocation \<Rightarrow> json \<Rightarrow> string \<Rightarrow> gate_state \<Rightarrow> gate_state" where
  "saveBlockedToolRunStep env call output status s =
     (case new_id env s of (i, s1) \<Rightarrow> repo_saveRunStep (step_of i call output status (ga_clock s1)) s1)"

definition step_of_call :: "string \<Rightarrow> string \<Rightarrow> string \<Rightarrow> gate_state \<Rightarrow> tool_step option" where
  "step_of_call org run call s = find (\<lambda>t. st_call t = call) (listRunSteps org run s)"

definition saveRunStep :: "gate_env \<Rightarrow> tool_invocation \<Rightarrow> string \<Rightarrow> json \<Rightarrow> gate_state \<Rightarrow> gate_state" where
  "saveRunStep env call status output s =
     (case step_of_call (ti_org call) (ti_run call) (ti_call call) s of
        Some t \<Rightarrow> repo_saveRunStep (step_of (st_id t) call output status (st_created t)) s
      | None \<Rightarrow> saveBlockedToolRunStep env call output status s)"

section \<open>Requests for approval\<close>

record approval_input =
  ai_org :: string
  ai_run :: string
  ai_call :: string
  ai_by :: string
  ai_type :: string
  ai_path :: string
  ai_action :: string
  ai_reason :: string
  ai_scope :: "string option"

definition existing_request :: "approval_input \<Rightarrow> gate_state \<Rightarrow> approval_row option" where
  "existing_request input s =
     (case nonempty (ai_scope input) of
        None \<Rightarrow> None
      | Some scope \<Rightarrow> find (\<lambda>a. aro_run a = Some (ai_run input) \<and> matchingApprovalScope a scope) (pending_of (ai_org input) s))"

definition requestApproval :: "gate_env \<Rightarrow> approval_input \<Rightarrow> gate_state \<Rightarrow> approval_row fallible \<times> gate_state" where
  "requestApproval env input s =
     (let thread = (case gate_run_of (ai_org input) (ai_run input) s of None \<Rightarrow> None | Some r \<Rightarrow> gr_thread r) in
      case existing_request input s of
        Some existing \<Rightarrow>
          if aro_call existing = None then
            (let updated = existing\<lparr>aro_call := Some (ai_call input), aro_thread := or_default (aro_thread existing) thread\<rparr>
             in case saveApproval updated (ga_approvals s) of
                  Throws e \<Rightarrow> (Throws e, s)
                | Returns t \<Rightarrow> (Returns updated, s\<lparr>ga_approvals := t\<rparr>))
          else (Returns existing, s)
      | None \<Rightarrow>
          (case new_id env s of
             (i, s1) \<Rightarrow>
               (let a = \<lparr>aro_id = i, aro_org = ai_org input, aro_run = Some (ai_run input), aro_call = Some (ai_call input),
                      aro_thread = thread, aro_by = ai_by input, aro_type = ai_type input, aro_path = ai_path input,
                      aro_action = ai_action input, aro_status = Ap_Pending, aro_reason = ai_reason input,
                      aro_created = ga_clock s1, aro_resolved = None\<rparr>
                in case saveApproval a (ga_approvals s1) of
                     Throws e \<Rightarrow> (Throws e, s1)
                   | Returns t \<Rightarrow> (Returns a, gate_log (Asked a) (s1\<lparr>ga_approvals := t\<rparr>)))))"

record attachment_input =
  aq_org :: string
  aq_run :: string
  aq_call :: string
  aq_by :: string
  aq_server :: string
  aq_serverName :: string
  aq_target :: string
  aq_targetId :: string
  aq_reason :: string
  aq_id :: string

definition requestAttachmentApproval :: "gate_env \<Rightarrow> attachment_input \<Rightarrow> gate_state \<Rightarrow> approval_row fallible \<times> gate_state" where
  "requestAttachmentApproval env input s =
     requestApproval env
       \<lparr>ai_org = aq_org input, ai_run = aq_run input, ai_call = aq_call input, ai_by = aq_by input, ai_type = ''mcp'',
        ai_path = ''attachment_request:'' @ aq_server input @ '':'' @ aq_target input @ '':'' @ aq_targetId input,
        ai_action = ''mcp'',
        ai_reason = ATTACHMENT_PREFIX @ encodeURIComponent (stringify (JObj [(''serverId'', JStr (aq_server input)),
          (''serverDisplayName'', JStr (aq_serverName input)), (''target'', JStr (aq_target input)),
          (''targetId'', JStr (aq_targetId input)), (''agentReason'', JStr (aq_reason input)), (''approvalId'', JStr (aq_id input))])),
        ai_scope = None\<rparr> s"

definition approvalWaitResult :: "string \<Rightarrow> invocation_result" where
  "approvalWaitResult i = \<lparr>iv_ok = False, iv_output = Some (JObj [(''status'', JStr ''waiting_for_approval''), (''approvalId'', JStr i)]),
     iv_error = None, iv_approval = Some i\<rparr>"

definition waiting_output :: "string \<Rightarrow> json" where
  "waiting_output i = JObj [(''status'', JStr ''waiting_for_approval''), (''approvalId'', JStr i)]"

definition reason_field :: "string option \<Rightarrow> (string \<times> json) list" where
  "reason_field why = opt_field ''reason'' (map_option JStr why)"

definition blocked_output :: "string option \<Rightarrow> json" where
  "blocked_output why = JObj ((''status'', JStr ''blocked'') # reason_field why)"

definition blocked_result :: "string option \<Rightarrow> (string \<times> json) list \<Rightarrow> invocation_result" where
  "blocked_result why extra =
     \<lparr>iv_ok = False, iv_output = Some (JObj ((''status'', JStr ''blocked'') # reason_field why @ extra)), iv_error = why, iv_approval = None\<rparr>"

section \<open>Policy\<close>

record gate_policy =
  gp_allowed :: bool
  gp_requiresApproval :: bool
  gp_autoReview :: bool
  gp_reason :: "string option"

definition mcp_server :: "tool_invocation \<Rightarrow> string option" where
  "mcp_server call = (case ti_mcp call of Some i \<Rightarrow> Some i | None \<Rightarrow> nonempty (as_string (obj_get (ti_input call) ''mcpServerId'')))"

definition mcp_tool :: "tool_invocation \<Rightarrow> string option" where
  "mcp_tool call =
     (case nonempty (as_string (obj_get (ti_input call) ''toolName'')) of
        Some t \<Rightarrow> Some t
      | None \<Rightarrow> (case ti_permission call of None \<Rightarrow> None | Some p \<Rightarrow> if starts_with p ''mcp:'' then None else Some p))"

definition resolveMcpPolicy :: "gate_env \<Rightarrow> tool_invocation \<Rightarrow> gate_policy" where
  "resolveMcpPolicy env call =
     (case (nonempty (mcp_server call), nonempty (mcp_tool call)) of
        (Some server, Some name) \<Rightarrow>
          (let e = evaluatePolicy (ge_governance env (ti_org call))
                 \<lparr>q_agentId = ti_member call, q_mcpId = server, q_toolName = name,
                  q_classification = ge_risk env (ti_org call) server name\<rparr>
           in case eval_state e of
                Deny \<Rightarrow> \<lparr>gp_allowed = False, gp_requiresApproval = False, gp_autoReview = False,
                  gp_reason = Some (coalesce (eval_reason e) (''Tool '' @ dq name @ '' denied by governance policy''))\<rparr>
              | Allow \<Rightarrow> \<lparr>gp_allowed = True, gp_requiresApproval = False, gp_autoReview = False, gp_reason = eval_reason e\<rparr>
              | Require_Approval \<Rightarrow> \<lparr>gp_allowed = True, gp_requiresApproval = True, gp_autoReview = False, gp_reason = eval_reason e\<rparr>
              | Require_Input \<Rightarrow> \<lparr>gp_allowed = True, gp_requiresApproval = True, gp_autoReview = False, gp_reason = eval_reason e\<rparr>
              | Inherit \<Rightarrow> \<lparr>gp_allowed = True, gp_requiresApproval = True, gp_autoReview = False, gp_reason = None\<rparr>)
      | _ \<Rightarrow> \<lparr>gp_allowed = False, gp_requiresApproval = False, gp_autoReview = False,
             gp_reason = Some ''MCP invocation missing serverId or toolName''\<rparr>)"

definition is_sub_operation :: "tool_invocation \<Rightarrow> bool" where
  "is_sub_operation call =
     (ti_tool call = ''shell'' \<and> js_truthy (obj_get (ti_input call) ''operation'') \<and>
      obj_get (ti_input call) ''operation'' \<noteq> Some (JStr ''execute''))"

definition goal_review :: "gate_env \<Rightarrow> tool_invocation \<Rightarrow> gate_policy \<Rightarrow> gate_policy" where
  "goal_review env call p = (if ge_goal_mode env call \<and> gp_requiresApproval p then p\<lparr>gp_autoReview := True\<rparr> else p)"

definition inner_policy :: "gate_env \<Rightarrow> tool_invocation \<Rightarrow> gate_policy" where
  "inner_policy env call = goal_review env call
     (if is_sub_operation call \<or> ti_bypass call
      then \<lparr>gp_allowed = True, gp_requiresApproval = False, gp_autoReview = False,
             gp_reason = Some (if is_sub_operation call then ''sub-operation'' else ''approved-replay'')\<rparr>
      else if ti_tool call = ''mcp'' then resolveMcpPolicy env call
      else (let p = ge_policy env call
            in \<lparr>gp_allowed = pol_allowed p, gp_requiresApproval = pol_requiresApproval p,
                gp_autoReview = coalesce (pol_shellAutoReview p) False, gp_reason = map_option (ge_why env) (pol_reason p)\<rparr>))"

section \<open>The inner gate\<close>

definition isToolApprovalSatisfied :: "gate_policy \<Rightarrow> tool_invocation \<Rightarrow> string \<Rightarrow> gate_state \<Rightarrow> bool \<times> gate_state" where
  "isToolApprovalSatisfied policy call scope s =
     (if \<not> gp_requiresApproval policy then (True, s)
      else (case consumeApprovedRun (ti_org call) (ti_run call) scope (ga_permits s) of
              (True, p) \<Rightarrow> (True, s\<lparr>ga_permits := p\<rparr>)
            | (False, _) \<Rightarrow> (hasApprovalGrant (ti_org call) (ti_type call) (ti_action call) scope (ga_approvals s), s)))"

definition requestHumanApproval :: "gate_env \<Rightarrow> tool_invocation \<Rightarrow> string \<Rightarrow> gate_state \<Rightarrow> invocation_result fallible \<times> gate_state" where
  "requestHumanApproval env call scope s =
     (let displayScope = enrichToolApprovalScopeForRequest scope (case ti_path call of None \<Rightarrow> None | Some p \<Rightarrow> ge_file env p) in
      case requestApproval env
          \<lparr>ai_org = ti_org call, ai_run = ti_run call, ai_call = ti_call call, ai_by = ti_member call, ai_type = ti_type call,
           ai_path = coalesce (ti_path call) [], ai_action = ti_action call,
           ai_reason = ''Tool action requires approval;scope='' @ encodeURIComponent displayScope, ai_scope = Some scope\<rparr> s of
        (Throws e, s1) \<Rightarrow> (Throws e, s1)
      | (Returns a, s1) \<Rightarrow>
          (let s2 = gate_log (Audited call ''pending_approval'') s1;
               s3 = (if aro_call a = Some (ti_call call) then saveRunStep env call ''ok'' (waiting_output (aro_id a)) s2 else s2)
           in (Returns (approvalWaitResult (aro_id a)), s3)))"

definition gate_allowRun :: "string \<Rightarrow> string \<Rightarrow> string option \<Rightarrow> gate_state \<Rightarrow> gate_state" where
  "gate_allowRun org run scope s = s\<lparr>ga_permits := allowRun org run scope (ga_permits s)\<rparr>"

definition tryAutoReview :: "gate_env \<Rightarrow> tool_invocation \<Rightarrow> string \<Rightarrow> gate_state \<Rightarrow> gate_state" where
  "tryAutoReview env call scope s =
     (if ge_review env call
      then gate_log (Audited call ''auto_review_approved'') (gate_allowRun (ti_org call) (ti_run call) (Some scope) s)
      else gate_log (Audited call ''auto_review_escalated'') s)"

definition finishPathEscapeFailure :: "gate_env \<Rightarrow> tool_invocation \<Rightarrow> string \<Rightarrow> gate_state \<Rightarrow> invocation_result \<times> gate_state" where
  "finishPathEscapeFailure env call message s =
     (let out = JObj [(''status'', JStr ''blocked''), (''code'', JStr ''ERR_PATH_ESCAPE''), (''error'', JStr message)];
          s1 = gate_log (Called call) (saveRunStep env call ''blocked'' out (gate_log (Audited call ''blocked'') s))
      in (\<lparr>iv_ok = False, iv_output = Some out, iv_error = Some message, iv_approval = None\<rparr>,
          gate_log (Answered_Call (ti_call call) True) s1))"

definition blocked :: "gate_env \<Rightarrow> tool_invocation \<Rightarrow> string option \<Rightarrow> (string \<times> json) list \<Rightarrow> gate_state \<Rightarrow> gate_state" where
  "blocked env call why extra s =
     saveRunStep env call ''blocked'' (JObj ((''status'', JStr ''blocked'') # reason_field why @ extra)) (gate_log (Audited call ''blocked'') s)"

definition execute_tool :: "gate_env \<Rightarrow> tool_invocation \<Rightarrow> string \<Rightarrow> gate_state \<Rightarrow> invocation_result fallible \<times> gate_state" where
  "execute_tool env call scope s =
     (let s1 = gate_log (Executed call) s in
      case ge_tool env (length (ga_log s)) call of
        Tool_Threw e \<Rightarrow> (Throws e, s1)
      | Tool_Escaped e \<Rightarrow> (case finishPathEscapeFailure env call e s1 of (r, s2) \<Rightarrow> (Returns r, s2))
      | Tool_Returned v \<Rightarrow>
          (let s2 = (if ti_bypass call then s1\<lparr>ga_permits := snd (consumeApprovedRun (ti_org call) (ti_run call) scope (ga_permits s1))\<rparr> else s1);
               s3 = gate_log (Answered_Call (ti_call call) False) (saveRunStep env call ''ok'' v (gate_log (Audited call ''ok'') s2));
               waiting = (case v of JObj kvs \<Rightarrow> obj_get kvs ''status'' = Some (JStr ''waiting_for_input'') \<and> as_string (obj_get kvs ''questionId'') \<noteq> None | _ \<Rightarrow> False)
           in (Returns \<lparr>iv_ok = True, iv_output = Some (if waiting then v else JObj [(''status'', JStr ''completed''), (''result'', v)]),
                 iv_error = None, iv_approval = None\<rparr>, s3)))"

definition approve_or_ask :: "gate_env \<Rightarrow> gate_policy \<Rightarrow> tool_invocation \<Rightarrow> string \<Rightarrow> gate_state \<Rightarrow> invocation_result fallible \<times> gate_state" where
  "approve_or_ask env policy call scope s =
     (case isToolApprovalSatisfied policy call scope s of
        (True, s1) \<Rightarrow> execute_tool env call scope s1
      | (False, s1) \<Rightarrow>
          (case isToolApprovalSatisfied policy call scope (if gp_autoReview policy then tryAutoReview env call scope s1 else s1) of
             (True, s2) \<Rightarrow> execute_tool env call scope s2
           | (False, s2) \<Rightarrow> requestHumanApproval env call scope s2))"

definition gated_call :: "gate_env \<Rightarrow> tool_invocation \<Rightarrow> gate_state \<Rightarrow> invocation_result fallible \<times> gate_state" where
  "gated_call env call s =
     (let policy = inner_policy env call in
      if \<not> gp_allowed policy then
        (Returns (blocked_result (gp_reason policy) []),
         gate_log (Answered_Call (ti_call call) True) (blocked env call (gp_reason policy) [] s))
      else (case buildToolApprovalScope (ge_sha env) call of
              None \<Rightarrow> (Throws ''RangeError'', s)
            | Some scope \<Rightarrow> approve_or_ask env policy call scope s))"

definition run_inactive :: "tool_invocation \<Rightarrow> gate_state \<Rightarrow> bool" where
  "run_inactive call s =
     (case gate_run_of (ti_org call) (ti_run call) s of
        None \<Rightarrow> False
      | Some r \<Rightarrow> gr_status r = ''cancelled'' \<or> gr_status r = ''failed'' \<and> \<not> ti_bypass call)"

definition supervisor_refused :: "tool_invocation \<Rightarrow> bool" where
  "supervisor_refused call =
     ((ti_role call = Some ''supervisor'' \<or> ti_mcp call = Some ''supervisor'') \<and> ti_tool call \<noteq> ''mcp'' \<and>
      ti_tool call \<notin> set SUPERVISOR_TOOL_ALLOWLIST)"

definition inner_invoke :: "gate_env \<Rightarrow> tool_invocation \<Rightarrow> gate_state \<Rightarrow> invocation_result fallible \<times> gate_state" where
  "inner_invoke env call s =
     (if run_inactive call s then (Returns (blocked_result (Some ''Run is no longer active'') []), s)
      else if (ti_org call, ti_member call) \<notin> set (ga_members s) then (Throws (''Member not found: '' @ ti_member call), s)
      else if supervisor_refused call then
        (let why = Some (''Tool '' @ dq (ti_tool call) @ '' is not in SUPERVISOR_TOOL_ALLOWLIST'');
             extra = [(''code'', JStr ''ERR_SUPERVISOR_ALLOWLIST'')]
         in (Returns (blocked_result why extra),
             gate_log (Answered_Call (ti_call call) True) (gate_log (Called call) (blocked env call why extra s))))
      else
        (case ge_prepare env call of
           Inl message \<Rightarrow> (case finishPathEscapeFailure env call message s of (r, s1) \<Rightarrow> (Returns r, s1))
         | Inr (path, input) \<Rightarrow>
             (let prepared = call\<lparr>ti_path := path, ti_input := input\<rparr>
              in gated_call env prepared (gate_log (Called prepared) s))))"

section \<open>The permission wrapper\<close>

definition permission_denied :: "decision \<Rightarrow> invocation_result" where
  "permission_denied d =
     \<lparr>iv_ok = False, iv_output = Some (JObj [(''status'', JStr ''blocked''), (''code'', JStr (code_name (code d))), (''error'', JStr (reason d))]), iv_error = Some (reason d), iv_approval = None\<rparr>"

definition outer_ask :: "gate_env \<Rightarrow> tool_invocation \<Rightarrow> string \<Rightarrow> string \<Rightarrow> gate_state \<Rightarrow> invocation_result fallible \<times> gate_state" where
  "outer_ask env call scope why s =
     (let displayScope = enrichToolApprovalScopeForRequest scope (case ti_path call of None \<Rightarrow> None | Some p \<Rightarrow> ge_file env p) in
      case requestApproval env
          \<lparr>ai_org = ti_org call, ai_run = ti_run call, ai_call = ti_call call, ai_by = ti_member call, ai_type = ti_type call,
           ai_path = coalesce (ti_path call) [], ai_action = ti_action call,
           ai_reason = ''Tool action requires approval;scope='' @ encodeURIComponent displayScope @ '';note='' @ why,
           ai_scope = Some scope\<rparr> s of
        (Throws e, s1) \<Rightarrow> (Throws e, s1)
      | (Returns a, s1) \<Rightarrow>
          (Returns (approvalWaitResult (aro_id a)), saveBlockedToolRunStep env call (waiting_output (aro_id a)) ''ok'' s1))"

definition invoke :: "gate_env \<Rightarrow> tool_invocation \<Rightarrow> gate_state \<Rightarrow> invocation_result fallible \<times> gate_state" where
  "invoke env call s =
     (if ti_bypass call then inner_invoke env call s
      else (case buildToolApprovalScope (ge_sha env) call of
              None \<Rightarrow> (Throws ''RangeError'', s)
            | Some scope \<Rightarrow>
                if hasApprovedRun (ti_org call) (ti_run call) scope (ga_permits s) then inner_invoke env call s
                else (case ge_permission env call of
                        Allowed \<Rightarrow> inner_invoke env call s
                      | Denied why _ (Some Gate_Approval) _ \<Rightarrow> outer_ask env call scope why s
                      | d \<Rightarrow> (Returns (permission_denied d), saveBlockedToolRunStep env call
                          (JObj [(''status'', JStr ''blocked''), (''code'', JStr (code_name (code d))), (''error'', JStr (reason d))]) ''blocked'' s))))"

end
