(* ===== verification/ApprovalFlow.thy ===== *)
theory ApprovalFlow
  imports ToolGate
begin

text \<open>
  What a decision sets in motion: \<open>resolveApproval\<close> and \<open>listPending\<close> of
  \<open>services/approval.ts\<close>, the resumption of the run and the replay of its waiting steps
  (\<open>services/spirit-direct-run.ts\<close>, \<open>services/spirit-service-base.ts\<close>), and the histories of the
  whole: calls, requests, decisions, cancellations and restarts in any order. A resumption,
  asynchronous in the code, runs here before the next event.
\<close>

section \<open>Replay\<close>

definition isPendingToolResult :: "json \<Rightarrow> bool" where
  "isPendingToolResult v =
     (case v of
        JObj kvs \<Rightarrow> obj_get kvs ''status'' = Some (JStr ''waiting_for_approval'') \<or> obj_get kvs ''status'' = Some (JStr ''waiting_for_input'')
      | _ \<Rightarrow> False)"

definition step_status :: "tool_step \<Rightarrow> json option" where
  "step_status t = (case st_output t of Some (JObj kvs) \<Rightarrow> obj_get kvs ''status'' | _ \<Rightarrow> None)"

definition step_question :: "tool_step \<Rightarrow> string option" where
  "step_question t = (case st_output t of Some (JObj kvs) \<Rightarrow> as_string (obj_get kvs ''questionId'') | _ \<Rightarrow> None)"

text \<open>The calls of a run for which some approval is still pending.\<close>

definition pending_calls :: "string \<Rightarrow> string \<Rightarrow> gate_state \<Rightarrow> string set" where
  "pending_calls org run s =
     set (List.map_filter aro_call (filter (\<lambda>a. aro_run a = Some run \<and> aro_call a \<noteq> Some []) (pending_of org s)))"

definition awaiting_replay :: "string \<Rightarrow> string \<Rightarrow> gate_state \<Rightarrow> tool_step \<Rightarrow> bool" where
  "awaiting_replay org run s t =
     (step_status t = Some (JStr ''waiting_for_approval'') \<and> st_call t \<notin> pending_calls org run s \<or>
      step_status t = Some (JStr ''waiting_for_input'') \<and>
        (case step_question t of None \<Rightarrow> False | Some q \<Rightarrow> (org, q) \<in> set (ga_answered s)))"

definition listStepsAwaitingApprovedReplay :: "string \<Rightarrow> string \<Rightarrow> gate_state \<Rightarrow> tool_step list" where
  "listStepsAwaitingApprovedReplay org run s = filter (awaiting_replay org run s) (listRunSteps org run s)"

definition replay_call :: "string option \<Rightarrow> tool_step \<Rightarrow> tool_invocation" where
  "replay_call role t =
     \<lparr>ti_org = st_org t, ti_run = st_run t, ti_member = st_agent t, ti_thread = st_thread t, ti_call = st_call t,
      ti_tool = st_tool t, ti_action = st_action t, ti_type = st_type t,
      ti_path = (if st_path t = [] then None else Some (st_path t)), ti_input = st_input t,
      ti_mcp = None, ti_permission = None, ti_bypass = True, ti_role = role\<rparr>"

definition mcpReplayTarget :: "tool_invocation \<Rightarrow> (string \<times> string) option" where
  "mcpReplayTarget call =
     (if ti_tool call \<noteq> ''mcp'' then None
      else (case (nonempty (or_default (ti_mcp call) (as_string (obj_get (ti_input call) ''mcpServerId''))),
                  nonempty (as_string (obj_get (ti_input call) ''toolName''))) of
              (Some server, Some name) \<Rightarrow> Some (server, name)
            | _ \<Rightarrow> None))"

definition completeMcpReplay :: "tool_invocation \<Rightarrow> invocation_result fallible \<Rightarrow> gate_state \<Rightarrow> gate_state" where
  "completeMcpReplay call result s =
     (if mcpReplayTarget call = None then s
      else gate_log (Replay_Done call (case result of Returns r \<Rightarrow> iv_ok r | Throws _ \<Rightarrow> False)) s)"

definition replayed_step :: "tool_step \<Rightarrow> invocation_result fallible \<Rightarrow> tool_step" where
  "replayed_step t result =
     (case result of
        Returns r \<Rightarrow> t\<lparr>st_output := Some (coalesce (iv_output r) (JObj [(''status'', JStr ''blocked''), (''error'', JStr ''Tool replay failed'')])),
          st_status := (if iv_ok r then ''ok'' else ''error'')\<rparr>
      | Throws e \<Rightarrow> t\<lparr>st_output := Some (JObj [(''status'', JStr ''blocked''), (''error'', JStr e)]), st_status := ''error''\<rparr>)"

definition persistReplayResultIfMissing :: "tool_step \<Rightarrow> tool_invocation \<Rightarrow> invocation_result fallible \<Rightarrow> gate_state \<Rightarrow> gate_state" where
  "persistReplayResultIfMissing t call result s =
     (case step_of_call (ti_org call) (ti_run call) (ti_call call) s of
        None \<Rightarrow> repo_saveRunStep (replayed_step t result) s
      | Some current \<Rightarrow>
          (case st_output current of
             None \<Rightarrow> repo_saveRunStep (replayed_step t result) s
           | Some v \<Rightarrow> if isPendingToolResult v then repo_saveRunStep (replayed_step t result) s else s))"

definition replay_step :: "gate_env \<Rightarrow> string option \<Rightarrow> tool_step \<Rightarrow> gate_state \<Rightarrow> gate_state" where
  "replay_step env role t s =
     (let call = replay_call role t in
      case invoke env call s of
        (result, s1) \<Rightarrow> persistReplayResultIfMissing t call result (completeMcpReplay call result s1))"

definition replayApprovedToolSteps :: "gate_env \<Rightarrow> string \<Rightarrow> string \<Rightarrow> string option \<Rightarrow> gate_state \<Rightarrow> gate_state" where
  "replayApprovedToolSteps env org run role s = fold (replay_step env role) (listStepsAwaitingApprovedReplay org run s) s"

section \<open>Resumption\<close>

definition saveRun :: "gate_run \<Rightarrow> gate_state \<Rightarrow> gate_state" where
  "saveRun r s = s\<lparr>ga_runs := tbl_upsert gr_id (\<lambda>_ new. new) r (ga_runs s)\<rparr>"

definition saveSpirit :: "gate_spirit \<Rightarrow> gate_state \<Rightarrow> gate_state" where
  "saveSpirit x s = s\<lparr>ga_spirits := tbl_upsert gs_id (\<lambda>_ new. new) x (ga_spirits s)\<rparr>"

definition failRun :: "gate_run \<Rightarrow> gate_state \<Rightarrow> gate_state" where
  "failRun r s = gate_log (Run_Ended (gr_org r) (gr_id r)) (saveRun (r\<lparr>gr_status := ''failed''\<rparr>) s)"

definition resolveSpiritForRun :: "string \<Rightarrow> string \<Rightarrow> gate_state \<Rightarrow> gate_spirit option" where
  "resolveSpiritForRun org run s = find (\<lambda>x. gs_org x = org \<and> gs_run x = Some run) (ga_spirits s)"

definition reject_run :: "string \<Rightarrow> string \<Rightarrow> gate_state \<Rightarrow> gate_state" where
  "reject_run org run s = (case gate_run_of org run s of None \<Rightarrow> s | Some r \<Rightarrow> failRun r s)"

definition resumeAfterApproval :: "gate_env \<Rightarrow> string \<Rightarrow> string \<Rightarrow> bool \<Rightarrow> string option \<Rightarrow> gate_state \<Rightarrow> gate_state" where
  "resumeAfterApproval env org run allowed scope s =
     (case resolveSpiritForRun org run s of
        Some spirit \<Rightarrow>
          if \<not> allowed then reject_run org run (saveSpirit (spirit\<lparr>gs_status := ''failed''\<rparr>) s)
          else
            (let s1 = replayApprovedToolSteps env org run (Some (gs_role spirit)) (gate_allowRun org run scope s)
             in if gs_status spirit = ''waiting_for_approval'' then gate_log (Run_Advanced org run) s1 else s1)
      | None \<Rightarrow>
          (case gate_run_of org run s of
             None \<Rightarrow> s
           | Some r \<Rightarrow>
               if \<not> allowed then failRun r s
               else
                 (let s1 = gate_allowRun org run scope s in
                  if gr_status r = ''running'' then
                    (if runKey org run \<in> ga_controllers s1 then s1\<lparr>ga_deferred := insert (runKey org run) (ga_deferred s1)\<rparr>
                     else gate_log (Run_Advanced org run) (replayApprovedToolSteps env org run None s1))
                  else if gr_status r \<noteq> ''waiting_for_approval'' then s1
                  else gate_log (Run_Advanced org run)
                    (saveRun (r\<lparr>gr_status := ''running''\<rparr>) (replayApprovedToolSteps env org run None s1)))))"

text \<open>A turn that finds a deferred resumption replays before it goes on.\<close>

definition deferred_resume :: "gate_env \<Rightarrow> string \<Rightarrow> string \<Rightarrow> gate_state \<Rightarrow> gate_state" where
  "deferred_resume env org run s =
     (if runKey org run \<notin> ga_deferred s then s
      else
        (let s1 = s\<lparr>ga_deferred := ga_deferred s - {runKey org run}\<rparr>
         in replayApprovedToolSteps env org run (map_option gs_role (resolveSpiritForRun org run s1)) s1))"

section \<open>Decisions\<close>

record resolve_input =
  rs_org :: string
  rs_id :: string
  rs_approved :: bool
  rs_resolution :: "resolution option"
  rs_reason :: "string option"

definition is_attachment_request :: "approval_row \<Rightarrow> bool" where
  "is_attachment_request a = starts_with (aro_reason a) ATTACHMENT_PREFIX"

definition raw_scope :: "approval_row option \<Rightarrow> string option" where
  "raw_scope existing =
     (case existing of None \<Rightarrow> None
      | Some a \<Rightarrow> if aro_reason a = [] then None else parseApprovalReasonValue (aro_reason a) ''scope'')"

definition persisted_scope :: "resolution option \<Rightarrow> approval_row option \<Rightarrow> string option" where
  "persisted_scope res existing =
     (case existing of
        None \<Rightarrow> None
      | Some a \<Rightarrow>
          (case nonempty (extractOperationalScope a) of
             None \<Rightarrow> fallbackApprovalScope a
           | Some scope \<Rightarrow> Some (if res = Some Allow_Family then canonicalizeApprovalFamilyScope scope
                             else canonicalizeApprovalGrantScope scope)))"

definition resume_scope :: "resolution option \<Rightarrow> approval_row option \<Rightarrow> string option" where
  "resume_scope res existing =
     (if res = Some Allow_Once
      then or_default (persisted_scope res existing) (map_option stripApprovalScopeDisplayFields (nonempty (raw_scope existing)))
      else persisted_scope res existing)"

definition effective_reason :: "resolve_input \<Rightarrow> approval_row option \<Rightarrow> string option" where
  "effective_reason input existing =
     (case (rs_approved input, nonempty (raw_scope existing)) of
        (False, Some raw) \<Rightarrow> Some (''reject:scope='' @ encodeURIComponent raw @ '';note='' @ coalesce (rs_reason input) [])
      | _ \<Rightarrow>
          (case nonempty (persisted_scope (rs_resolution input) existing) of
             Some persisted \<Rightarrow>
               if rs_resolution input = Some Allow_Family
               then Some (formatPersistedApprovalGrantReason Grant_Family persisted (coalesce (rs_reason input) []))
               else if rs_resolution input = Some Allow_Always
               then Some (formatPersistedApprovalGrantReason Grant_Exact persisted (coalesce (rs_reason input) []))
               else rs_reason input
           | None \<Rightarrow> rs_reason input))"

definition matching_pending :: "resolve_input \<Rightarrow> approval_row option \<Rightarrow> gate_state \<Rightarrow> approval_row list" where
  "matching_pending input existing s =
     (case existing of
        None \<Rightarrow> []
      | Some e \<Rightarrow>
          if nonempty (aro_run e) \<noteq> None \<and> \<not> rs_approved input \<and> \<not> is_attachment_request e
          then filter (\<lambda>a. aro_run a = aro_run e \<and> \<not> is_attachment_request a) (pending_of (rs_org input) s)
          else filter (\<lambda>a. pendingApprovalMatchesResolution a e (persisted_scope (rs_resolution input) existing) (rs_resolution input))
                 (pending_of (rs_org input) s))"

fun first_by_id :: "string list \<Rightarrow> approval_row list \<Rightarrow> approval_row list" where
  "first_by_id seen [] = []"
| "first_by_id seen (a # as) =
     (if aro_status a = Ap_Pending \<and> aro_id a \<notin> set seen then a # first_by_id (aro_id a # seen) as else first_by_id seen as)"

definition selected_approvals :: "resolve_input \<Rightarrow> approval_row option \<Rightarrow> gate_state \<Rightarrow> approval_row list" where
  "selected_approvals input existing s =
     first_by_id [] ((case existing of None \<Rightarrow> [] | Some e \<Rightarrow> [e]) @ matching_pending input existing s)"

definition approve_row :: "resolve_input \<Rightarrow> string \<Rightarrow> approval_row \<Rightarrow> approval_row list \<times> gate_state \<Rightarrow> approval_row list \<times> gate_state" where
  "approve_row input why a acc =
     (case acc of (done_rows, s) \<Rightarrow>
        (case repo_resolveApproval (rs_org input) (aro_id a) Ap_Approved why (ga_clock s) (ga_approvals s) of
           (None, _) \<Rightarrow> (done_rows, s)
         | (Some r, t) \<Rightarrow> (done_rows @ [r], s\<lparr>ga_approvals := t\<rparr>)))"

definition resolved_approvals :: "resolve_input \<Rightarrow> string \<Rightarrow> approval_row list \<Rightarrow> gate_state \<Rightarrow> approval_row list \<times> gate_state" where
  "resolved_approvals input why as s =
     (if rs_approved input then fold (approve_row input why) as ([], s)
      else (map (resolve_row Ap_Rejected why (ga_clock s)) as, s))"

definition emitConnectorResolvedIfApplicable :: "string \<Rightarrow> approval_row \<Rightarrow> gate_state \<Rightarrow> gate_state" where
  "emitConnectorResolvedIfApplicable originalReason r s =
     (case nonempty (if originalReason = [] then None else parseApprovalReasonValue originalReason ''scope'') of
        None \<Rightarrow> s
      | Some raw \<Rightarrow>
          (case parseConnectorScope raw of
             None \<Rightarrow> s
           | Some c \<Rightarrow> gate_log (Connector_Resolved (aro_id r) (co_serverId c) (co_toolName c)) s))"

definition announce :: "resolve_input \<Rightarrow> approval_row option \<Rightarrow> approval_row list \<Rightarrow> approval_row \<Rightarrow> gate_state \<Rightarrow> gate_state" where
  "announce input existing originals r s =
     (let original = (case find (\<lambda>a. aro_id a = aro_id r) originals of Some a \<Rightarrow> aro_reason a | None \<Rightarrow> aro_reason r);
          s1 = emitConnectorResolvedIfApplicable original r (gate_log (Settled r) s)
      in case parseAttachmentRequestReason (case existing of Some e \<Rightarrow> aro_reason e | None \<Rightarrow> aro_reason r) of
           None \<Rightarrow> s1
         | Some payload \<Rightarrow> gate_log (Attachment_Resolved payload (rs_approved input)) s1)"

definition delete_each :: "string \<Rightarrow> approval_row list \<Rightarrow> gate_state \<Rightarrow> gate_state" where
  "delete_each org rows s = s\<lparr>ga_approvals := fold (\<lambda>r. deleteApproval org (aro_id r)) rows (ga_approvals s)\<rparr>"

text \<open>What follows the selection: the events, the deletion of rejected rows, the resumption of the run.\<close>

definition settle_rows ::
  "gate_env \<Rightarrow> resolve_input \<Rightarrow> approval_row option \<Rightarrow> approval_row list \<Rightarrow> approval_row list \<Rightarrow> gate_state \<Rightarrow> approval_row fallible \<times> gate_state" where
  "settle_rows env input existing approvals resolved s =
     (case resolved of
        [] \<Rightarrow> (Throws (''Approval not found: '' @ rs_id input), s)
      | a # _ \<Rightarrow>
          (let s2 = fold (announce input existing approvals) resolved s in
           case nonempty (aro_run a) of
             None \<Rightarrow> (Returns a, s2)
           | Some run \<Rightarrow>
               if rs_approved input
               then (Returns a, resumeAfterApproval env (aro_org a) run True (resume_scope (rs_resolution input) existing) s2)
               else
                 (let s3 = delete_each (rs_org input) resolved s2
                  in (Returns a, if gate_run_of (rs_org input) run s3 = None then s3
                                 else resumeAfterApproval env (aro_org a) run False None s3))))"

definition resolveApproval :: "gate_env \<Rightarrow> resolve_input \<Rightarrow> gate_state \<Rightarrow> approval_row fallible \<times> gate_state" where
  "resolveApproval env input s =
     (let existing = getApproval (rs_org input) (rs_id input) (ga_approvals s);
          approvals = selected_approvals input existing s
      in case resolved_approvals input (coalesce (effective_reason input existing) []) approvals s of
           (resolved, s1) \<Rightarrow> settle_rows env input existing approvals resolved s1)"

definition isLiveStatus :: "string \<Rightarrow> bool" where
  "isLiveStatus status = (status \<in> set [''queued'', ''running'', ''waiting_for_approval'', ''waiting_for_input''])"

definition listPending :: "string \<Rightarrow> gate_state \<Rightarrow> approval_row list" where
  "listPending org s =
     filter (\<lambda>a. case nonempty (aro_run a) of None \<Rightarrow> False
       | Some run \<Rightarrow> (case gate_run_of org run s of None \<Rightarrow> False | Some r \<Rightarrow> isLiveStatus (gr_status r))) (pending_of org s)"

section \<open>Histories\<close>

text \<open>Cancellation closes the approvals of a run as rejected rows; a restart forgets the permits.\<close>

definition reject_pending :: "string \<Rightarrow> approval_row \<Rightarrow> gate_state \<Rightarrow> gate_state" where
  "reject_pending org a s =
     (case repo_resolveApproval org (aro_id a) Ap_Rejected ''Run cancelled by user.'' (ga_clock s) (ga_approvals s) of
        (None, _) \<Rightarrow> s
      | (Some r, t) \<Rightarrow> gate_log (Settled r) (s\<lparr>ga_approvals := t\<rparr>))"

definition cancelRun :: "string \<Rightarrow> string \<Rightarrow> gate_state \<Rightarrow> gate_state" where
  "cancelRun org run s =
     (case gate_run_of org run s of
        None \<Rightarrow> s
      | Some r \<Rightarrow>
          if gr_status r \<in> {''completed'', ''failed'', ''cancelled''} then s
          else
            (let pending = filter (\<lambda>a. aro_run a = Some run) (pending_of org s);
                 s1 = saveRun (r\<lparr>gr_status := ''cancelled''\<rparr>) (s\<lparr>ga_deferred := ga_deferred s - {runKey org run}\<rparr>);
                 s2 = s1\<lparr>ga_controllers := ga_controllers s1 - {runKey org run}\<rparr>;
                 s3 = (case resolveSpiritForRun org run s2 of
                         None \<Rightarrow> s2
                       | Some x \<Rightarrow> if isLiveStatus (gs_status x) then saveSpirit (x\<lparr>gs_status := ''cancelled''\<rparr>) s2 else s2)
             in fold (reject_pending org) pending (gate_log (Run_Ended org run) s3)))"

definition gate_restart :: "gate_state \<Rightarrow> gate_state" where
  "gate_restart s = s\<lparr>ga_permits := \<lparr>pm_runs = {}, pm_scopes = {}\<rparr>, ga_controllers := {}, ga_deferred := {}\<rparr>"

text \<open>The last five events are what others do to the runs, the spirits, the turns, the questions and the clock.\<close>

datatype gate_event =
    Ev_Call tool_invocation
  | Ev_Attach attachment_input
  | Ev_Resolve resolve_input
  | Ev_Cancel string string
  | Ev_Deferred string string
  | Ev_Restart
  | Ev_Run gate_run
  | Ev_Spirit gate_spirit
  | Ev_Turn string string bool
  | Ev_Answered string string
  | Ev_Tick nat

fun gate_step :: "gate_env \<Rightarrow> gate_event \<Rightarrow> gate_state \<Rightarrow> gate_state" where
  "gate_step env (Ev_Call call) s = snd (invoke env call s)"
| "gate_step env (Ev_Attach input) s = snd (requestAttachmentApproval env input s)"
| "gate_step env (Ev_Resolve input) s = snd (resolveApproval env input s)"
| "gate_step env (Ev_Cancel org run) s = cancelRun org run s"
| "gate_step env (Ev_Deferred org run) s = deferred_resume env org run s"
| "gate_step env Ev_Restart s = gate_restart s"
| "gate_step env (Ev_Run r) s = saveRun r s"
| "gate_step env (Ev_Spirit x) s = saveSpirit x s"
| "gate_step env (Ev_Turn org run on) s =
     s\<lparr>ga_controllers := (if on then insert (runKey org run) (ga_controllers s) else ga_controllers s - {runKey org run})\<rparr>"
| "gate_step env (Ev_Answered org q) s = s\<lparr>ga_answered := (org, q) # ga_answered s\<rparr>"
| "gate_step env (Ev_Tick n) s = s\<lparr>ga_clock := ga_clock s + int n\<rparr>"

definition gate_history :: "gate_env \<Rightarrow> gate_event list \<Rightarrow> gate_state \<Rightarrow> gate_state" where
  "gate_history env es s = fold (gate_step env) es s"

definition gate_empty :: "(string \<times> string) list \<Rightarrow> gate_state" where
  "gate_empty members =
     \<lparr>ga_approvals = [], ga_runs = [], ga_spirits = [], ga_members = members, ga_steps = [], ga_answered = [],
      ga_permits = \<lparr>pm_runs = {}, pm_scopes = {}\<rparr>, ga_controllers = {}, ga_deferred = {}, ga_clock = 0, ga_ids = 0, ga_log = []\<rparr>"

end
