(* ===== verification/GateLaws.thy ===== *)
theory GateLaws
  imports ApprovalFlow ScopeClaims "HOL-Library.Sublist"
begin

text \<open>
  What the gates leave alone and what they keep: a call never touches runs, spirits and
  members; a replay never touches the approvals; the approvals table stays well formed.
\<close>

section \<open>Frames\<close>

definition same_world :: "gate_state \<Rightarrow> gate_state \<Rightarrow> bool" where
  "same_world s s' =
     (ga_runs s' = ga_runs s \<and> ga_spirits s' = ga_spirits s \<and> ga_members s' = ga_members s \<and> ga_answered s' = ga_answered s \<and>
      ga_clock s' = ga_clock s \<and> ga_controllers s' = ga_controllers s \<and> ga_ids s \<le> ga_ids s' \<and> prefix (ga_log s) (ga_log s'))"

definition same_rows :: "gate_state \<Rightarrow> gate_state \<Rightarrow> bool" where
  "same_rows s s' = (same_world s s' \<and> ga_approvals s' = ga_approvals s)"

lemma same_world_refl [simp]: "same_world s s"
  by (simp add: same_world_def)

lemma same_world_trans [trans]: "same_world s t \<Longrightarrow> same_world t u \<Longrightarrow> same_world s u"
  by (auto simp: same_world_def)

lemma same_rows_refl [simp]: "same_rows s s"
  by (simp add: same_rows_def)

lemma same_rows_trans [trans]: "same_rows s t \<Longrightarrow> same_rows t u \<Longrightarrow> same_rows s u"
  by (auto simp: same_rows_def intro: same_world_trans)

lemma same_rows_world: "same_rows s s' \<Longrightarrow> same_world s s'"
  by (simp add: same_rows_def)

lemma same_rows_log [simp]: "same_rows s (gate_log e s)"
  by (simp add: same_rows_def same_world_def gate_log_def)

lemma same_rows_save [simp]: "same_rows s (repo_saveRunStep t s)"
  by (simp add: same_rows_def same_world_def repo_saveRunStep_def)

lemma same_rows_new_id: "new_id env s = (i, s') \<Longrightarrow> same_rows s s' \<and> i = ge_uuid env (ga_ids s) \<and> ga_ids s' = Suc (ga_ids s)"
  by (auto simp: new_id_def same_rows_def same_world_def)

lemma same_rows_blocked_step [simp]: "same_rows s (saveBlockedToolRunStep env call out st s)"
  by (auto simp: saveBlockedToolRunStep_def intro: same_rows_trans dest: same_rows_new_id split: prod.split)

lemma same_rows_step [simp]: "same_rows s (saveRunStep env call st out s)"
  by (simp add: saveRunStep_def split: option.split)

lemma same_rows_log_after: "same_rows s t \<Longrightarrow> same_rows s (gate_log e t)"
  by (rule same_rows_trans [OF _ same_rows_log])

lemma same_rows_step_after: "same_rows s t \<Longrightarrow> same_rows s (saveRunStep env call st out t)"
  by (rule same_rows_trans [OF _ same_rows_step])

lemmas same_rows_intros = same_rows_log_after same_rows_step_after same_rows_refl

lemma same_rows_permits [simp]: "same_rows s (s\<lparr>ga_permits := p\<rparr>)"
  by (simp add: same_rows_def same_world_def)

lemma same_rows_permits_after: "same_rows s t \<Longrightarrow> same_rows s (t\<lparr>ga_permits := p\<rparr>)"
  by (rule same_rows_trans [OF _ same_rows_permits])

lemma same_rows_satisfied: "isToolApprovalSatisfied p call scope s = (b, s') \<Longrightarrow> same_rows s s'"
  by (auto simp: isToolApprovalSatisfied_def split: if_splits prod.splits bool.splits)

lemma same_rows_review [simp]: "same_rows s (tryAutoReview env call scope s)"
  by (auto simp: tryAutoReview_def gate_allowRun_def intro!: same_rows_intros same_rows_permits_after)

lemma same_rows_escape: "finishPathEscapeFailure env call m s = (r, s') \<Longrightarrow> same_rows s s'"
  by (auto simp: finishPathEscapeFailure_def Let_def intro!: same_rows_intros)

lemma same_rows_execute: "execute_tool env call scope s = (r, s') \<Longrightarrow> same_rows s s'"
  by (auto simp: execute_tool_def Let_def intro!: same_rows_intros same_rows_permits_after
      dest!: same_rows_escape elim: same_rows_trans [OF same_rows_log] split: tool_outcome.splits prod.splits if_splits)

lemma same_rows_blocked [simp]: "same_rows s (blocked env call why extra s)"
  by (auto simp: blocked_def intro!: same_rows_intros)

section \<open>The approvals table\<close>

definition row_ok :: "gate_env \<Rightarrow> gate_state \<Rightarrow> approval_row \<Rightarrow> bool" where
  "row_ok env s a =
     (approval_valid a \<and> (\<exists>n < ga_ids s. aro_id a = ge_uuid env n) \<and> aro_run a \<noteq> None \<and> aro_call a \<noteq> None \<and>
      (aro_status a = Ap_Pending \<longleftrightarrow> aro_resolved a = None))"

definition approvals_ok :: "gate_env \<Rightarrow> gate_state \<Rightarrow> bool" where
  "approvals_ok env s = (tbl_wf aro_id (ga_approvals s) \<and> (\<forall>a \<in> set (ga_approvals s). row_ok env s a))"

lemma approvals_ok_rows: "same_rows s s' \<Longrightarrow> approvals_ok env s \<Longrightarrow> approvals_ok env s'"
  by (force simp: approvals_ok_def row_ok_def same_rows_def same_world_def)

lemma set_pending: "a \<in> set (listPendingApprovals org runs t) \<longleftrightarrow>
    (\<exists>b \<in> set t. aro_org b = org \<and> aro_status b = Ap_Pending \<and> a = with_thread runs b)"
  by (auto simp: listPendingApprovals_def)

lemma with_thread_simps [simp]:
  "aro_id (with_thread runs a) = aro_id a" "aro_org (with_thread runs a) = aro_org a" "aro_run (with_thread runs a) = aro_run a"
  "aro_call (with_thread runs a) = aro_call a" "aro_reason (with_thread runs a) = aro_reason a"
  "aro_status (with_thread runs a) = aro_status a" "aro_resolved (with_thread runs a) = aro_resolved a"
  "aro_type (with_thread runs a) = aro_type a" "aro_action (with_thread runs a) = aro_action a" "aro_path (with_thread runs a) = aro_path a"
  by (simp_all add: with_thread_def)

lemma existing_request_mem:
  "existing_request input s = Some a \<Longrightarrow> \<exists>b \<in> set (ga_approvals s). a = with_thread (ga_runs s) b"
  by (auto simp: existing_request_def pending_of_def set_pending find_Some_iff split: option.splits)
    (metis nth_mem set_pending)

text \<open>A pending approval always names its call, so the branch that fills it in is never taken.\<close>

lemma request_cases:
  assumes "approvals_ok env s" "requestApproval env input s = (r, s')"
  obtains (found) a where "r = Returns a" "s' = s" "existing_request input s = Some a"
  | (refused) e where "r = Throws e" "same_rows s s'"
  | (asked) a where "r = Returns a" "approval_valid a" "aro_id a = ge_uuid env (ga_ids s)" "ga_ids s' = Suc (ga_ids s)"
      "aro_run a = Some (ai_run input)" "aro_call a = Some (ai_call input)" "aro_status a = Ap_Pending" "aro_resolved a = None"
      "ga_approvals s' = tbl_upsert aro_id merge_approval a (ga_approvals s)" "same_world s s'"
proof (cases "existing_request input s")
  case (Some a)
  then obtain b where "b \<in> set (ga_approvals s)" "a = with_thread (ga_runs s) b" using existing_request_mem by blast
  then have "aro_call a \<noteq> None" using assms(1) by (auto simp: approvals_ok_def row_ok_def)
  then show ?thesis using Some assms(2) found by (auto simp: requestApproval_def)
next
  case None
  obtain i s1 where n: "new_id env s = (i, s1)" by fastforce
  then have f: "same_rows s s1" "i = ge_uuid env (ga_ids s)" "ga_ids s1 = Suc (ga_ids s)" using same_rows_new_id by blast+
  define a where "a = \<lparr>aro_id = i, aro_org = ai_org input, aro_run = Some (ai_run input), aro_call = Some (ai_call input),
      aro_thread = (case gate_run_of (ai_org input) (ai_run input) s of None \<Rightarrow> None | Some r \<Rightarrow> gr_thread r), aro_by = ai_by input,
      aro_type = ai_type input, aro_path = ai_path input, aro_action = ai_action input, aro_status = Ap_Pending,
      aro_reason = ai_reason input, aro_created = ga_clock s1, aro_resolved = None\<rparr>"
  show ?thesis
  proof (cases "saveApproval a (ga_approvals s1)")
    case (Throws e)
    then show ?thesis
      using assms(2) None n f(1) refused by (auto simp: requestApproval_def Let_def a_def)
  next
    case (Returns t)
    then have "r = Returns a" "s' = gate_log (Asked a) (s1\<lparr>ga_approvals := t\<rparr>)"
      using assms(2) None n by (auto simp: requestApproval_def Let_def a_def)
    moreover have "approval_valid a" "t = tbl_upsert aro_id merge_approval a (ga_approvals s)"
      using Returns f(1) by (auto simp: saveApproval_def same_rows_def split: if_splits)
    ultimately show ?thesis
      using f by (intro asked [of a]) (auto simp: a_def gate_log_def same_rows_def same_world_def)
  qed
qed

lemma merge_ok: "approval_valid old \<Longrightarrow> approval_valid new \<Longrightarrow> approval_valid (merge_approval old new)"
  by (cases "aro_thread new") (auto simp: approval_valid_def merge_approval_def)

lemma merge_simps [simp]:
  "aro_id (merge_approval old new) = aro_id old" "aro_run (merge_approval old new) = aro_run old"
  "aro_call (merge_approval old new) = aro_call new" "aro_status (merge_approval old new) = aro_status new"
  "aro_resolved (merge_approval old new) = aro_resolved new"
  by (simp_all add: merge_approval_def)

lemma row_ok_ids: "row_ok env s a \<Longrightarrow> ga_ids s \<le> ga_ids s' \<Longrightarrow> row_ok env s' a"
  by (auto simp: row_ok_def intro: less_le_trans)

lemma request_ok:
  assumes "approvals_ok env s" "requestApproval env input s = (r, s')"
  shows "approvals_ok env s' \<and> same_world s s'"
  using assms
proof (cases rule: request_cases)
  case (refused e)
  then show ?thesis using assms(1) approvals_ok_rows same_rows_world by blast
next
  case (asked a)
  have a: "row_ok env s' a" using asked by (auto simp: row_ok_def)
  have old: "row_ok env s' b" if "b \<in> set (ga_approvals s)" for b
    using assms(1) that asked(4) by (auto simp: approvals_ok_def intro: row_ok_ids)
  have "row_ok env s' (merge_approval b a)" if "b \<in> set (ga_approvals s)" "aro_id b = aro_id a" for b
    using old [OF that(1)] a that(2) by (auto simp: row_ok_def merge_ok)
  then have "\<forall>b \<in> set (ga_approvals s'). row_ok env s' b"
    using old a unfolding asked(9) tbl_upsert_def by auto
  moreover have "tbl_wf aro_id (ga_approvals s')"
    using assms(1) unfolding asked(9) approvals_ok_def by (auto intro: tbl_wf_upsert)
  ultimately show ?thesis using asked(10) by (simp add: approvals_ok_def)
qed (use assms(1) in simp)

text \<open>What a function on states keeps: the world, and the good shape of the approvals.\<close>

definition keeps :: "gate_env \<Rightarrow> gate_state \<Rightarrow> gate_state \<Rightarrow> bool" where
  "keeps env s s' = (same_world s s' \<and> (approvals_ok env s \<longrightarrow> approvals_ok env s'))"

lemma keeps_trans [trans]: "keeps env s t \<Longrightarrow> keeps env t u \<Longrightarrow> keeps env s u"
  by (auto simp: keeps_def intro: same_world_trans)

lemma same_rows_keeps: "same_rows s s' \<Longrightarrow> keeps env s s'"
  by (auto simp: keeps_def same_rows_world intro: approvals_ok_rows)

lemma keeps_refl [simp]: "keeps env s s"
  by (simp add: keeps_def)

lemma keeps_log_after: "keeps env s t \<Longrightarrow> keeps env s (gate_log e t)"
  by (rule keeps_trans [OF _ same_rows_keeps [OF same_rows_log]])

lemma keeps_step_after: "keeps env s t \<Longrightarrow> keeps env s (saveRunStep env call st out t)"
  by (rule keeps_trans [OF _ same_rows_keeps [OF same_rows_step]])

lemma keeps_blocked_step_after: "keeps env s t \<Longrightarrow> keeps env s (saveBlockedToolRunStep env call out st t)"
  by (rule keeps_trans [OF _ same_rows_keeps [OF same_rows_blocked_step]])

lemma keeps_blocked_after: "keeps env s t \<Longrightarrow> keeps env s (blocked env call why extra t)"
  by (rule keeps_trans [OF _ same_rows_keeps [OF same_rows_blocked]])

lemma keeps_after_log: "keeps env (gate_log e s) t \<Longrightarrow> keeps env s t"
  by (rule keeps_trans [OF same_rows_keeps [OF same_rows_log]])

lemmas keeps_intros = keeps_log_after keeps_step_after keeps_blocked_step_after keeps_blocked_after keeps_refl

lemma same_world_saved: "same_world s s1 \<Longrightarrow> same_world s (s1\<lparr>ga_approvals := t\<rparr>)"
  by (simp add: same_world_def)

lemma keeps_request: "requestApproval env input s = (r, s') \<Longrightarrow> keeps env s s'"
proof -
  assume r: "requestApproval env input s = (r, s')"
  have "same_world s s'"
  proof (cases "existing_request input s")
    case None
    then show ?thesis
      using r by (auto simp: requestApproval_def Let_def new_id_def gate_log_def same_world_def split: fallible.splits)
  next
    case (Some a)
    then show ?thesis
      using r by (auto simp: requestApproval_def Let_def same_world_def split: if_splits fallible.splits)
  qed
  then show ?thesis using request_ok [OF _ r] by (auto simp: keeps_def)
qed

lemma keeps_human: "requestHumanApproval env call scope s = (r, s') \<Longrightarrow> keeps env s s'"
  by (auto simp: requestHumanApproval_def Let_def split: prod.splits fallible.splits dest!: keeps_request intro!: keeps_intros)

lemma keeps_satisfied: "isToolApprovalSatisfied p call scope s = (b, s') \<Longrightarrow> keeps env s s'"
  by (rule same_rows_keeps [OF same_rows_satisfied])

lemma keeps_execute: "execute_tool env call scope s = (r, s') \<Longrightarrow> keeps env s s'"
  by (rule same_rows_keeps [OF same_rows_execute])

lemma keeps_approve:
  assumes "approve_or_ask env policy call scope s = (r, s')"
  shows "keeps env s s'"
proof -
  obtain b s1 where first: "isToolApprovalSatisfied policy call scope s = (b, s1)" by fastforce
  show ?thesis
  proof (cases b)
    case True
    then have "execute_tool env call scope s1 = (r, s')" using assms first by (simp add: approve_or_ask_def)
    then show ?thesis using keeps_trans [OF keeps_satisfied [OF first] keeps_execute] by blast
  next
    case False
    let ?t = "if gp_autoReview policy then tryAutoReview env call scope s1 else s1"
    obtain c s2 where second: "isToolApprovalSatisfied policy call scope ?t = (c, s2)" by fastforce
    have "keeps env s1 ?t" by (simp add: same_rows_keeps)
    then have "keeps env s s2" using keeps_trans keeps_satisfied [OF first] keeps_satisfied [OF second] by blast
    moreover have "(if c then execute_tool env call scope s2 else requestHumanApproval env call scope s2) = (r, s')"
      using assms first second False by (simp add: approve_or_ask_def split: bool.splits)
    then have "keeps env s2 s'" using keeps_execute keeps_human by (auto split: if_splits)
    ultimately show ?thesis by (rule keeps_trans)
  qed
qed

lemma keeps_gated: "gated_call env call s = (r, s') \<Longrightarrow> keeps env s s'"
  by (auto simp: gated_call_def Let_def split: if_splits option.splits dest!: keeps_approve intro!: keeps_intros)

lemma keeps_inner: "inner_invoke env call s = (r, s') \<Longrightarrow> keeps env s s'"
  by (auto simp: inner_invoke_def Let_def split: if_splits sum.splits prod.splits dest!: keeps_gated same_rows_escape
      intro!: keeps_intros dest: keeps_after_log same_rows_keeps)

lemma keeps_outer_ask: "outer_ask env call scope why s = (r, s') \<Longrightarrow> keeps env s s'"
  by (auto simp: outer_ask_def Let_def split: prod.splits fallible.splits dest!: keeps_request intro!: keeps_intros)

lemma keeps_invoke: "invoke env call s = (r, s') \<Longrightarrow> keeps env s s'"
  by (auto simp: invoke_def split: if_splits option.splits decision.splits gate.splits dest!: keeps_inner keeps_outer_ask
      intro!: keeps_intros)

section \<open>Replays\<close>

lemma bypass_policy: "ti_bypass call \<Longrightarrow> gp_allowed (inner_policy env call) \<and> \<not> gp_requiresApproval (inner_policy env call)"
  by (simp add: inner_policy_def goal_review_def)

lemma bypass_approve: "ti_bypass call \<Longrightarrow> approve_or_ask env (inner_policy env call) call scope s = execute_tool env call scope s"
  by (simp add: approve_or_ask_def isToolApprovalSatisfied_def bypass_policy)

lemma bypass_rows: "ti_bypass call \<Longrightarrow> invoke env call s = (r, s') \<Longrightarrow> same_rows s s'"
  by (auto simp: invoke_def inner_invoke_def gated_call_def Let_def bypass_policy bypass_approve
      split: if_splits sum.splits prod.splits option.splits dest!: same_rows_escape same_rows_execute
      intro!: same_rows_intros intro: same_rows_trans [OF same_rows_log] same_rows_trans [OF same_rows_blocked])

lemma replay_bypass [simp]: "ti_bypass (replay_call role t)"
  by (simp add: replay_call_def)

lemma same_rows_save_after: "same_rows s t \<Longrightarrow> same_rows s (repo_saveRunStep x t)"
  by (rule same_rows_trans [OF _ same_rows_save])

lemma same_rows_replay: "same_rows s (replay_step env role t s)"
proof -
  obtain r s1 where i: "invoke env (replay_call role t) s = (r, s1)" by fastforce
  then have "same_rows s s1" by (rule bypass_rows [OF replay_bypass])
  then have "same_rows s (completeMcpReplay (replay_call role t) r s1)" by (auto simp: completeMcpReplay_def intro: same_rows_log_after)
  then show ?thesis
    by (auto simp: replay_step_def Let_def i persistReplayResultIfMissing_def intro: same_rows_save_after split: option.split)
qed

lemma same_rows_fold: "(\<And>x s. same_rows s (f x s)) \<Longrightarrow> same_rows s (fold f xs s)"
  by (induction xs arbitrary: s) (auto intro: same_rows_trans)

lemma same_rows_replays: "same_rows s (replayApprovedToolSteps env org run role s)"
  unfolding replayApprovedToolSteps_def by (rule same_rows_fold) (rule same_rows_replay)

lemma same_rows_allow: "same_rows s (gate_allowRun org run scope s)"
  by (simp add: gate_allowRun_def)

section \<open>Histories keep the table well formed\<close>

definition same_table :: "gate_state \<Rightarrow> gate_state \<Rightarrow> bool" where
  "same_table s s' = (ga_approvals s' = ga_approvals s \<and> ga_ids s \<le> ga_ids s')"

lemma same_table_trans [trans]: "same_table s t \<Longrightarrow> same_table t u \<Longrightarrow> same_table s u"
  by (auto simp: same_table_def)

lemma same_rows_table: "same_rows s s' \<Longrightarrow> same_table s s'"
  by (simp add: same_rows_def same_world_def same_table_def)

lemma approvals_ok_table: "same_table s s' \<Longrightarrow> approvals_ok env s \<Longrightarrow> approvals_ok env s'"
  by (force simp: approvals_ok_def same_table_def intro: row_ok_ids)

lemma same_table_simps [simp]:
  "same_table s s" "same_table s (gate_log e s)" "same_table s (saveRun r s)" "same_table s (saveSpirit x s)" "same_table s (failRun r s)"
  "same_table s (reject_run org run s)"
  by (auto simp: same_table_def gate_log_def saveRun_def saveSpirit_def failRun_def reject_run_def split: option.split)

lemma same_table_log_after: "same_table s t \<Longrightarrow> same_table s (gate_log e t)"
  by (rule same_table_trans) (assumption, simp)

lemma same_table_save_after: "same_table s t \<Longrightarrow> same_table s (saveRun r t)"
  by (rule same_table_trans) (assumption, simp)

lemma same_table_allow_replay: "same_table s (replayApprovedToolSteps env org run role (gate_allowRun org run scope s))"
  by (rule same_table_trans [OF same_rows_table [OF same_rows_allow] same_rows_table [OF same_rows_replays]])

lemma same_table_reject: "same_table s t \<Longrightarrow> same_table s (reject_run org run t)"
  by (rule same_table_trans) (assumption, simp)

lemma same_table_resume: "same_table s (resumeAfterApproval env org run allowed scope s)"
  by (auto simp: resumeAfterApproval_def Let_def split: option.split
      intro!: same_table_log_after same_table_save_after same_table_allow_replay same_table_reject same_rows_table [OF same_rows_allow])
    (auto simp: same_table_def gate_allowRun_def)

lemma same_table_deferred: "same_table s (deferred_resume env org run s)"
proof -
  let ?t = "s\<lparr>ga_deferred := ga_deferred s - {runKey org run}\<rparr>"
  have "same_table s ?t" by (simp add: same_table_def)
  then have "same_table s (replayApprovedToolSteps env org run role ?t)" for role
    by (rule same_table_trans) (rule same_rows_table [OF same_rows_replays])
  then show ?thesis by (simp add: deferred_resume_def Let_def)
qed

lemma same_table_announce: "same_table s (announce input existing originals r s)"
  by (auto simp: announce_def Let_def emitConnectorResolvedIfApplicable_def same_table_def gate_log_def split: option.split)

lemma same_table_fold: "(\<And>x s. same_table s (f x s)) \<Longrightarrow> same_table s (fold f xs s)"
  by (induction xs arbitrary: s) (auto intro: same_table_trans)

lemma ok_resolve_row:
  assumes "approvals_ok env s" "repo_resolveApproval org i status why now (ga_approvals s) = (x, t)" "status \<noteq> Ap_Pending"
  shows "approvals_ok env (s\<lparr>ga_approvals := t\<rparr>)"
proof (cases "getApproval org i (ga_approvals s)")
  case None
  then show ?thesis using assms(1,2) by (simp add: repo_resolveApproval_def approvals_ok_def row_ok_def)
next
  case (Some a)
  then have t: "t = tbl_update (\<lambda>x. aro_org x = org \<and> aro_id x = i) (resolve_row status why now) (ga_approvals s)"
    using assms(2) by (simp add: repo_resolveApproval_def)
  have "row_ok env s (resolve_row status why now b)" if "row_ok env s b" for b
    using that assms(3) by (auto simp: row_ok_def resolve_row_def approval_valid_def)
  then have "\<forall>b \<in> set t. row_ok env s b" using assms(1) by (auto simp: t tbl_update_def approvals_ok_def)
  moreover have "tbl_wf aro_id t"
    using assms(1) unfolding t by (auto simp: approvals_ok_def resolve_row_def intro: tbl_wf_update)
  ultimately show ?thesis by (simp add: approvals_ok_def row_ok_def)
qed

lemma ok_approve_rows: "approvals_ok env (snd acc) \<Longrightarrow> approvals_ok env (snd (fold (approve_row input why) as acc))"
proof (induction as arbitrary: acc)
  case (Cons a as)
  have "approvals_ok env (snd (approve_row input why a acc))"
    using Cons.prems ok_resolve_row by (fastforce simp: approve_row_def split: prod.splits option.splits)
  then show ?case using Cons.IH by simp
qed simp

lemma ok_delete: "approvals_ok env s \<Longrightarrow> approvals_ok env (s\<lparr>ga_approvals := deleteApproval org i (ga_approvals s)\<rparr>)"
  using tbl_wf_delete [of aro_id "ga_approvals s"]
  by (simp add: approvals_ok_def deleteApproval_def row_ok_def) (simp add: tbl_delete_def)

lemma ok_delete_each: "approvals_ok env s \<Longrightarrow> approvals_ok env (delete_each org rows s)"
proof (induction rows arbitrary: s)
  case (Cons r rows)
  have "approvals_ok env (delete_each org rows (s\<lparr>ga_approvals := deleteApproval org (aro_id r) (ga_approvals s)\<rparr>))"
    by (rule Cons.IH [OF ok_delete [OF Cons.prems]])
  then show ?case by (simp add: delete_each_def)
qed (simp add: delete_each_def)

lemma ok_resolved: "approvals_ok env s \<Longrightarrow> resolved_approvals input why as s = (rows, s') \<Longrightarrow> approvals_ok env s'"
  using ok_approve_rows [of env "([], s)" input why as] by (auto simp: resolved_approvals_def split: if_splits)

lemma ok_resolve:
  assumes "approvals_ok env s" "resolveApproval env input s = (r, s')"
  shows "approvals_ok env s'"
proof -
  let ?e = "getApproval (rs_org input) (rs_id input) (ga_approvals s)"
  let ?as = "selected_approvals input ?e s"
  obtain rows s1 where rows: "resolved_approvals input (coalesce (effective_reason input ?e) []) ?as s = (rows, s1)" by fastforce
  define s2 where "s2 = fold (announce input ?e ?as) rows s1"
  have "approvals_ok env s1" by (rule ok_resolved [OF assms(1) rows])
  moreover have "same_table s1 s2" unfolding s2_def by (rule same_table_fold) (rule same_table_announce)
  ultimately have s1: "approvals_ok env s1" and s2: "approvals_ok env s2" using approvals_ok_table by blast+
  have "s' = s1 \<or> s' = s2 \<or> s' = delete_each (rs_org input) rows s2 \<or> (\<exists>org run scope. s' = resumeAfterApproval env org run True scope s2) \<or>
      (\<exists>org run. s' = resumeAfterApproval env org run False None (delete_each (rs_org input) rows s2))"
    using assms(2) rows unfolding s2_def
    by (auto simp: resolveApproval_def settle_rows_def Let_def split: list.splits option.splits if_splits)
  then show ?thesis
    using s1 s2 ok_delete_each [OF s2] approvals_ok_table [OF same_table_resume] by metis
qed

lemma ok_cancel: "approvals_ok env s \<Longrightarrow> approvals_ok env (cancelRun org run s)"
proof -
  assume ok: "approvals_ok env s"
  have each: "approvals_ok env t \<Longrightarrow> approvals_ok env (fold (reject_pending org) as t)" for as t
  proof (induction as arbitrary: t)
    case (Cons a as)
    have "approvals_ok env (reject_pending org a t)"
      using Cons.prems ok_resolve_row [OF Cons.prems, of org "aro_id a" Ap_Rejected]
      by (auto simp: reject_pending_def intro: approvals_ok_table [OF same_table_simps(2)] split: prod.split option.split)
    then show ?case using Cons.IH by simp
  qed simp
  have "approvals_ok env (saveRun r (s\<lparr>ga_deferred := d\<rparr>)\<lparr>ga_controllers := c\<rparr>)" for r d c
    using ok by (rule approvals_ok_table [rotated]) (simp add: same_table_def saveRun_def)
  then show ?thesis
    using ok by (auto simp: cancelRun_def Let_def split: option.split
        intro!: each approvals_ok_table [OF same_table_simps(2)] approvals_ok_table [OF same_table_simps(4)])
qed

lemma ok_gate_step: "approvals_ok env s \<Longrightarrow> approvals_ok env (gate_step env e s)"
proof (cases e)
  case (Ev_Call call)
  assume "approvals_ok env s"
  then show ?thesis using keeps_invoke [of env call s] Ev_Call by (cases "invoke env call s") (auto simp: keeps_def)
next
  case (Ev_Attach input)
  assume "approvals_ok env s"
  then show ?thesis
    using keeps_request Ev_Attach by (auto simp: requestAttachmentApproval_def keeps_def prod.split_sel_asm)
      (metis keeps_def keeps_request prod.collapse)
next
  case (Ev_Resolve input)
  assume "approvals_ok env s"
  then show ?thesis using ok_resolve [of env s input] Ev_Resolve by (cases "resolveApproval env input s") auto
qed (auto simp: gate_restart_def intro: ok_cancel approvals_ok_table [OF same_table_deferred] approvals_ok_table [OF same_table_simps(3)]
    approvals_ok_table [OF same_table_simps(4)] approvals_ok_table [of s] simp: same_table_def)

lemma ok_history: "approvals_ok env s \<Longrightarrow> approvals_ok env (gate_history env es s)"
  unfolding gate_history_def by (induction es arbitrary: s) (auto intro: ok_gate_step)

lemma ok_empty: "approvals_ok env (gate_empty members)"
  by (simp add: approvals_ok_def gate_empty_def)

end
