(* ===== verification/GateDemo.thy ===== *)
theory GateDemo
  imports GateLaws
begin

text \<open>
  A small history on which the statements about the gates are tried: the spirit of a run makes
  a shell call, and the permission check stops it for an approval.
\<close>

definition demo_gate_env :: gate_env where
  "demo_gate_env =
     \<lparr>ge_uuid = (\<lambda>n. CHR ''u'' # nat_to_str n), ge_sha = (\<lambda>x. x), ge_file = (\<lambda>_. None),
      ge_permission = (\<lambda>_. Denied ''ask'' Requires_Approval (Some Gate_Approval) None),
      ge_prepare = (\<lambda>c. Inr (ti_path c, ti_input c)), ge_policy = (\<lambda>_. allow False), ge_why = (\<lambda>_. []),
      ge_governance = (\<lambda>_. emptyGovernancePolicy), ge_risk = (\<lambda>_ _ _. None), ge_goal_mode = (\<lambda>_. False), ge_review = (\<lambda>_. False),
      ge_tool = (\<lambda>_ _. Tool_Returned JNull)\<rparr>"

definition rm_call :: tool_invocation where
  "rm_call = \<lparr>ti_org = ''o'', ti_run = ''r'', ti_member = ''m'', ti_thread = None, ti_call = ''c1'', ti_tool = ''shell'',
     ti_action = ''execute'', ti_type = ''shell'', ti_path = Some ''/w'', ti_input = text_call ''/w'' ''rm x'', ti_mcp = None,
     ti_permission = None, ti_bypass = False, ti_role = None\<rparr>"

definition demo_request :: approval_row where
  "demo_request = \<lparr>aro_id = ''u0'', aro_org = ''o'', aro_run = Some ''r'', aro_call = Some ''c1'', aro_thread = None, aro_by = ''m'',
      aro_type = ''shell'', aro_path = ''/w'', aro_action = ''execute'', aro_status = Ap_Pending,
      aro_reason = ''Tool action requires approval;scope=shell%3A%7B%22cwd%22%3A%22%2Fw%22%2C%22command%22%3A%22rm%22%2C%22args%22%3A%5B%22x%22%5D%7D;note=ask'',
      aro_created = 0, aro_resolved = None\<rparr>"

definition demo_step :: tool_step where
  "demo_step = \<lparr>st_id = ''u1'', st_org = ''o'', st_run = ''r'', st_thread = None, st_agent = ''m'', st_call = ''c1'', st_tool = ''shell'',
     st_action = ''execute'', st_type = ''shell'', st_path = ''/w'', st_input = text_call ''/w'' ''rm x'',
     st_output = Some (waiting_output ''u0''), st_status = ''ok'', st_created = 0\<rparr>"

definition demo_run :: gate_run where
  "demo_run = \<lparr>gr_id = ''r'', gr_org = ''o'', gr_thread = None, gr_status = ''running''\<rparr>"

definition demo_spirit :: gate_spirit where
  "demo_spirit = \<lparr>gs_id = ''x'', gs_org = ''o'', gs_run = Some ''r'', gs_status = ''running'', gs_role = ''worker''\<rparr>"

definition demo_gate :: gate_state where
  "demo_gate =
     \<lparr>ga_approvals = [demo_request], ga_runs = [demo_run], ga_spirits = [demo_spirit], ga_members = [(''o'', ''m'')],
      ga_steps = [demo_step], ga_answered = [], ga_permits = \<lparr>pm_runs = {}, pm_scopes = {}\<rparr>, ga_controllers = {}, ga_deferred = {},
      ga_clock = 0, ga_ids = 2, ga_log = [Asked demo_request]\<rparr>"

lemma demo_gate_reached:
  "gate_history demo_gate_env [Ev_Run demo_run, Ev_Spirit demo_spirit, Ev_Call rm_call] (gate_empty [(''o'', ''m'')]) = demo_gate"
  by code_simp

lemma demo_gate_ok: "approvals_ok demo_gate_env demo_gate"
  unfolding demo_gate_reached [symmetric] by (rule ok_history [OF ok_empty])

lemma demo_approval:
  "getApproval ''o'' ''u0'' (ga_approvals demo_gate) = Some demo_request" "aro_status demo_request = Ap_Pending"
  "aro_run demo_request = Some ''r''" "\<not> is_attachment_request demo_request" "aro_type demo_request = ''shell''"
  "aro_action demo_request = ''execute''"
  by (simp_all add: demo_gate_def demo_request_def getApproval_def is_attachment_request_def ATTACHMENT_PREFIX_def starts_with_def)

lemma demo_scope: "nonempty (extractOperationalScope demo_request) = Some (shell_text ''/w'' ''rm'' [''x''])"
  by code_simp

end
