(* ===== verification/GateClaims.thy ===== *)
theory GateClaims
  imports GateDemo
begin

text \<open>
  What the gates promise, and where they do not keep it: authorised calls, permits as a set
  that is used up, decisions that stick and that sweep, and the calls that run although
  nobody approved them.
\<close>

section \<open>The table\<close>

text \<open>
  C8: After any history of calls, requests, decisions, cancellations and restarts the ids of
  the approvals are distinct, and every approval is valid, names its run and its call, and is
  pending exactly as long as it has no time of resolution.
\<close>

theorem approvals_well_formed:
  "distinct (map aro_id (ga_approvals (gate_history env es (gate_empty members)))) \<and>
   list_all (\<lambda>a. approval_valid a \<and> aro_run a \<noteq> None \<and> aro_call a \<noteq> None \<and> (aro_status a = Ap_Pending \<longleftrightarrow> aro_resolved a = None))
     (ga_approvals (gate_history env es (gate_empty members)))"
  using ok_history [OF ok_empty, of env es members]
  by (auto simp: approvals_ok_def row_ok_def tbl_wf_def list_all_iff)

section \<open>Calls that run\<close>

text \<open>Every tool that ran between two states satisfies a predicate.\<close>

definition ran :: "(tool_invocation \<Rightarrow> bool) \<Rightarrow> gate_state \<Rightarrow> gate_state \<Rightarrow> bool" where
  "ran P s s' = (\<exists>ns. ga_log s' = ga_log s @ ns \<and> (\<forall>p. Executed p \<in> set ns \<longrightarrow> P p))"

lemma ran_refl [simp]: "ran P s s"
  by (simp add: ran_def)

lemma ran_trans: "ran P s t \<Longrightarrow> ran P t u \<Longrightarrow> ran P s u"
  by (force simp: ran_def)

lemma ran_log: "(\<forall>p. e = Executed p \<longrightarrow> P p) \<Longrightarrow> ran P s t \<Longrightarrow> ran P s (gate_log e t)"
  by (force simp: ran_def gate_log_def)

lemma ran_same_log: "ga_log t = ga_log s \<Longrightarrow> ran P s t"
  by (simp add: ran_def)

lemma log_steps [simp]:
  "ga_log (repo_saveRunStep x s) = ga_log s" "ga_log (saveBlockedToolRunStep env call out st s) = ga_log s"
  "ga_log (saveRunStep env call st out s) = ga_log s"
  by (auto simp: repo_saveRunStep_def saveBlockedToolRunStep_def new_id_def saveRunStep_def split: option.split)

lemma ran_steps:
  "ran P s t \<Longrightarrow> ran P s (repo_saveRunStep x t)" "ran P s t \<Longrightarrow> ran P s (saveBlockedToolRunStep env call out st t)"
  "ran P s t \<Longrightarrow> ran P s (saveRunStep env call st out t)" "ran P s t \<Longrightarrow> ran P s (t\<lparr>ga_permits := q\<rparr>)"
  by (simp_all add: ran_def)

lemmas ran_intros = ran_steps ran_log ran_refl

lemma ran_blocked: "ran P s t \<Longrightarrow> ran P s (blocked env call why extra t)"
  by (auto simp: blocked_def intro!: ran_intros)

lemma ran_escape: "finishPathEscapeFailure env call m s = (r, s') \<Longrightarrow> ran P s s'"
  by (auto simp: finishPathEscapeFailure_def Let_def intro!: ran_intros)

lemma ran_execute: "execute_tool env call scope s = (r, s') \<Longrightarrow> P call \<Longrightarrow> ran P s s'"
  by (auto simp: execute_tool_def Let_def split: tool_outcome.splits prod.splits if_splits intro!: ran_intros
      dest!: ran_escape [where P = P] intro: ran_trans [OF ran_log [OF _ ran_refl]])

lemma ran_request: "requestApproval env input s = (r, s') \<Longrightarrow> ran P s s'"
  by (auto simp: requestApproval_def Let_def new_id_def gate_log_def ran_def split: option.splits fallible.splits if_splits)

lemma ran_human: "requestHumanApproval env call scope s = (r, s') \<Longrightarrow> ran P s s'"
  by (auto simp: requestHumanApproval_def Let_def split: prod.splits fallible.splits intro!: ran_intros dest!: ran_request [where P = P])

lemma ran_outer_ask: "outer_ask env call scope why s = (r, s') \<Longrightarrow> ran P s s'"
  by (auto simp: outer_ask_def Let_def split: prod.splits fallible.splits intro!: ran_intros dest!: ran_request [where P = P])

text \<open>What lets a call through the inner gate.\<close>

definition authorised :: "gate_env \<Rightarrow> tool_invocation \<Rightarrow> permits \<Rightarrow> approval_row list \<Rightarrow> bool" where
  "authorised env call permits rows =
     (gp_allowed (inner_policy env call) \<and>
      (\<not> gp_requiresApproval (inner_policy env call) \<or>
       (case buildToolApprovalScope (ge_sha env) call of
          None \<Rightarrow> False
        | Some scope \<Rightarrow> hasApprovedRun (ti_org call) (ti_run call) scope permits \<or>
            hasApprovalGrant (ti_org call) (ti_type call) (ti_action call) scope rows \<or>
            gp_autoReview (inner_policy env call) \<and> ge_review env call)))"

lemma satisfied_cases:
  assumes "isToolApprovalSatisfied policy call scope s = (b, s')"
  shows "b \<longleftrightarrow> \<not> gp_requiresApproval policy \<or> hasApprovedRun (ti_org call) (ti_run call) scope (ga_permits s) \<or>
      hasApprovalGrant (ti_org call) (ti_type call) (ti_action call) scope (ga_approvals s)"
    and "\<not> b \<Longrightarrow> s' = s" "ran P s s'"
  using assms
  by (auto simp: isToolApprovalSatisfied_def consumeApprovedRun_def hasApprovedRun_def Let_def intro!: ran_intros
      split: if_splits prod.splits bool.splits)

lemma ran_review: "ran P s (tryAutoReview env call scope s)"
  by (auto simp: tryAutoReview_def gate_allowRun_def intro!: ran_intros)

lemma ran_approve:
  assumes "approve_or_ask env policy call scope s = (r, s')"
    and "policy = inner_policy env call" "gp_allowed policy" "buildToolApprovalScope (ge_sha env) call = Some scope"
  shows "ran (\<lambda>p. p = call \<and> authorised env call (ga_permits s) (ga_approvals s)) s s'"
proof -
  let ?P = "\<lambda>p. p = call \<and> authorised env call (ga_permits s) (ga_approvals s)"
  obtain b s1 where first: "isToolApprovalSatisfied policy call scope s = (b, s1)" by fastforce
  show ?thesis
  proof (cases b)
    case True
    then have "authorised env call (ga_permits s) (ga_approvals s)"
      using satisfied_cases(1) [OF first] assms by (auto simp: authorised_def)
    moreover have "execute_tool env call scope s1 = (r, s')" using assms(1) first True by (simp add: approve_or_ask_def)
    ultimately have "ran ?P s1 s'" by (intro ran_execute) auto
    then show ?thesis by (rule ran_trans [OF satisfied_cases(3) [OF first]])
  next
    case False
    then have s1: "s1 = s" using satisfied_cases(2) [OF first] by simp
    let ?t = "if gp_autoReview policy then tryAutoReview env call scope s else s"
    obtain c s2 where second: "isToolApprovalSatisfied policy call scope ?t = (c, s2)" by fastforce
    have "ran ?P s ?t" by (simp add: ran_review)
    then have t: "ran ?P s s2" by (rule ran_trans) (rule satisfied_cases(3) [OF second])
    have step: "(if c then execute_tool env call scope s2 else requestHumanApproval env call scope s2) = (r, s')"
      using assms(1) first second False s1 by (simp add: approve_or_ask_def split: bool.splits)
    have "c \<Longrightarrow> authorised env call (ga_permits s) (ga_approvals s)"
      using satisfied_cases(1) [OF second] satisfied_cases(1) [OF first] False assms(2-4)
      by (auto simp: authorised_def tryAutoReview_def gate_allowRun_def gate_log_def split: if_splits)
    then have "ran ?P s2 s'" using step ran_execute ran_human by (auto split: if_splits)
    then show ?thesis by (rule ran_trans [OF t])
  qed
qed

definition prepared_call :: "gate_env \<Rightarrow> tool_invocation \<Rightarrow> tool_invocation" where
  "prepared_call env call = (case ge_prepare env call of Inl _ \<Rightarrow> call | Inr (path, input) \<Rightarrow> call\<lparr>ti_path := path, ti_input := input\<rparr>)"

lemma ran_gated:
  "gated_call env call s = (r, s') \<Longrightarrow> ran (\<lambda>p. p = call \<and> authorised env call (ga_permits s) (ga_approvals s)) s s'"
  by (auto simp: gated_call_def Let_def split: if_splits option.splits intro!: ran_intros ran_blocked dest!: ran_approve)

lemma ran_inner:
  assumes "inner_invoke env call s = (r, s')"
  shows "ran (\<lambda>p. p = prepared_call env call \<and> authorised env p (ga_permits s) (ga_approvals s)) s s'"
proof (cases "ge_prepare env call")
  case (Inl m)
  then show ?thesis
    using assms by (auto simp: inner_invoke_def Let_def split: if_splits prod.splits intro!: ran_intros ran_blocked dest: ran_escape)
next
  case (Inr pi)
  obtain path input where pi: "pi = (path, input)" by fastforce
  let ?p = "call\<lparr>ti_path := path, ti_input := input\<rparr>"
  have "ran (\<lambda>p. p = prepared_call env call \<and> authorised env p (ga_permits s) (ga_approvals s)) s t"
    if "gated_call env ?p (gate_log (Called ?p) s) = (r, t)" for t
  proof -
    have "ran (\<lambda>p. p = ?p \<and> authorised env ?p (ga_permits s) (ga_approvals s)) (gate_log (Called ?p) s) t"
      using ran_gated [OF that] by (simp add: gate_log_def)
    then show ?thesis
      using ran_trans [OF ran_log [OF _ ran_refl]] Inr pi by (force simp: ran_def prepared_call_def gate_log_def)
  qed
  then show ?thesis
    using assms Inr pi by (auto simp: inner_invoke_def Let_def split: if_splits intro!: ran_intros ran_blocked)
qed

lemma ran_new: "ran P s s' \<Longrightarrow> Executed p \<in> set (drop (length (ga_log s)) (ga_log s')) \<Longrightarrow> P p"
  by (auto simp: ran_def)

text \<open>
  C6: A call that is not a replay runs a tool only if both gates let it through: the permission
  check allowed it, or a permit of its run was there; and the policy of the prepared call did
  not ask for an approval, or a permit, a matching grant of the organization, or the reviewer's
  approval answered. What runs is the prepared call itself.
\<close>

theorem executed_calls_authorised:
  assumes "\<not> ti_bypass call" "invoke env call s = (r, s')" "Executed p \<in> set (drop (length (ga_log s)) (ga_log s'))"
  shows "p = prepared_call env call \<and> authorised env p (ga_permits s) (ga_approvals s) \<and>
    (ge_permission env call = Allowed \<or>
     (\<exists>scope. buildToolApprovalScope (ge_sha env) call = Some scope \<and> hasApprovedRun (ti_org call) (ti_run call) scope (ga_permits s)))"
proof -
  obtain scope where scope: "buildToolApprovalScope (ge_sha env) call = Some scope"
    using assms by (cases "buildToolApprovalScope (ge_sha env) call") (auto simp: invoke_def)
  let ?open = "ge_permission env call = Allowed \<or> hasApprovedRun (ti_org call) (ti_run call) scope (ga_permits s)"
  have "ran (\<lambda>p. (p = prepared_call env call \<and> authorised env p (ga_permits s) (ga_approvals s)) \<and> ?open) s s'"
  proof (cases ?open)
    case True
    then have "inner_invoke env call s = (r, s')" using assms(1,2) scope by (auto simp: invoke_def split: if_splits)
    then show ?thesis using ran_inner [of env call s r s'] True by simp
  next
    case False
    then show ?thesis
      using assms(1,2) scope
      by (auto simp: invoke_def split: decision.splits option.splits gate.splits intro!: ran_intros dest: ran_outer_ask)
  qed
  then show ?thesis using ran_new [OF _ assms(3)] scope by blast
qed

lemma executed_calls_authorised_witness:
  "authorised demo_gate_env rm_call (ga_permits (gate_allowRun ''o'' ''r'' None demo_gate)) (ga_approvals demo_gate) \<and>
   (\<exists>scope. buildToolApprovalScope (\<lambda>x. x) rm_call = Some scope \<and> hasApprovedRun ''o'' ''r'' scope (ga_permits (gate_allowRun ''o'' ''r'' None demo_gate)))"
proof -
  let ?s = "gate_allowRun ''o'' ''r'' None demo_gate"
  have "Executed rm_call \<in> set (drop (length (ga_log ?s)) (ga_log (snd (invoke demo_gate_env rm_call ?s))))" by code_simp
  moreover have "\<not> ti_bypass rm_call" by (simp add: rm_call_def)
  ultimately show ?thesis
    using executed_calls_authorised [of rm_call demo_gate_env ?s "fst (invoke demo_gate_env rm_call ?s)" "snd (invoke demo_gate_env rm_call ?s)" rm_call]
    by (simp add: demo_gate_env_def gate_allowRun_def rm_call_def)
qed

section \<open>Permits\<close>

text \<open>What the permits are meant to be: a set, one for a run or for a scope of a run.\<close>

datatype permit = Whole string string | Scoped string string string

definition spec_allow :: "string \<Rightarrow> string \<Rightarrow> string option \<Rightarrow> permit set \<Rightarrow> permit set" where
  "spec_allow org run scope A =
     insert (case nonempty scope of Some s \<Rightarrow> Scoped org run (canonicalizeApprovalGrantScope s) | None \<Rightarrow> Whole org run) A"

definition spec_consume :: "string \<Rightarrow> string \<Rightarrow> string \<Rightarrow> permit set \<Rightarrow> bool \<times> permit set" where
  "spec_consume org run scope A =
     (let p = Scoped org run (canonicalizeApprovalGrantScope scope) in
      if p \<in> A then (True, A - {p}) else (Whole org run \<in> A, A - {Whole org run}))"

datatype permit_op = Op_Allow string string "string option" | Op_Consume string string string | Op_Has string string string

fun op_ok :: "permit_op \<Rightarrow> bool" where
  "op_ok (Op_Allow org run _) = (CHR 0x3A \<notin> set org \<and> CHR 0x3A \<notin> set run)"
| "op_ok (Op_Consume org run _) = (CHR 0x3A \<notin> set org \<and> CHR 0x3A \<notin> set run)"
| "op_ok (Op_Has org run _) = (CHR 0x3A \<notin> set org \<and> CHR 0x3A \<notin> set run)"

text \<open>The answers of a sequence of operations, of the tracker and of the set.\<close>

fun tracker_run :: "permit_op list \<Rightarrow> permits \<Rightarrow> bool list" where
  "tracker_run [] p = []"
| "tracker_run (Op_Allow org run scope # ops) p = tracker_run ops (allowRun org run scope p)"
| "tracker_run (Op_Consume org run scope # ops) p =
     (case consumeApprovedRun org run scope p of (b, q) \<Rightarrow> b # tracker_run ops q)"
| "tracker_run (Op_Has org run scope # ops) p = hasApprovedRun org run scope p # tracker_run ops p"

fun spec_run :: "permit_op list \<Rightarrow> permit set \<Rightarrow> bool list" where
  "spec_run [] A = []"
| "spec_run (Op_Allow org run scope # ops) A = spec_run ops (spec_allow org run scope A)"
| "spec_run (Op_Consume org run scope # ops) A = (case spec_consume org run scope A of (b, B) \<Rightarrow> b # spec_run ops B)"
| "spec_run (Op_Has org run scope # ops) A =
     (Scoped org run (canonicalizeApprovalGrantScope scope) \<in> A \<or> Whole org run \<in> A) # spec_run ops A"

fun permit_ok :: "permit \<Rightarrow> bool" where
  "permit_ok (Whole org run) = (CHR 0x3A \<notin> set org \<and> CHR 0x3A \<notin> set run)"
| "permit_ok (Scoped org run scope) = (CHR 0x3A \<notin> set org \<and> CHR 0x3A \<notin> set run)"

definition represents :: "permits \<Rightarrow> permit set \<Rightarrow> bool" where
  "represents p A =
     ((\<forall>x \<in> A. permit_ok x) \<and> pm_runs p = {runKey org run | org run. Whole org run \<in> A} \<and>
      pm_scopes p = {scopedRunKey org run scope | org run scope. Scoped org run scope \<in> A})"

lemma first_colon: "CHR 0x3A \<notin> set a \<Longrightarrow> CHR 0x3A \<notin> set b \<Longrightarrow> a @ CHR 0x3A # x = b @ CHR 0x3A # y \<longleftrightarrow> a = b \<and> x = y"
  by (induction a arbitrary: b) (case_tac b; auto)+

lemma runKey_inj:
  "CHR 0x3A \<notin> set o1 \<Longrightarrow> CHR 0x3A \<notin> set o2 \<Longrightarrow> runKey o1 r1 = runKey o2 r2 \<longleftrightarrow> o1 = o2 \<and> r1 = r2"
  by (simp add: runKey_def first_colon)

lemma scopedRunKey_inj:
  "CHR 0x3A \<notin> set o1 \<Longrightarrow> CHR 0x3A \<notin> set o2 \<Longrightarrow> CHR 0x3A \<notin> set r1 \<Longrightarrow> CHR 0x3A \<notin> set r2 \<Longrightarrow>
     scopedRunKey o1 r1 c1 = scopedRunKey o2 r2 c2 \<longleftrightarrow> o1 = o2 \<and> r1 = r2 \<and> c1 = c2"
  by (simp add: scopedRunKey_def runKey_def first_colon)

lemma represented_run:
  "represents p A \<Longrightarrow> permit_ok (Whole org run) \<Longrightarrow> runKey org run \<in> pm_runs p \<longleftrightarrow> Whole org run \<in> A"
  unfolding represents_def using runKey_inj by fastforce

lemma represented_scope:
  "represents p A \<Longrightarrow> permit_ok (Scoped org run c) \<Longrightarrow> scopedRunKey org run c \<in> pm_scopes p \<longleftrightarrow> Scoped org run c \<in> A"
  unfolding represents_def using scopedRunKey_inj by fastforce

lemma represents_allow:
  "represents p A \<Longrightarrow> permit_ok (Whole org run) \<Longrightarrow> represents (allowRun org run scope p) (spec_allow org run scope A)"
  by (cases "nonempty scope") (auto simp: represents_def allowRun_def spec_allow_def)

lemma represents_drop_run:
  "represents p A \<Longrightarrow> permit_ok (Whole org run) \<Longrightarrow> represents (p\<lparr>pm_runs := pm_runs p - {runKey org run}\<rparr>) (A - {Whole org run})"
  using runKey_inj by (fastforce simp: represents_def)

lemma represents_drop_scope:
  "represents p A \<Longrightarrow> permit_ok (Scoped org run c) \<Longrightarrow>
     represents (p\<lparr>pm_scopes := pm_scopes p - {scopedRunKey org run c}\<rparr>) (A - {Scoped org run c})"
  using scopedRunKey_inj by (fastforce simp: represents_def)

lemma represents_consume:
  assumes "represents p A" "permit_ok (Whole org run)"
  shows "fst (consumeApprovedRun org run scope p) = fst (spec_consume org run scope A) \<and>
    represents (snd (consumeApprovedRun org run scope p)) (snd (spec_consume org run scope A))"
  using represented_scope [OF assms(1), of org run "canonicalizeApprovalGrantScope scope"] represented_run [OF assms]
    represents_drop_run [OF assms] represents_drop_scope [OF assms(1), of org run "canonicalizeApprovalGrantScope scope"] assms
  by (auto simp: consumeApprovedRun_def spec_consume_def Let_def)

lemma tracker_spec: "list_all op_ok ops \<Longrightarrow> represents p A \<Longrightarrow> tracker_run ops p = spec_run ops A"
proof (induction ops arbitrary: p A)
  case (Cons x ops)
  show ?case
  proof (cases x)
    case (Op_Allow org run scope)
    then show ?thesis using Cons represents_allow by simp
  next
    case (Op_Consume org run scope)
    then show ?thesis
      using Cons.prems Cons.IH represents_consume [of p A org run scope] by (auto split: prod.split)
  next
    case (Op_Has org run scope)
    then show ?thesis
      using Cons represented_scope [of p A org run "canonicalizeApprovalGrantScope scope"] represented_run [of p A org run]
      by (simp add: hasApprovedRun_def)
  qed
qed simp



section \<open>Permits that are recognised, and permits that are not\<close>

lemma scopedRunKey_scope: "scopedRunKey org run c = scopedRunKey org run d \<longleftrightarrow> c = d"
  by (simp add: scopedRunKey_def)

text \<open>
  A shell call approved once is recognised when it is made again: the permit stored for
  its canonical scope is the one that is looked for.
\<close>

theorem approved_shell_recognised:
  assumes "parseShellScope scope = Some s" "settled_path (ss_cwd s)"
  shows "hasApprovedRun org run scope (allowRun org run (Some (canonicalizeApprovalGrantScope scope)) p)"
proof -
  have c: "canonicalizeApprovalGrantScope scope = canonical_shell False s"
    by (simp add: canonicalizeApprovalGrantScope_def canonicalize_shell [OF assms(1)])
  have "nonempty (Some (canonical_shell False s)) = Some (canonical_shell False s)" by (simp add: nonempty_def canonical_shell_def)
  then show ?thesis
    using canonicalize_canonical_shell(1) [OF assms(2), of False]
    by (simp add: hasApprovedRun_def allowRun_def c) (simp add: canonicalizeApprovalGrantScope_def)
qed

lemma approved_shell_recognised_witness:
  "hasApprovedRun ''o'' ''r'' (shell_text ''/w'' ''ls'' []) (allowRun ''o'' ''r'' (Some (canonicalizeApprovalGrantScope (shell_text ''/w'' ''ls'' [])))
     \<lparr>pm_runs = {}, pm_scopes = {}\<rparr>)"
  by (rule approved_shell_recognised [OF parse_shell_text])
    (simp add: settled_path_def normalizeApprovalPath_def trim_def is_ws_def Let_def starts_with_def)

text \<open>
  A write, edit or multiedit approved once is not recognised when it is made again: the
  tracker brings the canonical scope into canonical form once more, where its details are lost,
  and looks for the one with details.
\<close>

theorem approved_write_not_recognised:
  assumes "parseWorkspaceWriteScope scope = Some f" "settled_path (fs_path f)" "\<not> hasApprovedRun org run scope p"
  shows "\<not> hasApprovedRun org run scope (allowRun org run (Some (canonicalizeApprovalGrantScope scope)) p)"
proof -
  obtain details operation where d: "json_wf (JObj details)" "canonicalizeApprovalGrantScope scope =
      ''filesystem:'' @ stable_json (JObj (write_fields (normalizeApprovalPath (fs_path f)) operation details))"
    using canonicalize_write(1) [OF assms(1)] by (auto simp: canonicalizeApprovalGrantScope_def)
  let ?c = "canonicalizeApprovalGrantScope scope"
  have "canonicalizeApprovalGrantScope ?c = plain_write (normalizeApprovalPath (fs_path f))"
    unfolding d(2) by (subst canonicalizeApprovalGrantScope_def) (rule canonicalize_canonical_write [OF assms(2) d(1)])
  moreover have "?c \<noteq> plain_write (normalizeApprovalPath (fs_path f))" unfolding d(2) by (rule plain_write_differs [OF d(1)])
  moreover have "nonempty (Some ?c) = Some ?c" by (simp add: nonempty_def d(2))
  ultimately show ?thesis
    using assms(3) by (simp add: hasApprovedRun_def allowRun_def scopedRunKey_scope)
qed

lemma approved_write_not_recognised_witness:
  "\<not> hasApprovedRun ''o'' ''r'' (write_text ''/w/a'' ''x'')
     (allowRun ''o'' ''r'' (Some (canonicalizeApprovalGrantScope (write_text ''/w/a'' ''x''))) \<lparr>pm_runs = {}, pm_scopes = {}\<rparr>)"
proof -
  have path: "settled_path ''/w/a''" "trim ''/w/a'' \<noteq> []"
    by (simp_all add: settled_path_def normalizeApprovalPath_def trim_def is_ws_def Let_def starts_with_def)
  obtain f where f: "parseWorkspaceWriteScope (write_text ''/w/a'' ''x'') = Some f" "fs_path f = ''/w/a''"
    using parse_write_text [OF path(2)] by blast
  show ?thesis
    using approved_write_not_recognised [OF f(1), of "''o''" "''r''"] path(1) f(2) by (simp add: hasApprovedRun_def)
qed

section \<open>Rejections\<close>

lemma first_by_id_ids:
  "(\<exists>a \<in> set (first_by_id seen as). aro_id a = i) \<longleftrightarrow> i \<notin> set seen \<and> (\<exists>a \<in> set as. aro_status a = Ap_Pending \<and> aro_id a = i)"
  by (induction seen as rule: first_by_id.induct) auto

lemma first_by_id_mem: "set (first_by_id seen as) \<subseteq> set as"
  by (induction seen as rule: first_by_id.induct) auto

lemma delete_rows:
  "fold (\<lambda>r. deleteApproval org (aro_id r)) rows t = filter (\<lambda>a. \<not> (aro_org a = org \<and> aro_id a \<in> aro_id ` set rows)) t"
proof (induction rows arbitrary: t)
  case (Cons r rows)
  show ?case
    unfolding fold_Cons comp_def Cons.IH by (simp add: deleteApproval_def tbl_delete_def) (rule filter_cong, auto)
qed simp

definition swept :: "string \<Rightarrow> string \<Rightarrow> approval_row \<Rightarrow> bool" where
  "swept org run a = (aro_org a = org \<and> aro_run a = Some run \<and> aro_status a = Ap_Pending \<and> \<not> is_attachment_request a)"

lemma attachment_with_thread [simp]: "is_attachment_request (with_thread runs a) = is_attachment_request a"
  by (simp add: is_attachment_request_def)

lemma getApproval_Some: "getApproval org i t = Some e \<Longrightarrow> e \<in> set t \<and> aro_org e = org \<and> aro_id e = i"
  by (auto simp: getApproval_def find_Some_iff)

lemma wf_same: "tbl_wf aro_id t \<Longrightarrow> a \<in> set t \<Longrightarrow> b \<in> set t \<Longrightarrow> aro_id a = aro_id b \<Longrightarrow> a = b"
  by (auto simp: tbl_wf_def distinct_map inj_on_def)

lemma selected_rejected:
  assumes "getApproval org i (ga_approvals s) = Some e" "aro_status e = Ap_Pending" "aro_run e = Some run" "run \<noteq> []"
    and "\<not> is_attachment_request e" "rs_org input = org" "\<not> rs_approved input"
  shows "\<exists>rest. selected_approvals input (Some e) s = e # rest"
    and "aro_id ` set (selected_approvals input (Some e) s) = aro_id ` {a \<in> set (ga_approvals s). swept org run a}"
proof -
  have e: "e \<in> set (ga_approvals s)" "aro_org e = org" using getApproval_Some [OF assms(1)] by auto
  have m: "matching_pending input (Some e) s = filter (\<lambda>a. aro_run a = Some run \<and> \<not> is_attachment_request a) (pending_of org s)"
    using assms by (cases run) (simp_all add: matching_pending_def nonempty_def)
  show "\<exists>rest. selected_approvals input (Some e) s = e # rest"
    using assms(2) by (simp add: selected_approvals_def)
  have A: "i \<in> aro_id ` set (selected_approvals input (Some e) s) \<longleftrightarrow>
      aro_id e = i \<or> (\<exists>a \<in> set (matching_pending input (Some e) s). aro_status a = Ap_Pending \<and> aro_id a = i)" for i
    using first_by_id_ids [of "[]" "e # matching_pending input (Some e) s" i] assms(2)
    by (auto simp: selected_approvals_def simp del: first_by_id.simps)
  have B: "(\<exists>a \<in> set (matching_pending input (Some e) s). aro_status a = Ap_Pending \<and> aro_id a = i) \<longleftrightarrow>
      (\<exists>a \<in> set (ga_approvals s). swept org run a \<and> aro_id a = i)" for i
    by (auto simp: m pending_of_def set_pending swept_def)
  have C: "swept org run e" using e assms(2,3,5) by (simp add: swept_def)
  show "aro_id ` set (selected_approvals input (Some e) s) = aro_id ` {a \<in> set (ga_approvals s). swept org run a}"
  proof (rule set_eqI)
    fix i
    have "(\<exists>a \<in> set (ga_approvals s). swept org run a \<and> aro_id a = i) \<longleftrightarrow> i \<in> aro_id ` {a \<in> set (ga_approvals s). swept org run a}"
      by auto
    moreover have "aro_id e = i \<Longrightarrow> \<exists>a \<in> set (ga_approvals s). swept org run a \<and> aro_id a = i" using C e(1) by blast
    ultimately show "i \<in> aro_id ` set (selected_approvals input (Some e) s) \<longleftrightarrow> i \<in> aro_id ` {a \<in> set (ga_approvals s). swept org run a}"
      using A [of i] B [of i] by argo
  qed
qed

text \<open>What a rejection does to the state.\<close>

lemma reject_state:
  assumes "approvals_ok env s" "getApproval org i (ga_approvals s) = Some e" "aro_status e = Ap_Pending" "aro_run e = Some run"
    and "\<not> is_attachment_request e" "rs_org input = org" "rs_id input = i" "\<not> rs_approved input"
  obtains s3 where "ga_approvals s3 = filter (\<lambda>a. \<not> swept org run a) (ga_approvals s)" "ga_runs s3 = ga_runs s" "ga_spirits s3 = ga_spirits s"
    "ga_members s3 = ga_members s" "ga_steps s3 = ga_steps s" "ga_answered s3 = ga_answered s"
    "snd (resolveApproval env input s) = (if gate_run_of org run s3 = None then s3 else resumeAfterApproval env org run False None s3)"
proof -
  have e: "e \<in> set (ga_approvals s)" "aro_org e = org" using getApproval_Some [OF assms(2)] by auto
  then have run: "run \<noteq> []" using assms(1,4) by (auto simp: approvals_ok_def row_ok_def approval_valid_def)
  let ?as = "selected_approvals input (Some e) s"
  note sel = selected_rejected [OF assms(2-4) run assms(5,6,8)]
  obtain rest where rest: "?as = e # rest" using sel(1) by blast
  define why where "why = coalesce (effective_reason input (Some e)) []"
  define rows where "rows = map (resolve_row Ap_Rejected why (ga_clock s)) ?as"
  define s2 where "s2 = fold (announce input (Some e) ?as) rows s"
  define s3 where "s3 = delete_each org rows s2"
  have announce: "ga_runs (announce input x y r t) = ga_runs t" "ga_spirits (announce input x y r t) = ga_spirits t"
      "ga_members (announce input x y r t) = ga_members t" "ga_steps (announce input x y r t) = ga_steps t"
      "ga_answered (announce input x y r t) = ga_answered t" "ga_approvals (announce input x y r t) = ga_approvals t" for x y r t
    by (simp_all add: announce_def Let_def emitConnectorResolvedIfApplicable_def gate_log_def split: option.split)
  have frame: "ga_runs (fold (announce input x y) rs t) = ga_runs t" "ga_spirits (fold (announce input x y) rs t) = ga_spirits t"
      "ga_members (fold (announce input x y) rs t) = ga_members t" "ga_steps (fold (announce input x y) rs t) = ga_steps t"
      "ga_answered (fold (announce input x y) rs t) = ga_answered t" "ga_approvals (fold (announce input x y) rs t) = ga_approvals t"
    for x y rs t by (induction rs arbitrary: t; simp add: announce)+
  have s2: "ga_runs s2 = ga_runs s" "ga_spirits s2 = ga_spirits s" "ga_members s2 = ga_members s" "ga_steps s2 = ga_steps s"
      "ga_answered s2 = ga_answered s" "ga_approvals s2 = ga_approvals s"
    by (simp_all add: s2_def frame)
  have ids: "aro_id ` set rows = aro_id ` {a \<in> set (ga_approvals s). swept org run a}"
    using sel(2) by (simp add: rows_def image_image resolve_row_def)
  have "ga_approvals s3 = filter (\<lambda>a. \<not> (aro_org a = org \<and> aro_id a \<in> aro_id ` set rows)) (ga_approvals s)"
    by (simp add: s3_def delete_each_def delete_rows s2)
  also have "\<dots> = filter (\<lambda>a. \<not> swept org run a) (ga_approvals s)"
    unfolding ids using assms(1) wf_same by (intro filter_cong) (auto simp: approvals_ok_def swept_def)
  finally have t: "ga_approvals s3 = filter (\<lambda>a. \<not> swept org run a) (ga_approvals s)" .
  obtain r rs where hd: "rows = r # rs" "aro_run r = Some run" "aro_org r = org"
    by (simp add: rows_def rest resolve_row_def assms(4) e(2))
  have ne: "nonempty (Some run) = Some run" using run by (cases run) (simp_all add: nonempty_def)
  have "resolved_approvals input why ?as s = (rows, s)" using assms(8) by (simp add: resolved_approvals_def rows_def)
  then have "resolveApproval env input s = settle_rows env input (Some e) ?as rows s"
    using assms(2,6,7) by (simp add: resolveApproval_def Let_def why_def)
  also have "snd \<dots> = (if gate_run_of org run s3 = None then s3 else resumeAfterApproval env org run False None s3)"
    using assms(6,8) ne hd by (simp add: settle_rows_def Let_def s3_def s2_def)
  finally have "snd (resolveApproval env input s) = (if gate_run_of org run s3 = None then s3 else resumeAfterApproval env org run False None s3)" .
  then show ?thesis
    using t s2 by (intro that [of s3]) (auto simp: s3_def delete_each_def)
qed

lemma approvals_resume [simp]: "ga_approvals (resumeAfterApproval env org run allowed scope s) = ga_approvals s"
  using same_table_resume [of s env org run allowed scope] by (simp add: same_table_def)

text \<open>
  Rejecting a pending approval that is no attachment request removes, with it, every
  pending approval of its run except the attachment requests; no other row of the table changes.
\<close>

theorem rejection_sweeps_run:
  assumes "approvals_ok env s" "getApproval org i (ga_approvals s) = Some e" "aro_status e = Ap_Pending" "aro_run e = Some run"
    and "\<not> is_attachment_request e" "rs_org input = org" "rs_id input = i" "\<not> rs_approved input"
  shows "ga_approvals (snd (resolveApproval env input s)) = filter (\<lambda>a. \<not> swept org run a) (ga_approvals s)"
  by (rule reject_state [OF assms]) (simp split: if_split)

definition demo_reject :: resolve_input where
  "demo_reject = \<lparr>rs_org = ''o'', rs_id = ''u0'', rs_approved = False, rs_resolution = Some Reject, rs_reason = None\<rparr>"

lemma rejection_sweeps_run_witness: "ga_approvals (snd (resolveApproval demo_gate_env demo_reject demo_gate)) = []"
  using rejection_sweeps_run [OF demo_gate_ok demo_approval(1-4), of demo_reject]
  by (simp add: demo_reject_def demo_gate_def swept_def demo_approval) (simp add: demo_request_def)

section \<open>Replays\<close>

definition runnable :: "gate_env \<Rightarrow> gate_state \<Rightarrow> tool_invocation \<Rightarrow> bool" where
  "runnable env s call =
     (\<not> run_inactive call s \<and> (ti_org call, ti_member call) \<in> set (ga_members s) \<and> \<not> supervisor_refused call \<and>
      (case ge_prepare env call of Inl _ \<Rightarrow> False | Inr _ \<Rightarrow> True) \<and> buildToolApprovalScope (ge_sha env) (prepared_call env call) \<noteq> None)"

lemma runnable_world: "same_world s s' \<Longrightarrow> runnable env s call \<Longrightarrow> runnable env s' call"
  by (simp add: runnable_def same_world_def run_inactive_def gate_run_of_def)

lemma log_grows: "same_rows s s' \<Longrightarrow> x \<in> set (ga_log s) \<Longrightarrow> x \<in> set (ga_log s')"
  by (auto simp: same_rows_def same_world_def dest: set_mono_prefix)

lemma execute_logs: "Executed call \<in> set (ga_log (snd (execute_tool env call scope s)))"
  by (auto simp: execute_tool_def Let_def gate_log_def finishPathEscapeFailure_def blocked_def split: tool_outcome.split prod.split)

lemma bypass_runs:
  assumes "ti_bypass call" "runnable env s call"
  shows "Executed (prepared_call env call) \<in> set (ga_log (snd (invoke env call s)))"
proof -
  obtain path input where p: "ge_prepare env call = Inr (path, input)"
    using assms(2) by (auto simp: runnable_def split: sum.splits)
  let ?p = "call\<lparr>ti_path := path, ti_input := input\<rparr>"
  obtain scope where "buildToolApprovalScope (ge_sha env) ?p = Some scope"
    using assms(2) p by (auto simp: runnable_def prepared_call_def)
  moreover have "ti_bypass ?p" using assms(1) by simp
  ultimately have "invoke env call s = execute_tool env ?p scope (gate_log (Called ?p) s)"
    using assms p bypass_policy [OF \<open>ti_bypass ?p\<close>] bypass_approve [OF \<open>ti_bypass ?p\<close>]
    by (simp add: invoke_def inner_invoke_def gated_call_def Let_def runnable_def)
  then show ?thesis using execute_logs [of ?p env scope] p by (simp add: prepared_call_def)
qed

lemma same_rows_after_invoke:
  "same_rows (snd (invoke env (replay_call role t) s)) (replay_step env role t s)"
proof -
  obtain r s1 where i: "invoke env (replay_call role t) s = (r, s1)" by fastforce
  have "same_rows s1 (completeMcpReplay (replay_call role t) r s1)" by (simp add: completeMcpReplay_def)
  then show ?thesis
    by (auto simp: replay_step_def Let_def i persistReplayResultIfMissing_def intro: same_rows_save_after split: option.split)
qed

lemma replays_run:
  assumes "t \<in> set ts" "runnable env s (replay_call role t)"
  shows "Executed (prepared_call env (replay_call role t)) \<in> set (ga_log (fold (replay_step env role) ts s))"
  using assms
proof (induction ts arbitrary: s)
  case (Cons u ts)
  show ?case
  proof (cases "u = t")
    case True
    have "Executed (prepared_call env (replay_call role t)) \<in> set (ga_log (snd (invoke env (replay_call role t) s)))"
      by (rule bypass_runs [OF replay_bypass Cons.prems(2)])
    then have "Executed (prepared_call env (replay_call role t)) \<in> set (ga_log (replay_step env role t s))"
      by (rule log_grows [OF same_rows_after_invoke])
    then show ?thesis
      using log_grows [OF same_rows_fold [of "replay_step env role"]] same_rows_replay True by simp
  next
    case False
    then show ?thesis
      using Cons runnable_world [OF same_rows_world [OF same_rows_replay]] by auto
  qed
qed simp

text \<open>
  When a run is resumed with a permit, every step of the run that waits for an approval
  and whose call has no pending approval is executed, if its call can run at all, whatever was
  approved.
\<close>

lemma resume_runs_waiting_steps:
  assumes "resolveSpiritForRun org run s = Some x" "t \<in> set (listStepsAwaitingApprovedReplay org run s)"
    and "runnable env s (replay_call (Some (gs_role x)) t)"
  shows "Executed (prepared_call env (replay_call (Some (gs_role x)) t)) \<in> set (ga_log (resumeAfterApproval env org run True scope s))"
proof -
  let ?s = "gate_allowRun org run scope s"
  have "awaiting_replay org run ?s = awaiting_replay org run s"
    by (rule ext) (simp add: gate_allowRun_def awaiting_replay_def pending_calls_def pending_of_def split: option.split)
  then have "listStepsAwaitingApprovedReplay org run ?s = listStepsAwaitingApprovedReplay org run s"
    by (simp add: listStepsAwaitingApprovedReplay_def gate_allowRun_def listRunSteps_def)
  moreover have "runnable env ?s (replay_call (Some (gs_role x)) t)"
    by (rule runnable_world [OF same_rows_world [OF same_rows_allow] assms(3)])
  ultimately have "Executed (prepared_call env (replay_call (Some (gs_role x)) t))
      \<in> set (ga_log (replayApprovedToolSteps env org run (Some (gs_role x)) ?s))"
    using replays_run assms(2) by (simp add: replayApprovedToolSteps_def)
  then show ?thesis
    using assms(1) log_grows [OF same_rows_log] by (simp add: resumeAfterApproval_def Let_def)
qed

lemma find_updated_spirit:
  assumes "find (\<lambda>x. gs_org x = org \<and> gs_run x = Some run) t = Some x"
  shows "find (\<lambda>y. gs_org y = org \<and> gs_run y = Some run) (tbl_upsert gs_id (\<lambda>_ new. new) (x\<lparr>gs_status := st\<rparr>) t) = Some (x\<lparr>gs_status := st\<rparr>)"
proof -
  have x: "x \<in> set t" "gs_org x = org" "gs_run x = Some run" using assms by (auto simp: find_Some_iff)
  have "find (\<lambda>y. gs_org y = org \<and> gs_run y = Some run) (map (\<lambda>y. if gs_id y = gs_id x then x\<lparr>gs_status := st\<rparr> else y) u) =
      Some (x\<lparr>gs_status := st\<rparr>)"
    if "find (\<lambda>x. gs_org x = org \<and> gs_run x = Some run) u = Some x" for u
    using that by (induction u) (use x in \<open>auto split: if_splits\<close>)
  then show ?thesis using assms x(1) by (auto simp: tbl_upsert_def)
qed



end
