(* ===== verification/GateGrants.thy ===== *)
theory GateGrants
  imports GateDemo
begin

text \<open>
  Grants that last: what the approval of a shell call for always stores, and that the next
  call of the same command finds it.
\<close>

section \<open>The reason of a grant\<close>

lemma like_step: "p \<noteq> CHR ''%'' \<Longrightarrow> like (p # ps) (c # cs) \<longleftrightarrow> (p = CHR ''_'' \<or> lower_char p = lower_char c) \<and> like ps cs"
  by (simp add: like.simps)

lemma like_always: "like ''grant:always_allow:scope=%'' (''grant:always_allow:scope='' @ t)"
  by (simp add: like_step)

lemma encoded_no_semicolon: "CHR 0x3B \<notin> set (encodeURIComponent s)"
  using encoded_plain [of "CHR 0x3B" s] by (auto simp: is_unreserved_def is_digit_def is_upper_def is_lower_def)

lemma takeWhile_until: "c \<notin> set xs \<Longrightarrow> takeWhile (\<lambda>d. d \<noteq> c) (xs @ c # t) = xs"
  by (induction xs) auto

lemma grant_reason_scope:
  assumes "ascii scope" "scope \<noteq> []"
  shows "parseApprovalReasonValue (formatPersistedApprovalGrantReason Grant_Exact scope remark) ''scope'' = Some scope"
proof -
  have "encodeURIComponent scope \<noteq> []" using decode_encodeURI [OF assms(1)] assms(2) by auto
  then show ?thesis
    using takeWhile_until [OF encoded_no_semicolon [of scope], of "''note='' @ remark"] decode_encodeURI [OF assms(1)]
    by (simp add: parseApprovalReasonValue_def formatPersistedApprovalGrantReason_def APPROVAL_GRANT_ALWAYS_PREFIX_def Let_def starts_with_def coalesce_def)
qed

lemma shell_grant_any_mode:
  assumes "parseShellScope scope = Some s" "settled_path (ss_cwd s)" "canonicalizeApprovalGrantScope requested = canonicalizeApprovalGrantScope scope"
    and "parseShellScope requested = Some t"
  shows "approvalPersistedGrantMatches why (canonicalizeApprovalGrantScope scope) requested"
proof -
  have s: "canonicalizeApprovalGrantScope scope = canonical_shell False s" "canonicalizeApprovalGrantScope requested = canonical_shell False t"
    "canonicalizeApprovalFamilyScope requested = canonical_shell True t"
    by (simp_all add: canonicalizeApprovalGrantScope_def canonicalizeApprovalFamilyScope_def canonicalize_shell [OF assms(1)] canonicalize_shell [OF assms(4)])
  then have "canonical_shell True t = canonical_shell True s" using assms(3) by (simp add: canonical_shell_inj)
  then show ?thesis
    using s assms(3) canonicalize_canonical_shell [OF assms(2)]
    by (auto simp: approvalPersistedGrantMatches_def approvalScopeMatchesPersisted_def Let_def canonicalizeApprovalGrantScope_def
      canonicalizeApprovalFamilyScope_def)
qed


section \<open>The approved row\<close>

lemma update_other:
  "repo_resolveApproval org i st why now t = (x, t') \<Longrightarrow> a \<in> set t \<Longrightarrow> aro_id a \<noteq> i \<Longrightarrow> a \<in> set t'"
  by (auto simp: repo_resolveApproval_def tbl_update_def image_iff split: option.splits intro!: bexI [of _ a])

lemma approve_rows_keep:
  "a \<in> set (ga_approvals (snd acc)) \<Longrightarrow> aro_id a \<notin> aro_id ` set as \<Longrightarrow>
     a \<in> set (ga_approvals (snd (fold (approve_row input why) as acc)))"
proof (induction as arbitrary: acc)
  case (Cons b as)
  have "a \<in> set (ga_approvals (snd (approve_row input why b acc)))"
    using Cons.prems update_other [of _ _ _ _ _ _ _ _ a] by (auto simp: approve_row_def split: prod.split option.split)
  then show ?case using Cons by simp
qed simp

lemma first_by_id_fresh: "i \<in> set seen \<Longrightarrow> i \<notin> aro_id ` set (first_by_id seen as)"
  by (induction seen as rule: first_by_id.induct) auto

lemma approved_row_stored:
  assumes "getApproval org i (ga_approvals s) = Some e" "aro_status e = Ap_Pending" "rs_org input = org" "rs_approved input"
    and "resolved_approvals input why (selected_approvals input (Some e) s) s = (rows, s1)"
  shows "resolve_row Ap_Approved why (ga_clock s) e \<in> set (ga_approvals s1)" "rows \<noteq> []"
proof -
  let ?r = "resolve_row Ap_Approved why (ga_clock s) e"
  have e: "e \<in> set (ga_approvals s)" "aro_org e = org" "aro_id e = i" using assms(1) by (auto simp: getApproval_def find_Some_iff)
  obtain rest where rest: "selected_approvals input (Some e) s = e # first_by_id [aro_id e] rest"
    using assms(2) by (simp add: selected_approvals_def)
  define t where "t = tbl_update (\<lambda>x. aro_org x = org \<and> aro_id x = i) (resolve_row Ap_Approved why (ga_clock s)) (ga_approvals s)"
  have first: "approve_row input why e ([], s) = ([?r], s\<lparr>ga_approvals := t\<rparr>)"
    using assms(1,3) e by (simp add: approve_row_def repo_resolveApproval_def t_def)
  have rows: "fold (approve_row input why) (first_by_id [aro_id e] rest) ([?r], s\<lparr>ga_approvals := t\<rparr>) = (rows, s1)"
    using assms(4,5) by (simp add: resolved_approvals_def rest first)
  have "?r \<in> set t" using e by (auto simp: t_def tbl_update_def image_iff intro!: bexI [of _ e])
  then show "?r \<in> set (ga_approvals s1)"
    using approve_rows_keep [of ?r "([?r], s\<lparr>ga_approvals := t\<rparr>)" "first_by_id [aro_id e] rest" input why] rows
      first_by_id_fresh [of "aro_id e" "[aro_id e]" rest] by (simp add: resolve_row_def)
  have "fst acc \<noteq> [] \<Longrightarrow> fst (fold (approve_row input why) as acc) \<noteq> []" for as acc
  proof (induction as arbitrary: acc)
    case (Cons b as)
    have "fst (approve_row input why b acc) \<noteq> []"
      using Cons.prems by (auto simp: approve_row_def split: prod.split option.split)
    then show ?case using Cons.IH by simp
  qed simp
  from this [of "([?r], s\<lparr>ga_approvals := t\<rparr>)" "first_by_id [aro_id e] rest"] show "rows \<noteq> []" by (simp add: rows)
qed

lemma announced: "ga_approvals (fold (announce input x y) rows s) = ga_approvals s" "ga_approvals (announce input x y r s) = ga_approvals s"
proof -
  show one: "ga_approvals (announce input x y r s) = ga_approvals s" for r s
    using same_table_announce [of s input x y r] by (simp add: same_table_def)
  show "ga_approvals (fold (announce input x y) rows s) = ga_approvals s"
    by (induction rows arbitrary: s) (simp_all add: one)
qed

lemma resumed: "ga_approvals (resumeAfterApproval env org run allowed scope s) = ga_approvals s"
  using same_table_resume [of s env org run allowed scope] by (simp add: same_table_def)

text \<open>
  A shell call approved for always is granted from then on: every call with the same
  canonical scope, on the same kind of resource and with the same action, finds the grant,
  whatever the approver noted.
\<close>

theorem allow_always_sticks:
  assumes "getApproval org i (ga_approvals s) = Some e" "aro_status e = Ap_Pending"
    and "nonempty (extractOperationalScope e) = Some scope" "parseShellScope scope = Some sh" "settled_path (ss_cwd sh)"
    and "ascii (canonicalizeApprovalGrantScope scope)" "rs_org input = org" "rs_id input = i" "rs_approved input"
    and "rs_resolution input = Some Allow_Always" "parseShellScope requested = Some t"
    and "canonicalizeApprovalGrantScope requested = canonicalizeApprovalGrantScope scope"
  shows "hasApprovalGrant org (aro_type e) (aro_action e) requested (ga_approvals (snd (resolveApproval env input s)))"
proof -
  let ?p = "canonicalizeApprovalGrantScope scope"
  have ne: "?p \<noteq> []" by (simp add: canonicalizeApprovalGrantScope_def canonicalize_shell [OF assms(4)] canonical_shell_def)
  have persisted: "nonempty (persisted_scope (rs_resolution input) (Some e)) = Some ?p"
    using assms(3,10) ne by (cases ?p) (simp_all add: persisted_scope_def nonempty_def)
  define why where "why = coalesce (effective_reason input (Some e)) []"
  have why: "why = formatPersistedApprovalGrantReason Grant_Exact ?p (coalesce (rs_reason input) [])"
    using persisted assms(9,10) by (simp add: why_def effective_reason_def)
  let ?r = "resolve_row Ap_Approved why (ga_clock s) e"
  obtain rows s1 where rows: "resolved_approvals input why (selected_approvals input (Some e) s) s = (rows, s1)" by fastforce
  note stored = approved_row_stored [OF assms(1,2,7,9) rows]
  obtain r rs where r: "rows = r # rs" using stored(2) by (cases rows) auto
  have "resolveApproval env input s = settle_rows env input (Some e) (selected_approvals input (Some e) s) rows s1"
    using assms(1,7,8) rows by (simp add: resolveApproval_def Let_def why_def)
  moreover have "ga_approvals (snd (settle_rows env input (Some e) as rows s1)) = ga_approvals s1" for as
    using assms(9) r by (simp add: settle_rows_def Let_def announced resumed split: option.split)
  ultimately have "?r \<in> set (ga_approvals (snd (resolveApproval env input s)))" using stored(1) by simp
  moreover have "aro_org e = org" using assms(1) by (auto simp: getApproval_def find_Some_iff)
  then have "aro_org ?r = org \<and> aro_type ?r = aro_type e \<and> aro_action ?r = aro_action e \<and> aro_status ?r = Ap_Approved \<and>
      like ''grant:always_allow:scope=%'' (aro_reason ?r)"
    using like_always by (simp add: resolve_row_def why formatPersistedApprovalGrantReason_def APPROVAL_GRANT_ALWAYS_PREFIX_def)
  moreover have "grant_matches requested ?r"
    using grant_reason_scope [OF assms(6) ne] shell_grant_any_mode [OF assms(4,5,12,11)] ne
    by (cases ?p) (simp_all add: grant_matches_def resolve_row_def why nonempty_def)
  ultimately show ?thesis by (auto simp: hasApprovalGrant_def list_ex_iff grant_rows_def)
qed


definition demo_always :: resolve_input where
  "demo_always = \<lparr>rs_org = ''o'', rs_id = ''u0'', rs_approved = True, rs_resolution = Some Allow_Always,
     rs_reason = Some ''grant:always_allow_family: is not meant''\<rparr>"

lemma allow_always_sticks_witness:
  "hasApprovalGrant ''o'' ''shell'' ''execute'' (shell_text ''/w/.'' ''rm'' [''x'']) (ga_approvals (snd (resolveApproval demo_gate_env demo_always demo_gate)))"
proof -
  have path: "settled_path ''/w''" "normalizeApprovalPath ''/w/.'' = normalizeApprovalPath ''/w''"
    by (simp_all add: settled_path_def normalizeApprovalPath_def trim_def is_ws_def Let_def starts_with_def)
  then have same: "canonicalizeApprovalGrantScope (shell_text ''/w/.'' ''rm'' [''x'']) = canonicalizeApprovalGrantScope (shell_text ''/w'' ''rm'' [''x''])"
    by (simp add: canonicalizeApprovalGrantScope_def canonicalize_shell [OF parse_shell_text] canonical_shell_def)
  have "ascii (canonicalizeApprovalGrantScope (shell_text ''/w'' ''rm'' [''x'']))" by code_simp
  then show ?thesis
    using allow_always_sticks [OF demo_approval(1,2) demo_scope parse_shell_text _ _ _ _ _ _ parse_shell_text same, of demo_always] path(1)
    by (simp add: demo_always_def demo_approval)
qed

end
