(* ===== verification/WakeIntents.thy ===== *)
theory WakeIntents
  imports WakeDispatch
begin

text \<open>
  Wakes that have to wait: the table of wake intents
  (\<open>runtime-core/src/repositories/wake-intents.ts\<close>) and what is done with the intents of a
  thread when a run in it ends (\<open>services/pending-member-alerts.ts\<close>). An alert is what the
  conversation service hands to its host; the host's runs are rows with a status.
\<close>

section \<open>Rows\<close>

datatype intent_status = In_Pending | In_Dispatched | In_Dropped

record wake_intent =
  wi_id :: string
  wi_alert :: alert
  wi_messageAt :: int
  wi_status :: intent_status
  wi_createdAt :: int
  wi_dispatchedAt :: "int option"
  wi_droppedAt :: "int option"

record wake_run =
  wr_id :: string
  wr_org :: string
  wr_agent :: string
  wr_thread :: "string option"
  wr_status :: string

type_synonym message_cursor = "int \<times> string"

section \<open>The table\<close>

text \<open>The unique index: one row for a member and a message.\<close>

definition intent_key :: "alert \<Rightarrow> string \<times> string \<times> string" where
  "intent_key a = (al_org a, al_member a, al_message a)"

definition intent_of :: "alert \<Rightarrow> wake_intent list \<Rightarrow> wake_intent option" where
  "intent_of a t = tbl_find (intent_key \<circ> wi_alert) (intent_key a) t"

text \<open>\<open>INSERT OR IGNORE\<close>, then the row of the key, whatever its status.\<close>

definition enqueueWakeIntent :: "string \<Rightarrow> int \<Rightarrow> alert \<Rightarrow> int \<Rightarrow> wake_intent list \<Rightarrow> wake_intent option \<times> wake_intent list" where
  "enqueueWakeIntent i now a messageAt t =
     (let row = \<lparr>wi_id = i, wi_alert = a, wi_messageAt = messageAt, wi_status = In_Pending, wi_createdAt = now,
            wi_dispatchedAt = None, wi_droppedAt = None\<rparr>;
          t' = (if intent_of a t = None \<and> i \<notin> wi_id ` set t then t @ [row] else t)
      in (intent_of a t', t'))"

definition intent_order :: "wake_intent \<Rightarrow> wake_intent \<Rightarrow> int" where
  "intent_order a b =
     (if wi_messageAt a \<noteq> wi_messageAt b then wi_messageAt a - wi_messageAt b
      else if al_message (wi_alert a) \<noteq> al_message (wi_alert b) then str_cmp (al_message (wi_alert a)) (al_message (wi_alert b))
      else if wi_createdAt a \<noteq> wi_createdAt b then wi_createdAt a - wi_createdAt b
      else str_cmp (wi_id a) (wi_id b))"

definition listPendingWakeIntents :: "string \<Rightarrow> string \<Rightarrow> wake_intent list \<Rightarrow> wake_intent list" where
  "listPendingWakeIntents org thread t =
     sort_cmp intent_order
       (filter (\<lambda>w. al_org (wi_alert w) = org \<and> al_thread (wi_alert w) = thread \<and> wi_status w = In_Pending) t)"

definition markWakeIntentDispatched :: "int \<Rightarrow> string \<Rightarrow> string \<Rightarrow> wake_intent list \<Rightarrow> wake_intent list" where
  "markWakeIntentDispatched now org i t =
     tbl_update (\<lambda>w. al_org (wi_alert w) = org \<and> wi_id w = i \<and> wi_status w = In_Pending)
       (\<lambda>w. w\<lparr>wi_status := In_Dispatched, wi_dispatchedAt := Some now\<rparr>) t"

definition markWakeIntentDropped :: "int \<Rightarrow> string \<Rightarrow> string \<Rightarrow> wake_intent list \<Rightarrow> wake_intent list" where
  "markWakeIntentDropped now org i t =
     tbl_update (\<lambda>w. al_org (wi_alert w) = org \<and> wi_id w = i \<and> wi_status w = In_Pending)
       (\<lambda>w. w\<lparr>wi_status := In_Dropped, wi_droppedAt := Some now\<rparr>) t"

definition clearPendingWakeIntents :: "int \<Rightarrow> string \<Rightarrow> string \<Rightarrow> wake_intent list \<Rightarrow> wake_intent list" where
  "clearPendingWakeIntents now org thread t =
     tbl_update (\<lambda>w. al_org (wi_alert w) = org \<and> al_thread (wi_alert w) = thread \<and> wi_status w = In_Pending)
       (\<lambda>w. w\<lparr>wi_status := In_Dropped, wi_droppedAt := Some now\<rparr>) t"

definition hasPendingWakeIntent :: "string \<Rightarrow> string \<Rightarrow> string \<Rightarrow> string \<Rightarrow> wake_intent list \<Rightarrow> bool" where
  "hasPendingWakeIntent org member thread messageId t =
     list_ex (\<lambda>w. al_org (wi_alert w) = org \<and> al_member (wi_alert w) = member \<and> al_thread (wi_alert w) = thread \<and>
       al_message (wi_alert w) = messageId \<and> wi_status w = In_Pending) t"

section \<open>Active runs\<close>

definition ACTIVE_RUN_STATUSES :: "string list" where
  "ACTIVE_RUN_STATUSES = [''queued'', ''running'', ''waiting_for_approval'', ''waiting_for_input'']"

definition listActiveRuns :: "string \<Rightarrow> wake_run list \<Rightarrow> wake_run list" where
  "listActiveRuns org runs = filter (\<lambda>r. wr_org r = org \<and> wr_status r \<in> set ACTIVE_RUN_STATUSES) runs"

definition activeAgentsInThread :: "string \<Rightarrow> string \<Rightarrow> wake_run list \<Rightarrow> string set" where
  "activeAgentsInThread org thread runs =
     set (map wr_agent (filter (\<lambda>r. wr_thread r = Some thread) (listActiveRuns org runs)))"

section \<open>Draining a thread\<close>

definition isAfterCursor :: "message_cursor option \<Rightarrow> wake_intent \<Rightarrow> bool" where
  "isAfterCursor cursor w =
     (case cursor of
        None \<Rightarrow> True
      | Some (createdAt, i) \<Rightarrow>
          wi_messageAt w > createdAt \<or> wi_messageAt w = createdAt \<and> str_cmp (al_message (wi_alert w)) i > 0)"

text \<open>Who may speak at the same time: \<open>parallelDrainMode\<close> here, \<open>resolveWakeSequencing\<close> for a new wake.\<close>

definition parallelDrainMode :: "conv_db \<Rightarrow> string \<Rightarrow> string \<Rightarrow> string option \<Rightarrow> bool" where
  "parallelDrainMode db org threadId alertChannel =
     (if isOneToOneThread (Some threadId) then False
      else
        (let thread = getThread db org threadId;
             channelId = coalesce (or_default alertChannel (case thread of None \<Rightarrow> None | Some t \<Rightarrow> th_channel t)) threadId
         in case getChannel db org channelId of
              Some c \<Rightarrow> ch_kind c \<in> {Ch_General, Ch_Group, Ch_Task_Run}
            | None \<Rightarrow> (case thread of None \<Rightarrow> False | Some t \<Rightarrow> length (th_memberIds t) > 2)))"

text \<open>The first intent of each member that has neither a run nor an intent chosen before.\<close>

fun select_per_agent :: "string set \<Rightarrow> wake_intent list \<Rightarrow> wake_intent list" where
  "select_per_agent busy [] = []"
| "select_per_agent busy (w # ws) =
     (if al_member (wi_alert w) \<in> busy then select_per_agent busy ws
      else w # select_per_agent (insert (al_member (wi_alert w)) busy) ws)"

definition select_intents :: "conv_db \<Rightarrow> string \<Rightarrow> string \<Rightarrow> wake_run list \<Rightarrow> wake_intent list \<Rightarrow> wake_intent list" where
  "select_intents db org thread runs runnable =
     (case runnable of
        [] \<Rightarrow> []
      | first # _ \<Rightarrow>
          (let activeAgents = activeAgentsInThread org thread runs in
           if parallelDrainMode db org thread (al_channel (wi_alert first)) then select_per_agent activeAgents runnable
           else if activeAgents = {} then [first] else []))"

definition DRAINABLE_RUN_STATUSES :: "string list" where
  "DRAINABLE_RUN_STATUSES = [''completed'', ''failed'', ''waiting_for_approval'', ''waiting_for_input'']"

definition drop_all :: "int \<Rightarrow> string \<Rightarrow> wake_intent list \<Rightarrow> wake_intent list \<Rightarrow> wake_intent list" where
  "drop_all now org ws t = fold (\<lambda>w. markWakeIntentDropped now org (wi_id w)) ws t"

definition dispatch_all :: "int \<Rightarrow> string \<Rightarrow> wake_intent list \<Rightarrow> wake_intent list \<Rightarrow> wake_intent list" where
  "dispatch_all now org ws t = fold (\<lambda>w. markWakeIntentDispatched now org (wi_id w)) ws t"

text \<open>The alerts to be woken next, and the table.\<close>

definition drain_thread ::
  "conv_db \<Rightarrow> int \<Rightarrow> string \<Rightarrow> string \<Rightarrow> message_cursor option \<Rightarrow> wake_run list \<Rightarrow> wake_intent list \<Rightarrow> alert list \<times> wake_intent list" where
  "drain_thread db now org thread cursor runs t =
     (let intents = listPendingWakeIntents org thread t;
          runnable = filter (isAfterCursor cursor) intents;
          t1 = drop_all now org (filter (\<lambda>w. \<not> isAfterCursor cursor w) intents) t;
          selected = select_intents db org thread runs runnable
      in (map wi_alert selected, dispatch_all now org selected t1))"

definition drainPendingThreadAlertAfterRun ::
  "conv_db \<Rightarrow> int \<Rightarrow> wake_run \<Rightarrow> message_cursor option \<Rightarrow> wake_run list \<Rightarrow> wake_intent list \<Rightarrow> alert list \<times> wake_intent list" where
  "drainPendingThreadAlertAfterRun db now run cursor runs t =
     (case wr_thread run of
        None \<Rightarrow> ([], t)
      | Some thread \<Rightarrow>
          if wr_status run = ''cancelled'' then ([], clearPendingWakeIntents now (wr_org run) thread t)
          else if wr_status run \<notin> set DRAINABLE_RUN_STATUSES then ([], t)
          else drain_thread db now (wr_org run) thread cursor runs t)"

section \<open>What a drain selects\<close>

lemma member_of_select: "w \<in> set (select_per_agent busy ws) \<Longrightarrow> w \<in> set ws \<and> al_member (wi_alert w) \<notin> busy"
  by (induction ws arbitrary: busy) (auto split: if_splits)

lemma distinct_select: "distinct (map (al_member \<circ> wi_alert) (select_per_agent busy ws))"
  by (induction ws arbitrary: busy) (auto dest: member_of_select)

lemma select_complete:
  "w \<in> set ws \<Longrightarrow> al_member (wi_alert w) \<notin> busy \<Longrightarrow>
   \<exists>v \<in> set (select_per_agent busy ws). al_member (wi_alert v) = al_member (wi_alert w)"
proof (induction ws arbitrary: busy)
  case (Cons v ws)
  show ?case
  proof (cases "al_member (wi_alert v) = al_member (wi_alert w)")
    case True
    with Cons.prems show ?thesis by auto
  next
    case False
    let ?b = "if al_member (wi_alert v) \<in> busy then busy else insert (al_member (wi_alert v)) busy"
    from Cons.prems False have "w \<in> set ws" "al_member (wi_alert w) \<notin> ?b" by auto
    from Cons.IH [OF this] show ?thesis by (auto split: if_splits)
  qed
qed simp

end
