(* ===== verification/WakeRuns.thy ===== *)
theory WakeRuns
  imports WakeIntents
begin

text \<open>
  How alerts become runs (\<open>wakeMemberWithFailureEvents\<close> in \<open>services/index.ts\<close>,
  \<open>utils/async-mutex.ts\<close>, \<open>createRun\<close> in \<open>services/spirit-direct-run.ts\<close>): every alert asks
  for an active spirit, then for the runs of its thread, waits for the thread's mutex, asks
  again, and starts a run or is left in the table of intents. The points where the code
  awaits are separate events, so that histories interleave as they do in the code; the answer
  of the spirits, the fate of runs and the other writers of the tables are events of others.
  A run that has ended stays ended.
\<close>

section \<open>State\<close>

datatype wake_mode = Parallel | Serialized

datatype alert_answer = No_Active_Spirit | Debounced | Replied | Alert_Threw string

datatype wake_note =
    Alert_Failed alert string string
  | Run_Started wake_run alert
  | Run_Queued alert

record wake_state =
  wk_db :: conv_db
  wk_intents :: "wake_intent list"
  wk_runs :: "wake_run list"
  wk_cursors :: "(string \<times> message_cursor) list"
  wk_calls :: "alert list"
  wk_waiting :: "(string \<times> wake_mode \<times> alert) list"
  wk_holding :: "(string \<times> string) list"
  wk_hooks :: "wake_run list"
  wk_clock :: int
  wk_ids :: nat
  wk_log :: "wake_note list"

definition wake_log :: "wake_note \<Rightarrow> wake_state \<Rightarrow> wake_state" where
  "wake_log e s = s\<lparr>wk_log := wk_log s @ [e]\<rparr>"

section \<open>The decisions of an alert\<close>

definition resolveWakeSequencing :: "conv_db \<Rightarrow> alert \<Rightarrow> wake_mode" where
  "resolveWakeSequencing db a =
     (if parallelDrainMode db (al_org a) (al_thread a) (al_channel a) then Parallel else Serialized)"

definition createRunMutexKey :: "alert \<Rightarrow> wake_mode \<Rightarrow> string" where
  "createRunMutexKey a mode =
     (case mode of
        Parallel \<Rightarrow> al_org a @ '':'' @ al_thread a @ '':'' @ al_member a
      | Serialized \<Rightarrow> al_org a @ '':'' @ al_thread a)"

definition threadHasActiveRun :: "wake_run list \<Rightarrow> string \<Rightarrow> string \<Rightarrow> bool" where
  "threadHasActiveRun runs org thread = list_ex (\<lambda>r. wr_thread r = Some thread) (listActiveRuns org runs)"

definition agentHasActiveRunInThread :: "wake_run list \<Rightarrow> string \<Rightarrow> string \<Rightarrow> string \<Rightarrow> bool" where
  "agentHasActiveRunInThread runs org thread agent =
     list_ex (\<lambda>r. wr_thread r = Some thread \<and> wr_agent r = agent) (listActiveRuns org runs)"

definition wake_blocked :: "wake_run list \<Rightarrow> wake_mode \<Rightarrow> alert \<Rightarrow> bool" where
  "wake_blocked runs mode a =
     (case mode of
        Parallel \<Rightarrow> agentHasActiveRunInThread runs (al_org a) (al_thread a) (al_member a)
      | Serialized \<Rightarrow> threadHasActiveRun runs (al_org a) (al_thread a))"

text \<open>\<open>pendingMemberAlertWithCreatedAt\<close> and \<open>enqueuePendingThreadAlert\<close>.\<close>

definition enqueuePendingThreadAlert :: "(nat \<Rightarrow> string) \<Rightarrow> alert \<Rightarrow> wake_state \<Rightarrow> wake_state" where
  "enqueuePendingThreadAlert ids a s =
     (let at = (case getMessage (wk_db s) (al_org a) (al_message a) of None \<Rightarrow> wk_clock s | Some m \<Rightarrow> ms_createdAt m)
      in wake_log (Run_Queued a)
           (s\<lparr>wk_intents := snd (enqueueWakeIntent (ids (wk_ids s)) (wk_clock s) a at (wk_intents s)), wk_ids := Suc (wk_ids s)\<rparr>))"

text \<open>The run of a wake; the agent must exist, be an agent and not be retired.\<close>

definition run_refused :: "conv_db \<Rightarrow> alert \<Rightarrow> string option" where
  "run_refused db a =
     (case db_getMember db (al_org a) (al_member a) of
        None \<Rightarrow> Some (''Member not found: '' @ al_member a)
      | Some m \<Rightarrow>
          if cm_kind m \<noteq> Agent then Some (''Member '' @ dq (al_member a) @ '' is not an agent'')
          else if cm_retired m then Some (''Member '' @ dq (al_member a) @ '' is retired'')
          else None)"

definition createRun :: "(nat \<Rightarrow> string) \<Rightarrow> alert \<Rightarrow> wake_state \<Rightarrow> wake_run option \<times> wake_state" where
  "createRun ids a s =
     (case run_refused (wk_db s) a of
        Some e \<Rightarrow> (None, wake_log (Alert_Failed a ''run_create'' e) s)
      | None \<Rightarrow>
          (let r = \<lparr>wr_id = ids (wk_ids s), wr_org = al_org a, wr_agent = al_member a, wr_thread = Some (al_thread a),
                 wr_status = ''queued''\<rparr>
           in (Some r, wake_log (Run_Started r a) (s\<lparr>wk_runs := wk_runs s @ [r], wk_ids := Suc (wk_ids s)\<rparr>))))"

section \<open>The steps between two awaits\<close>

definition remove_nth :: "nat \<Rightarrow> 'a list \<Rightarrow> 'a list" where
  "remove_nth n xs = take n xs @ drop (Suc n) xs"

text \<open>The spirits have answered: the alert is handled, has failed, waits, or goes on to the mutex.\<close>

definition answer_alert :: "(nat \<Rightarrow> string) \<Rightarrow> nat \<Rightarrow> alert_answer \<Rightarrow> wake_state \<Rightarrow> wake_state" where
  "answer_alert ids n answer s =
     (if n \<ge> length (wk_calls s) then s
      else
        (let a = wk_calls s ! n; s1 = s\<lparr>wk_calls := remove_nth n (wk_calls s)\<rparr>;
             mode = resolveWakeSequencing (wk_db s) a
         in case answer of
              Alert_Threw e \<Rightarrow> wake_log (Alert_Failed a ''supervisor_dispatch'' e) s1
            | Replied \<Rightarrow> s1
            | Debounced \<Rightarrow> enqueuePendingThreadAlert ids a s1
            | No_Active_Spirit \<Rightarrow>
                if wake_blocked (wk_runs s1) mode a then enqueuePendingThreadAlert ids a s1
                else s1\<lparr>wk_waiting := wk_waiting s1 @ [(createRunMutexKey a mode, mode, a)]\<rparr>))"

text \<open>
  A body gets its mutex when it is the first that waits for the key and nobody holds it. It
  looks at the runs again; up to the row of the new run it does not await.
\<close>

definition start_body :: "(nat \<Rightarrow> string) \<Rightarrow> string \<Rightarrow> wake_state \<Rightarrow> wake_state" where
  "start_body ids k s =
     (if k \<in> fst ` set (wk_holding s) then s
      else case find (\<lambda>w. fst w = k) (wk_waiting s) of
        None \<Rightarrow> s
      | Some (_, mode, a) \<Rightarrow>
          (let s1 = s\<lparr>wk_waiting := remove1 (k, mode, a) (wk_waiting s)\<rparr> in
           if wake_blocked (wk_runs s1) mode a then enqueuePendingThreadAlert ids a s1
           else (case createRun ids a s1 of
                   (None, s2) \<Rightarrow> s2
                 | (Some r, s2) \<Rightarrow> s2\<lparr>wk_holding := (k, wr_id r) # wk_holding s2\<rparr>)))"

text \<open>The run has returned to the body, which gives the mutex back.\<close>

definition release_body :: "string \<Rightarrow> wake_state \<Rightarrow> wake_state" where
  "release_body run s = s\<lparr>wk_holding := filter (\<lambda>h. snd h \<noteq> run) (wk_holding s)\<rparr>"

definition is_live :: "wake_run \<Rightarrow> bool" where
  "is_live r = (wr_status r \<in> set ACTIVE_RUN_STATUSES)"

text \<open>The row of a live run gets a status; a status other than running calls the hook, which is asynchronous.\<close>

definition set_run_status :: "string \<Rightarrow> string \<Rightarrow> wake_state \<Rightarrow> wake_state" where
  "set_run_status run status s =
     (case find (\<lambda>r. wr_id r = run) (wk_runs s) of
        None \<Rightarrow> s
      | Some r \<Rightarrow>
          if \<not> is_live r then s
          else
            (let r' = r\<lparr>wr_status := status\<rparr>;
                 s1 = s\<lparr>wk_runs := tbl_update (\<lambda>x. wr_id x = run \<and> is_live x) (\<lambda>x. x\<lparr>wr_status := status\<rparr>) (wk_runs s)\<rparr>
             in if status = ''running'' \<or> status = ''queued'' then s1 else s1\<lparr>wk_hooks := wk_hooks s1 @ [r']\<rparr>))"

definition cursor_of :: "wake_state \<Rightarrow> string \<Rightarrow> message_cursor option" where
  "cursor_of s run = map_of (wk_cursors s) run"

text \<open>The hook drains the thread of the run and forgets its cursor; the alerts it takes are made again.\<close>

definition run_hook :: "nat \<Rightarrow> wake_state \<Rightarrow> wake_state" where
  "run_hook n s =
     (if n \<ge> length (wk_hooks s) then s
      else
        (let r = wk_hooks s ! n in
         case drainPendingThreadAlertAfterRun (wk_db s) (wk_clock s) r (cursor_of s (wr_id r)) (wk_runs s) (wk_intents s) of
           (alerts, t) \<Rightarrow>
             s\<lparr>wk_hooks := remove_nth n (wk_hooks s), wk_intents := t, wk_calls := wk_calls s @ alerts,
               wk_cursors := filter (\<lambda>c. fst c \<noteq> wr_id r) (wk_cursors s)\<rparr>))"

section \<open>Histories\<close>

text \<open>
  The first five events are steps of the code above. The others are a run's progress, what a
  run has read of its thread, a run that others start, changes of the message store, and time.
\<close>

datatype wake_event =
    Wk_Alert alert
  | Wk_Answer nat alert_answer
  | Wk_Body string
  | Wk_Release string
  | Wk_Hook nat
  | Wk_Status string string
  | Wk_Read string message_cursor
  | Wk_Run wake_run
  | Wk_Store conv_db
  | Wk_Tick nat

fun wake_step :: "(nat \<Rightarrow> string) \<Rightarrow> wake_event \<Rightarrow> wake_state \<Rightarrow> wake_state" where
  "wake_step ids (Wk_Alert a) s = s\<lparr>wk_calls := wk_calls s @ [a]\<rparr>"
| "wake_step ids (Wk_Answer n answer) s = answer_alert ids n answer s"
| "wake_step ids (Wk_Body k) s = start_body ids k s"
| "wake_step ids (Wk_Release run) s = release_body run s"
| "wake_step ids (Wk_Hook n) s = run_hook n s"
| "wake_step ids (Wk_Status run status) s = set_run_status run status s"
| "wake_step ids (Wk_Read run cursor) s = s\<lparr>wk_cursors := (run, cursor) # wk_cursors s\<rparr>"
| "wake_step ids (Wk_Run r) s = (if wr_id r \<in> wr_id ` set (wk_runs s) then s else s\<lparr>wk_runs := wk_runs s @ [r]\<rparr>)"
| "wake_step ids (Wk_Store db) s = s\<lparr>wk_db := db\<rparr>"
| "wake_step ids (Wk_Tick n) s = s\<lparr>wk_clock := wk_clock s + int n\<rparr>"

definition wake_history :: "(nat \<Rightarrow> string) \<Rightarrow> wake_event list \<Rightarrow> wake_state \<Rightarrow> wake_state" where
  "wake_history ids es s = fold (wake_step ids) es s"

definition wake_start :: "conv_db \<Rightarrow> wake_state" where
  "wake_start db = \<lparr>wk_db = db, wk_intents = [], wk_runs = [], wk_cursors = [], wk_calls = [], wk_waiting = [],
     wk_holding = [], wk_hooks = [], wk_clock = 0, wk_ids = 0, wk_log = []\<rparr>"

end
