(* ===== verification/WakeClaims.thy ===== *)
theory WakeClaims
  imports WakeRuns "HOL-Library.Sublist"
begin

text \<open>
  What the wakes guarantee under every interleaving, and where one is lost.
\<close>

section \<open>Runs of a thread\<close>

text \<open>The active runs of a thread whose agents satisfy a predicate.\<close>

definition live_runs :: "(string \<Rightarrow> bool) \<Rightarrow> string \<Rightarrow> string \<Rightarrow> wake_run list \<Rightarrow> wake_run list" where
  "live_runs Q org thread runs = filter (\<lambda>r. wr_thread r = Some thread \<and> Q (wr_agent r)) (listActiveRuns org runs)"

lemma live_runs_Nil [simp]: "live_runs Q org thread [] = []"
  by (simp add: live_runs_def listActiveRuns_def)

lemma live_runs_append [simp]: "live_runs Q org thread (rs @ ss) = live_runs Q org thread rs @ live_runs Q org thread ss"
  by (simp add: live_runs_def listActiveRuns_def)

lemma live_runs_Cons:
  "live_runs Q org thread (r # rs) =
   (if wr_org r = org \<and> is_live r \<and> wr_thread r = Some thread \<and> Q (wr_agent r) then r # live_runs Q org thread rs
    else live_runs Q org thread rs)"
  by (simp add: live_runs_def listActiveRuns_def is_live_def)

lemma thread_active_iff: "threadHasActiveRun runs org thread \<longleftrightarrow> live_runs (\<lambda>_. True) org thread runs \<noteq> []"
  by (auto simp: threadHasActiveRun_def live_runs_def list_ex_iff filter_empty_conv)

lemma agent_active_iff: "agentHasActiveRunInThread runs org thread agent \<longleftrightarrow> live_runs ((=) agent) org thread runs \<noteq> []"
  by (auto simp: agentHasActiveRunInThread_def live_runs_def list_ex_iff filter_empty_conv)

lemma live_runs_all_Nil: "live_runs (\<lambda>_. True) org thread runs = [] \<Longrightarrow> live_runs Q org thread runs = []"
  by (auto simp: live_runs_def filter_empty_conv)

lemma live_runs_update:
  "length (live_runs Q org thread (tbl_update (\<lambda>x. wr_id x = run \<and> is_live x) (\<lambda>x. x\<lparr>wr_status := status\<rparr>) runs))
   \<le> length (live_runs Q org thread runs)"
  unfolding tbl_update_def by (induction runs) (auto simp: live_runs_Cons le_SucI)

section \<open>Frames\<close>

lemma enqueue_frame [simp]:
  "wk_runs (enqueuePendingThreadAlert ids a s) = wk_runs s" "wk_waiting (enqueuePendingThreadAlert ids a s) = wk_waiting s"
  "wk_holding (enqueuePendingThreadAlert ids a s) = wk_holding s" "wk_db (enqueuePendingThreadAlert ids a s) = wk_db s"
  "wk_calls (enqueuePendingThreadAlert ids a s) = wk_calls s" "wk_hooks (enqueuePendingThreadAlert ids a s) = wk_hooks s"
  by (simp_all add: enqueuePendingThreadAlert_def wake_log_def Let_def)

lemma wake_log_frame [simp]:
  "wk_runs (wake_log e s) = wk_runs s" "wk_waiting (wake_log e s) = wk_waiting s" "wk_holding (wake_log e s) = wk_holding s"
  "wk_calls (wake_log e s) = wk_calls s" "wk_intents (wake_log e s) = wk_intents s" "wk_hooks (wake_log e s) = wk_hooks s"
  by (simp_all add: wake_log_def)

lemma answer_frame [simp]:
  "wk_runs (answer_alert ids n answer s) = wk_runs s" "wk_holding (answer_alert ids n answer s) = wk_holding s"
  by (simp_all add: answer_alert_def Let_def split: alert_answer.split)

lemma answer_waiting:
  "w \<in> set (wk_waiting (answer_alert ids n answer s)) \<Longrightarrow>
   w \<in> set (wk_waiting s) \<or> fst (snd w) = resolveWakeSequencing (wk_db s) (snd (snd w))"
  by (auto simp: answer_alert_def Let_def split: alert_answer.splits if_splits)

lemma hook_frame [simp]:
  "wk_runs (run_hook n s) = wk_runs s" "wk_waiting (run_hook n s) = wk_waiting s" "wk_holding (run_hook n s) = wk_holding s"
  by (simp_all add: run_hook_def Let_def split: prod.split)

lemma find_hit: "find P xs = Some x \<Longrightarrow> x \<in> set xs \<and> P x"
  by (auto simp: find_Some_iff)

text \<open>The body of a mutex changes the runs only where it found no active one.\<close>

lemma body_cases:
  obtains (quiet) "wk_runs (start_body ids k s) = wk_runs s"
  | (started) m a r where "(k, m, a) \<in> set (wk_waiting s)" "\<not> wake_blocked (wk_runs s) m a" "wk_runs (start_body ids k s) = wk_runs s @ [r]"
      "wr_org r = al_org a" "wr_thread r = Some (al_thread a)" "wr_agent r = al_member a"
proof (cases "find (\<lambda>w. fst w = k) (wk_waiting s)")
  case None
  then show ?thesis using quiet by (simp add: start_body_def)
next
  case (Some w)
  obtain k' m a where w: "w = (k', m, a)" by (cases w)
  from find_hit [OF Some] have "w \<in> set (wk_waiting s)" "k' = k" by (auto simp: w)
  with w Some quiet started show ?thesis
    by (cases "wake_blocked (wk_runs s) m a"; cases "run_refused (wk_db s) a"; cases "k \<in> fst ` set (wk_holding s)")
      (auto simp: start_body_def createRun_def Let_def)
qed

lemma body_waiting: "set (wk_waiting (start_body ids k s)) \<subseteq> set (wk_waiting s)"
  by (auto simp: start_body_def createRun_def Let_def split: option.splits if_splits dest: notin_set_remove1 set_remove1_subset [THEN subsetD])

section \<open>One speaker at a time\<close>

definition starts_elsewhere :: "string \<Rightarrow> wake_event \<Rightarrow> bool" where
  "starts_elsewhere thread e = (case e of Wk_Run r \<Rightarrow> wr_thread r \<noteq> Some thread | _ \<Rightarrow> True)"

definition modes_ok :: "wake_state \<Rightarrow> bool" where
  "modes_ok s = (\<forall>w \<in> set (wk_waiting s). isOneToOneThread (Some (al_thread (snd (snd w)))) \<longrightarrow> fst (snd w) = Serialized)"

definition speakers_ok :: "string \<Rightarrow> string \<Rightarrow> wake_run list \<Rightarrow> bool" where
  "speakers_ok org thread runs =
     ((\<forall>agent. length (live_runs ((=) agent) org thread runs) \<le> 1) \<and>
      (isOneToOneThread (Some thread) \<longrightarrow> length (live_runs (\<lambda>_. True) org thread runs) \<le> 1))"

lemma one_to_one_serialized: "isOneToOneThread (Some (al_thread a)) \<Longrightarrow> resolveWakeSequencing db a = Serialized"
  by (simp add: resolveWakeSequencing_def parallelDrainMode_def)

lemma modes_step: "modes_ok s \<Longrightarrow> modes_ok (wake_step ids e s)"
proof (cases e)
  case (Wk_Answer n answer)
  then show "modes_ok s \<Longrightarrow> ?thesis" by (auto simp: modes_ok_def one_to_one_serialized dest!: answer_waiting)
next
  case (Wk_Body k)
  then show "modes_ok s \<Longrightarrow> ?thesis" using body_waiting [of ids k s] by (auto simp: modes_ok_def)
qed (auto simp: modes_ok_def release_body_def set_run_status_def Let_def split: option.split)

lemma speakers_update:
  "speakers_ok org thread runs \<Longrightarrow>
   speakers_ok org thread (tbl_update (\<lambda>x. wr_id x = run \<and> is_live x) (\<lambda>x. x\<lparr>wr_status := status\<rparr>) runs)"
  unfolding speakers_ok_def using live_runs_update le_trans by blast

lemma speakers_started:
  assumes "speakers_ok org thread runs" "\<not> wake_blocked runs m a"
    and "isOneToOneThread (Some (al_thread a)) \<longrightarrow> m = Serialized"
    and r: "wr_org r = al_org a" "wr_thread r = Some (al_thread a)" "wr_agent r = al_member a"
  shows "speakers_ok org thread (runs @ [r])"
proof (cases "al_org a = org \<and> al_thread a = thread")
  case True
  then have t: "al_org a = org" "al_thread a = thread" by auto
  have none: "live_runs ((=) (al_member a)) org thread runs = []"
  proof (cases m)
    case Serialized
    with assms(2) have "live_runs (\<lambda>_. True) org thread runs = []" by (simp add: wake_blocked_def t thread_active_iff)
    then show ?thesis by (rule live_runs_all_Nil)
  qed (use assms(2) in \<open>simp add: wake_blocked_def t agent_active_iff\<close>)
  have alone: "isOneToOneThread (Some thread) \<Longrightarrow> live_runs (\<lambda>_. True) org thread runs = []"
    using assms(2,3) by (simp add: wake_blocked_def t thread_active_iff)
  have "length (live_runs ((=) agent) org thread (runs @ [r])) \<le> 1" for agent
    using assms(1) none by (cases "agent = al_member a") (simp_all add: speakers_ok_def live_runs_Cons r)
  with alone show ?thesis by (simp add: speakers_ok_def live_runs_Cons)
next
  case False
  then have "live_runs Q org thread (runs @ [r]) = live_runs Q org thread runs" for Q by (auto simp: live_runs_Cons r)
  then show ?thesis using assms(1) by (simp add: speakers_ok_def)
qed

lemma speakers_step:
  assumes "modes_ok s" "speakers_ok org thread (wk_runs s)" "starts_elsewhere thread e"
  shows "speakers_ok org thread (wk_runs (wake_step ids e s))"
proof (cases e)
  case (Wk_Body k)
  show ?thesis
  proof (cases rule: body_cases [of ids k s])
    case (started m a r)
    have "isOneToOneThread (Some (al_thread a)) \<longrightarrow> m = Serialized"
      using assms(1) started(1) by (force simp: modes_ok_def)
    with started assms(2) Wk_Body show ?thesis by (auto intro!: speakers_started)
  qed (use assms Wk_Body in simp)
next
  case (Wk_Run r)
  with assms show ?thesis by (auto simp: starts_elsewhere_def speakers_ok_def live_runs_Cons)
next
  case (Wk_Status run status)
  with assms show ?thesis by (auto simp: set_run_status_def Let_def intro: speakers_update split: option.split)
qed (use assms in \<open>auto simp: release_body_def\<close>)

text \<open>
  C29: In every history of the wakes, however their steps interleave at the points where the
  code awaits, an agent never has two active runs in a thread, and a direct or private thread
  never has two active runs at all, as long as nobody else starts runs in that thread.
\<close>

theorem one_speaker_per_thread:
  assumes "list_all (starts_elsewhere thread) es"
  shows "length (live_runs ((=) agent) org thread (wk_runs (wake_history ids es (wake_start db)))) \<le> 1 \<and>
    (if isOneToOneThread (Some thread) then length (live_runs (\<lambda>_. True) org thread (wk_runs (wake_history ids es (wake_start db)))) \<le> 1 else True)"
proof -
  have "modes_ok s \<Longrightarrow> speakers_ok org thread (wk_runs s) \<Longrightarrow>
      speakers_ok org thread (wk_runs (wake_history ids es s))" for s
    using assms unfolding wake_history_def
    by (induction es arbitrary: s) (auto intro: modes_step speakers_step)
  from this [of "wake_start db"] show ?thesis by (auto simp: speakers_ok_def modes_ok_def wake_start_def)
qed

section \<open>The table of intents\<close>

definition intents_ok :: "wake_intent list \<Rightarrow> bool" where
  "intents_ok t = (tbl_wf wi_id t \<and> tbl_wf (intent_key \<circ> wi_alert) t)"

definition dispatched :: "int \<Rightarrow> wake_intent \<Rightarrow> wake_intent" where
  "dispatched now w = w\<lparr>wi_status := In_Dispatched, wi_dispatchedAt := Some now\<rparr>"

definition dropped :: "int \<Rightarrow> wake_intent \<Rightarrow> wake_intent" where
  "dropped now w = w\<lparr>wi_status := In_Dropped, wi_droppedAt := Some now\<rparr>"

lemma settled_simps [simp]:
  "wi_id (dispatched now w) = wi_id w" "wi_alert (dispatched now w) = wi_alert w" "wi_status (dispatched now w) = In_Dispatched"
  "wi_id (dropped now w) = wi_id w" "wi_alert (dropped now w) = wi_alert w" "wi_status (dropped now w) = In_Dropped"
  "wi_messageAt (dropped now w) = wi_messageAt w" "wi_messageAt (dispatched now w) = wi_messageAt w"
  by (simp_all add: dispatched_def dropped_def)

definition marked :: "string \<Rightarrow> string set \<Rightarrow> wake_intent \<Rightarrow> bool" where
  "marked org ids w = (al_org (wi_alert w) = org \<and> wi_status w = In_Pending \<and> wi_id w \<in> ids)"

lemma dispatch_all_eq:
  "dispatch_all now org ws t = map (\<lambda>w. if marked org (wi_id ` set ws) w then dispatched now w else w) t"
  unfolding dispatch_all_def
  by (induction ws arbitrary: t)
    (auto simp: markWakeIntentDispatched_def tbl_update_def marked_def dispatched_def [symmetric])

lemma drop_all_eq:
  "drop_all now org ws t = map (\<lambda>w. if marked org (wi_id ` set ws) w then dropped now w else w) t"
  unfolding drop_all_def
  by (induction ws arbitrary: t)
    (auto simp: markWakeIntentDropped_def tbl_update_def marked_def dropped_def [symmetric])

text \<open>A pending row may be settled, a settled one is never touched again, none is lost.\<close>

definition row_le :: "wake_intent \<Rightarrow> wake_intent \<Rightarrow> bool" where
  "row_le w v = (v = w \<or> wi_status w = In_Pending \<and> wi_id v = wi_id w \<and> wi_alert v = wi_alert w)"

definition intents_keep :: "wake_intent list \<Rightarrow> wake_intent list \<Rightarrow> bool" where
  "intents_keep t t' = (\<forall>w \<in> set t. \<exists>v \<in> set t'. row_le w v)"

lemma row_le_refl [simp]: "row_le w w"
  by (simp add: row_le_def)

lemma row_le_trans: "row_le u v \<Longrightarrow> row_le v w \<Longrightarrow> row_le u w"
  by (auto simp: row_le_def)

lemma intents_keep_refl [simp]: "intents_keep t t"
  by (auto simp: intents_keep_def intro: row_le_refl)

lemma intents_keep_append: "intents_keep t (t @ u)"
  by (auto simp: intents_keep_def intro: row_le_refl)

lemma intents_keep_trans: "intents_keep t u \<Longrightarrow> intents_keep u v \<Longrightarrow> intents_keep t v"
  unfolding intents_keep_def by (meson row_le_trans)

lemma intents_keep_map: "(\<And>w. row_le w (f w)) \<Longrightarrow> intents_keep t (map f t)"
  by (auto simp: intents_keep_def)

lemma intents_keep_settled: "intents_keep t t' \<Longrightarrow> w \<in> set t \<Longrightarrow> wi_status w \<noteq> In_Pending \<Longrightarrow> w \<in> set t'"
  by (fastforce simp: intents_keep_def row_le_def)

lemma intents_ok_keep: "intents_ok t \<Longrightarrow> (\<And>w. wi_id (f w) = wi_id w \<and> wi_alert (f w) = wi_alert w) \<Longrightarrow> intents_ok (map f t)"
  by (simp add: intents_ok_def tbl_wf_def comp_def)

lemma enqueue_cases: "snd (enqueueWakeIntent i now a at t) = t \<or>
  (\<exists>w. snd (enqueueWakeIntent i now a at t) = t @ [w] \<and> wi_id w \<notin> wi_id ` set t \<and>
    (intent_key \<circ> wi_alert) w \<notin> (intent_key \<circ> wi_alert) ` set t)"
  by (auto simp: enqueueWakeIntent_def intent_of_def tbl_find_None Let_def)

lemma intents_ok_snoc:
  "intents_ok t \<Longrightarrow> wi_id w \<notin> wi_id ` set t \<Longrightarrow> (intent_key \<circ> wi_alert) w \<notin> (intent_key \<circ> wi_alert) ` set t \<Longrightarrow> intents_ok (t @ [w])"
  by (auto simp: intents_ok_def tbl_wf_def)

text \<open>Draining settles rows in place, and only pending ones.\<close>

definition settles :: "wake_intent list \<Rightarrow> wake_intent list \<Rightarrow> bool" where
  "settles t t' = (\<exists>f. t' = map f t \<and> (\<forall>w. wi_id (f w) = wi_id w \<and> wi_alert (f w) = wi_alert w \<and> row_le w (f w)))"

lemma settles_refl [simp]: "settles t t"
  by (auto simp: settles_def intro!: exI [of _ "\<lambda>w. w"])

lemma settles_trans: "settles t u \<Longrightarrow> settles u v \<Longrightarrow> settles t v"
  unfolding settles_def by (elim exE conjE, rule exI [where x = "g \<circ> f" for f g]) (auto intro: row_le_trans)

lemma settles_dispatch: "settles t (dispatch_all now org ws t)"
  unfolding settles_def dispatch_all_eq by (rule exI, rule conjI [OF refl]) (simp add: row_le_def marked_def)

lemma settles_drop: "settles t (drop_all now org ws t)"
  unfolding settles_def drop_all_eq by (rule exI, rule conjI [OF refl]) (simp add: row_le_def marked_def)

lemma settles_clear: "settles t (clearPendingWakeIntents now org thread t)"
  unfolding settles_def clearPendingWakeIntents_def tbl_update_def
  by (rule exI, rule conjI [OF refl]) (simp add: row_le_def)

lemma settles_drain: "settles t (snd (drainPendingThreadAlertAfterRun db now run cursor runs t))"
  by (auto simp: drainPendingThreadAlertAfterRun_def drain_thread_def Let_def settles_clear
      intro: settles_trans [OF settles_drop settles_dispatch] split: option.split)

lemma settles_keep: "settles t t' \<Longrightarrow> intents_keep t t'"
  by (auto simp: settles_def intro: intents_keep_map)

lemma settles_ok: "settles t t' \<Longrightarrow> intents_ok t \<Longrightarrow> intents_ok t'"
  by (auto simp: settles_def intro: intents_ok_keep)

lemma enqueue_table:
  "wk_intents (enqueuePendingThreadAlert ids a s) = wk_intents s \<or>
   (\<exists>w. wk_intents (enqueuePendingThreadAlert ids a s) = wk_intents s @ [w] \<and> wi_id w \<notin> wi_id ` set (wk_intents s) \<and>
     (intent_key \<circ> wi_alert) w \<notin> (intent_key \<circ> wi_alert) ` set (wk_intents s))"
  unfolding enqueuePendingThreadAlert_def wake_log_def Let_def
  using enqueue_cases [of "ids (wk_ids s)" "wk_clock s" a _ "wk_intents s"] by simp

lemma enqueue_ok: "intents_ok (wk_intents s) \<Longrightarrow> intents_ok (wk_intents (enqueuePendingThreadAlert ids a s))"
  using enqueue_table [of ids a s] intents_ok_snoc by auto

lemma enqueue_keep: "intents_keep (wk_intents s) (wk_intents (enqueuePendingThreadAlert ids a s))"
  using enqueue_table [of ids a s] intents_keep_append by auto

text \<open>What a step does to the table.\<close>

lemma step_table:
  obtains (same) "wk_intents (wake_step ids e s) = wk_intents s"
  | (queued) u a where "wk_intents (wake_step ids e s) = wk_intents (enqueuePendingThreadAlert ids a u)" "wk_intents u = wk_intents s"
  | (drained) "settles (wk_intents s) (wk_intents (wake_step ids e s))"
proof (cases e)
  case (Wk_Answer n answer)
  let ?s = "s\<lparr>wk_calls := remove_nth n (wk_calls s)\<rparr>"
  have "wk_intents (answer_alert ids n answer s) = wk_intents s \<or>
      wk_intents (answer_alert ids n answer s) = wk_intents (enqueuePendingThreadAlert ids (wk_calls s ! n) ?s)"
    by (simp add: answer_alert_def Let_def split: alert_answer.split)
  then show ?thesis using same queued [of _ ?s] Wk_Answer by auto
next
  case (Wk_Body k)
  have "wk_intents (start_body ids k s) = wk_intents s \<or>
      (\<exists>u a. wk_intents (start_body ids k s) = wk_intents (enqueuePendingThreadAlert ids a u) \<and> wk_intents u = wk_intents s)"
    by (auto simp: start_body_def createRun_def Let_def split: option.split intro!: exI)
  then show ?thesis using same queued Wk_Body by auto
next
  case (Wk_Hook n)
  have "settles (wk_intents s) (wk_intents (run_hook n s))"
    unfolding run_hook_def Let_def by (auto split: prod.split) (metis settles_drain snd_conv)
  then show ?thesis using drained Wk_Hook by simp
qed (use same in \<open>auto simp: release_body_def set_run_status_def Let_def split: option.split\<close>)

interpretation wakes: step_system "\<lambda>s s'. \<exists>e. s' = wake_step ids e s" "\<lambda>s. intents_ok (wk_intents s)"
    "\<lambda>s s'. intents_keep (wk_intents s) (wk_intents s')" for ids
proof unfold_locales
  fix s s' assume "\<exists>e. s' = wake_step ids e s" and ok: "intents_ok (wk_intents s)"
  then obtain e where s': "s' = wake_step ids e s" by blast
  show "intents_ok (wk_intents s')"
    using step_table [of ids e s] ok settles_ok enqueue_ok unfolding s' by metis
  show "intents_keep (wk_intents s) (wk_intents s')"
    using step_table [of ids e s] settles_keep enqueue_keep intents_keep_refl unfolding s' by metis
qed (auto intro: intents_keep_trans)

lemma history_steps: "(\<lambda>s s'. \<exists>e. s' = wake_step ids e s)\<^sup>*\<^sup>* s (wake_history ids es s)"
  unfolding wake_history_def
proof (induction es arbitrary: s)
  case (Cons e es)
  have "\<exists>e'. wake_step ids e s = wake_step ids e' s" by blast
  with Cons.IH [of "wake_step ids e s"] show ?case
    by (simp add: converse_rtranclp_into_rtranclp [of "\<lambda>s s'. \<exists>e. s' = wake_step ids e s"])
qed simp


section \<open>Draining\<close>

definition waits_in :: "string \<Rightarrow> string \<Rightarrow> wake_intent \<Rightarrow> bool" where
  "waits_in org thread w = (al_org (wi_alert w) = org \<and> al_thread (wi_alert w) = thread \<and> wi_status w = In_Pending)"

lemma set_pending_intents: "set (listPendingWakeIntents org thread t) = {w \<in> set t. waits_in org thread w}"
  by (auto simp: listPendingWakeIntents_def waits_in_def)

lemma select_subset: "set (select_intents db org thread runs ws) \<subseteq> set ws"
  by (auto simp: select_intents_def Let_def dest: member_of_select split: list.splits if_splits)

lemma id_in_rows: "tbl_wf wi_id t \<Longrightarrow> set ws \<subseteq> set t \<Longrightarrow> w \<in> set t \<Longrightarrow> wi_id w \<in> wi_id ` set ws \<longleftrightarrow> w \<in> set ws"
  by (auto simp: tbl_wf_def distinct_map inj_on_def)

lemma alert_in_rows: "tbl_wf (intent_key \<circ> wi_alert) t \<Longrightarrow> set ws \<subseteq> set t \<Longrightarrow> w \<in> set t \<Longrightarrow> wi_alert w \<in> wi_alert ` set ws \<longleftrightarrow> w \<in> set ws"
proof -
  assume "tbl_wf (intent_key \<circ> wi_alert) t" and sub: "set ws \<subseteq> set t" and w: "w \<in> set t"
  then have "inj_on (intent_key \<circ> wi_alert) (set t)" by (simp add: tbl_wf_def distinct_map)
  then have "v = w" if "v \<in> set ws" "wi_alert v = wi_alert w" for v
    using inj_onD [of "intent_key \<circ> wi_alert" "set t" v w] that sub w by auto
  then show ?thesis by force
qed

lemma drain_table:
  assumes ok: "intents_ok t" and d: "drain_thread db now org thread cursor runs t = (alerts, t')"
  shows "t' = map (\<lambda>w. if \<not> waits_in org thread w then w else if \<not> isAfterCursor cursor w then dropped now w
      else if wi_alert w \<in> set alerts then dispatched now w else w) t"
proof -
  let ?p = "listPendingWakeIntents org thread t"
  let ?late = "filter (isAfterCursor cursor) ?p" and ?old = "filter (\<lambda>w. \<not> isAfterCursor cursor w) ?p"
  let ?sel = "select_intents db org thread runs ?late"
  have sel: "set ?sel \<subseteq> {w \<in> set t. waits_in org thread w \<and> isAfterCursor cursor w}"
    using select_subset [of db org thread runs ?late] by (auto simp: set_pending_intents)
  have a: "alerts = map wi_alert ?sel" and t': "t' = dispatch_all now org ?sel (drop_all now org ?old t)"
    using d by (auto simp: drain_thread_def Let_def)
  have ids: "tbl_wf wi_id t" and keys: "tbl_wf (intent_key \<circ> wi_alert) t" using ok by (auto simp: intents_ok_def)
  show ?thesis
    unfolding t' dispatch_all_eq drop_all_eq map_map
  proof (rule map_cong [OF refl])
    fix w assume w: "w \<in> set t"
    have old: "wi_id w \<in> wi_id ` set ?old \<longleftrightarrow> waits_in org thread w \<and> \<not> isAfterCursor cursor w"
      using id_in_rows [OF ids _ w, of ?old] w by (auto simp: set_pending_intents)
    have new: "wi_id w \<in> wi_id ` set ?sel \<longleftrightarrow> w \<in> set ?sel" using id_in_rows [OF ids _ w, of ?sel] sel by auto
    have al: "wi_alert w \<in> set alerts \<longleftrightarrow> w \<in> set ?sel"
      using alert_in_rows [OF keys _ w, of ?sel] sel by (auto simp: a)
    show "((\<lambda>w. if marked org (wi_id ` set ?sel) w then dispatched now w else w) \<circ>
        (\<lambda>w. if marked org (wi_id ` set ?old) w then dropped now w else w)) w =
      (if \<not> waits_in org thread w then w else if \<not> isAfterCursor cursor w then dropped now w
       else if wi_alert w \<in> set alerts then dispatched now w else w)"
      using sel old new al by (auto simp: marked_def waits_in_def)
  qed
qed

lemma drain_alerts:
  assumes "drain_thread db now org thread cursor runs t = (alerts, t')"
  shows "distinct (map al_member alerts) \<and> set (map al_member alerts) \<inter> activeAgentsInThread org thread runs = {}"
proof -
  let ?ws = "select_intents db org thread runs (filter (isAfterCursor cursor) (listPendingWakeIntents org thread t))"
  have "distinct (map (al_member \<circ> wi_alert) ?ws) \<and> (\<forall>w \<in> set ?ws. al_member (wi_alert w) \<notin> activeAgentsInThread org thread runs)"
    by (auto simp: select_intents_def Let_def distinct_select dest: member_of_select split: list.split)
  moreover have "alerts = map wi_alert ?ws" using assms by (auto simp: drain_thread_def Let_def)
  ultimately show ?thesis by auto
qed


section \<open>A wake that is lost\<close>

text \<open>
  A wake can be lost: an alert taken from the table is made again, and when it then finds
  an active run it is to be queued again; but its row is already there as dispatched, the
  statement ignores the insertion, and nothing is left that would wake the member.
\<close>

theorem requeued_wake_lost:
  assumes "n < length (wk_calls s)" "wake_blocked (wk_runs s) (resolveWakeSequencing (wk_db s) (wk_calls s ! n)) (wk_calls s ! n)"
    and "intent_of (wk_calls s ! n) (wk_intents s) = Some w" "wi_status w \<noteq> In_Pending"
  shows "wk_intents (answer_alert ids n No_Active_Spirit s) = wk_intents s \<and>
    wk_calls (answer_alert ids n No_Active_Spirit s) = remove_nth n (wk_calls s) \<and>
    wk_waiting (answer_alert ids n No_Active_Spirit s) = wk_waiting s \<and> wk_runs (answer_alert ids n No_Active_Spirit s) = wk_runs s"
  using assms by (simp add: answer_alert_def enqueuePendingThreadAlert_def wake_log_def enqueueWakeIntent_def Let_def)

section \<open>Concrete histories\<close>

definition dm_agent :: "string \<Rightarrow> conv_member" where
  "dm_agent i = \<lparr>cm_id = i, cm_org = ''o'', cm_name = i, cm_kind = Agent, cm_retired = False\<rparr>"

definition dm_db :: conv_db where
  "dm_db = \<lparr>db_orgs = [''o''], db_members = [dm_agent ''a'', dm_agent ''b''], db_channels = [], db_channel_members = [], db_modes = [],
     db_threads = [], db_thread_members = [], db_messages = [], db_mentions = [], db_attachments = [], db_links = []\<rparr>"

definition dm_alert :: "string \<Rightarrow> string \<Rightarrow> string \<Rightarrow> alert" where
  "dm_alert m to by = \<lparr>al_org = ''o'', al_member = to, al_channel = None, al_thread = ''dm:a:b'', al_message = m, al_by = by,
     al_reason = ''dm'', al_wakeReason = ''dm''\<rparr>"

definition wake_id :: "nat \<Rightarrow> string" where
  "wake_id n = CHR ''r'' # replicate n (CHR ''i'')"

text \<open>
  While B runs for the first message, the second one, for A, is queued; B's run ends and A's
  intent is taken, but before the spirits answer for A a third message starts B again.
\<close>

definition dm_queued :: "wake_event list" where
  "dm_queued = [Wk_Alert (dm_alert ''m1'' ''b'' ''a''), Wk_Answer 0 No_Active_Spirit, Wk_Body ''o:dm:a:b'',
     Wk_Alert (dm_alert ''m2'' ''a'' ''b''), Wk_Answer 0 No_Active_Spirit, Wk_Status (wake_id 0) ''completed'', Wk_Release (wake_id 0)]"

definition dm_overtaken :: "wake_event list" where
  "dm_overtaken = dm_queued @ [Wk_Hook 0, Wk_Alert (dm_alert ''m3'' ''b'' ''a''), Wk_Answer 1 No_Active_Spirit, Wk_Body ''o:dm:a:b'']"

definition dm_state :: "wake_event list \<Rightarrow> wake_state" where
  "dm_state es = wake_history wake_id es (wake_start dm_db)"

theorem one_speaker_per_thread_witness:
  "length (live_runs (\<lambda>_. True) ''o'' ''dm:a:b'' (wk_runs (dm_state dm_overtaken))) = 1"
proof (rule antisym)
  have "list_all (starts_elsewhere ''dm:a:b'') dm_overtaken" by code_simp
  from one_speaker_per_thread [OF this, of "''b''" "''o''" wake_id dm_db]
  show "length (live_runs (\<lambda>_. True) ''o'' ''dm:a:b'' (wk_runs (dm_state dm_overtaken))) \<le> 1"
    unfolding dm_state_def by (simp add: isOneToOneThread_def isDirectMessageThread_def)
qed code_simp


theorem requeued_wake_lost_witness:
  "wk_intents (answer_alert wake_id 0 No_Active_Spirit (dm_state dm_overtaken)) = wk_intents (dm_state dm_overtaken) \<and>
   wk_calls (answer_alert wake_id 0 No_Active_Spirit (dm_state dm_overtaken)) = []"
proof -
  let ?s = "dm_state dm_overtaken"
  have calls: "wk_calls ?s = [dm_alert ''m2'' ''a'' ''b'']" by code_simp
  have "wake_blocked (wk_runs ?s) (resolveWakeSequencing (wk_db ?s) (wk_calls ?s ! 0)) (wk_calls ?s ! 0)" by code_simp
  moreover obtain w where "intent_of (wk_calls ?s ! 0) (wk_intents ?s) = Some w" "wi_status w \<noteq> In_Pending"
  proof -
    have "(case intent_of (wk_calls ?s ! 0) (wk_intents ?s) of None \<Rightarrow> False | Some w \<Rightarrow> wi_status w = In_Dispatched)" by code_simp
    with that show ?thesis by (cases "intent_of (wk_calls ?s ! 0) (wk_intents ?s)") auto
  qed
  ultimately show ?thesis
    using requeued_wake_lost [of 0 ?s _ wake_id] calls by (auto simp: remove_nth_def)
qed

end
