(* ===== verification/Cron.thy ===== *)
theory Cron
  imports Prelude
begin

text \<open>
  Cron expressions (\<open>services/scheduler.ts\<close>): five fields, each a wildcard, a list, a range or a
  value, and the search for the next minute that fits all of them. Local time is a count of
  minutes without change of the clock; the fields of a date and \<open>Number(text)\<close> are those of the
  JavaScript library, the latter without rounding.
\<close>

section \<open>Dates\<close>

record date_fields =
  df_minute :: int
  df_hour :: int
  df_day :: int
  df_month :: int
  df_weekday :: int

text \<open>The day of the year counted from March, in cycles of 400 years.\<close>

definition day_of_year :: "int \<Rightarrow> int" where
  "day_of_year day =
     (let doe = (day + 719468) mod 146097;
          yoe = (doe - doe div 1460 + doe div 36524 - doe div 146096) div 365
      in doe - (365 * yoe + yoe div 4 - yoe div 100))"

definition dateFields :: "int \<Rightarrow> date_fields" where
  "dateFields t =
     (let day = t div 1440; doy = day_of_year day; mp = (5 * doy + 2) div 153
      in \<lparr>df_minute = t mod 60, df_hour = t div 60 mod 24, df_day = doy - (153 * mp + 2) div 5 + 1,
          df_month = (if mp < 10 then mp + 3 else mp - 9), df_weekday = (day + 4) mod 7\<rparr>)"

section \<open>Numbers in texts\<close>

text \<open>A decimal number is a coefficient and an exponent of ten.\<close>

datatype js_number = Dec int int | Infinite bool

definition digit_char :: "char \<Rightarrow> bool" where
  "digit_char c = (48 \<le> (of_char c :: nat) \<and> (of_char c :: nat) \<le> 57)"

definition digits_nat :: "string \<Rightarrow> nat" where
  "digits_nat ds = foldl (\<lambda>n c. 10 * n + (of_char c - 48)) 0 ds"

definition digits_only :: "string \<Rightarrow> nat option" where
  "digits_only s = (if s \<noteq> [] \<and> list_all digit_char s then Some (digits_nat s) else None)"

definition signed :: "(string \<Rightarrow> 'a option) \<Rightarrow> ('a \<Rightarrow> 'a) \<Rightarrow> string \<Rightarrow> 'a option" where
  "signed f neg s =
     (case s of
        [] \<Rightarrow> f s
      | c # cs \<Rightarrow> if c = CHR ''-'' then map_option neg (f cs) else if c = CHR ''+'' then f cs else f s)"

definition exponent_of :: "string \<Rightarrow> int option" where
  "exponent_of s =
     (case s of
        [] \<Rightarrow> Some 0
      | c # cs \<Rightarrow> if c = CHR ''e'' \<or> c = CHR ''E'' then signed (map_option int \<circ> digits_only) uminus cs else None)"

definition decimal :: "string \<Rightarrow> js_number option" where
  "decimal s =
     (let whole = takeWhile digit_char s; rest = drop (length whole) s;
          frac = (case rest of c # cs \<Rightarrow> if c = CHR ''.'' then takeWhile digit_char cs else [] | [] \<Rightarrow> []);
          dotted = (case rest of c # _ \<Rightarrow> c = CHR ''.'' | [] \<Rightarrow> False);
          tail = (if dotted then drop (Suc (length frac)) rest else rest)
      in if s = ''Infinity'' then Some (Infinite False)
         else if whole = [] \<and> frac = [] then None
         else map_option (\<lambda>e. Dec (int (digits_nat (whole @ frac))) (e - int (length frac))) (exponent_of tail))"

definition negate :: "js_number \<Rightarrow> js_number" where
  "negate x = (case x of Dec m e \<Rightarrow> Dec (- m) e | Infinite b \<Rightarrow> Infinite (\<not> b))"

definition based_digit :: "nat \<Rightarrow> char \<Rightarrow> nat option" where
  "based_digit base c =
     (let n = of_char c;
          v = (if 48 \<le> n \<and> n \<le> 57 then n - 48 else if 97 \<le> n \<and> n \<le> 122 then n - 87
               else if 65 \<le> n \<and> n \<le> 90 then n - 55 else 99)
      in if v < base then Some v else None)"

definition based :: "nat \<Rightarrow> string \<Rightarrow> js_number option" where
  "based base s =
     (if s = [] \<or> list_ex (\<lambda>c. based_digit base c = None) s then None
      else Some (Dec (foldl (\<lambda>n c. int base * n + int (case based_digit base c of Some v \<Rightarrow> v | None \<Rightarrow> 0)) 0 s) 0))"

text \<open>\<open>Number(text)\<close>; \<open>None\<close> is not a number.\<close>

definition js_Number :: "string \<Rightarrow> js_number option" where
  "js_Number text =
     (let s = trim text in
      if s = [] then Some (Dec 0 0)
      else if starts_with (to_lower s) ''0x'' then based 16 (drop 2 s)
      else if starts_with (to_lower s) ''0o'' then based 8 (drop 2 s)
      else if starts_with (to_lower s) ''0b'' then based 2 (drop 2 s)
      else signed decimal negate s)"

definition integer_value :: "js_number \<Rightarrow> int option" where
  "integer_value x =
     (case x of
        Infinite _ \<Rightarrow> None
      | Dec m e \<Rightarrow>
          if 0 \<le> e then Some (m * 10 ^ nat e)
          else if m mod 10 ^ nat (- e) = 0 then Some (m div 10 ^ nat (- e)) else None)"

definition number_le :: "js_number \<Rightarrow> js_number \<Rightarrow> bool" where
  "number_le x y =
     (case (x, y) of
        (Infinite neg, Infinite neg') \<Rightarrow> neg \<or> \<not> neg'
      | (Infinite neg, Dec _ _) \<Rightarrow> neg
      | (Dec _ _, Infinite neg) \<Rightarrow> \<not> neg
      | (Dec m e, Dec m' e') \<Rightarrow> m * 10 ^ nat (e - min e e') \<le> m' * 10 ^ nat (e' - min e e'))"

section \<open>Fields\<close>

datatype cron_field = Any_Value | One_Of "int list" | Between js_number js_number

definition parseCronField :: "string \<Rightarrow> cron_field option" where
  "parseCronField field =
     (if field = ''*'' then Some Any_Value
      else if CHR '','' \<in> set field then
        (let values = map (\<lambda>item. Option.bind (js_Number item) integer_value) (split_char (CHR '','') field)
         in if None \<in> set values then None else Some (One_Of (map the values)))
      else if CHR ''-'' \<in> set field then
        (case split_char (CHR ''-'') field of
           [a, b] \<Rightarrow>
             (case (js_Number a, js_Number b) of
                (Some lo, Some hi) \<Rightarrow> if number_le lo hi then Some (Between lo hi) else None
              | _ \<Rightarrow> None)
         | _ \<Rightarrow> None)
      else map_option (\<lambda>v. One_Of [v]) (Option.bind (js_Number field) integer_value))"

definition field_fits :: "cron_field \<Rightarrow> int \<Rightarrow> bool" where
  "field_fits f v =
     (case f of
        Any_Value \<Rightarrow> True
      | One_Of vs \<Rightarrow> v \<in> set vs
      | Between lo hi \<Rightarrow> number_le lo (Dec v 0) \<and> number_le (Dec v 0) hi)"

text \<open>\<open>split(/\s+/)\<close> of a trimmed text.\<close>

fun ws_words :: "string \<Rightarrow> string list" where
  "ws_words [] = [[]]"
| "ws_words (c # cs) =
     (if is_ws c then (if cs \<noteq> [] \<and> is_ws (hd cs) then ws_words cs else [] # ws_words cs)
      else (case ws_words cs of [] \<Rightarrow> [[c]] | w # ws \<Rightarrow> (c # w) # ws))"

fun all_some :: "'a option list \<Rightarrow> 'a list option" where
  "all_some [] = Some []"
| "all_some (x # xs) = (case (x, all_some xs) of (Some y, Some ys) \<Rightarrow> Some (y # ys) | _ \<Rightarrow> None)"

definition cron_fields :: "string \<Rightarrow> cron_field list option" where
  "cron_fields expr =
     (let parts = ws_words (trim expr) in if length parts \<noteq> 5 then None else all_some (map parseCronField parts))"

definition cron_fits :: "cron_field list \<Rightarrow> int \<Rightarrow> bool" where
  "cron_fits fs t =
     (let d = dateFields t
      in list_all2 field_fits fs [df_minute d, df_hour d, df_day d, df_month d, df_weekday d])"

section \<open>The search\<close>

fun search_minute :: "nat \<Rightarrow> (int \<Rightarrow> bool) \<Rightarrow> int \<Rightarrow> int option" where
  "search_minute 0 P t = None"
| "search_minute (Suc n) P t = (if P t then Some t else search_minute n P (t + 1))"

definition CRON_ATTEMPTS :: nat where
  "CRON_ATTEMPTS = 525600"

text \<open>The parser returns a function of the minute to start at, or nothing.\<close>

definition parseCronExpression :: "string \<Rightarrow> (int \<Rightarrow> int option) option" where
  "parseCronExpression expr = map_option (\<lambda>fs. search_minute CRON_ATTEMPTS (cron_fits fs)) (cron_fields expr)"

text \<open>Times are milliseconds; the search starts at the minute after the given time.\<close>

definition minute_of :: "int \<Rightarrow> int" where
  "minute_of ms = ms div 60000"

definition computeNextCronRun :: "string \<Rightarrow> int \<Rightarrow> int option" where
  "computeNextCronRun expr after =
     (case parseCronExpression expr of
        None \<Rightarrow> None
      | Some matcher \<Rightarrow> map_option (\<lambda>t. t * 60000) (matcher (minute_of after + 1)))"

section \<open>The next run is the first minute that fits\<close>

lemma search_Some:
  "search_minute n P t = Some u \<longleftrightarrow> t \<le> u \<and> u < t + int n \<and> P u \<and> (\<forall>v. t \<le> v \<and> v < u \<longrightarrow> \<not> P v)"
proof (induction n P t rule: search_minute.induct)
  case (2 n P t)
  show ?case
  proof (cases "P t")
    case True
    then show ?thesis by (auto intro: antisym)
  next
    case False
    have "(\<forall>v. t + 1 \<le> v \<and> v < u \<longrightarrow> \<not> P v) \<longleftrightarrow> (\<forall>v. t \<le> v \<and> v < u \<longrightarrow> \<not> P v)"
      using False by (metis add1_zle_eq order_le_less)
    moreover have "t \<noteq> u" if "P u" using that False by blast
    ultimately show ?thesis using False 2 by auto
  qed
qed auto

lemma search_None: "search_minute n P t = None \<longleftrightarrow> (\<forall>v. t \<le> v \<and> v < t + int n \<longrightarrow> \<not> P v)"
proof (induction n P t rule: search_minute.induct)
  case (2 n P t)
  have "(\<forall>v. t \<le> v \<and> v < t + int (Suc n) \<longrightarrow> \<not> P v) \<longleftrightarrow> \<not> P t \<and> (\<forall>v. t + 1 \<le> v \<and> v < t + 1 + int n \<longrightarrow> \<not> P v)"
    by (auto simp: algebra_simps) (metis add.commute add1_zle_eq order_le_less)
  with 2 show ?case by auto
qed auto

end
