(* ===== verification/Scheduler.thy ===== *)
theory Scheduler
  imports Cron MessagingOps ApprovalScopes
begin

text \<open>
  Scheduled jobs (\<open>repositories/scheduled-jobs.ts\<close>, \<open>services/scheduler.ts\<close>,
  \<open>routes/schedules.ts\<close>, \<open>tools/schedule.ts\<close>): the table, the requests that change it, and the
  scheduler, whose tick waits for every job it starts, so that requests come between the start
  of a job and the end of it. A time is a number of milliseconds.
\<close>

section \<open>Jobs\<close>

datatype job_status = Job_Active | Job_Paused | Job_Completed | Job_Failed

datatype job_type = Jt_Schedule | Jt_Heartbeat | Jt_Self_Improvement

record scheduled_job =
  sj_id :: string
  sj_org :: string
  sj_name :: string
  sj_cron :: string
  sj_prompt :: string
  sj_channel :: "string option"
  sj_member :: string
  sj_status :: job_status
  sj_type :: job_type
  sj_lastRunAt :: "int option"
  sj_nextRunAt :: "int option"
  sj_runCount :: int
  sj_lastError :: "string option"
  sj_createdAt :: int
  sj_updatedAt :: int

text \<open>The expression of the schema, \<open>(\S+\s+){4}\S+\<close>, admits no space at either end.\<close>

definition cron_shape :: "string \<Rightarrow> bool" where
  "cron_shape expr = (length (ws_words expr) = 5 \<and> [] \<notin> set (ws_words expr))"

text \<open>A row that the schema refuses is an exception.\<close>

definition rowToScheduledJob :: "scheduled_job \<Rightarrow> scheduled_job option" where
  "rowToScheduledJob r =
     (if sj_id r \<noteq> [] \<and> sj_org r \<noteq> [] \<and> sj_name r \<noteq> [] \<and> cron_shape (sj_cron r) \<and> sj_prompt r \<noteq> [] \<and>
         sj_member r \<noteq> [] \<and> 0 \<le> sj_runCount r
      then Some (r\<lparr>sj_channel := nonempty (sj_channel r), sj_lastError := nonempty (sj_lastError r)\<rparr>) else None)"

definition overwrite_job :: "scheduled_job \<Rightarrow> scheduled_job \<Rightarrow> scheduled_job" where
  "overwrite_job old r = r\<lparr>sj_org := sj_org old, sj_createdAt := sj_createdAt old\<rparr>"

definition saveScheduledJob :: "int \<Rightarrow> scheduled_job \<Rightarrow> scheduled_job list \<Rightarrow> scheduled_job list" where
  "saveScheduledJob timestamp job = tbl_upsert sj_id overwrite_job (job\<lparr>sj_updatedAt := timestamp\<rparr>)"

definition getScheduledJob :: "scheduled_job list \<Rightarrow> string \<Rightarrow> string \<Rightarrow> scheduled_job option option" where
  "getScheduledJob t org jobId =
     (case find (\<lambda>r. sj_id r = jobId \<and> sj_org r = org) t of
        None \<Rightarrow> Some None
      | Some r \<Rightarrow> map_option Some (rowToScheduledJob r))"

definition listScheduledJobs :: "scheduled_job list \<Rightarrow> string \<Rightarrow> scheduled_job list option" where
  "listScheduledJobs t org =
     all_some (map rowToScheduledJob (sort_cmp (by_int sj_createdAt) (filter (\<lambda>r. sj_org r = org) t)))"

definition is_due :: "int \<Rightarrow> scheduled_job \<Rightarrow> bool" where
  "is_due now r =
     (sj_status r = Job_Active \<and> (case sj_nextRunAt r of None \<Rightarrow> True | Some n \<Rightarrow> n \<le> now))"

definition next_order :: "scheduled_job \<Rightarrow> scheduled_job \<Rightarrow> int" where
  "next_order a b =
     (case (sj_nextRunAt a, sj_nextRunAt b) of
        (None, None) \<Rightarrow> 0 | (None, Some _) \<Rightarrow> -1 | (Some _, None) \<Rightarrow> 1 | (Some x, Some y) \<Rightarrow> x - y)"

definition listDueScheduledJobs :: "scheduled_job list \<Rightarrow> string \<Rightarrow> int \<Rightarrow> scheduled_job list option" where
  "listDueScheduledJobs t org now =
     all_some (map rowToScheduledJob (sort_cmp next_order (filter (\<lambda>r. sj_org r = org \<and> is_due now r) t)))"

definition listDueJobsGlobally :: "scheduled_job list \<Rightarrow> int \<Rightarrow> scheduled_job list option" where
  "listDueJobsGlobally t now = all_some (map rowToScheduledJob (sort_cmp next_order (filter (is_due now) t)))"

definition deleteScheduledJob :: "string \<Rightarrow> string \<Rightarrow> scheduled_job list \<Rightarrow> scheduled_job list" where
  "deleteScheduledJob org jobId = tbl_delete (\<lambda>r. sj_id r = jobId \<and> sj_org r = org)"

section \<open>Requests\<close>

record job_input =
  ji_org :: string
  ji_member :: string
  ji_name :: string
  ji_cron :: string
  ji_prompt :: string
  ji_channel :: "string option"
  ji_type :: "job_type option"

text \<open>\<open>None\<close> is the error \<open>Invalid cron expression.\<close>\<close>

definition createScheduledJobRecord :: "string \<Rightarrow> int \<Rightarrow> job_input \<Rightarrow> scheduled_job option" where
  "createScheduledJobRecord fresh now i =
     (case computeNextCronRun (ji_cron i) now of
        None \<Rightarrow> None
      | Some nextRunAt \<Rightarrow>
          Some \<lparr>sj_id = fresh, sj_org = ji_org i, sj_name = ji_name i, sj_cron = ji_cron i, sj_prompt = ji_prompt i,
                sj_channel = ji_channel i, sj_member = ji_member i, sj_status = Job_Active,
                sj_type = (case ji_type i of Some ty \<Rightarrow> ty | None \<Rightarrow> Jt_Schedule), sj_lastRunAt = None,
                sj_nextRunAt = Some nextRunAt, sj_runCount = 0, sj_lastError = None, sj_createdAt = now, sj_updatedAt = now\<rparr>)"

record job_patch =
  jp_name :: "string option"
  jp_cron :: "string option"
  jp_prompt :: "string option"
  jp_channel :: "string option"
  jp_status :: "job_status option"
  jp_type :: "job_type option"

definition or_keep :: "'a option \<Rightarrow> 'a \<Rightarrow> 'a" where
  "or_keep x y = (case x of Some v \<Rightarrow> v | None \<Rightarrow> y)"

definition resolveScheduledJobNextRunAt :: "scheduled_job \<Rightarrow> job_patch \<Rightarrow> int \<Rightarrow> int option" where
  "resolveScheduledJobNextRunAt existing p now =
     (let status = or_keep (jp_status p) (sj_status existing);
          recompute = (jp_cron p \<noteq> None \<or> (status = Job_Active \<and> sj_status existing \<noteq> Job_Active))
      in if status \<noteq> Job_Active \<or> \<not> recompute then sj_nextRunAt existing
         else computeNextCronRun (or_keep (jp_cron p) (sj_cron existing)) now)"

datatype 'a job_reply = Reply_Ok 'a | Bad_Cron | Job_Not_Found | Row_Error | Missing_Argument

text \<open>The route leaves the type of the request out.\<close>

definition post_schedule :: "string \<Rightarrow> int \<Rightarrow> job_input \<Rightarrow> scheduled_job list \<Rightarrow> scheduled_job list \<times> scheduled_job job_reply" where
  "post_schedule fresh now i t =
     (case createScheduledJobRecord fresh now (i\<lparr>ji_type := None\<rparr>) of
        None \<Rightarrow> (t, Bad_Cron)
      | Some job \<Rightarrow> (saveScheduledJob now job t, Reply_Ok job))"

definition patched :: "scheduled_job \<Rightarrow> job_patch \<Rightarrow> int option \<Rightarrow> int \<Rightarrow> scheduled_job" where
  "patched existing p nextRunAt now =
     existing\<lparr>sj_name := or_keep (jp_name p) (sj_name existing), sj_cron := or_keep (jp_cron p) (sj_cron existing),
       sj_prompt := or_keep (jp_prompt p) (sj_prompt existing),
       sj_channel := (case jp_channel p of Some c \<Rightarrow> Some c | None \<Rightarrow> sj_channel existing),
       sj_status := or_keep (jp_status p) (sj_status existing), sj_type := or_keep (jp_type p) (sj_type existing),
       sj_nextRunAt := nextRunAt, sj_updatedAt := now\<rparr>"

definition patch_schedule ::
  "string \<Rightarrow> string \<Rightarrow> job_patch \<Rightarrow> int \<Rightarrow> scheduled_job list \<Rightarrow> scheduled_job list \<times> scheduled_job job_reply" where
  "patch_schedule org jobId p now t =
     (case getScheduledJob t org jobId of
        None \<Rightarrow> (t, Row_Error)
      | Some None \<Rightarrow> (t, Job_Not_Found)
      | Some (Some existing) \<Rightarrow>
          let nextRunAt = resolveScheduledJobNextRunAt existing p now;
              activating = (or_keep (jp_status p) (sj_status existing) = Job_Active \<and> sj_status existing \<noteq> Job_Active)
          in if (jp_cron p \<noteq> None \<or> activating) \<and> nextRunAt = None then (t, Bad_Cron)
             else let updated = patched existing p nextRunAt now
                  in if rowToScheduledJob updated = None then (t, Row_Error)
                     else (saveScheduledJob now updated t, Reply_Ok updated))"

definition delete_schedule :: "string \<Rightarrow> string \<Rightarrow> scheduled_job list \<Rightarrow> scheduled_job list" where
  "delete_schedule org jobId t = deleteScheduledJob org jobId t"

text \<open>The tool of the agents.\<close>

definition defaultScheduleName :: "string \<Rightarrow> string" where
  "defaultScheduleName prompt = take 60 (trim prompt)"

record schedule_args =
  sa_name :: "string option"
  sa_cron :: "string option"
  sa_prompt :: "string option"
  sa_channel :: "string option"
  sa_job :: "string option"

definition tool_create ::
  "string \<Rightarrow> int \<Rightarrow> conv_db \<Rightarrow> string \<Rightarrow> string \<Rightarrow> string option \<Rightarrow> schedule_args \<Rightarrow> scheduled_job list \<Rightarrow>
   scheduled_job list \<times> scheduled_job job_reply" where
  "tool_create fresh now db org member threadId a t =
     (case (nonempty (sa_cron a), nonempty (sa_prompt a)) of
        (Some cron, Some prompt) \<Rightarrow>
          let threadChannelId = (case nonempty threadId of None \<Rightarrow> None | Some th \<Rightarrow> Option.bind (getThread db org th) th_channel);
              name = (case nonempty (map_option trim (sa_name a)) of Some n \<Rightarrow> n | None \<Rightarrow> defaultScheduleName prompt)
          in (case createScheduledJobRecord fresh now
                     \<lparr>ji_org = org, ji_member = member, ji_name = name, ji_cron = cron, ji_prompt = prompt,
                      ji_channel = (case sa_channel a of Some c \<Rightarrow> Some c | None \<Rightarrow> threadChannelId), ji_type = None\<rparr> of
                None \<Rightarrow> (t, Bad_Cron)
              | Some job \<Rightarrow> (saveScheduledJob now job t, Reply_Ok job))
      | _ \<Rightarrow> (t, Missing_Argument))"

definition tool_cancel :: "string \<Rightarrow> schedule_args \<Rightarrow> scheduled_job list \<Rightarrow> scheduled_job list \<times> scheduled_job option job_reply" where
  "tool_cancel org a t =
     (case nonempty (sa_job a) of
        None \<Rightarrow> (t, Missing_Argument)
      | Some jobId \<Rightarrow>
          (case getScheduledJob t org jobId of
             None \<Rightarrow> (t, Row_Error)
           | Some None \<Rightarrow> (t, Reply_Ok None)
           | Some (Some job) \<Rightarrow> (deleteScheduledJob org jobId t, Reply_Ok (Some job))))"

section \<open>Execution\<close>

record job_executed =
  je_org :: string
  je_name :: string
  je_channel :: "string option"
  je_prompt :: string
  je_type :: job_type
  je_rooms :: "string list"

text \<open>
  The handlers of the other kinds of job are options of the service; a result is the message of
  an error. \<open>se_text\<close> is the message of an error of the conversations, \<open>se_mark\<close> the sign before
  the title.
\<close>

record sched_env =
  se_heartbeat :: "(scheduled_job \<Rightarrow> string option) option"
  se_selfImprovement :: "(scheduled_job \<Rightarrow> string option) option"
  se_text :: "conv_error \<Rightarrow> string"
  se_mark :: string

definition executed_event :: "scheduled_job \<Rightarrow> job_executed" where
  "executed_event job =
     \<lparr>je_org = sj_org job, je_name = sj_name job, je_channel = sj_channel job, je_prompt = sj_prompt job,
      je_type = sj_type job,
      je_rooms = [orgRoom (sj_org job)] @ (case nonempty (sj_channel job) of Some c \<Rightarrow> [channelRoom c] | None \<Rightarrow> [])\<rparr>"

definition job_message :: "sched_env \<Rightarrow> scheduled_job \<Rightarrow> string \<Rightarrow> send_input" where
  "job_message env job channelId =
     \<lparr>si_org = sj_org job, si_thread = channelId, si_channel = Some channelId, si_sender = sj_member job,
      si_content = ''**'' @ se_mark env @ '' Scheduled: '' @ sj_name job @ ''**'' @ [CHR 0x0A, CHR 0x0A] @ sj_prompt job,
      si_mentions = [], si_parent = None, si_attachments = None, si_metadata = [], si_clientId = None\<rparr>"

definition joined :: "scheduled_job \<Rightarrow> channel \<Rightarrow> conv_state \<Rightarrow> conv_state" where
  "joined job channel st =
     (if (ch_kind channel = Ch_Self \<or> ch_kind channel = Ch_Dm) \<and> sj_member job \<notin> set (ch_memberIds channel)
      then with_db (setChannelMembers (sj_org job) (ch_id channel) (sort_cmp str_cmp (ch_memberIds channel @ [sj_member job]))) st
      else st)"

definition handled :: "(scheduled_job \<Rightarrow> string option) option \<Rightarrow> scheduled_job \<Rightarrow> string + unit" where
  "handled h job = (case Option.bind h (\<lambda>f. f job) of Some e \<Rightarrow> Inl e | None \<Rightarrow> Inr ())"

text \<open>The execution up to the event, which follows the end of it.\<close>

definition executeJob :: "sched_env \<Rightarrow> conv_env \<Rightarrow> scheduled_job \<Rightarrow> conv_state \<Rightarrow> conv_state \<times> (string + unit)" where
  "executeJob env ce job st =
     (case sj_type job of
        Jt_Heartbeat \<Rightarrow> (st, handled (se_heartbeat env) job)
      | Jt_Self_Improvement \<Rightarrow> (st, handled (se_selfImprovement env) job)
      | Jt_Schedule \<Rightarrow>
          (case nonempty (sj_channel job) of
             None \<Rightarrow> (st, Inr ())
           | Some c \<Rightarrow>
               (case db_getMember (cv_db st) (sj_org job) (sj_member job) of
                  None \<Rightarrow> (st, Inl (''Scheduler sender not found: '' @ sj_member job))
                | Some sender \<Rightarrow>
                    if cm_retired sender then (st, Inl (''Scheduler sender is retired: '' @ sj_member job))
                    else (case getChannel (cv_db st) (sj_org job) c of
                            None \<Rightarrow> (st, Inl (''Scheduler target channel not found: '' @ c))
                          | Some channel \<Rightarrow>
                              (case sendMessage ce (job_message env job c) (joined job channel st) of
                                 (st', Inr _) \<Rightarrow> (st', Inr ())
                               | (st', Inl e) \<Rightarrow> (st', Inl (se_text env e)))))))"

definition permanent_error :: "string \<Rightarrow> bool" where
  "permanent_error text =
     (includes_str text ''Scheduler sender not found'' \<or> includes_str text ''Scheduler sender is retired'' \<or>
      includes_str text ''Scheduler target channel not found'')"

section \<open>The tick\<close>

record sched_tick =
  tk_now :: int
  tk_due :: "scheduled_job list"
  tk_current :: "(scheduled_job \<times> (string + unit)) option"

record sched_state =
  sd_jobs :: "scheduled_job list"
  sd_conv :: conv_state
  sd_running :: bool
  sd_tick :: "sched_tick option"
  sd_events :: "job_executed list"
  sd_log :: "(int \<times> scheduled_job) list"

definition first_run :: "int \<Rightarrow> scheduled_job \<Rightarrow> scheduled_job list \<Rightarrow> scheduled_job list" where
  "first_run now job t =
     (case computeNextCronRun (sj_cron job) now of
        None \<Rightarrow> t
      | Some first \<Rightarrow> saveScheduledJob now (job\<lparr>sj_nextRunAt := Some first, sj_updatedAt := now\<rparr>) t)"

definition after_success :: "int \<Rightarrow> scheduled_job \<Rightarrow> scheduled_job" where
  "after_success now job =
     job\<lparr>sj_lastRunAt := Some now, sj_nextRunAt := computeNextCronRun (sj_cron job) now,
         sj_runCount := sj_runCount job + 1, sj_lastError := None, sj_updatedAt := now\<rparr>"

definition after_failure :: "int \<Rightarrow> string \<Rightarrow> scheduled_job \<Rightarrow> scheduled_job" where
  "after_failure now text job =
     job\<lparr>sj_status := (if permanent_error text then Job_Paused else sj_status job), sj_lastError := Some text,
         sj_nextRunAt := (case computeNextCronRun (sj_cron job) now of Some n \<Rightarrow> Some n | None \<Rightarrow> sj_nextRunAt job),
         sj_updatedAt := now\<rparr>"

definition settled_job :: "int \<Rightarrow> scheduled_job \<Rightarrow> string + unit \<Rightarrow> scheduled_job" where
  "settled_job now job r = (case r of Inr _ \<Rightarrow> after_success now job | Inl text \<Rightarrow> after_failure now text job)"

definition sched_start :: "sched_state \<Rightarrow> sched_state" where
  "sched_start s = s\<lparr>sd_running := True\<rparr>"

definition sched_stop :: "sched_state \<Rightarrow> sched_state" where
  "sched_stop s = s\<lparr>sd_running := False\<rparr>"

text \<open>An exception of the query is swallowed: the tick has no jobs.\<close>

definition tick_begin :: "int \<Rightarrow> sched_state \<Rightarrow> sched_state" where
  "tick_begin now s =
     (if \<not> sd_running s \<or> sd_tick s \<noteq> None then s
      else s\<lparr>sd_tick := Some \<lparr>tk_now = now,
               tk_due = (case listDueJobsGlobally (sd_jobs s) now of Some due \<Rightarrow> due | None \<Rightarrow> []), tk_current = None\<rparr>\<rparr>)"

definition tick_next :: "sched_env \<Rightarrow> conv_env \<Rightarrow> sched_state \<Rightarrow> sched_state" where
  "tick_next env ce s =
     (case sd_tick s of
        None \<Rightarrow> s
      | Some tk \<Rightarrow>
          if tk_current tk \<noteq> None then s
          else case tk_due tk of
            [] \<Rightarrow> s
          | job # rest \<Rightarrow>
              if \<not> sd_running s then s\<lparr>sd_tick := Some (tk\<lparr>tk_due := []\<rparr>)\<rparr>
              else if sj_nextRunAt job = None
                then s\<lparr>sd_jobs := first_run (tk_now tk) job (sd_jobs s), sd_tick := Some (tk\<lparr>tk_due := rest\<rparr>)\<rparr>
              else (case executeJob env ce job (sd_conv s) of
                      (conv, r) \<Rightarrow>
                        s\<lparr>sd_conv := conv, sd_log := sd_log s @ [(tk_now tk, job)],
                          sd_tick := Some (tk\<lparr>tk_due := rest, tk_current := Some (job, r)\<rparr>)\<rparr>))"

text \<open>\<open>saved\<close> is the time of the statement.\<close>

definition tick_settle :: "int \<Rightarrow> sched_state \<Rightarrow> sched_state" where
  "tick_settle saved s =
     (case sd_tick s of
        None \<Rightarrow> s
      | Some tk \<Rightarrow>
          (case tk_current tk of
             None \<Rightarrow> s
           | Some (job, r) \<Rightarrow>
               s\<lparr>sd_jobs := saveScheduledJob saved (settled_job (tk_now tk) job r) (sd_jobs s),
                 sd_events := sd_events s @ (case r of Inr _ \<Rightarrow> [executed_event job] | Inl _ \<Rightarrow> []),
                 sd_tick := Some (tk\<lparr>tk_current := None\<rparr>)\<rparr>))"

definition tick_end :: "sched_state \<Rightarrow> sched_state" where
  "tick_end s =
     (case sd_tick s of
        None \<Rightarrow> s
      | Some tk \<Rightarrow> if tk_due tk = [] \<and> tk_current tk = None then s\<lparr>sd_tick := None\<rparr> else s)"

section \<open>Steps\<close>

datatype sched_event =
    Scheduler_Start | Scheduler_Stop
  | Tick_Begin int | Tick_Next conv_env | Tick_Settle int | Tick_End
  | Post_Schedule string int job_input
  | Patch_Schedule string string job_patch int
  | Delete_Schedule string string
  | Tool_Create string int string string "string option" schedule_args
  | Tool_Cancel string schedule_args

fun sched_step :: "sched_env \<Rightarrow> sched_event \<Rightarrow> sched_state \<Rightarrow> sched_state" where
  "sched_step env Scheduler_Start s = sched_start s"
| "sched_step env Scheduler_Stop s = sched_stop s"
| "sched_step env (Tick_Begin now) s = tick_begin now s"
| "sched_step env (Tick_Next ce) s = tick_next env ce s"
| "sched_step env (Tick_Settle now) s = tick_settle now s"
| "sched_step env Tick_End s = tick_end s"
| "sched_step env (Post_Schedule fresh now i) s = s\<lparr>sd_jobs := fst (post_schedule fresh now i (sd_jobs s))\<rparr>"
| "sched_step env (Patch_Schedule org jobId p now) s = s\<lparr>sd_jobs := fst (patch_schedule org jobId p now (sd_jobs s))\<rparr>"
| "sched_step env (Delete_Schedule org jobId) s = s\<lparr>sd_jobs := delete_schedule org jobId (sd_jobs s)\<rparr>"
| "sched_step env (Tool_Create fresh now org member threadId a) s =
     s\<lparr>sd_jobs := fst (tool_create fresh now (cv_db (sd_conv s)) org member threadId a (sd_jobs s))\<rparr>"
| "sched_step env (Tool_Cancel org a) s = s\<lparr>sd_jobs := fst (tool_cancel org a (sd_jobs s))\<rparr>"

definition sched_run :: "sched_env \<Rightarrow> sched_event list \<Rightarrow> sched_state \<Rightarrow> sched_state" where
  "sched_run env es s = fold (sched_step env) es s"

text \<open>A tick that nothing comes between.\<close>

fun tick_jobs :: "sched_env \<Rightarrow> conv_env \<Rightarrow> nat \<Rightarrow> sched_state \<Rightarrow> sched_state" where
  "tick_jobs env ce 0 s = s"
| "tick_jobs env ce (Suc n) s =
     (case sd_tick s of
        None \<Rightarrow> s
      | Some tk \<Rightarrow> if tk_due tk = [] then s else tick_jobs env ce n (tick_settle (tk_now tk) (tick_next env ce s)))"

definition whole_tick :: "sched_env \<Rightarrow> conv_env \<Rightarrow> int \<Rightarrow> sched_state \<Rightarrow> sched_state" where
  "whole_tick env ce now s =
     (let s1 = tick_begin now s
      in tick_end (tick_jobs env ce (case sd_tick s1 of None \<Rightarrow> 0 | Some tk \<Rightarrow> length (tk_due tk)) s1))"

end
