(* ===== verification/SchedulerClaims.thy ===== *)
theory SchedulerClaims
  imports Scheduler MessagingClaims
begin

text \<open>
  What the scheduler guarantees: the next run is the first minute that fits, a run has a slot of
  its own, a tick leaves nothing due, and where the scheduler loses requests or stops altogether.
\<close>

section \<open>The next run\<close>

lemma next_run_iff:
  "computeNextCronRun expr after = Some t \<longleftrightarrow>
   (\<exists>fs u. cron_fields expr = Some fs \<and> t = u * 60000 \<and> minute_of after < u \<and> u \<le> minute_of after + int CRON_ATTEMPTS \<and>
      cron_fits fs u \<and> (\<forall>v. minute_of after < v \<and> v < u \<longrightarrow> \<not> cron_fits fs v))"
proof (cases "cron_fields expr")
  case (Some fs)
  have "computeNextCronRun expr after = Some t \<longleftrightarrow>
      (\<exists>u. t = u * 60000 \<and> search_minute CRON_ATTEMPTS (cron_fits fs) (minute_of after + 1) = Some u)"
    using Some by (auto simp: computeNextCronRun_def parseCronExpression_def)
  then show ?thesis unfolding search_Some using Some by (auto simp: add1_zle_eq)
qed (simp add: computeNextCronRun_def parseCronExpression_def)

lemma next_run_None:
  "computeNextCronRun expr after = None \<longleftrightarrow>
   (\<forall>fs v. cron_fields expr = Some fs \<longrightarrow> minute_of after < v \<longrightarrow> v \<le> minute_of after + int CRON_ATTEMPTS \<longrightarrow> \<not> cron_fits fs v)"
  by (auto simp: computeNextCronRun_def parseCronExpression_def search_None add1_zle_eq split: option.split)

text \<open>
  C34: The next run of a job is the first minute after the given time, within 525600 minutes, whose
  minute, hour, day, month and weekday all fit the expression; there is none exactly when the
  expression is malformed or none of these minutes fits.
\<close>
theorem next_cron_exact:
  "computeNextCronRun expr after = Some t \<longleftrightarrow>
   (\<exists>fs u. cron_fields expr = Some fs \<and> t = u * 60000 \<and> u \<in> {minute_of after <.. minute_of after + int CRON_ATTEMPTS} \<and>
      cron_fits fs u \<and> {v \<in> {minute_of after <..< u}. cron_fits fs v} = {})"
  unfolding next_run_iff by auto

lemma next_run_later: "computeNextCronRun expr after = Some t \<Longrightarrow> after < t"
proof -
  assume "computeNextCronRun expr after = Some t"
  then obtain u where "t = u * 60000" "minute_of after < u" by (auto simp: next_run_iff)
  then show ?thesis by (simp add: minute_of_def)
qed

text \<open>An expression of wildcards only: every minute.\<close>

lemma every_fits: "cron_fits (replicate 5 Any_Value) t"
  by (simp add: cron_fits_def Let_def field_fits_def eval_nat_numeral)

lemma every_minute:
  assumes "cron_fields expr = Some (replicate 5 Any_Value)"
  shows "computeNextCronRun expr after = Some ((minute_of after + 1) * 60000)"
proof -
  have "minute_of after + 1 \<le> minute_of after + int CRON_ATTEMPTS" by (simp add: CRON_ATTEMPTS_def)
  then show ?thesis
    using assms every_fits unfolding next_run_iff
    by (intro exI [of _ "replicate 5 Any_Value"] exI [of _ "minute_of after + 1"]) auto
qed

lemma every_fields: "cron_fields ''* * * * *'' = Some (replicate 5 Any_Value)"
  by code_simp

lemma spaced_fields: "cron_fields '' * * * * *'' = Some (replicate 5 Any_Value)"
  by code_simp

lemmas every_next = every_minute [OF every_fields] every_minute [OF spaced_fields]

text \<open>The 29th of February is no date for an expression when it is more than 365 days ahead.\<close>

lemma leap_fields: "cron_fields ''0 0 29 2 *'' = Some [One_Of [0], One_Of [0], One_Of [29], One_Of [2], Any_Value]" by code_simp

lemma feb29_day:
  assumes "0 \<le> day_of_year (t div 1440)" and "df_day (dateFields t) = 29" and "df_month (dateFields t) = 2"
  shows "day_of_year (t div 1440) = 365"
proof -
  define mp where "mp = (5 * day_of_year (t div 1440) + 2) div 153"
  have "0 \<le> mp" using assms(1) by (simp add: mp_def)
  with assms(3) have "mp = 11" by (auto simp: dateFields_def Let_def mp_def [symmetric] split: if_splits)
  with assms(2) show ?thesis by (simp add: dateFields_def Let_def mp_def [symmetric])
qed

lemma no_leap_day:
  assumes "20514 \<le> d" "d \<le> 20879"
  shows "0 \<le> day_of_year d" "day_of_year d \<noteq> 365"
proof -
  define doe where "doe = d - 11017"
  define y where "y = (doe - 6) div 365"
  have r: "9497 \<le> doe" "doe \<le> 9862" using assms by (simp_all add: doe_def)
  have e: "d + 719468 = doe + 5 * 146097" by (simp add: doe_def)
  have "doe mod 146097 = doe" using r by (intro mod_pos_pos_trivial) simp_all
  then have m: "(d + 719468) mod 146097 = doe" unfolding e mod_mult_self1 .
  have "doe div 1460 = 6" "doe div 36524 = 0" "doe div 146096 = 0" using r by linarith+
  then have eq: "day_of_year d = doe - (365 * y + y div 4 - y div 100)"
    by (simp add: day_of_year_def m Let_def y_def)
  have "y = 26 \<or> y = 27" "y = 27 \<Longrightarrow> 9861 \<le> doe" "y = 26 \<Longrightarrow> doe \<le> 9860" using r unfolding y_def by linarith+
  then show "0 \<le> day_of_year d" "day_of_year d \<noteq> 365" using r unfolding eq by auto
qed

lemma leap_day_rejected: "computeNextCronRun ''0 0 29 2 *'' (20514 * 86400000) = None"
  unfolding next_run_None
proof (intro allI impI notI)
  fix fs v
  assume fs: "cron_fields ''0 0 29 2 *'' = Some fs" and v: "minute_of (20514 * 86400000) < v"
    "v \<le> minute_of (20514 * 86400000) + int CRON_ATTEMPTS" and fits: "cron_fits fs v"
  have "fs = [One_Of [0], One_Of [0], One_Of [29], One_Of [2], Any_Value]" using fs leap_fields by simp
  with fits have d: "df_day (dateFields v) = 29" "df_month (dateFields v) = 2"
    by (simp_all add: cron_fits_def Let_def field_fits_def)
  from v have "20514 \<le> v div 1440" "v div 1440 \<le> 20879" by (simp_all add: minute_of_def CRON_ATTEMPTS_def)
  then show False using no_leap_day [of "v div 1440"] feb29_day [OF _ d] by blast
qed
section \<open>Saving\<close>

lemma saved_set:
  "set (saveScheduledJob now job t) =
   (if sj_id job \<in> sj_id ` set t
    then {r \<in> set t. sj_id r \<noteq> sj_id job} \<union> (\<lambda>old. overwrite_job old (job\<lparr>sj_updatedAt := now\<rparr>)) ` {r \<in> set t. sj_id r = sj_id job}
    else insert (job\<lparr>sj_updatedAt := now\<rparr>) (set t))"
  by (auto simp: saveScheduledJob_def tbl_upsert_def)

lemma overwrite_job_simps [simp]:
  "sj_id (overwrite_job old r) = sj_id r" "sj_name (overwrite_job old r) = sj_name r" "sj_cron (overwrite_job old r) = sj_cron r"
  "sj_prompt (overwrite_job old r) = sj_prompt r" "sj_status (overwrite_job old r) = sj_status r"
  "sj_nextRunAt (overwrite_job old r) = sj_nextRunAt r" "sj_lastRunAt (overwrite_job old r) = sj_lastRunAt r"
  by (simp_all add: overwrite_job_def)

text \<open>The contents of a job, without its owner and the time of its update.\<close>

definition same_job :: "scheduled_job \<Rightarrow> scheduled_job \<Rightarrow> bool" where
  "same_job r job = (sj_id r = sj_id job \<and> sj_name r = sj_name job \<and> sj_cron r = sj_cron job \<and> sj_prompt r = sj_prompt job \<and>
     sj_status r = sj_status job \<and> sj_lastRunAt r = sj_lastRunAt job \<and> sj_nextRunAt r = sj_nextRunAt job)"

lemma same_job_overwrite [simp]: "same_job (overwrite_job old r) job \<longleftrightarrow> same_job r job"
  by (simp add: same_job_def)

lemma same_job_dated [simp]: "same_job (job\<lparr>sj_updatedAt := now\<rparr>) job"
  by (simp add: same_job_def)

lemma saved_row: "\<exists>r \<in> set (saveScheduledJob now job t). same_job r job"
  unfolding saved_set by (cases "sj_id job \<in> sj_id ` set t") (auto intro!: bexI [OF _ UnI2] imageI)

lemma saved_rows:
  "r \<in> set (saveScheduledJob now job t) \<Longrightarrow> same_job r job \<or> (r \<in> set t \<and> sj_id r \<noteq> sj_id job)"
  unfolding saved_set by (cases "sj_id job \<in> sj_id ` set t") (auto intro: rev_image_eqI)

lemma row_same: "rowToScheduledJob r = Some j \<Longrightarrow> same_job j r"
  by (auto simp: rowToScheduledJob_def same_job_def split: if_splits)

lemma all_some_map [simp]: "all_some (map Some ys) = Some ys"
  by (induction ys) auto

lemma all_some_Some: "all_some xs = Some ys \<longleftrightarrow> xs = map Some ys"
proof
  show "all_some xs = Some ys \<Longrightarrow> xs = map Some ys"
    by (induction xs arbitrary: ys) (auto split: option.splits)
qed simp

lemma all_some_None: "all_some xs = None \<longleftrightarrow> None \<in> set xs"
  by (induction xs) (auto split: option.splits)

lemma due_jobs:
  assumes "listDueJobsGlobally t now = Some js"
  shows "j \<in> set js \<Longrightarrow> \<exists>r \<in> set t. is_due now r \<and> same_job j r"
    and "r \<in> set t \<Longrightarrow> is_due now r \<Longrightarrow> \<exists>j \<in> set js. same_job j r"
proof -
  from assms have eq: "map rowToScheduledJob (sort_cmp next_order (filter (is_due now) t)) = map Some js"
    by (simp add: listDueJobsGlobally_def all_some_Some)
  then have rows: "rowToScheduledJob ` {r \<in> set t. is_due now r} = Some ` set js"
    by (metis set_sort_cmp set_filter set_map)
  show "\<exists>r \<in> set t. is_due now r \<and> same_job j r" if "j \<in> set js"
  proof -
    from that rows have "Some j \<in> rowToScheduledJob ` {r \<in> set t. is_due now r}" by auto
    then show ?thesis using row_same by fastforce
  qed
  show "\<exists>j \<in> set js. same_job j r" if "r \<in> set t" "is_due now r"
  proof -
    from that rows have "rowToScheduledJob r \<in> Some ` set js" by blast
    then show ?thesis using row_same by fastforce
  qed
qed

lemma same_due: "same_job j r \<Longrightarrow> is_due now j \<longleftrightarrow> is_due now r"
  by (simp add: same_job_def is_due_def)

lemma settled_job_simps [simp]:
  "sj_id (settled_job now job r) = sj_id job" "sj_cron (settled_job now job r) = sj_cron job"
  "sj_name (settled_job now job r) = sj_name job" "sj_prompt (settled_job now job r) = sj_prompt job"
  by (simp_all add: settled_job_def after_success_def after_failure_def split: sum.split)

section \<open>Every run has a slot of its own\<close>

text \<open>The last run is not later than the clock and before the next one.\<close>

definition timed :: "int \<Rightarrow> scheduled_job \<Rightarrow> bool" where
  "timed at j \<longleftrightarrow> (\<forall>l. sj_lastRunAt j = Some l \<longrightarrow> l \<le> at \<and> (\<forall>n. sj_nextRunAt j = Some n \<longrightarrow> l < n))"

lemma timed_same: "same_job r j \<Longrightarrow> timed at j \<Longrightarrow> timed at r"
  by (simp add: timed_def same_job_def)

lemma timed_mono: "timed c j \<Longrightarrow> c \<le> d \<Longrightarrow> timed d j"
  by (auto simp: timed_def)

lemma timed_saved: "\<forall>r \<in> set t. timed c r \<Longrightarrow> timed c job \<Longrightarrow> r \<in> set (saveScheduledJob now job t) \<Longrightarrow> timed c r"
  using saved_rows timed_same by blast

lemma timed_later: "timed now job \<Longrightarrow> computeNextCronRun expr now = Some n \<Longrightarrow> timed now (job\<lparr>sj_nextRunAt := Some n, sj_updatedAt := u\<rparr>)"
  using next_run_later by (fastforce simp: timed_def)

lemma timed_settled: "timed now job \<Longrightarrow> timed now (settled_job now job r)"
  using next_run_later [of "sj_cron job" now]
  by (cases r; cases "computeNextCronRun (sj_cron job) now")
    (fastforce simp: timed_def settled_job_def after_success_def after_failure_def)+

definition run_ok :: "int \<times> scheduled_job \<Rightarrow> bool" where
  "run_ok x \<longleftrightarrow> (case x of (now, j) \<Rightarrow>
     sj_status j = Job_Active \<and> (\<exists>n. sj_nextRunAt j = Some n \<and> n \<le> now \<and> (\<forall>l. sj_lastRunAt j = Some l \<longrightarrow> l < n)))"

definition tick_ok :: "int \<Rightarrow> sched_tick \<Rightarrow> bool" where
  "tick_ok c tk \<longleftrightarrow> tk_now tk \<le> c \<and> (\<forall>j \<in> set (tk_due tk). timed (tk_now tk) j \<and> is_due (tk_now tk) j) \<and>
     (\<forall>j r. tk_current tk = Some (j, r) \<longrightarrow> timed (tk_now tk) j)"

definition sched_ok :: "int \<Rightarrow> sched_state \<Rightarrow> bool" where
  "sched_ok c s \<longleftrightarrow> (\<forall>r \<in> set (sd_jobs s). timed c r) \<and> (\<forall>tk. sd_tick s = Some tk \<longrightarrow> tick_ok c tk) \<and>
     (\<forall>x \<in> set (sd_log s). run_ok x)"

lemma sched_ok_later: "sched_ok c s \<Longrightarrow> c \<le> d \<Longrightarrow> sched_ok d s"
  unfolding sched_ok_def tick_ok_def by (meson timed_mono order_trans)

lemma run_ok_due: "timed now j \<Longrightarrow> is_due now j \<Longrightarrow> sj_nextRunAt j \<noteq> None \<Longrightarrow> run_ok (now, j)"
  by (auto simp: timed_def is_due_def run_ok_def)

lemma begin_ok: "sched_ok c s \<Longrightarrow> c \<le> now \<Longrightarrow> sched_ok now (tick_begin now s)"
proof -
  assume ok: "sched_ok c s" and le: "c \<le> now"
  have rows: "\<forall>r \<in> set (sd_jobs s). timed now r" using sched_ok_later [OF ok le] by (simp add: sched_ok_def)
  have "timed now j \<and> is_due now j" if "listDueJobsGlobally (sd_jobs s) now = Some js" "j \<in> set js" for js j
    using due_jobs(1) [OF that] rows same_due timed_same by metis
  then show ?thesis using sched_ok_later [OF ok le]
    by (cases "listDueJobsGlobally (sd_jobs s) now") (simp_all add: tick_begin_def sched_ok_def tick_ok_def)
qed

lemma first_run_ok:
  "\<forall>r \<in> set t. timed c r \<Longrightarrow> timed now j \<Longrightarrow> now \<le> c \<Longrightarrow> r \<in> set (first_run now j t) \<Longrightarrow> timed c r"
  by (auto simp: first_run_def split: option.splits intro: timed_saved [OF _ timed_mono [OF timed_later]])

lemma next_ok: "sched_ok c s \<Longrightarrow> sched_ok c (tick_next env ce s)"
  by (auto simp: tick_next_def sched_ok_def tick_ok_def Let_def split: option.splits list.splits prod.splits
      intro: first_run_ok run_ok_due)

lemma settle_ok: "sched_ok c s \<Longrightarrow> sched_ok c (tick_settle saved s)"
  by (auto simp: tick_settle_def sched_ok_def tick_ok_def split: option.splits prod.splits
      intro: timed_saved [OF _ timed_mono [OF timed_settled]])

lemma end_ok: "sched_ok c s \<Longrightarrow> sched_ok c (tick_end s)"
  by (auto simp: tick_end_def sched_ok_def split: option.splits)

fun event_time :: "sched_event \<Rightarrow> int option" where
  "event_time (Tick_Begin now) = Some now"
| "event_time (Tick_Settle now) = Some now"
| "event_time (Post_Schedule _ now _) = Some now"
| "event_time (Patch_Schedule _ _ _ now) = Some now"
| "event_time (Tool_Create _ now _ _ _ _) = Some now"
| "event_time _ = None"

text \<open>The clock does not go back.\<close>

fun timely :: "int \<Rightarrow> sched_event list \<Rightarrow> bool" where
  "timely c [] = True"
| "timely c (e # es) = (case event_time e of None \<Rightarrow> timely c es | Some now \<Rightarrow> c \<le> now \<and> timely now es)"

lemma created_timed: "createScheduledJobRecord fresh now i = Some job \<Longrightarrow> timed now job"
  by (auto simp: createScheduledJobRecord_def timed_def split: option.splits)

lemma got_job: "getScheduledJob t org i = Some (Some j) \<Longrightarrow> \<exists>r \<in> set t. same_job j r"
  by (auto simp: getScheduledJob_def find_Some_iff split: option.splits dest!: row_same) 

lemma patched_timed:
  assumes "timed now existing"
  shows "timed now (patched existing p (resolveScheduledJobNextRunAt existing p now) now)"
  using assms next_run_later [of _ now]
  by (fastforce simp: timed_def patched_def resolveScheduledJobNextRunAt_def Let_def)

lemma patch_ok: "\<forall>r \<in> set t. timed now r \<Longrightarrow> r \<in> set (fst (patch_schedule org i p now t)) \<Longrightarrow> timed now r"
  by (auto simp: patch_schedule_def Let_def split: option.splits if_splits
      dest!: got_job intro: timed_saved [OF _ patched_timed] timed_same)

lemma jobs_ok: "sched_ok c s \<Longrightarrow> (\<And>r. r \<in> set js \<Longrightarrow> timed c r) \<Longrightarrow> sched_ok c (s\<lparr>sd_jobs := js\<rparr>)"
  by (simp add: sched_ok_def)

lemma ok_jobs: "sched_ok c s \<Longrightarrow> r \<in> set (sd_jobs s) \<Longrightarrow> timed c r"
  by (simp add: sched_ok_def)

lemma post_ok: "\<forall>r \<in> set t. timed now r \<Longrightarrow> r \<in> set (fst (post_schedule fresh now i t)) \<Longrightarrow> timed now r"
  by (auto simp: post_schedule_def split: option.splits intro: timed_saved [OF _ created_timed])

lemma tool_create_ok:
  "\<forall>r \<in> set t. timed now r \<Longrightarrow> r \<in> set (fst (tool_create fresh now db org m th a t)) \<Longrightarrow> timed now r"
  by (auto simp: tool_create_def Let_def split: option.splits intro: timed_saved [OF _ created_timed])

lemma tool_cancel_rows: "set (fst (tool_cancel org a t)) \<subseteq> set t"
  by (auto simp: tool_cancel_def deleteScheduledJob_def tbl_delete_def split: option.splits)

lemma timeless_ok: "event_time e = None \<Longrightarrow> sched_ok c s \<Longrightarrow> sched_ok c (sched_step env e s)"
proof (cases e)
  case (Tool_Cancel org a)
  assume "sched_ok c s"
  then show ?thesis using Tool_Cancel tool_cancel_rows [of org a "sd_jobs s"] by (auto intro!: jobs_ok dest: ok_jobs)
qed (auto intro: next_ok end_ok intro!: jobs_ok dest: ok_jobs
      simp: sched_start_def sched_stop_def delete_schedule_def deleteScheduledJob_def tbl_delete_def, auto simp: sched_ok_def)

lemma timed_ok: "event_time e = Some now \<Longrightarrow> sched_ok now s \<Longrightarrow> sched_ok now (sched_step env e s)"
  by (cases e)
    (auto intro: begin_ok settle_ok intro!: jobs_ok dest: post_ok [rotated] patch_ok [rotated] tool_create_ok [rotated] ok_jobs)

lemma run_sched_ok: "sched_ok c s \<Longrightarrow> timely c es \<Longrightarrow> \<exists>d. sched_ok d (sched_run env es s)"
proof (induction es arbitrary: c s)
  case (Cons e es)
  show ?case
  proof (cases "event_time e")
    case None
    with Cons.prems have "sched_ok c (sched_step env e s)" "timely c es"
      using timeless_ok [OF None] by auto
    then show ?thesis using Cons.IH by (auto simp: sched_run_def)
  next
    case (Some now)
    with Cons.prems have "sched_ok now (sched_step env e s)" "timely now es"
      using timed_ok [OF Some] sched_ok_later by auto
    then show ?thesis using Cons.IH by (auto simp: sched_run_def)
  qed
qed (auto simp: sched_run_def)

definition sched_init :: "conv_state \<Rightarrow> sched_state" where
  "sched_init conv = \<lparr>sd_jobs = [], sd_conv = conv, sd_running = False, sd_tick = None, sd_events = [], sd_log = []\<rparr>"


section \<open>A tick leaves nothing due\<close>

text \<open>What remains for a tick: a due row is one of the jobs to come, or its expression has no next run.\<close>

definition covered :: "int \<Rightarrow> scheduled_job list \<Rightarrow> scheduled_job list \<Rightarrow> bool" where
  "covered now js t \<longleftrightarrow> (\<forall>r \<in> set t. is_due now r \<longrightarrow>
     computeNextCronRun (sj_cron r) now = None \<or> (\<exists>j \<in> set js. sj_id j = sj_id r \<and> sj_cron j = sj_cron r))"

lemma covered_save:
  assumes "covered now (job # js) t" and "sj_id new = sj_id job"
    and "is_due now new \<Longrightarrow> computeNextCronRun (sj_cron new) now = None"
  shows "covered now js (saveScheduledJob saved new t)"
  unfolding covered_def
proof (intro ballI impI)
  fix r assume r: "r \<in> set (saveScheduledJob saved new t)" "is_due now r"
  from saved_rows [OF r(1)] show "computeNextCronRun (sj_cron r) now = None \<or> (\<exists>j \<in> set js. sj_id j = sj_id r \<and> sj_cron j = sj_cron r)"
  proof
    assume same: "same_job r new"
    then have "computeNextCronRun (sj_cron new) now = None" using assms(3) r(2) same_due by blast
    with same show ?thesis by (simp add: same_job_def)
  next
    assume "r \<in> set t \<and> sj_id r \<noteq> sj_id new"
    with assms(1,2) r(2) show ?thesis unfolding covered_def by (metis set_ConsD)
  qed
qed

lemma covered_drop:
  "covered now (job # js) t \<Longrightarrow> computeNextCronRun (sj_cron job) now = None \<Longrightarrow> covered now js t"
  by (auto simp: covered_def)

lemma settled_job_due: "is_due now (settled_job now job r) \<Longrightarrow> computeNextCronRun (sj_cron job) now = None"
  using next_run_later [of "sj_cron job" now]
  by (cases r; cases "computeNextCronRun (sj_cron job) now")
    (auto simp: is_due_def settled_job_def after_success_def after_failure_def)

lemma covered_first: "covered now (job # js) t \<Longrightarrow> covered now js (first_run now job t)"
  using next_run_later [of "sj_cron job" now]
  by (cases "computeNextCronRun (sj_cron job) now")
    (auto simp: first_run_def is_due_def intro: covered_drop intro!: covered_save [of now job js t])

text \<open>One job of a tick, from its start to its end.\<close>

lemma one_job:
  fixes env :: sched_env and ce :: conv_env
  assumes "sd_tick s = Some \<lparr>tk_now = now, tk_due = job # js, tk_current = None\<rparr>" and "sd_running s"
    and "covered now (job # js) (sd_jobs s)"
  defines "s' \<equiv> tick_settle now (tick_next env ce s)"
  shows "sd_tick s' = Some \<lparr>tk_now = now, tk_due = js, tk_current = None\<rparr>" and "sd_running s'"
    and "covered now js (sd_jobs s')"
    and "sd_log s' = sd_log s @ (if sj_nextRunAt job = None then [] else [(now, job)])"
proof -
  have "sd_tick s' = Some \<lparr>tk_now = now, tk_due = js, tk_current = None\<rparr> \<and> sd_running s' \<and> covered now js (sd_jobs s') \<and>
        sd_log s' = sd_log s @ (if sj_nextRunAt job = None then [] else [(now, job)])"
  proof (cases "sj_nextRunAt job")
    case None
    then show ?thesis
      using assms(1-3) covered_first unfolding s'_def by (simp add: tick_next_def tick_settle_def)
  next
    case (Some n)
    obtain conv r where "executeJob env ce job (sd_conv s) = (conv, r)" by fastforce
    with Some show ?thesis
      using assms(1-3) covered_save [OF assms(3), of "settled_job now job r"] settled_job_due
      unfolding s'_def by (simp add: tick_next_def tick_settle_def)
  qed
  then show "sd_tick s' = Some \<lparr>tk_now = now, tk_due = js, tk_current = None\<rparr>" "sd_running s'"
    "covered now js (sd_jobs s')" "sd_log s' = sd_log s @ (if sj_nextRunAt job = None then [] else [(now, job)])"
    by blast+
qed

definition runnable_jobs :: "scheduled_job list \<Rightarrow> scheduled_job list" where
  "runnable_jobs js = filter (\<lambda>j. sj_nextRunAt j \<noteq> None) js"

lemma all_jobs:
  fixes env :: sched_env and ce :: conv_env
  assumes "sd_tick s = Some \<lparr>tk_now = now, tk_due = js, tk_current = None\<rparr>" and "sd_running s" and "covered now js (sd_jobs s)"
  defines "s' \<equiv> tick_jobs env ce (length js) s"
  shows "sd_tick s' = Some \<lparr>tk_now = now, tk_due = [], tk_current = None\<rparr> \<and> covered now [] (sd_jobs s') \<and>
    sd_log s' = sd_log s @ map (Pair now) (runnable_jobs js)"
  using assms(1-3) unfolding s'_def
proof (induction js arbitrary: s)
  case (Cons job js)
  note one = one_job [OF Cons.prems, of env ce]
  show ?case using Cons.IH [OF one(1-3)] one(4) Cons.prems(1) by (simp add: runnable_jobs_def)
qed (simp add: runnable_jobs_def)


section \<open>Requests lost\<close>

fun is_request :: "sched_event \<Rightarrow> bool" where
  "is_request (Post_Schedule _ _ _) = True"
| "is_request (Patch_Schedule _ _ _ _) = True"
| "is_request (Delete_Schedule _ _) = True"
| "is_request (Tool_Create _ _ _ _ _ _) = True"
| "is_request (Tool_Cancel _ _) = True"
| "is_request _ = False"

lemma requests_keep_tick: "list_all is_request es \<Longrightarrow> sd_tick (sched_run env es s) = sd_tick s"
proof (induction es arbitrary: s)
  case (Cons e es)
  then show ?case by (cases e) (simp_all add: sched_run_def)
qed (simp add: sched_run_def)

text \<open>
  Whatever is requested while a job runs - a new prompt, a pause, a deletion -, the end of the
  run writes the job back as it was when the tick began, with its old name, expression, prompt
  and status: the requests have no effect, and a deleted job exists again.
\<close>
theorem requests_during_run_lost:
  assumes "sd_tick s = Some tk" and "tk_current tk = Some (job, r)" and "list_all is_request es"
  shows "\<exists>j \<in> set (sd_jobs (sched_step env (Tick_Settle saved) (sched_run env es s))).
    same_job j (settled_job (tk_now tk) job r)"
  using assms requests_keep_tick [OF assms(3), of env s] saved_row by (simp add: tick_settle_def)

section \<open>One row stops the scheduler\<close>

lemma due_later: "is_due now r \<Longrightarrow> now \<le> later \<Longrightarrow> is_due later r"
  by (auto simp: is_due_def split: option.splits)

text \<open>
  A due row that the schema of the table refuses stops every job of every organization, from
  then on: the query of the tick fails, and the tick ends without a run or a change. In the
  witness one call of the agents' tool, with a space before the expression, makes such a row.
\<close>
theorem refused_row_stops_all:
  assumes "sd_tick s = None" and "row \<in> set (sd_jobs s)" and "is_due now row" and "rowToScheduledJob row = None"
    and "now \<le> later"
  shows "whole_tick env ce later s = s"
proof -
  from assms(2-5) have "None \<in> set (map rowToScheduledJob (sort_cmp next_order (filter (is_due later) (sd_jobs s))))"
    using due_later by (auto simp: image_iff)
  then have "listDueJobsGlobally (sd_jobs s) later = None"
    by (simp add: listDueJobsGlobally_def all_some_None)
  with assms(1) show ?thesis by (simp add: whole_tick_def tick_begin_def tick_end_def)
qed

section \<open>Private channels\<close>

lemma joined_member:
  "m \<in> set ms \<Longrightarrow> m \<in> set (listChannelMemberIds (setChannelMembers org ch ms db) org ch)"
proof -
  assume m: "m \<in> set ms"
  have "db_channel_members (fold (\<lambda>t. replaceThreadMemberLinks t ms) ts d) = db_channel_members d" for ts d
    by (induction ts arbitrary: d) (simp_all add: replaceThreadMemberLinks_def)
  then have "(org, ch, m) \<in> set (db_channel_members (setChannelMembers org ch ms db))"
    using m by (simp add: setChannelMembers_def Let_def replaceChannelMemberLinks_def sorted_ids_def)
  then show ?thesis
    by (force simp: listChannelMemberIds_def listChannelMemberIdsForChannelIds_def sorted_ids_def)
qed

lemma joined_channel:
  assumes "getChannel db org c = Some ch"
  shows "getChannel (setChannelMembers org c ms db) org c = Some (ch\<lparr>ch_memberIds := listChannelMemberIds (setChannelMembers org c ms db) org c\<rparr>)"
  using assms by (cases "tbl_find channel_key (org, c) (db_channels db)") (auto simp: getChannel_def channel_row.extend_def)

text \<open>
  A job for the direct messages or the notes of others makes its member a member of them: an
  active member that may not write in the private channel before the run may when the run has
  joined it, which is the state in which the run sends its message. Nothing else is asked of the
  job.
\<close>
theorem schedule_enters_private_channel:
  assumes "sj_type job = Jt_Schedule" and "nonempty (sj_channel job) = Some c"
    and "db_getMember (cv_db st) (sj_org job) (sj_member job) = Some x" and "\<not> cm_retired x"
    and "getChannel (cv_db st) (sj_org job) c = Some ch" and "ch_kind ch = Ch_Dm \<or> ch_kind ch = Ch_Self"
    and "ch_archivedAt ch = None" and "sj_member job \<notin> set (ch_memberIds ch)"
  shows "requireWritableChannel (cv_db st) (sj_org job) c (sj_member job) = Inl (Channel_Not_Found c) \<and>
    fst (executeJob env ce job st) = fst (sendMessage ce (job_message env job c) (joined job ch st)) \<and>
    (\<forall>e. requireWritableChannel (cv_db (joined job ch st)) (sj_org job) c (sj_member job) \<noteq> Inl e)"
proof (intro conjI allI)
  have key: "ch_org ch = sj_org job" "ch_id ch = c" using assms(5) by (auto simp: getChannel_def channel_key_def channel_row.extend_def dest!: tbl_find_Some)
  show "requireWritableChannel (cv_db st) (sj_org job) c (sj_member job) = Inl (Channel_Not_Found c)"
    using assms key by (auto simp: requireWritableChannel_def requireReadableChannel_def requireActiveChannel_def canMemberAccessChannel_def)
  show "fst (executeJob env ce job st) = fst (sendMessage ce (job_message env job c) (joined job ch st))"
    using assms by (simp add: executeJob_def split: prod.split sum.split)
  let ?db = "setChannelMembers (sj_org job) c (sort_cmp str_cmp (ch_memberIds ch @ [sj_member job])) (cv_db st)"
  have "same_people (cv_db st) ?db" using quiet_setChannelMembers by (simp add: quiet_db_def)
  then have "db_getMember ?db = db_getMember (cv_db st)" by (rule same_people_simps)
  moreover have "cv_db (joined job ch st) = ?db" using assms key by (auto simp: joined_def with_db_def)
  ultimately show "requireWritableChannel (cv_db (joined job ch st)) (sj_org job) c (sj_member job) \<noteq> Inl e" for e
    using assms joined_member [of "sj_member job" "sort_cmp str_cmp (ch_memberIds ch @ [sj_member job])"] key
    by (simp add: requireWritableChannel_def requireReadableChannel_def requireActiveChannel_def canMemberAccessChannel_def
        joined_channel [OF assms(5)])
qed

section \<open>Witnesses\<close>

definition demo_job_input :: job_input where
  "demo_job_input = \<lparr>ji_org = ''o'', ji_member = ''m'', ji_name = ''n'', ji_cron = ''* * * * *'', ji_prompt = ''p'', ji_channel = None, ji_type = None\<rparr>"

definition demo_job :: scheduled_job where
  "demo_job = \<lparr>sj_id = ''j'', sj_org = ''o'', sj_name = ''n'', sj_cron = ''* * * * *'', sj_prompt = ''p'', sj_channel = None,
     sj_member = ''m'', sj_status = Job_Active, sj_type = Jt_Schedule, sj_lastRunAt = None, sj_nextRunAt = Some 60000,
     sj_runCount = 0, sj_lastError = None, sj_createdAt = 0, sj_updatedAt = 0\<rparr>"

lemma demo_created: "createScheduledJobRecord ''j'' 0 (demo_job_input\<lparr>ji_type := None\<rparr>) = Some demo_job"
  by (simp add: createScheduledJobRecord_def demo_job_input_def demo_job_def every_next minute_of_def)

lemma demo_saved: "saveScheduledJob 0 demo_job [] = [demo_job]"
  by (simp add: saveScheduledJob_def tbl_upsert_def demo_job_def)

lemma demo_shape: "cron_shape ''* * * * *''" "\<not> cron_shape '' * * * * *''" 
  by code_simp+

lemma demo_due: "listDueJobsGlobally [demo_job] 60000 = Some [demo_job]"
  by (simp add: listDueJobsGlobally_def demo_job_def is_due_def rowToScheduledJob_def demo_shape nonempty_def)

definition demo_history :: "conv_env \<Rightarrow> sched_event list" where
  "demo_history ce = [Scheduler_Start, Post_Schedule ''j'' 0 demo_job_input, Tick_Begin 60000, Tick_Next ce]"

lemma demo_runs: "sd_log (sched_run env (demo_history ce) (sched_init conv)) = [(60000, demo_job)]"
proof -
  have "executeJob env ce demo_job conv = (conv, Inr ())" by (simp add: executeJob_def demo_job_def nonempty_def)
  moreover have "sj_nextRunAt demo_job \<noteq> None" by (simp add: demo_job_def)
  ultimately show ?thesis
    by (simp add: sched_run_def demo_history_def sched_init_def sched_start_def post_schedule_def demo_created demo_saved
        tick_begin_def tick_next_def demo_due)
qed


definition demo_sched :: "scheduled_job list \<Rightarrow> conv_state \<Rightarrow> sched_state" where
  "demo_sched js conv = \<lparr>sd_jobs = js, sd_conv = conv, sd_running = True, sd_tick = None, sd_events = [], sd_log = []\<rparr>"


theorem requests_during_run_lost_witness:
  "\<forall>env conv. \<exists>j \<in> set (sd_jobs (sched_step env (Tick_Settle 60001)
      (sched_run env [Delete_Schedule ''o'' ''j'']
        (demo_sched [demo_job] conv\<lparr>sd_tick := Some \<lparr>tk_now = 60000, tk_due = [], tk_current = Some (demo_job, Inr ())\<rparr>\<rparr>)))).
     same_job j (settled_job 60000 demo_job (Inr ()))"
  using requests_during_run_lost
    [of "demo_sched [demo_job] conv\<lparr>sd_tick := Some \<lparr>tk_now = 60000, tk_due = [], tk_current = Some (demo_job, Inr ())\<rparr>\<rparr>"
      "\<lparr>tk_now = 60000, tk_due = [], tk_current = Some (demo_job, Inr ())\<rparr>" demo_job "Inr ()" "[Delete_Schedule ''o'' ''j'']" for conv]
  by simp

definition demo_args :: schedule_args where
  "demo_args = \<lparr>sa_name = None, sa_cron = Some '' * * * * *'', sa_prompt = Some ''p'', sa_channel = None, sa_job = None\<rparr>"

definition demo_row :: scheduled_job where
  "demo_row = demo_job\<lparr>sj_name := ''p'', sj_cron := '' * * * * *''\<rparr>"

lemma demo_tool: "tool_create ''j'' 0 db ''o'' ''m'' None demo_args [] = ([demo_row], Reply_Ok demo_row)"
  by (simp add: tool_create_def demo_args_def demo_row_def demo_job_def nonempty_def defaultScheduleName_def Let_def
      createScheduledJobRecord_def every_next minute_of_def saveScheduledJob_def tbl_upsert_def) (code_simp)

theorem refused_row_stops_all_witness:
  "\<forall>env ce conv. let s = sched_run env [Scheduler_Start, Tool_Create ''j'' 0 ''o'' ''m'' None demo_args] (sched_init conv)
     in sd_jobs s = [demo_row] \<and> whole_tick env ce 120000 s = s"
proof (intro allI)
  fix env :: sched_env and ce :: conv_env and conv :: conv_state
  let ?s = "sched_run env [Scheduler_Start, Tool_Create ''j'' 0 ''o'' ''m'' None demo_args] (sched_init conv)"
  have s: "sd_jobs ?s = [demo_row]" "sd_tick ?s = None" by (simp_all add: sched_run_def sched_init_def sched_start_def demo_tool)
  have r: "demo_row \<in> set (sd_jobs ?s)" "is_due 60000 demo_row" "rowToScheduledJob demo_row = None" "60000 \<le> (120000 :: int)"
    using s by (simp_all add: is_due_def demo_row_def demo_job_def rowToScheduledJob_def demo_shape)
  from s(1) refused_row_stops_all [OF s(2) r, of env ce]
  show "let s = ?s in sd_jobs s = [demo_row] \<and> whole_tick env ce 120000 s = s" by (simp add: Let_def)
qed

definition private_conv :: conv_state where
  "private_conv =
     office\<lparr>cv_db := \<lparr>db_orgs = [''o''],
        db_members = [\<lparr>cm_id = ''m'', cm_org = ''o'', cm_name = ''Eve'', cm_kind = Agent, cm_retired = False\<rparr>],
        db_channels = [\<lparr>ch_id = ''d'', ch_org = ''o'', ch_name = ''d'', ch_kind = Ch_Dm, ch_topic = [], ch_parent = None,
          ch_createdAt = 0, ch_archivedAt = None\<rparr>],
        db_channel_members = [(''o'', ''d'', ''a''), (''o'', ''d'', ''b'')], db_modes = [], db_threads = [], db_thread_members = [],
        db_messages = [], db_mentions = [], db_attachments = [], db_links = []\<rparr>\<rparr>"

definition private_channel :: channel where
  "private_channel = \<lparr>ch_id = ''d'', ch_org = ''o'', ch_name = ''d'', ch_kind = Ch_Dm, ch_topic = [], ch_parent = None,
     ch_createdAt = 0, ch_archivedAt = None, ch_memberIds = [''a'', ''b'']\<rparr>"

lemma private_get: "getChannel (cv_db private_conv) ''o'' ''d'' = Some private_channel"
  by code_simp

theorem schedule_enters_private_channel_witness:
  "requireWritableChannel (cv_db private_conv) ''o'' ''d'' ''m'' = Inl (Channel_Not_Found ''d'') \<and>
   (\<forall>e. requireWritableChannel (cv_db (joined (demo_job\<lparr>sj_channel := Some ''d''\<rparr>) private_channel private_conv)) ''o'' ''d'' ''m'' \<noteq> Inl e)"
proof -
  let ?j = "demo_job\<lparr>sj_channel := Some ''d''\<rparr>"
  have h: "sj_type ?j = Jt_Schedule" "nonempty (sj_channel ?j) = Some ''d''"
    "db_getMember (cv_db private_conv) (sj_org ?j) (sj_member ?j) =
       Some \<lparr>cm_id = ''m'', cm_org = ''o'', cm_name = ''Eve'', cm_kind = Agent, cm_retired = False\<rparr>"
    "\<not> cm_retired \<lparr>cm_id = ''m'', cm_org = ''o'', cm_name = ''Eve'', cm_kind = Agent, cm_retired = False\<rparr>"
    "getChannel (cv_db private_conv) (sj_org ?j) ''d'' = Some private_channel"
    "ch_kind private_channel = Ch_Dm \<or> ch_kind private_channel = Ch_Self" "ch_archivedAt private_channel = None"
    "sj_member ?j \<notin> set (ch_memberIds private_channel)"
    using private_get
    by (simp_all add: demo_job_def nonempty_def db_getMember_def private_conv_def member_key_def private_channel_def)
  have o: "sj_org ?j = ''o''" "sj_member ?j = ''m''" by (simp_all add: demo_job_def)
  show ?thesis using schedule_enters_private_channel [OF h] unfolding o by blast
qed

end
