(* ===== verification/Auth.thy ===== *)
theory Auth
  imports Mentions SqlTable JsonText
begin

text \<open>
  Accounts and sessions (\<open>services/auth.ts\<close>, \<open>repositories/auth.ts\<close>, and what
  \<open>workspace-org-provision.ts\<close>, \<open>organization.ts\<close>, \<open>workspace.ts\<close> and the onboarding route do to
  them). The hash functions, the random source, fresh ids and the e-mail test of the schema are
  those of libraries and are given by the environment; times are milliseconds.
\<close>

section \<open>Rows\<close>

record auth_user =
  ur_id :: string
  ur_org :: string
  ur_member :: string
  ur_email :: string
  ur_createdAt :: "int option"

record stored_user = auth_user +
  ur_emailNormalized :: string
  ur_passwordHash :: string

record auth_session =
  sn_id :: string
  sn_user :: string
  sn_org :: string
  sn_member :: string
  sn_createdAt :: int
  sn_expiresAt :: int
  sn_lastSeenAt :: int
  sn_revokedAt :: "int option"

record stored_session = auth_session +
  sn_tokenHash :: string

record org_row =
  og_id :: string
  og_updatedAt :: int

record auth_env =
  ev_scrypt :: "string \<Rightarrow> string \<Rightarrow> nat \<Rightarrow> nat list"
  ev_sha256 :: "string \<Rightarrow> string"
  ev_random :: "nat \<Rightarrow> nat \<Rightarrow> nat list"
  ev_uuid :: "nat \<Rightarrow> string"
  ev_emailOk :: "string \<Rightarrow> bool"

record auth_state =
  ad_orgs :: "org_row list"
  ad_members :: "conv_member list"
  ad_users :: "stored_user list"
  ad_sessions :: "stored_session list"
  ad_now :: int
  ad_drawn :: nat

section \<open>Statements\<close>

definition same_account :: "stored_user \<Rightarrow> stored_user \<Rightarrow> bool" where
  "same_account a b =
     (ur_org a = ur_org b \<and> (ur_member a = ur_member b \<or> ur_emailNormalized a = ur_emailNormalized b))"

definition overwrite_user :: "stored_user \<Rightarrow> stored_user \<Rightarrow> stored_user" where
  "overwrite_user old new = new\<lparr>ur_org := ur_org old, ur_createdAt := ur_createdAt old\<rparr>"

text \<open>The two unique constraints of the table are exceptions.\<close>

definition saveAuthUser :: "int \<Rightarrow> stored_user \<Rightarrow> stored_user list \<Rightarrow> stored_user list option" where
  "saveAuthUser timestamp u t =
     (let row = u\<lparr>ur_createdAt := Some (case ur_createdAt u of Some c \<Rightarrow> c | None \<Rightarrow> timestamp)\<rparr>;
          written = (case find (\<lambda>x. ur_id x = ur_id u) t of Some old \<Rightarrow> overwrite_user old row | None \<Rightarrow> row)
      in if list_ex (\<lambda>x. ur_id x \<noteq> ur_id u \<and> same_account x written) t then None
         else Some (tbl_upsert ur_id overwrite_user row t))"

definition getAuthUserById :: "stored_user list \<Rightarrow> string \<Rightarrow> stored_user option" where
  "getAuthUserById t i = find (\<lambda>u. ur_id u = i) t"

definition getAuthUserByMember :: "stored_user list \<Rightarrow> string \<Rightarrow> string \<Rightarrow> stored_user option" where
  "getAuthUserByMember t org m = find (\<lambda>u. ur_org u = org \<and> ur_member u = m) t"

definition getAuthUserCredentials :: "stored_user list \<Rightarrow> string \<Rightarrow> string \<Rightarrow> stored_user option" where
  "getAuthUserCredentials t org email = find (\<lambda>u. ur_org u = org \<and> ur_emailNormalized u = email) t"

definition user_age :: "stored_user \<Rightarrow> int" where
  "user_age u = (case ur_createdAt u of Some c \<Rightarrow> c | None \<Rightarrow> 0)"

definition findAuthUsersByEmail :: "stored_user list \<Rightarrow> string \<Rightarrow> stored_user list" where
  "findAuthUsersByEmail t email = sort_cmp (by_int user_age) (filter (\<lambda>u. ur_emailNormalized u = email) t)"

definition overwrite_session :: "stored_session \<Rightarrow> stored_session \<Rightarrow> stored_session" where
  "overwrite_session old new =
     old\<lparr>sn_expiresAt := sn_expiresAt new, sn_lastSeenAt := sn_lastSeenAt new, sn_revokedAt := sn_revokedAt new\<rparr>"

definition saveAuthSession :: "stored_session \<Rightarrow> stored_session list \<Rightarrow> stored_session list option" where
  "saveAuthSession x t =
     (if list_ex (\<lambda>y. sn_id y \<noteq> sn_id x \<and> sn_tokenHash y = sn_tokenHash x) t then None
      else Some (tbl_upsert sn_id overwrite_session x t))"

definition getAuthSessionByTokenHash :: "stored_session list \<Rightarrow> string \<Rightarrow> stored_session option" where
  "getAuthSessionByTokenHash t h = find (\<lambda>x. sn_tokenHash x = h) t"

definition revokeAuthSession :: "int \<Rightarrow> string \<Rightarrow> stored_session list \<Rightarrow> stored_session list" where
  "revokeAuthSession at i = tbl_update (\<lambda>x. sn_id x = i) (\<lambda>x. x\<lparr>sn_revokedAt := Some at, sn_lastSeenAt := at\<rparr>)"

definition touchAuthSession :: "int \<Rightarrow> string \<Rightarrow> stored_session list \<Rightarrow> stored_session list" where
  "touchAuthSession at i = tbl_update (\<lambda>x. sn_id x = i) (\<lambda>x. x\<lparr>sn_lastSeenAt := at\<rparr>)"

definition getMember :: "conv_member list \<Rightarrow> string \<Rightarrow> string \<Rightarrow> conv_member option" where
  "getMember t org m = find (\<lambda>x. cm_org x = org \<and> cm_id x = m) t"

definition listOrganizationsForUser :: "org_row list \<Rightarrow> stored_user list \<Rightarrow> string \<Rightarrow> string list" where
  "listOrganizationsForUser orgs users email =
     map og_id (sort_cmp (by_int_desc og_updatedAt)
       (concat (map (\<lambda>g. map (\<lambda>_. g) (filter (\<lambda>u. ur_org u = og_id g \<and> ur_emailNormalized u = email) users)) orgs)))"

definition organizationHasAuthUsers :: "stored_user list \<Rightarrow> string \<Rightarrow> bool" where
  "organizationHasAuthUsers users org = list_ex (\<lambda>u. ur_org u = org) users"

text \<open>Of the rows of an organization, those that concern accounts.\<close>

definition deleteOrganizationData :: "string \<Rightarrow> auth_state \<Rightarrow> auth_state" where
  "deleteOrganizationData org s =
     s\<lparr>ad_sessions := tbl_delete (\<lambda>x. sn_org x = org) (ad_sessions s), ad_users := tbl_delete (\<lambda>u. ur_org u = org) (ad_users s),
       ad_members := tbl_delete (\<lambda>m. cm_org m = org) (ad_members s), ad_orgs := tbl_delete (\<lambda>g. og_id g = org) (ad_orgs s)\<rparr>"

section \<open>Passwords and tokens\<close>

definition normalizeEmail :: "string \<Rightarrow> string" where
  "normalizeEmail email = to_lower (trim email)"

definition to_hex :: "nat list \<Rightarrow> string" where
  "to_hex bs = concat (map (\<lambda>b. [hex_digit (b div 16), hex_digit (b mod 16)]) bs)"

text \<open>\<open>Buffer.from(text, 'hex')\<close> reads pairs of digits up to the first that is none.\<close>

fun from_hex :: "string \<Rightarrow> nat list" where
  "from_hex (a # b # cs) =
     (case (hex_val a, hex_val b) of (Some x, Some y) \<Rightarrow> (16 * x + y) # from_hex cs | _ \<Rightarrow> [])"
| "from_hex _ = []"

definition PASSWORD_HASH_PREFIX :: string where "PASSWORD_HASH_PREFIX = ''scrypt''"
definition PASSWORD_KEYLEN :: nat where "PASSWORD_KEYLEN = 64"
definition SESSION_TTL_MS :: int where "SESSION_TTL_MS = 1000 * 60 * 60 * 24 * 30"

definition draw_bytes :: "auth_env \<Rightarrow> nat \<Rightarrow> auth_state \<Rightarrow> nat list \<times> auth_state" where
  "draw_bytes env n s = (ev_random env (ad_drawn s) n, s\<lparr>ad_drawn := Suc (ad_drawn s)\<rparr>)"

definition draw_uuid :: "auth_env \<Rightarrow> auth_state \<Rightarrow> string \<times> auth_state" where
  "draw_uuid env s = (ev_uuid env (ad_drawn s), s\<lparr>ad_drawn := Suc (ad_drawn s)\<rparr>)"

definition hash_with :: "auth_env \<Rightarrow> string \<Rightarrow> string \<Rightarrow> string" where
  "hash_with env salt password =
     PASSWORD_HASH_PREFIX @ ''$'' @ salt @ ''$'' @ to_hex (ev_scrypt env password salt PASSWORD_KEYLEN)"

definition hashPassword :: "auth_env \<Rightarrow> string \<Rightarrow> auth_state \<Rightarrow> string \<times> auth_state" where
  "hashPassword env password s =
     (case draw_bytes env 16 s of (bs, s') \<Rightarrow> (hash_with env (to_hex bs) password, s'))"

definition verifyPassword :: "auth_env \<Rightarrow> string \<Rightarrow> string \<Rightarrow> bool" where
  "verifyPassword env password storedHash =
     (case split_char (CHR ''$'') storedHash of
        scheme # salt # expectedHex # _ \<Rightarrow>
          if scheme \<noteq> PASSWORD_HASH_PREFIX \<or> salt = [] \<or> expectedHex = [] then False
          else (let expected = from_hex expectedHex in ev_scrypt env password salt (length expected) = expected)
      | _ \<Rightarrow> False)"

section \<open>The service\<close>

datatype auth_error =
    Owner_Not_Found | Not_Human | Has_Credentials | Email_Required | Email_Taken | Schema_Error | Row_Conflict
  | Invalid_Login | Many_Organizations | Member_Gone | Session_Required | No_Access | Cannot_Delete_Current
  | Onboarding_Done | Not_Grantable

record issued =
  is_user :: stored_user
  is_member :: conv_member
  is_session :: stored_session
  is_token :: string

type_synonym 'a auth_result = "auth_state \<times> (auth_error + 'a)"

definition issueSession :: "auth_env \<Rightarrow> stored_user \<Rightarrow> conv_member \<Rightarrow> auth_state \<Rightarrow> issued auth_result" where
  "issueSession env user member s =
     (case draw_bytes env 32 s of (bs, s1) \<Rightarrow>
      case draw_uuid env s1 of (i, s2) \<Rightarrow>
        (let token = to_hex bs;
             x = \<lparr>sn_id = i, sn_user = ur_id user, sn_org = ur_org user, sn_member = ur_member user, sn_createdAt = ad_now s,
                  sn_expiresAt = ad_now s + SESSION_TTL_MS, sn_lastSeenAt = ad_now s, sn_revokedAt = None,
                  sn_tokenHash = ev_sha256 env token\<rparr>
         in case saveAuthSession x (ad_sessions s2) of
              None \<Rightarrow> (s2, Inl Row_Conflict)
            | Some t \<Rightarrow> (s2\<lparr>ad_sessions := t\<rparr>, Inr \<lparr>is_user = user, is_member = member, is_session = x, is_token = token\<rparr>)))"

record owner_input =
  oi_org :: string
  oi_member :: string
  oi_email :: string
  oi_password :: string

definition register_refused :: "auth_env \<Rightarrow> owner_input \<Rightarrow> auth_state \<Rightarrow> auth_error option" where
  "register_refused env i s =
     (case getMember (ad_members s) (oi_org i) (oi_member i) of
        None \<Rightarrow> Some Owner_Not_Found
      | Some m \<Rightarrow>
          if cm_kind m \<noteq> Human then Some Not_Human
          else if getAuthUserByMember (ad_users s) (oi_org i) (oi_member i) \<noteq> None then Some Has_Credentials
          else if normalizeEmail (oi_email i) = [] then Some Email_Required
          else if getAuthUserCredentials (ad_users s) (oi_org i) (normalizeEmail (oi_email i)) \<noteq> None then Some Email_Taken
          else if \<not> ev_emailOk env (trim (oi_email i)) then Some Schema_Error
          else None)"

definition registerOwnerAccount :: "auth_env \<Rightarrow> owner_input \<Rightarrow> auth_state \<Rightarrow> issued auth_result" where
  "registerOwnerAccount env i s =
     (case register_refused env i s of
        Some e \<Rightarrow> (s, Inl e)
      | None \<Rightarrow>
          (case draw_uuid env s of (uid, s1) \<Rightarrow>
           case hashPassword env (oi_password i) s1 of (h, s2) \<Rightarrow>
             (let u = \<lparr>ur_id = uid, ur_org = oi_org i, ur_member = oi_member i, ur_email = trim (oi_email i),
                       ur_createdAt = Some (ad_now s), ur_emailNormalized = normalizeEmail (oi_email i), ur_passwordHash = h\<rparr>
              in case saveAuthUser (ad_now s) u (ad_users s2) of
                   None \<Rightarrow> (s2, Inl Row_Conflict)
                 | Some t \<Rightarrow>
                     (case getMember (ad_members s) (oi_org i) (oi_member i) of
                        None \<Rightarrow> (s2, Inl Owner_Not_Found)
                      | Some m \<Rightarrow> issueSession env u m (s2\<lparr>ad_users := t\<rparr>)))))"

record login_input =
  li_org :: "string option"
  li_email :: string
  li_password :: string

definition login_matches :: "login_input \<Rightarrow> stored_user list \<Rightarrow> stored_user list" where
  "login_matches i users =
     (case li_org i of
        Some (c # cs) \<Rightarrow> (case getAuthUserCredentials users (c # cs) (normalizeEmail (li_email i)) of Some u \<Rightarrow> [u] | None \<Rightarrow> [])
      | _ \<Rightarrow> findAuthUsersByEmail users (normalizeEmail (li_email i)))"

definition login :: "auth_env \<Rightarrow> login_input \<Rightarrow> auth_state \<Rightarrow> issued auth_result" where
  "login env i s =
     (case login_matches i (ad_users s) of
        [] \<Rightarrow> (s, Inl Invalid_Login)
      | [u] \<Rightarrow>
          if \<not> verifyPassword env (li_password i) (ur_passwordHash u) then (s, Inl Invalid_Login)
          else (case getMember (ad_members s) (ur_org u) (ur_member u) of
                  None \<Rightarrow> (s, Inl Member_Gone)
                | Some m \<Rightarrow> issueSession env u m s)
      | _ \<Rightarrow> (s, Inl Many_Organizations))"

text \<open>An authenticated state; \<open>None\<close> is the unauthenticated one.\<close>

record auth_info =
  ai_user :: stored_user
  ai_member :: conv_member
  ai_session :: stored_session

definition getAuthState :: "auth_env \<Rightarrow> string option \<Rightarrow> auth_state \<Rightarrow> auth_state \<times> auth_info option" where
  "getAuthState env sessionToken s =
     (case sessionToken of
        None \<Rightarrow> (s, None)
      | Some token \<Rightarrow>
          if token = [] then (s, None)
          else (case getAuthSessionByTokenHash (ad_sessions s) (ev_sha256 env token) of
             None \<Rightarrow> (s, None)
           | Some x \<Rightarrow>
               if sn_revokedAt x \<noteq> None then (s, None)
               else if sn_expiresAt x \<le> ad_now s
                 then (s\<lparr>ad_sessions := revokeAuthSession (ad_now s) (sn_id x) (ad_sessions s)\<rparr>, None)
               else (case (getAuthUserById (ad_users s) (sn_user x), getMember (ad_members s) (sn_org x) (sn_member x)) of
                  (Some u, Some m) \<Rightarrow>
                    (s\<lparr>ad_sessions := touchAuthSession (ad_now s) (sn_id x) (ad_sessions s)\<rparr>,
                     Some \<lparr>ai_user = u, ai_member = m, ai_session = x\<lparr>sn_lastSeenAt := ad_now s\<rparr>\<rparr>)
                | _ \<Rightarrow> (s, None))))"

definition logout :: "auth_env \<Rightarrow> string option \<Rightarrow> auth_state \<Rightarrow> auth_state \<times> bool" where
  "logout env sessionToken s =
     (case sessionToken of
        None \<Rightarrow> (s, False)
      | Some token \<Rightarrow>
          if token = [] then (s, False)
          else (case getAuthSessionByTokenHash (ad_sessions s) (ev_sha256 env token) of
             None \<Rightarrow> (s, False)
           | Some x \<Rightarrow> (s\<lparr>ad_sessions := revokeAuthSession (ad_now s) (sn_id x) (ad_sessions s)\<rparr>, True)))"

definition switchOrganization :: "auth_env \<Rightarrow> string option \<Rightarrow> string \<Rightarrow> auth_state \<Rightarrow> issued auth_result" where
  "switchOrganization env token org s =
     (case getAuthState env token s of
        (s1, None) \<Rightarrow> (s1, Inl Session_Required)
      | (s1, Some a) \<Rightarrow>
          (case getAuthUserCredentials (ad_users s1) org (normalizeEmail (ur_email (ai_user a))) of
             None \<Rightarrow> (s1, Inl No_Access)
           | Some u \<Rightarrow>
               (case getMember (ad_members s1) org (ur_member u) of
                  None \<Rightarrow> (s1, Inl Member_Gone)
                | Some m \<Rightarrow> issueSession env u m (fst (logout env token s1)))))"

definition listAccessibleOrganizations :: "auth_env \<Rightarrow> string option \<Rightarrow> auth_state \<Rightarrow> auth_state \<times> string list" where
  "listAccessibleOrganizations env token s =
     (case getAuthState env token s of
        (s1, None) \<Rightarrow> (s1, [])
      | (s1, Some a) \<Rightarrow> (s1, listOrganizationsForUser (ad_orgs s1) (ad_users s1) (normalizeEmail (ur_email (ai_user a)))))"

text \<open>What the routes ask for: a session, and one of the organization.\<close>

datatype route_answer = Route_Ok | Unauthorized | Forbidden

definition requireOrgSession :: "auth_env \<Rightarrow> string option \<Rightarrow> string \<Rightarrow> auth_state \<Rightarrow> auth_state \<times> route_answer" where
  "requireOrgSession env token org s =
     (case getAuthState env token s of
        (s1, None) \<Rightarrow> (s1, Unauthorized)
      | (s1, Some a) \<Rightarrow> (s1, if ur_org (ai_user a) \<noteq> org then Forbidden else Route_Ok))"

section \<open>Workspaces\<close>

definition WORKSPACE_OWNER_MEMBER_ID :: string where
  "WORKSPACE_OWNER_MEMBER_ID = ''owner''"

definition getGrantableMemberOwner :: "string \<Rightarrow> string \<Rightarrow> auth_state \<Rightarrow> (stored_user \<times> string) option" where
  "getGrantableMemberOwner org member s =
     (case getAuthUserByMember (ad_users s) org member of
        None \<Rightarrow> None
      | Some u \<Rightarrow>
          (case getAuthUserCredentials (ad_users s) org (normalizeEmail (ur_email u)) of
             None \<Rightarrow> None
           | Some stored \<Rightarrow>
               (case getMember (ad_members s) org member of
                  None \<Rightarrow> None
                | Some m \<Rightarrow> if cm_kind m = Human then Some (stored, cm_name m) else None)))"

definition save_member :: "conv_member \<Rightarrow> conv_member list \<Rightarrow> conv_member list" where
  "save_member m = tbl_upsert (\<lambda>x. (cm_org x, cm_id x)) (\<lambda>_ new. new) m"

definition saveWorkspaceOwner :: "auth_env \<Rightarrow> stored_user \<Rightarrow> string \<Rightarrow> string \<Rightarrow> string \<Rightarrow> auth_state \<Rightarrow> auth_state option" where
  "saveWorkspaceOwner env stored newOrg ownerId ownerName s =
     (case draw_uuid env s of (uid, s1) \<Rightarrow>
        map_option
          (\<lambda>t. s1\<lparr>ad_users := t,
             ad_members := save_member \<lparr>cm_id = ownerId, cm_org = newOrg, cm_name = ownerName, cm_kind = Human, cm_retired = False\<rparr>
               (ad_members s1)\<rparr>)
          (saveAuthUser (ad_now s) (stored\<lparr>ur_id := uid, ur_org := newOrg, ur_member := ownerId\<rparr>) (ad_users s1)))"

text \<open>
  The account part of \<open>createWorkspace\<close> and \<open>duplicateWorkspace\<close>: a new organization, given to
  the login of the session, in one transaction.
\<close>

definition createWorkspace :: "auth_env \<Rightarrow> string option \<Rightarrow> string \<Rightarrow> auth_state \<Rightarrow> unit auth_result" where
  "createWorkspace env token newOrg s =
     (case getAuthState env token s of
        (s1, None) \<Rightarrow> (s1, Inl Session_Required)
      | (s1, Some a) \<Rightarrow>
          (case getGrantableMemberOwner (ur_org (ai_user a)) (cm_id (ai_member a)) s1 of
             None \<Rightarrow> (s1, Inl Not_Grantable)
           | Some (stored, name) \<Rightarrow>
               (case saveWorkspaceOwner env stored newOrg WORKSPACE_OWNER_MEMBER_ID name
                       (s1\<lparr>ad_orgs := tbl_upsert og_id (\<lambda>_ new. new) \<lparr>og_id = newOrg, og_updatedAt = ad_now s1\<rparr> (ad_orgs s1)\<rparr>) of
                  None \<Rightarrow> (s1, Inl Row_Conflict)
                | Some s2 \<Rightarrow> (s2, Inr ()))))"

definition deleteWorkspace :: "auth_env \<Rightarrow> string option \<Rightarrow> string \<Rightarrow> auth_state \<Rightarrow> unit auth_result" where
  "deleteWorkspace env token org s =
     (case getAuthState env token s of
        (s1, None) \<Rightarrow> (s1, Inl Session_Required)
      | (s1, Some a) \<Rightarrow>
          if org = ur_org (ai_user a) then (s1, Inl Cannot_Delete_Current)
          else (case listAccessibleOrganizations env token s1 of
                  (s2, orgs) \<Rightarrow> if org \<notin> set orgs then (s2, Inl No_Access) else (deleteOrganizationData org s2, Inr ())))"

text \<open>
  The route of the onboarding, with the rows of the new organization that concern accounts: only
  an empty installation gets an owner, and a failure takes the organization back.
\<close>

definition onboard :: "auth_env \<Rightarrow> string option \<Rightarrow> string \<Rightarrow> string \<Rightarrow> string \<Rightarrow> string \<Rightarrow> string \<Rightarrow> auth_state \<Rightarrow> issued auth_result" where
  "onboard env token org ownerId ownerName email password s =
     (if ad_orgs s \<noteq> [] then (s, Inl Onboarding_Done)
      else case getAuthState env token s of
        (s1, Some _) \<Rightarrow> (s1, Inl Onboarding_Done)
      | (s1, None) \<Rightarrow>
          (let s2 = s1\<lparr>ad_orgs := [\<lparr>og_id = org, og_updatedAt = ad_now s1\<rparr>],
                 ad_members := save_member \<lparr>cm_id = ownerId, cm_org = org, cm_name = ownerName, cm_kind = Human, cm_retired = False\<rparr>
                   (ad_members s1)\<rparr>
           in case registerOwnerAccount env \<lparr>oi_org = org, oi_member = ownerId, oi_email = email, oi_password = password\<rparr> s2 of
                (s3, Inr r) \<Rightarrow> (s3, Inr r)
              | (s3, Inl e) \<Rightarrow> (deleteOrganizationData org s3, Inl e)))"

section \<open>Histories\<close>

datatype auth_event =
    Au_Onboard "string option" string string string string string
  | Au_Login login_input
  | Au_State "string option"
  | Au_Logout "string option"
  | Au_Switch "string option" string
  | Au_Create "string option" string
  | Au_Delete "string option" string
  | Au_Members "conv_member list"
  | Au_Tick nat

definition sum_out :: "issued auth_result \<Rightarrow> auth_state \<times> issued list" where
  "sum_out r = (fst r, case snd r of Inr x \<Rightarrow> [x] | Inl _ \<Rightarrow> [])"

text \<open>The state after an event, and the session it gave out, if any.\<close>

fun auth_step :: "auth_env \<Rightarrow> auth_event \<Rightarrow> auth_state \<Rightarrow> auth_state \<times> issued list" where
  "auth_step env (Au_Onboard token org ownerId name email pw) s = sum_out (onboard env token org ownerId name email pw s)"
| "auth_step env (Au_Login i) s = sum_out (login env i s)"
| "auth_step env (Au_State token) s = (fst (getAuthState env token s), [])"
| "auth_step env (Au_Logout token) s = (fst (logout env token s), [])"
| "auth_step env (Au_Switch token org) s = sum_out (switchOrganization env token org s)"
| "auth_step env (Au_Create token org) s = (fst (createWorkspace env token org s), [])"
| "auth_step env (Au_Delete token org) s = (fst (deleteWorkspace env token org s), [])"
| "auth_step env (Au_Members ms) s = (s\<lparr>ad_members := ms\<rparr>, [])"
| "auth_step env (Au_Tick n) s = (s\<lparr>ad_now := ad_now s + int n\<rparr>, [])"

fun auth_run :: "auth_env \<Rightarrow> auth_event list \<Rightarrow> auth_state \<Rightarrow> auth_state \<times> issued list" where
  "auth_run env [] s = (s, [])"
| "auth_run env (e # es) s =
     (case auth_step env e s of (s1, out1) \<Rightarrow> case auth_run env es s1 of (s2, out2) \<Rightarrow> (s2, out1 @ out2))"

definition auth_empty :: auth_state where
  "auth_empty = \<lparr>ad_orgs = [], ad_members = [], ad_users = [], ad_sessions = [], ad_now = 0, ad_drawn = 0\<rparr>"

end
