(* ===== verification/AuthClaims.thy ===== *)
theory AuthClaims
  imports Auth
begin

text \<open>
  What a session proves: it was issued for its token, to an account whose password was given, and
  it is neither revoked nor older than its time; a revoked one stays so; all accounts of an e-mail
  have one password, so that changing the organization gives nothing a login would not.
\<close>

section \<open>Passwords\<close>

lemma from_to_hex: "(\<And>b. b \<in> set bs \<Longrightarrow> b < 256) \<Longrightarrow> from_hex (to_hex bs) = bs"
proof (induction bs)
  case (Cons b bs)
  then have "b div 16 < 16" "b mod 16 < 16" by (auto simp: less_mult_imp_div_less)
  with Cons show ?case by (simp add: to_hex_def hex_val_digit)
qed (simp add: to_hex_def)

lemma hex_digit_dollar: "n < 16 \<Longrightarrow> hex_digit n \<noteq> CHR ''$''"
  using hex_val_digit [of n] by (auto simp: hex_val_def)

lemma dollar_hex: "(\<And>b. b \<in> set bs \<Longrightarrow> b < 256) \<Longrightarrow> CHR ''$'' \<notin> set (to_hex bs)"
proof (induction bs)
  case (Cons b bs)
  then have "b div 16 < 16" "b mod 16 < 16" by (auto simp: less_mult_imp_div_less)
  then have "hex_digit (b div 16) \<noteq> CHR ''$''" "hex_digit (b mod 16) \<noteq> CHR ''$''" using hex_digit_dollar by blast+
  with Cons show ?case by (auto simp: to_hex_def)
qed (simp add: to_hex_def)

lemma to_hex_Nil [simp]: "to_hex bs = [] \<longleftrightarrow> bs = []"
  by (cases bs) (simp_all add: to_hex_def)

lemma split_char_skip: "c \<notin> set xs \<Longrightarrow> split_char c (xs @ c # ys) = xs # split_char c ys"
  by (induction xs) auto

lemma split_char_one: "c \<notin> set xs \<Longrightarrow> split_char c xs = [xs]"
  by (induction xs) auto

text \<open>What the documentation promises of the library: as many bytes as asked for.\<close>

definition crypto_ok :: "auth_env \<Rightarrow> bool" where
  "crypto_ok env \<longleftrightarrow>
     (\<forall>p s n. length (ev_scrypt env p s n) = n \<and> (\<forall>b \<in> set (ev_scrypt env p s n). b < 256)) \<and>
     (\<forall>k n. length (ev_random env k n) = n \<and> (\<forall>b \<in> set (ev_random env k n). b < 256))"

text \<open>
  A password verifies against the stored form of a password exactly when both have the same
  derived key under its salt; in particular every password verifies against its own stored form.
\<close>
theorem password_roundtrip:
  assumes "crypto_ok env"
  shows "verifyPassword env q (fst (hashPassword env p s)) \<longleftrightarrow>
    (let salt = to_hex (ev_random env (ad_drawn s) 16)
     in ev_scrypt env q salt PASSWORD_KEYLEN = ev_scrypt env p salt PASSWORD_KEYLEN)"
proof -
  let ?salt = "to_hex (ev_random env (ad_drawn s) 16)" and ?key = "ev_scrypt env p (to_hex (ev_random env (ad_drawn s) 16)) PASSWORD_KEYLEN"
  from assms have r: "length (ev_random env (ad_drawn s) 16) = 16" "\<And>b. b \<in> set (ev_random env (ad_drawn s) 16) \<Longrightarrow> b < 256"
    and k: "length ?key = PASSWORD_KEYLEN" "\<And>b. b \<in> set ?key \<Longrightarrow> b < 256"
    by (simp_all add: crypto_ok_def)
  have some: "xs \<noteq> []" if "length xs = Suc n" for xs :: "nat list" and n using that by auto
  have n: "?salt \<noteq> []" "to_hex ?key \<noteq> []"
    unfolding to_hex_Nil using r(1) k(1) by (auto intro!: some simp only: PASSWORD_KEYLEN_def eval_nat_numeral)
  have "split_char (CHR ''$'') (hash_with env ?salt p) = [PASSWORD_HASH_PREFIX, ?salt, to_hex ?key]"
    using dollar_hex [OF r(2)] dollar_hex [OF k(2)]
    by (simp add: hash_with_def PASSWORD_HASH_PREFIX_def split_char_skip split_char_one)
  with n k(1) from_to_hex [OF k(2)] show ?thesis
    by (simp add: verifyPassword_def hashPassword_def draw_bytes_def Let_def PASSWORD_HASH_PREFIX_def)
qed

section \<open>Sessions\<close>

text \<open>What an update of a session leaves as it is.\<close>

definition core :: "stored_session \<Rightarrow> string \<times> string \<times> string \<times> string \<times> int \<times> int \<times> string" where
  "core x = (sn_id x, sn_user x, sn_org x, sn_member x, sn_createdAt x, sn_expiresAt x, sn_tokenHash x)"

text \<open>The session was given out, with a token of this hash, to this account.\<close>

definition origin :: "auth_env \<Rightarrow> issued list \<Rightarrow> stored_session \<Rightarrow> bool" where
  "origin env outs x \<longleftrightarrow>
     (\<exists>r \<in> set outs. core x = core (is_session r) \<and> sn_tokenHash x = ev_sha256 env (is_token r) \<and>
        sn_user x = ur_id (is_user r) \<and> sn_org x = ur_org (is_user r) \<and> sn_expiresAt x = sn_createdAt x + SESSION_TTL_MS)"

definition sess_rows :: "auth_env \<Rightarrow> issued list \<Rightarrow> nat \<Rightarrow> stored_session list \<Rightarrow> bool" where
  "sess_rows env outs n t \<longleftrightarrow>
     (\<forall>x \<in> set t. sn_id x \<in> ev_uuid env ` {..<n} \<and> origin env outs x) \<and> distinct (map sn_tokenHash t)"

definition sess_ok :: "auth_env \<Rightarrow> issued list \<Rightarrow> auth_state \<Rightarrow> bool" where
  "sess_ok env outs s \<longleftrightarrow> sess_rows env outs (ad_drawn s) (ad_sessions s)"

lemma origin_core: "core x = core y \<Longrightarrow> origin env outs y \<Longrightarrow> origin env outs x"
  by (auto simp: origin_def core_def)

lemma origin_more: "origin env outs x \<Longrightarrow> origin env (outs @ outs2) x"
  by (auto simp: origin_def)

lemma sess_ok_more: "sess_ok env outs s \<Longrightarrow> sess_ok env (outs @ outs2) s"
  by (auto simp: sess_ok_def sess_rows_def intro: origin_more)

lemma core_simps: "core x = core y \<Longrightarrow> sn_id x = sn_id y" "core x = core y \<Longrightarrow> sn_tokenHash x = sn_tokenHash y"
  by (simp_all add: core_def)

lemma sess_rows_update:
  assumes "sess_rows env outs n t" and "\<And>x. core (f x) = core x"
  shows "sess_rows env outs n (tbl_update P f t)"
proof -
  let ?g = "\<lambda>x. if P x then f x else x"
  have g: "core (?g x) = core x" for x using assms(2) by simp
  have "sn_tokenHash (?g x) = sn_tokenHash x" for x by (rule core_simps(2) [OF g])
  then have m: "map sn_tokenHash (tbl_update P f t) = map sn_tokenHash t" unfolding tbl_update_def map_map comp_def by (simp only:)
  have rows: "sn_id (?g x) \<in> ev_uuid env ` {..<n} \<and> origin env outs (?g x)" if "x \<in> set t" for x
    using assms(1) that origin_core [OF g] core_simps(1) [OF g] unfolding sess_rows_def by metis
  show ?thesis
    unfolding sess_rows_def
  proof
    show "\<forall>x \<in> set (tbl_update P f t). sn_id x \<in> ev_uuid env ` {..<n} \<and> origin env outs x"
      unfolding tbl_update_def set_map using rows by blast
    show "distinct (map sn_tokenHash (tbl_update P f t))" unfolding m using assms(1) by (simp add: sess_rows_def)
  qed
qed

lemma sess_ok_marks:
  "sess_ok env outs s \<Longrightarrow> sess_ok env outs (s\<lparr>ad_sessions := revokeAuthSession at i (ad_sessions s)\<rparr>)"
  "sess_ok env outs s \<Longrightarrow> sess_ok env outs (s\<lparr>ad_sessions := touchAuthSession at i (ad_sessions s)\<rparr>)"
  by (simp_all add: sess_ok_def sess_rows_update core_def revokeAuthSession_def touchAuthSession_def)

lemma sess_ok_state: "sess_ok env outs s \<Longrightarrow> sess_ok env outs (fst (getAuthState env token s))"
  by (auto simp: getAuthState_def sess_ok_marks split: option.split)

lemma sess_ok_logout: "sess_ok env outs s \<Longrightarrow> sess_ok env outs (fst (logout env token s))"
  by (auto simp: logout_def sess_ok_marks split: option.split)

text \<open>Fresh ids: a new session is a new row.\<close>

lemma fresh_append:
  assumes "inj (ev_uuid env)" and "\<forall>x \<in> set t. f x \<in> ev_uuid env ` {..<n}" and "f x = ev_uuid env k" and "n \<le> k"
  shows "tbl_upsert f merge x t = t @ [x]"
proof -
  have "f x \<notin> f ` set t"
  proof
    assume "f x \<in> f ` set t"
    then obtain y where "y \<in> set t" "f y = ev_uuid env k" using assms(3) by auto
    with assms(2) obtain j where "j < n" "ev_uuid env j = ev_uuid env k" by force
    then show False using assms(1,4) by (auto dest: injD)
  qed
  then show ?thesis by (simp add: tbl_upsert_def)
qed

lemma issue_cases:
  assumes "inj (ev_uuid env)" and "sess_ok env outs s" and "issueSession env u m s = (s', r)"
  obtains (conflict) "r = Inl Row_Conflict" "s' = s\<lparr>ad_drawn := ad_drawn s + 2\<rparr>"
  | (given) x where "r = Inr x" "s' = s\<lparr>ad_drawn := ad_drawn s + 2, ad_sessions := ad_sessions s @ [is_session x]\<rparr>"
      "is_user x = u" "is_member x = m" "sn_tokenHash (is_session x) \<notin> sn_tokenHash ` set (ad_sessions s)"
      "sn_id (is_session x) = ev_uuid env (Suc (ad_drawn s))" "origin env [x] (is_session x)" "sn_revokedAt (is_session x) = None"
proof -
  let ?x = "\<lparr>sn_id = ev_uuid env (Suc (ad_drawn s)), sn_user = ur_id u, sn_org = ur_org u, sn_member = ur_member u,
    sn_createdAt = ad_now s, sn_expiresAt = ad_now s + SESSION_TTL_MS, sn_lastSeenAt = ad_now s, sn_revokedAt = None,
    sn_tokenHash = ev_sha256 env (to_hex (ev_random env (ad_drawn s) 32))\<rparr>"
  have old: "\<forall>x \<in> set (ad_sessions s). sn_id x \<in> ev_uuid env ` {..<ad_drawn s}" using assms(2) by (simp add: sess_ok_def sess_rows_def)
  have app: "tbl_upsert sn_id overwrite_session ?x (ad_sessions s) = ad_sessions s @ [?x]"
    by (rule fresh_append [OF assms(1) old, of ?x "Suc (ad_drawn s)"]) simp_all
  have new: "sn_id y \<noteq> ev_uuid env (Suc (ad_drawn s))" if "y \<in> set (ad_sessions s)" for y
    using old that assms(1) by (force dest: injD)
  show ?thesis
  proof (cases "sn_tokenHash ?x \<in> sn_tokenHash ` set (ad_sessions s)")
    case True
    then have "saveAuthSession ?x (ad_sessions s) = None" using new by (auto simp: saveAuthSession_def list_ex_iff) 
    then show ?thesis using assms(3) conflict by (simp add: issueSession_def draw_bytes_def draw_uuid_def Let_def)
  next
    case False
    then have "saveAuthSession ?x (ad_sessions s) = Some (ad_sessions s @ [?x])"
      using app by (auto simp: saveAuthSession_def list_ex_iff image_iff)
    then show ?thesis using assms(3) False
      by (intro given [of "\<lparr>is_user = u, is_member = m, is_session = ?x, is_token = to_hex (ev_random env (ad_drawn s) 32)\<rparr>"])
        (auto simp: issueSession_def draw_bytes_def draw_uuid_def Let_def origin_def)
  qed
qed

lemma issue_ok:
  assumes "inj (ev_uuid env)" and "sess_ok env outs s"
  shows "sess_ok env (outs @ snd (sum_out (issueSession env u m s))) (fst (issueSession env u m s))"
proof -
  obtain s' r where eq: "issueSession env u m s = (s', r)" by force
  from assms eq show ?thesis
  proof (cases rule: issue_cases)
    case conflict
    then show ?thesis using assms(2) eq by (auto simp: sess_ok_def sess_rows_def sum_out_def)
  next
    case (given x)
    have "sn_id (is_session x) \<in> ev_uuid env ` {..<ad_drawn s + 2}" using given(6) by simp
    moreover have "origin env (outs @ [x]) (is_session x)" using given(7) by (auto simp: origin_def)
    ultimately show ?thesis using assms(2) given eq by (auto simp: sess_ok_def sess_rows_def sum_out_def intro: origin_more)
  qed
qed

section \<open>Accounts\<close>

definition user_ok :: "auth_env \<Rightarrow> nat \<Rightarrow> string set \<Rightarrow> stored_user \<Rightarrow> bool" where
  "user_ok env n orgs u \<longleftrightarrow>
     ur_id u \<in> ev_uuid env ` {..<n} \<and> ur_emailNormalized u = normalizeEmail (ur_email u) \<and> ur_org u \<in> orgs"

definition one_password :: "stored_user set \<Rightarrow> bool" where
  "one_password us \<longleftrightarrow>
     (\<forall>u \<in> us. \<forall>v \<in> us. ur_emailNormalized u = ur_emailNormalized v \<longrightarrow> ur_passwordHash u = ur_passwordHash v)"

definition acct_ok :: "auth_env \<Rightarrow> auth_state \<Rightarrow> bool" where
  "acct_ok env s \<longleftrightarrow>
     (\<forall>u \<in> set (ad_users s). user_ok env (ad_drawn s) (og_id ` set (ad_orgs s)) u) \<and> one_password (set (ad_users s))"

lemma user_ok_mono: "user_ok env n orgs u \<Longrightarrow> n \<le> k \<Longrightarrow> orgs \<subseteq> orgs' \<Longrightarrow> user_ok env k orgs' u"
  by (auto simp: user_ok_def)

text \<open>The tables of accounts and organizations, and the draws.\<close>

definition same_accounts :: "auth_state \<Rightarrow> auth_state \<Rightarrow> bool" where
  "same_accounts s s' \<longleftrightarrow> ad_users s' = ad_users s \<and> ad_orgs s' = ad_orgs s \<and> ad_drawn s \<le> ad_drawn s'"

lemma acct_ok_same: "same_accounts s s' \<Longrightarrow> acct_ok env s \<Longrightarrow> acct_ok env s'"
  by (auto simp: same_accounts_def acct_ok_def intro: user_ok_mono)

lemma same_accounts_trans: "same_accounts a b \<Longrightarrow> same_accounts b c \<Longrightarrow> same_accounts a c"
  by (simp add: same_accounts_def)

lemma same_accounts_issue: "same_accounts s (fst (issueSession env u m s))"
  by (simp add: same_accounts_def issueSession_def draw_bytes_def draw_uuid_def Let_def split: option.split)

lemma same_accounts_state: "same_accounts s (fst (getAuthState env token s))"
  by (simp add: same_accounts_def getAuthState_def split: option.split)

lemma same_accounts_logout: "same_accounts s (fst (logout env token s))"
  by (simp add: same_accounts_def logout_def split: option.split)

text \<open>A new account with a fresh id is a new row, or refused.\<close>

lemma save_user_cases:
  assumes "inj (ev_uuid env)" and "\<forall>u \<in> set t. ur_id u \<in> ev_uuid env ` {..<n}" and "ur_id u = ev_uuid env k" and "n \<le> k"
    and "saveAuthUser now u t = Some t'"
  shows "\<exists>c. t' = t @ [u\<lparr>ur_createdAt := Some c\<rparr>]"
proof -
  let ?row = "u\<lparr>ur_createdAt := Some (case ur_createdAt u of Some c \<Rightarrow> c | None \<Rightarrow> now)\<rparr>"
  have "tbl_upsert ur_id overwrite_user ?row t = t @ [?row]"
    by (rule fresh_append [OF assms(1,2)]) (use assms(3,4) in simp_all)
  moreover have "t' = tbl_upsert ur_id overwrite_user ?row t" using assms(5) by (simp only: saveAuthUser_def Let_def option.inject option.distinct(1) simp_thms split: if_splits)
  ultimately have "t' = t @ [?row]" by simp
  then show ?thesis by (rule exI)
qed

lemma one_passwordD:
  "one_password U \<Longrightarrow> u \<in> U \<Longrightarrow> v \<in> U \<Longrightarrow> ur_emailNormalized u = ur_emailNormalized v \<Longrightarrow> ur_passwordHash u = ur_passwordHash v"
  unfolding one_password_def by blast

lemma one_password_insert:
  "one_password U \<Longrightarrow> (\<And>v. v \<in> U \<Longrightarrow> ur_emailNormalized v = ur_emailNormalized u \<Longrightarrow> ur_passwordHash v = ur_passwordHash u) \<Longrightarrow>
   one_password (insert u U)"
  unfolding one_password_def by (metis insert_iff)

lemma acct_ok_add:
  assumes "acct_ok env s" and "ad_users s' = ad_users s @ [u]" and "set (ad_orgs s) \<subseteq> set (ad_orgs s')" and "ad_drawn s \<le> ad_drawn s'"
    and "user_ok env (ad_drawn s') (og_id ` set (ad_orgs s')) u"
    and "\<And>v. v \<in> set (ad_users s) \<Longrightarrow> ur_emailNormalized v = ur_emailNormalized u \<Longrightarrow> ur_passwordHash v = ur_passwordHash u"
  shows "acct_ok env s'"
proof -
  have "user_ok env (ad_drawn s') (og_id ` set (ad_orgs s')) v" if "v \<in> set (ad_users s)" for v
    using assms(1) that user_ok_mono [OF _ assms(4) image_mono [OF assms(3)]] by (simp add: acct_ok_def)
  moreover have "one_password (set (ad_users s @ [u]))"
    using one_password_insert [of "set (ad_users s)" u] assms(1,6) by (simp add: acct_ok_def)
  ultimately show ?thesis using assms(5) by (simp add: acct_ok_def assms(2))
qed

definition auth_ok :: "auth_env \<Rightarrow> issued list \<Rightarrow> auth_state \<Rightarrow> bool" where
  "auth_ok env outs s \<longleftrightarrow> sess_ok env outs s \<and> acct_ok env s"

lemma auth_ok_state: "auth_ok env outs s \<Longrightarrow> auth_ok env outs (fst (getAuthState env token s))"
  by (simp add: auth_ok_def sess_ok_state acct_ok_same [OF same_accounts_state])

lemma auth_ok_logout: "auth_ok env outs s \<Longrightarrow> auth_ok env outs (fst (logout env token s))"
  by (simp add: auth_ok_def sess_ok_logout acct_ok_same [OF same_accounts_logout])

lemma auth_ok_issue:
  "inj (ev_uuid env) \<Longrightarrow> auth_ok env outs s \<Longrightarrow>
   auth_ok env (outs @ snd (sum_out (issueSession env u m s))) (fst (issueSession env u m s))"
  by (simp add: auth_ok_def issue_ok acct_ok_same [OF same_accounts_issue])

lemma auth_ok_more: "auth_ok env outs s \<Longrightarrow> auth_ok env (outs @ outs2) s"
  by (simp add: auth_ok_def sess_ok_more)

lemma auth_ok_delete: "auth_ok env outs s \<Longrightarrow> auth_ok env outs (deleteOrganizationData org s)"
proof -
  assume ok: "auth_ok env outs s"
  have "sess_ok env outs (deleteOrganizationData org s)"
    using ok by (auto simp: auth_ok_def sess_ok_def sess_rows_def deleteOrganizationData_def tbl_delete_def intro: distinct_map_filter)
  moreover have "acct_ok env (deleteOrganizationData org s)"
    using ok by (auto simp: auth_ok_def acct_ok_def user_ok_def one_password_def deleteOrganizationData_def tbl_delete_def)
  ultimately show ?thesis by (simp add: auth_ok_def)
qed

lemma register_ok:
  assumes inj: "inj (ev_uuid env)" and ok: "auth_ok env outs s" and "ad_users s = []" and "oi_org i \<in> og_id ` set (ad_orgs s)"
  shows "auth_ok env (outs @ snd (sum_out (registerOwnerAccount env i s))) (fst (registerOwnerAccount env i s))"
proof (cases "register_refused env i s")
  case (Some e)
  then show ?thesis using ok by (simp add: registerOwnerAccount_def sum_out_def)
next
  case None
  let ?h = "hash_with env (to_hex (ev_random env (Suc (ad_drawn s)) 16)) (oi_password i)"
  let ?u = "\<lparr>ur_id = ev_uuid env (ad_drawn s), ur_org = oi_org i, ur_member = oi_member i, ur_email = trim (oi_email i),
    ur_createdAt = Some (ad_now s), ur_emailNormalized = normalizeEmail (oi_email i), ur_passwordHash = ?h\<rparr>"
  let ?s = "s\<lparr>ad_drawn := Suc (Suc (ad_drawn s))\<rparr>"
  have saved: "saveAuthUser (ad_now s) ?u [] = Some [?u]" by (simp add: saveAuthUser_def tbl_upsert_def)
  obtain m where m: "getMember (ad_members s) (oi_org i) (oi_member i) = Some m"
    using None by (auto simp: register_refused_def split: option.splits)
  have eq: "registerOwnerAccount env i s = issueSession env ?u m (?s\<lparr>ad_users := [?u]\<rparr>)"
    using None saved m assms(3) by (simp add: registerOwnerAccount_def draw_uuid_def hashPassword_def draw_bytes_def Let_def)
  have "user_ok env (Suc (Suc (ad_drawn s))) (og_id ` set (ad_orgs s)) ?u"
    using assms(4) by (simp add: user_ok_def normalizeEmail_def trim_trim)
  then have "acct_ok env (?s\<lparr>ad_users := [?u]\<rparr>)" by (simp add: acct_ok_def one_password_def)
  moreover have "sess_ok env outs (?s\<lparr>ad_users := [?u]\<rparr>)"
    using ok by (auto simp: auth_ok_def sess_ok_def sess_rows_def)
  ultimately show ?thesis unfolding eq by (intro auth_ok_issue inj) (simp add: auth_ok_def)
qed

lemma login_ok:
  assumes "inj (ev_uuid env)" and "auth_ok env outs s"
  shows "auth_ok env (outs @ snd (sum_out (login env i s))) (fst (login env i s))"
proof -
  have "auth_ok env (outs @ snd (sum_out (s, Inl e))) (fst (s, Inl e))" for e using assms(2) by (simp add: sum_out_def)
  then show ?thesis using auth_ok_issue [OF assms]
    by (auto simp: login_def split: list.split option.split)
qed

lemma switch_ok:
  assumes "inj (ev_uuid env)" and "auth_ok env outs s"
  shows "auth_ok env (outs @ snd (sum_out (switchOrganization env token org s))) (fst (switchOrganization env token org s))"
proof -
  obtain s1 a where g: "getAuthState env token s = (s1, a)" by force
  have 1: "auth_ok env outs s1" using auth_ok_state [OF assms(2), of token] g by simp
  have "auth_ok env (outs @ snd (sum_out (s1, Inl e))) (fst (s1, Inl e))" for e using 1 by (simp add: sum_out_def)
  then show ?thesis using auth_ok_issue [OF assms(1) auth_ok_logout [OF 1]] g
    by (simp add: switchOrganization_def split: option.split)
qed

lemma onboard_ok:
  assumes "inj (ev_uuid env)" and "auth_ok env outs s"
  shows "auth_ok env (outs @ snd (sum_out (onboard env token org o' name email pw s))) (fst (onboard env token org o' name email pw s))"
proof (cases "ad_orgs s = []")
  case False
  then show ?thesis using assms(2) by (simp add: onboard_def sum_out_def)
next
  case True
  obtain s1 a where g: "getAuthState env token s = (s1, a)" by force
  have 1: "auth_ok env outs s1" using auth_ok_state [OF assms(2), of token] g by simp
  show ?thesis
  proof (cases a)
    case (Some x)
    then show ?thesis using True g 1 by (simp add: onboard_def sum_out_def)
  next
    case None
    let ?s2 = "s1\<lparr>ad_orgs := [\<lparr>og_id = org, og_updatedAt = ad_now s1\<rparr>],
      ad_members := save_member \<lparr>cm_id = o', cm_org = org, cm_name = name, cm_kind = Human, cm_retired = False\<rparr> (ad_members s1)\<rparr>"
    let ?i = "\<lparr>oi_org = org, oi_member = o', oi_email = email, oi_password = pw\<rparr>"
    have same: "same_accounts s s1" using same_accounts_state [of s env token] g by simp
    have none: "ad_users s1 = []"
      using same True 1 by (cases "ad_users s1") (auto simp: same_accounts_def auth_ok_def acct_ok_def user_ok_def)
    have "auth_ok env outs ?s2" using 1 none by (simp add: auth_ok_def sess_ok_def acct_ok_def one_password_def)
    from register_ok [OF assms(1) this, of ?i] none
    have reg: "auth_ok env (outs @ snd (sum_out (registerOwnerAccount env ?i ?s2))) (fst (registerOwnerAccount env ?i ?s2))" by simp
    obtain s3 r where r: "registerOwnerAccount env ?i ?s2 = (s3, r)" by force
    show ?thesis
    proof (cases r)
      case (Inl e)
      then have "auth_ok env outs (deleteOrganizationData org s3)" using reg r by (simp add: sum_out_def auth_ok_delete)
      then show ?thesis using True g None r Inl by (simp add: onboard_def sum_out_def Let_def)
    next
      case (Inr x)
      then show ?thesis using True g None r reg by (simp add: onboard_def sum_out_def Let_def)
    qed
  qed
qed

lemma grantable_user:
  "getGrantableMemberOwner org m s = Some (stored, name) \<Longrightarrow> stored \<in> set (ad_users s)"
  by (auto simp: getGrantableMemberOwner_def getAuthUserCredentials_def find_Some_iff split: option.splits if_splits)

lemma owner_ok:
  assumes inj: "inj (ev_uuid env)" and ok: "auth_ok env outs s" and "stored \<in> set (ad_users s)" and "og_id ` set (ad_orgs s) \<subseteq> og_id ` set orgs"
    and "newOrg \<in> og_id ` set orgs" and "saveWorkspaceOwner env stored newOrg ownerId name (s\<lparr>ad_orgs := orgs\<rparr>) = Some s'"
  shows "auth_ok env outs s'"
proof -
  let ?u = "stored\<lparr>ur_id := ev_uuid env (ad_drawn s), ur_org := newOrg, ur_member := ownerId\<rparr>"
  obtain t where t: "saveAuthUser (ad_now s) ?u (ad_users s) = Some t"
    and s': "ad_users s' = t" "ad_orgs s' = orgs" "ad_drawn s' = Suc (ad_drawn s)" "ad_sessions s' = ad_sessions s"
    using assms(6) by (auto simp: saveWorkspaceOwner_def draw_uuid_def)
  have ids: "\<forall>u \<in> set (ad_users s). ur_id u \<in> ev_uuid env ` {..<ad_drawn s}"
    using ok by (simp add: auth_ok_def acct_ok_def user_ok_def)
  obtain c where c: "t = ad_users s @ [?u\<lparr>ur_createdAt := Some c\<rparr>]"
    using save_user_cases [OF inj ids _ _ t, of "ad_drawn s"] by auto
  have st: "user_ok env (ad_drawn s) (og_id ` set (ad_orgs s)) stored" and one: "one_password (set (ad_users s))"
    using ok assms(3) by (simp_all add: auth_ok_def acct_ok_def)
  have old: "user_ok env (Suc (ad_drawn s)) (og_id ` set orgs) v" if "v \<in> set (ad_users s)" for v
  proof (rule user_ok_mono [OF _ _ assms(4)])
    show "user_ok env (ad_drawn s) (og_id ` set (ad_orgs s)) v" using ok that by (simp add: auth_ok_def acct_ok_def)
  qed simp
  have new: "user_ok env (Suc (ad_drawn s)) (og_id ` set orgs) (?u\<lparr>ur_createdAt := Some c\<rparr>)"
    using st assms(5) by (simp add: user_ok_def)
  have "one_password (insert (?u\<lparr>ur_createdAt := Some c\<rparr>) (set (ad_users s)))"
  proof (rule one_password_insert [OF one])
    fix v assume "v \<in> set (ad_users s)" "ur_emailNormalized v = ur_emailNormalized (?u\<lparr>ur_createdAt := Some c\<rparr>)"
    then have "ur_passwordHash v = ur_passwordHash stored" by (intro one_passwordD [OF one _ assms(3)]) simp_all
    then show "ur_passwordHash v = ur_passwordHash (?u\<lparr>ur_createdAt := Some c\<rparr>)" by simp
  qed
  then have "acct_ok env s'" unfolding acct_ok_def s' c using old new by simp
  moreover have "sess_ok env outs s'" using ok s' by (auto simp: auth_ok_def sess_ok_def sess_rows_def)
  ultimately show ?thesis by (simp add: auth_ok_def)
qed

lemma upsert_keys:
  assumes "\<And>old. f (merge old x) = f x"
  shows "f ` set t \<subseteq> f ` set (tbl_upsert f merge x t)" and "f x \<in> f ` set (tbl_upsert f merge x t)"
proof -
  have "f ` set (tbl_upsert f merge x t) = insert (f x) (f ` set t)"
  proof (cases "f x \<in> f ` set t")
    case True
    have "f (if f y = f x then merge y x else y) = f y" for y using assms by simp
    then have "map f (tbl_upsert f merge x t) = map f t" using True by (simp add: tbl_upsert_def)
    then have "f ` set (tbl_upsert f merge x t) = f ` set t" by (metis set_map)
    with True show ?thesis by auto
  qed (auto simp: tbl_upsert_def)
  then show "f ` set t \<subseteq> f ` set (tbl_upsert f merge x t)" "f x \<in> f ` set (tbl_upsert f merge x t)" by auto
qed

lemma workspace_create_ok:
  assumes inj: "inj (ev_uuid env)" and ok: "auth_ok env outs s"
  shows "auth_ok env outs (fst (createWorkspace env token newOrg s))"
proof -
  obtain s1 a where g: "getAuthState env token s = (s1, a)" by force
  have 1: "auth_ok env outs s1" using auth_ok_state [OF ok, of token] g by simp
  let ?orgs = "tbl_upsert og_id (\<lambda>_ new. new) \<lparr>og_id = newOrg, og_updatedAt = ad_now s1\<rparr> (ad_orgs s1)"
  have orgs: "og_id ` set (ad_orgs s1) \<subseteq> og_id ` set ?orgs" "newOrg \<in> og_id ` set ?orgs"
    using upsert_keys [where f = og_id and merge = "\<lambda>_ new. new" and t = "ad_orgs s1" and x = "\<lparr>og_id = newOrg, og_updatedAt = ad_now s1\<rparr>"]
    by simp_all
  show ?thesis
    using g 1 owner_ok [OF inj 1 grantable_user orgs]
    by (auto simp: createWorkspace_def split: option.split)
qed

lemma list_orgs_ok: "auth_ok env outs s \<Longrightarrow> auth_ok env outs (fst (listAccessibleOrganizations env token s))"
  using auth_ok_state [of env outs s token] by (auto simp: listAccessibleOrganizations_def split: prod.split option.split)

lemma workspace_delete_ok:
  assumes ok: "auth_ok env outs s"
  shows "auth_ok env outs (fst (deleteWorkspace env token org s))"
proof -
  obtain s1 a where g: "getAuthState env token s = (s1, a)" by force
  have 1: "auth_ok env outs s1" using auth_ok_state [OF ok, of token] g by simp
  obtain s2 orgs where l: "listAccessibleOrganizations env token s1 = (s2, orgs)" by force
  have "auth_ok env outs s2" using list_orgs_ok [OF 1, of token] l by simp
  then show ?thesis using g 1 l by (auto simp: deleteWorkspace_def auth_ok_delete split: option.split)
qed

lemma fst_sum_out [simp]: "fst (sum_out r) = fst r"
  by (simp add: sum_out_def)

lemma step_auth_ok:
  assumes "inj (ev_uuid env)" and "auth_ok env outs s"
  shows "auth_ok env (outs @ snd (auth_step env e s)) (fst (auth_step env e s))"
proof (cases e)
  case (Au_Members ms)
  then show ?thesis using assms(2) by (simp add: auth_ok_def sess_ok_def acct_ok_def)
next
  case (Au_Tick n)
  then show ?thesis using assms(2) by (simp add: auth_ok_def sess_ok_def acct_ok_def)
qed (simp_all add: assms onboard_ok login_ok auth_ok_state auth_ok_logout switch_ok workspace_create_ok workspace_delete_ok)

lemma run_auth_ok:
  "inj (ev_uuid env) \<Longrightarrow> auth_ok env outs s \<Longrightarrow>
   auth_ok env (outs @ snd (auth_run env es s)) (fst (auth_run env es s))"
proof (induction es arbitrary: outs s)
  case (Cons e es)
  obtain s1 o1 where e: "auth_step env e s = (s1, o1)" by force
  have "auth_ok env (outs @ o1) s1" using step_auth_ok [OF Cons.prems, of e] e by simp
  obtain s2 o2 where r: "auth_run env es s1 = (s2, o2)" by force
  from Cons.IH [OF Cons.prems(1) \<open>auth_ok env (outs @ o1) s1\<close>] e r show ?case by simp
qed simp

lemma history_auth_ok:
  "inj (ev_uuid env) \<Longrightarrow> auth_ok env (snd (auth_run env es auth_empty)) (fst (auth_run env es auth_empty))"
proof -
  assume "inj (ev_uuid env)"
  moreover have "auth_ok env [] auth_empty"
    by (simp add: auth_ok_def sess_ok_def sess_rows_def acct_ok_def one_password_def auth_empty_def)
  ultimately have "auth_ok env ([] @ snd (auth_run env es auth_empty)) (fst (auth_run env es auth_empty))" by (rule run_auth_ok)
  then show ?thesis by simp
qed

section \<open>What a session proves\<close>

lemma authenticated_cases:
  assumes "getAuthState env (Some token) s = (s', Some a)"
  shows "\<exists>x \<in> set (ad_sessions s). sn_tokenHash x = ev_sha256 env token \<and> ai_session a = x\<lparr>sn_lastSeenAt := ad_now s\<rparr> \<and>
    sn_revokedAt x = None \<and> ad_now s < sn_expiresAt x \<and> ai_user a \<in> set (ad_users s) \<and> ur_id (ai_user a) = sn_user x \<and>
    ai_member a \<in> set (ad_members s) \<and> cm_org (ai_member a) = sn_org x \<and> cm_id (ai_member a) = sn_member x"
  using assms
  by (auto simp: getAuthState_def getAuthSessionByTokenHash_def getAuthUserById_def getMember_def find_Some_iff
      split: option.splits if_splits) 

text \<open>
  C27: In every history of onboardings, logins, changes of the organization, new and deleted
  workspaces and logouts, whoever authenticates with a token shows one whose hash is that of a
  token the service gave out, for the same session and the same account, less than thirty days
  before, and the session is not revoked.
\<close>
theorem authenticated_was_issued:
  assumes "inj (ev_uuid env)" and "auth_run env es auth_empty = (s, outs)"
    and "getAuthState env (Some token) s = (s', Some a)"
  shows "\<exists>r \<in> set outs. ev_sha256 env (is_token r) = ev_sha256 env token \<and> sn_id (is_session r) = sn_id (ai_session a) \<and>
    ur_id (is_user r) = ur_id (ai_user a) \<and> ur_org (is_user r) = cm_org (ai_member a) \<and>
    ad_now s < sn_createdAt (is_session r) + SESSION_TTL_MS \<and> sn_revokedAt (ai_session a) = None"
proof -
  have ok: "auth_ok env outs s" using history_auth_ok [OF assms(1), of es] assms(2) by simp
  obtain x where x: "x \<in> set (ad_sessions s)" "sn_tokenHash x = ev_sha256 env token" "ai_session a = x\<lparr>sn_lastSeenAt := ad_now s\<rparr>"
    "sn_revokedAt x = None" "ad_now s < sn_expiresAt x" "ur_id (ai_user a) = sn_user x" "cm_org (ai_member a) = sn_org x"
    using authenticated_cases [OF assms(3)] by blast
  then have "origin env outs x" using ok by (simp add: auth_ok_def sess_ok_def sess_rows_def)
  then obtain r where "r \<in> set outs" "core x = core (is_session r)" "sn_tokenHash x = ev_sha256 env (is_token r)"
    "sn_user x = ur_id (is_user r)" "sn_org x = ur_org (is_user r)" "sn_expiresAt x = sn_createdAt x + SESSION_TTL_MS"
    by (auto simp: origin_def)
  with x show ?thesis by (intro bexI [of _ r]) (auto simp: core_def)
qed

text \<open>
  In every history, the account that a change of the organization gives a session for belongs
  to the organization asked for and has the e-mail and the stored password of the account that
  asked: the change gives nothing that a login with the same password would not.
\<close>
theorem switch_keeps_password:
  assumes "inj (ev_uuid env)" and "auth_run env es auth_empty = (s, outs)"
    and "getAuthState env token s = (s1, Some a)" and "switchOrganization env token org s = (s2, Inr r)"
  shows "ur_org (is_user r) = org \<and> ur_emailNormalized (is_user r) = normalizeEmail (ur_email (ai_user a)) \<and>
    ur_passwordHash (is_user r) = ur_passwordHash (ai_user a)"
proof (intro conjI)
  have ok: "auth_ok env outs s" using history_auth_ok [OF assms(1), of es] assms(2) by simp
  have users: "ad_users s1 = ad_users s" using same_accounts_state [of s env token] assms(3) by (simp add: same_accounts_def)
  obtain u where u: "getAuthUserCredentials (ad_users s1) org (normalizeEmail (ur_email (ai_user a))) = Some u"
    and r: "is_user r = u"
    using assms(3,4)
    by (auto simp: switchOrganization_def issueSession_def draw_bytes_def draw_uuid_def Let_def split: option.splits)
  then have in_u: "u \<in> set (ad_users s)" "ur_org u = org" "ur_emailNormalized u = normalizeEmail (ur_email (ai_user a))"
    using users by (auto simp: getAuthUserCredentials_def find_Some_iff)
  then show "ur_org (is_user r) = org" "ur_emailNormalized (is_user r) = normalizeEmail (ur_email (ai_user a))"
    using r by simp_all
  have in_a: "ai_user a \<in> set (ad_users s)"
  proof (cases token)
    case (Some tok)
    then show ?thesis using authenticated_cases [of env tok s] assms(3) by blast
  qed (use assms(3) in \<open>simp add: getAuthState_def\<close>)
  then have "ur_emailNormalized (ai_user a) = normalizeEmail (ur_email (ai_user a))"
    using ok by (simp add: auth_ok_def acct_ok_def user_ok_def)
  then show "ur_passwordHash (is_user r) = ur_passwordHash (ai_user a)"
    using ok in_u in_a r unfolding auth_ok_def acct_ok_def one_password_def by metis
qed

section \<open>Logged out\<close>

text \<open>No workspace is deleted and nothing is onboarded: the rows of sessions stay.\<close>

fun keeps_rows :: "auth_event \<Rightarrow> bool" where
  "keeps_rows (Au_Delete _ _) = False"
| "keeps_rows (Au_Onboard _ _ _ _ _ _) = False"
| "keeps_rows _ = True"

text \<open>The session of the hash is revoked.\<close>

definition dead :: "string \<Rightarrow> auth_state \<Rightarrow> bool" where
  "dead h s \<longleftrightarrow> (\<exists>x. getAuthSessionByTokenHash (ad_sessions s) h = Some x \<and> sn_revokedAt x \<noteq> None)"

lemma find_map_same:
  "(\<And>x. P (f x) = P x) \<Longrightarrow> find P (map f xs) = map_option f (find P xs)"
  by (induction xs) auto

lemma find_update:
  assumes "find (\<lambda>x. sn_tokenHash x = h) t = Some x" and "\<And>x. sn_tokenHash (f x) = sn_tokenHash x"
  shows "find (\<lambda>x. sn_tokenHash x = h) (tbl_update P f t) = Some (if P x then f x else x)"
proof -
  let ?g = "\<lambda>x. if P x then f x else x"
  have "sn_tokenHash (?g x) = sn_tokenHash x" for x using assms(2) by simp
  then have "find (\<lambda>x. sn_tokenHash x = h) (map ?g t) = map_option ?g (find (\<lambda>x. sn_tokenHash x = h) t)"
    by (intro find_map_same) (simp only:)
  with assms(1) show ?thesis by (simp add: tbl_update_def)
qed

lemma find_marks:
  assumes "find (\<lambda>x. sn_tokenHash x = h) t = Some x"
  shows "find (\<lambda>x. sn_tokenHash x = h) (revokeAuthSession at i t) =
      Some (if sn_id x = i then x\<lparr>sn_revokedAt := Some at, sn_lastSeenAt := at\<rparr> else x)"
    and "find (\<lambda>x. sn_tokenHash x = h) (touchAuthSession at i t) = Some (if sn_id x = i then x\<lparr>sn_lastSeenAt := at\<rparr> else x)"
  using find_update [OF assms] by (simp_all add: revokeAuthSession_def touchAuthSession_def)

lemma dead_marks:
  "dead h s \<Longrightarrow> dead h (s\<lparr>ad_sessions := revokeAuthSession at i (ad_sessions s)\<rparr>)"
  "dead h s \<Longrightarrow> dead h (s\<lparr>ad_sessions := touchAuthSession at i (ad_sessions s)\<rparr>)"
  by (auto simp: dead_def getAuthSessionByTokenHash_def find_marks)

lemma dead_state: "dead h s \<Longrightarrow> dead h (fst (getAuthState env token s))"
  by (auto simp: getAuthState_def dead_marks split: option.split)

lemma dead_logout: "dead h s \<Longrightarrow> dead h (fst (logout env token s))"
  by (auto simp: logout_def dead_marks split: option.split)

lemma dead_frame: "ad_sessions s' = ad_sessions s \<Longrightarrow> dead h s' = dead h s"
  by (simp add: dead_def)

lemma find_append_hit: "find P xs = Some x \<Longrightarrow> find P (xs @ ys) = Some x"
  by (induction xs) (auto split: if_splits)

lemma dead_issue:
  assumes "inj (ev_uuid env)" and "sess_ok env outs s" and "dead h s"
  shows "dead h (fst (issueSession env u m s))"
proof -
  obtain s' r where eq: "issueSession env u m s = (s', r)" by force
  from assms(1,2) eq show ?thesis
  proof (cases rule: issue_cases)
    case conflict
    then show ?thesis using assms(3) eq by (simp add: dead_def)
  next
    case (given x)
    then show ?thesis using assms(3) eq by (auto simp: dead_def getAuthSessionByTokenHash_def intro: find_append_hit)
  qed
qed

lemma dead_login:
  "inj (ev_uuid env) \<Longrightarrow> sess_ok env outs s \<Longrightarrow> dead h s \<Longrightarrow> dead h (fst (login env i s))"
  by (auto simp: login_def dead_issue split: list.split option.split)

lemma dead_switch:
  assumes "inj (ev_uuid env)" and "sess_ok env outs s" and "dead h s"
  shows "dead h (fst (switchOrganization env token org s))"
proof -
  obtain s1 a where g: "getAuthState env token s = (s1, a)" by force
  have 1: "sess_ok env outs s1" "dead h s1"
    using sess_ok_state [OF assms(2), of token] dead_state [OF assms(3), of env token] g by simp_all
  show ?thesis
    using g 1 dead_issue [OF assms(1) sess_ok_logout [OF 1(1)] dead_logout [OF 1(2)]]
    by (auto simp: switchOrganization_def split: option.split)
qed

lemma owner_sessions: "saveWorkspaceOwner env u org o' n s = Some s' \<Longrightarrow> ad_sessions s' = ad_sessions s"
  by (auto simp: saveWorkspaceOwner_def draw_uuid_def)

lemma dead_create: "dead h s \<Longrightarrow> dead h (fst (createWorkspace env token org s))"
proof -
  assume d: "dead h s"
  obtain s1 a where g: "getAuthState env token s = (s1, a)" by force
  have 1: "dead h s1" using dead_state [OF d, of env token] g by simp
  then show ?thesis using g dead_frame [OF owner_sessions]
    by (auto simp: createWorkspace_def dead_def split: option.split prod.split dest!: owner_sessions)
qed

lemma dead_step:
  "inj (ev_uuid env) \<Longrightarrow> sess_ok env outs s \<Longrightarrow> keeps_rows e \<Longrightarrow> dead h s \<Longrightarrow> dead h (fst (auth_step env e s))"
  by (cases e) (simp_all add: dead_login dead_state dead_logout dead_switch dead_create, simp_all add: dead_def)

lemma dead_run:
  "inj (ev_uuid env) \<Longrightarrow> auth_ok env outs s \<Longrightarrow> list_all keeps_rows es \<Longrightarrow> dead h s \<Longrightarrow> dead h (fst (auth_run env es s))"
proof (induction es arbitrary: outs s)
  case (Cons e es)
  obtain s1 o1 where e: "auth_step env e s = (s1, o1)" by force
  have "auth_ok env (outs @ o1) s1" using step_auth_ok [OF Cons.prems(1,2), of e] e by simp
  moreover have "dead h s1" using dead_step [of env outs s e h] Cons.prems e by (simp add: auth_ok_def)
  ultimately have "dead h (fst (auth_run env es s1))" using Cons by simp
  then show ?case using e by (cases "auth_run env es s1") simp
qed simp

lemma dead_unauthenticated:
  assumes "dead (ev_sha256 env token) s"
  shows "snd (getAuthState env (Some token) s) = None"
  using assms by (auto simp: dead_def getAuthState_def)

text \<open>
  C28: A token that has been logged out never authenticates again, whatever logins, changes of the
  organization, new workspaces and other events follow, as long as no workspace is deleted or
  onboarded.
\<close>
theorem logged_out_stays_out:
  assumes "inj (ev_uuid env)" and "logout env (Some token) (fst (auth_run env es auth_empty)) = (s, True)"
    and "list_all keeps_rows es'"
  shows "snd (getAuthState env (Some token) (fst (auth_run env es' s))) = None"
proof -
  let ?s0 = "fst (auth_run env es auth_empty)"
  have ok: "auth_ok env (snd (auth_run env es auth_empty)) ?s0" by (rule history_auth_ok [OF assms(1)])
  have s: "auth_ok env (snd (auth_run env es auth_empty)) s" using auth_ok_logout [OF ok, of "Some token"] assms(2) by simp
  have "dead (ev_sha256 env token) s"
    using assms(2)
    by (auto simp: logout_def dead_def getAuthSessionByTokenHash_def find_marks split: option.splits if_splits)
  from dead_run [OF assms(1) s assms(3) this] show ?thesis by (rule dead_unauthenticated)
qed

section \<open>Witnesses\<close>

definition demo_auth :: auth_env where
  "demo_auth = \<lparr>ev_scrypt = (\<lambda>p s n. replicate n (length p mod 256)), ev_sha256 = (\<lambda>t. ''#'' @ t),
     ev_random = (\<lambda>k n. replicate n (k mod 256)), ev_uuid = (\<lambda>n. replicate n (CHR ''u'')), ev_emailOk = (\<lambda>_. True)\<rparr>"

lemma demo_inj: "inj (ev_uuid demo_auth)"
  by (rule injI) (simp add: demo_auth_def replicate_eq_replicate)

lemma demo_crypto: "crypto_ok demo_auth"
  by (simp add: crypto_ok_def demo_auth_def)

definition demo_token :: string where
  "demo_token = concat (replicate 32 ''02'')"

definition demo_first :: "auth_event list" where
  "demo_first = [Au_Onboard None ''o1'' ''ow'' ''Ann'' '' Ann@x.io'' ''pw'', Au_Create (Some demo_token) ''o2'']"

theorem password_roundtrip_witness:
  "\<forall>s. verifyPassword demo_auth ''pw'' (fst (hashPassword demo_auth ''pw'' s)) \<and>
     \<not> verifyPassword demo_auth ''pass'' (fst (hashPassword demo_auth ''pw'' s))"
  by (simp add: password_roundtrip [OF demo_crypto] Let_def) (simp add: demo_auth_def PASSWORD_KEYLEN_def)

lemma demo_authenticated: "\<not> Option.is_none (snd (getAuthState demo_auth (Some demo_token) (fst (auth_run demo_auth demo_first auth_empty))))"
  by code_simp

lemma demo_switched: "case snd (switchOrganization demo_auth (Some demo_token) ''o2'' (fst (auth_run demo_auth demo_first auth_empty))) of Inr _ \<Rightarrow> True | Inl _ \<Rightarrow> False"
  by code_simp

lemma demo_loggedout: "snd (logout demo_auth (Some demo_token) (fst (auth_run demo_auth demo_first auth_empty)))"
  by code_simp

theorem authenticated_was_issued_witness:
  "\<exists>r \<in> set (snd (auth_run demo_auth demo_first auth_empty)). ev_sha256 demo_auth (is_token r) = ev_sha256 demo_auth demo_token"
proof -
  let ?s = "fst (auth_run demo_auth demo_first auth_empty)" and ?o = "snd (auth_run demo_auth demo_first auth_empty)"
  obtain s' a where "getAuthState demo_auth (Some demo_token) ?s = (s', Some a)"
    using demo_authenticated by (cases "getAuthState demo_auth (Some demo_token) ?s"; cases "snd (getAuthState demo_auth (Some demo_token) ?s)") auto
  from authenticated_was_issued [OF demo_inj _ this, of demo_first ?o] show ?thesis by (metis prod.collapse)
qed

theorem switch_keeps_password_witness:
  "\<exists>s1 a s2 r. getAuthState demo_auth (Some demo_token) (fst (auth_run demo_auth demo_first auth_empty)) = (s1, Some a) \<and>
     switchOrganization demo_auth (Some demo_token) ''o2'' (fst (auth_run demo_auth demo_first auth_empty)) = (s2, Inr r) \<and>
     ur_passwordHash (is_user r) = ur_passwordHash (ai_user a) \<and> ur_org (is_user r) = ''o2''"
proof -
  let ?s = "fst (auth_run demo_auth demo_first auth_empty)"
  have e: "auth_run demo_auth demo_first auth_empty = (?s, snd (auth_run demo_auth demo_first auth_empty))" by simp
  obtain s1 a where g: "getAuthState demo_auth (Some demo_token) ?s = (s1, Some a)"
    using demo_authenticated by (cases "getAuthState demo_auth (Some demo_token) ?s"; cases "snd (getAuthState demo_auth (Some demo_token) ?s)") auto
  obtain s2 r where w: "switchOrganization demo_auth (Some demo_token) ''o2'' ?s = (s2, Inr r)"
    using demo_switched by (cases "switchOrganization demo_auth (Some demo_token) ''o2'' ?s"; cases "snd (switchOrganization demo_auth (Some demo_token) ''o2'' ?s)") auto
  from switch_keeps_password [OF demo_inj e g w] g w show ?thesis by blast
qed

theorem logged_out_stays_out_witness:
  "\<forall>i n. snd (getAuthState demo_auth (Some demo_token) (fst (auth_run demo_auth [Au_Login i, Au_Tick n]
     (fst (logout demo_auth (Some demo_token) (fst (auth_run demo_auth demo_first auth_empty))))))) = None"
proof (intro allI)
  fix i n
  let ?l = "logout demo_auth (Some demo_token) (fst (auth_run demo_auth demo_first auth_empty))"
  have "?l = (fst ?l, True)" using demo_loggedout by (metis prod.collapse)
  moreover have "list_all keeps_rows [Au_Login i, Au_Tick n]" by simp
  ultimately show "snd (getAuthState demo_auth (Some demo_token) (fst (auth_run demo_auth [Au_Login i, Au_Tick n] (fst ?l)))) = None"
    by (rule logged_out_stays_out [OF demo_inj])
qed

end
