(* ===== verification/Attachments.thy ===== *)
theory Attachments
  imports MessageStore JsValues Paths
begin

text \<open>
  The files agents produce: the rows and files of \<open>agent-attachments.ts\<close> and
  \<open>attachments.ts\<close> (\<open>runtime-core/src/repositories\<close>), the capture of the images and documents
  that tools return and the sweep of old rows (\<open>agent-attachment-capture.ts\<close>). Bytes are
  characters, a file is its content under its path, times are milliseconds.
\<close>

section \<open>Tables, files and the outside\<close>

datatype att_category = Cat_Image | Cat_Document | Cat_Audio | Cat_Video | Cat_Archive | Cat_Other

record agent_attachment =
  aa_id :: string
  aa_org :: string
  aa_run :: string
  aa_member :: string
  aa_call :: "string option"
  aa_server :: "string option"
  aa_tool :: "string option"
  aa_category :: att_category
  aa_mime :: string
  aa_filename :: string
  aa_storagePath :: string
  aa_byteSize :: int
  aa_createdAt :: int
  aa_pinned :: "string option"

text \<open>The columns of \<open>attachments\<close> that messages do not need.\<close>

record user_attachment = attachment +
  ua_mime :: string
  ua_category :: att_category
  ua_storagePath :: string
  ua_uploadedBy :: string
  ua_createdAt :: int

text \<open>What \<open>agentAttachmentCreated\<close> of \<open>connector-audit.ts\<close> records.\<close>

record att_audit =
  ad_row :: string
  ad_fromTool :: bool

record att_world =
  sw_agent :: "agent_attachment list"
  sw_users :: "user_attachment list"
  sw_files :: "(string \<times> string) list"
  sw_audit :: "att_audit list"
  sw_drawn :: nat

text \<open>
  What the code cannot decide: the clock, the identifiers, and which operations on the disk
  (\<open>ae_write\<close>, \<open>ae_unlinkFault\<close>) and on the database fail. \<open>writeFileSync\<close> may fail after
  part of the content.
\<close>

datatype write_result = Written | Not_Written | Cut_Short string

record att_env =
  ae_now :: int
  ae_uuid :: "nat \<Rightarrow> string"
  ae_write :: "string \<Rightarrow> string \<Rightarrow> write_result"
  ae_insertFault :: "string \<Rightarrow> bool"
  ae_unlinkFault :: "string \<Rightarrow> bool"
  ae_deleteFault :: "string \<Rightarrow> bool"

definition draw_id :: "att_env \<Rightarrow> string \<Rightarrow> att_world \<Rightarrow> string \<times> att_world" where
  "draw_id env prefix w = (prefix @ ae_uuid env (sw_drawn w), w\<lparr>sw_drawn := Suc (sw_drawn w)\<rparr>)"

definition write_file :: "att_env \<Rightarrow> string \<Rightarrow> string \<Rightarrow> att_world \<Rightarrow> bool \<times> att_world" where
  "write_file env path bytes w =
     (case ae_write env path bytes of
        Written \<Rightarrow> (True, w\<lparr>sw_files := kv_put path bytes (sw_files w)\<rparr>)
      | Not_Written \<Rightarrow> (False, w)
      | Cut_Short part \<Rightarrow> (False, w\<lparr>sw_files := kv_put path part (sw_files w)\<rparr>))"

text \<open>\<open>rmSync(path, { force: true })\<close>, its failures caught.\<close>

definition unlink_file :: "att_env \<Rightarrow> string \<Rightarrow> att_world \<Rightarrow> att_world" where
  "unlink_file env path w = (if ae_unlinkFault env path then w else w\<lparr>sw_files := kv_del path (sw_files w)\<rparr>)"

section \<open>agent-attachments.ts and attachments.ts\<close>

definition agent_schema :: "agent_attachment \<Rightarrow> bool" where
  "agent_schema a = (aa_id a \<noteq> [] \<and> aa_org a \<noteq> [] \<and> aa_run a \<noteq> [] \<and> aa_member a \<noteq> [] \<and> aa_mime a \<noteq> [] \<and>
     aa_filename a \<noteq> [] \<and> aa_storagePath a \<noteq> [] \<and> 0 \<le> aa_byteSize a)"

text \<open>\<open>None\<close> is an exception: the schema, the primary key or the database refuses the row.\<close>

definition saveAgentAttachment :: "att_env \<Rightarrow> agent_attachment \<Rightarrow> agent_attachment list \<Rightarrow> agent_attachment list option" where
  "saveAgentAttachment env a t =
     (if \<not> agent_schema a \<or> ae_insertFault env (aa_id a) then None else tbl_insert aa_id a t)"

definition getAgentAttachment :: "string \<Rightarrow> string \<Rightarrow> agent_attachment list \<Rightarrow> agent_attachment option" where
  "getAgentAttachment org i t = find (\<lambda>a. aa_org a = org \<and> aa_id a = i) t"

definition row_order :: "agent_attachment \<Rightarrow> agent_attachment \<Rightarrow> int" where
  "row_order a b = (if aa_createdAt a = aa_createdAt b then str_cmp (aa_id a) (aa_id b) else aa_createdAt a - aa_createdAt b)"

definition findAgentAttachmentByToolCall :: "string \<Rightarrow> string \<Rightarrow> nat \<Rightarrow> agent_attachment list \<Rightarrow> agent_attachment option" where
  "findAgentAttachmentByToolCall org callId index t =
     (let rows = sort_cmp row_order (filter (\<lambda>a. aa_org a = org \<and> aa_call a = Some callId) t)
      in if index < length rows then Some (rows ! index) else None)"

definition pinAgentAttachmentToMessage :: "string \<Rightarrow> string \<Rightarrow> string \<Rightarrow> agent_attachment list \<Rightarrow> agent_attachment list" where
  "pinAgentAttachmentToMessage org i messageId t =
     tbl_update (\<lambda>a. aa_org a = org \<and> aa_id a = i) (\<lambda>a. a\<lparr>aa_pinned := Some messageId\<rparr>) t"

definition listAgentAttachmentsForRun :: "string \<Rightarrow> string \<Rightarrow> agent_attachment list \<Rightarrow> agent_attachment list" where
  "listAgentAttachmentsForRun org run t =
     sort_cmp (by_int aa_createdAt) (filter (\<lambda>a. aa_org a = org \<and> aa_run a = run) t)"

definition expired_unpinned :: "string \<Rightarrow> int \<Rightarrow> agent_attachment \<Rightarrow> bool" where
  "expired_unpinned org cutoff a = (aa_org a = org \<and> aa_pinned a = None \<and> aa_createdAt a < cutoff)"

definition listExpiredUnpinnedAgentAttachments :: "string \<Rightarrow> int \<Rightarrow> agent_attachment list \<Rightarrow> agent_attachment list" where
  "listExpiredUnpinnedAgentAttachments org cutoff t = filter (expired_unpinned org cutoff) t"

definition deleteAgentAttachment :: "string \<Rightarrow> string \<Rightarrow> agent_attachment list \<Rightarrow> agent_attachment list" where
  "deleteAgentAttachment org i t = tbl_delete (\<lambda>a. aa_org a = org \<and> aa_id a = i) t"

definition sumAgentAttachmentBytes :: "string \<Rightarrow> agent_attachment list \<Rightarrow> int" where
  "sumAgentAttachmentBytes org t = sum_list (map aa_byteSize (filter (\<lambda>a. aa_org a = org) t))"

definition user_schema :: "user_attachment \<Rightarrow> bool" where
  "user_schema a = (at_id a \<noteq> [] \<and> at_org a \<noteq> [] \<and> at_filename a \<noteq> [] \<and> ua_mime a \<noteq> [] \<and> 0 \<le> at_sizeBytes a \<and>
     ua_storagePath a \<noteq> [] \<and> ua_uploadedBy a \<noteq> [])"

definition saveAttachment :: "att_env \<Rightarrow> user_attachment \<Rightarrow> user_attachment list \<Rightarrow> user_attachment list option" where
  "saveAttachment env a t = (if \<not> user_schema a \<or> ae_insertFault env (at_id a) then None else tbl_insert at_id a t)"

definition deleteAttachment :: "string \<Rightarrow> string \<Rightarrow> user_attachment list \<Rightarrow> user_attachment list" where
  "deleteAttachment org i t = tbl_delete (\<lambda>a. at_org a = org \<and> at_id a = i) t"

text \<open>Deletions as the callers make them: what fails is logged and skipped.\<close>

definition drop_agent :: "att_env \<Rightarrow> string \<Rightarrow> string \<Rightarrow> att_world \<Rightarrow> att_world" where
  "drop_agent env org i w = (if ae_deleteFault env i then w else w\<lparr>sw_agent := deleteAgentAttachment org i (sw_agent w)\<rparr>)"

definition drop_user :: "att_env \<Rightarrow> string \<Rightarrow> string \<Rightarrow> att_world \<Rightarrow> att_world" where
  "drop_user env org i w = (if ae_deleteFault env i then w else w\<lparr>sw_users := deleteAttachment org i (sw_users w)\<rparr>)"

section \<open>Kinds of content\<close>

text \<open>Decoding to UTF-8 keeps ASCII text as it is, so \<open>includes('<svg')\<close> is asked of the bytes.\<close>

definition sniffMimeAndCategory :: "string \<Rightarrow> (string \<times> att_category) option" where
  "sniffMimeAndCategory b =
     (if length b < 4 then None
      else if starts_with b [CHR 0x89, CHR 0x50, CHR 0x4E, CHR 0x47] then Some (''image/png'', Cat_Image)
      else if starts_with b [CHR 0xFF, CHR 0xD8, CHR 0xFF] then Some (''image/jpeg'', Cat_Image)
      else if starts_with b [CHR 0x47, CHR 0x49, CHR 0x46, CHR 0x38] then Some (''image/gif'', Cat_Image)
      else if length b \<ge> 12 \<and> starts_with b [CHR 0x52, CHR 0x49, CHR 0x46, CHR 0x46] \<and>
              starts_with (drop 8 b) [CHR 0x57, CHR 0x45, CHR 0x42, CHR 0x50] then Some (''image/webp'', Cat_Image)
      else if starts_with b [CHR 0x25, CHR 0x50, CHR 0x44, CHR 0x46] then Some (''application/pdf'', Cat_Document)
      else if length b \<ge> 5 \<and> includes_str (take 200 b) ''<svg'' then Some (''image/svg+xml'', Cat_Image)
      else None)"

definition extensionForMime :: "string \<Rightarrow> string" where
  "extensionForMime mime =
     (if mime = ''image/png'' then ''.png'' else if mime = ''image/jpeg'' then ''.jpg''
      else if mime = ''image/gif'' then ''.gif'' else if mime = ''image/webp'' then ''.webp''
      else if mime = ''image/svg+xml'' then ''.svg'' else if mime = ''application/pdf'' then ''.pdf'' else ''.bin'')"

definition categoryFromMime :: "string \<Rightarrow> att_category option" where
  "categoryFromMime mime =
     (if starts_with mime ''image/'' then Some Cat_Image
      else if starts_with mime ''audio/'' then Some Cat_Audio
      else if starts_with mime ''video/'' then Some Cat_Video
      else if mime = ''application/pdf'' \<or> mime = ''application/msword'' \<or>
              starts_with mime ''application/vnd.openxmlformats-officedocument'' \<or> starts_with mime ''application/vnd.ms-''
           then Some Cat_Document
      else if mime \<in> set [''application/zip'', ''application/x-tar'', ''application/gzip'',
                ''application/x-7z-compressed'', ''application/x-rar-compressed'']
           then Some Cat_Archive
      else None)"

text \<open>
  \<open>Buffer.from(s, 'base64')\<close>: both alphabets, characters outside them are skipped, bits that
  make no byte are dropped.
\<close>

definition b64_value :: "char \<Rightarrow> nat option" where
  "b64_value c =
     (let n = of_char c :: nat in
      if is_upper c then Some (n - 65) else if is_lower c then Some (n - 71) else if is_digit c then Some (n + 4)
      else if c = CHR 0x2B \<or> c = CHR 0x2D then Some 62 else if c = CHR 0x2F \<or> c = CHR 0x5F then Some 63 else None)"

fun b64_bytes :: "nat list \<Rightarrow> string" where
  "b64_bytes (a # b # c # d # rest) =
     char_of (a * 4 + b div 16) # char_of (b mod 16 * 16 + c div 4) # char_of (c mod 4 * 64 + d) # b64_bytes rest"
| "b64_bytes [a, b, c] = [char_of (a * 4 + b div 16), char_of (b mod 16 * 16 + c div 4)]"
| "b64_bytes [a, b] = [char_of (a * 4 + b div 16)]"
| "b64_bytes _ = []"

definition base64_decode :: "string \<Rightarrow> string" where
  "base64_decode s = b64_bytes (List.map_filter b64_value s)"

text \<open>\<open>value.startsWith('data:') ? value.split(',', 2)[1] ?? '' : value\<close>.\<close>

definition strip_data_url :: "string \<Rightarrow> string" where
  "strip_data_url s =
     (if starts_with s ''data:'' then (case split_char (CHR 0x2C) s of _ # p # _ \<Rightarrow> p | _ \<Rightarrow> []) else s)"

section \<open>Capture\<close>

record att_blob =
  bl_bytes :: string
  bl_mime :: "string option"

definition looks_base64 :: "string \<Rightarrow> bool" where
  "looks_base64 s = (s \<noteq> [] \<and> list_all (\<lambda>c. is_upper c \<or> is_lower c \<or> is_digit c \<or> c \<in> set ''+/='') s)"

definition string_blobs :: "string \<Rightarrow> att_blob list" where
  "string_blobs s =
     (if length s < 200 then []
      else let stripped = strip_data_url s in
        if \<not> looks_base64 (take 64 stripped) then []
        else let decoded = base64_decode stripped in
          if length decoded \<ge> 64 then [\<lparr>bl_bytes = decoded, bl_mime = None\<rparr>] else [])"

text \<open>The object shapes that are a blob as a whole.\<close>

definition object_blob :: "(string \<times> json) list \<Rightarrow> att_blob option" where
  "object_blob kvs =
     (let image = (obj_get kvs ''type'' = Some (JStr ''image''));
          source = (case obj_get kvs ''source'' of Some (JObj s) \<Rightarrow> s | _ \<Rightarrow> []);
          data = as_string (obj_get kvs ''data'');
          mime = as_string (obj_get kvs ''mimeType'')
      in if image \<and> obj_get source ''type'' = Some (JStr ''base64'') \<and> as_string (obj_get source ''data'') \<noteq> None
         then Some \<lparr>bl_bytes = base64_decode (coalesce (as_string (obj_get source ''data'')) []),
                    bl_mime = as_string (obj_get source ''mediaType'')\<rparr>
         else (case data of
           None \<Rightarrow> None
         | Some d \<Rightarrow>
             if image then Some \<lparr>bl_bytes = base64_decode d, bl_mime = mime\<rparr>
             else (case mime of
               None \<Rightarrow> None
             | Some m \<Rightarrow>
                 if starts_with m ''text/'' \<or> m = ''application/json'' \<or> m = ''application/xml'' then None
                 else Some \<lparr>bl_bytes = base64_decode d, bl_mime = mime\<rparr>)))"

fun extractCandidateBlobs :: "json \<Rightarrow> att_blob list" where
  "extractCandidateBlobs (JStr s) = string_blobs s"
| "extractCandidateBlobs (JArr xs) = concat (map extractCandidateBlobs xs)"
| "extractCandidateBlobs (JObj kvs) =
     (case object_blob kvs of
        Some b \<Rightarrow> [b]
      | None \<Rightarrow> concat (map (\<lambda>kv. extractCandidateBlobs (snd kv)) kvs))"
| "extractCandidateBlobs _ = []"

datatype capture_hint = Never | Widened "att_category list"

record capture_decision =
  cd_bytes :: string
  cd_mime :: string
  cd_category :: att_category

definition decideCapture :: "att_blob \<Rightarrow> capture_hint option \<Rightarrow> capture_decision option" where
  "decideCapture b hint =
     (if hint = Some Never then None
      else case sniffMimeAndCategory (bl_bytes b) of
        Some (mime, cat) \<Rightarrow> Some \<lparr>cd_bytes = bl_bytes b, cd_mime = mime, cd_category = cat\<rparr>
      | None \<Rightarrow>
          (case hint of
             Some (Widened (c # cs)) \<Rightarrow>
               Some \<lparr>cd_bytes = bl_bytes b, cd_mime = coalesce (bl_mime b) ''application/octet-stream'', cd_category = c\<rparr>
           | _ \<Rightarrow>
               (case bl_mime b of
                  None \<Rightarrow> None
                | Some m \<Rightarrow>
                    if m = [] then None
                    else map_option (\<lambda>c. \<lparr>cd_bytes = bl_bytes b, cd_mime = m, cd_category = c\<rparr>) (categoryFromMime m))))"

text \<open>\<open>join\<close> of the path module; no part ends with a separator.\<close>

fun norm_relative :: "string list \<Rightarrow> string list \<Rightarrow> string list" where
  "norm_relative stack [] = rev stack"
| "norm_relative stack (s # ss) =
     (if s = [] \<or> s = ''.'' then norm_relative stack ss
      else if s = ''..'' \<and> stack \<noteq> [] \<and> hd stack \<noteq> ''..'' then norm_relative (tl stack) ss
      else norm_relative (s # stack) ss)"

definition path_join :: "string list \<Rightarrow> string" where
  "path_join parts =
     (let p = join_with [slash] (filter (\<lambda>x. x \<noteq> []) parts) in
      if isAbsolute p then render (segs p)
      else let s = join_with [slash] (norm_relative [] (split_char slash p)) in if s = [] then ''.'' else s)"

record capture_deps =
  cp_agentRoot :: string
  cp_storeRoot :: string
  cp_perOrgQuota :: "int option"
  cp_perFileCap :: "int option"

definition DEFAULT_PER_FILE_CAP_BYTES :: int where "DEFAULT_PER_FILE_CAP_BYTES = 10 * 1024 * 1024"
definition DEFAULT_PER_ORG_QUOTA_BYTES :: int where "DEFAULT_PER_ORG_QUOTA_BYTES = 1024 * 1024 * 1024"

definition file_cap :: "capture_deps \<Rightarrow> int" where
  "file_cap deps = coalesce (cp_perFileCap deps) DEFAULT_PER_FILE_CAP_BYTES"

definition org_quota :: "capture_deps \<Rightarrow> int" where
  "org_quota deps = coalesce (cp_perOrgQuota deps) DEFAULT_PER_ORG_QUOTA_BYTES"

record capture_input =
  ci_org :: string
  ci_run :: string
  ci_member :: string
  ci_server :: string
  ci_tool :: string
  ci_call :: string
  ci_result :: json
  ci_hint :: "capture_hint option"

record attachment_ref =
  rf_ref :: string
  rf_category :: att_category
  rf_filename :: string
  rf_byteSize :: int

definition safe_label :: "nat \<Rightarrow> string \<Rightarrow> string \<Rightarrow> string" where
  "safe_label n fallback s =
     (let t = take n (filter (\<lambda>c. is_word c \<or> c = CHR 0x2D) s) in if t = [] then fallback else t)"

definition filenameFor :: "string \<Rightarrow> string \<Rightarrow> nat \<Rightarrow> string \<Rightarrow> string" where
  "filenameFor serverId toolName index extension =
     safe_label 24 ''server'' serverId @ ''-'' @ safe_label 32 ''tool'' toolName @ ''-'' @ nat_to_str index @ extension"

text \<open>The file first, then the row; the bytes freed, none when the row stays.\<close>

definition deleteOneAgentAttachmentRowAndFile :: "att_env \<Rightarrow> string \<Rightarrow> string \<Rightarrow> agent_attachment \<Rightarrow> att_world \<Rightarrow> int \<times> att_world" where
  "deleteOneAgentAttachmentRowAndFile env storeRoot org row w =
     (let w' = unlink_file env (storeRoot @ [slash] @ aa_storagePath row) w
      in (if ae_deleteFault env (aa_id row) then 0 else aa_byteSize row, drop_agent env org (aa_id row) w'))"

definition sweep_rows :: "att_env \<Rightarrow> string \<Rightarrow> string \<Rightarrow> agent_attachment list \<Rightarrow> att_world \<Rightarrow> att_world" where
  "sweep_rows env storeRoot org rows w =
     fold (\<lambda>row w. snd (deleteOneAgentAttachmentRowAndFile env storeRoot org row w)) rows w"

text \<open>The quota: over it, rows of more than a day go first, once.\<close>

definition make_room :: "att_env \<Rightarrow> capture_deps \<Rightarrow> string \<Rightarrow> int \<Rightarrow> att_world \<Rightarrow> bool \<times> att_world" where
  "make_room env deps org bytes w =
     (if sumAgentAttachmentBytes org (sw_agent w) + bytes > org_quota deps
      then let w' = sweep_rows env (cp_storeRoot deps) org
                 (listExpiredUnpinnedAgentAttachments org (ae_now env - 24 * 60 * 60 * 1000) (sw_agent w)) w
           in (\<not> sumAgentAttachmentBytes org (sw_agent w') + bytes > org_quota deps, w')
      else (True, w))"

definition captured_row :: "att_env \<Rightarrow> capture_input \<Rightarrow> string \<Rightarrow> nat \<Rightarrow> capture_decision \<Rightarrow> agent_attachment" where
  "captured_row env i rowId index d =
     \<lparr>aa_id = rowId, aa_org = ci_org i, aa_run = ci_run i, aa_member = ci_member i, aa_call = Some (ci_call i),
      aa_server = Some (ci_server i), aa_tool = Some (ci_tool i), aa_category = cd_category d, aa_mime = cd_mime d,
      aa_filename = filenameFor (ci_server i) (ci_tool i) index (extensionForMime (cd_mime d)),
      aa_storagePath = path_join [''agent-generated'', ci_org i, ci_run i, rowId @ extensionForMime (cd_mime d)],
      aa_byteSize = int (length (cd_bytes d)), aa_createdAt = ae_now env, aa_pinned = None\<rparr>"

definition captured_ref :: "capture_input \<Rightarrow> nat \<Rightarrow> agent_attachment \<Rightarrow> attachment_ref" where
  "captured_ref i index row =
     \<lparr>rf_ref = ''tc_'' @ ci_call i @ '':'' @ nat_to_str index, rf_category = aa_category row,
      rf_filename = aa_filename row, rf_byteSize = aa_byteSize row\<rparr>"

definition capture_blob ::
  "att_env \<Rightarrow> capture_deps \<Rightarrow> capture_input \<Rightarrow> att_blob \<Rightarrow> att_world \<times> attachment_ref list \<Rightarrow> att_world \<times> attachment_ref list" where
  "capture_blob env deps i b s =
     (case s of (w, refs) \<Rightarrow>
       (case decideCapture b (ci_hint i) of
          None \<Rightarrow> (w, refs)
        | Some d \<Rightarrow>
            if int (length (cd_bytes d)) > file_cap deps then (w, refs)
            else (case make_room env deps (ci_org i) (int (length (cd_bytes d))) w of
              (False, w1) \<Rightarrow> (w1, refs)
            | (True, w1) \<Rightarrow>
                (case draw_id env ''aatt_'' w1 of (rowId, w2) \<Rightarrow>
                   (let path = path_join [cp_agentRoot deps, ci_org i, ci_run i, rowId @ extensionForMime (cd_mime d)];
                        row = captured_row env i rowId (length refs) d
                    in case write_file env path (cd_bytes d) w2 of
                         (False, w3) \<Rightarrow> (w3, refs)
                       | (True, w3) \<Rightarrow>
                           (case saveAgentAttachment env row (sw_agent w3) of
                              None \<Rightarrow> (unlink_file env path w3, refs)
                            | Some t \<Rightarrow>
                                (w3\<lparr>sw_agent := t, sw_audit := sw_audit w3 @ [\<lparr>ad_row = rowId, ad_fromTool = True\<rparr>]\<rparr>,
                                 refs @ [captured_ref i (length refs) row])))))))"

text \<open>The index of a reference is the number of references before it.\<close>

definition captureToolResultAttachments ::
  "att_env \<Rightarrow> capture_deps \<Rightarrow> capture_input \<Rightarrow> att_world \<Rightarrow> att_world \<times> attachment_ref list" where
  "captureToolResultAttachments env deps i w =
     (if ci_hint i = Some Never then (w, [])
      else fold (capture_blob env deps i) (extractCandidateBlobs (ci_result i)) (w, []))"

section \<open>The sweep\<close>

definition DEFAULT_LRU_TTL_HOURS :: int where "DEFAULT_LRU_TTL_HOURS = 4"

definition sweep_one ::
  "att_env \<Rightarrow> string \<Rightarrow> string \<Rightarrow> agent_attachment \<Rightarrow> (nat \<times> int) \<times> att_world \<Rightarrow> (nat \<times> int) \<times> att_world" where
  "sweep_one env storeRoot org row s =
     (case s of ((rows, bytes), w) \<Rightarrow>
       (case deleteOneAgentAttachmentRowAndFile env storeRoot org row w of
          (freed, w') \<Rightarrow> (if freed > 0 then (Suc rows, bytes + freed) else (rows, bytes), w')))"

definition sweep_org ::
  "att_env \<Rightarrow> string \<Rightarrow> int \<Rightarrow> string \<Rightarrow> (nat \<times> int) \<times> att_world \<Rightarrow> (nat \<times> int) \<times> att_world" where
  "sweep_org env storeRoot cutoff org s =
     fold (sweep_one env storeRoot org) (listExpiredUnpinnedAgentAttachments org cutoff (sw_agent (snd s))) s"

definition cleanupExpiredAgentAttachments ::
  "att_env \<Rightarrow> string \<Rightarrow> int option \<Rightarrow> string list \<Rightarrow> att_world \<Rightarrow> (nat \<times> int) \<times> att_world" where
  "cleanupExpiredAgentAttachments env storeRoot ttlHours orgs w =
     (let cutoff = ae_now env - coalesce ttlHours DEFAULT_LRU_TTL_HOURS * 60 * 60 * 1000
      in fold (sweep_org env storeRoot cutoff) orgs ((0, 0), w))"

end
