(* ===== verification/AttachmentCapture.thy ===== *)
theory AttachmentCapture
  imports Attachments "HOL-Library.Multiset"
begin

text \<open>
  What holds of the captures of tool results and of the sweep: the quota, the rows and files the
  sweep leaves alone, and the rows that the references of a capture lead to.
\<close>

section \<open>Sums of bytes\<close>

definition sizes_ok :: "agent_attachment list \<Rightarrow> bool" where
  "sizes_ok t \<longleftrightarrow> (\<forall>a \<in> set t. 0 \<le> aa_byteSize a)"

lemma sum_append [simp]:
  "sumAgentAttachmentBytes org (t @ [a]) = sumAgentAttachmentBytes org t + (if aa_org a = org then aa_byteSize a else 0)"
  by (simp add: sumAgentAttachmentBytes_def)

lemma sum_filter_le: "sizes_ok t \<Longrightarrow> sumAgentAttachmentBytes org (filter P t) \<le> sumAgentAttachmentBytes org t"
  by (induction t) (auto simp: sumAgentAttachmentBytes_def sizes_ok_def)

lemma sizes_filter: "sizes_ok t \<Longrightarrow> sizes_ok (filter P t)"
  by (simp add: sizes_ok_def)

lemma sweep_filters:
  "\<exists>P. sw_agent (sweep_rows env root org rows w) = filter P (sw_agent w) \<and> (\<forall>a. aa_id a \<notin> aa_id ` set rows \<longrightarrow> P a)"
proof (induction rows arbitrary: w)
  case Nil
  show ?case by (rule exI [of _ "\<lambda>_. True"]) (simp add: sweep_rows_def)
next
  case (Cons row rows)
  let ?w = "snd (deleteOneAgentAttachmentRowAndFile env root org row w)"
  let ?Q = "\<lambda>a. ae_deleteFault env (aa_id row) \<or> \<not> (aa_org a = org \<and> aa_id a = aa_id row)"
  have "sw_agent ?w = filter ?Q (sw_agent w)"
    by (simp add: deleteOneAgentAttachmentRowAndFile_def Let_def drop_agent_def unlink_file_def deleteAgentAttachment_def tbl_delete_def)
  moreover obtain P where "sw_agent (sweep_rows env root org rows ?w) = filter P (sw_agent ?w)" "\<forall>a. aa_id a \<notin> aa_id ` set rows \<longrightarrow> P a"
    using Cons [of ?w] by blast
  ultimately have "sw_agent (sweep_rows env root org (row # rows) w) = filter (\<lambda>a. ?Q a \<and> P a) (sw_agent w)"
    by (simp add: sweep_rows_def conj_commute)
  moreover have "\<forall>a. aa_id a \<notin> aa_id ` set (row # rows) \<longrightarrow> ?Q a \<and> P a"
    using \<open>\<forall>a. aa_id a \<notin> aa_id ` set rows \<longrightarrow> P a\<close> by simp
  ultimately show ?case by blast
qed

text \<open>Within the quota, before and after each blob.\<close>

definition within :: "capture_deps \<Rightarrow> capture_input \<Rightarrow> att_world \<times> attachment_ref list \<Rightarrow> bool" where
  "within deps i s \<longleftrightarrow> sizes_ok (sw_agent (fst s)) \<and> sumAgentAttachmentBytes (ci_org i) (sw_agent (fst s)) \<le> org_quota deps \<and>
     (\<forall>r \<in> set (snd s). rf_byteSize r \<le> file_cap deps)"

lemma make_room_within:
  assumes "sizes_ok (sw_agent w)" and "sumAgentAttachmentBytes org (sw_agent w) \<le> org_quota deps"
    and "make_room env deps org bytes w = (ok, w')"
  shows "sizes_ok (sw_agent w') \<and> sumAgentAttachmentBytes org (sw_agent w') \<le> org_quota deps \<and>
    (ok \<longrightarrow> sumAgentAttachmentBytes org (sw_agent w') + bytes \<le> org_quota deps)"
proof -
  have "\<exists>P. sw_agent w' = filter P (sw_agent w)"
  proof (cases "sumAgentAttachmentBytes org (sw_agent w) + bytes > org_quota deps")
    case True
    then have "w' = sweep_rows env (cp_storeRoot deps) org
        (listExpiredUnpinnedAgentAttachments org (ae_now env - 24 * 60 * 60 * 1000) (sw_agent w)) w"
      using assms(3) by (simp add: make_room_def Let_def)
    then show ?thesis using sweep_filters by blast
  next
    case False
    then have "sw_agent w' = filter (\<lambda>_. True) (sw_agent w)" using assms(3) by (simp add: make_room_def)
    then show ?thesis by blast
  qed
  then obtain P where P: "sw_agent w' = filter P (sw_agent w)" by blast
  have "ok \<Longrightarrow> sumAgentAttachmentBytes org (sw_agent w') + bytes \<le> org_quota deps"
    using assms(3) by (auto simp: make_room_def Let_def split: if_splits)
  then show ?thesis
    using assms(2) sum_filter_le [OF assms(1), of org P] sizes_filter [OF assms(1), of P] by (simp add: P)
qed

text \<open>A blob adds one row and its reference, or none; the sweep for room may have run.\<close>

lemma capture_blob_cases:
  obtains (kept) w' where "capture_blob env deps i b (w, refs) = (w', refs)"
      "sw_agent w' = sw_agent w \<or> (\<exists>bytes ok w1. make_room env deps (ci_org i) bytes w = (ok, w1) \<and> sw_agent w' = sw_agent w1)"
  | (added) c w1 w' where "decideCapture b (ci_hint i) = Some c" "int (length (cd_bytes c)) \<le> file_cap deps"
      "make_room env deps (ci_org i) (int (length (cd_bytes c))) w = (True, w1)"
      "capture_blob env deps i b (w, refs) =
        (w', refs @ [captured_ref i (length refs) (captured_row env i (''aatt_'' @ ae_uuid env (sw_drawn w1)) (length refs) c)])"
      "sw_agent w' = sw_agent w1 @ [captured_row env i (''aatt_'' @ ae_uuid env (sw_drawn w1)) (length refs) c]"
      "''aatt_'' @ ae_uuid env (sw_drawn w1) \<notin> aa_id ` set (sw_agent w1)"
proof (cases "decideCapture b (ci_hint i)")
  case None
  then show ?thesis using kept [of w] by (simp add: capture_blob_def)
next
  case (Some c)
  obtain ok w1 where room: "make_room env deps (ci_org i) (int (length (cd_bytes c))) w = (ok, w1)"
    by (cases "make_room env deps (ci_org i) (int (length (cd_bytes c))) w")
  let ?id = "''aatt_'' @ ae_uuid env (sw_drawn w1)"
  let ?row = "captured_row env i ?id (length refs) c"
  let ?path = "path_join [cp_agentRoot deps, ci_org i, ci_run i, ?id @ extensionForMime (cd_mime c)]"
  obtain stored w3 where disk: "write_file env ?path (cd_bytes c) (w1\<lparr>sw_drawn := Suc (sw_drawn w1)\<rparr>) = (stored, w3)"
    by (cases "write_file env ?path (cd_bytes c) (w1\<lparr>sw_drawn := Suc (sw_drawn w1)\<rparr>)")
  then have w3: "sw_agent w3 = sw_agent w1" by (auto simp: write_file_def split: write_result.splits)
  consider "int (length (cd_bytes c)) > file_cap deps" | "int (length (cd_bytes c)) \<le> file_cap deps" "\<not> (ok \<and> stored \<and> saveAgentAttachment env ?row (sw_agent w3) \<noteq> None)"
    | t where "int (length (cd_bytes c)) \<le> file_cap deps" ok stored "saveAgentAttachment env ?row (sw_agent w3) = Some t" by fastforce
  then show ?thesis
  proof cases
    case 1
    then show ?thesis using kept [of w] Some by (simp add: capture_blob_def)
  next
    case 2
    then obtain w' where "capture_blob env deps i b (w, refs) = (w', refs)" "sw_agent w' = sw_agent w1"
      using Some room disk w3
      by (cases ok; cases stored) (auto simp: capture_blob_def draw_id_def unlink_file_def Let_def)
    then show ?thesis using kept [of w'] room by blast
  next
    case 3
    then have "t = sw_agent w1 @ [?row]" "?id \<notin> aa_id ` set (sw_agent w1)" using w3 by (auto simp: saveAgentAttachment_def tbl_insert_def captured_row_def split: if_splits)
    then show ?thesis using added [of c w1 "w3\<lparr>sw_agent := t, sw_audit := sw_audit w3 @ [\<lparr>ad_row = ?id, ad_fromTool = True\<rparr>]\<rparr>"] 3 Some room disk
      by (simp add: capture_blob_def draw_id_def Let_def)
  qed
qed

lemma within_blob:
  assumes "within deps i s"
  shows "within deps i (capture_blob env deps i b s)"
proof (cases s)
  case (Pair w refs)
  have "within deps i (capture_blob env deps i b (w, refs))"
  proof (cases rule: capture_blob_cases [of env deps i b w refs])
    case (kept w')
    then show ?thesis using assms Pair make_room_within unfolding within_def by (metis fst_conv snd_conv)
  next
    case (added c w1 w')
    then show ?thesis using assms Pair make_room_within [OF _ _ added(3)]
      by (simp add: within_def captured_row_def captured_ref_def sizes_ok_def)
  qed
  then show ?thesis by (simp add: Pair)
qed

text \<open>
  C38: Whatever a tool returns, the captured files of an organization that is within its quota stay
  within it, and each reference handed to the agent is to a file within the cap.
\<close>
theorem capture_within_quota:
  assumes "\<forall>a \<in> set (sw_agent w). 0 \<le> aa_byteSize a" and "sumAgentAttachmentBytes (ci_org i) (sw_agent w) \<le> org_quota deps"
    and "captureToolResultAttachments env deps i w = (w', refs)"
  shows "sumAgentAttachmentBytes (ci_org i) (sw_agent w') \<le> org_quota deps \<and> (\<forall>r \<in> set refs. rf_byteSize r \<le> file_cap deps)"
proof -
  have "within deps i (fold (capture_blob env deps i) bs s)" if "within deps i s" for bs s
    using that by (induction bs arbitrary: s) (simp_all add: within_blob)
  from this [of "(w, [])" "extractCandidateBlobs (ci_result i)"] show ?thesis
    using assms by (auto simp: captureToolResultAttachments_def within_def sizes_ok_def split: if_splits)
qed

section \<open>The sweep\<close>

definition steady :: "att_env \<Rightarrow> bool" where
  "steady env \<longleftrightarrow> (\<forall>i. \<not> ae_deleteFault env i) \<and> (\<forall>p. \<not> ae_unlinkFault env p)"

text \<open>Rows and files that are theirs alone.\<close>

definition rows_apart :: "agent_attachment list \<Rightarrow> bool" where
  "rows_apart t \<longleftrightarrow> distinct (map aa_id t) \<and> distinct (map aa_storagePath t)"

definition file_of :: "string \<Rightarrow> agent_attachment \<Rightarrow> string" where
  "file_of storeRoot a = storeRoot @ [slash] @ aa_storagePath a"

lemma delete_one:
  assumes "steady env"
  shows "sw_agent (snd (deleteOneAgentAttachmentRowAndFile env root org row w)) = filter (\<lambda>a. \<not> (aa_org a = org \<and> aa_id a = aa_id row)) (sw_agent w)"
    and "kv_get (sw_files (snd (deleteOneAgentAttachmentRowAndFile env root org row w))) p =
      (if p = file_of root row then None else kv_get (sw_files w) p)"
  using assms
  by (simp_all add: deleteOneAgentAttachmentRowAndFile_def Let_def drop_agent_def unlink_file_def steady_def deleteAgentAttachment_def
      tbl_delete_def file_of_def kv.lookup_del)

lemma sweep_one_snd: "snd (sweep_one env root org row s) = snd (deleteOneAgentAttachmentRowAndFile env root org row (snd s))"
  by (simp add: sweep_one_def split: prod.split)

lemma fold_sweep:
  assumes "steady env"
  shows "sw_agent (snd (fold (sweep_one env root org) rows s)) =
      filter (\<lambda>a. \<not> (aa_org a = org \<and> aa_id a \<in> aa_id ` set rows)) (sw_agent (snd s))"
    and "kv_get (sw_files (snd (fold (sweep_one env root org) rows s))) p =
      (if p \<in> file_of root ` set rows then None else kv_get (sw_files (snd s)) p)"
proof (induction rows arbitrary: s)
  case (Cons row rows)
  { case 1
    show ?case using Cons(1) [of "sweep_one env root org row s"] delete_one(1) [OF assms]
      by (auto simp: sweep_one_snd intro!: filter_cong)
  next
    case 2
    show ?case using Cons(2) [of "sweep_one env root org row s"] delete_one(2) [OF assms]
      by (auto simp: sweep_one_snd)
  }
qed simp_all

lemma sweep_org_exact:
  assumes "steady env" and "rows_apart (sw_agent (snd s))"
  shows "sw_agent (snd (sweep_org env root cutoff org s)) = filter (\<lambda>a. \<not> expired_unpinned org cutoff a) (sw_agent (snd s))"
    and "a \<in> set (sw_agent (snd s)) \<Longrightarrow> \<not> expired_unpinned org cutoff a \<Longrightarrow>
      kv_get (sw_files (snd (sweep_org env root cutoff org s))) (file_of root a) = kv_get (sw_files (snd s)) (file_of root a)"
proof -
  let ?t = "sw_agent (snd s)"
  have "aa_org a = org \<and> aa_id a \<in> aa_id ` set (filter (expired_unpinned org cutoff) ?t) \<longleftrightarrow> expired_unpinned org cutoff a"
    if "a \<in> set ?t" for a
    using assms(2) that by (auto simp: rows_apart_def distinct_map expired_unpinned_def inj_on_def)
  then show "sw_agent (snd (sweep_org env root cutoff org s)) = filter (\<lambda>a. \<not> expired_unpinned org cutoff a) ?t"
    unfolding sweep_org_def listExpiredUnpinnedAgentAttachments_def fold_sweep(1) [OF assms(1)] by (intro filter_cong) auto
  assume a: "a \<in> set ?t" "\<not> expired_unpinned org cutoff a"
  then have "file_of root a \<notin> file_of root ` set (filter (expired_unpinned org cutoff) ?t)"
    using assms(2) by (auto simp: rows_apart_def distinct_map file_of_def inj_on_def)
  then show "kv_get (sw_files (snd (sweep_org env root cutoff org s))) (file_of root a) = kv_get (sw_files (snd s)) (file_of root a)"
    unfolding sweep_org_def listExpiredUnpinnedAgentAttachments_def fold_sweep(2) [OF assms(1)] by simp
qed

lemma rows_apart_filter: "rows_apart t \<Longrightarrow> rows_apart (filter P t)"
  by (simp add: rows_apart_def distinct_map_filter)

lemma fold_sweep_org:
  assumes "steady env"
  shows "rows_apart (sw_agent (snd s)) \<Longrightarrow>
    sw_agent (snd (fold (sweep_org env root cutoff) orgs s)) = filter (\<lambda>a. \<forall>org \<in> set orgs. \<not> expired_unpinned org cutoff a) (sw_agent (snd s)) \<and>
    (\<forall>a \<in> set (sw_agent (snd (fold (sweep_org env root cutoff) orgs s))).
       kv_get (sw_files (snd (fold (sweep_org env root cutoff) orgs s))) (file_of root a) = kv_get (sw_files (snd s)) (file_of root a))"
proof (induction orgs arbitrary: s)
  case (Cons org orgs)
  note one = sweep_org_exact [OF assms Cons.prems, where root = root and cutoff = cutoff and org = org]
  have "rows_apart (sw_agent (snd (sweep_org env root cutoff org s)))" unfolding one(1) by (rule rows_apart_filter [OF Cons.prems])
  from Cons.IH [OF this] one show ?case by (auto intro!: filter_cong)
qed simp

text \<open>
  C40: The sweep deletes, in the organizations it visits, exactly the captured rows that no message
  holds and that are older than the time to live; every other row stays, and with it the file it
  names.
\<close>
theorem sweep_exact:
  assumes "\<forall>i. \<not> ae_deleteFault env i" and "\<forall>p. \<not> ae_unlinkFault env p"
    and "distinct (map aa_id (sw_agent w))" and "distinct (map aa_storagePath (sw_agent w))"
    and "cleanupExpiredAgentAttachments env storeRoot ttl orgs w = (counts, w')"
  shows "sw_agent w' = filter (\<lambda>a. \<not> (aa_org a \<in> set orgs \<and> aa_pinned a = None \<and>
      aa_createdAt a < ae_now env - coalesce ttl DEFAULT_LRU_TTL_HOURS * 3600000)) (sw_agent w) \<and>
    (\<forall>a \<in> set (sw_agent w'). kv_get (sw_files w') (storeRoot @ [slash] @ aa_storagePath a) = kv_get (sw_files w) (storeRoot @ [slash] @ aa_storagePath a))"
proof -
  have "steady env" "rows_apart (sw_agent (snd ((0 :: nat, 0 :: int), w)))"
    using assms(1-4) by (simp_all add: steady_def rows_apart_def)
  from fold_sweep_org [OF this, of storeRoot "ae_now env - coalesce ttl DEFAULT_LRU_TTL_HOURS * 60 * 60 * 1000" orgs] show ?thesis
    using assms(5) by (auto simp: cleanupExpiredAgentAttachments_def Let_def file_of_def expired_unpinned_def intro!: filter_cong)
qed

section \<open>References to captures\<close>

text \<open>The rows of one tool call.\<close>

definition of_call :: "capture_input \<Rightarrow> agent_attachment \<Rightarrow> bool" where
  "of_call i a \<longleftrightarrow> aa_org a = ci_org i \<and> aa_call a = Some (ci_call i)"

definition describes :: "attachment_ref \<Rightarrow> agent_attachment \<Rightarrow> bool" where
  "describes r a \<longleftrightarrow> rf_category r = aa_category a \<and> rf_filename r = aa_filename a \<and> rf_byteSize r = aa_byteSize a"

definition refs_match :: "att_env \<Rightarrow> capture_input \<Rightarrow> att_world \<times> attachment_ref list \<Rightarrow> bool" where
  "refs_match env i s \<longleftrightarrow> distinct (map aa_id (sw_agent (fst s))) \<and>
     list_all2 describes (snd s) (filter (of_call i) (sw_agent (fst s))) \<and>
     (\<forall>a \<in> set (filter (of_call i) (sw_agent (fst s))). aa_createdAt a = ae_now env) \<and>
     map rf_ref (snd s) = map (\<lambda>k. ''tc_'' @ ci_call i @ '':'' @ nat_to_str k) [0 ..< length (snd s)]"

lemma filter_kept: "(\<And>a. a \<in> set t \<Longrightarrow> Q a \<Longrightarrow> P a) \<Longrightarrow> filter Q (filter P t) = filter Q t"
  by (induction t) auto

lemma make_room_refs:
  assumes "refs_match env i (w, refs)" and "make_room env deps (ci_org i) bytes w = (ok, w')"
  shows "refs_match env i (w', refs)"
proof (cases "sumAgentAttachmentBytes (ci_org i) (sw_agent w) + bytes > org_quota deps")
  case False
  then show ?thesis using assms by (simp add: make_room_def)
next
  case True
  let ?rows = "listExpiredUnpinnedAgentAttachments (ci_org i) (ae_now env - 24 * 60 * 60 * 1000) (sw_agent w)"
  obtain P where P: "sw_agent w' = filter P (sw_agent w)" "\<forall>a. aa_id a \<notin> aa_id ` set ?rows \<longrightarrow> P a"
    using True assms(2) sweep_filters [of env "cp_storeRoot deps" "ci_org i" ?rows w] by (auto simp: make_room_def Let_def)
  have "P a" if "a \<in> set (sw_agent w)" "of_call i a" for a
  proof -
    have "aa_createdAt a = ae_now env" using assms(1) that by (auto simp: refs_match_def)
    then have "a \<notin> set ?rows" by (simp add: listExpiredUnpinnedAgentAttachments_def expired_unpinned_def)
    moreover have "set ?rows \<subseteq> set (sw_agent w)" by (auto simp: listExpiredUnpinnedAgentAttachments_def)
    ultimately have "aa_id a \<notin> aa_id ` set ?rows"
      using assms(1) that(1) by (auto simp: refs_match_def distinct_map dest: inj_onD)
    then show ?thesis using P(2) by blast
  qed
  then have "filter (of_call i) (sw_agent w') = filter (of_call i) (sw_agent w)" unfolding P(1) by (rule filter_kept)
  moreover have "distinct (map aa_id (sw_agent w'))" using assms(1) by (simp add: P(1) refs_match_def distinct_map_filter)
  ultimately show ?thesis using assms(1) by (simp add: refs_match_def)
qed

lemma refs_match_add:
  assumes "refs_match env i (w, refs)" and "sw_agent w' = sw_agent w @ [a]" and "aa_id a \<notin> aa_id ` set (sw_agent w)"
    and "of_call i a" and "aa_createdAt a = ae_now env" and "r = captured_ref i (length refs) a"
  shows "refs_match env i (w', refs @ [r])"
proof -
  have "describes r a" "rf_ref r = ''tc_'' @ ci_call i @ '':'' @ nat_to_str (length refs)"
    by (simp_all add: assms(6) describes_def captured_ref_def)
  then show ?thesis using assms(1-5) by (simp add: refs_match_def list_all2_appendI)
qed

lemma refs_match_blob:
  assumes "refs_match env i s"
  shows "refs_match env i (capture_blob env deps i b s)"
proof (cases s)
  case (Pair w refs)
  have "refs_match env i (capture_blob env deps i b (w, refs))"
  proof (cases rule: capture_blob_cases [of env deps i b w refs])
    case (kept w')
    have "refs_match env i (w', refs)" if "refs_match env i (v, refs)" "sw_agent w' = sw_agent v" for v
      using that by (simp add: refs_match_def)
    then show ?thesis using kept assms Pair make_room_refs by metis
  next
    case (added c w1 w')
    have m: "refs_match env i (w1, refs)" using make_room_refs [OF _ added(3)] assms Pair by simp
    show ?thesis unfolding added(4)
      by (rule refs_match_add [OF m added(5) _ _ _ refl]) (use added(6) in \<open>simp_all add: captured_row_def of_call_def\<close>)
  qed
  then show ?thesis by (simp add: Pair)
qed

lemma mset_sort_cmp [simp]: "mset (sort_cmp cmp xs) = mset xs"
proof -
  have "mset (insert_cmp cmp x ys) = add_mset x (mset ys)" for x and ys :: "'a list" by (induction ys) auto
  then show ?thesis by (induction xs) auto
qed

text \<open>
  C39: The references handed out for a new tool call count from zero and describe, in order, the
  rows captured for it, and looking them up gives these rows, each once - though not in the same
  order, since rows of one moment are looked up in the order of their random identifiers.
\<close>
theorem captured_refs_resolve:
  assumes "distinct (map aa_id (sw_agent w))" and "\<forall>a \<in> set (sw_agent w). \<not> (aa_org a = ci_org i \<and> aa_call a = Some (ci_call i))"
    and "captureToolResultAttachments env deps i w = (w', refs)"
    and "rows = filter (\<lambda>a. aa_org a = ci_org i \<and> aa_call a = Some (ci_call i)) (sw_agent w')"
  shows "map rf_ref refs = map (\<lambda>k. ''tc_'' @ ci_call i @ '':'' @ nat_to_str k) [0 ..< length refs] \<and>
    list_all2 (\<lambda>r a. rf_category r = aa_category a \<and> rf_filename r = aa_filename a \<and> rf_byteSize r = aa_byteSize a) refs rows \<and>
    mset (map (\<lambda>k. findAgentAttachmentByToolCall (ci_org i) (ci_call i) k (sw_agent w')) [0 ..< length refs]) = mset (map Some rows)"
proof -
  have "refs_match env i (fold (capture_blob env deps i) bs s)" if "refs_match env i s" for bs s
    using that by (induction bs arbitrary: s) (simp_all add: refs_match_blob)
  moreover have "filter (of_call i) (sw_agent w) = []" using assms(2) by (auto simp: filter_empty_conv of_call_def)
  then have "refs_match env i (w, [])" using assms(1) by (simp add: refs_match_def)
  ultimately have m: "refs_match env i (w', refs)" using assms(3) by (auto simp: captureToolResultAttachments_def split: if_splits) metis
  have rows: "rows = filter (of_call i) (sw_agent w')" unfolding assms(4) by (rule arg_cong [where f = "\<lambda>P. filter P (sw_agent w')"]) (simp add: fun_eq_iff of_call_def)
  have l: "length refs = length rows" using m by (auto simp: refs_match_def rows dest: list_all2_lengthD)
  have "map (\<lambda>k. findAgentAttachmentByToolCall (ci_org i) (ci_call i) k (sw_agent w')) [0 ..< length refs] = map Some (sort_cmp row_order rows)"
    by (intro nth_equalityI) (simp_all add: l findAgentAttachmentByToolCall_def assms(4))
  moreover have "describes = (\<lambda>r a. rf_category r = aa_category a \<and> rf_filename r = aa_filename a \<and> rf_byteSize r = aa_byteSize a)"
    by (simp add: fun_eq_iff describes_def)
  ultimately show ?thesis using m by (simp add: refs_match_def rows)
qed

section \<open>Witnesses\<close>

definition demo_att :: att_env where
  "demo_att = \<lparr>ae_now = 1000000000, ae_uuid = (\<lambda>n. replicate n CHR ''a''), ae_write = (\<lambda>_ _. Written), ae_insertFault = (\<lambda>_. False),
     ae_unlinkFault = (\<lambda>_. False), ae_deleteFault = (\<lambda>_. False)\<rparr>"

definition empty_store :: att_world where
  "empty_store = \<lparr>sw_agent = [], sw_users = [], sw_files = [], sw_audit = [], sw_drawn = 0\<rparr>"

definition demo_capture_deps :: capture_deps where
  "demo_capture_deps = \<lparr>cp_agentRoot = ''/store/agent-generated'', cp_storeRoot = ''/store'', cp_perOrgQuota = None, cp_perFileCap = None\<rparr>"

text \<open>The first bytes of a PNG and of a JPEG.\<close>

definition demo_capture :: capture_input where
  "demo_capture = \<lparr>ci_org = ''o'', ci_run = ''r'', ci_member = ''m'', ci_server = ''s'', ci_tool = ''t'', ci_call = ''c'',
     ci_result = JArr [JObj [(''type'', JStr ''image''), (''data'', JStr ''iVBORw'')],
                       JObj [(''type'', JStr ''image''), (''data'', JStr ''/9j/4A'')]],
     ci_hint = None\<rparr>"

text \<open>Identifiers as they may be drawn: the second sorts before the first.\<close>

definition unlucky_att :: att_env where
  "unlucky_att = demo_att\<lparr>ae_uuid := (\<lambda>n. if n = 0 then ''b'' else replicate n CHR ''a'')\<rparr>"

definition demo_captured :: "string \<Rightarrow> nat \<Rightarrow> string \<Rightarrow> string \<Rightarrow> agent_attachment" where
  "demo_captured i n mime ext = \<lparr>aa_id = i, aa_org = ''o'', aa_run = ''r'', aa_member = ''m'', aa_call = Some ''c'', aa_server = Some ''s'',
     aa_tool = Some ''t'', aa_category = Cat_Image, aa_mime = mime, aa_filename = ''s-t-'' @ nat_to_str n @ ext,
     aa_storagePath = ''agent-generated/o/r/'' @ i @ ext, aa_byteSize = 4, aa_createdAt = 1000000000, aa_pinned = None\<rparr>"

lemma demo_blobs:
  "map (\<lambda>b. decideCapture b None) (extractCandidateBlobs (ci_result demo_capture)) =
     [Some \<lparr>cd_bytes = [CHR 0x89, CHR 0x50, CHR 0x4E, CHR 0x47], cd_mime = ''image/png'', cd_category = Cat_Image\<rparr>,
      Some \<lparr>cd_bytes = [CHR 0xFF, CHR 0xD8, CHR 0xFF, CHR 0xE0], cd_mime = ''image/jpeg'', cd_category = Cat_Image\<rparr>]"
  by code_simp

lemma demo_paths:
  "path_join [''agent-generated'', ''o'', ''r'', ''aatt_b.png''] = ''agent-generated/o/r/aatt_b.png''"
  "path_join [''agent-generated'', ''o'', ''r'', ''aatt_a.jpg''] = ''agent-generated/o/r/aatt_a.jpg''"
  "filenameFor ''s'' ''t'' 0 ''.png'' = ''s-t-0.png''" "filenameFor ''s'' ''t'' (Suc 0) ''.jpg'' = ''s-t-1.jpg''"
  "extensionForMime ''image/png'' = ''.png''" "extensionForMime ''image/jpeg'' = ''.jpg''"
  by code_simp+

lemma demo_digits: "nat_to_str 0 = ''0''" "nat_to_str 1 = ''1''" "nat_to_str (Suc 0) = ''1''"
  by code_simp+

lemma demo_step:
  assumes "decideCapture b None = Some c" and "length (cd_bytes c) = 4" and "sumAgentAttachmentBytes ''o'' (sw_agent w) \<le> 100"
    and "captured_row unlucky_att demo_capture i (length refs) c = row" and "agent_schema row" and "aa_id row = i"
    and "i = ''aatt_'' @ ae_uuid unlucky_att (sw_drawn w)" and "i \<notin> aa_id ` set (sw_agent w)"
  obtains w' where "capture_blob unlucky_att demo_capture_deps demo_capture b (w, refs) = (w', refs @ [captured_ref demo_capture (length refs) row])"
    and "sw_agent w' = sw_agent w @ [row]" and "sw_drawn w' = Suc (sw_drawn w)"
proof -
  have "make_room unlucky_att demo_capture_deps (ci_org demo_capture) (int (length (cd_bytes c))) w = (True, w)"
    "\<not> int (length (cd_bytes c)) > file_cap demo_capture_deps" "ci_hint demo_capture = None"
    using assms(2,3) by (simp_all add: make_room_def demo_capture_def demo_capture_deps_def file_cap_def org_quota_def
        DEFAULT_PER_FILE_CAP_BYTES_def DEFAULT_PER_ORG_QUOTA_BYTES_def)
  moreover have "saveAgentAttachment unlucky_att row (sw_agent w) = Some (sw_agent w @ [row])"
    using assms(5,6,8) by (auto simp: saveAgentAttachment_def tbl_insert_def unlucky_att_def demo_att_def)
  moreover have "write_file unlucky_att path bytes v = (True, v\<lparr>sw_files := kv_put path bytes (sw_files v)\<rparr>)" for path bytes v
    by (simp add: write_file_def unlucky_att_def demo_att_def)
  moreover have "draw_id unlucky_att ''aatt_'' w = (i, w\<lparr>sw_drawn := Suc (sw_drawn w)\<rparr>)" by (simp add: draw_id_def assms(7))
  ultimately have "\<exists>w'. capture_blob unlucky_att demo_capture_deps demo_capture b (w, refs) = (w', refs @ [captured_ref demo_capture (length refs) row]) \<and>
      sw_agent w' = sw_agent w @ [row] \<and> sw_drawn w' = Suc (sw_drawn w)"
    using assms(1,4,6) by (simp add: capture_blob_def Let_def)
  then show ?thesis using that by blast
qed

lemma demo_schema: "agent_schema (demo_captured (''aatt_'' @ i) n ''image/png'' ext)" "agent_schema (demo_captured (''aatt_'' @ i) n ''image/jpeg'' ext)"
  by (simp_all add: agent_schema_def demo_captured_def)

lemma demo_captures:
  "\<exists>w. captureToolResultAttachments unlucky_att demo_capture_deps demo_capture empty_store =
     (w, [captured_ref demo_capture 0 (demo_captured ''aatt_b'' 0 ''image/png'' ''.png''),
          captured_ref demo_capture 1 (demo_captured ''aatt_a'' 1 ''image/jpeg'' ''.jpg'')]) \<and>
     sw_agent w = [demo_captured ''aatt_b'' 0 ''image/png'' ''.png'', demo_captured ''aatt_a'' 1 ''image/jpeg'' ''.jpg'']"
proof -
  obtain b1 b2 where b: "extractCandidateBlobs (ci_result demo_capture) = [b1, b2]"
    "decideCapture b1 None = Some \<lparr>cd_bytes = [CHR 0x89, CHR 0x50, CHR 0x4E, CHR 0x47], cd_mime = ''image/png'', cd_category = Cat_Image\<rparr>"
    "decideCapture b2 None = Some \<lparr>cd_bytes = [CHR 0xFF, CHR 0xD8, CHR 0xFF, CHR 0xE0], cd_mime = ''image/jpeg'', cd_category = Cat_Image\<rparr>"
    using demo_blobs by (auto simp: map_eq_Cons_conv)
  have rows: "captured_row unlucky_att demo_capture ''aatt_b'' 0 \<lparr>cd_bytes = [CHR 0x89, CHR 0x50, CHR 0x4E, CHR 0x47], cd_mime = ''image/png'', cd_category = Cat_Image\<rparr> =
      demo_captured ''aatt_b'' 0 ''image/png'' ''.png''"
    "captured_row unlucky_att demo_capture ''aatt_a'' 1 \<lparr>cd_bytes = [CHR 0xFF, CHR 0xD8, CHR 0xFF, CHR 0xE0], cd_mime = ''image/jpeg'', cd_category = Cat_Image\<rparr> =
      demo_captured ''aatt_a'' 1 ''image/jpeg'' ''.jpg''"
    by (simp_all add: captured_row_def demo_capture_def demo_captured_def demo_paths unlucky_att_def demo_att_def demo_digits)
  let ?r0 = "captured_ref demo_capture 0 (demo_captured ''aatt_b'' 0 ''image/png'' ''.png'')"
  obtain w1 where w1: "capture_blob unlucky_att demo_capture_deps demo_capture b1 (empty_store, []) = (w1, [?r0])"
    "sw_agent w1 = [demo_captured ''aatt_b'' 0 ''image/png'' ''.png'']" "sw_drawn w1 = 1"
    by (rule demo_step [OF b(2), of empty_store "''aatt_b''" "[]" "demo_captured ''aatt_b'' 0 ''image/png'' ''.png''"])
      (use rows(1) demo_schema(1) [of "''b''"] in \<open>simp_all add: empty_store_def sumAgentAttachmentBytes_def unlucky_att_def demo_captured_def\<close>)
  obtain w2 where "capture_blob unlucky_att demo_capture_deps demo_capture b2 (w1, [?r0]) =
      (w2, [?r0, captured_ref demo_capture 1 (demo_captured ''aatt_a'' 1 ''image/jpeg'' ''.jpg'')])"
    "sw_agent w2 = sw_agent w1 @ [demo_captured ''aatt_a'' 1 ''image/jpeg'' ''.jpg'']"
    by (rule demo_step [OF b(3), of w1 "''aatt_a''" "[?r0]" "demo_captured ''aatt_a'' 1 ''image/jpeg'' ''.jpg''"])
      (use rows(2) demo_schema(2) [of "''a''"] w1 in \<open>simp_all add: sumAgentAttachmentBytes_def unlucky_att_def demo_captured_def\<close>)
  then show ?thesis using w1 b(1)
    by (simp add: captureToolResultAttachments_def) (simp add: demo_capture_def)
qed

theorem capture_within_quota_witness:
  "sumAgentAttachmentBytes ''o'' (sw_agent (fst (captureToolResultAttachments unlucky_att demo_capture_deps demo_capture empty_store))) \<le> 1073741824"
proof -
  let ?c = "captureToolResultAttachments unlucky_att demo_capture_deps demo_capture empty_store"
  have "\<forall>a \<in> set (sw_agent empty_store). 0 \<le> aa_byteSize a"
    "sumAgentAttachmentBytes (ci_org demo_capture) (sw_agent empty_store) \<le> org_quota demo_capture_deps"
    by (simp_all add: empty_store_def sumAgentAttachmentBytes_def org_quota_def demo_capture_deps_def DEFAULT_PER_ORG_QUOTA_BYTES_def)
  from capture_within_quota [OF this, of unlucky_att "fst ?c" "snd ?c"] show ?thesis
    by (simp add: org_quota_def demo_capture_deps_def DEFAULT_PER_ORG_QUOTA_BYTES_def) (simp add: demo_capture_def)
qed

theorem captured_refs_resolve_witness:
  "\<exists>rows. length rows = 2 \<and> mset (map (\<lambda>k. findAgentAttachmentByToolCall ''o'' ''c'' k
     (sw_agent (fst (captureToolResultAttachments unlucky_att demo_capture_deps demo_capture empty_store)))) [0 ..< 2]) = mset (map Some rows)"
proof -
  let ?c = "captureToolResultAttachments unlucky_att demo_capture_deps demo_capture empty_store"
  have "distinct (map aa_id (sw_agent empty_store))"
    "\<forall>a \<in> set (sw_agent empty_store). \<not> (aa_org a = ci_org demo_capture \<and> aa_call a = Some (ci_call demo_capture))"
    by (simp_all add: empty_store_def)
  moreover obtain w r1 r2 where c: "?c = (w, [r1, r2])" using demo_captures by blast
  ultimately have *: "list_all2 (\<lambda>r a. rf_category r = aa_category a \<and> rf_filename r = aa_filename a \<and> rf_byteSize r = aa_byteSize a) [r1, r2]
      (filter (\<lambda>a. aa_org a = ci_org demo_capture \<and> aa_call a = Some (ci_call demo_capture)) (sw_agent w)) \<and>
     mset (map (\<lambda>k. findAgentAttachmentByToolCall (ci_org demo_capture) (ci_call demo_capture) k (sw_agent w)) [0 ..< length [r1, r2]]) =
     mset (map Some (filter (\<lambda>a. aa_org a = ci_org demo_capture \<and> aa_call a = Some (ci_call demo_capture)) (sw_agent w)))"
    using captured_refs_resolve by blast
  have names: "ci_org demo_capture = ''o''" "ci_call demo_capture = ''c''" by (simp_all add: demo_capture_def)
  let ?rows = "filter (\<lambda>a. aa_org a = ''o'' \<and> aa_call a = Some ''c'') (sw_agent w)"
  have two: "length [r1, r2] = 2" by simp
  have "2 = length ?rows" using conjunct1 [OF *, THEN list_all2_lengthD] unfolding names two .
  moreover have "mset (map (\<lambda>k. findAgentAttachmentByToolCall ''o'' ''c'' k (sw_agent w)) [0 ..< 2]) = mset (map Some ?rows)"
    using conjunct2 [OF *] unfolding names two .
  ultimately show ?thesis unfolding c fst_conv by (intro exI [of _ ?rows] conjI) simp_all
qed

definition demo_shot :: "string \<Rightarrow> string option \<Rightarrow> int \<Rightarrow> agent_attachment" where
  "demo_shot i pin at = \<lparr>aa_id = i, aa_org = ''o'', aa_run = ''r'', aa_member = ''m'', aa_call = None, aa_server = None, aa_tool = None,
     aa_category = Cat_Image, aa_mime = ''image/png'', aa_filename = ''f'', aa_storagePath = i, aa_byteSize = 1, aa_createdAt = at, aa_pinned = pin\<rparr>"

text \<open>An old row, an old one that a message holds, and a new one.\<close>

definition demo_store :: att_world where
  "demo_store = empty_store\<lparr>sw_agent := [demo_shot ''x'' None 0, demo_shot ''y'' (Some ''m1'') 0, demo_shot ''z'' None 999999999]\<rparr>"

theorem sweep_exact_witness:
  "sw_agent (snd (cleanupExpiredAgentAttachments demo_att ''/store'' None [''o''] demo_store)) =
     [demo_shot ''y'' (Some ''m1'') 0, demo_shot ''z'' None 999999999]"
proof -
  let ?c = "cleanupExpiredAgentAttachments demo_att ''/store'' None [''o''] demo_store"
  have "\<forall>i. \<not> ae_deleteFault demo_att i" "\<forall>p. \<not> ae_unlinkFault demo_att p"
    "distinct (map aa_id (sw_agent demo_store))" "distinct (map aa_storagePath (sw_agent demo_store))"
    by (simp_all add: demo_att_def demo_store_def demo_shot_def)
  from sweep_exact [OF this, of "''/store''" None "[''o'']" "fst ?c" "snd ?c"]
  have "sw_agent (snd ?c) = filter (\<lambda>a. \<not> (aa_org a \<in> set [''o''] \<and> aa_pinned a = None \<and>
      aa_createdAt a < ae_now demo_att - coalesce None DEFAULT_LRU_TTL_HOURS * 3600000)) (sw_agent demo_store)" by simp
  then show ?thesis by (simp add: demo_store_def demo_shot_def demo_att_def DEFAULT_LRU_TTL_HOURS_def)
qed

section \<open>References out of order\<close>

lemma captured_refs_swapped:
  "let (w, refs) = captureToolResultAttachments unlucky_att demo_capture_deps demo_capture empty_store
   in map rf_filename refs = [''s-t-0.png'', ''s-t-1.jpg''] \<and>
      map_option aa_filename (findAgentAttachmentByToolCall ''o'' ''c'' 0 (sw_agent w)) = Some ''s-t-1.jpg'' \<and>
      map_option aa_filename (findAgentAttachmentByToolCall ''o'' ''c'' 1 (sw_agent w)) = Some ''s-t-0.png''"
proof -
  have names: "''s-t-'' @ nat_to_str 0 @ ''.png'' = ''s-t-0.png''" "''s-t-'' @ nat_to_str 1 @ ''.jpg'' = ''s-t-1.jpg''"
    by (simp_all add: demo_digits)
  obtain w where w: "captureToolResultAttachments unlucky_att demo_capture_deps demo_capture empty_store =
     (w, [captured_ref demo_capture 0 (demo_captured ''aatt_b'' 0 ''image/png'' ''.png''),
          captured_ref demo_capture 1 (demo_captured ''aatt_a'' 1 ''image/jpeg'' ''.jpg'')])"
     "sw_agent w = [demo_captured ''aatt_b'' 0 ''image/png'' ''.png'', demo_captured ''aatt_a'' 1 ''image/jpeg'' ''.jpg'']"
    using demo_captures by blast
  have "sort_cmp row_order (sw_agent w) = [demo_captured ''aatt_a'' 1 ''image/jpeg'' ''.jpg'', demo_captured ''aatt_b'' 0 ''image/png'' ''.png'']"
    by (simp add: w row_order_def demo_captured_def)
  moreover have "filter (\<lambda>a. aa_org a = ''o'' \<and> aa_call a = Some ''c'') (sw_agent w) = sw_agent w" by (simp add: w demo_captured_def)
  ultimately have find: "findAgentAttachmentByToolCall ''o'' ''c'' k (sw_agent w) =
      (if k < 2 then Some ([demo_captured ''aatt_a'' 1 ''image/jpeg'' ''.jpg'', demo_captured ''aatt_b'' 0 ''image/png'' ''.png''] ! k) else None)" for k
    by (simp add: findAgentAttachmentByToolCall_def w(2))
  show ?thesis unfolding w(1) using names by (simp add: find) (simp add: demo_captured_def captured_ref_def)
qed

end
