(* ===== verification/AttachmentRefs.thy ===== *)
theory AttachmentRefs
  imports Attachments
begin

text \<open>
  The attachments an agent names in a message (\<open>agent-attachment-resolver.ts\<close>): captured ones,
  inline bytes, files of the workspace and patterns of them. The workspace is a tree of files,
  directories and links that does not change during the call; the store of attachments is not
  part of it.
\<close>

section \<open>The file system\<close>

datatype fs_node = Fs_File string | Fs_Dir "(string \<times> fs_node) list" | Fs_Link string | Fs_Special

fun fs_at :: "fs_node \<Rightarrow> string list \<Rightarrow> fs_node option" where
  "fs_at n [] = Some n"
| "fs_at (Fs_Dir es) (s # ss) = (case map_of es s of None \<Rightarrow> None | Some c \<Rightarrow> fs_at c ss)"
| "fs_at _ (s # ss) = None"

text \<open>
  Where a path leads, at most \<open>n\<close> links on the way; the last one is only followed on demand.
  The third argument is the directory reached, as the names on the way from the root.
\<close>

function fs_walk :: "fs_node \<Rightarrow> bool \<Rightarrow> nat \<Rightarrow> string list \<Rightarrow> string list \<Rightarrow> string list option" where
  "fs_walk root follow n at [] = Some at"
| "fs_walk root follow n at (s # ss) =
     (case fs_at root at of
        Some (Fs_Dir es) \<Rightarrow>
          (if s = [] \<or> s = ''.'' then fs_walk root follow n at ss
           else if s = ''..'' then fs_walk root follow n (butlast at) ss
           else (case map_of es s of
               None \<Rightarrow> None
             | Some (Fs_Link target) \<Rightarrow>
                 if ss = [] \<and> \<not> follow then Some (at @ [s])
                 else (case n of
                     0 \<Rightarrow> None
                   | Suc k \<Rightarrow> fs_walk root follow k (if isAbsolute target then [] else at) (split_char slash target @ ss))
             | Some _ \<Rightarrow> fs_walk root follow n (at @ [s]) ss))
      | _ \<Rightarrow> None)"
  by pat_completeness auto
termination
  by (relation "measures [\<lambda>(root, follow, n, at, ss). n, \<lambda>(root, follow, n, at, ss). length ss]") auto

declare fs_walk.simps [simp del]

definition MAX_LINKS :: nat where "MAX_LINKS = 40"

definition lstatSync :: "fs_node \<Rightarrow> string \<Rightarrow> fs_node option" where
  "lstatSync root p = Option.bind (fs_walk root False MAX_LINKS [] (segs p)) (fs_at root)"

definition realpathSync :: "fs_node \<Rightarrow> string \<Rightarrow> string option" where
  "realpathSync root p = map_option render (fs_walk root True MAX_LINKS [] (segs p))"

text \<open>What \<open>statSync\<close>, \<open>readFileSync\<close> and \<open>readdirSync\<close> find.\<close>

definition fs_open :: "fs_node \<Rightarrow> string \<Rightarrow> fs_node option" where
  "fs_open root p = Option.bind (fs_walk root True MAX_LINKS [] (segs p)) (fs_at root)"

section \<open>References and results\<close>

definition BASE64_INLINE_CAP_BYTES :: int where "BASE64_INLINE_CAP_BYTES = 1 * 1024 * 1024"
definition WORKSPACE_PATH_CAP_BYTES :: int where "WORKSPACE_PATH_CAP_BYTES = 10 * 1024 * 1024"
definition WORKSPACE_GLOB_FILE_CAP :: nat where "WORKSPACE_GLOB_FILE_CAP = 10"
definition WORKSPACE_GLOB_BYTES_CAP :: int where "WORKSPACE_GLOB_BYTES_CAP = 20 * 1024 * 1024"

datatype ref_type = Ref_Tool_Call | Ref_Base64 | Ref_Path | Ref_Glob

record ref_input =
  ri_type :: ref_type
  ri_value :: string
  ri_filename :: "string option"
  ri_mime :: "string option"

record materialization =
  mt_attachment :: string
  mt_agent :: string
  mt_filename :: string
  mt_mime :: string
  mt_category :: att_category
  mt_byteSize :: int
  mt_owns :: bool

datatype att_error =
    Ref_Malformed string | Ref_Bad_Index string | Ref_Unknown string
  | Base64_Empty | Base64_Too_Large int
  | No_Workspace_Root | Not_Relative | Parent_Segments | Escapes_Root string
  | Is_Symlink string | Outside_By_Link string | Link_Check_Failed string
  | Path_Missing string | Not_Regular string | Path_Too_Large string int
  | Glob_Too_Many | Glob_No_Match string | Glob_Too_Large int
  | Store_Write_Failed | Agent_Insert_Failed | User_Insert_Failed

text \<open>\<open>Threw\<close> is an exception that leaves the function.\<close>

datatype resolve_result = Resolved "materialization list" | Refused att_error | Threw

record resolver_deps =
  rd_fs :: fs_node
  rd_cwd :: string
  rd_agentRoot :: string
  rd_workspaceRoot :: "string option"
  rd_org :: string
  rd_run :: string
  rd_member :: string
  rd_regexp :: "string \<Rightarrow> (string \<Rightarrow> bool) option"

text \<open>An empty root is none.\<close>

definition nonempty_root :: "resolver_deps \<Rightarrow> string option" where
  "nonempty_root d = (case rd_workspaceRoot d of Some (c # cs) \<Rightarrow> Some (c # cs) | _ \<Rightarrow> None)"

text \<open>The path of the file written, when one was.\<close>

type_synonym 'a resolving = "att_world \<times> (att_error + 'a)"

section \<open>Rows\<close>

text \<open>What a stack of undo steps does, the last registered first.\<close>

datatype undo = Undo_File string | Undo_Agent string | Undo_User string

fun run_undo :: "att_env \<Rightarrow> string \<Rightarrow> undo \<Rightarrow> att_world \<Rightarrow> att_world" where
  "run_undo env org (Undo_File p) w = unlink_file env p w"
| "run_undo env org (Undo_Agent i) w = drop_agent env org i w"
| "run_undo env org (Undo_User i) w = drop_user env org i w"

definition runRollback :: "att_env \<Rightarrow> string \<Rightarrow> undo list \<Rightarrow> att_world \<Rightarrow> att_world" where
  "runRollback env org stack w = fold (run_undo env org) (rev stack) w"

definition commitUserAttachmentRow ::
  "att_env \<Rightarrow> resolver_deps \<Rightarrow> undo list \<Rightarrow> user_attachment \<Rightarrow> att_world \<Rightarrow> bool \<times> att_world" where
  "commitUserAttachmentRow env d stack row w =
     (case saveAttachment env row (sw_users w) of
        None \<Rightarrow> (False, runRollback env (rd_org d) (stack @ [Undo_User (at_id row)]) w)
      | Some t \<Rightarrow> (True, w\<lparr>sw_users := t\<rparr>))"

definition user_row ::
  "att_env \<Rightarrow> resolver_deps \<Rightarrow> string \<Rightarrow> string \<Rightarrow> string \<Rightarrow> att_category \<Rightarrow> int \<Rightarrow> string \<Rightarrow> user_attachment" where
  "user_row env d i filename mime cat bytes storage =
     \<lparr>at_id = i, at_org = rd_org d, at_sizeBytes = bytes, at_filename = filename, ua_mime = mime, ua_category = cat,
      ua_storagePath = storage, ua_uploadedBy = rd_member d, ua_createdAt = ae_now env\<rparr>"

text \<open>\<open>Number.parseInt(s, 10)\<close>; \<open>None\<close> is \<open>NaN\<close>.\<close>

definition parse_int :: "string \<Rightarrow> int option" where
  "parse_int s =
     (let t = trim_start s; neg = starts_with t ''-'';
          u = (if neg \<or> starts_with t ''+'' then tl t else t); ds = takeWhile is_digit u;
          v = foldl (\<lambda>n c. n * 10 + (of_char c - 48)) 0 ds
      in if ds = [] then None else Some (if neg then - v else v))"

text \<open>Call and index of \<open>tc_<callId>:<index>\<close>, split at the last colon.\<close>

definition split_ref :: "string \<Rightarrow> (string \<times> string) option" where
  "split_ref value =
     (let raw = (if starts_with value ''tc_'' then drop 3 value else value);
          index = rev (takeWhile (\<lambda>c. c \<noteq> CHR '':'') (rev raw))
      in if CHR '':'' \<notin> set raw then None else Some (take (length raw - length index - 1) raw, index))"

definition resolveToolCallRef ::
  "att_env \<Rightarrow> resolver_deps \<Rightarrow> ref_input \<Rightarrow> att_world \<Rightarrow> (materialization \<times> string option) resolving" where
  "resolveToolCallRef env d r w =
     (case split_ref (ri_value r) of
        None \<Rightarrow> (w, Inl (Ref_Malformed (ri_value r)))
      | Some (callId, index) \<Rightarrow>
          (case parse_int index of
             None \<Rightarrow> (w, Inl (Ref_Bad_Index (ri_value r)))
           | Some n \<Rightarrow>
               if n < 0 then (w, Inl (Ref_Bad_Index (ri_value r)))
               else (case findAgentAttachmentByToolCall (rd_org d) callId (nat n) (sw_agent w) of
                   None \<Rightarrow> (w, Inl (Ref_Unknown (ri_value r)))
                 | Some row \<Rightarrow>
                     (case draw_id env ''att_'' w of (i, w1) \<Rightarrow>
                        (let filename = coalesce (ri_filename r) (aa_filename row) in
                         case commitUserAttachmentRow env d []
                                (user_row env d i filename (aa_mime row) (aa_category row) (aa_byteSize row) (aa_storagePath row)) w1 of
                           (False, w2) \<Rightarrow> (w2, Inl User_Insert_Failed)
                         | (True, w2) \<Rightarrow>
                             (w2, Inr (\<lparr>mt_attachment = i, mt_agent = aa_id row, mt_filename = filename, mt_mime = aa_mime row,
                                        mt_category = aa_category row, mt_byteSize = aa_byteSize row, mt_owns = False\<rparr>, None)))))))"

definition agent_row :: "att_env \<Rightarrow> resolver_deps \<Rightarrow> string \<Rightarrow> string \<Rightarrow> string \<Rightarrow> att_category \<Rightarrow> string \<Rightarrow> agent_attachment" where
  "agent_row env d i bytes mime cat filename =
     \<lparr>aa_id = i, aa_org = rd_org d, aa_run = rd_run d, aa_member = rd_member d, aa_call = None, aa_server = None,
      aa_tool = None, aa_category = cat, aa_mime = mime, aa_filename = filename,
      aa_storagePath = path_join [''agent-generated'', rd_org d, rd_run d, i @ extensionForMime mime],
      aa_byteSize = int (length bytes), aa_createdAt = ae_now env, aa_pinned = None\<rparr>"

definition store_path :: "resolver_deps \<Rightarrow> string \<Rightarrow> string \<Rightarrow> string" where
  "store_path d i mime = path_join [rd_agentRoot d, rd_org d, rd_run d, i @ extensionForMime mime]"

text \<open>File, row, user's row; the undo of the file is registered after it is written.\<close>

definition commitBytes ::
  "att_env \<Rightarrow> resolver_deps \<Rightarrow> string \<Rightarrow> string \<Rightarrow> att_category \<Rightarrow> string \<Rightarrow> att_world \<Rightarrow> (materialization \<times> string option) resolving" where
  "commitBytes env d bytes mime cat filename w =
     (case draw_id env ''aatt_'' w of (i, w1) \<Rightarrow>
       (let path = store_path d i mime; row = agent_row env d i bytes mime cat filename in
        case write_file env path bytes w1 of
          (False, w2) \<Rightarrow> (w2, Inl Store_Write_Failed)
        | (True, w2) \<Rightarrow>
            (case saveAgentAttachment env row (sw_agent w2) of
               None \<Rightarrow> (runRollback env (rd_org d) [Undo_File path, Undo_Agent i] w2, Inl Agent_Insert_Failed)
             | Some t \<Rightarrow>
                 (case draw_id env ''att_'' (w2\<lparr>sw_agent := t\<rparr>) of (u, w3) \<Rightarrow>
                    (case commitUserAttachmentRow env d [Undo_File path, Undo_Agent i]
                            (user_row env d u filename mime cat (int (length bytes)) (aa_storagePath row)) w3 of
                       (False, w4) \<Rightarrow> (w4, Inl User_Insert_Failed)
                     | (True, w4) \<Rightarrow>
                         (w4\<lparr>sw_audit := sw_audit w4 @ [\<lparr>ad_row = i, ad_fromTool = False\<rparr>]\<rparr>,
                          Inr (\<lparr>mt_attachment = u, mt_agent = i, mt_filename = filename, mt_mime = mime, mt_category = cat,
                                mt_byteSize = int (length bytes), mt_owns = True\<rparr>, Some path)))))))"

text \<open>Kind of the bytes: what they look like, else what the agent says.\<close>

definition kind_of_bytes :: "string \<Rightarrow> string option \<Rightarrow> string \<times> att_category" where
  "kind_of_bytes bytes declared =
     (case sniffMimeAndCategory bytes of
        Some k \<Rightarrow> k
      | None \<Rightarrow> (coalesce declared ''application/octet-stream'', Cat_Other))"

definition resolveBase64Ref ::
  "att_env \<Rightarrow> resolver_deps \<Rightarrow> ref_input \<Rightarrow> att_world \<Rightarrow> (materialization \<times> string option) resolving" where
  "resolveBase64Ref env d r w =
     (let bytes = base64_decode (strip_data_url (ri_value r)) in
      if bytes = [] then (w, Inl Base64_Empty)
      else if int (length bytes) > BASE64_INLINE_CAP_BYTES then (w, Inl (Base64_Too_Large (int (length bytes))))
      else (case kind_of_bytes bytes (ri_mime r) of (mime, cat) \<Rightarrow>
        commitBytes env d bytes mime cat
          (coalesce (ri_filename r) (''inline-'' @ int_to_str (ae_now env) @ extensionForMime mime)) w))"

section \<open>Files of the workspace\<close>

definition inside_by_prefix :: "string \<Rightarrow> string \<Rightarrow> bool" where
  "inside_by_prefix root p = (p = root \<or> starts_with p (root @ [slash]))"

definition guardWorkspacePath :: "resolver_deps \<Rightarrow> string \<Rightarrow> att_error + string" where
  "guardWorkspacePath d rel =
     (case nonempty_root d of
        None \<Rightarrow> Inl No_Workspace_Root
      | Some root \<Rightarrow>
          if isAbsolute rel then Inl Not_Relative
          else if ''..'' \<in> set (split_char slash rel) then Inl Parent_Segments
          else (let rootResolved = path_resolve (rd_cwd d) root; p = path_resolve rootResolved rel in
            if \<not> inside_by_prefix rootResolved p then Inl (Escapes_Root rel)
            else (case lstatSync (rd_fs d) p of
                None \<Rightarrow> Inr p
              | Some (Fs_Link _) \<Rightarrow> Inl (Is_Symlink rel)
              | Some _ \<Rightarrow>
                  (case (realpathSync (rd_fs d) p, realpathSync (rd_fs d) rootResolved) of
                     (Some realPath, Some realRoot) \<Rightarrow>
                       if inside_by_prefix realRoot realPath then Inr p else Inl (Outside_By_Link rel)
                   | _ \<Rightarrow> Inl (Link_Check_Failed rel)))))"

definition resolveWorkspacePathRef ::
  "att_env \<Rightarrow> resolver_deps \<Rightarrow> ref_input \<Rightarrow> att_world \<Rightarrow> (materialization \<times> string option) resolving" where
  "resolveWorkspacePathRef env d r w =
     (case guardWorkspacePath d (ri_value r) of
        Inl e \<Rightarrow> (w, Inl e)
      | Inr p \<Rightarrow>
          (case fs_open (rd_fs d) p of
             None \<Rightarrow> (w, Inl (Path_Missing (ri_value r)))
           | Some (Fs_File bytes) \<Rightarrow>
               if int (length bytes) > WORKSPACE_PATH_CAP_BYTES then (w, Inl (Path_Too_Large (ri_value r) (int (length bytes))))
               else (case kind_of_bytes bytes (ri_mime r) of (mime, cat) \<Rightarrow>
                 commitBytes env d bytes mime cat
                   (coalesce (ri_filename r) (last (split_char slash (ri_value r)))) w)
           | Some _ \<Rightarrow> (w, Inl (Not_Regular (ri_value r)))))"

section \<open>Patterns\<close>

text \<open>The regular expression as text, and for patterns without \<open>[ ] { } \\<close> its parts.\<close>

definition rx_escaped :: "char \<Rightarrow> bool" where
  "rx_escaped c = (c \<in> set ''.+()|^$'')"

fun glob_body :: "string \<Rightarrow> string" where
  "glob_body [] = []"
| "glob_body (c # cs) =
     (if c = CHR ''*'' then
        (case cs of
           CHR 0x2A # CHR 0x2F # rest \<Rightarrow> ''.*'' @ glob_body rest
         | CHR 0x2A # rest \<Rightarrow> ''.*'' @ glob_body rest
         | _ \<Rightarrow> ''[^/]*'' @ glob_body cs)
      else if c = CHR ''?'' then ''[^/]'' @ glob_body cs
      else if rx_escaped c then CHR 0x5C # c # glob_body cs
      else c # glob_body cs)"

definition globToRegex :: "string \<Rightarrow> string" where
  "globToRegex pattern = ''^'' @ glob_body pattern @ ''$''"

datatype glob_part = Gl_Deep | Gl_Star | Gl_One | Gl_Char char

fun glob_parts :: "string \<Rightarrow> glob_part list" where
  "glob_parts [] = []"
| "glob_parts (c # cs) =
     (if c = CHR ''*'' then
        (case cs of
           CHR 0x2A # CHR 0x2F # rest \<Rightarrow> Gl_Deep # glob_parts rest
         | CHR 0x2A # rest \<Rightarrow> Gl_Deep # glob_parts rest
         | _ \<Rightarrow> Gl_Star # glob_parts cs)
      else if c = CHR ''?'' then Gl_One # glob_parts cs
      else Gl_Char c # glob_parts cs)"

text \<open>\<open>.\<close> matches no end of line.\<close>

fun glob_match :: "glob_part list \<Rightarrow> string \<Rightarrow> bool" where
  "glob_match [] s = (s = [])"
| "glob_match (Gl_Deep # ps) s =
     (glob_match ps s \<or> (case s of [] \<Rightarrow> False | c # cs \<Rightarrow> c \<notin> {CHR 0x0A, CHR 0x0D} \<and> glob_match (Gl_Deep # ps) cs))"
| "glob_match (Gl_Star # ps) s =
     (glob_match ps s \<or> (case s of [] \<Rightarrow> False | c # cs \<Rightarrow> c \<noteq> slash \<and> glob_match (Gl_Star # ps) cs))"
| "glob_match (Gl_One # ps) s = (case s of [] \<Rightarrow> False | c # cs \<Rightarrow> c \<noteq> slash \<and> glob_match ps cs)"
| "glob_match (Gl_Char x # ps) s = (case s of [] \<Rightarrow> False | c # cs \<Rightarrow> c = x \<and> glob_match ps cs)"

definition plain_pattern :: "string \<Rightarrow> bool" where
  "plain_pattern p = list_all (\<lambda>c. c \<notin> set [CHR ''['', CHR '']'', CHR 0x7B, CHR 0x7D, CHR 0x5C]) p"

text \<open>\<open>new RegExp\<close>: \<open>None\<close> is a syntax error.\<close>

definition glob_regexp :: "resolver_deps \<Rightarrow> string \<Rightarrow> (string \<Rightarrow> bool) option" where
  "glob_regexp d pattern =
     (if plain_pattern pattern then Some (glob_match (glob_parts pattern)) else rd_regexp d (globToRegex pattern))"

definition rel_name :: "string \<Rightarrow> string \<Rightarrow> string" where
  "rel_name dir name = (if dir = [] then name else dir @ [slash] @ name)"

text \<open>\<open>walk\<close> over the entries of a directory; the last argument are the matches so far.\<close>

fun glob_walk :: "(string \<Rightarrow> bool) \<Rightarrow> nat \<Rightarrow> string \<Rightarrow> (string \<times> fs_node) list \<Rightarrow> string list \<Rightarrow> string list" where
  "glob_walk re cap dir [] ms = ms"
| "glob_walk re cap dir ((name, node) # es) ms =
     (if starts_with name ''.'' then glob_walk re cap dir es ms
      else case node of
          Fs_Dir es' \<Rightarrow>
            (let ms' = (if length ms \<ge> cap then ms else glob_walk re cap (rel_name dir name) es' ms)
             in if length ms' \<ge> cap then ms' else glob_walk re cap dir es ms')
        | Fs_File _ \<Rightarrow>
            if re (rel_name dir name)
            then (let ms' = ms @ [rel_name dir name] in if length ms' \<ge> cap then ms' else glob_walk re cap dir es ms')
            else glob_walk re cap dir es ms
        | _ \<Rightarrow> glob_walk re cap dir es ms)"

definition matchGlob :: "resolver_deps \<Rightarrow> string \<Rightarrow> string \<Rightarrow> nat \<Rightarrow> string list option" where
  "matchGlob d root pattern cap =
     (case glob_regexp d pattern of
        None \<Rightarrow> None
      | Some re \<Rightarrow>
          Some (sort_cmp str_cmp
            (case fs_open (rd_fs d) (path_resolve (rd_cwd d) root) of
               Some (Fs_Dir es) \<Rightarrow> if 0 \<ge> cap then [] else glob_walk re cap [] es []
             | _ \<Rightarrow> [])))"

section \<open>Patterns as references\<close>

text \<open>What is to be undone for one attachment: file, row, user's row.\<close>

record handle =
  hd_file :: "string option"
  hd_agent :: "string option"
  hd_user :: string

definition undo_handle :: "att_env \<Rightarrow> string \<Rightarrow> handle \<Rightarrow> att_world \<Rightarrow> att_world" where
  "undo_handle env org h w =
     drop_user env org (hd_user h)
       ((case hd_agent h of None \<Rightarrow> (\<lambda>w. w) | Some i \<Rightarrow> drop_agent env org i)
         ((case hd_file h of None \<Rightarrow> (\<lambda>w. w) | Some p \<Rightarrow> unlink_file env p) w))"

definition rollback :: "att_env \<Rightarrow> string \<Rightarrow> handle list \<Rightarrow> att_world \<Rightarrow> att_world" where
  "rollback env org hs w = fold (undo_handle env org) (rev hs) w"

definition handle_of :: "materialization \<times> string option \<Rightarrow> handle" where
  "handle_of m = \<lparr>hd_file = snd m, hd_agent = (if mt_owns (fst m) then Some (mt_agent (fst m)) else None),
     hd_user = mt_attachment (fst m)\<rparr>"

fun glob_files ::
  "att_env \<Rightarrow> resolver_deps \<Rightarrow> string list \<Rightarrow> int \<Rightarrow> (materialization \<times> string option) list \<Rightarrow> att_world \<Rightarrow>
   (materialization \<times> string option) list resolving" where
  "glob_files env d [] bytes acc w = (w, Inr acc)"
| "glob_files env d (rel # rels) bytes acc w =
     (case resolveWorkspacePathRef env d \<lparr>ri_type = Ref_Path, ri_value = rel, ri_filename = None, ri_mime = None\<rparr> w of
        (w1, Inl e) \<Rightarrow> (rollback env (rd_org d) (map handle_of acc) w1, Inl e)
      | (w1, Inr m) \<Rightarrow>
          (let total = bytes + mt_byteSize (fst m) in
           if total > WORKSPACE_GLOB_BYTES_CAP
           then (rollback env (rd_org d) (map handle_of acc) (undo_handle env (rd_org d) (handle_of m) w1), Inl (Glob_Too_Large total))
           else glob_files env d rels total (acc @ [m]) w1))"

text \<open>The outer \<open>None\<close> is the exception of \<open>new RegExp\<close>.\<close>

definition resolveWorkspaceGlobRef ::
  "att_env \<Rightarrow> resolver_deps \<Rightarrow> ref_input \<Rightarrow> att_world \<Rightarrow> att_world \<times> (att_error + (materialization \<times> string option) list) option" where
  "resolveWorkspaceGlobRef env d r w =
     (case nonempty_root d of
        None \<Rightarrow> (w, Some (Inl No_Workspace_Root))
      | Some root \<Rightarrow>
          if includes_str (ri_value r) ''..'' then (w, Some (Inl Parent_Segments))
          else if isAbsolute (ri_value r) then (w, Some (Inl Not_Relative))
          else (case matchGlob d root (ri_value r) (WORKSPACE_GLOB_FILE_CAP + 1) of
              None \<Rightarrow> (w, None)
            | Some ms \<Rightarrow>
                if length ms > WORKSPACE_GLOB_FILE_CAP then (w, Some (Inl Glob_Too_Many))
                else if ms = [] then (w, Some (Inl (Glob_No_Match (ri_value r))))
                else (case glob_files env d (sort_cmp str_cmp ms) 0 [] w of (w', res) \<Rightarrow> (w', Some res))))"

section \<open>All references of a message\<close>

definition resolve_one ::
  "att_env \<Rightarrow> resolver_deps \<Rightarrow> ref_input \<Rightarrow> att_world \<Rightarrow> att_world \<times> (att_error + (materialization \<times> string option) list) option" where
  "resolve_one env d r w =
     (case ri_type r of
        Ref_Glob \<Rightarrow> resolveWorkspaceGlobRef env d r w
      | t \<Rightarrow>
          (case (case t of Ref_Tool_Call \<Rightarrow> resolveToolCallRef env d r w
                 | Ref_Base64 \<Rightarrow> resolveBase64Ref env d r w
                 | _ \<Rightarrow> resolveWorkspacePathRef env d r w) of
             (w', Inl e) \<Rightarrow> (w', Some (Inl e))
           | (w', Inr m) \<Rightarrow> (w', Some (Inr [m]))))"

fun resolve_refs ::
  "att_env \<Rightarrow> resolver_deps \<Rightarrow> ref_input list \<Rightarrow> (materialization \<times> string option) list \<Rightarrow> att_world \<Rightarrow> att_world \<times> resolve_result" where
  "resolve_refs env d [] acc w = (w, Resolved (map fst acc))"
| "resolve_refs env d (r # rs) acc w =
     (case resolve_one env d r w of
        (w1, None) \<Rightarrow> (w1, Threw)
      | (w1, Some (Inl e)) \<Rightarrow> (rollback env (rd_org d) (map handle_of acc) w1, Refused e)
      | (w1, Some (Inr ms)) \<Rightarrow> resolve_refs env d rs (acc @ ms) w1)"

definition resolveAttachmentRefs ::
  "att_env \<Rightarrow> resolver_deps \<Rightarrow> ref_input list \<Rightarrow> att_world \<Rightarrow> att_world \<times> resolve_result" where
  "resolveAttachmentRefs env d refs w = resolve_refs env d refs [] w"

end
