(* ===== verification/AttachmentFiles.thy ===== *)
theory AttachmentFiles
  imports AttachmentRefs AttachmentCapture
begin

text \<open>
  What references to the workspace give: only files below the workspace root, as the links on the
  way resolve, and for a pattern the visible files that match it.
\<close>

section \<open>Paths through the tree\<close>

lemma fs_at_snoc: "fs_at root at = Some (Fs_Dir es) \<Longrightarrow> fs_at root (at @ [s]) = map_of es s"
  by (induction root at rule: fs_at.induct) (auto split: option.splits)

lemma fs_at_butlast: "fs_at root at \<noteq> None \<Longrightarrow> fs_at root (butlast at) \<noteq> None"
  by (induction root at rule: fs_at.induct) (auto split: option.splits)

lemma list_all_butlast: "list_all P xs \<Longrightarrow> list_all P (butlast xs)"
  unfolding list_all_iff by (blast dest: in_set_butlastD)

text \<open>An invariant of where the walk stands and what it has still to go.\<close>

definition walk_inv :: "fs_node \<Rightarrow> (string list \<Rightarrow> string list \<Rightarrow> bool) \<Rightarrow> bool" where
  "walk_inv root I \<longleftrightarrow> (\<forall>at s ss. I at (s # ss) \<longrightarrow>
     (s = [] \<or> s = ''.'' \<longrightarrow> I at ss) \<and> (s = ''..'' \<longrightarrow> I (butlast at) ss) \<and>
     (\<forall>es c. s \<noteq> [] \<and> s \<noteq> ''.'' \<and> s \<noteq> ''..'' \<and> fs_at root at = Some (Fs_Dir es) \<and> map_of es s = Some c \<longrightarrow> I (at @ [s]) ss) \<and>
     (\<forall>t. I (if isAbsolute t then [] else at) (split_char slash t @ ss)))"

lemma walk_invariant:
  "fs_walk root follow n at ss = Some res \<Longrightarrow> walk_inv root I \<Longrightarrow> I at ss \<Longrightarrow> I res []"
proof (induction root follow n at ss arbitrary: res rule: fs_walk.induct)
  case (1 root follow n at)
  then show ?case by (simp add: fs_walk.simps)
next
  case (2 root follow n at s ss)
  from 2(7) obtain es where es: "fs_at root at = Some (Fs_Dir es)"
    by (auto simp: fs_walk.simps(2) split: option.splits fs_node.splits)
  note law = 2(8) [unfolded walk_inv_def, rule_format, OF 2(9)]
  consider "s = [] \<or> s = ''.''" | "s = ''..''" | c where "s \<noteq> []" "s \<noteq> ''.''" "s \<noteq> ''..''" "map_of es s = Some c"
    using 2(7) es by (auto simp: fs_walk.simps(2) split: option.splits if_splits)
  then show ?case
  proof cases
    case 1
    then have "fs_walk root follow n at ss = Some res" using 2(7) es by (auto simp: fs_walk.simps(2))
    then show ?thesis using 2(1) [OF es refl 1 _ 2(8)] law 1 by blast
  next
    case above: 2
    then have "fs_walk root follow n (butlast at) ss = Some res" using 2(7) es by (auto simp: fs_walk.simps(2))
    then show ?thesis using 2(2) [OF es refl _ above _ 2(8)] law above by blast
  next
    case 3
    have go: "I (at @ [s]) ss" using law 3 es by blast
    show ?thesis
    proof (cases "\<exists>t. c = Fs_Link t")
      case False
      then have "fs_walk root follow n (at @ [s]) ss = Some res"
        using 2(7) es 3 by (auto simp: fs_walk.simps(2) split: fs_node.splits)
      then show ?thesis using 2(3,4,6) [OF es refl _ 3(3,4) _ _ 2(8) go] 3 False by (cases c) auto
    next
      case True
      then obtain t where t: "c = Fs_Link t" by blast
      show ?thesis
      proof (cases "ss = [] \<and> \<not> follow")
        case True
        then show ?thesis using 2(7) es 3 t go by (auto simp: fs_walk.simps(2))
      next
        case False
        then obtain k where k: "n = Suc k" "fs_walk root follow k (if isAbsolute t then [] else at) (split_char slash t @ ss) = Some res"
          using 2(7) es 3 t by (cases n) (auto simp: fs_walk.simps(2))
        show ?thesis
          using 2(5) [OF es refl _ 3(3,4) t False k(1) k(2) 2(8)] law 3 by blast
      qed
    qed
  qed
qed

lemma walk_good:
  assumes "fs_walk root follow n at ss = Some res" and "list_all good_seg at" and "\<forall>s \<in> set ss. slash \<notin> set s"
  shows "list_all good_seg res"
proof -
  let ?I = "\<lambda>at ss. list_all good_seg at \<and> (\<forall>s \<in> set ss. slash \<notin> set s)"
  have "walk_inv root ?I" by (auto simp: walk_inv_def list_all_butlast good_seg_def dest: split_char_no_sep)
  from walk_invariant [OF assms(1) this] show ?thesis using assms(2,3) by simp
qed

lemma walk_exists: "fs_walk root follow n at ss = Some res \<Longrightarrow> fs_at root at \<noteq> None \<Longrightarrow> fs_at root res \<noteq> None"
proof (erule walk_invariant [where I = "\<lambda>at ss. fs_at root at \<noteq> None"])
  show "walk_inv root (\<lambda>at ss. fs_at root at \<noteq> None)"
    using fs_at_butlast unfolding walk_inv_def by (auto simp: fs_at_snoc)
qed

lemma walk_unfollowed: "fs_walk root True n at ss = Some res \<Longrightarrow> fs_walk root False n at ss \<noteq> None"
proof (induction root "True" n at ss arbitrary: res rule: fs_walk.induct)
  case (1 root n at)
  then show ?case by (simp add: fs_walk.simps)
next
  case (2 root n at s ss)
  consider "s = [] \<or> s = ''.''" | "s = ''..''" | "s \<noteq> []" "s \<noteq> ''.''" "s \<noteq> ''..''" by blast
  then show ?case
  proof cases
    case 3
    then show ?thesis
      unfolding fs_walk.simps(2) [of root False] using 2(3-6) 2(7) [unfolded fs_walk.simps(2)]
      by (cases "ss = []") (auto simp: fs_walk.simps(1) split del: if_split split: option.splits fs_node.splits nat.splits)
  qed (use 2(1-2) 2(7) [unfolded fs_walk.simps(2)] in
      \<open>auto simp: fs_walk.simps(2) [of root False] split: option.splits fs_node.splits\<close>)
qed

lemma render_inj: "list_all good_seg xs \<Longrightarrow> list_all good_seg ys \<Longrightarrow> render xs = render ys \<Longrightarrow> xs = ys"
  by (metis segs_render)

text \<open>The prefix test on rendered paths is a prefix of names.\<close>

lemma inside_prefix:
  assumes "list_all good_seg rr" and "list_all good_seg pp" and "inside_by_prefix (render rr) (render pp)"
  shows "\<exists>rest. pp = rr @ rest"
proof (cases "render pp = render rr")
  case True
  then show ?thesis using assms render_inj [of pp rr] by simp
next
  case False
  then obtain t where t: "render pp = render rr @ slash # t"
    using assms(3) by (auto simp: inside_by_prefix_def starts_with_iff)
  show ?thesis
  proof (cases "pp = []")
    case True
    then show ?thesis using t by (simp add: render_def)
  next
    case pp: False
    have s: "[] # pp = split_char slash (render rr) @ split_char slash t"
      using split_render [OF assms(2) pp] t by (simp add: split_char_append_sep)
    show ?thesis
    proof (cases "rr = []")
      case True
      then show ?thesis by simp
    next
      case False
      then show ?thesis using s split_render [OF assms(1)] by auto
    qed
  qed
qed

section \<open>Files below the root\<close>

lemma segs_plain: "\<forall>s \<in> set (segs p). slash \<notin> set s"
  using segs_good [of p] by (auto simp: list_all_iff good_seg_def)

lemma walked_segs: "fs_walk root follow n [] (segs p) = Some res \<Longrightarrow> list_all good_seg res"
  using walk_good [of root follow n "[]" "segs p" res] segs_plain by simp

lemma guarded_file:
  assumes "guardWorkspacePath d rel = Inr p" and "fs_open (rd_fs d) p = Some (Fs_File content)"
  shows "\<exists>root rr rest. nonempty_root d = Some root \<and>
    realpathSync (rd_fs d) (path_resolve (rd_cwd d) root) = Some (render rr) \<and> fs_at (rd_fs d) (rr @ rest) = Some (Fs_File content)"
proof -
  obtain root where root: "nonempty_root d = Some root"
    using assms(1) by (auto simp: guardWorkspacePath_def split: option.splits)
  obtain pp where pp: "fs_walk (rd_fs d) True MAX_LINKS [] (segs p) = Some pp" "fs_at (rd_fs d) pp = Some (Fs_File content)"
    using assms(2) by (auto simp: fs_open_def bind_eq_Some_conv)
  obtain q where q: "fs_walk (rd_fs d) False MAX_LINKS [] (segs p) = Some q" using walk_unfollowed [OF pp(1)] by auto
  then have "lstatSync (rd_fs d) p \<noteq> None" using walk_exists [OF q] by (auto simp: lstatSync_def)
  then obtain rr' where rr: "realpathSync (rd_fs d) (path_resolve (rd_cwd d) root) = Some rr'" "inside_by_prefix rr' (render pp)"
    using assms(1) root pp(1)
    by (auto simp: guardWorkspacePath_def Let_def realpathSync_def split: option.splits fs_node.splits if_splits)
  then obtain rr where r: "rr' = render rr" "list_all good_seg rr"
    using walked_segs by (auto simp: realpathSync_def)
  then obtain rest where "pp = rr @ rest"
    using inside_prefix [OF r(2) walked_segs [OF pp(1)]] rr(2) by auto
  then show ?thesis using root rr(1) r(1) pp(2) by blast
qed

lemma commitBytes_stored:
  "commitBytes env d bytes mime cat filename w = (w', Inr (m, f)) \<Longrightarrow>
    \<exists>p. f = Some p \<and> kv_get (sw_files w') p = Some bytes \<and> mt_byteSize m = int (length bytes) \<and> mt_owns m"
  by (auto simp: commitBytes_def Let_def draw_id_def write_file_def commitUserAttachmentRow_def kv.lookup_put
      split: prod.splits write_result.splits option.splits bool.splits if_splits)

text \<open>
  C36: A file of the workspace that becomes an attachment lies below the workspace root when every
  link on the way is followed: what is stored is the content of a regular file of the tree whose
  names begin with those of the real root, and it has at most 10 MB.
\<close>
theorem attached_file_inside:
  assumes "resolveWorkspacePathRef env d r w = (w', Inr (m, f))"
  shows "\<exists>root rr rest content p. nonempty_root d = Some root \<and>
    realpathSync (rd_fs d) (path_resolve (rd_cwd d) root) = Some (render rr) \<and>
    fs_at (rd_fs d) (rr @ rest) = Some (Fs_File content) \<and> int (length content) \<le> WORKSPACE_PATH_CAP_BYTES \<and>
    f = Some p \<and> kv_get (sw_files w') p = Some content"
proof -
  obtain p content mime cat filename where g: "guardWorkspacePath d (ri_value r) = Inr p"
    "fs_open (rd_fs d) p = Some (Fs_File content)" "int (length content) \<le> WORKSPACE_PATH_CAP_BYTES"
    and c: "commitBytes env d content mime cat filename w = (w', Inr (m, f))"
    using assms unfolding resolveWorkspacePathRef_def
    by (auto split: sum.splits option.splits fs_node.splits prod.splits if_splits)
  from guarded_file [OF g(1,2)] commitBytes_stored [OF c] g(3) show ?thesis by blast
qed

section \<open>What a pattern finds\<close>

text \<open>The files a pattern can find: no part of the path is hidden, no link is followed.\<close>

fun visible_files :: "string \<Rightarrow> (string \<times> fs_node) list \<Rightarrow> string list" where
  "visible_files dir [] = []"
| "visible_files dir ((name, node) # es) =
     (if starts_with name ''.'' then []
      else case node of
          Fs_Dir es' \<Rightarrow> visible_files (rel_name dir name) es'
        | Fs_File _ \<Rightarrow> [rel_name dir name]
        | _ \<Rightarrow> []) @ visible_files dir es"

lemma glob_walk_finds:
  "length ms < cap \<Longrightarrow> glob_walk re cap dir es ms = take cap (ms @ filter re (visible_files dir es))"
proof (induction re cap dir es ms rule: glob_walk.induct)
  case (2 re cap dir name node es ms)
  show ?case
  proof (cases "starts_with name ''.''")
    case True
    then show ?thesis using 2 by simp
  next
    case False
    show ?thesis
    proof (cases node)
      case (Fs_Dir es')
      let ?found = "filter re (visible_files (rel_name dir name) es')"
      have sub: "glob_walk re cap (rel_name dir name) es' ms = take cap (ms @ ?found)"
        using 2(4) [OF False Fs_Dir] 2(8) by simp
      show ?thesis
      proof (cases "cap \<le> length (ms @ ?found)")
        case True
        then show ?thesis using False Fs_Dir sub 2(8) by (simp add: Let_def)
      next
        case short: False
        then have "take cap (ms @ ?found) = ms @ ?found" by simp
        then show ?thesis using False Fs_Dir sub 2(5) [OF False Fs_Dir refl] 2(8) short by (simp add: Let_def)
      qed
    next
      case (Fs_File c)
      show ?thesis
      proof (cases "re (rel_name dir name)")
        case True
        then show ?thesis
          using False Fs_File 2(2) [OF False Fs_File True refl] 2(8)
          by (cases "cap \<le> Suc (length ms)") (simp_all add: Let_def take_Cons')
      next
        case no: False
        then show ?thesis using False Fs_File 2(3) [OF False Fs_File no] 2(8) by simp
      qed
    qed (use False 2 in simp_all)
  qed
qed simp

text \<open>The words a part of a pattern stands for.\<close>

fun part_word :: "glob_part \<Rightarrow> string \<Rightarrow> bool" where
  "part_word Gl_Deep s = (CHR 0x0A \<notin> set s \<and> CHR 0x0D \<notin> set s)"
| "part_word Gl_Star s = (slash \<notin> set s)"
| "part_word Gl_One s = (\<exists>c. s = [c] \<and> c \<noteq> slash)"
| "part_word (Gl_Char c) s = (s = [c])"

definition in_pattern :: "glob_part list \<Rightarrow> string \<Rightarrow> bool" where
  "in_pattern ps s \<longleftrightarrow> (\<exists>ws. list_all2 part_word ps ws \<and> s = concat ws)"

lemma in_pattern_Nil [simp]: "in_pattern [] s \<longleftrightarrow> s = []"
  by (auto simp: in_pattern_def)

lemma in_pattern_Cons: "in_pattern (p # ps) s \<longleftrightarrow> (\<exists>u v. s = u @ v \<and> part_word p u \<and> in_pattern ps v)"
  by (fastforce simp: in_pattern_def list_all2_Cons1)

lemma in_pattern_many:
  assumes "\<And>u. part_word p u \<longleftrightarrow> (\<forall>c \<in> set u. Q c)"
  shows "in_pattern (p # ps) s \<longleftrightarrow> in_pattern ps s \<or> (\<exists>c cs. s = c # cs \<and> Q c \<and> in_pattern (p # ps) cs)"
proof
  assume "in_pattern (p # ps) s"
  then obtain u v where "s = u @ v" "part_word p u" "in_pattern ps v" by (auto simp: in_pattern_Cons)
  then show "in_pattern ps s \<or> (\<exists>c cs. s = c # cs \<and> Q c \<and> in_pattern (p # ps) cs)"
    using assms by (cases u) (auto simp: in_pattern_Cons)
next
  assume "in_pattern ps s \<or> (\<exists>c cs. s = c # cs \<and> Q c \<and> in_pattern (p # ps) cs)"
  then show "in_pattern (p # ps) s"
  proof
    assume "in_pattern ps s"
    then show ?thesis using assms [of "[]"] by (auto simp: in_pattern_Cons)
  next
    assume "\<exists>c cs. s = c # cs \<and> Q c \<and> in_pattern (p # ps) cs"
    then obtain c u v where "s = (c # u) @ v" "Q c" "part_word p u" "in_pattern ps v" by (auto simp: in_pattern_Cons)
    then have "s = (c # u) @ v \<and> part_word p (c # u) \<and> in_pattern ps v" using assms [of u] assms [of "c # u"] by auto
    then show ?thesis unfolding in_pattern_Cons by blast
  qed
qed

lemma glob_match_iff: "glob_match ps s \<longleftrightarrow> in_pattern ps s"
proof (induction ps s rule: glob_match.induct)
  case (2 ps s)
  have "part_word Gl_Deep u \<longleftrightarrow> (\<forall>c \<in> set u. c \<notin> {CHR 0x0A, CHR 0x0D})" for u by auto
  from in_pattern_many [OF this, of ps s] 2 show ?case by (auto split: list.splits)
next
  case (3 ps s)
  have "part_word Gl_Star u \<longleftrightarrow> (\<forall>c \<in> set u. c \<noteq> slash)" for u by auto
  from in_pattern_many [OF this, of ps s] 3 show ?case by (auto split: list.splits)
next
  case (4 ps s)
  have "in_pattern (Gl_One # ps) s \<longleftrightarrow> (\<exists>c cs. s = c # cs \<and> c \<noteq> slash \<and> in_pattern ps cs)"
    unfolding in_pattern_Cons part_word.simps by (metis append_Cons append_Nil)
  with 4 show ?case by (auto split: list.splits)
next
  case (5 x ps s)
  then show ?case by (auto simp: in_pattern_Cons split: list.splits)
qed simp

text \<open>
  C37: A pattern without brackets, braces and backslashes finds, sorted, the visible files below
  the root whose path it describes part by part - a doubled star any text of one line, a star and
  a question mark text within a name, any other character itself -, all of them unless they are
  at least as many as the cap, and then the first ones met.
\<close>
theorem glob_finds_exactly:
  assumes "plain_pattern pattern" and "0 < cap" and "fs_open (rd_fs d) (path_resolve (rd_cwd d) root) = Some (Fs_Dir es)"
  shows "matchGlob d root pattern cap =
    Some (sort_cmp str_cmp (take cap (filter (in_pattern (glob_parts pattern)) (visible_files [] es))))"
proof -
  have "glob_match (glob_parts pattern) = in_pattern (glob_parts pattern)" by (rule ext) (rule glob_match_iff)
  then show ?thesis using assms glob_walk_finds [of "[]" cap] by (simp add: matchGlob_def glob_regexp_def)
qed

section \<open>Witnesses\<close>

definition demo_tree :: fs_node where
  "demo_tree = Fs_Dir [(''w'', Fs_Dir [(''a.txt'', Fs_File ''hi''), (''.git'', Fs_Dir [(''b.txt'', Fs_File ''no'')]),
     (''out'', Fs_Link ''/etc'')])]"

definition demo_reader :: resolver_deps where
  "demo_reader = \<lparr>rd_fs = demo_tree, rd_cwd = ''/'', rd_agentRoot = ''/store/agent-generated'', rd_workspaceRoot = Some ''/w'',
     rd_org = ''o'', rd_run = ''r'', rd_member = ''m'', rd_regexp = (\<lambda>_. None)\<rparr>"

definition demo_ref :: ref_input where
  "demo_ref = \<lparr>ri_type = Ref_Path, ri_value = ''a.txt'', ri_filename = None, ri_mime = None\<rparr>"

lemma demo_attached: "case resolveWorkspacePathRef demo_att demo_reader demo_ref empty_store of (_, Inr _) \<Rightarrow> True | _ \<Rightarrow> False"
  by code_simp

theorem attached_file_inside_witness:
  "\<exists>rr rest content. realpathSync demo_tree ''/w'' = Some (render rr) \<and> fs_at demo_tree (rr @ rest) = Some (Fs_File content)"
proof -
  obtain w' m f where "resolveWorkspacePathRef demo_att demo_reader demo_ref empty_store = (w', Inr (m, f))"
    using demo_attached by (auto split: prod.splits sum.splits)
  from attached_file_inside [OF this] obtain root rr rest content where
    "nonempty_root demo_reader = Some root" "realpathSync demo_tree (path_resolve (rd_cwd demo_reader) root) = Some (render rr)"
    "fs_at demo_tree (rr @ rest) = Some (Fs_File content)" by (auto simp: demo_reader_def)
  moreover have "nonempty_root demo_reader = Some ''/w''" by code_simp
  moreover have "path_resolve (rd_cwd demo_reader) ''/w'' = ''/w''" by code_simp
  ultimately show ?thesis by auto
qed

theorem glob_finds_exactly_witness:
  "matchGlob demo_reader ''/w'' ''**.txt'' 11 = Some (sort_cmp str_cmp (take 11 (filter (in_pattern (glob_parts ''**.txt''))
     (visible_files [] [(''a.txt'', Fs_File ''hi''), (''.git'', Fs_Dir [(''b.txt'', Fs_File ''no'')]), (''out'', Fs_Link ''/etc'')]))))"
  by (rule glob_finds_exactly) code_simp+

text \<open>The stars take the separator with them: the file need not be called \<open>login.png\<close>.\<close>

lemma deep_star_joins: "glob_match (glob_parts ''**/login.png'') ''old-login.png''"
  by code_simp

end
