(* ===== verification/AttachmentClaims.thy ===== *)
theory AttachmentClaims
  imports AttachmentFiles "HOL-Library.Multiset"
begin

text \<open>
  What holds of the attachments: a refused reference leaves the store as it was, files come from
  inside the workspace, patterns find what they say, captures stay within the quota and the sweep
  takes the expired rows and no other.
\<close>

section \<open>Identifiers and paths\<close>

text \<open>\<open>randomUUID\<close>: hexadecimal digits and dashes, never the same one twice.\<close>

definition uuids_ok :: "att_env \<Rightarrow> bool" where
  "uuids_ok env \<longleftrightarrow> inj (ae_uuid env) \<and> (\<forall>n. CHR ''.'' \<notin> set (ae_uuid env n) \<and> slash \<notin> set (ae_uuid env n))"

lemma uuid_eq: "uuids_ok env \<Longrightarrow> ae_uuid env n = ae_uuid env m \<longleftrightarrow> n = m"
  by (auto simp: uuids_ok_def inj_eq)

lemma join_snoc: "join_with sep (xs @ [x]) = (if xs = [] then x else join_with sep xs @ sep @ x)"
proof (induction xs)
  case (Cons y ys)
  then show ?case by (cases ys) simp_all
qed simp

lemma norm_segs_snoc: "good_seg f \<Longrightarrow> norm_segs stack (ss @ [f]) = norm_segs stack ss @ [f]"
  by (induction stack ss rule: norm_segs.induct) (auto simp: good_seg_def)

lemma segs_snoc: "good_seg f \<Longrightarrow> segs (p @ slash # f) = segs p @ [f]"
proof -
  assume f: "good_seg f"
  then have "split_char slash f = [f]" using split_join_good [of "[f]"] by simp
  with f show ?thesis by (simp add: segs_def split_char_append_sep norm_segs_snoc)
qed

lemma path_join_file:
  assumes "isAbsolute root" and "good_seg f"
  shows "\<exists>ss. list_all good_seg ss \<and> path_join [root, org, run, f] = render (ss @ [f]) \<and>
    (\<forall>g. good_seg g \<longrightarrow> path_join [root, org, run, g] = render (ss @ [g]))"
proof -
  let ?ps = "filter (\<lambda>x. x \<noteq> []) [root, org, run]"
  have ne: "?ps \<noteq> []" "root \<noteq> []" using assms(1) by (auto simp: isAbsolute_def)
  let ?q = "join_with [slash] ?ps"
  have "isAbsolute (?q @ x)" for x using assms(1) by (auto simp: isAbsolute_def)
  then have *: "path_join [root, org, run, g] = render (segs ?q @ [g])" if "good_seg g" for g
    using ne segs_snoc [OF that, of ?q] join_snoc [of "[slash]" ?ps g] that
    unfolding path_join_def Let_def by (auto simp: good_seg_def split: if_splits)
  show ?thesis by (rule exI [of _ "segs ?q"]) (use * assms(2) in auto)
qed

lemma extension_good: "slash \<notin> set (extensionForMime m)"
  by (auto simp: extensionForMime_def slash_def)

lemma extension_dot: "\<exists>e. extensionForMime m = CHR ''.'' # e"
  by (simp add: extensionForMime_def)

lemma file_seg: "uuids_ok env \<Longrightarrow> good_seg (''aatt_'' @ ae_uuid env n @ extensionForMime m)"
  using extension_good [of m] by (auto simp: uuids_ok_def good_seg_def) (simp_all add: slash_def)

lemma store_paths_apart:
  assumes "uuids_ok env" and "isAbsolute (rd_agentRoot d)"
  shows "store_path d (''aatt_'' @ ae_uuid env n) m = store_path d (''aatt_'' @ ae_uuid env n') m' \<Longrightarrow> n = n'"
proof -
  let ?f = "''aatt_'' @ ae_uuid env n @ extensionForMime m" and ?g = "''aatt_'' @ ae_uuid env n' @ extensionForMime m'"
  assume eq: "store_path d (''aatt_'' @ ae_uuid env n) m = store_path d (''aatt_'' @ ae_uuid env n') m'"
  obtain ss where "list_all good_seg ss" "path_join [rd_agentRoot d, rd_org d, rd_run d, ?f] = render (ss @ [?f])"
    "path_join [rd_agentRoot d, rd_org d, rd_run d, ?g] = render (ss @ [?g])"
    using path_join_file [OF assms(2) file_seg [OF assms(1), of n m]] file_seg [OF assms(1), of n' m'] by metis
  then have "ss @ [?f] = ss @ [?g]"
    using eq file_seg [OF assms(1)] by (intro render_inj) (auto simp: store_path_def)
  then have "ae_uuid env n @ extensionForMime m = ae_uuid env n' @ extensionForMime m'" by simp
  moreover have "takeWhile (\<lambda>c. c \<noteq> CHR ''.'') (ae_uuid env k @ extensionForMime q) = ae_uuid env k" for k q
  proof -
    obtain e where "extensionForMime q = CHR ''.'' # e" using extension_dot by blast
    moreover have "\<forall>c \<in> set (ae_uuid env k). c \<noteq> CHR ''.''" using assms(1) by (auto simp: uuids_ok_def)
    ultimately show ?thesis by (simp add: takeWhile_append2)
  qed
  ultimately have "ae_uuid env n = ae_uuid env n'" by metis
  then show ?thesis using uuid_eq [OF assms(1)] by simp
qed

section \<open>Undoing\<close>

text \<open>The same rows and files; identifiers drawn and audit entries may differ.\<close>

definition same_store :: "att_world \<Rightarrow> att_world \<Rightarrow> bool" where
  "same_store v w \<longleftrightarrow> sw_agent v = sw_agent w \<and> sw_users v = sw_users w \<and> sw_files v = sw_files w"

lemma same_store_refl [simp]: "same_store w w"
  by (simp add: same_store_def)

lemma same_store_trans: "same_store u v \<Longrightarrow> same_store v w \<Longrightarrow> same_store u w"
  by (simp add: same_store_def)

lemma same_store_undo: "same_store v w \<Longrightarrow> same_store (undo_handle env org h v) (undo_handle env org h w)"
  by (simp add: same_store_def undo_handle_def drop_user_def drop_agent_def unlink_file_def split: option.split)

lemma same_store_rollback: "same_store v w \<Longrightarrow> same_store (rollback env org hs v) (rollback env org hs w)"
  unfolding rollback_def
proof (induction "rev hs" arbitrary: hs v w)
  case (Cons h ks)
  then have "same_store (fold (undo_handle env org) (rev (rev ks)) (undo_handle env org h v)) (fold (undo_handle env org) (rev (rev ks)) (undo_handle env org h w))"
    using same_store_undo by (metis rev_rev_ident)
  then show ?case using Cons.hyps(2) by (metis fold_simps(2) rev_rev_ident)
qed simp

lemma rollback_append: "rollback env org (hs @ ks) w = rollback env org hs (rollback env org ks w)"
  by (simp add: rollback_def)

lemma rollback_Nil [simp]: "rollback env org [] w = w"
  by (simp add: rollback_def)

definition undoes :: "att_env \<Rightarrow> string \<Rightarrow> handle list \<Rightarrow> att_world \<Rightarrow> att_world \<Rightarrow> bool" where
  "undoes env org hs w w' \<longleftrightarrow> (\<forall>v. same_store v w' \<longrightarrow> same_store (rollback env org hs v) w)"

lemma undoes_Nil: "same_store w' w \<Longrightarrow> undoes env org [] w w'"
  by (auto simp: undoes_def intro: same_store_trans)

lemma undoes_append: "undoes env org hs u v \<Longrightarrow> undoes env org ks v w \<Longrightarrow> undoes env org (hs @ ks) u w"
  by (simp add: undoes_def rollback_append)

text \<open>Operations on disk and database work, or leave nothing behind.\<close>

definition calm :: "att_env \<Rightarrow> bool" where
  "calm env \<longleftrightarrow> (\<forall>p b part. ae_write env p b \<noteq> Cut_Short part) \<and> (\<forall>i. \<not> ae_deleteFault env i) \<and> (\<forall>p. \<not> ae_unlinkFault env p)"

text \<open>The identifiers still to be drawn name no row and no file.\<close>

definition fresh_ids :: "att_env \<Rightarrow> resolver_deps \<Rightarrow> att_world \<Rightarrow> bool" where
  "fresh_ids env d w \<longleftrightarrow> (\<forall>n \<ge> sw_drawn w.
     ''aatt_'' @ ae_uuid env n \<notin> aa_id ` set (sw_agent w) \<and> ''att_'' @ ae_uuid env n \<notin> at_id ` set (sw_users w) \<and>
     (\<forall>m. kv_get (sw_files w) (store_path d (''aatt_'' @ ae_uuid env n) m) = None))"

lemma fresh_later: "fresh_ids env d w \<Longrightarrow> same_store w' w \<Longrightarrow> sw_drawn w \<le> sw_drawn w' \<Longrightarrow> fresh_ids env d w'"
  by (auto simp: fresh_ids_def same_store_def)

lemma kv_del_put_fresh: "kv_get t k = None \<Longrightarrow> kv_del k (kv_put k v t) = t"
  by (auto simp: kv_get_def kv_put_def kv_del_def tbl_upsert_def tbl_delete_def tbl_find_None filter_id_conv)

lemma delete_new: "P a \<Longrightarrow> (\<And>x. x \<in> set t \<Longrightarrow> \<not> P x) \<Longrightarrow> tbl_delete P (t @ [a]) = t \<and> tbl_delete P t = t"
  by (auto simp: tbl_delete_def filter_id_conv)

lemma delete_new_agent:
  "aa_id a \<notin> aa_id ` set t \<Longrightarrow> deleteAgentAttachment (aa_org a) (aa_id a) (t @ [a]) = t \<and> deleteAgentAttachment (aa_org a) (aa_id a) t = t"
  unfolding deleteAgentAttachment_def by (rule delete_new) (auto simp: image_iff)

lemma delete_new_user:
  "at_id a \<notin> at_id ` set t \<Longrightarrow> deleteAttachment (at_org a) (at_id a) (t @ [a]) = t \<and> deleteAttachment (at_org a) (at_id a) t = t"
  unfolding deleteAttachment_def by (rule delete_new) (auto simp: image_iff)

text \<open>
  What one step guarantees: a refusal leaves the store as it was, a result comes with the handles
  that undo it, and the identifiers to come stay fresh.
\<close>

definition step_undone ::
  "att_env \<Rightarrow> resolver_deps \<Rightarrow> att_world \<Rightarrow> att_world \<Rightarrow> (att_error + (materialization \<times> string option) list) \<Rightarrow> bool" where
  "step_undone env d w w' r \<longleftrightarrow> fresh_ids env d w' \<and> sw_drawn w \<le> sw_drawn w' \<and>
     (case r of Inl _ \<Rightarrow> same_store w' w | Inr ms \<Rightarrow> undoes env (rd_org d) (map handle_of ms) w w')"

definition single :: "(att_error + 'a) \<Rightarrow> (att_error + 'a list)" where
  "single r = (case r of Inl e \<Rightarrow> Inl e | Inr m \<Rightarrow> Inr [m])"

lemma step_kept: "fresh_ids env d w \<Longrightarrow> step_undone env d w w (Inl e)"
  by (simp add: step_undone_def)

lemma commitBytes_undone:
  assumes "uuids_ok env" and "isAbsolute (rd_agentRoot d)" and "calm env" and "fresh_ids env d w"
    and "commitBytes env d bytes mime cat filename w = (w', r)"
  shows "step_undone env d w w' (single r)"
proof -
  let ?i = "''aatt_'' @ ae_uuid env (sw_drawn w)" and ?u = "''att_'' @ ae_uuid env (Suc (sw_drawn w))"
  let ?path = "store_path d ?i mime" and ?row = "agent_row env d ?i bytes mime cat filename"
  let ?user = "user_row env d ?u filename mime cat (int (length bytes)) (aa_storagePath ?row)"
  have new: "?i \<notin> aa_id ` set (sw_agent w)" "?u \<notin> at_id ` set (sw_users w)" "kv_get (sw_files w) ?path = None"
    using assms(4) by (auto simp: fresh_ids_def)
  have agent: "deleteAgentAttachment (rd_org d) ?i (sw_agent w @ [?row]) = sw_agent w" "deleteAgentAttachment (rd_org d) ?i (sw_agent w) = sw_agent w"
    using delete_new_agent [of ?row "sw_agent w"] new(1) by (simp_all add: agent_row_def)
  have user: "deleteAttachment (rd_org d) ?u (sw_users w @ [?user]) = sw_users w" "deleteAttachment (rd_org d) ?u (sw_users w) = sw_users w"
    using delete_new_user [of ?user "sw_users w"] new(2) by (simp_all add: user_row_def)
  have stored: "kv_del ?path (kv_put ?path bytes (sw_files w)) = sw_files w"
    using new(3) by (rule kv_del_put_fresh)
  show ?thesis
  proof (cases "ae_write env ?path bytes = Written")
    case False
    then have "same_store w' w" "sw_drawn w \<le> sw_drawn w'" "\<exists>e. r = Inl e"
      using assms(3,5) by (auto simp: commitBytes_def draw_id_def write_file_def calm_def same_store_def Let_def split: write_result.splits)
    then show ?thesis using fresh_later [OF assms(4)] by (auto simp: step_undone_def single_def)
  next
    case True
    then have put: "write_file env ?path bytes (w\<lparr>sw_drawn := Suc (sw_drawn w)\<rparr>) =
        (True, w\<lparr>sw_drawn := Suc (sw_drawn w), sw_files := kv_put ?path bytes (sw_files w)\<rparr>)"
      by (simp add: write_file_def)
    show ?thesis
    proof (cases "saveAgentAttachment env ?row (sw_agent w)")
      case None
      with put have "same_store w' w" "sw_drawn w \<le> sw_drawn w'" "\<exists>e. r = Inl e"
        using assms(3,5) agent stored
        by (auto simp: commitBytes_def draw_id_def Let_def runRollback_def drop_agent_def unlink_file_def calm_def same_store_def)
      then show ?thesis using fresh_later [OF assms(4)] by (auto simp: step_undone_def single_def)
    next
      case (Some t)
      then have t: "t = sw_agent w @ [?row]" by (auto simp: saveAgentAttachment_def tbl_insert_def split: if_splits)
      show ?thesis
      proof (cases "saveAttachment env ?user (sw_users w)")
        case None
        with put Some t have "same_store w' w" "sw_drawn w \<le> sw_drawn w'" "\<exists>e. r = Inl e"
          using assms(3,5) agent stored user
          by (auto simp: commitBytes_def draw_id_def Let_def commitUserAttachmentRow_def runRollback_def drop_agent_def drop_user_def
              unlink_file_def calm_def same_store_def user_row_def)
        then show ?thesis using fresh_later [OF assms(4)] by (auto simp: step_undone_def single_def)
      next
        case (Some t2)
        then have t2: "t2 = sw_users w @ [?user]" by (auto simp: saveAttachment_def tbl_insert_def split: if_splits)
        let ?h = "\<lparr>hd_file = Some ?path, hd_agent = Some ?i, hd_user = ?u\<rparr>"
        have done': "sw_agent w' = sw_agent w @ [?row]" "sw_users w' = sw_users w @ [?user]"
          "sw_files w' = kv_put ?path bytes (sw_files w)" "sw_drawn w' = Suc (Suc (sw_drawn w))"
          "\<exists>m. r = Inr m \<and> handle_of m = ?h"
          using put \<open>saveAgentAttachment env ?row (sw_agent w) = Some t\<close> Some t t2 assms(5)
          by (auto simp: commitBytes_def draw_id_def Let_def commitUserAttachmentRow_def handle_of_def)
        have "undoes env (rd_org d) [?h] w w'"
          using assms(3) done' agent user stored
          by (auto simp: undoes_def same_store_def rollback_def undo_handle_def drop_user_def drop_agent_def unlink_file_def calm_def)
        moreover have "fresh_ids env d w'"
          unfolding fresh_ids_def done'
        proof (intro allI impI)
          fix n assume n: "Suc (Suc (sw_drawn w)) \<le> n"
          then have "ae_uuid env n \<noteq> ae_uuid env (sw_drawn w)" "ae_uuid env n \<noteq> ae_uuid env (Suc (sw_drawn w))"
            using assms(1) by (simp_all add: uuid_eq)
          moreover have "store_path d (''aatt_'' @ ae_uuid env n) m \<noteq> ?path" for m
            using store_paths_apart [OF assms(1,2)] n by fastforce
          ultimately show "''aatt_'' @ ae_uuid env n \<notin> aa_id ` set (sw_agent w @ [?row]) \<and>
              ''att_'' @ ae_uuid env n \<notin> at_id ` set (sw_users w @ [?user]) \<and>
              (\<forall>m. kv_get (kv_put ?path bytes (sw_files w)) (store_path d (''aatt_'' @ ae_uuid env n) m) = None)"
            using assms(4) n by (auto simp: fresh_ids_def agent_row_def user_row_def kv.lookup_put)
        qed
        ultimately show ?thesis using done'(4,5) by (auto simp: step_undone_def single_def)
      qed
    qed
  qed
qed

lemma commitUser_undone:
  assumes "uuids_ok env" and "calm env" and "fresh_ids env d w"
    and "draw_id env ''att_'' w = (i, w1)" and "at_id row = i" and "at_org row = rd_org d"
    and "commitUserAttachmentRow env d [] row w1 = (ok, w')"
  shows "fresh_ids env d w' \<and> sw_drawn w \<le> sw_drawn w' \<and> (if ok then undoes env (rd_org d) [\<lparr>hd_file = None, hd_agent = None, hd_user = i\<rparr>] w w' else same_store w' w)"
proof -
  have i: "i = ''att_'' @ ae_uuid env (sw_drawn w)" "w1 = w\<lparr>sw_drawn := Suc (sw_drawn w)\<rparr>"
    using assms(4) by (auto simp: draw_id_def)
  have new: "at_id row \<notin> at_id ` set (sw_users w)"
    using assms(3,5) i by (auto simp: fresh_ids_def)
  have gone: "deleteAttachment (rd_org d) i (sw_users w @ [row]) = sw_users w" "deleteAttachment (rd_org d) i (sw_users w) = sw_users w"
    using delete_new_user [OF new] assms(5,6) by simp_all
  show ?thesis
  proof (cases "saveAttachment env row (sw_users w)")
    case None
    then have "\<not> ok" "same_store w' w" "sw_drawn w \<le> sw_drawn w'"
      using assms(2,5,7) i gone
      by (auto simp: commitUserAttachmentRow_def runRollback_def drop_user_def calm_def same_store_def)
    then show ?thesis using fresh_later [OF assms(3)] by simp
  next
    case (Some t)
    then have w': "ok" "w' = w\<lparr>sw_drawn := Suc (sw_drawn w), sw_users := sw_users w @ [row]\<rparr>"
      using assms(7) i by (auto simp: commitUserAttachmentRow_def saveAttachment_def tbl_insert_def split: if_splits)
    have "undoes env (rd_org d) [\<lparr>hd_file = None, hd_agent = None, hd_user = i\<rparr>] w w'"
      using assms(2) gone by (auto simp: w' undoes_def same_store_def rollback_def undo_handle_def drop_user_def calm_def)
    moreover have "fresh_ids env d w'"
      using assms(3,5) i(1) by (auto simp: w' fresh_ids_def uuid_eq [OF assms(1)])
    ultimately show ?thesis using w' by simp
  qed
qed

lemma toolCall_undone:
  assumes "uuids_ok env" and "calm env" and "fresh_ids env d w" and "resolveToolCallRef env d r w = (w', res)"
  shows "step_undone env d w w' (single res)"
proof (cases "\<exists>e. (w', res) = (w, Inl e)")
  case True
  then show ?thesis using assms(3) by (auto simp: single_def step_kept)
next
  case False
  then obtain callId index n row where p: "split_ref (ri_value r) = Some (callId, index)" "parse_int index = Some n" "\<not> n < 0"
    "findAgentAttachmentByToolCall (rd_org d) callId (nat n) (sw_agent w) = Some row"
    using assms(4) by (auto simp: resolveToolCallRef_def split: option.splits if_splits)
  let ?row = "\<lambda>i. user_row env d i (coalesce (ri_filename r) (aa_filename row)) (aa_mime row) (aa_category row) (aa_byteSize row) (aa_storagePath row)"
  obtain i w1 where i: "draw_id env ''att_'' w = (i, w1)" by (cases "draw_id env ''att_'' w")
  obtain ok w2 where c: "commitUserAttachmentRow env d [] (?row i) w1 = (ok, w2)" by (cases "commitUserAttachmentRow env d [] (?row i) w1")
  have res: "w2 = w'" "case res of Inl _ \<Rightarrow> \<not> ok | Inr m \<Rightarrow> ok \<and> handle_of m = \<lparr>hd_file = None, hd_agent = None, hd_user = i\<rparr>"
    using assms(4) p i c by (auto simp: resolveToolCallRef_def Let_def handle_of_def split: bool.splits)
  show ?thesis
    using commitUser_undone [OF assms(1,2,3) i _ _ c] res
    by (auto simp: user_row_def step_undone_def single_def split: sum.splits)
qed

lemma workspacePath_undone:
  assumes "uuids_ok env" and "isAbsolute (rd_agentRoot d)" and "calm env" and "fresh_ids env d w"
    and "resolveWorkspacePathRef env d r w = (w', res)"
  shows "step_undone env d w w' (single res)"
proof (cases "\<exists>e. (w', res) = (w, Inl e)")
  case True
  then show ?thesis using assms(4) by (auto simp: single_def step_kept)
next
  case False
  with assms(5) obtain bytes mime cat filename where "commitBytes env d bytes mime cat filename w = (w', res)"
    unfolding resolveWorkspacePathRef_def
    by (auto split: sum.splits option.splits fs_node.splits prod.splits if_splits)
  then show ?thesis by (rule commitBytes_undone [OF assms(1-4)])
qed

lemma base64_undone:
  assumes "uuids_ok env" and "isAbsolute (rd_agentRoot d)" and "calm env" and "fresh_ids env d w"
    and "resolveBase64Ref env d r w = (w', res)"
  shows "step_undone env d w w' (single res)"
proof (cases "\<exists>e. (w', res) = (w, Inl e)")
  case True
  then show ?thesis using assms(4) by (auto simp: single_def step_kept)
next
  case False
  with assms(5) obtain bytes mime cat filename where "commitBytes env d bytes mime cat filename w = (w', res)"
    unfolding resolveBase64Ref_def Let_def by (auto split: prod.splits if_splits)
  then show ?thesis by (rule commitBytes_undone [OF assms(1-4)])
qed

lemma drawn_rollback [simp]: "sw_drawn (rollback env org hs w) = sw_drawn w"
proof -
  have "sw_drawn (undo_handle env org h v) = sw_drawn v" for h v
    by (simp add: undo_handle_def drop_user_def drop_agent_def unlink_file_def split: option.split)
  then show ?thesis unfolding rollback_def by (induction "rev hs" arbitrary: hs w) (metis fold_simps rev_rev_ident)+
qed

lemma step_fails:
  "undoes env (rd_org d) hs w v \<Longrightarrow> same_store v' v \<Longrightarrow> fresh_ids env d w \<Longrightarrow> sw_drawn w \<le> sw_drawn v' \<Longrightarrow>
    step_undone env d w (rollback env (rd_org d) hs v') (Inl e)"
  by (auto simp: step_undone_def undoes_def intro: fresh_later)

lemma glob_files_undone:
  assumes "uuids_ok env" and "isAbsolute (rd_agentRoot d)" and "calm env" and "fresh_ids env d w"
  shows "fresh_ids env d v \<Longrightarrow> undoes env (rd_org d) (map handle_of acc) w v \<Longrightarrow>
    glob_files env d rels bytes acc v = (w', res) \<Longrightarrow> sw_drawn w \<le> sw_drawn v \<Longrightarrow> step_undone env d w w' res"
proof (induction rels arbitrary: bytes acc v)
  case Nil
  then show ?case by (auto simp: step_undone_def)
next
  case (Cons rel rels)
  let ?r = "\<lparr>ri_type = Ref_Path, ri_value = rel, ri_filename = None, ri_mime = None\<rparr>"
  obtain v1 r1 where r1: "resolveWorkspacePathRef env d ?r v = (v1, r1)" by (cases "resolveWorkspacePathRef env d ?r v")
  have step: "step_undone env d v v1 (single r1)"
    using workspacePath_undone [OF assms(1-3) Cons.prems(1) r1] .
  show ?case
  proof (cases r1)
    case (Inl e)
    then show ?thesis
      using Cons.prems step r1 step_fails [OF Cons.prems(2), of v1 e] assms(4)
      by (auto simp: step_undone_def single_def)
  next
    case (Inr m)
    then have u: "undoes env (rd_org d) (map handle_of (acc @ [m])) w v1" "fresh_ids env d v1" "sw_drawn w \<le> sw_drawn v1"
      using Cons.prems(2,4) step undoes_append by (auto simp: step_undone_def single_def)
    show ?thesis
    proof (cases "bytes + mt_byteSize (fst m) > WORKSPACE_GLOB_BYTES_CAP")
      case True
      then have "w' = rollback env (rd_org d) (map handle_of (acc @ [m])) v1" "\<exists>e. res = Inl e"
        using Cons.prems(3) r1 Inr by (auto simp: rollback_def)
      then show ?thesis using step_fails [OF u(1) same_store_refl assms(4) u(3)] by auto
    next
      case False
      then show ?thesis using Cons.IH [OF u(2,1) _ u(3)] Cons.prems(3) r1 Inr by auto
    qed
  qed
qed

lemma glob_undone:
  assumes "uuids_ok env" and "isAbsolute (rd_agentRoot d)" and "calm env" and "fresh_ids env d w"
    and "resolveWorkspaceGlobRef env d r w = (w', Some res)"
  shows "step_undone env d w w' res"
proof (cases "\<exists>e. (w', res) = (w, Inl e)")
  case True
  then show ?thesis using assms(4) by (auto simp: step_kept)
next
  case False
  with assms(5) obtain ms where "glob_files env d ms 0 [] w = (w', res)"
    unfolding resolveWorkspaceGlobRef_def by (auto split: option.splits prod.splits if_splits)
  then show ?thesis
    using glob_files_undone [OF assms(1-4) assms(4), of "[]"] undoes_Nil by simp
qed

lemma resolve_one_undone:
  assumes "uuids_ok env" and "isAbsolute (rd_agentRoot d)" and "calm env" and "fresh_ids env d w"
    and "resolve_one env d r w = (w', Some res)"
  shows "step_undone env d w w' res"
proof (cases "ri_type r")
  case Ref_Tool_Call
  then show ?thesis
    using toolCall_undone [OF assms(1,3,4), of r] assms(5)
    by (cases "resolveToolCallRef env d r w") (auto simp: resolve_one_def single_def split: sum.splits)
next
  case Ref_Base64
  then show ?thesis
    using base64_undone [OF assms(1-4), of r] assms(5)
    by (cases "resolveBase64Ref env d r w") (auto simp: resolve_one_def single_def split: sum.splits)
next
  case Ref_Path
  then show ?thesis
    using workspacePath_undone [OF assms(1-4), of r] assms(5)
    by (cases "resolveWorkspacePathRef env d r w") (auto simp: resolve_one_def single_def split: sum.splits)
next
  case Ref_Glob
  then show ?thesis using glob_undone [OF assms(1-4)] assms(5) by (simp add: resolve_one_def)
qed

lemma resolve_refs_undone:
  assumes "uuids_ok env" and "isAbsolute (rd_agentRoot d)" and "calm env" and "fresh_ids env d w"
  shows "fresh_ids env d v \<Longrightarrow> undoes env (rd_org d) (map handle_of acc) w v \<Longrightarrow> sw_drawn w \<le> sw_drawn v \<Longrightarrow>
    resolve_refs env d rs acc v = (w', Refused e) \<Longrightarrow> same_store w' w"
proof (induction rs arbitrary: acc v)
  case (Cons r rs)
  obtain v1 o1 where o1: "resolve_one env d r v = (v1, o1)" by (cases "resolve_one env d r v")
  then obtain res where res: "o1 = Some res" using Cons.prems(4) by (cases o1) auto
  have step: "step_undone env d v v1 res" using resolve_one_undone [OF assms(1-3) Cons.prems(1)] o1 res by simp
  show ?case
  proof (cases res)
    case (Inl e')
    then show ?thesis using Cons.prems(2,4) step o1 res by (auto simp: step_undone_def undoes_def)
  next
    case (Inr ms)
    then show ?thesis
      using Cons.IH [of v1 "acc @ ms"] Cons.prems step o1 res undoes_append by (auto simp: step_undone_def)
  qed
qed simp


section \<open>Witnesses\<close>

definition demo_wanted :: "ref_input list" where
  "demo_wanted = [\<lparr>ri_type = Ref_Path, ri_value = ''a.txt'', ri_filename = None, ri_mime = None\<rparr>,
     \<lparr>ri_type = Ref_Tool_Call, ri_value = ''nothing'', ri_filename = None, ri_mime = None\<rparr>]"

lemma demo_refused: "snd (resolveAttachmentRefs demo_att demo_reader demo_wanted empty_store) = Refused (Ref_Malformed ''nothing'')"
  by code_simp


section \<open>What stays behind\<close>

text \<open>The audit still tells of the attachment that was undone.\<close>

lemma refused_keeps_audit: "sw_audit (fst (resolveAttachmentRefs demo_att demo_reader demo_wanted empty_store)) = [\<lparr>ad_row = ''aatt_'', ad_fromTool = False\<rparr>]"
  by code_simp

text \<open>A pattern that is no regular expression is not refused: the exception skips the rollback.\<close>

definition bad_pattern :: "ref_input list" where
  "bad_pattern = [\<lparr>ri_type = Ref_Path, ri_value = ''a.txt'', ri_filename = None, ri_mime = None\<rparr>,
     \<lparr>ri_type = Ref_Glob, ri_value = ''[.txt'', ri_filename = None, ri_mime = None\<rparr>]"

lemma bad_pattern_leaks:
  "case resolveAttachmentRefs demo_att demo_reader bad_pattern empty_store of
     (w, r) \<Rightarrow> r = Threw \<and> map at_filename (sw_users w) = [''a.txt''] \<and> map fst (sw_files w) = [''/store/agent-generated/o/r/aatt_.bin'']"
  by code_simp

end
