(* ===== verification/Spec2Isabelle.thy ===== *)
theory Spec2Isabelle
  imports Prelude Governance JsValues SqlTable ContextStore EventBus Permissions Paths
    ToolRegistry Conversations ToolPolicy Digraph Workflows WorkflowNodes WorkflowEngine
    WorkflowLaws WorkflowSteps WorkflowSafety WorkflowClaims
    Goals GoalSystem GoalLaws GoalSteps GoalSafety GoalClaims
    AgentLoop AgentLoopClaims ModelErrors ReplyGuard
    Quotas Mentions MessageStore MessageStoreClaims WakeDispatch Messaging MessagingOps MessagingLaws MessagingClaims
    JsonText ApprovalScopes ApprovalScopeLaws ToolScopes ToolScopeLaws ScopeClaims
    ApprovalStore ToolGate ApprovalFlow GateLaws GateDemo GateClaims GateGrants
    WakeIntents WakeRuns WakeClaims Cron Scheduler SchedulerClaims Auth AuthClaims
    Attachments AttachmentCapture AttachmentRefs AttachmentFiles AttachmentClaims
begin

text \<open>
  Verification library for Ujima Agents, a control plane for teams of AI agents.

  Parts. An agent's tool call passes the orchestrator's tool gate
  (\<open>services/policy.ts\<close>), which consults the workspace rules
  (\<open>shared/src/workspace-paths.ts\<close>, \<open>workspace-access.ts\<close>), and the permission
  middleware (\<open>packages/permissions\<close>), which evaluates the governance policy
  (\<open>shared/src/governance-policy.ts\<close>) and writes to the audit log of the context store
  (\<open>packages/context-store\<close>). Agents talk over the event bus (\<open>packages/event-bus\<close>), whose
  events the context store keeps for replay. Workflows (\<open>shared/src/workflows.ts\<close>) are
  graphs of steps that the workflow engine (\<open>services/workflow-engine.ts\<close>) drives over
  the tables of \<open>runtime-core\<close>, spawning agents and raising approvals. A goal
  (\<open>services/goal-system.ts\<close>) is a plan with a board of dependent tasks, an approval
  question before it runs, and nudges to the assignees. Members talk in the channels and
  threads of the message store (\<open>runtime-core/src/repositories\<close>); the conversation service
  (\<open>services/conversation.ts\<close>) checks who may write, publishes, and wakes the agents a
  message addresses, within quotas. A wake becomes a run or waits in a table until the runs of
  its thread have ended (\<open>services/index.ts\<close>, \<open>services/pending-member-alerts.ts\<close>); the scheduler
  (\<open>services/scheduler.ts\<close>) posts on its own at the minutes of cron expressions. A woken agent
  runs the agent loop (\<open>agent-core/src/loop.ts\<close>). People hold accounts and sessions
  (\<open>services/auth.ts\<close>), which the routes ask for. Images and documents that tools return are
  captured in a store of attachments, from which, and from the workspace, agents attach files to
  messages (\<open>services/agent-attachment-capture.ts\<close>, \<open>agent-attachment-resolver.ts\<close>). A call that needs consent becomes a row of the approvals table
  (\<open>services/approval.ts\<close>); the decision leaves a permit or a lasting grant, and the run is
  resumed and its waiting calls replayed through the same gates.

  Theories.
  \<^item> \<open>Prelude\<close>: the string functions of the JavaScript library, stable sorting, sets in
    insertion order, and the interfaces (a keyed store, machines with an invariant, a
    monotone machine, a transition relation with a preorder it respects).
  \<^item> \<open>JsValues\<close>: JSON values, \<open>JSON.stringify\<close>, the regular expressions the code tests.
  \<^item> \<open>SqlTable\<close>: tables as lists of rows with insert, upsert, update, delete, \<open>LIKE\<close>.
  \<^item> \<open>Governance\<close>: rules, the evaluator \<open>evaluatePolicy\<close>, every edit of a policy.
  \<^item> \<open>ContextStore\<close>: context entries and their poller, agent and task states, approvals,
    pending events, the audit log.
  \<^item> \<open>EventBus\<close>: \<open>publish\<close>, \<open>subscribe\<close> with replay, \<open>close\<close>.
  \<^item> \<open>Permissions\<close>: the middleware \<open>check\<close>, its overrides, budgets and audit rows.
  \<^item> \<open>Paths\<close>: boundary checks and the path resolver over a file system with links, given by
    the function \<open>realpath\<close> and what exists.
  \<^item> \<open>ToolRegistry\<close>, \<open>Conversations\<close>, \<open>ToolPolicy\<close>: tool lists, thread ids, and
    \<open>checkToolPolicy\<close> with every branch.
  \<^item> \<open>Digraph\<close>, \<open>Workflows\<close>, \<open>WorkflowNodes\<close>: the graph searches, graphs with their
    validator and tokens, and what a node hands to the next.
  \<^item> \<open>WorkflowEngine\<close>: the handlers of the engine over its tables; \<open>WorkflowLaws\<close>,
    \<open>WorkflowSteps\<close>, \<open>WorkflowSafety\<close>: the invariant of the tables, that every handler
    keeps it and loses no row, the histories, fuel and progress; \<open>WorkflowClaims\<close>: the
    properties with their concrete runs.
  \<^item> \<open>Goals\<close>, \<open>GoalSystem\<close>: the tables of goals, tasks and questions, and every operation of
    the goal service over them; \<open>GoalLaws\<close>, \<open>GoalSteps\<close>, \<open>GoalSafety\<close>: the invariant of the
    boards, that every operation keeps it, and the histories; \<open>GoalClaims\<close>: the properties.
  \<^item> \<open>AgentLoop\<close>, \<open>AgentLoopClaims\<close>, \<open>ModelErrors\<close>: the repair of message lists, pauses, the stop
    test and the preparation of steps; the classification of errors. \<open>ReplyGuard\<close>: vacuous
    acknowledgements, mirror chains, the tool that ended a run.
  \<^item> \<open>Quotas\<close>, \<open>Mentions\<close>: sliding windows per key and pair, handles and their scan.
    \<open>MessageStore\<close>, \<open>MessageStoreClaims\<close>: channels, threads, messages and their statements,
    pages and cursors. \<open>WakeDispatch\<close>, \<open>Messaging\<close>, \<open>MessagingOps\<close>: who is woken, the write
    path, and every operation that posts, edits or deletes; \<open>MessagingLaws\<close>,
    \<open>MessagingClaims\<close>: its invariant, histories and properties.
  \<^item> \<open>JsonText\<close>: \<open>JSON.parse\<close> and \<open>encodeURIComponent\<close>, which the code uses on scopes.
    \<open>ApprovalScopes\<close>, \<open>ToolScopes\<close>: the scopes of calls, their parsers and canonical forms,
    grants, the shell tokenizer, redaction; \<open>ApprovalScopeLaws\<close>, \<open>ToolScopeLaws\<close>,
    \<open>ScopeClaims\<close>: what a canonical form keeps, and what a grant covers.
  \<^item> \<open>ApprovalStore\<close>, \<open>ToolGate\<close>, \<open>ApprovalFlow\<close>: the approvals table and permits, both gates of
    a call, and decisions with resumption, replay and cancellation; \<open>GateLaws\<close>, \<open>GateClaims\<close>,
    \<open>GateGrants\<close>: frames, the invariant of the table, and the properties; \<open>GateDemo\<close>: a small
    concrete state for them.
  \<^item> \<open>WakeIntents\<close>, \<open>WakeRuns\<close>, \<open>WakeClaims\<close>: the table of waiting wakes and the drain after a run;
    how alerts become runs around the mutex of a thread, with the steps between two awaits as
    events; the properties of every interleaving.
  \<^item> \<open>Cron\<close>, \<open>Scheduler\<close>, \<open>SchedulerClaims\<close>: cron expressions with the search for the next minute;
    the table of jobs, its requests, and the tick, whose runs interleave with requests; the
    properties.
  \<^item> \<open>Auth\<close>, \<open>AuthClaims\<close>: accounts, passwords, sessions and their tables, with what onboarding and
    workspaces do to them; what a session proves.
  \<^item> \<open>Attachments\<close>, \<open>AttachmentCapture\<close>: the rows and files of attachments, the capture of tool
    results within the quota and the sweep. \<open>AttachmentRefs\<close>, \<open>AttachmentFiles\<close>, \<open>AttachmentClaims\<close>: the
    references of a message, resolved over a tree of files with links; where files come from,
    what patterns find, and that a refusal undoes everything.

  Correspondence. Records have the fields of the code's interfaces with the same names after
  a short prefix; a \<open>null\<close> or \<open>undefined\<close> is \<open>None\<close>; an exception is a value of an error
  type or of \<open>flow\<close>; numbers are integers, since the code only counts, compares and adds
  times; strings are lists of characters, exact for ASCII text. The clock, random ids, the
  file system and what effects answer are arguments or fields of an environment.

  Lemma groups. For each component: what each operation returns on each branch, an invariant
  every operation keeps (\<open>step_intros\<close>), and the properties over them. The policy evaluator
  equals a staged specification; the listing and replay functions equal their set
  comprehensions; the graph searches equal acyclicity and the transitive closure; the
  engine's histories keep dependencies, finality and completeness; the goal service keeps
  boards in dependency order, completed goals completed, and closed questions closed; the
  conversation service alerts active agents only, and its retries change nothing; the permits
  refine a set; what a tool gate runs was authorised, and what a grant covers is exact; however
  wakes interleave, an agent has one run in a thread; a tick of the scheduler leaves nothing due;
  a refused attachment leaves no trace, and attached files lie inside the workspace.

  Bounds and fuel. The depth-first search has the number of nodes as fuel, which each nested
  call uses for a node no other has visited. The step function has two more than the number
  of nodes: each nested call begins with one more node dispatched; \<open>fuel_step\<close> shows that it
  is enough. The chain of dependencies of a task has the number of tasks as fuel: a
  dependency is an earlier row (\<open>deps_ordered\<close>). A path is followed over at most 40 links, the limit
  of the system. The JSON parser has twice the length of its
  text: each nested call is on a shorter rest, and the reading back of what was written shows
  that it is enough. The builder of connector scopes may not return, which is \<open>None\<close>. The other loops are structural or have a proved measure.

  Environment of the tool gate: the permission decision, the tool policy with its goal mode,
  path resolution, the reviewer, what tools answer, the hash, and random ids are functions the
  definitions take; no property assumes more of them than its statement says.

  Not modelled. The handlers of the workflow engine and of the tool gate run one after the
  other: interleavings at an \<open>await\<close> are not represented, nor are snapshots for realtime
  consumers, prompt prose and hashes (those of wakes and of the scheduler are events of their
  histories). Numbers with fractions in JSON texts and characters
  beyond ASCII, message compaction, archives and searches and the text of cards and relays are
  left out. The workspace does not change while attachments are resolved, and regular expressions
  with brackets, braces or backslashes are an argument. Language model adapters, process and transport code, user interfaces, HTTP
  glue, schema text and migrations are left out: they have no logic of their own to state
  properties about, or call code that is not part of the sources.
\<close>

end
